(* ===== verification/Prelude.thy ===== *)
theory Prelude
  imports Main "HOL-Library.Word" "HOL-Library.AList"
begin

text \<open>
  Shared vocabulary of the development: machine integers, the Go values the sources use
  (times, byte strings, decimal and hexadecimal texts), Go errors with their wrapping, and the
  outcome of a call that crosses a process boundary.

  Conventions. A \<open>uint64\<close> is a \<open>64 word\<close>. An \<open>int64\<close>, an \<open>int\<close> and a
  \<open>time.Duration\<close> (nanoseconds) are \<open>int\<close>; where the code computes with them and an
  overflow is possible, the wrap-around is written out with \<open>wrap_i64\<close>. A \<open>time.Time\<close> is
  the number of nanoseconds since the Unix epoch, so \<open>UTC()\<close> is the identity on it. A Go string
  is a list of bytes, that is, a \<open>string\<close>.
\<close>

section \<open>Collections of rewrite rules\<close>

named_theorems go_string \<open>laws of the string and number functions of the Go standard library\<close>
named_theorems go_error \<open>unwrapping of Go errors\<close>

section \<open>Integers\<close>

type_synonym u64 = "64 word"

definition max_i64 :: int where
  "max_i64 = 9223372036854775807"

definition wrap_i64 :: "int \<Rightarrow> int" where
  "wrap_i64 x = (x + 9223372036854775808) mod 18446744073709551616 - 9223372036854775808"

definition in_i64 :: "int \<Rightarrow> bool" where
  "in_i64 x \<longleftrightarrow> - max_i64 - 1 \<le> x \<and> x \<le> max_i64"

lemma wrap_i64_id [simp]: "in_i64 x \<Longrightarrow> wrap_i64 x = x"
  by (simp add: wrap_i64_def in_i64_def max_i64_def)

lemma wrap_i64_range: "in_i64 (wrap_i64 x)"
proof -
  have "0 \<le> (x + 9223372036854775808) mod 18446744073709551616"
    "(x + 9223372036854775808) mod 18446744073709551616 < 18446744073709551616"
    by simp_all
  then show ?thesis unfolding wrap_i64_def in_i64_def max_i64_def by linarith
qed

text \<open>Go's integer division truncates towards zero.\<close>

definition go_div :: "int \<Rightarrow> int \<Rightarrow> int" where
  "go_div a b = sgn a * sgn b * (\<bar>a\<bar> div \<bar>b\<bar>)"

lemma go_div_pos [simp]: "0 \<le> a \<Longrightarrow> 0 < b \<Longrightarrow> go_div a b = a div b"
  by (cases "a = 0") (simp_all add: go_div_def)

section \<open>Times and durations\<close>

type_synonym time = int

abbreviation microsecond :: int where "microsecond \<equiv> 1000"
abbreviation millisecond :: int where "millisecond \<equiv> 1000000"
abbreviation second :: int where "second \<equiv> 1000000000"

text \<open>The zero \<open>time.Time\<close> is January 1 of year 1, 62135596800 seconds before the epoch.\<close>

definition zero_time :: time where
  "zero_time = - 62135596800000000000"

definition IsZero :: "time \<Rightarrow> bool" where
  "IsZero t \<longleftrightarrow> t = zero_time"

definition UnixMilli :: "time \<Rightarrow> int" where
  "UnixMilli t = t div millisecond"

definition UnixMicro :: "time \<Rightarrow> int" where
  "UnixMicro t = t div microsecond"

definition time_UnixMilli :: "int \<Rightarrow> time" where
  "time_UnixMilli ms = ms * millisecond"

text \<open>\<open>Truncate\<close> rounds down to a multiple of the duration since the zero time.\<close>

definition Truncate :: "time \<Rightarrow> int \<Rightarrow> time" where
  "Truncate t d = (if d \<le> 0 then t else t - (t - zero_time) mod d)"

definition Milliseconds :: "int \<Rightarrow> int" where
  "Milliseconds d = go_div d millisecond"

lemma UnixMilli_time_UnixMilli [simp]: "UnixMilli (time_UnixMilli ms) = ms"
  by (simp add: UnixMilli_def time_UnixMilli_def)

lemma Truncate_milli: "Truncate t millisecond = time_UnixMilli (UnixMilli t)"
proof -
  have "(t - zero_time) mod 1000000 = t mod 1000000"
    using mod_mult_self1 [of t 62135596800000 1000000] by (simp add: zero_time_def)
  then show ?thesis
    by (simp add: Truncate_def time_UnixMilli_def UnixMilli_def minus_mod_eq_div_mult)
qed

lemma Truncate_micro: "Truncate t microsecond = t - t mod microsecond"
proof -
  have "(t - zero_time) mod 1000 = t mod 1000"
    using mod_mult_self1 [of t 62135596800000000 1000] by (simp add: zero_time_def)
  then show ?thesis by (simp add: Truncate_def)
qed

lemma UnixMilli_Truncate_micro [simp]: "UnixMilli (Truncate t microsecond) = UnixMilli t"
proof -
  have "(t - t mod 1000) div 1000000 = (t div 1000 * 1000) div (1000 * 1000)" by (simp add: minus_mod_eq_div_mult)
  also have "\<dots> = (t div 1000) div 1000" by (simp only: div_mult_mult2)
  also have "\<dots> = t div 1000000" by (simp add: div_mult2_eq [symmetric] zdiv_zmult2_eq [symmetric])
  finally show ?thesis by (simp add: UnixMilli_def Truncate_micro)
qed

lemma Truncate_milli_idem [simp]:
  "Truncate (Truncate t millisecond) millisecond = Truncate t millisecond"
  by (simp add: Truncate_milli)

lemma UnixMilli_Truncate [simp]: "UnixMilli (Truncate t millisecond) = UnixMilli t"
  by (simp add: Truncate_milli)

lemma Truncate_time_UnixMilli [simp]: "Truncate (time_UnixMilli ms) millisecond = time_UnixMilli ms"
  by (simp add: Truncate_milli)

lemma time_UnixMilli_inject [simp]: "time_UnixMilli a = time_UnixMilli b \<longleftrightarrow> a = b"
  by (simp add: time_UnixMilli_def)

lemma IsZero_time_UnixMilli_pos [simp]: "0 < ms \<Longrightarrow> \<not> IsZero (time_UnixMilli ms)"
  by (simp add: IsZero_def zero_time_def time_UnixMilli_def)

section \<open>Byte strings\<close>

definition byte :: "char \<Rightarrow> nat" where
  "byte c = of_char c"

text \<open>
  \<open>strings.TrimSpace\<close> removes the leading and trailing runes that \<open>unicode.IsSpace\<close> accepts;
  these are their UTF-8 encodings.
\<close>

definition space_runes :: "string list" where
  "space_runes = map (map char_of)
     [[9], [10], [11], [12], [13], [32::nat], [194, 133], [194, 160], [225, 154, 128],
      [226, 128, 128], [226, 128, 129], [226, 128, 130], [226, 128, 131], [226, 128, 132],
      [226, 128, 133], [226, 128, 134], [226, 128, 135], [226, 128, 136], [226, 128, 137],
      [226, 128, 138], [226, 128, 168], [226, 128, 169], [226, 128, 175], [226, 129, 159],
      [227, 128, 128]]"

function strip :: "string list \<Rightarrow> string \<Rightarrow> string" where
  "strip es s =
     (case find (\<lambda>e. e \<noteq> [] \<and> take (length e) s = e) es of
        None \<Rightarrow> s
      | Some e \<Rightarrow> strip es (drop (length e) s))"
  by pat_completeness auto
termination
proof (relation "measure (\<lambda>(es, s). length s)")
  fix es s e
  assume "find (\<lambda>e. e \<noteq> [] \<and> take (length e) s = e) es = Some e"
  then have "e \<noteq> []" and "take (length e) s = e"
    by (auto simp: find_Some_iff)
  then have "0 < length e" and "0 < length s" by auto
  then show "((es, drop (length e) s), es, s) \<in> measure (\<lambda>(es, s). length s)" by simp
qed simp

declare strip.simps [simp del]

definition TrimSpace :: "string \<Rightarrow> string" where
  "TrimSpace s = rev (strip (map rev space_runes) (rev (strip space_runes s)))"

definition printable :: "string \<Rightarrow> bool" where
  "printable s \<longleftrightarrow> (\<forall>c \<in> set s. 33 \<le> byte c \<and> byte c \<le> 126)"

lemma printable_append [simp]: "printable (s @ t) \<longleftrightarrow> printable s \<and> printable t"
  by (auto simp: printable_def)

lemma printable_Cons [simp]: "printable (c # s) \<longleftrightarrow> 33 \<le> byte c \<and> byte c \<le> 126 \<and> printable s"
  by (auto simp: printable_def)

lemma printable_Nil [simp]: "printable []"
  by (simp add: printable_def)

lemma printable_rev [simp]: "printable (rev s) \<longleftrightarrow> printable s"
  by (simp add: printable_def)

lemma space_rune_not_printable:
  "e \<in> set space_runes \<Longrightarrow> c \<in> set e \<Longrightarrow> \<not> (33 \<le> byte c \<and> byte c \<le> 126)"
  by (auto simp: space_runes_def byte_def)

lemma strip_printable:
  assumes "printable s" and "\<forall>e \<in> set es. \<forall>c \<in> set e. \<not> (33 \<le> byte c \<and> byte c \<le> 126)"
  shows "strip es s = s"
proof -
  have "\<not> (e \<noteq> [] \<and> take (length e) s = e)" if "e \<in> set es" for e
  proof
    assume e: "e \<noteq> [] \<and> take (length e) s = e"
    then have "hd e \<in> set e" and "hd e \<in> set s"
      by (auto intro: hd_in_set dest: in_set_takeD) (metis hd_in_set in_set_takeD)
    with assms that show False by (auto simp: printable_def)
  qed
  then have "find (\<lambda>e. e \<noteq> [] \<and> take (length e) s = e) es = None"
    by (auto simp: find_None_iff)
  then show ?thesis by (simp add: strip.simps)
qed

lemma TrimSpace_printable [go_string, simp]:
  assumes "printable s"
  shows "TrimSpace s = s"
proof -
  have 1: "strip space_runes s = s"
    using assms space_rune_not_printable by (intro strip_printable) blast+
  have 2: "strip (map rev space_runes) (rev s) = rev s"
    using assms space_rune_not_printable by (intro strip_printable) (simp, fastforce)
  show ?thesis by (simp add: TrimSpace_def 1 2)
qed

lemma TrimSpace_Nil [simp]: "TrimSpace [] = []"
  by simp

lemma strip_stop: "find (\<lambda>e. e \<noteq> [] \<and> take (length e) (strip es s) = e) es = None"
proof (induction es s rule: strip.induct)
  case (1 es s)
  show ?case
  proof (cases "find (\<lambda>e. e \<noteq> [] \<and> take (length e) s = e) es")
    case None
    then have "strip es s = s" by (subst strip.simps) simp
    with None show ?thesis by simp
  next
    case (Some e)
    then have "strip es s = strip es (drop (length e) s)" by (subst strip.simps) simp
    with 1 [OF Some] show ?thesis by simp
  qed
qed

lemma strip_suffix: "\<exists>p. s = p @ strip es s"
proof (induction es s rule: strip.induct)
  case (1 es s)
  show ?case
  proof (cases "find (\<lambda>e. e \<noteq> [] \<and> take (length e) s = e) es")
    case None
    then show ?thesis by (subst strip.simps) simp
  next
    case (Some e)
    obtain p where "drop (length e) s = p @ strip es (drop (length e) s)" using 1 [OF Some] by blast
    moreover have "strip es s = strip es (drop (length e) s)" using Some by (subst strip.simps) simp
    ultimately show ?thesis by (metis append.assoc append_take_drop_id)
  qed
qed

lemma strip_fixed: "find (\<lambda>e. e \<noteq> [] \<and> take (length e) s = e) es = None \<Longrightarrow> strip es s = s"
  by (subst strip.simps) simp

lemma TrimSpace_idem [simp]: "TrimSpace (TrimSpace s) = TrimSpace s"
proof -
  let ?u = "strip space_runes s" and ?r = "map rev space_runes"
  let ?t = "rev (strip ?r (rev ?u))"
  obtain p where "rev ?u = p @ strip ?r (rev ?u)" using strip_suffix by blast
  then have u: "?u = ?t @ rev p" by (metis rev_append rev_rev_ident)
  have "take (length e) ?u = e" if "take (length e) ?t = e" for e
  proof -
    have "length e \<le> length ?t" using arg_cong [OF that, of length] by simp
    then have "take (length e) (?t @ rev p) = take (length e) ?t" by simp
    with that u show ?thesis by simp
  qed
  then have "strip space_runes ?t = ?t"
    using strip_stop [of space_runes s] by (intro strip_fixed) (auto simp: find_None_iff)
  moreover have "strip ?r (rev ?t) = rev ?t" by (simp add: strip_fixed strip_stop)
  ultimately show ?thesis by (simp add: TrimSpace_def)
qed

definition HasPrefix :: "string \<Rightarrow> string \<Rightarrow> bool" where
  "HasPrefix s p \<longleftrightarrow> take (length p) s = p"

fun Contains :: "string \<Rightarrow> string \<Rightarrow> bool" where
  "Contains [] p \<longleftrightarrow> p = []"
| "Contains (c # s) p \<longleftrightarrow> HasPrefix (c # s) p \<or> Contains s p"

text \<open>\<open>strings.Split(s, sep)\<close> for a separator of one byte.\<close>

fun Split :: "string \<Rightarrow> char \<Rightarrow> string list" where
  "Split [] c = [[]]"
| "Split (x # xs) c =
     (if x = c then [] # Split xs c
      else (case Split xs c of [] \<Rightarrow> [[x]] | y # ys \<Rightarrow> (x # y) # ys))"

lemma Split_none [go_string]: "c \<notin> set s \<Longrightarrow> Split s c = [s]"
  by (induction s) auto

lemma Split_sep [go_string]: "c \<notin> set s \<Longrightarrow> Split (s @ c # t) c = s # Split t c"
  by (induction s) auto

section \<open>Decimal and hexadecimal texts\<close>

definition digit :: "nat \<Rightarrow> char" where
  "digit d = char_of (48 + d)"

definition is_digit :: "char \<Rightarrow> bool" where
  "is_digit c \<longleftrightarrow> 48 \<le> byte c \<and> byte c \<le> 57"

definition digit_val :: "char \<Rightarrow> nat" where
  "digit_val c = byte c - 48"

fun show_nat :: "nat \<Rightarrow> string" where
  "show_nat n = (if n < 10 then [digit n] else show_nat (n div 10) @ [digit (n mod 10)])"

declare show_nat.simps [simp del]

definition FormatUint :: "u64 \<Rightarrow> string" where
  "FormatUint n = show_nat (unat n)"

definition FormatInt :: "int \<Rightarrow> string" where
  "FormatInt i = (if i < 0 then CHR ''-'' # show_nat (nat (- i)) else show_nat (nat i))"

datatype num_error = ErrSyntax | ErrRange

text \<open>
  \<open>strconv.ParseUint(s, 10, 64)\<close> reads from the left and stops at the first byte that is not a
  digit (value 0) or at which the value passes 64 bits (value \<open>2^64-1\<close>); it returns a value in
  every case, and the error next to it.
\<close>

fun parse_uint_loop :: "nat \<Rightarrow> string \<Rightarrow> nat \<times> num_error option" where
  "parse_uint_loop n [] = (n, None)"
| "parse_uint_loop n (c # cs) =
     (if \<not> is_digit c then (0, Some ErrSyntax)
      else if 18446744073709551615 < n * 10 + digit_val c
      then (18446744073709551615, Some ErrRange)
      else parse_uint_loop (n * 10 + digit_val c) cs)"

definition ParseUint :: "string \<Rightarrow> u64 \<times> num_error option" where
  "ParseUint s = (if s = [] then (0, Some ErrSyntax)
     else (case parse_uint_loop 0 s of (n, e) \<Rightarrow> (of_nat n, e)))"

text \<open>\<open>strconv.ParseInt(s, 10, 64)\<close>, and \<open>strconv.Atoi\<close> on a 64-bit platform.\<close>

definition ParseInt :: "string \<Rightarrow> int \<times> num_error option" where
  "ParseInt s = (case s of [] \<Rightarrow> (0, Some ErrSyntax)
     | c # cs \<Rightarrow>
       (let neg = (c = CHR ''-''); body = (if c = CHR ''+'' \<or> c = CHR ''-'' then cs else s)
        in if body = [] then (0, Some ErrSyntax)
           else (case parse_uint_loop 0 body of
               (_, Some ErrSyntax) \<Rightarrow> (0, Some ErrSyntax)
             | (un, _) \<Rightarrow>
                 if \<not> neg \<and> 9223372036854775808 \<le> un then (9223372036854775807, Some ErrRange)
                 else if neg \<and> 9223372036854775808 < un then (- 9223372036854775808, Some ErrRange)
                 else (if neg then - int un else int un, None))))"

definition dec_val :: "nat \<Rightarrow> string \<Rightarrow> nat" where
  "dec_val n s = foldl (\<lambda>a c. a * 10 + digit_val c) n s"

lemma byte_digit: "d < 10 \<Longrightarrow> byte (digit d) = 48 + d"
  by (simp add: byte_def digit_def)

lemma is_digit_digit [simp]: "d < 10 \<Longrightarrow> is_digit (digit d)"
  by (simp add: is_digit_def byte_digit)

lemma digit_val_digit [simp]: "d < 10 \<Longrightarrow> digit_val (digit d) = d"
  by (simp add: digit_val_def byte_digit)

lemma show_nat_digits: "\<forall>c \<in> set (show_nat n). is_digit c"
proof (induction n rule: show_nat.induct)
  case (1 n)
  then show ?case by (subst show_nat.simps) (auto split: if_splits)
qed

lemma show_nat_nonempty [simp]: "show_nat n \<noteq> []"
  by (subst show_nat.simps) simp

lemma dec_val_show_nat [simp]: "dec_val 0 (show_nat n) = n"
proof (induction n rule: show_nat.induct)
  case (1 n)
  then show ?case
    by (subst show_nat.simps) (simp add: dec_val_def)
qed

lemma dec_val_mono: "n \<le> dec_val n s"
proof (induction s arbitrary: n)
  case (Cons c s)
  have "n \<le> n * 10 + digit_val c" by simp
  also have "\<dots> \<le> dec_val (n * 10 + digit_val c) s" by (rule Cons.IH)
  finally show ?case by (simp add: dec_val_def)
qed (simp add: dec_val_def)

lemma parse_uint_loop_ok:
  "\<forall>c \<in> set s. is_digit c \<Longrightarrow> dec_val n s \<le> 18446744073709551615 \<Longrightarrow>
     parse_uint_loop n s = (dec_val n s, None)"
proof (induction s arbitrary: n)
  case (Cons c s)
  have "dec_val (n * 10 + digit_val c) s \<le> 18446744073709551615"
    using Cons.prems by (simp add: dec_val_def)
  moreover from this have "n * 10 + digit_val c \<le> 18446744073709551615"
    using dec_val_mono le_trans by blast
  ultimately show ?case using Cons by (simp add: dec_val_def)
qed (simp add: dec_val_def)

lemma parse_uint_loop_show_nat [simp]:
  "n \<le> 18446744073709551615 \<Longrightarrow> parse_uint_loop 0 (show_nat n) = (n, None)"
  by (simp add: parse_uint_loop_ok show_nat_digits)

lemma unat_u64_bound: "unat (n :: u64) \<le> 18446744073709551615"
proof -
  have "unat n < 2 ^ LENGTH(64)" by (rule unsigned_less)
  then show ?thesis by simp
qed

lemma ParseUint_FormatUint [go_string, simp]: "ParseUint (FormatUint n) = (n, None)"
  by (simp add: ParseUint_def FormatUint_def unat_u64_bound)

lemma FormatUint_inject [simp]: "FormatUint a = FormatUint b \<longleftrightarrow> a = b"
  by (metis ParseUint_FormatUint fst_conv)

lemma show_nat_hd: "\<exists>c cs. show_nat n = c # cs \<and> is_digit c"
  using show_nat_digits [of n] by (cases "show_nat n") auto

lemma sign_not_digit [simp]: "\<not> is_digit (CHR ''-'')" "\<not> is_digit (CHR ''+'')"
  by (simp_all add: is_digit_def byte_def)

lemma ParseInt_FormatInt [go_string, simp]:
  assumes "in_i64 i"
  shows "ParseInt (FormatInt i) = (i, None)"
proof (cases "i < 0")
  case True
  with assms have "nat (- i) \<le> 9223372036854775808"
    by (simp add: in_i64_def max_i64_def)
  with True show ?thesis by (simp add: ParseInt_def FormatInt_def)
next
  case False
  obtain c cs where c: "show_nat (nat i) = c # cs" "is_digit c"
    using show_nat_hd by blast
  then have "c \<noteq> CHR ''-''" "c \<noteq> CHR ''+''" by auto
  moreover from False assms have "nat i < 9223372036854775808"
    by (simp add: in_i64_def max_i64_def)
  moreover from this have "parse_uint_loop 0 (c # cs) = (nat i, None)"
    unfolding c(1) [symmetric] by (intro parse_uint_loop_show_nat) simp
  ultimately show ?thesis using False
    by (simp add: ParseInt_def FormatInt_def c(1) Let_def)
qed

lemma FormatInt_inject: "in_i64 a \<Longrightarrow> in_i64 b \<Longrightarrow> FormatInt a = FormatInt b \<longleftrightarrow> a = b"
  by (metis ParseInt_FormatInt fst_conv)

lemma digits_printable: "\<forall>c \<in> set s. is_digit c \<Longrightarrow> printable s"
  by (auto simp: printable_def is_digit_def)

lemma printable_show_nat [simp]: "printable (show_nat n)"
  by (rule digits_printable) (rule show_nat_digits)

lemma printable_FormatUint [simp]: "printable (FormatUint n)"
  by (simp add: FormatUint_def)

lemma printable_FormatInt [simp]: "printable (FormatInt i)"
  by (simp add: FormatInt_def byte_def)

lemma FormatUint_nonempty [simp]: "FormatUint n \<noteq> []"
  by (simp add: FormatUint_def)

lemma FormatInt_nonempty [simp]: "FormatInt i \<noteq> []"
  by (simp add: FormatInt_def)

lemma nondigit_not_in_FormatUint [go_string]: "\<not> is_digit c \<Longrightarrow> c \<notin> set (FormatUint n)"
  using show_nat_digits by (auto simp: FormatUint_def)

definition hex_digit :: "nat \<Rightarrow> char" where
  "hex_digit d = (if d < 10 then char_of (48 + d) else char_of (87 + d))"

definition is_hex :: "char \<Rightarrow> bool" where
  "is_hex c \<longleftrightarrow> (48 \<le> byte c \<and> byte c \<le> 57) \<or> (97 \<le> byte c \<and> byte c \<le> 102) \<or>
     (65 \<le> byte c \<and> byte c \<le> 70)"

definition hex_EncodeToString :: "8 word list \<Rightarrow> string" where
  "hex_EncodeToString bs =
     concat (map (\<lambda>b. [hex_digit (unat b div 16), hex_digit (unat b mod 16)]) bs)"

text \<open>Whether \<open>hex.DecodeString\<close> succeeds; the sources only look at its error.\<close>

definition hex_decodable :: "string \<Rightarrow> bool" where
  "hex_decodable s \<longleftrightarrow> even (length s) \<and> list_all is_hex s"

lemma is_hex_hex_digit [simp]: "d < 16 \<Longrightarrow> is_hex (hex_digit d)"
  by (auto simp: is_hex_def hex_digit_def byte_def)

lemma unat_byte_div: "unat (b :: 8 word) div 16 < 16"
proof -
  have "unat b < 2 ^ LENGTH(8)" by (rule unsigned_less)
  then show ?thesis by simp
qed

lemma length_hex_Encode [simp]: "length (hex_EncodeToString bs) = 2 * length bs"
  by (induction bs) (simp_all add: hex_EncodeToString_def)

lemma hex_chars: "c \<in> set (hex_EncodeToString bs) \<Longrightarrow> is_hex c"
  by (auto simp: hex_EncodeToString_def unat_byte_div)

lemma hex_decodable_Encode [simp]: "hex_decodable (hex_EncodeToString bs)"
  by (simp add: hex_decodable_def list_all_iff hex_chars)

lemma printable_hex_Encode [simp]: "printable (hex_EncodeToString bs)"
  by (auto simp: printable_def dest!: hex_chars simp: is_hex_def)

section \<open>Errors\<close>

text \<open>
  The package-level error variables of the sources (and of the standard library's
  \<open>context\<close> package). A name two packages share carries the package.
\<close>

datatype sentinel =
    ErrInvalidArgument | ErrActivityNotFound | ErrItemNotFound | ErrUnavailable | ErrOutOfStock
  | ErrInventoryBusy | ErrConflict | ErrCacheNotReady | ErrAdmissionFailure | ErrNoItems
  | ErrAsyncResultNotFound | ErrQueueUnavailable
  | errDuplicateClaim | errOptimisticConflict
  | ErrInvalidStreamMessage | ErrUnsupportedStreamMessage
  | ErrRPCRequestRejected | ErrRPCDependencyUnavailable | ErrReservedWithoutOrder
  | ErrProjectionConflict
  | ErrInvalidOrder | ErrOrderNotFound | ErrOrderConflict
  | ErrInvalidEvent | ErrUnsupportedVersion
  | ErrPermanent | ErrInvalidBudget
  | Notification_ErrInvalidArgument | ErrNotificationNotFound
  | ErrInvalidEmail | ErrInvalidPassword | ErrUserAlreadyExists | ErrInvalidCredentials
  | ErrUserNotFound | ErrRoleAssignmentConflict | RBAC_ErrUserNotFound
  | ErrInvalidProduct | ErrProductNotFound | ErrSKUNotFound | ErrProductConflict
  | ErrTokenInvalid | ErrTokenExpired
  | Context_Canceled | Context_DeadlineExceeded
  | Redis_Nil

text \<open>The codes of the gRPC status protocol.\<close>

datatype code =
    OK | Canceled | Unknown | InvalidArgument | DeadlineExceeded | NotFound | AlreadyExists
  | PermissionDenied | ResourceExhausted | FailedPrecondition | Aborted | OutOfRange
  | Unimplemented | Internal | Unavailable | DataLoss | Unauthenticated

text \<open>The business codes of \<open>api/proto/common/v1\<close>, and the detail a status may carry.\<close>

datatype error_code =
    ERROR_CODE_UNSPECIFIED | ERROR_CODE_INVALID_ARGUMENT | ERROR_CODE_NOT_FOUND | ERROR_CODE_CONFLICT
  | ERROR_CODE_UNAUTHENTICATED | ERROR_CODE_PERMISSION_DENIED | ERROR_CODE_OUT_OF_STOCK
  | ERROR_CODE_TEMPORARILY_UNAVAILABLE | ERROR_CODE_INTERNAL

record error_detail =
  ed_Code :: error_code
  ed_Retryable :: bool

text \<open>
  A Go error value: an error variable, a \<open>fmt.Errorf\<close> with \<open>%w\<close> (\<open>Wrapf\<close>: the text before
  the error it wraps), a \<open>fmt.Errorf("%w: %v")\<close> (\<open>Caused\<close>: the error it wraps and the printed
  cause, which \<open>errors.Is\<close> cannot reach), a \<open>fmt.Errorf\<close> or \<open>errors.New\<close> without a cause (\<open>Plain\<close>),
  the driver's \<open>*mysql.MySQLError\<close> with its number, a gRPC status with its code, message and detail, or
  a \<open>PublicError\<close> of the services with its code, detail, message and hidden cause.
\<close>

datatype goerr =
    Sentinel sentinel
  | Wrapf string goerr
  | Caused goerr string
  | Plain string
  | MySQLError nat
  | Status code string "error_detail option"
  | PublicError code error_detail string goerr

primrec errors_Is :: "goerr \<Rightarrow> sentinel \<Rightarrow> bool" where
  "errors_Is (Sentinel s) t = (s = t)"
| "errors_Is (Wrapf _ e) t = errors_Is e t"
| "errors_Is (Caused e _) t = errors_Is e t"
| "errors_Is (Plain _) t = False"
| "errors_Is (MySQLError _) t = False"
| "errors_Is (Status _ _ _) t = False"
| "errors_Is (PublicError _ _ _ e) t = errors_Is e t"

text \<open>\<open>errors.As\<close> to \<open>*mysql.MySQLError\<close>, with the number 1062 of a duplicate key.\<close>

primrec errors_As_MySQL :: "goerr \<Rightarrow> nat option" where
  "errors_As_MySQL (MySQLError n) = Some n"
| "errors_As_MySQL (Wrapf _ e) = errors_As_MySQL e"
| "errors_As_MySQL (Caused e _) = errors_As_MySQL e"
| "errors_As_MySQL (Sentinel _) = None"
| "errors_As_MySQL (Plain _) = None"
| "errors_As_MySQL (Status _ _ _) = None"
| "errors_As_MySQL (PublicError _ _ _ e) = errors_As_MySQL e"

text \<open>The text of an error variable, as its \<open>errors.New\<close> gives it.\<close>

primrec sentinel_text :: "sentinel \<Rightarrow> string" where
  "sentinel_text ErrInvalidArgument = ''invalid seckill argument''"
| "sentinel_text ErrActivityNotFound = ''seckill activity not found''"
| "sentinel_text ErrItemNotFound = ''seckill item not found''"
| "sentinel_text ErrUnavailable = ''seckill unavailable''"
| "sentinel_text ErrOutOfStock = ''seckill item out of stock''"
| "sentinel_text ErrInventoryBusy = ''seckill inventory contention exceeded retry limit''"
| "sentinel_text ErrConflict = ''seckill conflict''"
| "sentinel_text ErrCacheNotReady = ''seckill cache not ready''"
| "sentinel_text ErrAdmissionFailure = ''seckill admission infrastructure unavailable''"
| "sentinel_text ErrNoItems = ''seckill activity has no items''"
| "sentinel_text ErrAsyncResultNotFound = ''seckill async order result not found''"
| "sentinel_text ErrQueueUnavailable = ''seckill async queue unavailable''"
| "sentinel_text errDuplicateClaim = ''duplicate seckill claim''"
| "sentinel_text errOptimisticConflict = ''optimistic stock version conflict''"
| "sentinel_text ErrInvalidStreamMessage = ''invalid seckill stream message''"
| "sentinel_text ErrUnsupportedStreamMessage = ''unsupported seckill stream message''"
| "sentinel_text ErrRPCRequestRejected = ''orchestrator RPC request permanently rejected''"
| "sentinel_text ErrRPCDependencyUnavailable = ''orchestrator RPC dependency unavailable''"
| "sentinel_text ErrReservedWithoutOrder = ''inventory reserved but order not confirmed''"
| "sentinel_text ErrProjectionConflict = ''seckill result projection ownership conflict''"
| "sentinel_text ErrInvalidOrder = ''invalid order''"
| "sentinel_text ErrOrderNotFound = ''order not found''"
| "sentinel_text ErrOrderConflict = ''order idempotency payload conflict''"
| "sentinel_text ErrInvalidEvent = ''invalid order event''"
| "sentinel_text ErrUnsupportedVersion = ''unsupported order event schema version''"
| "sentinel_text ErrPermanent = ''permanent message error''"
| "sentinel_text ErrInvalidBudget = ''rpc budget must be positive and parent context must not be nil''"
| "sentinel_text Notification_ErrInvalidArgument = ''invalid notification argument''"
| "sentinel_text ErrNotificationNotFound = ''notification not found''"
| "sentinel_text ErrInvalidEmail = ''invalid email''"
| "sentinel_text ErrInvalidPassword = ''invalid password''"
| "sentinel_text ErrUserAlreadyExists = ''user already exists''"
| "sentinel_text ErrInvalidCredentials = ''invalid credentials''"
| "sentinel_text ErrUserNotFound = ''user not found''"
| "sentinel_text ErrRoleAssignmentConflict = ''role assignment conflict''"
| "sentinel_text RBAC_ErrUserNotFound = ''RBAC user not found''"
| "sentinel_text ErrInvalidProduct = ''invalid product''"
| "sentinel_text ErrProductNotFound = ''product not found''"
| "sentinel_text ErrSKUNotFound = ''product SKU not found''"
| "sentinel_text ErrProductConflict = ''product conflict''"
| "sentinel_text ErrTokenInvalid = ''invalid access token''"
| "sentinel_text ErrTokenExpired = ''access token expired''"
| "sentinel_text Context_Canceled = ''context canceled''"
| "sentinel_text Context_DeadlineExceeded = ''context deadline exceeded''"
| "sentinel_text Redis_Nil = ''redis: nil''"

primrec err_text :: "goerr \<Rightarrow> string" where
  "err_text (Sentinel s) = sentinel_text s"
| "err_text (Wrapf m e) = m @ '': '' @ err_text e"
| "err_text (Caused e m) = err_text e @ '': '' @ m"
| "err_text (Plain m) = m"
| "err_text (MySQLError n) = ''Error '' @ show_nat n"
| "err_text (Status c m d) = ''rpc error: '' @ m"
| "err_text (PublicError c d m e) = m"

type_synonym 'a result = "goerr + 'a"

abbreviation fail :: "sentinel \<Rightarrow> 'a result" where
  "fail s \<equiv> Inl (Sentinel s)"

section \<open>Calls to another process\<close>

text \<open>
  A command sent to Redis or MySQL is executed and answered (\<open>Done\<close>), not executed and answered
  with an error (\<open>Lost_before\<close>: refused connection, expired deadline, server error), or executed
  with its answer lost (\<open>Lost_after\<close>: the caller sees an error although the effect is there). Other
  processes may change the server's state before the command is executed: \<open>interference\<close>.
  A call takes both from its environment, so a statement about all environments covers every
  failure and every interleaving with other clients between two calls.
\<close>

datatype outcome = Done | Lost_before goerr | Lost_after goerr

record 's step_env =
  interference :: "'s \<Rightarrow> 's"
  outcome_of :: outcome

text \<open>The environment of a sequence of calls: the behaviour met by the first, the second, \<open>\<dots>\<close>\<close>

type_synonym 's env = "nat \<Rightarrow> 's step_env"

definition call :: "'s step_env \<Rightarrow> ('s \<Rightarrow> 'a result \<times> 's) \<Rightarrow> 's \<Rightarrow> 'a result \<times> 's" where
  "call c f s = (let s0 = interference c s in
     case outcome_of c of
       Done \<Rightarrow> f s0
     | Lost_before e \<Rightarrow> (Inl e, s0)
     | Lost_after e \<Rightarrow> (Inl e, snd (f s0)))"

definition quiet :: "'s env" where
  "quiet = (\<lambda>_. \<lparr>interference = id, outcome_of = Done\<rparr>)"

lemma call_quiet [simp]: "call (quiet k) f s = f s"
  by (simp add: call_def quiet_def)

text \<open>
  Rely/guarantee: if the interference respects a relation and so does the command, the whole
  call does, whatever its outcome.
\<close>

lemma call_respects:
  assumes trans: "\<And>a b c. R a b \<Longrightarrow> R b c \<Longrightarrow> R a c"
    and rely: "\<And>s. R s (interference c s)"
    and guar: "\<And>s. R s (snd (f s))"
  shows "R s (snd (call c f s))"
proof -
  have "R s (snd (f (interference c s)))" using assms by blast
  then show ?thesis using rely by (simp add: call_def Let_def split: outcome.splits)
qed

lemma call_Inr:
  assumes "call c f s = (Inr x, s')"
  shows "f (interference c s) = (Inr x, s')"
  using assms by (simp add: call_def Let_def split: outcome.splits)

end
