(* ===== verification/Redis.thy ===== *)
theory Redis
  imports Prelude
begin

text \<open>
  The Redis commands that the Lua scripts and the Go code of the sources use, on a keyspace of
  hashes and streams with expiry times. A hash is the list of its fields; a key without fields
  does not exist. The server clock is part of the state; a key whose expiry time has passed is gone.
  The laws the scripts rely on are stated as the locale \<open>hash_store\<close> and proved for this keyspace.
\<close>

section \<open>Keyspace\<close>

type_synonym key = string
type_synonym argv = string
type_synonym fields = "(string \<times> string) list"

text \<open>
  A consumer group: the number of entries added to the stream before the group's last delivery, and
  the pending entries list with the time of the last delivery of each.
\<close>

record group =
  last_delivered :: nat
  pending :: "(string \<times> nat) list"

text \<open>A stream: its entries with their position in the order of all entries ever added.\<close>

record stream =
  entries :: "(nat \<times> string \<times> fields) list"
  added :: nat
  last_id :: "nat \<times> nat"
  groups :: "(string \<times> group) list"

record redis =
  clock :: nat
  hashes :: "string \<Rightarrow> fields"
  streams :: "string \<Rightarrow> stream option"
  expiry :: "string \<Rightarrow> int option"
  scripts :: "string list"

definition empty_redis :: redis where
  "empty_redis = \<lparr>clock = 0, hashes = (\<lambda>_. []), streams = (\<lambda>_. None), expiry = (\<lambda>_. None),
     scripts = []\<rparr>"

definition key_exists :: "redis \<Rightarrow> string \<Rightarrow> bool" where
  "key_exists r k \<longleftrightarrow> hashes r k \<noteq> [] \<or> streams r k \<noteq> None"

section \<open>Keys and expiry\<close>

definition DEL :: "redis \<Rightarrow> string \<Rightarrow> redis" where
  "DEL r k = r\<lparr>hashes := (hashes r)(k := []), streams := (streams r)(k := None),
     expiry := (expiry r)(k := None)\<rparr>"

definition PEXPIREAT :: "redis \<Rightarrow> string \<Rightarrow> int \<Rightarrow> redis" where
  "PEXPIREAT r k t = (if \<not> key_exists r k then r
     else if t \<le> int (clock r) then DEL r k
     else r\<lparr>expiry := (expiry r)(k \<mapsto> t)\<rparr>)"

definition PEXPIRE :: "redis \<Rightarrow> string \<Rightarrow> int \<Rightarrow> redis" where
  "PEXPIRE r k ttl = PEXPIREAT r k (int (clock r) + ttl)"

definition PTTL :: "redis \<Rightarrow> string \<Rightarrow> int" where
  "PTTL r k = (if \<not> key_exists r k then - 2
     else (case expiry r k of None \<Rightarrow> - 1 | Some t \<Rightarrow> t - int (clock r)))"

text \<open>The passing of time: the clock moves and the keys whose expiry time it reaches disappear.\<close>

definition expired :: "redis \<Rightarrow> nat \<Rightarrow> string \<Rightarrow> bool" where
  "expired r t k \<longleftrightarrow> (case expiry r k of None \<Rightarrow> False | Some x \<Rightarrow> x \<le> int t)"

definition tick :: "redis \<Rightarrow> nat \<Rightarrow> redis" where
  "tick r dt = (let t = clock r + dt in
     r\<lparr>clock := t,
       hashes := (\<lambda>k. if expired r t k then [] else hashes r k),
       streams := (\<lambda>k. if expired r t k then None else streams r k),
       expiry := (\<lambda>k. if expired r t k then None else expiry r k)\<rparr>)"

section \<open>Hashes\<close>

definition HGET :: "redis \<Rightarrow> string \<Rightarrow> string \<Rightarrow> string option" where
  "HGET r k f = map_of (hashes r k) f"

definition HSET :: "redis \<Rightarrow> string \<Rightarrow> string \<Rightarrow> string \<Rightarrow> redis" where
  "HSET r k f v = r\<lparr>hashes := (hashes r)(k := AList.update f v (hashes r k))\<rparr>"

fun HSET_all :: "redis \<Rightarrow> string \<Rightarrow> fields \<Rightarrow> redis" where
  "HSET_all r k [] = r"
| "HSET_all r k ((f, v) # fs) = HSET_all (HSET r k f v) k fs"

definition HDEL :: "redis \<Rightarrow> string \<Rightarrow> string \<Rightarrow> redis" where
  "HDEL r k f = (let fs = AList.delete f (hashes r k) in
     r\<lparr>hashes := (hashes r)(k := fs),
       expiry := (if fs = [] \<and> streams r k = None then (expiry r)(k := None) else expiry r)\<rparr>)"

definition HLEN :: "redis \<Rightarrow> string \<Rightarrow> nat" where
  "HLEN r k = length (hashes r k)"

text \<open>
  \<open>HINCRBY\<close> reads the field as a 64-bit integer (a missing field as 0) and fails without an
  effect when it is not one or the sum overflows.
\<close>

definition HINCRBY :: "redis \<Rightarrow> string \<Rightarrow> string \<Rightarrow> int \<Rightarrow> (int \<times> redis) option" where
  "HINCRBY r k f d =
     (case (case HGET r k f of None \<Rightarrow> (0, None) | Some s \<Rightarrow> ParseInt s) of
        (_, Some _) \<Rightarrow> None
      | (n, None) \<Rightarrow> if in_i64 (n + d) then Some (n + d, HSET r k f (FormatInt (n + d))) else None)"

section \<open>Streams\<close>

definition show_id :: "nat \<times> nat \<Rightarrow> string" where
  "show_id i = show_nat (fst i) @ CHR ''-'' # show_nat (snd i)"

definition empty_stream :: stream where
  "empty_stream = \<lparr>entries = [], added = 0, last_id = (0, 0), groups = []\<rparr>"

definition get_stream :: "redis \<Rightarrow> string \<Rightarrow> stream" where
  "get_stream r k = (case streams r k of None \<Rightarrow> empty_stream | Some s \<Rightarrow> s)"

definition stream_entries :: "redis \<Rightarrow> string \<Rightarrow> (string \<times> fields) list" where
  "stream_entries r k = map snd (entries (get_stream r k))"

text \<open>\<open>XADD key *\<close>: the identifier is the server's time, or follows the last one.\<close>

definition next_id :: "nat \<Rightarrow> nat \<times> nat \<Rightarrow> nat \<times> nat" where
  "next_id now l = (if fst l < now then (now, 0) else (fst l, snd l + 1))"

definition XADD :: "redis \<Rightarrow> string \<Rightarrow> fields \<Rightarrow> redis" where
  "XADD r k fs = (let s = get_stream r k; i = next_id (clock r) (last_id s) in
     r\<lparr>streams := (streams r)(k \<mapsto>
         s\<lparr>entries := entries s @ [(added s, show_id i, fs)], added := added s + 1, last_id := i\<rparr>)\<rparr>)"

definition upd_group :: "stream \<Rightarrow> string \<Rightarrow> (group \<Rightarrow> group) \<Rightarrow> stream" where
  "upd_group s g h = (case map_of (groups s) g of None \<Rightarrow> s
     | Some x \<Rightarrow> s\<lparr>groups := AList.update g (h x) (groups s)\<rparr>)"

definition pending_ids :: "redis \<Rightarrow> string \<Rightarrow> string \<Rightarrow> string list" where
  "pending_ids r k g = (case map_of (groups (get_stream r k)) g of None \<Rightarrow> []
     | Some x \<Rightarrow> map fst (pending x))"

definition XACK :: "redis \<Rightarrow> string \<Rightarrow> string \<Rightarrow> string \<Rightarrow> redis" where
  "XACK r k g i = (case streams r k of None \<Rightarrow> r
     | Some s \<Rightarrow> r\<lparr>streams := (streams r)(k \<mapsto>
         upd_group s g (\<lambda>x. x\<lparr>pending := filter (\<lambda>p. fst p \<noteq> i) (pending x)\<rparr>))\<rparr>)"

definition XDEL :: "redis \<Rightarrow> string \<Rightarrow> string \<Rightarrow> redis" where
  "XDEL r k i = (case streams r k of None \<Rightarrow> r
     | Some s \<Rightarrow> r\<lparr>streams := (streams r)(k \<mapsto>
         s\<lparr>entries := filter (\<lambda>e. fst (snd e) \<noteq> i) (entries s)\<rparr>)\<rparr>)"

text \<open>\<open>XGROUP CREATE key group 0\<close>: without \<open>MKSTREAM\<close> the key has to exist.\<close>

definition XGROUP_CREATE :: "redis \<Rightarrow> string \<Rightarrow> string \<Rightarrow> unit result \<times> redis" where
  "XGROUP_CREATE r k g = (case streams r k of
       None \<Rightarrow> (Inl (Plain ''ERR The XGROUP subcommand requires the key to exist''), r)
     | Some s \<Rightarrow>
         if map_of (groups s) g \<noteq> None
         then (Inl (Plain ''BUSYGROUP Consumer Group name already exists''), r)
         else (Inr (), r\<lparr>streams := (streams r)(k \<mapsto>
             s\<lparr>groups := AList.update g \<lparr>last_delivered = 0, pending = []\<rparr> (groups s)\<rparr>)\<rparr>))"

text \<open>\<open>XREADGROUP GROUP g \<dots> COUNT n STREAMS key >\<close>: the entries never delivered to the group.\<close>

definition XREADGROUP :: "redis \<Rightarrow> string \<Rightarrow> string \<Rightarrow> nat \<Rightarrow> (string \<times> fields) list result \<times> redis" where
  "XREADGROUP r k g n = (case streams r k of
       None \<Rightarrow> (Inl (Plain ''NOGROUP No such key or consumer group''), r)
     | Some s \<Rightarrow> (case map_of (groups s) g of
           None \<Rightarrow> (Inl (Plain ''NOGROUP No such key or consumer group''), r)
         | Some x \<Rightarrow>
             (let new = take n (filter (\<lambda>e. last_delivered x \<le> fst e) (entries s)) in
              if new = [] then (fail Redis_Nil, r)
              else (Inr (map snd new), r\<lparr>streams := (streams r)(k \<mapsto>
                  upd_group s g (\<lambda>x. x\<lparr>last_delivered := fst (last new) + 1,
                    pending := pending x @ map (\<lambda>e. (fst (snd e), clock r)) new\<rparr>))\<rparr>))))"

text \<open>
  \<open>XAUTOCLAIM key g consumer minIdle 0-0 COUNT n\<close>: the pending entries that were delivered at
  least \<open>minIdle\<close> ago get a new delivery time; a pending identifier whose entry was deleted leaves
  the list.
\<close>

definition XAUTOCLAIM :: "redis \<Rightarrow> string \<Rightarrow> string \<Rightarrow> nat \<Rightarrow> nat \<Rightarrow> (string \<times> fields) list result \<times> redis" where
  "XAUTOCLAIM r k g minIdle n = (case streams r k of
       None \<Rightarrow> (Inl (Plain ''NOGROUP No such key or consumer group''), r)
     | Some s \<Rightarrow> (case map_of (groups s) g of
           None \<Rightarrow> (Inl (Plain ''NOGROUP No such key or consumer group''), r)
         | Some x \<Rightarrow>
             (let due = take n (filter (\<lambda>p. snd p + minIdle \<le> clock r) (pending x));
                  lookup = (\<lambda>i. find (\<lambda>e. fst e = i) (map snd (entries s)));
                  live = filter (\<lambda>p. lookup (fst p) \<noteq> None) due;
                  dead = filter (\<lambda>p. lookup (fst p) = None) due
              in (Inr (map (\<lambda>p. the (lookup (fst p))) live), r\<lparr>streams := (streams r)(k \<mapsto>
                  upd_group s g (\<lambda>x. x\<lparr>pending :=
                    map (\<lambda>p. if p \<in> set live then (fst p, clock r) else p)
                      (filter (\<lambda>p. p \<notin> set dead) (pending x))\<rparr>))\<rparr>))))"

section \<open>Laws\<close>

text \<open>What the scripts rely on: reads of a hash after a write, and that writes touch one key.\<close>

locale hash_store =
  fixes hget :: "'r \<Rightarrow> string \<Rightarrow> string \<Rightarrow> string option"
    and hset :: "'r \<Rightarrow> string \<Rightarrow> string \<Rightarrow> string \<Rightarrow> 'r"
    and hdel :: "'r \<Rightarrow> string \<Rightarrow> string \<Rightarrow> 'r"
    and hincrby :: "'r \<Rightarrow> string \<Rightarrow> string \<Rightarrow> int \<Rightarrow> (int \<times> 'r) option"
  assumes hget_hset: "hget (hset r k f v) k' f' = (if k = k' \<and> f = f' then Some v else hget r k' f')"
    and hget_hdel: "hget (hdel r k f) k' f' = (if k = k' \<and> f = f' then None else hget r k' f')"
    and hincrby_int: "hget r k f = Some (FormatInt n) \<Longrightarrow> in_i64 n \<Longrightarrow> in_i64 (n + d) \<Longrightarrow>
           hincrby r k f d = Some (n + d, hset r k f (FormatInt (n + d)))"
    and hincrby_new: "hget r k f = None \<Longrightarrow> in_i64 d \<Longrightarrow>
           hincrby r k f d = Some (d, hset r k f (FormatInt d))"
begin

lemma hset_overwrite: "hget (hset (hset r k f v) k f w) = hget (hset r k f w)"
  by (auto simp: fun_eq_iff hget_hset)

lemma hset_commute:
  "(k, f) \<noteq> (k', f') \<Longrightarrow> hget (hset (hset r k f v) k' f' w) = hget (hset (hset r k' f' w) k f v)"
  by (auto simp: fun_eq_iff hget_hset)

text \<open>A field used as a counter: counting up to \<open>n\<close> and down again.\<close>

lemma hincrby_counter:
  assumes "hget r k f = Some (FormatInt n)" "in_i64 n" "in_i64 (n + d)" "in_i64 (n + d + e)"
  shows "\<exists>r1 r2. hincrby r k f d = Some (n + d, r1) \<and> hincrby r1 k f e = Some (n + d + e, r2)
    \<and> hget r2 k f = Some (FormatInt (n + d + e))"
proof -
  let ?r1 = "hset r k f (FormatInt (n + d))"
  have "hincrby r k f d = Some (n + d, ?r1)" using assms by (simp add: hincrby_int)
  moreover have "hincrby ?r1 k f e = Some (n + d + e, hset ?r1 k f (FormatInt (n + d + e)))"
    using assms by (simp add: hincrby_int hget_hset)
  moreover have "hget (hset ?r1 k f (FormatInt (n + d + e))) k f = Some (FormatInt (n + d + e))"
    by (simp add: hget_hset)
  ultimately show ?thesis by blast
qed

end

lemma hashes_HSET: "hashes (HSET r k f v) = (hashes r)(k := AList.update f v (hashes r k))"
  by (simp add: HSET_def)

lemma HSET_frame [simp]:
  "clock (HSET r k f v) = clock r" "streams (HSET r k f v) = streams r"
  "expiry (HSET r k f v) = expiry r" "scripts (HSET r k f v) = scripts r"
  "k' \<noteq> k \<Longrightarrow> hashes (HSET r k f v) k' = hashes r k'"
  by (simp_all add: HSET_def)

lemma HDEL_frame [simp]:
  "clock (HDEL r k f) = clock r" "streams (HDEL r k f) = streams r"
  "scripts (HDEL r k f) = scripts r" "k' \<noteq> k \<Longrightarrow> hashes (HDEL r k f) k' = hashes r k'"
  by (simp_all add: HDEL_def Let_def)

lemma HGET_HSET: "HGET (HSET r k f v) k' f' = (if k = k' \<and> f = f' then Some v else HGET r k' f')"
  by (auto simp: HGET_def HSET_def update_conv')

lemma HGET_HDEL: "HGET (HDEL r k f) k' f' = (if k = k' \<and> f = f' then None else HGET r k' f')"
  by (auto simp: HGET_def HDEL_def Let_def delete_conv')

interpretation redis_hashes: hash_store HGET HSET HDEL HINCRBY
  by unfold_locales (simp_all add: HGET_HSET HGET_HDEL HINCRBY_def)

lemmas hash_simps = HGET_HSET HGET_HDEL redis_hashes.hincrby_int redis_hashes.hincrby_new

lemma HGET_stream_ops [simp]:
  "HGET (XADD r k' fs) = HGET r" "HGET (XACK r k' g i) = HGET r" "HGET (XDEL r k' i) = HGET r"
  by (auto simp: HGET_def fun_eq_iff XADD_def XACK_def XDEL_def Let_def split: option.splits)

lemma empty_redis_simps [simp]: "HGET empty_redis k f = None" "clock empty_redis = 0"
  by (simp_all add: HGET_def empty_redis_def)

lemma HGET_DEL: "HGET (DEL r k) k' f = (if k' = k then None else HGET r k' f)"
  by (simp add: HGET_def DEL_def)

text \<open>A key keeps its contents when its expiry time is in the future.\<close>

lemma HGET_PEXPIREAT [simp]:
  "int (clock r) < t \<or> k \<noteq> k' \<Longrightarrow> HGET (PEXPIREAT r k t) k' f = HGET r k' f"
  by (auto simp: HGET_def PEXPIREAT_def DEL_def)

lemma clock_ops [simp]:
  "clock (XADD r k fs) = clock r" "clock (XACK r k g i) = clock r" "clock (XDEL r k i) = clock r"
  "clock (DEL r k) = clock r" "clock (PEXPIREAT r k t) = clock r" "clock (PEXPIRE r k t) = clock r"
  by (auto simp: XADD_def XACK_def XDEL_def DEL_def PEXPIREAT_def PEXPIRE_def Let_def
        split: option.splits)

lemma hashes_stream_ops [simp]:
  "hashes (XADD r k fs) = hashes r" "hashes (XACK r k g i) = hashes r" "hashes (XDEL r k i) = hashes r"
  by (auto simp: XADD_def XACK_def XDEL_def Let_def split: option.splits)

lemma hashes_DEL: "hashes (DEL r k) k' = (if k' = k then [] else hashes r k')"
  by (simp add: DEL_def)

lemma hashes_PEXPIREAT [simp]:
  "int (clock r) < t \<or> k \<noteq> k' \<Longrightarrow> hashes (PEXPIREAT r k t) k' = hashes r k'"
  by (auto simp: PEXPIREAT_def DEL_def)

lemma streams_PEXPIREAT [simp]:
  "int (clock r) < t \<or> k \<noteq> k' \<Longrightarrow> streams (PEXPIREAT r k t) k' = streams r k'"
  by (auto simp: PEXPIREAT_def DEL_def)

lemma expiry_PEXPIREAT:
  "int (clock r) < t \<Longrightarrow>
     expiry (PEXPIREAT r k t) k' = (if k' = k \<and> key_exists r k then Some t else expiry r k')"
  by (simp add: PEXPIREAT_def)

lemma key_exists_HSET: "k' = k \<or> key_exists r k' \<Longrightarrow> key_exists (HSET r k f v) k'"
proof -
  have "AList.update f v al \<noteq> []" for al :: fields by (cases al) (auto split: prod.splits)
  then show "k' = k \<or> key_exists r k' \<Longrightarrow> key_exists (HSET r k f v) k'"
    by (auto simp: key_exists_def HSET_def)
qed

lemma key_exists_XADD: "k' = k \<or> key_exists r k' \<Longrightarrow> key_exists (XADD r k fs) k'"
  by (auto simp: key_exists_def XADD_def Let_def)

lemma expiry_ops [simp]:
  "expiry (XADD r k fs) = expiry r" "expiry (XACK r k g i) = expiry r" "expiry (XDEL r k i) = expiry r"
  by (auto simp: XADD_def XACK_def XDEL_def Let_def split: option.splits)

lemma streams_DEL: "streams (DEL r k) k' = (if k' = k then None else streams r k')"
  by (simp add: DEL_def)

lemma stream_entries_XADD:
  "stream_entries (XADD r k fs) k' =
     stream_entries r k' @ (if k' = k then [(show_id (next_id (clock r) (last_id (get_stream r k))), fs)] else [])"
  by (simp add: stream_entries_def XADD_def get_stream_def Let_def)

lemma stream_entries_XDEL:
  "stream_entries (XDEL r k i) k' =
     (if k' = k then filter (\<lambda>e. fst e \<noteq> i) (stream_entries r k) else stream_entries r k')"
  by (auto simp: stream_entries_def XDEL_def get_stream_def empty_stream_def filter_map o_def
        split: option.splits)

lemma entries_upd_group [simp]: "entries (upd_group s g h) = entries s"
  by (simp add: upd_group_def split: option.splits)

lemma stream_entries_XACK [simp]: "stream_entries (XACK r k g i) k' = stream_entries r k'"
  by (auto simp: stream_entries_def XACK_def get_stream_def split: option.splits)

lemma stream_entries_cong: "streams r k = streams r' k \<Longrightarrow> stream_entries r k = stream_entries r' k"
  by (simp add: stream_entries_def get_stream_def)

lemma pending_ids_cong: "streams r k = streams r' k \<Longrightarrow> pending_ids r k g = pending_ids r' k g"
  by (simp add: pending_ids_def get_stream_def)

lemma pending_ids_XACK:
  "pending_ids (XACK r k g i) k' g' =
     (if k' = k \<and> g' = g then filter (\<lambda>p. p \<noteq> i) (pending_ids r k g) else pending_ids r k' g')"
  by (auto simp: pending_ids_def XACK_def get_stream_def upd_group_def empty_stream_def
        update_conv' filter_map o_def split: option.splits)

lemma pending_ids_XDEL [simp]: "pending_ids (XDEL r k i) k' g = pending_ids r k' g"
  by (auto simp: pending_ids_def XDEL_def get_stream_def empty_stream_def split: option.splits)

lemma pending_ids_XADD [simp]: "pending_ids (XADD r k fs) k' g = pending_ids r k' g"
  by (auto simp: pending_ids_def XADD_def get_stream_def empty_stream_def Let_def split: option.splits)

lemma HLEN_HSET_new: "HGET r k f = None \<Longrightarrow> HLEN (HSET r k f v) k = HLEN r k + 1"
proof -
  have "f \<notin> fst ` set al \<Longrightarrow> length (AList.update f v al) = length al + 1" for al :: fields
    by (induction al) auto
  then show "HGET r k f = None \<Longrightarrow> HLEN (HSET r k f v) k = HLEN r k + 1"
    by (simp add: HLEN_def HSET_def HGET_def map_of_eq_None_iff)
qed

lemma show_id_inject [simp]: "show_id a = show_id b \<longleftrightarrow> a = b"
proof
  assume eq: "show_id a = show_id b"
  have no: "CHR ''-'' \<notin> set (show_nat n)" for n using show_nat_digits [of n] by auto
  have "Split (show_id a) (CHR ''-'') = [show_nat (fst a), show_nat (snd a)]"
    "Split (show_id b) (CHR ''-'') = [show_nat (fst b), show_nat (snd b)]"
    using no by (simp_all add: show_id_def Split_sep Split_none)
  with eq have "show_nat (fst a) = show_nat (fst b)" "show_nat (snd a) = show_nat (snd b)" by auto
  then show "a = b" by (metis dec_val_show_nat prod_eqI)
qed simp

lemma stream_entries_XGROUP_CREATE [simp]: "stream_entries (snd (XGROUP_CREATE r k g)) k' = stream_entries r k'"
  by (auto simp: XGROUP_CREATE_def stream_entries_def get_stream_def split: option.splits)

lemma stream_entries_XREADGROUP [simp]: "stream_entries (snd (XREADGROUP r k g n)) k' = stream_entries r k'"
  by (auto simp: XREADGROUP_def stream_entries_def get_stream_def Let_def split: option.splits)

lemma stream_entries_XAUTOCLAIM [simp]: "stream_entries (snd (XAUTOCLAIM r k g m n)) k' = stream_entries r k'"
  by (auto simp: XAUTOCLAIM_def stream_entries_def get_stream_def Let_def split: option.splits)

text \<open>A group is handed entries of the stream only.\<close>

lemma XREADGROUP_entries:
  assumes "fst (XREADGROUP r k g n) = Inr ms"
  shows "set ms \<subseteq> set (stream_entries r k)"
  using assms
  by (auto simp: XREADGROUP_def stream_entries_def get_stream_def Let_def
      split: option.splits if_splits dest!: in_set_takeD) force

lemma XAUTOCLAIM_entries:
  assumes "fst (XAUTOCLAIM r k g m n) = Inr ms"
  shows "set ms \<subseteq> set (stream_entries r k)"
proof
  fix e
  assume "e \<in> set ms"
  with assms obtain s p where s: "streams r k = Some s" and
    p: "find (\<lambda>e. fst e = p) (map snd (entries s)) = Some e"
    by (auto simp: XAUTOCLAIM_def Let_def split: option.splits)
  from p have "e \<in> set (map snd (entries s))"
    by (auto simp: find_Some_iff)
  with s show "e \<in> set (stream_entries r k)"
    by (simp add: stream_entries_def get_stream_def)
qed

lemma stream_entries_HSET [simp]: "stream_entries (HSET r k f v) = stream_entries r"
  "stream_entries (HDEL r k f) = stream_entries r"
  "pending_ids (HSET r k f v) = pending_ids r" "pending_ids (HDEL r k f) = pending_ids r"
  by (simp_all add: stream_entries_def get_stream_def fun_eq_iff pending_ids_def)

lemma stream_entries_PEXPIRE [simp]: 
  "0 < t \<or> k \<noteq> k' \<Longrightarrow> stream_entries (PEXPIRE r k t) k' = stream_entries r k'"
  "0 < t \<or> k \<noteq> k' \<Longrightarrow> pending_ids (PEXPIRE r k t) k' g = pending_ids r k' g"
  "0 < t \<or> k \<noteq> k' \<Longrightarrow> HGET (PEXPIRE r k t) k' f = HGET r k' f"
  unfolding PEXPIRE_def by (auto intro!: stream_entries_cong pending_ids_cong)

end
