(* ===== verification/Domain.thy ===== *)
theory Domain
  imports Prelude
begin

text \<open>
  The data of the order and seckill packages (\<open>internal/order/order.go\<close>,
  \<open>internal/seckill/seckill.go\<close>, \<open>inventory.go\<close>, \<open>inventory_item.go\<close>) and the order
  numbers: their generation from a clock reading and eight random bytes, and the two parsers that
  recover the item and the reservation time from them.
\<close>

section \<open>Orders\<close>

record ItemInput =
  in_SKUID :: u64
  in_ProductName :: string
  in_SKUCode :: string
  in_SKUName :: string
  in_UnitPriceCent :: int
  in_Quantity :: int

record OrderItem =
  oi_ID :: u64
  oi_SKUID :: u64
  oi_ProductName :: string
  oi_SKUCode :: string
  oi_SKUName :: string
  oi_UnitPriceCent :: int
  oi_Quantity :: int
  oi_SubtotalCent :: int

record Order =
  o_ID :: u64
  o_OrderNo :: string
  o_UserID :: u64
  o_Status :: nat
  o_TotalAmountCent :: int
  o_Items :: "OrderItem list"
  o_CreatedAt :: time

record CreateResult =
  cr_Order :: Order
  cr_Replayed :: bool

section \<open>Seckill activities and items\<close>

abbreviation StatusEnabled :: nat where "StatusEnabled \<equiv> 1"
abbreviation StatusDisabled :: nat where "StatusDisabled \<equiv> 2"

record Activity =
  a_ID :: u64
  a_Name :: string
  a_StartAt :: time
  a_EndAt :: time
  a_Status :: nat
  a_CreatedAt :: time

record Item =
  i_ID :: u64
  i_ActivityID :: u64
  i_SKUID :: u64
  i_InitialStock :: int
  i_AvailableStock :: int
  i_Version :: u64
  i_CreatedAt :: time

record PreheatSnapshot =
  ps_Activity :: Activity
  ps_Items :: "Item list"

record PreheatResult =
  pr_ActivityID :: u64
  pr_ItemCount :: nat
  pr_EarliestExpireAt :: time
  pr_LatestExpireAt :: time

record CreateActivityInput =
  ca_Name :: string
  ca_StartAt :: time
  ca_EndAt :: time

record AddItemInput =
  ai_ActivityID :: u64
  ai_SKUID :: u64
  ai_Stock :: int

record PurchaseResult =
  pu_Order :: Order
  pu_Replayed :: bool

section \<open>Reservations\<close>

record ReservationInput =
  ri_UserID :: u64
  ri_ItemID :: u64
  ri_OrderNo :: string
  ri_Now :: time

record Reservation =
  rv_OrderNo :: string
  rv_Replayed :: bool

record AsyncSubmission =
  as_OrderNo :: string
  as_Replayed :: bool

abbreviation AsyncResultQueued :: string where "AsyncResultQueued \<equiv> ''QUEUED''"
abbreviation AsyncResultSucceeded :: string where "AsyncResultSucceeded \<equiv> ''SUCCEEDED''"
abbreviation AsyncResultFailed :: string where "AsyncResultFailed \<equiv> ''FAILED''"

record AsyncResult =
  ar_OrderNo :: string
  ar_Status :: string
  ar_Order :: "Order option"

record FrozenSKUSnapshot =
  fs_SKUID :: u64
  fs_ProductName :: string
  fs_SKUCode :: string
  fs_SKUName :: string
  fs_UnitPriceCent :: int

record InventoryReservationInput =
  iri_OrderNo :: string
  iri_ActivityID :: u64
  iri_ItemID :: u64
  iri_UserID :: u64
  iri_ReservedAt :: time

record InventoryReservation =
  ir_ID :: u64
  ir_OrderNo :: string
  ir_ActivityID :: u64
  ir_ItemID :: u64
  ir_UserID :: u64
  ir_Snapshot :: FrozenSKUSnapshot
  ir_ReservedAt :: time
  ir_Replayed :: bool

record CreateInventoryItemInput =
  ci_ActivityID :: u64
  ci_SKUID :: u64
  ci_Stock :: int

record InventoryItem =
  it_ID :: u64
  it_ActivityID :: u64
  it_Snapshot :: FrozenSKUSnapshot
  it_InitialStock :: int
  it_AvailableStock :: int
  it_Version :: u64
  it_CreatedAt :: time

section \<open>Order numbers\<close>

text \<open>The result of \<open>rand.Read\<close> on a buffer of eight bytes is an argument.\<close>

type_synonym random = "8 word list result"

definition newOrderNo :: "time \<Rightarrow> random \<Rightarrow> string result" where
  "newOrderNo now rnd =
     (if IsZero now then fail ErrInvalidArgument
      else (case rnd of
          Inl e \<Rightarrow> Inl e
        | Inr bs \<Rightarrow> Inr (''S'' @ FormatInt (UnixMilli now) @ hex_EncodeToString bs)))"

definition newStreamOrderNo :: "time \<Rightarrow> u64 \<Rightarrow> random \<Rightarrow> string result" where
  "newStreamOrderNo now itemID rnd =
     (if IsZero now \<or> itemID = 0 then fail ErrInvalidArgument
      else (case rnd of
          Inl e \<Rightarrow> Inl e
        | Inr bs \<Rightarrow> Inr (''T'' @ FormatInt (UnixMilli now) @ ''-'' @ FormatUint itemID @ ''-'' @
            hex_EncodeToString bs)))"

text \<open>The order number of a normal order carries the prefix \<open>O\<close> (\<open>order.newOrderNo\<close>).\<close>

definition newNormalOrderNo :: "time \<Rightarrow> random \<Rightarrow> string result" where
  "newNormalOrderNo now rnd = (case rnd of
       Inl e \<Rightarrow> Inl e
     | Inr bs \<Rightarrow> Inr (''O'' @ FormatInt (UnixMilli now) @ hex_EncodeToString bs))"

definition StreamOrderItemID :: "string \<Rightarrow> u64 option" where
  "StreamOrderItemID orderNo =
     (case Split (TrimSpace orderNo) (CHR ''-'') of
        [p0, p1, p2] \<Rightarrow>
          if length p0 < 2 \<or> p0 ! 0 \<noteq> CHR ''T'' \<or> length p2 \<noteq> 16 then None
          else if snd (ParseInt (drop 1 p0)) \<noteq> None then None
          else (let (itemID, err) = ParseUint p1 in
                if err \<noteq> None \<or> itemID = 0 then None
                else if \<not> hex_decodable p2 then None
                else Some itemID)
      | _ \<Rightarrow> None)"

definition reservedAtFromOrderNo :: "string \<Rightarrow> time option" where
  "reservedAtFromOrderNo orderNo =
     (if length orderNo \<le> 1 + 16 \<or> orderNo ! 0 \<noteq> CHR ''S'' then None
      else (let timestampText = drop 1 (take (length orderNo - 16) orderNo);
                (milliseconds, err) = ParseInt timestampText
            in if err \<noteq> None \<or> milliseconds \<le> 0 then None
               else if \<not> hex_decodable (drop (length orderNo - 16) orderNo) then None
               else Some (time_UnixMilli milliseconds)))"

section \<open>Properties of the order numbers\<close>

lemma dash_not_in [simp]:
  "CHR ''-'' \<notin> set (FormatUint n)" "CHR ''-'' \<notin> set (show_nat m)"
  "CHR ''-'' \<notin> set (hex_EncodeToString bs)"
  using show_nat_digits by (fastforce simp: FormatUint_def is_hex_def byte_def dest: hex_chars)+

lemma FormatInt_nonneg: "0 \<le> i \<Longrightarrow> FormatInt i = show_nat (nat i)"
  by (simp add: FormatInt_def)

lemma newStreamOrderNo_printable:
  "newStreamOrderNo now itemID rnd = Inr s \<Longrightarrow> printable s \<and> s \<noteq> []"
  by (auto simp: newStreamOrderNo_def byte_def split: if_splits sum.splits)

lemma newOrderNo_printable: "newOrderNo now rnd = Inr s \<Longrightarrow> printable s \<and> s \<noteq> []"
  by (auto simp: newOrderNo_def byte_def split: if_splits sum.splits)

lemma StreamOrderItemID_text:
  assumes ms: "0 \<le> ms" "in_i64 ms" and id: "itemID \<noteq> 0" and len: "length bs = 8"
  shows "StreamOrderItemID (''T'' @ FormatInt ms @ ''-'' @ FormatUint itemID @ ''-'' @
    hex_EncodeToString bs) = Some itemID"
proof -
  let ?p0 = "CHR ''T'' # show_nat (nat ms)"
  let ?s = "?p0 @ CHR ''-'' # FormatUint itemID @ CHR ''-'' # hex_EncodeToString bs"
  have s: "''T'' @ FormatInt ms @ ''-'' @ FormatUint itemID @ ''-'' @ hex_EncodeToString bs = ?s"
    using ms by (simp add: FormatInt_nonneg)
  have "Split ?s (CHR ''-'') = [?p0, FormatUint itemID, hex_EncodeToString bs]"
    by (subst Split_sep, simp, subst Split_sep, simp, subst Split_none, simp_all)
  moreover have "printable ?s" by (simp add: byte_def)
  moreover have "ParseInt (show_nat (nat ms)) = (ms, None)"
    using ParseInt_FormatInt [OF ms(2)] ms(1) by (simp add: FormatInt_nonneg)
  moreover have "0 < length (show_nat (nat ms))" by simp
  ultimately show ?thesis
    unfolding s StreamOrderItemID_def using id len by (simp add: Suc_le_eq del: length_greater_0_conv)
qed

text \<open>The item identifier that an asynchronous order number carries is recovered from it, for
  every clock reading after the epoch and whatever random bytes were drawn.\<close>

theorem StreamOrderItemID_newStreamOrderNo:
  assumes "newStreamOrderNo now itemID (Inr bs) = Inr orderNo"
    and "length bs = 8" and "0 \<le> UnixMilli now" and "in_i64 (UnixMilli now)"
  shows "StreamOrderItemID orderNo = Some itemID"
  using assms StreamOrderItemID_text [of "UnixMilli now" itemID bs]
  by (auto simp: newStreamOrderNo_def split: if_splits)

theorem StreamOrderItemID_newStreamOrderNo_witness:
  "\<exists>orderNo. newStreamOrderNo 1700000000123456789 42 (Inr [1,2,3,4,5,6,7,8]) = Inr orderNo
    \<and> StreamOrderItemID orderNo = Some 42"
proof -
  obtain orderNo where o: "newStreamOrderNo 1700000000123456789 42 (Inr [1,2,3,4,5,6,7,8]) = Inr orderNo"
    by (simp add: newStreamOrderNo_def IsZero_def zero_time_def)
  moreover have "StreamOrderItemID orderNo = Some 42"
    by (rule StreamOrderItemID_newStreamOrderNo [OF o]) (simp_all add: UnixMilli_def in_i64_def max_i64_def)
  ultimately show ?thesis by blast
qed

lemma StreamOrderItemID_nonzero: "StreamOrderItemID s = Some i \<Longrightarrow> i \<noteq> 0"
  by (auto simp: StreamOrderItemID_def split: list.splits if_splits prod.splits)

lemma reservedAt_newOrderNo:
  assumes "newOrderNo now (Inr bs) = Inr orderNo"
    and "length bs = 8" and "0 < UnixMilli now" and "in_i64 (UnixMilli now)"
  shows "reservedAtFromOrderNo orderNo = Some (Truncate now millisecond)"
proof -
  let ?t = "FormatInt (UnixMilli now)"
  have o: "orderNo = CHR ''S'' # ?t @ hex_EncodeToString bs"
    using assms(1) by (auto simp: newOrderNo_def split: if_splits)
  have "length ?t \<noteq> 0" by simp
  moreover have "drop 1 (take (length orderNo - 16) orderNo) = ?t"
    "drop (length orderNo - 16) orderNo = hex_EncodeToString bs"
    using assms(2) by (simp_all add: o take_Cons' drop_Cons')
  ultimately show ?thesis
    using assms(2-4) by (simp add: reservedAtFromOrderNo_def o Truncate_milli)
qed

text \<open>The reservation time that a synchronous order number encodes is read back as the clock
  reading truncated to milliseconds, which is the precision the request itself uses.\<close>

theorem reservedAtFromOrderNo_newOrderNo:
  assumes "newOrderNo now (Inr bs) = Inr orderNo"
    and "length bs = 8" and "0 < UnixMilli now" and "in_i64 (UnixMilli now)"
  shows "reservedAtFromOrderNo orderNo = Some (Truncate now millisecond)"
  by (rule reservedAt_newOrderNo [OF assms])

theorem reservedAtFromOrderNo_newOrderNo_witness:
  "\<exists>orderNo. newOrderNo 1700000000123456789 (Inr [1,2,3,4,5,6,7,255]) = Inr orderNo
    \<and> reservedAtFromOrderNo orderNo = Some 1700000000123000000"
proof -
  obtain orderNo where o: "newOrderNo 1700000000123456789 (Inr [1,2,3,4,5,6,7,255]) = Inr orderNo"
    by (simp add: newOrderNo_def IsZero_def zero_time_def)
  have "reservedAtFromOrderNo orderNo = Some (Truncate 1700000000123456789 millisecond)"
    by (rule reservedAtFromOrderNo_newOrderNo [OF o]) (simp_all add: UnixMilli_def in_i64_def max_i64_def)
  with o show ?thesis by (auto simp: Truncate_def zero_time_def)
qed

text \<open>An order number of the asynchronous path, for the examples.\<close>

lemma demo_stream_number: "StreamOrderItemID ''T1500-42-0102030405060708'' = Some 42"
proof -
  have "hex_EncodeToString [1,2,3,4,5,6,7,8] = ''0102030405060708''"
    by (simp add: hex_EncodeToString_def hex_digit_def char_of_eq_iff)
  moreover have "FormatInt 1500 = ''1500''" "FormatUint 42 = ''42''"
    by (simp_all add: FormatInt_def FormatUint_def show_nat.simps digit_def char_of_eq_iff)
  ultimately show ?thesis
    using StreamOrderItemID_text [of 1500 42 "[1,2,3,4,5,6,7,8]"] by (simp add: in_i64_def max_i64_def)
qed

end
