(* ===== verification/RedisGate.thy ===== *)
theory RedisGate
  imports Redis Domain
begin

text \<open>
  The Redis admission layer (\<open>internal/seckill/redisgate/gate.go\<close>): the keys of an item, the Lua
  scripts \<open>reserveScript\<close>, \<open>reserveAndEnqueueScript\<close> and \<open>publishScript\<close>, the parsing of their
  replies, and the operations of \<open>Gate\<close> with the reload of an evicted script.
\<close>

section \<open>Keys\<close>

definition StateKey :: "u64 \<Rightarrow> string" where
  "StateKey itemID = ''seckill:v03:{item:'' @ FormatUint itemID @ ''}:state''"

definition BuyersKey :: "u64 \<Rightarrow> string" where
  "BuyersKey itemID = ''seckill:v03:{item:'' @ FormatUint itemID @ ''}:buyers''"

definition StreamKey :: "u64 \<Rightarrow> string" where
  "StreamKey itemID = ''seckill:v042:{item:'' @ FormatUint itemID @ ''}:orders''"

definition StreamResultsKey :: "u64 \<Rightarrow> string" where
  "StreamResultsKey itemID = ''seckill:v042:{item:'' @ FormatUint itemID @ ''}:results''"

definition StreamRetriesKey :: "u64 \<Rightarrow> string" where
  "StreamRetriesKey itemID = ''seckill:v042:{item:'' @ FormatUint itemID @ ''}:retries''"

definition StreamDLQKey :: "u64 \<Rightarrow> string" where
  "StreamDLQKey itemID = ''seckill:v042:{item:'' @ FormatUint itemID @ ''}:dlq''"

section \<open>Scripts\<close>

text \<open>
  A value of Go's type \<open>any\<close>, as far as the sources inspect it: an \<open>int64\<close>, a \<open>uint64\<close>, a
  string, a byte slice, \<open>nil\<close>, a slice, or a value of another type with the text \<open>fmt.Sprint\<close> gives.
\<close>

datatype anyval = AInt int | AUint u64 | AString string | ABytes string | ANil | ASlice "anyval list" | AOther string

text \<open>
  Lua's \<open>tonumber\<close> on a field. The fields the scripts read are written by \<open>publishScript\<close> from
  Go integers, so the decimal integers are the only texts it meets; every other text is not a number. Numbers are
  exact, as Lua's are up to \<open>2^53\<close>.
\<close>

definition tonumber :: "string option \<Rightarrow> int option" where
  "tonumber v = (case v of None \<Rightarrow> None
     | Some s \<Rightarrow> (case ParseInt s of (n, None) \<Rightarrow> Some n | _ \<Rightarrow> None))"

definition lua_reply :: "int \<Rightarrow> string \<Rightarrow> anyval result" where
  "lua_reply d s = Inr (ASlice [AInt d, AString s])"

text \<open>The guard both reservation scripts share; comparing \<open>nil\<close> with a number is a Lua error.\<close>

definition activity_closed ::
  "string option \<Rightarrow> int option \<Rightarrow> int option \<Rightarrow> int option \<Rightarrow> bool result" where
  "activity_closed status start_at end_at now =
     (if status \<noteq> Some ''1'' then Inr True
      else (case (start_at, end_at) of
          (Some s, Some e) \<Rightarrow> (case now of
              None \<Rightarrow> Inl (Plain ''ERR attempt to compare nil with number'')
            | Some n \<Rightarrow> Inr (n < s \<or> e \<le> n))
        | _ \<Rightarrow> Inr True))"

definition reserveScript ::
  "redis \<Rightarrow> key \<Rightarrow> key \<Rightarrow> argv \<Rightarrow> argv \<Rightarrow> argv \<Rightarrow> anyval result \<times> redis" where
  "reserveScript r k1 k2 a1 a2 a3 =
     (if HGET r k1 ''ready'' \<noteq> Some ''1'' then (lua_reply (- 1) [], r)
      else (case activity_closed (HGET r k1 ''status'') (tonumber (HGET r k1 ''start_at_ms''))
               (tonumber (HGET r k1 ''end_at_ms'')) (tonumber (Some a2)) of
          Inl e \<Rightarrow> (Inl e, r)
        | Inr True \<Rightarrow> (lua_reply (- 2) [], r)
        | Inr False \<Rightarrow>
            (case HGET r k2 a1 of
               Some existing \<Rightarrow> (lua_reply 2 existing, r)
             | None \<Rightarrow>
                 (case (tonumber (HGET r k1 ''stock''), tonumber (HGET r k1 ''expire_at_ms'')) of
                    (Some stock, Some expire_at) \<Rightarrow>
                      if stock \<le> 0 then (lua_reply (- 3) [], r)
                      else (case HINCRBY r k1 ''stock'' (- 1) of
                          None \<Rightarrow> (Inl (Plain ''ERR hash value is not an integer''), r)
                        | Some (_, r1) \<Rightarrow>
                            (lua_reply 1 a3, PEXPIREAT (HSET r1 k2 a1 a3) k2 expire_at))
                  | _ \<Rightarrow> (lua_reply (- 1) [], r)))))"

definition order_requested_fields :: "string \<Rightarrow> string \<Rightarrow> string \<Rightarrow> string \<Rightarrow> string \<Rightarrow> fields" where
  "order_requested_fields orderNo user activity item reserved_at =
     [(''schema_version'', ''1''), (''event_type'', ''seckill.order.requested''),
      (''order_no'', orderNo), (''user_id'', user), (''activity_id'', activity),
      (''item_id'', item), (''reserved_at_ms'', reserved_at)]"

definition reserveAndEnqueueScript ::
  "redis \<Rightarrow> key \<Rightarrow> key \<Rightarrow> key \<Rightarrow> key \<Rightarrow> argv \<Rightarrow> argv \<Rightarrow> argv \<Rightarrow> argv \<Rightarrow> argv \<Rightarrow> anyval result \<times> redis" where
  "reserveAndEnqueueScript r k1 k2 k3 k4 a1 a2 a3 a4 a5 =
     (if HGET r k1 ''ready'' \<noteq> Some ''1'' then (lua_reply (- 1) [], r)
      else (case HGET r k2 a1 of
          Some existing \<Rightarrow> (lua_reply 2 existing, r)
        | None \<Rightarrow>
            (case activity_closed (HGET r k1 ''status'') (tonumber (HGET r k1 ''start_at_ms''))
                 (tonumber (HGET r k1 ''end_at_ms'')) (tonumber (Some a2)) of
               Inl e \<Rightarrow> (Inl e, r)
             | Inr True \<Rightarrow> (lua_reply (- 2) [], r)
             | Inr False \<Rightarrow>
                 (case (tonumber (HGET r k1 ''stock''), tonumber (HGET r k1 ''expire_at_ms''),
                        HGET r k1 ''activity_id'') of
                    (Some stock, Some expire_at, Some activity_id) \<Rightarrow>
                      if stock \<le> 0 then (lua_reply (- 3) [], r)
                      else (case HINCRBY r k1 ''stock'' (- 1) of
                          None \<Rightarrow> (Inl (Plain ''ERR hash value is not an integer''), r)
                        | Some (_, r1) \<Rightarrow>
                            (let r2 = HSET r1 k2 a1 a3;
                                 r3 = HSET r2 k4 a3 (a1 @ ''|QUEUED'');
                                 r4 = XADD r3 k3 (order_requested_fields a3 a1 activity_id a4 a2);
                                 r5 = PEXPIREAT r4 k2 expire_at
                             in case tonumber (Some a5) of
                                 None \<Rightarrow> (Inl (Plain ''ERR attempt to perform arithmetic on a nil value''), r5)
                               | Some retention \<Rightarrow>
                                   (let queue_expire_at = expire_at + retention;
                                        r6 = PEXPIREAT r5 k3 queue_expire_at;
                                        r7 = PEXPIREAT r6 k4 queue_expire_at
                                    in (lua_reply 1 a3, r7))))
                  | _ \<Rightarrow> (lua_reply (- 1) [], r)))))"

definition publishScript ::
  "redis \<Rightarrow> key \<Rightarrow> key \<Rightarrow> argv \<Rightarrow> argv \<Rightarrow> argv \<Rightarrow> argv \<Rightarrow> argv \<Rightarrow> argv \<Rightarrow> argv \<Rightarrow> int \<Rightarrow> anyval result \<times> redis" where
  "publishScript r k1 k2 a1 a2 a3 a4 a5 a6 a7 a8 =
     (let r1 = DEL (DEL r k1) k2;
          r2 = HSET_all r1 k1
            [(''activity_id'', a1), (''sku_id'', a2), (''status'', a3), (''start_at_ms'', a4),
             (''end_at_ms'', a5), (''stock'', a6), (''generation'', a7),
             (''expire_at_ms'', FormatInt a8), (''ready'', ''1'')]
      in (Inr (AInt 1), PEXPIREAT r2 k1 a8))"

section \<open>Replies\<close>

text \<open>The error an admission call returns; the cause it prints after the variable is not kept.\<close>

definition admissionFailure :: "string \<Rightarrow> goerr" where
  "admissionFailure operation = Wrapf operation (Sentinel ErrAdmissionFailure)"

fun asInt64 :: "anyval \<Rightarrow> int option" where
  "asInt64 (AInt i) = Some i"
| "asInt64 (AString s) = (case ParseInt s of (n, None) \<Rightarrow> Some n | _ \<Rightarrow> None)"
| "asInt64 (ABytes s) = (case ParseInt s of (n, None) \<Rightarrow> Some n | _ \<Rightarrow> None)"
| "asInt64 _ = None"

fun asString :: "anyval \<Rightarrow> string option" where
  "asString (AString s) = Some s"
| "asString (ABytes s) = Some s"
| "asString ANil = Some []"
| "asString _ = None"

definition parseReservation :: "anyval \<Rightarrow> Reservation result" where
  "parseReservation reply = (case reply of
       ASlice [v0, v1] \<Rightarrow>
         (case asInt64 v0 of
            None \<Rightarrow> Inl (admissionFailure ''parse reserve decision'')
          | Some decision \<Rightarrow>
              (case asString v1 of
                 None \<Rightarrow> Inl (admissionFailure ''parse reserve order number'')
               | Some orderNo \<Rightarrow>
                   if decision = 1 then
                     (if orderNo = [] then Inl (admissionFailure ''parse reserve order number'')
                      else Inr \<lparr>rv_OrderNo = orderNo, rv_Replayed = False\<rparr>)
                   else if decision = 2 then
                     (if orderNo = [] then Inl (admissionFailure ''parse replay order number'')
                      else Inr \<lparr>rv_OrderNo = orderNo, rv_Replayed = True\<rparr>)
                   else if decision = - 1 then fail ErrCacheNotReady
                   else if decision = - 2 then fail ErrUnavailable
                   else if decision = - 3 then fail ErrOutOfStock
                   else Inl (admissionFailure ''parse reserve decision'')))
     | _ \<Rightarrow> Inl (admissionFailure ''parse reserve reply''))"

section \<open>The gate\<close>

datatype script = ReserveScript | ReserveAndEnqueueScript

text \<open>
  What the gate uses of the Redis client and server and cannot be read in the sources: the SHA1 of
  a script and the client's test for an error prefix.
\<close>

record redis_lib =
  lib_sha1 :: "script \<Rightarrow> string"
  lib_HasErrorPrefix :: "goerr \<Rightarrow> string \<Rightarrow> bool"

record gate =
  g_client :: bool
  g_operationTimeout :: int
  g_sha :: string
  g_streamSHA :: string
  g_streamRetention :: int

definition newWithRunner :: "int \<Rightarrow> gate result" where
  "newWithRunner operationTimeout =
     (if operationTimeout \<le> 0 then Inl (Plain ''redis gate operation timeout must be positive'')
      else Inr \<lparr>g_client = False, g_operationTimeout = operationTimeout, g_sha = [], g_streamSHA = [],
        g_streamRetention = 24 * 3600 * second\<rparr>)"

definition SetStreamRetention :: "gate \<Rightarrow> int \<Rightarrow> gate result" where
  "SetStreamRetention g retention =
     (if retention \<le> 0 then fail ErrInvalidArgument else Inr (g\<lparr>g_streamRetention := retention\<rparr>))"

definition SCRIPT_LOAD :: "redis_lib \<Rightarrow> script \<Rightarrow> redis \<Rightarrow> string result \<times> redis" where
  "SCRIPT_LOAD L s r = (Inr (lib_sha1 L s), r\<lparr>scripts := lib_sha1 L s # scripts r\<rparr>)"

fun run_script :: "script \<Rightarrow> redis \<Rightarrow> string list \<Rightarrow> string list \<Rightarrow> anyval result \<times> redis" where
  "run_script ReserveScript r [k1, k2] [a1, a2, a3] = reserveScript r k1 k2 a1 a2 a3"
| "run_script ReserveAndEnqueueScript r [k1, k2, k3, k4] [a1, a2, a3, a4, a5] =
     reserveAndEnqueueScript r k1 k2 k3 k4 a1 a2 a3 a4 a5"
| "run_script _ r _ _ = (Inl (Plain ''ERR wrong number of keys or arguments''), r)"

definition EVALSHA ::
  "redis_lib \<Rightarrow> string \<Rightarrow> string list \<Rightarrow> string list \<Rightarrow> redis \<Rightarrow> anyval result \<times> redis" where
  "EVALSHA L sha keys args r =
     (if sha \<notin> set (scripts r) then (Inl (Plain ''NOSCRIPT No matching script. Please use EVAL.''), r)
      else (case find (\<lambda>s. lib_sha1 L s = sha) [ReserveScript, ReserveAndEnqueueScript] of
          None \<Rightarrow> (Inl (Plain ''ERR unknown script''), r)
        | Some s \<Rightarrow> run_script s r keys args))"

definition isNoScript :: "redis_lib \<Rightarrow> goerr \<Rightarrow> bool" where
  "isNoScript L err \<longleftrightarrow> lib_HasErrorPrefix L err ''NOSCRIPT'' \<or> HasPrefix (err_text err) ''NOSCRIPT''"

definition reloadScript ::
  "redis_lib \<Rightarrow> redis step_env \<Rightarrow> gate \<Rightarrow> redis \<Rightarrow> string result \<times> gate \<times> redis" where
  "reloadScript L c g r = (case call c (SCRIPT_LOAD L ReserveScript) r of
       (Inl e, r') \<Rightarrow> (Inl e, g, r')
     | (Inr sha, r') \<Rightarrow> (Inr sha, g\<lparr>g_sha := sha\<rparr>, r'))"

definition scriptSHA ::
  "redis_lib \<Rightarrow> redis step_env \<Rightarrow> gate \<Rightarrow> redis \<Rightarrow> string result \<times> gate \<times> redis" where
  "scriptSHA L c g r = (if g_sha g \<noteq> [] then (Inr (g_sha g), g, r)
     else (case call c (SCRIPT_LOAD L ReserveScript) r of
         (Inl e, r') \<Rightarrow> (Inl e, g, r')
       | (Inr sha, r') \<Rightarrow> (Inr sha, g\<lparr>g_sha := sha\<rparr>, r')))"

definition reloadStreamScript ::
  "redis_lib \<Rightarrow> redis step_env \<Rightarrow> gate \<Rightarrow> redis \<Rightarrow> string result \<times> gate \<times> redis" where
  "reloadStreamScript L c g r = (case call c (SCRIPT_LOAD L ReserveAndEnqueueScript) r of
       (Inl e, r') \<Rightarrow> (Inl e, g, r')
     | (Inr sha, r') \<Rightarrow> (Inr sha, g\<lparr>g_streamSHA := sha\<rparr>, r'))"

definition streamScriptSHA ::
  "redis_lib \<Rightarrow> redis step_env \<Rightarrow> gate \<Rightarrow> redis \<Rightarrow> string result \<times> gate \<times> redis" where
  "streamScriptSHA L c g r = (if g_streamSHA g \<noteq> [] then (Inr (g_streamSHA g), g, r)
     else (case call c (SCRIPT_LOAD L ReserveAndEnqueueScript) r of
         (Inl e, r') \<Rightarrow> (Inl e, g, r')
       | (Inr sha, r') \<Rightarrow> (Inr sha, g\<lparr>g_streamSHA := sha\<rparr>, r')))"

text \<open>
  The execution both reservation methods share after the digest is known: a \<open>NOSCRIPT\<close> error is
  answered by one reload and one more \<open>EVALSHA\<close>; any other error is returned. Calls 1 to 3 of the
  environment are \<open>EVALSHA\<close>, \<open>SCRIPT LOAD\<close>, \<open>EVALSHA\<close>; call 0 is the first load of the script.
\<close>

definition evalWithReload ::
  "redis_lib \<Rightarrow> redis env \<Rightarrow> (redis step_env \<Rightarrow> gate \<Rightarrow> redis \<Rightarrow> string result \<times> gate \<times> redis) \<Rightarrow>
     string \<Rightarrow> string list \<Rightarrow> string list \<Rightarrow> gate \<Rightarrow> redis \<Rightarrow> anyval result \<times> gate \<times> redis" where
  "evalWithReload L env reload sha keys args g r =
     (case call (env 1) (EVALSHA L sha keys args) r of
        (Inr reply, r1) \<Rightarrow> (Inr reply, g, r1)
      | (Inl e, r1) \<Rightarrow>
          if \<not> isNoScript L e then (Inl e, g, r1)
          else (case reload (env 2) g r1 of
              (Inl e', g2, r2) \<Rightarrow> (Inl e', g2, r2)
            | (Inr sha', g2, r2) \<Rightarrow>
                (case call (env 3) (EVALSHA L sha' keys args) r2 of (res, r3) \<Rightarrow> (res, g2, r3))))"

definition Reserve ::
  "redis_lib \<Rightarrow> redis env \<Rightarrow> gate \<Rightarrow> redis \<Rightarrow> ReservationInput \<Rightarrow> Reservation result \<times> gate \<times> redis" where
  "Reserve L env g r input =
     (if ri_UserID input = 0 \<or> ri_ItemID input = 0 \<or> TrimSpace (ri_OrderNo input) = [] \<or> IsZero (ri_Now input)
      then (fail ErrInvalidArgument, g, r)
      else (case scriptSHA L (env 0) g r of
          (Inl e, g1, r1) \<Rightarrow> (Inl (admissionFailure ''load reserve script''), g1, r1)
        | (Inr sha, g1, r1) \<Rightarrow>
            (let keys = [StateKey (ri_ItemID input), BuyersKey (ri_ItemID input)];
                 args = [FormatUint (ri_UserID input), FormatInt (UnixMilli (ri_Now input)), ri_OrderNo input]
             in case evalWithReload L env (reloadScript L) sha keys args g1 r1 of
                  (Inl e, g2, r2) \<Rightarrow> (Inl (admissionFailure ''execute reserve script''), g2, r2)
                | (Inr reply, g2, r2) \<Rightarrow> (parseReservation reply, g2, r2))))"

definition ReserveAndEnqueue ::
  "redis_lib \<Rightarrow> redis env \<Rightarrow> gate \<Rightarrow> redis \<Rightarrow> ReservationInput \<Rightarrow> Reservation result \<times> gate \<times> redis" where
  "ReserveAndEnqueue L env g r input =
     (if ri_UserID input = 0 \<or> ri_ItemID input = 0 \<or> TrimSpace (ri_OrderNo input) = [] \<or> IsZero (ri_Now input)
         \<or> g_streamRetention g \<le> 0
      then (fail ErrInvalidArgument, g, r)
      else (case streamScriptSHA L (env 0) g r of
          (Inl e, g1, r1) \<Rightarrow> (Inl (admissionFailure ''load stream reserve script''), g1, r1)
        | (Inr sha, g1, r1) \<Rightarrow>
            (let keys = [StateKey (ri_ItemID input), BuyersKey (ri_ItemID input),
                         StreamKey (ri_ItemID input), StreamResultsKey (ri_ItemID input)];
                 args = [FormatUint (ri_UserID input), FormatInt (UnixMilli (ri_Now input)), ri_OrderNo input,
                         FormatUint (ri_ItemID input), FormatInt (Milliseconds (g_streamRetention g))]
             in case evalWithReload L env (reloadStreamScript L) sha keys args g1 r1 of
                  (Inl e, g2, r2) \<Rightarrow> (Inl (admissionFailure ''execute stream reserve script''), g2, r2)
                | (Inr reply, g2, r2) \<Rightarrow> (parseReservation reply, g2, r2))))"

definition HGet :: "string \<Rightarrow> string \<Rightarrow> redis \<Rightarrow> string result \<times> redis" where
  "HGet k f r = (case HGET r k f of None \<Rightarrow> (fail Redis_Nil, r) | Some v \<Rightarrow> (Inr v, r))"

definition FindStreamResult :: "redis step_env \<Rightarrow> gate \<Rightarrow> redis \<Rightarrow> u64 \<Rightarrow> string \<Rightarrow> string result" where
  "FindStreamResult c g r userID orderNo = (case StreamOrderItemID orderNo of
       None \<Rightarrow> fail ErrAsyncResultNotFound
     | Some itemID \<Rightarrow>
         if \<not> g_client g \<or> userID = 0 then fail ErrAsyncResultNotFound
         else (case fst (call c (HGet (StreamResultsKey itemID) (TrimSpace orderNo)) r) of
             Inl e \<Rightarrow> if errors_Is e Redis_Nil then fail ErrAsyncResultNotFound
                      else Inl (admissionFailure ''read stream result'')
           | Inr value \<Rightarrow>
               (case Split value (CHR ''|'') of
                  [p0, p1] \<Rightarrow>
                    if p0 \<noteq> FormatUint userID then fail ErrAsyncResultNotFound
                    else if p1 \<noteq> AsyncResultQueued \<and> p1 \<noteq> AsyncResultSucceeded \<and> p1 \<noteq> AsyncResultFailed
                    then Inl (admissionFailure ''parse stream result'')
                    else Inr p1
                | _ \<Rightarrow> fail ErrAsyncResultNotFound)))"

section \<open>Publishing and invalidating an activity\<close>

definition preheatGrace :: int where "preheatGrace = 5 * 60 * second"
definition preheatJitterRange :: int where "preheatJitterRange = 30 * second"

definition itemExpiry :: "time \<Rightarrow> u64 \<Rightarrow> time" where
  "itemExpiry endAt itemID =
     (let jitterSlots = word_of_int (go_div preheatJitterRange second) + 1
      in endAt + (preheatGrace + uint (itemID mod jitterSlots) * second))"

definition publish_item :: "Activity \<Rightarrow> Item \<Rightarrow> redis \<Rightarrow> anyval result \<times> redis" where
  "publish_item a item r =
     publishScript r (StateKey (i_ID item)) (BuyersKey (i_ID item))
       (FormatUint (a_ID a)) (FormatUint (i_SKUID item)) (show_nat (a_Status a))
       (FormatInt (UnixMilli (a_StartAt a))) (FormatInt (UnixMilli (a_EndAt a)))
       (FormatInt (i_AvailableStock item))
       (FormatUint (a_ID a) @ '':'' @ FormatUint (i_Version item) @ '':'' @ FormatInt (UnixMicro (a_EndAt a)))
       (UnixMilli (itemExpiry (a_EndAt a) (i_ID item)))"

definition publishable :: "Activity \<Rightarrow> Item \<Rightarrow> bool" where
  "publishable a item \<longleftrightarrow> \<not> (i_ID item = 0 \<or> i_ActivityID item \<noteq> a_ID a \<or> i_SKUID item = 0 \<or>
     i_InitialStock item < 0 \<or> i_AvailableStock item < 0 \<or> i_InitialStock item < i_AvailableStock item)"

text \<open>The loop over the items: call \<open>k\<close> of the environment publishes the next item.\<close>

fun publish_items :: "redis env \<Rightarrow> nat \<Rightarrow> Activity \<Rightarrow> Item list \<Rightarrow> PreheatResult \<Rightarrow> redis \<Rightarrow>
    (goerr option \<times> PreheatResult) \<times> redis" where
  "publish_items env k a [] res r = ((None, res), r)"
| "publish_items env k a (item # items) res r =
     (if \<not> publishable a item then ((Some (Sentinel ErrInvalidArgument), res), r)
      else (let expiresAt = itemExpiry (a_EndAt a) (i_ID item) in
        (case call (env k) (publish_item a item) r of
           (Inl e, r') \<Rightarrow> ((Some (admissionFailure ''publish preheat item''), res), r')
         | (Inr _, r') \<Rightarrow>
             publish_items env (k + 1) a items
               (res\<lparr>pr_ItemCount := pr_ItemCount res + 1,
                  pr_EarliestExpireAt :=
                    (if IsZero (pr_EarliestExpireAt res) \<or> expiresAt < pr_EarliestExpireAt res
                     then expiresAt else pr_EarliestExpireAt res),
                  pr_LatestExpireAt :=
                    (if pr_LatestExpireAt res < expiresAt then expiresAt else pr_LatestExpireAt res)\<rparr>)
               r')))"

definition PublishActivity ::
  "redis env \<Rightarrow> redis \<Rightarrow> PreheatSnapshot \<Rightarrow> time \<Rightarrow> (goerr option \<times> PreheatResult) \<times> redis" where
  "PublishActivity env r snapshot now =
     (let a = ps_Activity snapshot;
          zero = \<lparr>pr_ActivityID = 0, pr_ItemCount = 0, pr_EarliestExpireAt = zero_time,
                  pr_LatestExpireAt = zero_time\<rparr>
      in if a_ID a = 0 \<or> a_Status a \<noteq> StatusEnabled \<or> ps_Items snapshot = [] \<or> IsZero now
            \<or> \<not> now < a_StartAt a
         then ((Some (Sentinel ErrInvalidArgument), zero), r)
         else publish_items env 0 a (ps_Items snapshot) (zero\<lparr>pr_ActivityID := a_ID a\<rparr>) r)"

definition del_item :: "u64 \<Rightarrow> redis \<Rightarrow> unit result \<times> redis" where
  "del_item itemID r = (Inr (), DEL (DEL r (StateKey itemID)) (BuyersKey itemID))"

fun InvalidateItems :: "redis env \<Rightarrow> nat \<Rightarrow> redis \<Rightarrow> u64 list \<Rightarrow> goerr option \<times> redis" where
  "InvalidateItems env k r [] = (None, r)"
| "InvalidateItems env k r (itemID # itemIDs) =
     (if itemID = 0 then (Some (Sentinel ErrInvalidArgument), r)
      else (case call (env k) (del_item itemID) r of
          (Inl e, r') \<Rightarrow> (Some (admissionFailure ''invalidate preheat item''), r')
        | (Inr _, r') \<Rightarrow> InvalidateItems env (k + 1) r' itemIDs))"

section \<open>Diagnosis\<close>

record ItemConsistencyState =
  cs_Exists :: bool
  cs_Stock :: int
  cs_BuyerCount :: nat
  cs_Generation :: string
  cs_TTL :: int

definition query :: "(redis \<Rightarrow> 'a) \<Rightarrow> redis \<Rightarrow> 'a result \<times> redis" where
  "query f r = (Inr (f r), r)"

text \<open>The client turns the reply of \<open>PTTL\<close> into a duration, the two special values as they are.\<close>

definition pttl_duration :: "int \<Rightarrow> int" where
  "pttl_duration n = (if n = - 1 \<or> n = - 2 then n else n * millisecond)"

definition InspectItem :: "redis env \<Rightarrow> gate \<Rightarrow> redis \<Rightarrow> u64 \<Rightarrow> ItemConsistencyState result" where
  "InspectItem env g r itemID =
     (if itemID = 0 then fail ErrInvalidArgument
      else if \<not> g_client g then Inl (admissionFailure ''inspect Redis item'')
      else (case call (env 0) (query (\<lambda>r. hashes r (StateKey itemID))) r of
          (Inl e, r1) \<Rightarrow> Inl (admissionFailure ''inspect Redis state'')
        | (Inr fs, r1) \<Rightarrow>
            (case call (env 1) (query (\<lambda>r. HLEN r (BuyersKey itemID))) r1 of
               (Inl e, r2) \<Rightarrow> Inl (admissionFailure ''inspect Redis buyers'')
             | (Inr buyers, r2) \<Rightarrow>
                 (let state = \<lparr>cs_Exists = (fs \<noteq> []), cs_Stock = 0, cs_BuyerCount = buyers,
                        cs_Generation = (case map_of fs ''generation'' of None \<Rightarrow> [] | Some s \<Rightarrow> s),
                        cs_TTL = 0\<rparr>
                  in if fs = [] then Inr state
                     else (case ParseInt (case map_of fs ''stock'' of None \<Rightarrow> [] | Some s \<Rightarrow> s) of
                         (_, Some _) \<Rightarrow> Inl (admissionFailure ''inspect Redis stock'')
                       | (n, None) \<Rightarrow>
                           (case call (env 2) (query (\<lambda>r. PTTL r (StateKey itemID))) r2 of
                              (Inl e, _) \<Rightarrow> Inl (admissionFailure ''inspect Redis TTL'')
                            | (Inr ttl, _) \<Rightarrow>
                                Inr (state\<lparr>cs_Stock := n, cs_TTL := pttl_duration ttl\<rparr>)))))))"

section \<open>Distinct keys\<close>

lemma brace_not_in [simp]: "CHR ''}'' \<notin> set (FormatUint n)"
  by (rule nondigit_not_in_FormatUint) (simp add: is_digit_def byte_def)

lemma item_key_eq:
  assumes "CHR ''}'' \<notin> set p" "CHR ''}'' \<notin> set p'" "CHR ''}'' \<notin> set q" "CHR ''}'' \<notin> set q'"
  shows "p @ FormatUint a @ CHR ''}'' # q = p' @ FormatUint b @ CHR ''}'' # q' \<longleftrightarrow>
    p @ FormatUint a = p' @ FormatUint b \<and> q = q'" (is "?l = ?r \<longleftrightarrow> ?eq")
proof
  assume "?l = ?r"
  then have "Split ((p @ FormatUint a) @ CHR ''}'' # q) (CHR ''}'') =
    Split ((p' @ FormatUint b) @ CHR ''}'' # q') (CHR ''}'')" by simp
  moreover have "Split ((p @ FormatUint a) @ CHR ''}'' # q) (CHR ''}'') = [p @ FormatUint a, q]"
    "Split ((p' @ FormatUint b) @ CHR ''}'' # q') (CHR ''}'') = [p' @ FormatUint b, q']"
    using assms by (simp_all add: Split_sep Split_none del: append_assoc)
  ultimately show ?eq by simp
next
  assume ?eq
  then show "?l = ?r" by (metis append_assoc)
qed

lemmas key_defs = StateKey_def BuyersKey_def StreamKey_def StreamResultsKey_def
  StreamRetriesKey_def StreamDLQKey_def

lemma key_eq [simp]:
  "StateKey a = StateKey b \<longleftrightarrow> a = b" "BuyersKey a = BuyersKey b \<longleftrightarrow> a = b"
  "StreamKey a = StreamKey b \<longleftrightarrow> a = b" "StreamResultsKey a = StreamResultsKey b \<longleftrightarrow> a = b"
  "StreamRetriesKey a = StreamRetriesKey b \<longleftrightarrow> a = b" "StreamDLQKey a = StreamDLQKey b \<longleftrightarrow> a = b"
  by (simp_all add: key_defs)

lemma key_neq [simp]:
  "StateKey a \<noteq> BuyersKey b" "StateKey a \<noteq> StreamKey b" "StateKey a \<noteq> StreamResultsKey b"
  "StateKey a \<noteq> StreamRetriesKey b" "StateKey a \<noteq> StreamDLQKey b"
  "BuyersKey a \<noteq> StreamKey b" "BuyersKey a \<noteq> StreamResultsKey b" "BuyersKey a \<noteq> StreamRetriesKey b"
  "BuyersKey a \<noteq> StreamDLQKey b"
  "StreamKey a \<noteq> StreamResultsKey b" "StreamKey a \<noteq> StreamRetriesKey b" "StreamKey a \<noteq> StreamDLQKey b"
  "StreamResultsKey a \<noteq> StreamRetriesKey b" "StreamResultsKey a \<noteq> StreamDLQKey b"
  "StreamRetriesKey a \<noteq> StreamDLQKey b"
  using item_key_eq [of "''seckill:v03:{item:''" "''seckill:v03:{item:''" "'':state''" "'':buyers''" a b]
    item_key_eq [of "''seckill:v042:{item:''" "''seckill:v042:{item:''" "'':orders''" "'':results''" a b]
    item_key_eq [of "''seckill:v042:{item:''" "''seckill:v042:{item:''" "'':orders''" "'':retries''" a b]
    item_key_eq [of "''seckill:v042:{item:''" "''seckill:v042:{item:''" "'':orders''" "'':dlq''" a b]
    item_key_eq [of "''seckill:v042:{item:''" "''seckill:v042:{item:''" "'':results''" "'':retries''" a b]
    item_key_eq [of "''seckill:v042:{item:''" "''seckill:v042:{item:''" "'':results''" "'':dlq''" a b]
    item_key_eq [of "''seckill:v042:{item:''" "''seckill:v042:{item:''" "'':retries''" "'':dlq''" a b]
  by (simp_all add: key_defs)

lemmas key_neq_sym [simp] = key_neq [symmetric]

lemma tonumber_simps [simp]:
  "tonumber None = None" "in_i64 n \<Longrightarrow> tonumber (Some (FormatInt n)) = Some n"
  by (simp_all add: tonumber_def)

lemma parseReservation_reply [simp]:
  "parseReservation (ASlice [AInt d, AString s]) =
     (if d = 1 then (if s = [] then Inl (admissionFailure ''parse reserve order number'')
        else Inr \<lparr>rv_OrderNo = s, rv_Replayed = False\<rparr>)
      else if d = 2 then (if s = [] then Inl (admissionFailure ''parse replay order number'')
        else Inr \<lparr>rv_OrderNo = s, rv_Replayed = True\<rparr>)
      else if d = - 1 then fail ErrCacheNotReady
      else if d = - 2 then fail ErrUnavailable
      else if d = - 3 then fail ErrOutOfStock
      else Inl (admissionFailure ''parse reserve decision''))"
  by (simp add: parseReservation_def)

section \<open>Reading a result\<close>

lemma FindStreamResult_value:
  assumes "StreamOrderItemID ono = Some item" and "g_client g" and "u \<noteq> 0"
    and "HGET r (StreamResultsKey item) (TrimSpace ono) = Some (FormatUint owner @ ''|'' @ status)"
    and "status \<in> {AsyncResultQueued, AsyncResultSucceeded, AsyncResultFailed}"
  shows "FindStreamResult (quiet 0) g r u ono = (if u = owner then Inr status else fail ErrAsyncResultNotFound)"
proof -
  have "CHR ''|'' \<notin> set (FormatUint owner)"
    by (rule nondigit_not_in_FormatUint) (simp add: is_digit_def byte_def)
  moreover have "CHR ''|'' \<notin> set status" using assms(5) by auto
  ultimately have "Split (FormatUint owner @ ''|'' @ status) (CHR ''|'') = [FormatUint owner, status]"
    by (simp add: Split_sep Split_none)
  moreover have "FormatUint owner = FormatUint u \<longleftrightarrow> owner = u" by (metis ParseUint_FormatUint fst_conv)
  ultimately show ?thesis using assms by (auto simp: FindStreamResult_def HGet_def)
qed

end
