(* ===== verification/Admission.thy ===== *)
theory Admission
  imports RedisGate
begin

text \<open>
  The contract of an admission gate, stated as a locale, and the proof that both reservation
  scripts of the Redis gate meet it: no more first reservations than units of stock, at most one
  per user, and a reservation that changes nothing when it is refused or replayed.
\<close>

section \<open>The contract\<close>

text \<open>
  A gate with its observable state: the remaining stock and the order number recorded for each
  user. \<open>other\<close> are the events that are not a reservation of this item: they either keep what is
  observable or leave a gate without stock.
\<close>

locale admission =
  fixes reserve :: "'g \<Rightarrow> u64 \<Rightarrow> int \<Rightarrow> string \<Rightarrow> Reservation result \<times> 'g"
    and other :: "'g \<Rightarrow> 'ev \<Rightarrow> 'g"
    and stock :: "'g \<Rightarrow> int"
    and buyer :: "'g \<Rightarrow> u64 \<Rightarrow> string option"
    and invar :: "'g \<Rightarrow> bool"
  assumes first: "invar g \<Longrightarrow> ono \<noteq> [] \<Longrightarrow>
        reserve g u now ono = (Inr \<lparr>rv_OrderNo = x, rv_Replayed = False\<rparr>, g') \<Longrightarrow>
        buyer g u = None \<and> x = ono \<and> buyer g' = (buyer g)(u \<mapsto> ono) \<and> 0 < stock g \<and> stock g' = stock g - 1"
    and replay: "invar g \<Longrightarrow> ono \<noteq> [] \<Longrightarrow>
        reserve g u now ono = (Inr \<lparr>rv_OrderNo = x, rv_Replayed = True\<rparr>, g') \<Longrightarrow>
        buyer g u = Some x \<and> g' = g"
    and refused: "invar g \<Longrightarrow> ono \<noteq> [] \<Longrightarrow> reserve g u now ono = (Inl e, g') \<Longrightarrow> g' = g"
    and keeps: "invar g \<Longrightarrow> ono \<noteq> [] \<Longrightarrow> invar (snd (reserve g u now ono))"
    and decays: "invar g \<Longrightarrow> invar (other g ev) \<and>
        (stock (other g ev) = stock g \<and> buyer (other g ev) = buyer g \<or> stock (other g ev) = 0)"
    and stock_nonneg: "invar g \<Longrightarrow> 0 \<le> stock g"

text \<open>A history: requests with the replies they got, between other events.\<close>

datatype 'ev event = Request u64 int string | Other 'ev

fun run :: "('g \<Rightarrow> u64 \<Rightarrow> int \<Rightarrow> string \<Rightarrow> Reservation result \<times> 'g) \<Rightarrow> ('g \<Rightarrow> 'ev \<Rightarrow> 'g) \<Rightarrow>
    'g \<Rightarrow> 'ev event list \<Rightarrow> (u64 \<times> Reservation result) list \<times> 'g" where
  "run res oth g [] = ([], g)"
| "run res oth g (Request u now ono # evs) =
     (case res g u now ono of (reply, g1) \<Rightarrow>
        (case run res oth g1 evs of (replies, g2) \<Rightarrow> ((u, reply) # replies, g2)))"
| "run res oth g (Other e # evs) = run res oth (oth g e) evs"

definition first_users :: "(u64 \<times> Reservation result) list \<Rightarrow> u64 list" where
  "first_users replies = map fst (filter (\<lambda>(u, reply). case reply of
     Inr rv \<Rightarrow> \<not> rv_Replayed rv | Inl _ \<Rightarrow> False) replies)"

definition wf_event :: "'ev event \<Rightarrow> bool" where
  "wf_event ev \<longleftrightarrow> (case ev of Request _ _ ono \<Rightarrow> ono \<noteq> [] | Other _ \<Rightarrow> True)"

lemma first_users_simps [simp]:
  "first_users [] = []"
  "first_users ((u, Inl e) # rs) = first_users rs"
  "first_users ((u, Inr \<lparr>rv_OrderNo = x, rv_Replayed = True\<rparr>) # rs) = first_users rs"
  "first_users ((u, Inr \<lparr>rv_OrderNo = x, rv_Replayed = False\<rparr>) # rs) = u # first_users rs"
  by (simp_all add: first_users_def)

text \<open>What a reservation can do, as one case distinction.\<close>

lemma reply_cases:
  obtains (refused) e g' where "res = (Inl e, g')"
    | (replayed) x g' where "res = (Inr \<lparr>rv_OrderNo = x, rv_Replayed = True\<rparr>, g')"
    | (first) x g' where "res = (Inr \<lparr>rv_OrderNo = x, rv_Replayed = False\<rparr>, g')"
proof (cases res)
  case (Pair a g')
  show ?thesis
  proof (cases a)
    case (Inl e)
    with Pair show ?thesis using refused by simp
  next
    case (Inr rv)
    then show ?thesis using Pair replayed first
      by (cases rv) (metis (full_types) Inr Pair)
  qed
qed

context admission
begin

lemma reserve_cases:
  assumes "invar g" and "ono \<noteq> []"
  obtains (refused) e where "reserve g u now ono = (Inl e, g)"
    | (replayed) x where "reserve g u now ono = (Inr \<lparr>rv_OrderNo = x, rv_Replayed = True\<rparr>, g)"
        and "buyer g u = Some x"
    | (first) g' where "reserve g u now ono = (Inr \<lparr>rv_OrderNo = ono, rv_Replayed = False\<rparr>, g')"
        and "invar g'" and "buyer g u = None" and "buyer g' = (buyer g)(u \<mapsto> ono)" and "0 < stock g"
        and "stock g' = stock g - 1"
proof (cases "reserve g u now ono" rule: reply_cases)
  case (refused e g')
  with assms admission.refused [OF admission_axioms, of g ono u now e g'] that(1) show ?thesis by simp
next
  case (replayed x g')
  with assms replay [of g ono u now x g'] that(2) show ?thesis by simp
next
  case (first x g')
  with assms admission.first [OF admission_axioms, of g ono u now x g'] keeps [of g ono u now] that(3)
  show ?thesis by simp
qed

lemma run_bound:
  "invar g \<Longrightarrow> list_all wf_event evs \<Longrightarrow> run reserve other g evs = (replies, g') \<Longrightarrow>
     int (length (first_users replies)) + stock g' \<le> stock g \<and> invar g'"
proof (induction evs arbitrary: g replies)
  case Nil
  then show ?case by simp
next
  case (Cons ev evs)
  show ?case
  proof (cases ev)
    case (Request u now ono)
    with Cons.prems have ono: "ono \<noteq> []" by (simp add: wf_event_def)
    from Cons.prems(1) ono show ?thesis
      by (rule reserve_cases [where u = u and now = now])
        (use Cons Request in \<open>fastforce split: prod.splits\<close>)+
  next
    case (Other e)
    have "invar (other g e)" and "stock (other g e) \<le> stock g"
      using Cons.prems(1) decays [of g e] stock_nonneg [of g] by auto
    with Cons Other show ?thesis by fastforce
  qed
qed

text \<open>No oversell: the first reservations of any history fit in the initial stock.\<close>

lemma no_oversell:
  assumes "invar g" and "list_all wf_event evs" and "run reserve other g evs = (replies, g')"
  shows "int (length (first_users replies)) \<le> stock g"
  using run_bound [OF assms] stock_nonneg [of g'] by auto

text \<open>One per user: nobody who already has an order number gets a second first reservation.\<close>

lemma run_users:
  "invar g \<Longrightarrow> list_all wf_event evs \<Longrightarrow> run reserve other g evs = (replies, g') \<Longrightarrow>
     distinct (first_users replies) \<and> set (first_users replies) \<inter> dom (buyer g) = {}"
proof (induction evs arbitrary: g replies)
  case Nil
  then show ?case by simp
next
  case (Cons ev evs)
  show ?case
  proof (cases ev)
    case (Request u now ono)
    with Cons.prems have ono: "ono \<noteq> []" by (simp add: wf_event_def)
    from Cons.prems(1) ono show ?thesis
      by (rule reserve_cases [where u = u and now = now])
        (use Cons Request in \<open>fastforce split: prod.splits\<close>)+
  next
    case (Other e)
    have inv: "invar (other g e)" using Cons.prems(1) decays [of g e] by auto
    have run: "run reserve other (other g e) evs = (replies, g')" using Cons.prems Other by simp
    show ?thesis
    proof (cases "buyer (other g e) = buyer g")
      case True
      with Cons inv run show ?thesis by fastforce
    next
      case False
      with Cons.prems(1) decays [of g e] have "stock (other g e) = 0" by auto
      with no_oversell [OF inv _ run] Cons.prems(2) have "first_users replies = []" by simp
      then show ?thesis by simp
    qed
  qed
qed

end

text \<open>A gate that moreover recognises a returning user at any time and answers without an effect.\<close>

locale idempotent_admission = admission +
  assumes returning: "invar g \<Longrightarrow> buyer g u = Some x \<Longrightarrow>
    reserve g u now ono = (Inr \<lparr>rv_OrderNo = x, rv_Replayed = True\<rparr>, g)"
begin

text \<open>A retry, with whatever candidate order number, gets the number of the first reservation.\<close>

lemma retry_same_order:
  assumes "invar g" and "ono \<noteq> []"
    and "reserve g u now ono = (Inr \<lparr>rv_OrderNo = x, rv_Replayed = b\<rparr>, g')"
  shows "reserve g' u now' ono' = (Inr \<lparr>rv_OrderNo = x, rv_Replayed = True\<rparr>, g')"
  using assms(1,2) by (rule reserve_cases [where u = u and now = now]) (use assms returning in auto)

text \<open>Executing a request twice has the effect of executing it once.\<close>

lemma twice_is_once:
  assumes "invar g" and "ono \<noteq> []"
  shows "snd (reserve (snd (reserve g u now ono)) u now ono) = snd (reserve g u now ono)"
  using assms(1,2) by (rule reserve_cases [where u = u and now = now]) (use assms returning in auto)

end

section \<open>The Redis gate meets the contract\<close>

text \<open>One execution of a script for one item, with its reply parsed.\<close>

definition enqueue :: "u64 \<Rightarrow> int \<Rightarrow> redis \<Rightarrow> u64 \<Rightarrow> int \<Rightarrow> string \<Rightarrow> Reservation result \<times> redis" where
  "enqueue item retention r u now ono =
     (case reserveAndEnqueueScript r (StateKey item) (BuyersKey item) (StreamKey item) (StreamResultsKey item)
         (FormatUint u) (FormatInt now) ono (FormatUint item) (FormatInt retention) of
        (Inl e, r') \<Rightarrow> (Inl (admissionFailure ''execute stream reserve script''), r')
      | (Inr reply, r') \<Rightarrow> (parseReservation reply, r'))"

definition reserve_sync :: "u64 \<Rightarrow> redis \<Rightarrow> u64 \<Rightarrow> int \<Rightarrow> string \<Rightarrow> Reservation result \<times> redis" where
  "reserve_sync item r u now ono =
     (case reserveScript r (StateKey item) (BuyersKey item) (FormatUint u) (FormatInt now) ono of
        (Inl e, r') \<Rightarrow> (Inl (admissionFailure ''execute reserve script''), r')
      | (Inr reply, r') \<Rightarrow> (parseReservation reply, r'))"

definition is_ready :: "u64 \<Rightarrow> redis \<Rightarrow> bool" where
  "is_ready item r \<longleftrightarrow> HGET r (StateKey item) ''ready'' = Some ''1''"

definition stock_of :: "u64 \<Rightarrow> redis \<Rightarrow> int" where
  "stock_of item r = (if is_ready item r
     then (case tonumber (HGET r (StateKey item) ''stock'') of None \<Rightarrow> 0 | Some n \<Rightarrow> n) else 0)"

definition buyer_of :: "u64 \<Rightarrow> redis \<Rightarrow> u64 \<Rightarrow> string option" where
  "buyer_of item r u = (if is_ready item r then HGET r (BuyersKey item) (FormatUint u) else None)"

text \<open>
  A published item: stock and expiry are integers, the state key expires at the recorded time, which
  is in the future, the buyers' key not earlier, and every recorded order number is not empty.
\<close>

definition live :: "u64 \<Rightarrow> redis \<Rightarrow> int \<Rightarrow> int \<Rightarrow> bool" where
  "live item r stock e \<longleftrightarrow>
     HGET r (StateKey item) ''stock'' = Some (FormatInt stock) \<and> 0 \<le> stock \<and> in_i64 stock \<and>
     HGET r (StateKey item) ''expire_at_ms'' = Some (FormatInt e) \<and> in_i64 e \<and> int (clock r) < e \<and>
     expiry r (StateKey item) = Some e \<and> expiry r (BuyersKey item) \<in> {None, Some e} \<and>
     (\<forall>u. HGET r (BuyersKey item) (FormatUint u) \<noteq> Some [])"

definition item_ok :: "u64 \<Rightarrow> redis \<Rightarrow> bool" where
  "item_ok item r \<longleftrightarrow> (is_ready item r \<longrightarrow> (\<exists>stock e. live item r stock e))"

text \<open>
  The other events: time passes, the item is invalidated, or other clients change anything but the
  two keys of this item.
\<close>

definition untouched :: "u64 \<Rightarrow> redis \<Rightarrow> redis \<Rightarrow> bool" where
  "untouched item r r' \<longleftrightarrow> clock r' = clock r \<and>
     (\<forall>k \<in> {StateKey item, BuyersKey item}. hashes r' k = hashes r k \<and> expiry r' k = expiry r k)"

datatype gate_event = Elapse nat | Invalidate | Elsewhere redis

fun gate_other :: "u64 \<Rightarrow> redis \<Rightarrow> gate_event \<Rightarrow> redis" where
  "gate_other item r (Elapse dt) = tick r dt"
| "gate_other item r Invalidate = snd (del_item item r)"
| "gate_other item r (Elsewhere r') = (if untouched item r r' then r' else r)"

lemma untouched_observe:
  assumes "untouched item r r'"
  shows "is_ready item r' = is_ready item r" "stock_of item r' = stock_of item r"
    "buyer_of item r' = buyer_of item r" "live item r' s e = live item r s e"
  using assms
  by (auto simp: untouched_def is_ready_def stock_of_def buyer_of_def live_def HGET_def fun_eq_iff)

lemma gate_other_decays:
  assumes "item_ok item r"
  shows "item_ok item (gate_other item r ev) \<and>
    (stock_of item (gate_other item r ev) = stock_of item r \<and>
       buyer_of item (gate_other item r ev) = buyer_of item r \<or> stock_of item (gate_other item r ev) = 0)"
proof (cases ev)
  case (Elapse dt)
  let ?r = "tick r dt"
  show ?thesis
  proof (cases "is_ready item ?r")
    case False
    with Elapse show ?thesis by (simp add: item_ok_def stock_of_def)
  next
    case True
    then have al: "\<not> expired r (clock r + dt) (StateKey item)" and rd: "is_ready item r"
      by (auto simp: is_ready_def HGET_def tick_def Let_def split: if_splits)
    with assms obtain s e where live: "live item r s e" by (auto simp: item_ok_def)
    with al have "\<not> expired r (clock r + dt) (BuyersKey item)"
      by (auto simp: live_def expired_def)
    with al have same: "HGET ?r (StateKey item) = HGET r (StateKey item)"
      "HGET ?r (BuyersKey item) = HGET r (BuyersKey item)"
      "expiry ?r (StateKey item) = expiry r (StateKey item)"
      "expiry ?r (BuyersKey item) = expiry r (BuyersKey item)"
      by (simp_all add: HGET_def tick_def Let_def fun_eq_iff)
    moreover have "int (clock ?r) < e" using al live
      by (simp add: expired_def live_def tick_def Let_def)
    ultimately have "live item ?r s e" using live by (simp add: live_def)
    with same rd True Elapse show ?thesis
      by (auto simp: item_ok_def stock_of_def buyer_of_def fun_eq_iff)
  qed
next
  case Invalidate
  then show ?thesis
    by (simp add: item_ok_def stock_of_def is_ready_def del_item_def HGET_DEL)
next
  case (Elsewhere r')
  with assms show ?thesis by (auto simp: untouched_observe item_ok_def)
qed

text \<open>A first reservation: one unit of stock less, the user recorded, the item still live.\<close>

lemma live_reserve_step:
  assumes "live item r stock e" and "0 < stock" and "ono \<noteq> []"
    and "hashes r' (StateKey item) = hashes (HSET r (StateKey item) ''stock'' (FormatInt (stock - 1))) (StateKey item)"
    and "hashes r' (BuyersKey item) = hashes (HSET r (BuyersKey item) (FormatUint u) ono) (BuyersKey item)"
    and "clock r' = clock r" and "expiry r' (StateKey item) = expiry r (StateKey item)"
    and "expiry r' (BuyersKey item) = Some e"
  shows "live item r' (stock - 1) e"
    and "is_ready item r' = is_ready item r"
    and "is_ready item r \<Longrightarrow> buyer_of item r' = (buyer_of item r)(u \<mapsto> ono)"
proof -
  have st: "HGET r' (StateKey item) f =
      (if f = ''stock'' then Some (FormatInt (stock - 1)) else HGET r (StateKey item) f)" for f
    using assms(4) by (simp add: HGET_def HSET_def update_conv')
  have bu: "HGET r' (BuyersKey item) f = (if f = FormatUint u then Some ono else HGET r (BuyersKey item) f)" for f
    using assms(5) by (simp add: HGET_def HSET_def update_conv')
  show "live item r' (stock - 1) e"
    using assms(1-3,6-8) by (auto simp: live_def st bu in_i64_def)
  show "is_ready item r' = is_ready item r" by (simp add: is_ready_def st)
  then show "is_ready item r \<Longrightarrow> buyer_of item r' = (buyer_of item r)(u \<mapsto> ono)"
    by (auto simp: buyer_of_def bu fun_eq_iff)
qed

lemma enqueue_first:
  assumes live: "live item r stock e" and ready: "is_ready item r" and pos: "0 < stock" and ono: "ono \<noteq> []"
    and ret: "0 \<le> ret" "in_i64 ret"
    and new: "HGET r (BuyersKey item) (FormatUint u) = None"
    and opn: "activity_closed (HGET r (StateKey item) ''status'') (tonumber (HGET r (StateKey item) ''start_at_ms''))
       (tonumber (HGET r (StateKey item) ''end_at_ms'')) (tonumber (Some (FormatInt now))) = Inr False"
    and act: "HGET r (StateKey item) ''activity_id'' = Some act"
  obtains r' where "enqueue item ret r u now ono = (Inr \<lparr>rv_OrderNo = ono, rv_Replayed = False\<rparr>, r')"
    and "live item r' (stock - 1) e" and "is_ready item r'"
    and "buyer_of item r' = (buyer_of item r)(u \<mapsto> ono)"
    and "stream_entries r' (StreamKey item) = stream_entries r (StreamKey item) @
      [(show_id (next_id (clock r) (last_id (get_stream r (StreamKey item)))),
        order_requested_fields ono (FormatUint u) act (FormatUint item) (FormatInt now))]"
    and "HGET r' (StreamResultsKey item) ono = Some (FormatUint u @ ''|QUEUED'')"
    and "\<And>j. j \<noteq> item \<Longrightarrow> untouched j r r'"
proof -
  let ?sk = "StateKey item" and ?bk = "BuyersKey item"
  let ?q = "order_requested_fields ono (FormatUint u) act (FormatUint item) (FormatInt now)"
  let ?r1 = "HSET r ?sk ''stock'' (FormatInt (stock - 1))"
  let ?r3 = "HSET (HSET ?r1 ?bk (FormatUint u) ono) (StreamResultsKey item) ono (FormatUint u @ ''|QUEUED'')"
  let ?r5 = "PEXPIREAT (XADD ?r3 (StreamKey item) ?q) ?bk e"
  let ?r7 = "PEXPIREAT (PEXPIREAT ?r5 (StreamKey item) (e + ret)) (StreamResultsKey item) (e + ret)"
  from live have l: "HGET r ?sk ''stock'' = Some (FormatInt stock)" "in_i64 stock" "in_i64 (stock - 1)"
    "HGET r ?sk ''expire_at_ms'' = Some (FormatInt e)" "in_i64 e" "int (clock r) < e"
    "int (clock r) < e + ret"
    using pos ret by (auto simp: live_def in_i64_def)
  have inc: "HINCRBY r ?sk ''stock'' (- 1) = Some (stock - 1, ?r1)"
    using redis_hashes.hincrby_int [OF l(1,2), of "- 1"] l(3) by simp
  have run: "enqueue item ret r u now ono = (Inr \<lparr>rv_OrderNo = ono, rv_Replayed = False\<rparr>, ?r7)"
    using ready new opn act l pos ret ono inc
    by (simp add: enqueue_def reserveAndEnqueueScript_def is_ready_def lua_reply_def Let_def)
  have h: "hashes ?r7 k = hashes ?r3 k" for k
    using l by simp
  have x: "expiry ?r7 ?sk = expiry r ?sk" "expiry ?r7 ?bk = Some e" "clock ?r7 = clock r"
    using l by (simp_all add: expiry_PEXPIREAT key_exists_HSET key_exists_XADD)
  have s: "live item ?r7 (stock - 1) e" "is_ready item ?r7 = is_ready item r"
    "buyer_of item ?r7 = (buyer_of item r)(u \<mapsto> ono)"
    using live_reserve_step [OF live pos ono, of ?r7 u] ready h x by (simp_all add: hashes_HSET)
  have q: "stream_entries ?r7 (StreamKey item) = stream_entries (XADD ?r3 (StreamKey item) ?q) (StreamKey item)"
    by (rule stream_entries_cong) (use l in simp)
  have q': "stream_entries ?r3 (StreamKey item) = stream_entries r (StreamKey item)"
    "get_stream ?r3 (StreamKey item) = get_stream r (StreamKey item)"
    by (simp_all add: stream_entries_def get_stream_def)
  have res: "HGET ?r7 (StreamResultsKey item) ono = Some (FormatUint u @ ''|QUEUED'')"
    using h [of "StreamResultsKey item"] by (simp add: HGET_def hashes_HSET update_conv')
  have un: "untouched j r ?r7" if "j \<noteq> item" for j
    using that h x(3) l by (auto simp: untouched_def hashes_HSET expiry_PEXPIREAT)
  show ?thesis using run s ready q q' res un
    by (intro that [of ?r7]) (simp_all add: stream_entries_XADD)
qed

text \<open>Everything an enqueue can do to a live item.\<close>

lemma enqueue_cases:
  assumes ok: "item_ok item r" and ono: "ono \<noteq> []" and ret: "0 \<le> ret" "in_i64 ret"
  obtains (refused) e where "enqueue item ret r u now ono = (Inl e, r)" and "buyer_of item r u = None"
    | (replayed) x where "enqueue item ret r u now ono = (Inr \<lparr>rv_OrderNo = x, rv_Replayed = True\<rparr>, r)"
        and "buyer_of item r u = Some x"
    | (first) r' where "enqueue item ret r u now ono = (Inr \<lparr>rv_OrderNo = ono, rv_Replayed = False\<rparr>, r')"
        and "item_ok item r'" and "buyer_of item r u = None" and "buyer_of item r' = (buyer_of item r)(u \<mapsto> ono)"
        and "0 < stock_of item r" and "stock_of item r' = stock_of item r - 1"
proof (cases "is_ready item r")
  case False
  then have "enqueue item ret r u now ono = (fail ErrCacheNotReady, r)"
    by (simp add: enqueue_def reserveAndEnqueueScript_def is_ready_def lua_reply_def)
  with False that(1) show ?thesis by (simp add: buyer_of_def)
next
  case ready: True
  with ok obtain stock e where live: "live item r stock e" by (auto simp: item_ok_def)
  note defs = enqueue_def reserveAndEnqueueScript_def lua_reply_def
  have rd: "HGET r (StateKey item) ''ready'' = Some ''1''" using ready by (simp add: is_ready_def)
  have num: "tonumber (HGET r (StateKey item) ''stock'') = Some stock"
    "tonumber (HGET r (StateKey item) ''expire_at_ms'') = Some e"
    using live by (simp_all add: live_def)
  have st: "stock_of item r = stock" using ready num by (simp add: stock_of_def)
  show ?thesis
  proof (cases "HGET r (BuyersKey item) (FormatUint u)")
    case (Some x)
    with live have "x \<noteq> []" by (auto simp: live_def)
    with Some rd have "enqueue item ret r u now ono = (Inr \<lparr>rv_OrderNo = x, rv_Replayed = True\<rparr>, r)"
      by (simp add: defs)
    with Some ready that(2) show ?thesis by (simp add: buyer_of_def)
  next
    case None
    then have b: "buyer_of item r u = None" by (simp add: buyer_of_def)
    let ?c = "activity_closed (HGET r (StateKey item) ''status'') (tonumber (HGET r (StateKey item) ''start_at_ms''))
       (tonumber (HGET r (StateKey item) ''end_at_ms'')) (tonumber (Some (FormatInt now)))"
    consider "\<exists>e. ?c = Inl e" | "?c = Inr True" | "?c = Inr False \<and> HGET r (StateKey item) ''activity_id'' = None"
      | "?c = Inr False \<and> stock \<le> 0"
      | act where "?c = Inr False" "HGET r (StateKey item) ''activity_id'' = Some act" "0 < stock"
      by (cases ?c; cases "projr ?c"; cases "HGET r (StateKey item) ''activity_id''"; cases "0 < stock") auto
    then show ?thesis
    proof cases
      case 1
      with None rd b that(1) show ?thesis by (auto simp: defs)
    next
      case 2
      with None rd b that(1) show ?thesis by (simp add: defs)
    next
      case 3
      with None rd num b that(1) show ?thesis by (simp add: defs)
    next
      case 4
      with None rd num b that(1) show ?thesis
        by (cases "HGET r (StateKey item) ''activity_id''") (simp_all add: defs)
    next
      case 5
      obtain r' where r': "enqueue item ret r u now ono = (Inr \<lparr>rv_OrderNo = ono, rv_Replayed = False\<rparr>, r')"
        "live item r' (stock - 1) e" "is_ready item r'" "buyer_of item r' = (buyer_of item r)(u \<mapsto> ono)"
        by (rule enqueue_first [OF live ready 5(3) ono ret None 5(1,2)])
      then have "stock_of item r' = stock - 1" by (simp add: stock_of_def live_def)
      with r' b st 5(3) that(3) show ?thesis by (auto simp: item_ok_def)
    qed
  qed
qed

lemma item_ok_stock_nonneg: "item_ok item r \<Longrightarrow> 0 \<le> stock_of item r"
  by (auto simp: item_ok_def stock_of_def live_def)

lemma stream_admission:
  assumes ret: "0 \<le> ret" "in_i64 ret"
  shows "idempotent_admission (enqueue item ret) (gate_other item) (stock_of item) (buyer_of item) (item_ok item)"
proof (unfold_locales, goal_cases)
  case (1 g ono u now x g')
  show ?case by (rule enqueue_cases [OF 1(1,2) ret, of u now]) (use 1(3) in auto)
next
  case (2 g ono u now x g')
  show ?case by (rule enqueue_cases [OF 2(1,2) ret, of u now]) (use 2(3) in auto)
next
  case (3 g ono u now e g')
  show ?case by (rule enqueue_cases [OF 3(1,2) ret, of u now]) (use 3(3) in auto)
next
  case (4 g ono u now)
  show ?case by (rule enqueue_cases [OF 4(1,2) ret, of u now]) (use 4 in auto)
next
  case (5 g ev)
  then show ?case by (rule gate_other_decays)
next
  case (6 g)
  then show ?case by (rule item_ok_stock_nonneg)
next
  case (7 g u x now ono)
  then have "is_ready item g" and x: "HGET g (BuyersKey item) (FormatUint u) = Some x"
    by (auto simp: buyer_of_def split: if_splits)
  moreover from this 7(1) have "x \<noteq> []" by (auto simp: item_ok_def live_def)
  ultimately show ?case
    by (simp add: enqueue_def reserveAndEnqueueScript_def lua_reply_def is_ready_def)
qed

text \<open>The same for the synchronous script, which checks the activity's window before the buyer.\<close>

lemma reserve_sync_first:
  assumes live: "live item r stock e" and ready: "is_ready item r" and pos: "0 < stock" and ono: "ono \<noteq> []"
    and new: "HGET r (BuyersKey item) (FormatUint u) = None"
    and opn: "activity_closed (HGET r (StateKey item) ''status'') (tonumber (HGET r (StateKey item) ''start_at_ms''))
       (tonumber (HGET r (StateKey item) ''end_at_ms'')) (tonumber (Some (FormatInt now))) = Inr False"
  obtains r' where "reserve_sync item r u now ono = (Inr \<lparr>rv_OrderNo = ono, rv_Replayed = False\<rparr>, r')"
    and "live item r' (stock - 1) e" and "is_ready item r'"
    and "buyer_of item r' = (buyer_of item r)(u \<mapsto> ono)"
proof -
  let ?sk = "StateKey item" and ?bk = "BuyersKey item"
  let ?r1 = "HSET r ?sk ''stock'' (FormatInt (stock - 1))"
  let ?r2 = "PEXPIREAT (HSET ?r1 ?bk (FormatUint u) ono) ?bk e"
  from live have l: "HGET r ?sk ''stock'' = Some (FormatInt stock)" "in_i64 stock" "in_i64 (stock - 1)"
    "HGET r ?sk ''expire_at_ms'' = Some (FormatInt e)" "in_i64 e" "int (clock r) < e"
    using pos by (auto simp: live_def in_i64_def)
  have inc: "HINCRBY r ?sk ''stock'' (- 1) = Some (stock - 1, ?r1)"
    using redis_hashes.hincrby_int [OF l(1,2), of "- 1"] l(3) by simp
  have run: "reserve_sync item r u now ono = (Inr \<lparr>rv_OrderNo = ono, rv_Replayed = False\<rparr>, ?r2)"
    using ready new opn l pos ono inc
    by (simp add: reserve_sync_def reserveScript_def is_ready_def lua_reply_def)
  have "live item ?r2 (stock - 1) e" "is_ready item ?r2 = is_ready item r"
    "buyer_of item ?r2 = (buyer_of item r)(u \<mapsto> ono)"
    using live_reserve_step [OF live pos ono, of ?r2 u] ready l
    by (simp_all add: hashes_HSET expiry_PEXPIREAT key_exists_HSET)
  with run ready show ?thesis by (intro that [of ?r2]) simp_all
qed

lemma reserve_sync_cases:
  assumes ok: "item_ok item r" and ono: "ono \<noteq> []"
  obtains (refused) e where "reserve_sync item r u now ono = (Inl e, r)"
    | (replayed) x where "reserve_sync item r u now ono = (Inr \<lparr>rv_OrderNo = x, rv_Replayed = True\<rparr>, r)"
        and "buyer_of item r u = Some x"
    | (first) r' where "reserve_sync item r u now ono = (Inr \<lparr>rv_OrderNo = ono, rv_Replayed = False\<rparr>, r')"
        and "item_ok item r'" and "buyer_of item r u = None" and "buyer_of item r' = (buyer_of item r)(u \<mapsto> ono)"
        and "0 < stock_of item r" and "stock_of item r' = stock_of item r - 1"
proof (cases "is_ready item r")
  case False
  then have "reserve_sync item r u now ono = (fail ErrCacheNotReady, r)"
    by (simp add: reserve_sync_def reserveScript_def is_ready_def lua_reply_def)
  with that(1) show ?thesis by simp
next
  case ready: True
  with ok obtain stock e where live: "live item r stock e" by (auto simp: item_ok_def)
  note defs = reserve_sync_def reserveScript_def lua_reply_def
  have rd: "HGET r (StateKey item) ''ready'' = Some ''1''" using ready by (simp add: is_ready_def)
  have num: "tonumber (HGET r (StateKey item) ''stock'') = Some stock"
    "tonumber (HGET r (StateKey item) ''expire_at_ms'') = Some e"
    using live by (simp_all add: live_def)
  have st: "stock_of item r = stock" using ready num by (simp add: stock_of_def)
  let ?c = "activity_closed (HGET r (StateKey item) ''status'') (tonumber (HGET r (StateKey item) ''start_at_ms''))
     (tonumber (HGET r (StateKey item) ''end_at_ms'')) (tonumber (Some (FormatInt now)))"
  let ?b = "HGET r (BuyersKey item) (FormatUint u)"
  consider "\<exists>e. ?c = Inl e" | "?c = Inr True" | x where "?c = Inr False" "?b = Some x"
    | "?c = Inr False" "?b = None" "stock \<le> 0" | "?c = Inr False" "?b = None" "0 < stock"
    by (cases ?c; cases "projr ?c"; cases ?b; cases "0 < stock") auto
  then show ?thesis
  proof cases
    case 1
    with rd that(1) show ?thesis by (auto simp: defs)
  next
    case 2
    with rd that(1) show ?thesis by (simp add: defs)
  next
    case 3
    with live have "x \<noteq> []" by (auto simp: live_def)
    with 3 rd that(2) ready show ?thesis by (simp add: defs buyer_of_def)
  next
    case 4
    with rd num that(1) show ?thesis by (simp add: defs)
  next
    case 5
    obtain r' where r': "reserve_sync item r u now ono = (Inr \<lparr>rv_OrderNo = ono, rv_Replayed = False\<rparr>, r')"
      "live item r' (stock - 1) e" "is_ready item r'" "buyer_of item r' = (buyer_of item r)(u \<mapsto> ono)"
      by (rule reserve_sync_first [OF live ready 5(3) ono 5(2,1)])
    then have "stock_of item r' = stock - 1" by (simp add: stock_of_def live_def)
    moreover have "buyer_of item r u = None" using 5 by (simp add: buyer_of_def)
    ultimately show ?thesis using r' 5(3) st that(3) by (auto simp: item_ok_def)
  qed
qed

interpretation sync_gate: admission "reserve_sync item" "gate_other item" "stock_of item" "buyer_of item" "item_ok item"
  for item
proof (unfold_locales, goal_cases)
  case (1 g ono u now x g')
  show ?case by (rule reserve_sync_cases [OF 1(1,2), of u now]) (use 1(3) in auto)
next
  case (2 g ono u now x g')
  show ?case by (rule reserve_sync_cases [OF 2(1,2), of u now]) (use 2(3) in auto)
next
  case (3 g ono u now e g')
  show ?case by (rule reserve_sync_cases [OF 3(1,2), of u now]) (use 3(3) in auto)
next
  case (4 g ono u now)
  show ?case by (rule reserve_sync_cases [OF 4(1,2), of u now]) (use 4 in auto)
next
  case (5 g ev)
  then show ?case by (rule gate_other_decays)
next
  case (6 g)
  then show ?case by (rule item_ok_stock_nonneg)
qed

text \<open>The stream gate with the retention the code starts with (24 hours).\<close>

interpretation stream_gate: idempotent_admission "enqueue item 86400000" "gate_other item" "stock_of item"
    "buyer_of item" "item_ok item" for item
  by (rule stream_admission) (simp_all add: in_i64_def max_i64_def)

section \<open>Publishing opens a gate\<close>

lemma publish_item_live:
  assumes "0 \<le> i_AvailableStock item" and "in_i64 (i_AvailableStock item)"
    and "int (clock r) < UnixMilli (itemExpiry (a_EndAt a) (i_ID item))"
    and "in_i64 (UnixMilli (itemExpiry (a_EndAt a) (i_ID item)))"
  shows "live (i_ID item) (snd (publish_item a item r)) (i_AvailableStock item)
      (UnixMilli (itemExpiry (a_EndAt a) (i_ID item)))"
    and "is_ready (i_ID item) (snd (publish_item a item r))"
    and "stock_of (i_ID item) (snd (publish_item a item r)) = i_AvailableStock item"
    and "buyer_of (i_ID item) (snd (publish_item a item r)) = Map.empty"
    and "item_ok (i_ID item) (snd (publish_item a item r))"
proof -
  let ?r = "snd (publish_item a item r)"
  have h: "HGET ?r (StateKey (i_ID item)) ''stock'' = Some (FormatInt (i_AvailableStock item))"
    "HGET ?r (StateKey (i_ID item)) ''expire_at_ms'' = Some (FormatInt (UnixMilli (itemExpiry (a_EndAt a) (i_ID item))))"
    "HGET ?r (StateKey (i_ID item)) ''ready'' = Some ''1''"
    "HGET ?r (BuyersKey (i_ID item)) f = None" for f
    using assms by (simp_all add: publish_item_def publishScript_def Let_def hash_simps HGET_DEL)
  have e: "expiry ?r (StateKey (i_ID item)) = Some (UnixMilli (itemExpiry (a_EndAt a) (i_ID item)))"
    "expiry ?r (BuyersKey (i_ID item)) = None" "clock ?r = clock r"
    using assms
    by (simp_all add: publish_item_def publishScript_def Let_def expiry_PEXPIREAT key_exists_HSET)
      (simp add: DEL_def)
  show l: "live (i_ID item) ?r (i_AvailableStock item) (UnixMilli (itemExpiry (a_EndAt a) (i_ID item)))"
    using assms h e by (simp add: live_def)
  show ready: "is_ready (i_ID item) ?r" using h by (simp add: is_ready_def)
  show "stock_of (i_ID item) ?r = i_AvailableStock item" "buyer_of (i_ID item) ?r = Map.empty"
    using ready h assms by (simp_all add: stock_of_def buyer_of_def fun_eq_iff)
  show "item_ok (i_ID item) ?r" using l by (auto simp: item_ok_def)
qed

section \<open>Failures of the connection\<close>

text \<open>The keyspace without the script cache.\<close>

definition core :: "redis \<Rightarrow> redis" where
  "core r = r\<lparr>scripts := []\<rparr>"

lemma core_ops:
  "HGET (core r) = HGET r" "HSET (core r) k f v = core (HSET r k f v)"
  "XADD (core r) k fs = core (XADD r k fs)" "PEXPIREAT (core r) k t = core (PEXPIREAT r k t)"
  by (auto simp: core_def HGET_def HSET_def XADD_def PEXPIREAT_def key_exists_def DEL_def get_stream_def
        fun_eq_iff Let_def)

lemma core_HINCRBY: "HINCRBY (core r) k f d = map_option (apsnd core) (HINCRBY r k f d)"
  by (auto simp: HINCRBY_def core_ops split: option.splits prod.splits)

lemma core_idem [simp]: "core (core r) = core r" "core (r\<lparr>scripts := s\<rparr>) = core r"
  by (simp_all add: core_def)

lemma core_reserveAndEnqueueScript:
  "reserveAndEnqueueScript (core r) k1 k2 k3 k4 a1 a2 a3 a4 a5 =
     apsnd core (reserveAndEnqueueScript r k1 k2 k3 k4 a1 a2 a3 a4 a5)"
  unfolding reserveAndEnqueueScript_def core_ops core_HINCRBY Let_def
  by (auto simp: core_ops split: option.splits sum.splits bool.splits prod.splits)

lemma core_enqueue: "enqueue item ret (core r) u now ono = apsnd core (enqueue item ret r u now ono)"
  by (auto simp: enqueue_def core_reserveAndEnqueueScript split: sum.splits prod.splits)

lemma item_ok_core [simp]: "item_ok item (core r) = item_ok item r" "buyer_of item (core r) = buyer_of item r"
  "is_ready item (core r) = is_ready item r"
proof -
  have "untouched item (core r) r" by (simp add: untouched_def core_def)
  from untouched_observe [OF this]
  show "item_ok item (core r) = item_ok item r" "buyer_of item (core r) = buyer_of item r"
    "is_ready item (core r) = is_ready item r"
    by (simp_all add: item_ok_def)
qed

text \<open>Executing the request changes nothing, or records it; executing it again changes nothing more.\<close>

definition effects :: "u64 \<Rightarrow> int \<Rightarrow> redis \<Rightarrow> u64 \<Rightarrow> int \<Rightarrow> string \<Rightarrow> redis set" where
  "effects item ret r u now ono = {core r, core (snd (enqueue item ret r u now ono))}"

lemmas stream_idempotent = idempotent_admission.twice_is_once [OF stream_admission]
  and stream_keeps = admission.keeps [OF idempotent_admission.axioms(1), OF stream_admission]
  and stream_bound = admission.no_oversell [OF idempotent_admission.axioms(1), OF stream_admission]
  and stream_users = admission.run_users [OF idempotent_admission.axioms(1), OF stream_admission]
  and stream_retry = idempotent_admission.retry_same_order [OF stream_admission]

lemma item_ok_cong: "core r = core r' \<Longrightarrow> item_ok item r = item_ok item r'"
  by (metis item_ok_core(1))

lemma effects_closed:
  assumes ok: "item_ok item r" and ono: "ono \<noteq> []" and ret: "0 \<le> ret" "in_i64 ret"
    and eff: "core r1 \<in> effects item ret r u now ono"
  shows "core (snd (enqueue item ret r1 u now ono)) \<in> effects item ret r u now ono" and "item_ok item r1"
proof -
  have c: "core (snd (enqueue item ret x u now ono)) = snd (enqueue item ret (core x) u now ono)" for x
    by (simp add: core_enqueue)
  have "item_ok item (snd (enqueue item ret r u now ono))"
    by (rule stream_keeps [OF ret ok ono])
  with ok eff show "item_ok item r1" by (auto simp: effects_def dest: item_ok_cong)
  have "snd (enqueue item ret (snd (enqueue item ret (core r) u now ono)) u now ono) =
      snd (enqueue item ret (core r) u now ono)"
    by (rule stream_idempotent [OF ret]) (use ok ono in simp_all)
  with eff show "core (snd (enqueue item ret r1 u now ono)) \<in> effects item ret r u now ono"
    by (auto simp: effects_def c)
qed

text \<open>What the gate needs of the client library: digests are not empty and tell the scripts apart.\<close>

definition sha_ok :: "redis_lib \<Rightarrow> gate \<Rightarrow> bool" where
  "sha_ok L g \<longleftrightarrow> lib_sha1 L ReserveScript \<noteq> lib_sha1 L ReserveAndEnqueueScript \<and>
     lib_sha1 L ReserveAndEnqueueScript \<noteq> [] \<and>
     g_streamSHA g \<in> {[], lib_sha1 L ReserveAndEnqueueScript}"

definition stream_keys :: "u64 \<Rightarrow> string list" where
  "stream_keys item = [StateKey item, BuyersKey item, StreamKey item, StreamResultsKey item]"

definition stream_args :: "u64 \<Rightarrow> int \<Rightarrow> u64 \<Rightarrow> int \<Rightarrow> string \<Rightarrow> string list" where
  "stream_args item ret u now ono = [FormatUint u, FormatInt now, ono, FormatUint item, FormatInt ret]"

lemma EVALSHA_stream:
  assumes "sha_ok L g"
  shows "EVALSHA L (lib_sha1 L ReserveAndEnqueueScript) (stream_keys item) (stream_args item ret u now ono) r =
    (if lib_sha1 L ReserveAndEnqueueScript \<notin> set (scripts r)
     then (Inl (Plain ''NOSCRIPT No matching script. Please use EVAL.''), r)
     else reserveAndEnqueueScript r (StateKey item) (BuyersKey item) (StreamKey item) (StreamResultsKey item)
       (FormatUint u) (FormatInt now) ono (FormatUint item) (FormatInt ret))"
  using assms by (simp add: EVALSHA_def sha_ok_def stream_keys_def stream_args_def)

text \<open>One \<open>EVALSHA\<close> stays within the effects; its reply, when it has one, is the script's.\<close>

lemma EVALSHA_effects:
  assumes "sha_ok L g" and "interference c = id"
    and ok: "item_ok item r" and ono: "ono \<noteq> []" and ret: "0 \<le> ret" "in_i64 ret"
    and eff: "core r1 \<in> effects item ret r u now ono"
    and run: "call c (EVALSHA L (lib_sha1 L ReserveAndEnqueueScript) (stream_keys item)
        (stream_args item ret u now ono)) r1 = (res, r2)"
  shows "core r2 \<in> effects item ret r u now ono"
    and "res = Inr reply \<Longrightarrow> enqueue item ret r1 u now ono = (parseReservation reply, r2)"
proof -
  let ?s = "reserveAndEnqueueScript r1 (StateKey item) (BuyersKey item) (StreamKey item) (StreamResultsKey item)
       (FormatUint u) (FormatInt now) ono (FormatUint item) (FormatInt ret)"
  have snd: "snd ?s = snd (enqueue item ret r1 u now ono)"
    by (simp add: enqueue_def split: sum.splits prod.splits)
  have "core r2 \<in> {core r1, core (snd ?s)}"
    using run assms(2)
    by (auto simp: call_def Let_def EVALSHA_stream [OF assms(1)] split: outcome.splits if_splits)
  then show "core r2 \<in> effects item ret r u now ono"
    using eff effects_closed [OF ok ono ret eff] by (auto simp: snd)
  show "res = Inr reply \<Longrightarrow> enqueue item ret r1 u now ono = (parseReservation reply, r2)"
    using run assms(2)
    by (auto simp: call_def Let_def EVALSHA_stream [OF assms(1)] enqueue_def
        split: outcome.splits if_splits sum.splits prod.splits)
qed

lemma enqueue_recorded:
  assumes "item_ok item r" and "ono \<noteq> []" and "0 \<le> ret" "in_i64 ret"
    and "enqueue item ret r u now ono = (Inr rv, r')"
  shows "buyer_of item r' u = Some (rv_OrderNo rv)"
  by (rule enqueue_cases [OF assms(1-4), of u now]) (use assms(5) in auto)

lemma streamScriptSHA_effects:
  assumes "sha_ok L g" and "interference c = id" and "streamScriptSHA L c g r = (res, g1, r1)"
  shows "core r1 = core r" and "sha_ok L g1" and "g_streamRetention g1 = g_streamRetention g"
    and "res = Inr sha \<Longrightarrow> sha = lib_sha1 L ReserveAndEnqueueScript"
  using assms
  by (auto simp: streamScriptSHA_def sha_ok_def call_def Let_def SCRIPT_LOAD_def
      split: if_splits outcome.splits)

lemma reloadStreamScript_effects:
  assumes "sha_ok L g" and "interference c = id" and "reloadStreamScript L c g r = (res, g1, r1)"
  shows "core r1 = core r" and "sha_ok L g1" and "res = Inr sha \<Longrightarrow> sha = lib_sha1 L ReserveAndEnqueueScript"
  using assms
  by (auto simp: reloadStreamScript_def sha_ok_def call_def Let_def SCRIPT_LOAD_def
      split: if_splits outcome.splits)

lemma evalWithReload_effects:
  assumes sha: "sha_ok L g" and quiet: "\<And>k. interference (env k) = id"
    and ok: "item_ok item r" and ono: "ono \<noteq> []" and ret: "0 \<le> ret" "in_i64 ret"
    and eff: "core r1 \<in> effects item ret r u now ono"
    and run: "evalWithReload L env (reloadStreamScript L) (lib_sha1 L ReserveAndEnqueueScript)
      (stream_keys item) (stream_args item ret u now ono) g r1 = (res, g2, r2)"
  shows "core r2 \<in> effects item ret r u now ono"
    and "res = Inr reply \<Longrightarrow> \<exists>r3. item_ok item r3 \<and> enqueue item ret r3 u now ono = (parseReservation reply, r2)"
proof -
  note step = EVALSHA_effects [OF sha quiet ok ono ret]
  note okc = effects_closed(2) [OF ok ono ret]
  obtain a r3 where e1: "call (env 1) (EVALSHA L (lib_sha1 L ReserveAndEnqueueScript) (stream_keys item)
      (stream_args item ret u now ono)) r1 = (a, r3)" by (cases "call (env 1) (EVALSHA L (lib_sha1 L ReserveAndEnqueueScript) (stream_keys item)
      (stream_args item ret u now ono)) r1")
  obtain b g4 r4 where rl: "reloadStreamScript L (env 2) g r3 = (b, g4, r4)" by (metis prod.exhaust)
  note eff3 = step(1) [OF eff e1]
  have eff4: "core r4 \<in> effects item ret r u now ono"
    using reloadStreamScript_effects(1) [OF sha quiet rl] eff3 by simp
  obtain c r5 where e3: "call (env 3) (EVALSHA L (lib_sha1 L ReserveAndEnqueueScript) (stream_keys item)
      (stream_args item ret u now ono)) r4 = (c, r5)" by (cases "call (env 3) (EVALSHA L (lib_sha1 L ReserveAndEnqueueScript) (stream_keys item)
      (stream_args item ret u now ono)) r4")
  note eff5 = step(1) [OF eff4 e3]
  have same: "b = Inr s \<Longrightarrow> s = lib_sha1 L ReserveAndEnqueueScript" for s
    by (rule reloadStreamScript_effects(3) [OF sha quiet rl])
  have res: "(res, r2) \<in> {(a, r3), (c, r5)} \<or> (\<exists>e. res = Inl e) \<and> r2 \<in> {r3, r4}"
    using run e1 rl e3 same by (auto simp: evalWithReload_def split: sum.splits if_splits prod.splits)
  then show "core r2 \<in> effects item ret r u now ono" using eff3 eff4 eff5 by auto
  assume "res = Inr reply"
  with res consider "a = Inr reply" "r2 = r3" | "c = Inr reply" "r2 = r5" by auto
  then show "\<exists>r3. item_ok item r3 \<and> enqueue item ret r3 u now ono = (parseReservation reply, r2)"
    using step(2) [OF eff e1] okc [OF eff] step(2) [OF eff4 e3] okc [OF eff4] by cases auto
qed

lemma Milliseconds_pos: "0 < d \<Longrightarrow> in_i64 d \<Longrightarrow> 0 \<le> Milliseconds d \<and> in_i64 (Milliseconds d)"
proof -
  assume d: "0 < d" "in_i64 d"
  then have "0 \<le> d div 1000000" "d div 1000000 < d"
    by (simp_all add: pos_imp_zdiv_nonneg_iff int_div_less_self)
  then show ?thesis using d by (simp add: Milliseconds_def in_i64_def max_i64_def)
qed

text \<open>The whole call.\<close>

lemma ReserveAndEnqueue_effects:
  assumes sha: "sha_ok L g" and quiet: "\<And>k. interference (env k) = id"
    and ok: "item_ok (ri_ItemID input) r" and ret: "in_i64 (g_streamRetention g)"
    and run: "ReserveAndEnqueue L env g r input = (res, g', r')"
  shows "core r' \<in> {core r, core (snd (enqueue (ri_ItemID input) (Milliseconds (g_streamRetention g)) r
            (ri_UserID input) (UnixMilli (ri_Now input)) (ri_OrderNo input)))}
    \<and> (\<forall>rv. res = Inr rv \<longrightarrow> ri_OrderNo input \<noteq> [] \<and> 0 < g_streamRetention g \<and> (\<exists>r3. item_ok (ri_ItemID input) r3 \<and>
          enqueue (ri_ItemID input) (Milliseconds (g_streamRetention g)) r3 (ri_UserID input) (UnixMilli (ri_Now input))
            (ri_OrderNo input) = (Inr rv, r')))"
proof (cases "ri_UserID input = 0 \<or> ri_ItemID input = 0 \<or> TrimSpace (ri_OrderNo input) = [] \<or>
    IsZero (ri_Now input) \<or> g_streamRetention g \<le> 0")
  case True
  with run show ?thesis by (auto simp: ReserveAndEnqueue_def)
next
  case False
  then have ono: "ri_OrderNo input \<noteq> []" by auto
  have ms: "0 \<le> Milliseconds (g_streamRetention g)" "in_i64 (Milliseconds (g_streamRetention g))"
    using Milliseconds_pos [of "g_streamRetention g"] False ret by simp_all
  obtain a g1 r1 where s: "streamScriptSHA L (env 0) g r = (a, g1, r1)" by (metis prod.exhaust)
  note l = streamScriptSHA_effects [OF sha quiet s]
  let ?e = "effects (ri_ItemID input) (Milliseconds (g_streamRetention g)) r (ri_UserID input)
     (UnixMilli (ri_Now input)) (ri_OrderNo input)"
  have eff: "core r1 \<in> ?e" using l(1) by (simp add: effects_def)
  show ?thesis
  proof (cases a)
    case (Inl e)
    with run s False eff show ?thesis by (auto simp: ReserveAndEnqueue_def effects_def)
  next
    case (Inr shaa)
    obtain b g2 r2 where v: "evalWithReload L env (reloadStreamScript L) (lib_sha1 L ReserveAndEnqueueScript)
      (stream_keys (ri_ItemID input)) (stream_args (ri_ItemID input) (Milliseconds (g_streamRetention g))
        (ri_UserID input) (UnixMilli (ri_Now input)) (ri_OrderNo input)) g1 r1 = (b, g2, r2)"
      by (metis prod.exhaust)
    note ev = evalWithReload_effects [OF l(2) quiet ok ono ms eff v]
    from run s False Inr l(4) [OF Inr] v
    have "r' = r2 \<and> res = (case b of Inl e \<Rightarrow> Inl (admissionFailure ''execute stream reserve script'')
        | Inr reply \<Rightarrow> parseReservation reply)"
      by (auto simp: ReserveAndEnqueue_def stream_keys_def stream_args_def Let_def split: sum.splits prod.splits)
    with ev ret False show ?thesis by (auto simp: effects_def split: sum.splits)
  qed
qed

lemma ReserveAndEnqueue_gate:
  assumes "ReserveAndEnqueue L env g r input = (res, g', r')"
  shows "g_client g' = g_client g"
  using assms
  by (auto simp: ReserveAndEnqueue_def streamScriptSHA_def reloadStreamScript_def evalWithReload_def Let_def
      split: if_splits prod.splits sum.splits)

section \<open>The gate as an abstract counter\<close>

text \<open>The abstract gate: a stock and the order number of each buyer.\<close>

definition spec_reserve ::
  "bool \<Rightarrow> int \<times> (u64 \<Rightarrow> string option) \<Rightarrow> u64 \<Rightarrow> string \<Rightarrow> Reservation result \<times> int \<times> (u64 \<Rightarrow> string option)" where
  "spec_reserve closed = (\<lambda>(stock, buyers) u ono. case buyers u of
       Some x \<Rightarrow> (Inr \<lparr>rv_OrderNo = x, rv_Replayed = True\<rparr>, stock, buyers)
     | None \<Rightarrow>
         if closed then (fail ErrUnavailable, stock, buyers)
         else if stock \<le> 0 then (fail ErrOutOfStock, stock, buyers)
         else (Inr \<lparr>rv_OrderNo = ono, rv_Replayed = False\<rparr>, stock - 1, buyers(u \<mapsto> ono)))"

definition abs_gate :: "u64 \<Rightarrow> redis \<Rightarrow> int \<times> (u64 \<Rightarrow> string option)" where
  "abs_gate item r = (stock_of item r, buyer_of item r)"

definition window_closed :: "u64 \<Rightarrow> redis \<Rightarrow> int \<Rightarrow> bool result" where
  "window_closed item r now = activity_closed (HGET r (StateKey item) ''status'')
     (tonumber (HGET r (StateKey item) ''start_at_ms'')) (tonumber (HGET r (StateKey item) ''end_at_ms''))
     (tonumber (Some (FormatInt now)))"

lemma enqueue_spec:
  assumes ok: "item_ok item r" and ready: "is_ready item r" and ono: "ono \<noteq> []" and ret: "0 \<le> ret" "in_i64 ret"
    and win: "window_closed item r now = Inr closed" and act: "HGET r (StateKey item) ''activity_id'' = Some act"
  shows "apsnd (abs_gate item) (enqueue item ret r u now ono) = spec_reserve closed (abs_gate item r) u ono"
proof -
  from ok ready obtain stock e where live: "live item r stock e" by (auto simp: item_ok_def)
  have st: "stock_of item r = stock" using ready live by (simp add: stock_of_def live_def)
  have b: "buyer_of item r u = HGET r (BuyersKey item) (FormatUint u)" using ready by (simp add: buyer_of_def)
  note defs = enqueue_def reserveAndEnqueueScript_def lua_reply_def spec_reserve_def abs_gate_def
  have rd: "HGET r (StateKey item) ''ready'' = Some ''1''" using ready by (simp add: is_ready_def)
  show ?thesis
  proof (cases "HGET r (BuyersKey item) (FormatUint u)")
    case (Some x)
    with live have "x \<noteq> []" by (auto simp: live_def)
    with Some rd b st show ?thesis by (simp add: defs)
  next
    case None
    show ?thesis
    proof (cases "closed \<or> stock \<le> 0")
      case True
      with None rd b st live win act show ?thesis by (auto simp: defs live_def window_closed_def)
    next
      case False
      then have opn: "activity_closed (HGET r (StateKey item) ''status'') (tonumber (HGET r (StateKey item) ''start_at_ms''))
         (tonumber (HGET r (StateKey item) ''end_at_ms'')) (tonumber (Some (FormatInt now))) = Inr False"
        using win by (simp add: window_closed_def)
      obtain r' where r': "enqueue item ret r u now ono = (Inr \<lparr>rv_OrderNo = ono, rv_Replayed = False\<rparr>, r')"
        "live item r' (stock - 1) e" "is_ready item r'" "buyer_of item r' = (buyer_of item r)(u \<mapsto> ono)"
        by (rule enqueue_first [OF live ready _ ono ret None opn act]) (use False in simp_all)
      then have "stock_of item r' = stock - 1" by (simp add: stock_of_def live_def)
      with r' False None b st show ?thesis by (simp add: spec_reserve_def abs_gate_def)
    qed
  qed
qed

section \<open>A published item\<close>

text \<open>A published item with one unit of stock.\<close>

definition demo_activity :: Activity where
  "demo_activity = \<lparr>a_ID = 7, a_Name = ''sale'', a_StartAt = time_UnixMilli 1000, a_EndAt = time_UnixMilli 2000,
     a_Status = StatusEnabled, a_CreatedAt = 0\<rparr>"

definition demo_item :: Item where
  "demo_item = \<lparr>i_ID = 42, i_ActivityID = 7, i_SKUID = 3, i_InitialStock = 1, i_AvailableStock = 1, i_Version = 0,
     i_CreatedAt = 0\<rparr>"

definition demo_redis :: redis where
  "demo_redis = snd (publish_item demo_activity demo_item empty_redis)"

lemma demo_expiry: "UnixMilli (itemExpiry (a_EndAt demo_activity) (i_ID demo_item)) = 313000"
  by (simp add: demo_item_def demo_activity_def itemExpiry_def preheatGrace_def preheatJitterRange_def
      Let_def UnixMilli_def time_UnixMilli_def)

lemma demo_live: "live 42 demo_redis 1 313000" "item_ok 42 demo_redis" "is_ready 42 demo_redis"
  "stock_of 42 demo_redis = 1" "buyer_of 42 demo_redis = Map.empty"
  using publish_item_live [of demo_item empty_redis demo_activity]
  unfolding demo_expiry demo_redis_def [symmetric]
  by (simp_all add: demo_item_def in_i64_def max_i64_def empty_redis_def)

lemma demo_state:
  "HGET demo_redis (StateKey 42) ''status'' = Some (show_nat 1)"
  "HGET demo_redis (StateKey 42) ''start_at_ms'' = Some (FormatInt 1000)"
  "HGET demo_redis (StateKey 42) ''end_at_ms'' = Some (FormatInt 2000)"
  "HGET demo_redis (StateKey 42) ''activity_id'' = Some (FormatUint 7)"
  "HGET demo_redis (BuyersKey 42) f = None"
  unfolding demo_redis_def publish_item_def demo_expiry
  by (simp_all add: publishScript_def Let_def hash_simps HGET_DEL demo_item_def demo_activity_def)

lemma demo_open:
  assumes "1000 \<le> now" "now < 2000"
  shows "activity_closed (HGET demo_redis (StateKey 42) ''status'') (tonumber (HGET demo_redis (StateKey 42) ''start_at_ms''))
       (tonumber (HGET demo_redis (StateKey 42) ''end_at_ms'')) (tonumber (Some (FormatInt now))) = Inr False"
  using assms by (simp add: demo_state activity_closed_def in_i64_def max_i64_def show_nat.simps digit_def char_of_eq_iff)

lemma demo_first:
  assumes "1000 \<le> now" "now < 2000" "ono \<noteq> []" "0 \<le> ret" "in_i64 ret"
  obtains r' where "enqueue 42 ret demo_redis u now ono = (Inr \<lparr>rv_OrderNo = ono, rv_Replayed = False\<rparr>, r')"
  by (rule enqueue_first [OF demo_live(1,3) _ assms(3-5) demo_state(5) demo_open [OF assms(1,2)] demo_state(4)]) simp

definition demo_lib :: redis_lib where
  "demo_lib = \<lparr>lib_sha1 = (\<lambda>s. case s of ReserveScript \<Rightarrow> ''a1'' | ReserveAndEnqueueScript \<Rightarrow> ''b2''),
     lib_HasErrorPrefix = (\<lambda>e p. HasPrefix (err_text e) p)\<rparr>"

definition demo_gate :: gate where
  "demo_gate = \<lparr>g_client = True, g_operationTimeout = second, g_sha = [], g_streamSHA = [],
     g_streamRetention = 24 * 3600 * second\<rparr>"

definition lost_reply :: "redis env" where
  "lost_reply = (\<lambda>k. \<lparr>interference = id,
     outcome_of = (if k = 1 then Lost_after (Sentinel Context_DeadlineExceeded) else Done)\<rparr>)"

section \<open>Properties of the gate\<close>

text \<open>C1: in any history of requests for one item, with any passing of time, invalidation and
  activity of other clients in between, the asynchronous gate grants at most as many first
  reservations as there was stock, and at most one to each user.\<close>

theorem stream_no_oversell:
  assumes "item_ok item r" and "0 \<le> ret" "in_i64 ret" and "list_all wf_event evs"
    and "run (enqueue item ret) (gate_other item) r evs = (replies, r')"
  shows "int (length (first_users replies)) \<le> stock_of item r \<and> distinct (first_users replies)"
  using stream_bound [OF assms(2,3,1,4,5)] stream_users [OF assms(2,3,1,4,5)] by blast

theorem stream_no_oversell_witness:
  "\<exists>replies r'. run (enqueue 42 86400000) (gate_other 42) demo_redis
      [Request 5 1500 ''A'', Other (Elapse 10), Request 6 1510 ''B'', Request 5 1520 ''C''] = (replies, r')
    \<and> first_users replies = [5]"
proof -
  let ?evs = "[Request 5 1500 ''A'', Other (Elapse 10), Request 6 1510 ''B'', Request 5 1520 ''C''] :: gate_event event list"
  obtain replies r' where run: "run (enqueue 42 86400000) (gate_other 42) demo_redis ?evs = (replies, r')"
    by fastforce
  have "int (length (first_users replies)) \<le> stock_of 42 demo_redis \<and> distinct (first_users replies)"
    by (rule stream_no_oversell [OF demo_live(2) _ _ _ run]) (simp_all add: in_i64_def max_i64_def wf_event_def)
  then have "length (first_users replies) \<le> 1" by (simp add: demo_live)
  moreover obtain r1 where "enqueue 42 86400000 demo_redis 5 1500 ''A'' = (Inr \<lparr>rv_OrderNo = ''A'', rv_Replayed = False\<rparr>, r1)"
    by (rule demo_first [of 1500 "''A''" 86400000 5]) (simp_all add: in_i64_def max_i64_def)
  with run have "\<exists>us. first_users replies = 5 # us" by (auto split: prod.splits)
  ultimately show ?thesis using run by auto
qed

text \<open>C3: whatever the connection does during a \<open>ReserveAndEnqueue\<close> (a script evicted from the
  cache, commands that are lost before or after their execution), the keyspace afterwards is the one
  before or the one after a single execution of the script; and when the call succeeds, the order
  number it returns is the one recorded for the user.\<close>

theorem ReserveAndEnqueue_exactly_once:
  assumes sha: "sha_ok L g" and quiet: "\<And>k. interference (env k) = id"
    and ok: "item_ok (ri_ItemID input) r" and ret: "in_i64 (g_streamRetention g)"
    and run: "ReserveAndEnqueue L env g r input = (res, g', r')"
  shows "core r' \<in> {core r, core (snd (enqueue (ri_ItemID input) (Milliseconds (g_streamRetention g)) r
            (ri_UserID input) (UnixMilli (ri_Now input)) (ri_OrderNo input)))}
    \<and> (\<forall>rv. res = Inr rv \<longrightarrow> buyer_of (ri_ItemID input) r' (ri_UserID input) = Some (rv_OrderNo rv))"
proof -
  note e = ReserveAndEnqueue_effects [OF sha quiet ok ret run]
  have "buyer_of (ri_ItemID input) r' (ri_UserID input) = Some (rv_OrderNo rv)" if "res = Inr rv" for rv
  proof -
    from e that obtain r3 where r3: "item_ok (ri_ItemID input) r3" "ri_OrderNo input \<noteq> []" "0 < g_streamRetention g"
      "enqueue (ri_ItemID input) (Milliseconds (g_streamRetention g)) r3 (ri_UserID input) (UnixMilli (ri_Now input))
         (ri_OrderNo input) = (Inr rv, r')" by blast
    from Milliseconds_pos [OF r3(3) ret] show ?thesis by (intro enqueue_recorded [OF r3(1,2) _ _ r3(4)]) simp_all
  qed
  with e show ?thesis by blast
qed

theorem ReserveAndEnqueue_exactly_once_witness:
  "\<exists>res g' r'. ReserveAndEnqueue demo_lib lost_reply demo_gate demo_redis
      \<lparr>ri_UserID = 5, ri_ItemID = 42, ri_OrderNo = ''A'', ri_Now = 1500000000\<rparr> = (res, g', r')
    \<and> core r' \<in> {core demo_redis, core (snd (enqueue 42 (Milliseconds (24 * 3600 * second)) demo_redis 5 1500 ''A''))}"
proof -
  let ?in = "\<lparr>ri_UserID = 5, ri_ItemID = 42, ri_OrderNo = ''A'', ri_Now = 1500000000\<rparr>"
  obtain res g' r' where run: "ReserveAndEnqueue demo_lib lost_reply demo_gate demo_redis ?in = (res, g', r')"
    by (metis prod.exhaust)
  have "sha_ok demo_lib demo_gate" by (simp add: sha_ok_def demo_lib_def demo_gate_def)
  from ReserveAndEnqueue_exactly_once [OF this _ _ _ run] demo_live(2)
  show ?thesis using run by (simp add: lost_reply_def demo_gate_def in_i64_def max_i64_def UnixMilli_def)
qed

text \<open>C2: the asynchronous script refines an abstract counter. On a published item the reply and the observable state
  after an execution are those of \<open>spec_reserve\<close>: a known buyer gets his number back, otherwise a closed window and an
  empty stock are refused in this order, otherwise one unit is taken and the buyer recorded.\<close>

theorem gate_refines_counter:
  assumes "item_ok item r" and "is_ready item r" and "ono \<noteq> []" and "0 \<le> ret" "in_i64 ret"
    and "window_closed item r now = Inr closed" and "HGET r (StateKey item) ''activity_id'' = Some act"
  shows "apsnd (abs_gate item) (enqueue item ret r u now ono) = spec_reserve closed (abs_gate item r) u ono"
  by (rule enqueue_spec [OF assms])

theorem gate_refines_counter_witness:
  "apsnd (abs_gate 42) (enqueue 42 86400000 demo_redis 5 1500 ''A'') =
    (Inr \<lparr>rv_OrderNo = ''A'', rv_Replayed = False\<rparr>, 0, [5 \<mapsto> ''A''])"
proof -
  have w: "window_closed 42 demo_redis 1500 = Inr False" by (simp add: window_closed_def demo_open)
  show ?thesis
    using gate_refines_counter [OF demo_live(2,3) _ _ _ w demo_state(4), of "''A''" 86400000 5]
    by (simp add: spec_reserve_def abs_gate_def demo_live in_i64_def max_i64_def)
qed

end
