(* ===== verification/StreamQueue.thy ===== *)
theory StreamQueue
  imports Admission
begin

text \<open>
  The consumer of the per-item streams (\<open>internal/seckill/streamqueue\<close>): decoding of a stream
  message into a task, the scripts that complete or fail a task, the processing of a batch, one round
  of a consumer, the discovery of items, and the processor that turns a task into an inventory
  reservation followed by an order.
\<close>

section \<open>Messages\<close>

record XMessage =
  xm_ID :: string
  xm_Values :: "(string \<times> anyval) list"

text \<open>The client library hands out the fields of an entry as strings.\<close>

definition xmessage :: "string \<times> fields \<Rightarrow> XMessage" where
  "xmessage e = \<lparr>xm_ID = fst e, xm_Values = map (\<lambda>(f, v). (f, AString v)) (snd e)\<rparr>"

record Task =
  t_MessageID :: string
  t_OrderNo :: string
  t_UserID :: u64
  t_ActivityID :: u64
  t_ItemID :: u64
  t_ReservedAt :: time

definition no_task :: Task where
  "no_task = \<lparr>t_MessageID = [], t_OrderNo = [], t_UserID = 0, t_ActivityID = 0, t_ItemID = 0,
     t_ReservedAt = zero_time\<rparr>"

text \<open>\<open>fmt.Sprint\<close>: the elements of a slice in brackets, separated by blanks.\<close>

fun join_blank :: "string list \<Rightarrow> string" where
  "join_blank [] = []"
| "join_blank [s] = s"
| "join_blank (s # ss) = s @ '' '' @ join_blank ss"

fun fmt_Sprint :: "anyval \<Rightarrow> string" where
  "fmt_Sprint (AInt i) = FormatInt i"
| "fmt_Sprint (AUint n) = FormatUint n"
| "fmt_Sprint (AString s) = s"
| "fmt_Sprint (ABytes s) = ''['' @ join_blank (map (\<lambda>c. show_nat (byte c)) s) @ '']''"
| "fmt_Sprint ANil = ''<nil>''"
| "fmt_Sprint (ASlice vs) = ''['' @ join_blank (map fmt_Sprint vs) @ '']''"
| "fmt_Sprint (AOther s) = s"

fun valueString :: "anyval \<Rightarrow> string \<times> bool" where
  "valueString (AString s) = (s, True)"
| "valueString (ABytes s) = (s, True)"
| "valueString (AInt i) = (FormatInt i, True)"
| "valueString (AUint n) = (FormatUint n, True)"
| "valueString v = (fmt_Sprint v, v \<noteq> ANil)"

text \<open>A missing key of a Go map reads as \<open>nil\<close>.\<close>

definition field :: "XMessage \<Rightarrow> string \<Rightarrow> anyval" where
  "field m f = (case map_of (xm_Values m) f of None \<Rightarrow> ANil | Some v \<Rightarrow> v)"

abbreviation streamSchemaV1 :: string where "streamSchemaV1 \<equiv> ''1''"
abbreviation streamEventV1 :: string where "streamEventV1 \<equiv> ''seckill.order.requested''"

definition decodeTask :: "u64 \<Rightarrow> XMessage \<Rightarrow> Task \<times> goerr option" where
  "decodeTask expectedItemID message =
     (let (schema, ok) = valueString (field message ''schema_version'') in
      if \<not> ok \<or> schema \<noteq> streamSchemaV1
      then (no_task\<lparr>t_MessageID := xm_ID message\<rparr>, Some (Sentinel ErrUnsupportedStreamMessage))
      else (let (eventType, ok) = valueString (field message ''event_type'') in
      if \<not> ok \<or> eventType \<noteq> streamEventV1
      then (no_task\<lparr>t_MessageID := xm_ID message\<rparr>, Some (Sentinel ErrUnsupportedStreamMessage))
      else (let (orderNo, orderOK) = valueString (field message ''order_no'');
                (userText, userOK) = valueString (field message ''user_id'');
                (activityText, activityOK) = valueString (field message ''activity_id'');
                (itemText, itemOK) = valueString (field message ''item_id'');
                (reservedText, reservedOK) = valueString (field message ''reserved_at_ms'');
                (userID, userErr) = ParseUint userText;
                (activityID, activityErr) = ParseUint activityText;
                (itemID, itemErr) = ParseUint itemText;
                (reservedMS, reservedErr) = ParseInt reservedText
       in if xm_ID message = [] \<or> \<not> orderOK \<or> \<not> userOK \<or> \<not> activityOK \<or> \<not> itemOK \<or> \<not> reservedOK \<or>
             TrimSpace orderNo = [] \<or> userErr \<noteq> None \<or> activityErr \<noteq> None \<or> itemErr \<noteq> None \<or>
             reservedErr \<noteq> None \<or> userID = 0 \<or> activityID = 0 \<or> itemID = 0 \<or> reservedMS \<le> 0
          then (no_task\<lparr>t_MessageID := xm_ID message, t_OrderNo := TrimSpace orderNo, t_UserID := userID\<rparr>,
                Some (Sentinel ErrInvalidStreamMessage))
          else if itemID \<noteq> expectedItemID
          then (no_task\<lparr>t_MessageID := xm_ID message, t_OrderNo := TrimSpace orderNo, t_UserID := userID,
                  t_ItemID := itemID\<rparr>, Some (Sentinel ErrInvalidStreamMessage))
          else (\<lparr>t_MessageID = xm_ID message, t_OrderNo = TrimSpace orderNo, t_UserID = userID,
                  t_ActivityID = activityID, t_ItemID = itemID,
                  t_ReservedAt = time_UnixMilli reservedMS\<rparr>, None))))"

section \<open>Scripts\<close>

definition completeScript ::
  "redis \<Rightarrow> key \<Rightarrow> key \<Rightarrow> argv \<Rightarrow> argv \<Rightarrow> anyval result \<times> redis" where
  "completeScript r k1 k2 a1 a2 = (Inr (AInt 1), HDEL (XDEL (XACK r k1 a1 a2) k1 a2) k2 a2)"

definition order_failed_fields :: "string \<Rightarrow> string \<Rightarrow> string \<Rightarrow> string \<Rightarrow> string \<Rightarrow> int \<Rightarrow> fields" where
  "order_failed_fields message orderNo user code failed_at attempts =
     [(''schema_version'', ''1''), (''event_type'', ''seckill.order.failed''),
      (''source_message_id'', message), (''order_no'', orderNo), (''user_id'', user),
      (''error_code'', code), (''failed_at_ms'', failed_at), (''attempts'', FormatInt attempts)]"

definition failScript ::
  "redis \<Rightarrow> key \<Rightarrow> key \<Rightarrow> key \<Rightarrow> key \<Rightarrow> argv \<Rightarrow> argv \<Rightarrow> argv \<Rightarrow> argv \<Rightarrow> argv \<Rightarrow> argv \<Rightarrow> argv \<Rightarrow> argv \<Rightarrow> argv \<Rightarrow> anyval result \<times> redis" where
  "failScript r k1 k2 k3 k4 a1 a2 a3 a4 a5 a6 a7 a8 a9 =
     (case HINCRBY r k2 a2 1 of
        None \<Rightarrow> (Inl (Plain ''ERR hash value is not an integer''), r)
      | Some (attempts, r1) \<Rightarrow>
          (case (tonumber (Some a7), tonumber (Some a8)) of
             (Some maxDeliveries, Some retention) \<Rightarrow>
               (let terminal = (a6 = ''1'' \<or> maxDeliveries \<le> attempts);
                    ttl = (if PTTL r1 k3 < 1 then retention else PTTL r1 k3);
                    r2 = PEXPIRE r1 k2 ttl
                in if \<not> terminal then (Inr (ASlice [AInt attempts, AInt 0]), r2)
                   else (let r3 = XADD r2 k4 (order_failed_fields a2 a3 a4 a5 a9 attempts);
                             r4 = (if a3 \<noteq> [] \<and> a4 \<noteq> ''0'' then HSET r3 k3 a3 (a4 @ ''|FAILED'') else r3);
                             r5 = PEXPIRE r4 k4 ttl;
                             r6 = HDEL (XDEL (XACK r5 k1 a1 a2) k1 a2) k2 a2
                         in (Inr (ASlice [AInt attempts, AInt 1]), r6)))
           | _ \<Rightarrow> (Inl (Plain ''ERR attempt to compare nil with number''), r1)))"

section \<open>Runtime\<close>

record RuntimeConfig =
  ConsumerGroup :: string
  ConsumerPrefix :: string
  ConsumerConcurrency :: int
  BatchSize :: int
  Block :: int
  ClaimIdle :: int
  DiscoveryInterval :: int
  ShutdownTimeout :: int
  MaxDeliveries :: int
  Retention :: int

definition RuntimeConfig_Validate :: "RuntimeConfig \<Rightarrow> goerr option" where
  "RuntimeConfig_Validate c =
     (if TrimSpace (ConsumerGroup c) = [] \<or> TrimSpace (ConsumerPrefix c) = []
      then Some (Plain ''stream consumer group and prefix are required'')
      else if ConsumerConcurrency c \<le> 0 \<or> BatchSize c \<le> 0 \<or> MaxDeliveries c \<le> 0
      then Some (Plain ''stream concurrency, batch size, and max deliveries must be positive'')
      else if Block c \<le> 0 \<or> ClaimIdle c \<le> 0 \<or> DiscoveryInterval c \<le> 0 \<or> ShutdownTimeout c \<le> 0 \<or> Retention c \<le> 0
      then Some (Plain ''stream durations must be positive'')
      else None)"

text \<open>\<open>NewRuntime\<close>: which of the three dependencies are present, and the configuration.\<close>

definition NewRuntime :: "bool \<Rightarrow> bool \<Rightarrow> bool \<Rightarrow> RuntimeConfig \<Rightarrow> RuntimeConfig result" where
  "NewRuntime client source processor cfg =
     (if \<not> client \<or> \<not> source \<or> \<not> processor
      then Inl (Plain ''stream client, item source, and processor are required'')
      else (case RuntimeConfig_Validate cfg of Some e \<Rightarrow> Inl e | None \<Rightarrow> Inr cfg))"

definition isTerminal :: "goerr \<Rightarrow> bool" where
  "isTerminal err \<longleftrightarrow> errors_Is err ErrInvalidArgument \<or> errors_Is err ErrItemNotFound \<or>
     errors_Is err ErrUnavailable \<or> errors_Is err ErrOutOfStock \<or>
     errors_Is err ErrInvalidStreamMessage \<or> errors_Is err ErrUnsupportedStreamMessage \<or>
     errors_Is err ErrRPCRequestRejected"

definition stableErrorCode :: "goerr \<Rightarrow> string" where
  "stableErrorCode err =
     (if errors_Is err ErrUnsupportedStreamMessage then ''unsupported_message''
      else if errors_Is err ErrInvalidStreamMessage then ''invalid_message''
      else if errors_Is err ErrItemNotFound then ''item_not_found''
      else if errors_Is err ErrUnavailable then ''activity_unavailable''
      else if errors_Is err ErrOutOfStock then ''mysql_out_of_stock''
      else if errors_Is err Context_DeadlineExceeded then ''dependency_timeout''
      else if errors_Is err ErrReservedWithoutOrder then ''reserved_without_order''
      else if errors_Is err ErrRPCDependencyUnavailable then ''dependency_unavailable''
      else if errors_Is err ErrRPCRequestRejected then ''rpc_request_rejected''
      else ''temporary_failure'')"

definition isNoGroup :: "redis_lib \<Rightarrow> goerr \<Rightarrow> bool" where
  "isNoGroup L err \<longleftrightarrow> lib_HasErrorPrefix L err ''NOGROUP'' \<or>
     Contains (err_text err) ''requires the key to exist''"

text \<open>
  A task processor (the interface \<open>TaskProcessor\<close>) works on the services behind it, whose state is
  \<open>'w\<close>; the runtime looks at its error only. The runtime's state is the keyspace, the services, and
  the two counters of \<open>Runtime\<close>.
\<close>

type_synonym 'w processor = "u64 \<Rightarrow> u64 \<Rightarrow> u64 \<Rightarrow> string \<Rightarrow> time \<Rightarrow> 'w \<Rightarrow> PurchaseResult result \<times> 'w"

record 'w runtime =
  rt_redis :: redis
  rt_world :: 'w
  rt_active :: int
  rt_peak :: int

definition complete :: "redis step_env \<Rightarrow> RuntimeConfig \<Rightarrow> u64 \<Rightarrow> string \<Rightarrow> redis \<Rightarrow> anyval result \<times> redis" where
  "complete c cfg itemID messageID r =
     call c (\<lambda>r. completeScript r (StreamKey itemID) (StreamRetriesKey itemID) (ConsumerGroup cfg) messageID) r"

definition recordFailure ::
  "redis step_env \<Rightarrow> RuntimeConfig \<Rightarrow> time \<Rightarrow> u64 \<Rightarrow> Task \<Rightarrow> string \<Rightarrow> bool \<Rightarrow> redis \<Rightarrow> anyval result \<times> redis" where
  "recordFailure c cfg now itemID task code terminal r =
     call c (\<lambda>r. failScript r (StreamKey itemID) (StreamRetriesKey itemID) (StreamResultsKey itemID)
         (StreamDLQKey itemID) (ConsumerGroup cfg) (t_MessageID task) (t_OrderNo task)
         (FormatUint (t_UserID task)) code (if terminal then ''1'' else ''0'')
         (FormatInt (MaxDeliveries cfg)) (FormatInt (Milliseconds (Retention cfg)))
         (FormatInt (UnixMilli now))) r"

definition processOne ::
  "redis step_env \<Rightarrow> RuntimeConfig \<Rightarrow> 'w processor \<Rightarrow> time \<Rightarrow> u64 \<Rightarrow> XMessage \<Rightarrow> redis \<times> 'w \<Rightarrow> redis \<times> 'w" where
  "processOne c cfg proc now itemID message s =
     (case decodeTask itemID message of
        (task, Some decodeErr) \<Rightarrow>
          (snd (recordFailure c cfg now itemID task (stableErrorCode decodeErr) True (fst s)), snd s)
      | (task, None) \<Rightarrow>
          (case proc (t_UserID task) (t_ActivityID task) (t_ItemID task) (t_OrderNo task) (t_ReservedAt task) (snd s) of
             (Inr _, w) \<Rightarrow> (snd (complete c cfg itemID (t_MessageID task) (fst s)), w)
           | (Inl err, w) \<Rightarrow>
               (snd (recordFailure c cfg now itemID task (stableErrorCode err) (isTerminal err) (fst s)), w)))"

definition trackActive :: "int \<Rightarrow> 'w runtime \<Rightarrow> 'w runtime" where
  "trackActive delta s =
     (let active = wrap_i64 (rt_active s + delta) in
      s\<lparr>rt_active := active, rt_peak := (if rt_peak s < active then active else rt_peak s)\<rparr>)"

text \<open>
  What a batch meets: for the message at position \<open>k\<close> the behaviour of its Redis call, the time at
  which it is reported, and whether the semaphore gave a slot before the context ended.
\<close>

record batch_env =
  be_call :: "nat \<Rightarrow> redis step_env"
  be_now :: "nat \<Rightarrow> time"
  be_slot :: "nat \<Rightarrow> bool"

fun processBatch ::
  "batch_env \<Rightarrow> nat \<Rightarrow> RuntimeConfig \<Rightarrow> 'w processor \<Rightarrow> u64 \<Rightarrow> XMessage list \<Rightarrow> 'w runtime \<Rightarrow> 'w runtime" where
  "processBatch b k cfg proc itemID [] s = s"
| "processBatch b k cfg proc itemID (message # messages) s =
     (if \<not> be_slot b k then s
      else (let s1 = trackActive 1 s;
                (r, w) = processOne (be_call b k) cfg proc (be_now b k) itemID message (rt_redis s1, rt_world s1);
                s2 = trackActive (- 1) (s1\<lparr>rt_redis := r, rt_world := w\<rparr>)
            in processBatch b (k + 1) cfg proc itemID messages s2))"

definition ensureGroup ::
  "redis_lib \<Rightarrow> redis step_env \<Rightarrow> RuntimeConfig \<Rightarrow> string \<Rightarrow> redis \<Rightarrow> goerr option \<times> redis" where
  "ensureGroup L c cfg streamKey r =
     (case call c (\<lambda>r. XGROUP_CREATE r streamKey (ConsumerGroup cfg)) r of
        (Inr _, r') \<Rightarrow> (None, r')
      | (Inl e, r') \<Rightarrow> (if lib_HasErrorPrefix L e ''BUSYGROUP'' then None else Some e, r'))"

text \<open>
  One round of the loop of \<open>consumeItem\<close>: the three Redis calls in order, whether the context was
  still alive when it was read after a failed claim and after a failed read, whether the wait after
  an error ran to its end, and what the batch meets. The result says whether the loop goes on.
\<close>

record round_env =
  re_call :: "nat \<Rightarrow> redis step_env"
  re_alive :: "nat \<Rightarrow> bool"
  re_wait :: bool
  re_batch :: batch_env

definition consume_round ::
  "redis_lib \<Rightarrow> round_env \<Rightarrow> RuntimeConfig \<Rightarrow> 'w processor \<Rightarrow> u64 \<Rightarrow> 'w runtime \<Rightarrow> bool \<times> 'w runtime" where
  "consume_round L e cfg proc itemID s =
     (let streamKey = StreamKey itemID; n = nat (BatchSize cfg) in
      case ensureGroup L (re_call e 0) cfg streamKey (rt_redis s) of
        (Some err, r1) \<Rightarrow> (re_wait e, s\<lparr>rt_redis := r1\<rparr>)
      | (None, r1) \<Rightarrow>
          (case call (re_call e 1)
               (\<lambda>r. XAUTOCLAIM r streamKey (ConsumerGroup cfg) (nat (Milliseconds (ClaimIdle cfg))) n) r1 of
             (claim, r2) \<Rightarrow>
               if (case claim of Inr claimed \<Rightarrow> claimed \<noteq> [] | Inl _ \<Rightarrow> False)
               then (True, processBatch (re_batch e) 0 cfg proc itemID (map xmessage (projr claim)) (s\<lparr>rt_redis := r2\<rparr>))
               else if (case claim of Inr _ \<Rightarrow> False
                         | Inl err \<Rightarrow> \<not> errors_Is err Redis_Nil \<and> re_alive e 0 \<and> \<not> isNoGroup L err)
               then (re_wait e, s\<lparr>rt_redis := r2\<rparr>)
               else (case call (re_call e 2) (\<lambda>r. XREADGROUP r streamKey (ConsumerGroup cfg) n) r2 of
                   (Inl err, r3) \<Rightarrow>
                     if errors_Is err Redis_Nil then (True, s\<lparr>rt_redis := r3\<rparr>)
                     else (re_alive e 1 \<and> re_wait e, s\<lparr>rt_redis := r3\<rparr>)
                 | (Inr messages, r3) \<Rightarrow>
                     (True, processBatch (re_batch e) 0 cfg proc itemID (map xmessage messages) (s\<lparr>rt_redis := r3\<rparr>)))))"

text \<open>The loop, for as many rounds as the context lives.\<close>

fun consumeItem ::
  "redis_lib \<Rightarrow> round_env list \<Rightarrow> RuntimeConfig \<Rightarrow> 'w processor \<Rightarrow> u64 \<Rightarrow> 'w runtime \<Rightarrow> 'w runtime" where
  "consumeItem L [] cfg proc itemID s = s"
| "consumeItem L (e # es) cfg proc itemID s =
     (case consume_round L e cfg proc itemID s of
        (True, s') \<Rightarrow> consumeItem L es cfg proc itemID s'
      | (False, s') \<Rightarrow> s')"

text \<open>
  \<open>Run\<close>: the items with a consumer and the consumers it started, in order. A discovery that fails
  at the start ends the runtime; later ones are skipped.
\<close>

fun discover :: "RuntimeConfig \<Rightarrow> string \<Rightarrow> u64 list \<Rightarrow> u64 list \<times> (u64 \<times> string) list \<Rightarrow> u64 list \<times> (u64 \<times> string) list" where
  "discover cfg inst [] st = st"
| "discover cfg inst (itemID # ids) (started, workers) =
     (if itemID = 0 then discover cfg inst ids (started, workers)
      else if itemID \<in> set started then discover cfg inst ids (started, workers)
      else discover cfg inst ids (itemID # started,
        workers @ map (\<lambda>index. (itemID, ConsumerPrefix cfg @ ''-'' @ inst @ ''-'' @ FormatUint itemID @ ''-'' @ show_nat index))
          [0..<nat (ConsumerConcurrency cfg)]))"

datatype run_event = Tick "u64 list result" | Cancelled bool

fun run_loop :: "RuntimeConfig \<Rightarrow> string \<Rightarrow> run_event list \<Rightarrow> u64 list \<times> (u64 \<times> string) list \<Rightarrow>
    goerr option \<times> u64 list \<times> (u64 \<times> string) list" where
  "run_loop cfg inst [] st = (None, st)"
| "run_loop cfg inst (Cancelled drained # evs) st =
     (if drained then None else Some (Plain ''stream worker shutdown timed out''), st)"
| "run_loop cfg inst (Tick (Inl e) # evs) st = run_loop cfg inst evs st"
| "run_loop cfg inst (Tick (Inr ids) # evs) st = run_loop cfg inst evs (discover cfg inst ids st)"

definition Run :: "RuntimeConfig \<Rightarrow> string \<Rightarrow> u64 list result \<Rightarrow> run_event list \<Rightarrow>
    goerr option \<times> u64 list \<times> (u64 \<times> string) list" where
  "Run cfg inst first evs = (case first of
       Inl e \<Rightarrow> (Some (Wrapf ''discover stream items'' e), [], [])
     | Inr ids \<Rightarrow> run_loop cfg inst evs (discover cfg inst ids ([], [])))"

section \<open>The RPC processor\<close>

record ReservedSnapshot =
  sn_SKUID :: u64
  sn_ProductName :: string
  sn_SKUCode :: string
  sn_SKUName :: string
  sn_UnitPriceCent :: int

record ReservationResult =
  rr_Snapshot :: ReservedSnapshot
  rr_Replayed :: bool

record RPCProcessorConfig =
  TaskTimeout :: int
  InventoryTimeout :: int
  OrderTimeout :: int

definition RPCProcessorConfig_Validate :: "RPCProcessorConfig \<Rightarrow> goerr option" where
  "RPCProcessorConfig_Validate c =
     (if TaskTimeout c \<le> 0 \<or> InventoryTimeout c \<le> 0 \<or> OrderTimeout c \<le> 0 \<or>
         TaskTimeout c < wrap_i64 (InventoryTimeout c + OrderTimeout c)
      then Some (Plain ''orchestrator RPC budgets must be positive and fit within task timeout'')
      else None)"

text \<open>
  The two remote services of the processor (\<open>InventoryRPC\<close>, \<open>OrderRPC\<close>) act on the state \<open>'w\<close>;
  a deadline that passes shows as an error of the call. \<open>status.Code\<close> of the gRPC library is the
  argument \<open>sc\<close>.
\<close>

type_synonym 'w inventory_rpc = "u64 \<Rightarrow> u64 \<Rightarrow> u64 \<Rightarrow> string \<Rightarrow> time \<Rightarrow> 'w \<Rightarrow> ReservationResult result \<times> 'w"
type_synonym 'w order_rpc = "u64 \<Rightarrow> u64 \<Rightarrow> u64 \<Rightarrow> string \<Rightarrow> time \<Rightarrow> ReservedSnapshot \<Rightarrow> 'w \<Rightarrow> bool result \<times> 'w"

definition classifyRPCError :: "(goerr \<Rightarrow> code) \<Rightarrow> goerr \<Rightarrow> goerr" where
  "classifyRPCError sc err =
     (if sc err \<in> {InvalidArgument, NotFound, AlreadyExists, FailedPrecondition}
      then Caused (Sentinel ErrRPCRequestRejected) (err_text err)
      else if sc err = DeadlineExceeded then Caused (Sentinel Context_DeadlineExceeded) (err_text err)
      else if sc err = Unavailable then Caused (Sentinel ErrRPCDependencyUnavailable) (err_text err)
      else err)"

definition no_order :: Order where
  "no_order = \<lparr>o_ID = 0, o_OrderNo = [], o_UserID = 0, o_Status = 0, o_TotalAmountCent = 0, o_Items = [],
     o_CreatedAt = zero_time\<rparr>"

definition ProcessStreamTask ::
  "(goerr \<Rightarrow> code) \<Rightarrow> 'w inventory_rpc \<Rightarrow> 'w order_rpc \<Rightarrow> 'w processor" where
  "ProcessStreamTask sc inventory orders userID activityID itemID orderNo reservedAt w =
     (if userID = 0 \<or> activityID = 0 \<or> itemID = 0 \<or> orderNo = [] \<or> IsZero reservedAt
      then (fail ErrRPCRequestRejected, w)
      else (case inventory userID activityID itemID orderNo reservedAt w of
          (Inl err, w1) \<Rightarrow> (Inl (classifyRPCError sc err), w1)
        | (Inr reservation, w1) \<Rightarrow>
            (case orders userID activityID itemID orderNo reservedAt (rr_Snapshot reservation) w1 of
               (Inl err, w2) \<Rightarrow>
                 (Inl (Caused (Sentinel ErrReservedWithoutOrder) (err_text (classifyRPCError sc err))), w2)
             | (Inr _, w2) \<Rightarrow> (Inr \<lparr>pu_Order = no_order, pu_Replayed = rr_Replayed reservation\<rparr>, w2))))"

section \<open>Decoding what the gate enqueued\<close>

lemma decodeTask_requested:
  assumes "i \<noteq> []" and "TrimSpace ono \<noteq> []" and "u \<noteq> 0" "act \<noteq> 0" "item \<noteq> 0" and "0 < ms" "in_i64 ms"
  shows "decodeTask item (xmessage (i, order_requested_fields ono (FormatUint u) (FormatUint act)
      (FormatUint item) (FormatInt ms))) =
    (\<lparr>t_MessageID = i, t_OrderNo = TrimSpace ono, t_UserID = u, t_ActivityID = act, t_ItemID = item,
       t_ReservedAt = time_UnixMilli ms\<rparr>, None)"
  using assms by (simp add: decodeTask_def xmessage_def order_requested_fields_def field_def)

lemma decodeTask_MessageID: "decodeTask item m = (task, e) \<Longrightarrow> t_MessageID task = xm_ID m"
  by (auto simp: decodeTask_def Let_def no_task_def split: prod.splits if_splits)

lemma enqueue_first_inv:
  assumes "enqueue item ret r u now ono = (Inr \<lparr>rv_OrderNo = x, rv_Replayed = False\<rparr>, r')"
    and "live item r stock e"
  shows "is_ready item r" "HGET r (BuyersKey item) (FormatUint u) = None" "0 < stock"
    "activity_closed (HGET r (StateKey item) ''status'') (tonumber (HGET r (StateKey item) ''start_at_ms''))
       (tonumber (HGET r (StateKey item) ''end_at_ms'')) (tonumber (Some (FormatInt now))) = Inr False"
  using assms
  by (auto simp: enqueue_def reserveAndEnqueueScript_def lua_reply_def is_ready_def live_def
      split: if_splits option.splits sum.splits bool.splits prod.splits)

section \<open>Effects of the scripts on a message\<close>

definition dead_lettered :: "u64 \<Rightarrow> redis \<Rightarrow> string \<Rightarrow> bool" where
  "dead_lettered item r i \<longleftrightarrow>
     (\<exists>e \<in> set (stream_entries r (StreamDLQKey item)). map_of (snd e) ''source_message_id'' = Some i)"

lemma completeScript_effect:
  "stream_entries (snd (completeScript r (StreamKey item) (StreamRetriesKey item) g i)) (StreamKey item) =
     filter (\<lambda>e. fst e \<noteq> i) (stream_entries r (StreamKey item))"
  "stream_entries (snd (completeScript r (StreamKey item) (StreamRetriesKey item) g i)) (StreamDLQKey item) =
     stream_entries r (StreamDLQKey item)"
  "pending_ids (snd (completeScript r (StreamKey item) (StreamRetriesKey item) g i)) (StreamKey item) g =
     filter (\<lambda>p. p \<noteq> i) (pending_ids r (StreamKey item) g)"
  by (simp_all add: completeScript_def stream_entries_XDEL pending_ids_XACK)

text \<open>The failure script for one task, with its arguments as the runtime passes them.\<close>

abbreviation fail_task :: "RuntimeConfig \<Rightarrow> time \<Rightarrow> u64 \<Rightarrow> Task \<Rightarrow> string \<Rightarrow> bool \<Rightarrow> redis \<Rightarrow> anyval result \<times> redis" where
  "fail_task cfg now itemID task code terminal r \<equiv>
     failScript r (StreamKey itemID) (StreamRetriesKey itemID) (StreamResultsKey itemID)
         (StreamDLQKey itemID) (ConsumerGroup cfg) (t_MessageID task) (t_OrderNo task)
         (FormatUint (t_UserID task)) code (if terminal then ''1'' else ''0'')
         (FormatInt (MaxDeliveries cfg)) (FormatInt (Milliseconds (Retention cfg)))
         (FormatInt (UnixMilli now))"

text \<open>A configuration the constructor accepts, with a retention of at least a millisecond.\<close>

definition config_ok :: "RuntimeConfig \<Rightarrow> bool" where
  "config_ok cfg \<longleftrightarrow> RuntimeConfig_Validate cfg = None \<and> in_i64 (MaxDeliveries cfg) \<and>
     millisecond \<le> Retention cfg \<and> in_i64 (Retention cfg)"

lemma config_ok_facts:
  assumes "config_ok cfg"
  shows "0 < MaxDeliveries cfg" "in_i64 (MaxDeliveries cfg)" "0 < Milliseconds (Retention cfg)"
    "in_i64 (Milliseconds (Retention cfg))"
  using assms Milliseconds_pos [of "Retention cfg"]
  by (auto simp: config_ok_def RuntimeConfig_Validate_def Milliseconds_def pos_imp_zdiv_pos_iff split: if_splits)

text \<open>The attempt counter of a message.\<close>

definition attempts_of :: "u64 \<Rightarrow> redis \<Rightarrow> string \<Rightarrow> int" where
  "attempts_of item r i = (case HGET r (StreamRetriesKey item) i of None \<Rightarrow> 0 | Some s \<Rightarrow> fst (ParseInt s))"

definition counter_ok :: "u64 \<Rightarrow> redis \<Rightarrow> string \<Rightarrow> bool" where
  "counter_ok item r i \<longleftrightarrow> HGET r (StreamRetriesKey item) i = None \<or>
     (\<exists>n. HGET r (StreamRetriesKey item) i = Some (FormatInt n) \<and> 0 \<le> n \<and> n < max_i64)"

lemma HINCRBY_attempts:
  assumes "counter_ok item r i"
  shows "HINCRBY r (StreamRetriesKey item) i 1 = Some (attempts_of item r i + 1,
      HSET r (StreamRetriesKey item) i (FormatInt (attempts_of item r i + 1)))"
    and "0 \<le> attempts_of item r i" and "attempts_of item r i < max_i64"
proof -
  have "in_i64 n" "in_i64 (n + 1)" if "0 \<le> n" "n < max_i64" for n
    using that by (simp_all add: in_i64_def max_i64_def)
  moreover have "in_i64 1" by (simp add: in_i64_def max_i64_def)
  ultimately show "HINCRBY r (StreamRetriesKey item) i 1 = Some (attempts_of item r i + 1,
      HSET r (StreamRetriesKey item) i (FormatInt (attempts_of item r i + 1)))"
    and "0 \<le> attempts_of item r i" and "attempts_of item r i < max_i64"
    using assms by (auto simp: counter_ok_def attempts_of_def hash_simps max_i64_def)
qed

text \<open>
  A failure below the limit counts and keeps the message; a terminal failure, or the last allowed
  one, files the message in the dead-letter stream, takes it off the stream and the pending list, and
  marks the result of its order as failed.
\<close>

lemma fail_task_retry:
  assumes cfg: "config_ok cfg" and cnt: "counter_ok item r (t_MessageID task)"
    and "\<not> terminal" and "attempts_of item r (t_MessageID task) + 1 < MaxDeliveries cfg"
  shows "stream_entries (snd (fail_task cfg now item task code terminal r)) k = stream_entries r k"
    and "pending_ids (snd (fail_task cfg now item task code terminal r)) k g = pending_ids r k g"
    and "HGET (snd (fail_task cfg now item task code terminal r)) k' f =
      (if k' = StreamRetriesKey item \<and> f = t_MessageID task
       then Some (FormatInt (attempts_of item r (t_MessageID task) + 1)) else HGET r k' f)"
  using assms(3,4) config_ok_facts [OF cfg] HINCRBY_attempts [OF cnt]
  by (auto simp: failScript_def Let_def hash_simps)

lemma fail_task_dead:
  assumes cfg: "config_ok cfg" and cnt: "counter_ok item r (t_MessageID task)"
    and last: "terminal \<or> MaxDeliveries cfg \<le> attempts_of item r (t_MessageID task) + 1"
  shows "stream_entries (snd (fail_task cfg now item task code terminal r)) (StreamKey item) =
      filter (\<lambda>e. fst e \<noteq> t_MessageID task) (stream_entries r (StreamKey item))"
    and "\<exists>i. stream_entries (snd (fail_task cfg now item task code terminal r)) (StreamDLQKey item) =
      stream_entries r (StreamDLQKey item) @ [(i, order_failed_fields (t_MessageID task) (t_OrderNo task)
         (FormatUint (t_UserID task)) code (FormatInt (UnixMilli now)) (attempts_of item r (t_MessageID task) + 1))]"
    and "pending_ids (snd (fail_task cfg now item task code terminal r)) (StreamKey item) (ConsumerGroup cfg) =
      filter (\<lambda>p. p \<noteq> t_MessageID task) (pending_ids r (StreamKey item) (ConsumerGroup cfg))"
    and "t_OrderNo task \<noteq> [] \<Longrightarrow> FormatUint (t_UserID task) \<noteq> ''0'' \<Longrightarrow>
      HGET (snd (fail_task cfg now item task code terminal r)) (StreamResultsKey item) (t_OrderNo task) =
        Some (FormatUint (t_UserID task) @ ''|FAILED'')"
    and "counter_ok item (snd (fail_task cfg now item task code terminal r)) (t_MessageID task)"
  using last config_ok_facts [OF cfg] HINCRBY_attempts [OF cnt]
  by (auto simp: failScript_def Let_def hash_simps stream_entries_XDEL stream_entries_XADD
      pending_ids_XACK counter_ok_def)

section \<open>No message is lost\<close>

text \<open>
  A message is accounted for while it is in the stream, once it is in the dead-letter stream, or when its task is
  done: \<open>acc\<close> says of which messages this holds, for instance that the processor has accepted the task. \<open>F\<close> gives the fields
  of each message identifier: an identifier is never used for two messages.
\<close>

definition accepted :: "'w processor \<Rightarrow> u64 \<Rightarrow> string \<times> fields \<Rightarrow> bool" where
  "accepted proc item e \<longleftrightarrow> (\<exists>task w res w'. decodeTask item (xmessage e) = (task, None) \<and>
     proc (t_UserID task) (t_ActivityID task) (t_ItemID task) (t_OrderNo task) (t_ReservedAt task) w = (Inr res, w'))"

definition accounted :: "(string \<times> fields \<Rightarrow> bool) \<Rightarrow> u64 \<Rightarrow> redis \<Rightarrow> string \<times> fields \<Rightarrow> bool" where
  "accounted acc item r e \<longleftrightarrow> e \<in> set (stream_entries r (StreamKey item)) \<or>
     dead_lettered item r (fst e) \<or> acc e"

definition ids_ok :: "(string \<Rightarrow> fields) \<Rightarrow> u64 \<Rightarrow> redis \<Rightarrow> bool" where
  "ids_ok F item r \<longleftrightarrow> (\<forall>e \<in> set (stream_entries r (StreamKey item)). snd e = F (fst e)) \<and>
     (\<forall>i. counter_ok item r i)"

text \<open>What a step of anybody keeps: the relation the interference relies on and the runtime guarantees.\<close>

definition keeps_messages :: "(string \<times> fields \<Rightarrow> bool) \<Rightarrow> (string \<Rightarrow> fields) \<Rightarrow> u64 \<Rightarrow> redis \<Rightarrow> redis \<Rightarrow> bool" where
  "keeps_messages acc F item r r' \<longleftrightarrow> ids_ok F item r \<longrightarrow> ids_ok F item r' \<and>
     (\<forall>e. accounted acc item r e \<longrightarrow> accounted acc item r' e)"

lemma keeps_messages_refl [simp]: "keeps_messages acc F item r r"
  by (simp add: keeps_messages_def)

lemma keeps_messages_trans:
  "keeps_messages acc F item r r' \<Longrightarrow> keeps_messages acc F item r' r'' \<Longrightarrow> keeps_messages acc F item r r''"
  by (simp add: keeps_messages_def)

lemma call_keeps:
  assumes "\<And>r. keeps_messages acc F item r (interference c r)"
    and "\<And>r. keeps_messages acc F item r (snd (f r))"
  shows "keeps_messages acc F item r (snd (call c f r))"
  by (rule call_respects [of "keeps_messages acc F item"]) (rule keeps_messages_trans, assumption+, rule assms, rule assms)

lemma keeps_messages_same:
  assumes "\<And>k. stream_entries r' k = stream_entries r k" and "\<And>k f. HGET r' k f = HGET r k f"
  shows "keeps_messages acc F item r r'"
  using assms by (simp add: keeps_messages_def accounted_def dead_lettered_def ids_ok_def counter_ok_def)

lemma HGET_group_ops [simp]:
  "HGET (snd (XGROUP_CREATE r k g)) = HGET r" "HGET (snd (XREADGROUP r k g n)) = HGET r"
  "HGET (snd (XAUTOCLAIM r k g m n)) = HGET r"
  by (auto simp: XGROUP_CREATE_def XREADGROUP_def XAUTOCLAIM_def HGET_def fun_eq_iff Let_def split: option.splits)

lemma complete_keeps:
  assumes "acc (i, F i)"
  shows "keeps_messages acc F item r (snd (completeScript r (StreamKey item) (StreamRetriesKey item) g i))"
proof -
  let ?r = "snd (completeScript r (StreamKey item) (StreamRetriesKey item) g i)"
  have "HGET ?r k f = (if k = StreamRetriesKey item \<and> f = i then None else HGET r k f)" for k f
    by (simp add: completeScript_def hash_simps)
  with assms show ?thesis
    by (auto simp: keeps_messages_def accounted_def dead_lettered_def completeScript_effect ids_ok_def counter_ok_def)
qed

lemma counter_ok_fail:
  assumes cfg: "config_ok cfg" and cnt: "\<forall>i. counter_ok item r i"
  shows "counter_ok item (snd (fail_task cfg now item task code terminal r)) i"
proof (cases "terminal \<or> MaxDeliveries cfg \<le> attempts_of item r (t_MessageID task) + 1")
  case True
  have "HGET (snd (fail_task cfg now item task code terminal r)) (StreamRetriesKey item) i =
    (if i = t_MessageID task then None else HGET r (StreamRetriesKey item) i)"
    using True config_ok_facts [OF cfg] HINCRBY_attempts [OF cnt [rule_format, of "t_MessageID task"]]
    by (auto simp: failScript_def Let_def hash_simps)
  with cnt show ?thesis by (simp add: counter_ok_def)
next
  case False
  with fail_task_retry(3) [OF cfg cnt [rule_format], where task = task and terminal = terminal and now = now and
      code = code and k' = "StreamRetriesKey item" and f = i]
    HINCRBY_attempts(2,3) [OF cnt [rule_format, of "t_MessageID task"]] cnt config_ok_facts(2) [OF cfg]
  show ?thesis by (auto simp: counter_ok_def in_i64_def)
qed

lemma fail_keeps:
  assumes cfg: "config_ok cfg"
  shows "keeps_messages acc F item r (snd (fail_task cfg now item task code terminal r))"
proof (unfold keeps_messages_def, intro impI)
  assume ok: "ids_ok F item r"
  then have cnt: "\<forall>i. counter_ok item r i" by (simp add: ids_ok_def)
  let ?r = "snd (fail_task cfg now item task code terminal r)"
  have cnt': "\<forall>i. counter_ok item ?r i" using counter_ok_fail [OF cfg cnt] by blast
  show "ids_ok F item ?r \<and> (\<forall>e. accounted acc item r e \<longrightarrow> accounted acc item ?r e)"
  proof (cases "terminal \<or> MaxDeliveries cfg \<le> attempts_of item r (t_MessageID task) + 1")
    case True
    note d = fail_task_dead [OF cfg cnt [rule_format] True, where now = now and code = code]
    have "dead_lettered item ?r (t_MessageID task)"
      using d(2) by (auto simp: dead_lettered_def order_failed_fields_def)
    moreover have "dead_lettered item r i \<Longrightarrow> dead_lettered item ?r i" for i
      using d(2) by (auto simp: dead_lettered_def)
    ultimately show ?thesis using ok cnt' d(1) by (auto simp: accounted_def ids_ok_def)
  next
    case False
    note f = fail_task_retry(1) [OF cfg cnt [rule_format], where task = task and terminal = terminal and
      now = now and code = code]
    show ?thesis using False ok cnt' f by (simp add: accounted_def ids_ok_def dead_lettered_def)
  qed
qed

lemma claim_entries:
  "call c (\<lambda>r. XAUTOCLAIM r k g m n) r = (Inr ms, r') \<Longrightarrow> set ms \<subseteq> set (stream_entries r' k)"
  "call c (\<lambda>r. XREADGROUP r k g n) r = (Inr ms, r') \<Longrightarrow> set ms \<subseteq> set (stream_entries r' k)"
proof -
  assume "call c (\<lambda>r. XAUTOCLAIM r k g m n) r = (Inr ms, r')"
  from call_Inr [OF this] XAUTOCLAIM_entries stream_entries_XAUTOCLAIM
  show "set ms \<subseteq> set (stream_entries r' k)" by (metis fst_conv snd_conv)
next
  assume "call c (\<lambda>r. XREADGROUP r k g n) r = (Inr ms, r')"
  from call_Inr [OF this] XREADGROUP_entries stream_entries_XREADGROUP
  show "set ms \<subseteq> set (stream_entries r' k)" by (metis fst_conv snd_conv)
qed

lemma ids_ok_fields:
  "ids_ok F item r \<Longrightarrow> set ms \<subseteq> set (stream_entries r (StreamKey item)) \<Longrightarrow> \<forall>e \<in> set ms. snd e = F (fst e)"
  by (auto simp: ids_ok_def)

definition round_rely :: "(string \<times> fields \<Rightarrow> bool) \<Rightarrow> (string \<Rightarrow> fields) \<Rightarrow> u64 \<Rightarrow> round_env \<Rightarrow> bool" where
  "round_rely acc F item e \<longleftrightarrow> (\<forall>k r. keeps_messages acc F item r (interference (re_call e k) r) \<and>
     keeps_messages acc F item r (interference (be_call (re_batch e) k) r))"

text \<open>
  What the consumer asks of its processor, for the messages \<open>(i, F i)\<close> of the item: a task keeps the world behind it \<open>valid\<close>
  and moves it forward (\<open>before\<close>), and when the processor accepts a task, its message is done as soon as the world has
  reached that point on the way to the \<open>horizon\<close>.
\<close>

locale stream_work =
  fixes proc :: "'w processor" and item :: u64 and F :: "string \<Rightarrow> fields" and acc :: "string \<times> fields \<Rightarrow> bool"
    and valid :: "'w \<Rightarrow> bool" and before :: "'w \<Rightarrow> 'w \<Rightarrow> bool" and horizon :: 'w
  assumes before_refl: "before w w" and before_trans: "before a b \<Longrightarrow> before b c \<Longrightarrow> before a c"
    and work: "valid w \<Longrightarrow> decodeTask item (xmessage (i, F i)) = (task, None) \<Longrightarrow>
      proc (t_UserID task) (t_ActivityID task) (t_ItemID task) (t_OrderNo task) (t_ReservedAt task) w = (res, w') \<Longrightarrow>
      valid w' \<and> before w w' \<and> ((\<exists>x. res = Inr x) \<longrightarrow> before w' horizon \<longrightarrow> acc (i, F i))"
begin

text \<open>A step of the consumer, on the stream and the world.\<close>

definition step :: "redis \<times> 'w \<Rightarrow> redis \<times> 'w \<Rightarrow> bool" where
  "step s s' \<longleftrightarrow> (valid (snd s) \<longrightarrow> valid (snd s') \<and> before (snd s) (snd s') \<and>
     keeps_messages (\<lambda>_. True) F item (fst s) (fst s') \<and>
     (before (snd s') horizon \<longrightarrow> keeps_messages acc F item (fst s) (fst s')))"

lemma step_trans: "step a b \<Longrightarrow> step b c \<Longrightarrow> step a c"
  unfolding step_def by (meson before_trans keeps_messages_trans)

lemma step_redis: "keeps_messages acc F item r r' \<Longrightarrow> step (r, w) (r', w)"
  by (simp add: step_def before_refl keeps_messages_def accounted_def)

lemma processOne_step:
  assumes cfg: "config_ok cfg" and rely: "\<And>r. keeps_messages acc F item r (interference c r)"
  shows "step s (processOne c cfg proc now item (xmessage (i, F i)) s)"
proof (cases s)
  case (Pair r0 w0)
  have rely0: "keeps_messages (\<lambda>_. True) F item r (interference c r)" for r
    using rely [of r] by (simp add: keeps_messages_def accounted_def)
  have f: "keeps_messages a F item r (snd (recordFailure c cfg now item task code terminal r))"
    if "\<And>r. keeps_messages a F item r (interference c r)" for a r task code terminal
    unfolding recordFailure_def by (rule call_keeps [OF that fail_keeps [OF cfg]])
  have done_: "keeps_messages a F item r (snd (complete c cfg item i r))"
    if "a (i, F i)" "\<And>r. keeps_messages a F item r (interference c r)" for a r
    unfolding complete_def by (intro call_keeps that(2) complete_keeps that(1))
  obtain task e where d: "decodeTask item (xmessage (i, F i)) = (task, e)" by fastforce
  show ?thesis
  proof (cases e)
    case (Some err)
    with d f [OF rely] show ?thesis by (simp add: processOne_def Pair step_redis)
  next
    case None
    obtain res w where p: "proc (t_UserID task) (t_ActivityID task) (t_ItemID task) (t_OrderNo task)
        (t_ReservedAt task) w0 = (res, w)" by fastforce
    note wk = work [OF _ d [unfolded None] p]
    show ?thesis
    proof (cases res)
      case (Inl err)
      with d None p f [OF rely] f [OF rely0] wk show ?thesis by (simp add: processOne_def Pair step_def)
    next
      case (Inr x)
      have "t_MessageID task = i" using decodeTask_MessageID [OF d] by (simp add: xmessage_def)
      with d None p Inr wk done_ [OF _ rely] done_ [OF _ rely0] show ?thesis by (simp add: processOne_def Pair step_def)
    qed
  qed
qed

lemma processBatch_step:
  assumes cfg: "config_ok cfg" and rely: "\<And>k r. keeps_messages acc F item r (interference (be_call b k) r)"
  shows "\<forall>e \<in> set ms. snd e = F (fst e) \<Longrightarrow>
    step (rt_redis s, rt_world s) (let s' = processBatch b k cfg proc item (map xmessage ms) s in (rt_redis s', rt_world s'))"
proof (induction ms arbitrary: k s)
  case Nil
  then show ?case by (simp add: step_redis)
next
  case (Cons m ms)
  then have m: "m = (fst m, F (fst m))" by (cases m) simp
  let ?s1 = "trackActive 1 s"
  obtain r w where p: "processOne (be_call b k) cfg proc (be_now b k) item (xmessage m) (rt_redis ?s1, rt_world ?s1) = (r, w)"
    by fastforce
  have "step (rt_redis s, rt_world s) (r, w)"
    using processOne_step [OF cfg rely [of _ k], of "(rt_redis ?s1, rt_world ?s1)" "be_now b k" "fst m"] p m
    by (simp add: trackActive_def Let_def)
  with Cons.IH [of "trackActive (- 1) (?s1\<lparr>rt_redis := r, rt_world := w\<rparr>)" "k + 1"] Cons.prems p show ?case
    by (auto simp: trackActive_def Let_def step_redis intro: step_trans)
qed

lemma consume_round_step:
  assumes cfg: "config_ok cfg" and rely: "round_rely acc F item e" and ok: "ids_ok F item (rt_redis s)"
    and run: "consume_round L e cfg proc item s = (b, s')"
  shows "step (rt_redis s, rt_world s) (rt_redis s', rt_world s')"
proof -
  let ?K = "keeps_messages acc F item" and ?k = "StreamKey item"
  have rc: "\<And>k r. ?K r (interference (re_call e k) r)" and rb: "\<And>k r. ?K r (interference (be_call (re_batch e) k) r)"
    using rely by (auto simp: round_rely_def)
  obtain x r1 where g: "ensureGroup L (re_call e 0) cfg ?k (rt_redis s) = (x, r1)" by fastforce
  have "?K r (snd (call (re_call e 0) (\<lambda>r. XGROUP_CREATE r ?k (ConsumerGroup cfg)) r))" for r
    by (intro call_keeps rc keeps_messages_same) simp_all
  with g have k1: "?K (rt_redis s) r1"
    by (auto simp: ensureGroup_def split: prod.splits sum.splits) (metis snd_conv)+
  obtain cl r2 where c: "call (re_call e 1) (\<lambda>r. XAUTOCLAIM r ?k (ConsumerGroup cfg)
      (nat (Milliseconds (ClaimIdle cfg))) (nat (BatchSize cfg))) r1 = (cl, r2)" by fastforce
  have "?K r1 (snd (call (re_call e 1) (\<lambda>r. XAUTOCLAIM r ?k (ConsumerGroup cfg)
      (nat (Milliseconds (ClaimIdle cfg))) (nat (BatchSize cfg))) r1))"
    by (intro call_keeps rc keeps_messages_same) simp_all
  with c k1 have k2: "?K (rt_redis s) r2" by (auto intro: keeps_messages_trans)
  obtain rd r3 where d: "call (re_call e 2) (\<lambda>r. XREADGROUP r ?k (ConsumerGroup cfg) (nat (BatchSize cfg))) r2 = (rd, r3)"
    by fastforce
  have "?K r2 (snd (call (re_call e 2) (\<lambda>r. XREADGROUP r ?k (ConsumerGroup cfg) (nat (BatchSize cfg))) r2))"
    by (intro call_keeps rc keeps_messages_same) simp_all
  with d k2 have k3: "?K (rt_redis s) r3" by (auto intro: keeps_messages_trans)
  have batch: "step (rt_redis s, rt_world s) (let s' = processBatch (re_batch e) 0 cfg proc item (map xmessage ms) (s\<lparr>rt_redis := r\<rparr>)
      in (rt_redis s', rt_world s'))"
    if "?K (rt_redis s) r" "set ms \<subseteq> set (stream_entries r ?k)" for ms r
  proof -
    have "\<forall>e \<in> set ms. snd e = F (fst e)"
      using that ok by (intro ids_ok_fields) (auto simp: keeps_messages_def)
    from processBatch_step [OF cfg rb this, of "s\<lparr>rt_redis := r\<rparr>" 0] step_redis [OF that(1), of "rt_world s"]
    show ?thesis by (auto intro: step_trans)
  qed
  have c': "cl = Inr ms \<Longrightarrow> set ms \<subseteq> set (stream_entries r2 ?k)" for ms using claim_entries(1) c by blast
  have d': "rd = Inr ms \<Longrightarrow> set ms \<subseteq> set (stream_entries r3 ?k)" for ms using claim_entries(2) d by blast
  have "step (rt_redis s, rt_world s) (let s' = snd (consume_round L e cfg proc item s) in (rt_redis s', rt_world s'))"
    using k1 k2 k3 [THEN step_redis] batch [OF k2 c'] batch [OF k3 d']
    by (cases x; cases cl; cases rd) (simp_all add: consume_round_def g c d Let_def step_redis del: One_nat_def)
  with run show ?thesis by simp
qed

lemma consumeItem_step:
  assumes cfg: "config_ok cfg"
  shows "\<forall>e \<in> set es. round_rely acc F item e \<Longrightarrow> ids_ok F item (rt_redis s) \<Longrightarrow> valid (rt_world s) \<Longrightarrow>
    step (rt_redis s, rt_world s) (let s' = consumeItem L es cfg proc item s in (rt_redis s', rt_world s'))"
proof (induction es arbitrary: s)
  case Nil
  then show ?case by (simp add: step_redis)
next
  case (Cons e es)
  obtain b s' where c: "consume_round L e cfg proc item s = (b, s')" by fastforce
  have k: "step (rt_redis s, rt_world s) (rt_redis s', rt_world s')"
    using consume_round_step [OF cfg _ _ c] Cons.prems by simp
  then have "ids_ok F item (rt_redis s')" "valid (rt_world s')" using Cons.prems by (simp_all add: step_def keeps_messages_def)
  then show ?case using Cons.IH [of s'] Cons.prems(1) c k by (cases b) (auto simp: Let_def intro: step_trans)
qed

lemma consumeItem_accounts:
  assumes "config_ok cfg" and "\<forall>e \<in> set es. round_rely acc F item e" and "ids_ok F item (rt_redis s)" and "valid (rt_world s)"
    and "s' = consumeItem L es cfg proc item s"
  shows "valid (rt_world s')"
    and "m \<in> set (stream_entries (rt_redis s) (StreamKey item)) \<Longrightarrow> before (rt_world s') horizon \<Longrightarrow>
      accounted acc item (rt_redis s') m"
  using consumeItem_step [OF assms(1-4), of L] assms(3-5)
  by (simp_all add: step_def Let_def keeps_messages_def accounted_def) (cases m, simp)

end

interpretation accepting: stream_work proc item F "accepted proc item" "\<lambda>_. True" "\<lambda>_ _. True" horizon
  for proc :: "'w processor" and item F horizon
  by unfold_locales (auto simp: accepted_def)

section \<open>Properties of the stream consumer\<close>

text \<open>What the gate enqueues is what the consumer processes: the message of a first reservation
  decodes, without an error, to the reserving user, the item and its activity, the order number the
  user was given, and the reservation time.\<close>

theorem enqueued_task_decodes:
  assumes "enqueue item ret r u now ono = (Inr \<lparr>rv_OrderNo = x, rv_Replayed = False\<rparr>, r')"
    and "item_ok item r" and "is_ready item r" and "0 \<le> ret" "in_i64 ret"
    and "HGET r (StateKey item) ''activity_id'' = Some (FormatUint act)"
    and "printable ono" "ono \<noteq> []" and "u \<noteq> 0" "act \<noteq> 0" "item \<noteq> 0" and "0 < now" "in_i64 now"
  shows "\<exists>i fs. stream_entries r' (StreamKey item) = stream_entries r (StreamKey item) @ [(i, fs)] \<and>
    decodeTask item (xmessage (i, fs)) =
      (\<lparr>t_MessageID = i, t_OrderNo = ono, t_UserID = u, t_ActivityID = act, t_ItemID = item,
         t_ReservedAt = time_UnixMilli now\<rparr>, None)"
proof -
  from assms(2,3) obtain stock e where live: "live item r stock e" by (auto simp: item_ok_def)
  note inv = enqueue_first_inv [OF assms(1) live]
  obtain r1 where r1: "enqueue item ret r u now ono = (Inr \<lparr>rv_OrderNo = ono, rv_Replayed = False\<rparr>, r1)"
    "stream_entries r1 (StreamKey item) = stream_entries r (StreamKey item) @
      [(show_id (next_id (clock r) (last_id (get_stream r (StreamKey item)))),
        order_requested_fields ono (FormatUint u) (FormatUint act) (FormatUint item) (FormatInt now))]"
    by (rule enqueue_first [OF live inv(1,3) assms(8) assms(4,5) inv(2,4) assms(6)])
  have "show_id i \<noteq> []" for i by (simp add: show_id_def)
  with r1 assms decodeTask_requested [of "show_id (next_id (clock r) (last_id (get_stream r (StreamKey item))))" ono u act item now]
  show ?thesis by auto
qed

theorem enqueued_task_decodes_witness:
  "\<exists>r' i fs. enqueue 42 86400000 demo_redis 5 1500 ''A'' = (Inr \<lparr>rv_OrderNo = ''A'', rv_Replayed = False\<rparr>, r') \<and>
    stream_entries r' (StreamKey 42) = stream_entries demo_redis (StreamKey 42) @ [(i, fs)] \<and>
    decodeTask 42 (xmessage (i, fs)) = (\<lparr>t_MessageID = i, t_OrderNo = ''A'', t_UserID = 5, t_ActivityID = 7,
      t_ItemID = 42, t_ReservedAt = 1500000000\<rparr>, None)"
proof -
  obtain r' where r: "enqueue 42 86400000 demo_redis 5 1500 ''A'' = (Inr \<lparr>rv_OrderNo = ''A'', rv_Replayed = False\<rparr>, r')"
    by (rule demo_first [of 1500 "''A''" 86400000 5]) (simp_all add: in_i64_def max_i64_def)
  from enqueued_task_decodes [OF r demo_live(2,3) _ _ demo_state(4)] r
  show ?thesis by (auto simp: in_i64_def max_i64_def byte_def time_UnixMilli_def)
qed

text \<open>C6: no message is lost. Through any number of rounds of a consumer, whatever fails and in
  whatever way (a lost reply after a completed script included), and with any activity of other
  clients that itself loses no message, every message of the item's stream is afterwards still in the
  stream, or in the dead-letter stream, or its task has been accepted by the processor.\<close>

theorem consumeItem_no_loss:
  assumes "config_ok cfg" and "\<forall>e \<in> set es. round_rely (accepted proc item) F item e" and "ids_ok F item (rt_redis s)"
    and "m \<in> set (stream_entries (rt_redis s) (StreamKey item))"
    and "r' = rt_redis (consumeItem L es cfg proc item s)"
  shows "m \<in> set (stream_entries r' (StreamKey item)) \<or> dead_lettered item r' (fst m) \<or> accepted proc item m"
  using accepting.consumeItem_accounts(2) [OF assms(1-3) TrueI refl assms(4) TrueI, of L] assms(5) by (simp add: accounted_def)

text \<open>A configuration, a stream with one message, and a processor whose dependencies are down.\<close>

definition demo_config :: RuntimeConfig where
  "demo_config = \<lparr>ConsumerGroup = ''orders'', ConsumerPrefix = ''worker'', ConsumerConcurrency = 2, BatchSize = 10,
     Block = second, ClaimIdle = 30 * second, DiscoveryInterval = second, ShutdownTimeout = 5 * second,
     MaxDeliveries = 3, Retention = 24 * 3600 * second\<rparr>"

definition demo_fields :: fields where
  "demo_fields = order_requested_fields ''T1500-42-0102030405060708'' (FormatUint 5) (FormatUint 7) (FormatUint 42) (FormatInt 1500)"

definition demo_stream :: redis where
  "demo_stream = XADD empty_redis (StreamKey 42) demo_fields"

definition demo_message :: "string \<times> fields" where
  "demo_message = (show_id (0, 1), demo_fields)"

definition down :: "unit processor" where
  "down = (\<lambda>_ _ _ _ _ w. (fail ErrRPCDependencyUnavailable, w))"

definition rejecting :: "unit processor" where
  "rejecting = (\<lambda>_ _ _ _ _ w. (fail ErrOutOfStock, w))"

lemma demo_config_ok: "config_ok demo_config"
  by (simp add: config_ok_def demo_config_def RuntimeConfig_Validate_def in_i64_def max_i64_def byte_def)

lemma empty_redis_streams [simp]: "stream_entries empty_redis k = []" "get_stream empty_redis k = empty_stream"
  by (simp_all add: stream_entries_def get_stream_def empty_redis_def empty_stream_def)

lemma demo_stream_entries: "stream_entries demo_stream (StreamKey 42) = [demo_message]"
  by (simp add: demo_stream_def stream_entries_XADD demo_message_def next_id_def empty_stream_def)

lemma demo_counter: "counter_ok 42 demo_stream i" "HGET demo_stream k f = None"
  by (simp_all add: counter_ok_def demo_stream_def)

lemma demo_decode:
  "decodeTask 42 (xmessage demo_message) = (\<lparr>t_MessageID = show_id (0, 1), t_OrderNo = ''T1500-42-0102030405060708'',
     t_UserID = 5, t_ActivityID = 7, t_ItemID = 42, t_ReservedAt = time_UnixMilli 1500\<rparr>, None)"
  unfolding demo_message_def demo_fields_def
  by (subst decodeTask_requested) (simp_all add: show_id_def in_i64_def max_i64_def byte_def)

theorem consumeItem_no_loss_witness:
  "let r' = rt_redis (consumeItem demo_lib
       [\<lparr>re_call = quiet, re_alive = (\<lambda>_. True), re_wait = True,
         re_batch = \<lparr>be_call = lost_reply, be_now = (\<lambda>_. 0), be_slot = (\<lambda>_. True)\<rparr>\<rparr>] demo_config down 42
       \<lparr>rt_redis = demo_stream, rt_world = (), rt_active = 0, rt_peak = 0\<rparr>)
   in demo_message \<in> set (stream_entries r' (StreamKey 42)) \<or> dead_lettered 42 r' (fst demo_message)"
proof -
  let ?e = "\<lparr>re_call = quiet, re_alive = (\<lambda>_. True), re_wait = True,
         re_batch = \<lparr>be_call = lost_reply, be_now = (\<lambda>_. 0), be_slot = (\<lambda>_. True)\<rparr>\<rparr>"
  let ?s = "\<lparr>rt_redis = demo_stream, rt_world = (), rt_active = 0, rt_peak = 0\<rparr>"
  have "\<not> accepted down 42 demo_message" by (simp add: accepted_def down_def)
  moreover have "\<forall>e \<in> set [?e]. round_rely (accepted down 42) (\<lambda>_. demo_fields) 42 e"
    by (simp add: round_rely_def quiet_def lost_reply_def)
  moreover have "ids_ok (\<lambda>_. demo_fields) 42 (rt_redis ?s)"
    by (simp add: ids_ok_def demo_stream_entries demo_counter demo_message_def)
  ultimately show ?thesis
    using consumeItem_no_loss [OF demo_config_ok, of "[?e]" down 42 "\<lambda>_. demo_fields" ?s demo_message, OF _ _ _ refl]
    by (simp add: demo_stream_entries Let_def)
qed

lemma FormatUint_zero: "FormatUint n = ''0'' \<longleftrightarrow> n = 0"
proof -
  have "FormatUint 0 = ''0''" by (simp add: FormatUint_def show_nat.simps digit_def char_of_eq_iff)
  then show ?thesis by (metis FormatUint_inject)
qed

text \<open>C7: retries are bounded. A task that keeps failing for a reason that may pass is delivered
  exactly \<open>MaxDeliveries\<close> times: before that the message stays in the stream and pending, with the
  number of its failures recorded; at that delivery it leaves both and is filed in the dead-letter
  stream with that number of attempts.\<close>

theorem retries_bounded:
  assumes cfg: "config_ok cfg" and dec: "decodeTask item m = (task, None)"
    and failing: "\<And>w. \<exists>err w'. proc (t_UserID task) (t_ActivityID task) (t_ItemID task) (t_OrderNo task)
        (t_ReservedAt task) w = (Inl err, w') \<and> \<not> isTerminal err"
    and fresh: "HGET r (StreamRetriesKey item) (xm_ID m) = None"
    and k: "int k \<le> MaxDeliveries cfg"
    and run: "(r', w') = (processOne (quiet 0) cfg proc now item m ^^ k) (r, w)"
  shows "if int k < MaxDeliveries cfg
    then attempts_of item r' (xm_ID m) = int k \<and> (\<forall>q. stream_entries r' q = stream_entries r q) \<and>
      (\<forall>q g. pending_ids r' q g = pending_ids r q g)
    else stream_entries r' (StreamKey item) = filter (\<lambda>e. fst e \<noteq> xm_ID m) (stream_entries r (StreamKey item)) \<and>
      pending_ids r' (StreamKey item) (ConsumerGroup cfg) =
        filter (\<lambda>p. p \<noteq> xm_ID m) (pending_ids r (StreamKey item) (ConsumerGroup cfg)) \<and>
      (\<exists>i code. stream_entries r' (StreamDLQKey item) = stream_entries r (StreamDLQKey item) @
        [(i, order_failed_fields (xm_ID m) (t_OrderNo task) (FormatUint (t_UserID task)) code
          (FormatInt (UnixMilli now)) (MaxDeliveries cfg))])"
proof -
  let ?i = "xm_ID m" and ?step = "processOne (quiet 0) cfg proc now item m"
  have id: "t_MessageID task = ?i" using decodeTask_MessageID [OF dec] .
  have step: "\<exists>code. fst (?step s) = snd (fail_task cfg now item task code False (fst s))" for s
    using failing [of "snd s"] dec by (auto simp: processOne_def recordFailure_def)
  have below: "attempts_of item (fst ((?step ^^ j) (r, w))) ?i = int j \<and>
      counter_ok item (fst ((?step ^^ j) (r, w))) ?i \<and>
      (\<forall>q. stream_entries (fst ((?step ^^ j) (r, w))) q = stream_entries r q) \<and>
      (\<forall>q g. pending_ids (fst ((?step ^^ j) (r, w))) q g = pending_ids r q g)"
    if "int j < MaxDeliveries cfg" for j
    using that
  proof (induction j)
    case 0
    with fresh show ?case by (simp add: attempts_of_def counter_ok_def)
  next
    case (Suc j)
    let ?s = "(?step ^^ j) (r, w)"
    have IH: "attempts_of item (fst ?s) (t_MessageID task) = int j" "counter_ok item (fst ?s) (t_MessageID task)"
      "\<And>q. stream_entries (fst ?s) q = stream_entries r q" "\<And>q g. pending_ids (fst ?s) q g = pending_ids r q g"
      using Suc id by auto
    obtain code where c: "fst (?step ?s) = snd (fail_task cfg now item task code False (fst ?s))" using step by blast
    have lt: "attempts_of item (fst ?s) (t_MessageID task) + 1 < MaxDeliveries cfg" using IH(1) Suc.prems by simp
    note f = fail_task_retry [OF cfg IH(2) _ lt, where terminal = False and now = now and code = code]
    have "HGET (fst (?step ?s)) (StreamRetriesKey item) ?i = Some (FormatInt (int (Suc j)))"
      using f(3) IH(1) c id by (simp add: add.commute)
    moreover have "in_i64 (int (Suc j))" "int (Suc j) < max_i64"
      using Suc.prems config_ok_facts(2) [OF cfg] by (auto simp: in_i64_def max_i64_def)
    ultimately show ?case using f(1,2) IH(3,4) c
      by (auto simp: attempts_of_def counter_ok_def)
  qed
  show ?thesis
  proof (cases "int k < MaxDeliveries cfg")
    case True
    with below [OF True] run show ?thesis by (metis fst_conv)
  next
    case False
    with k config_ok_facts(1) [OF cfg] obtain j where j: "k = Suc j" "int j < MaxDeliveries cfg" "int k = MaxDeliveries cfg"
      by (cases k) auto
    let ?s = "(?step ^^ j) (r, w)"
    note b = below [OF j(2)]
    have r': "r' = fst (?step ?s)" using run j(1) by (metis fst_conv funpow.simps(2) comp_apply)
    obtain code where c: "r' = snd (fail_task cfg now item task code False (fst ?s))" using step r' by blast
    have cn: "counter_ok item (fst ?s) (t_MessageID task)" using b id by simp
    have l: "False \<or> MaxDeliveries cfg \<le> attempts_of item (fst ?s) (t_MessageID task) + 1" using b id j by simp
    have "attempts_of item (fst ?s) (t_MessageID task) + 1 = MaxDeliveries cfg" using b id j by simp
    with fail_task_dead(1,2,3) [OF cfg cn l, where now = now and code = code] b id False show ?thesis
      unfolding c by auto
  qed
qed

theorem retries_bounded_witness:
  "\<exists>i code. stream_entries (fst ((processOne (quiet 0) demo_config down 0 42 (xmessage demo_message) ^^ 3) (demo_stream, ())))
      (StreamDLQKey 42) = [(i, order_failed_fields (show_id (0, 1)) ''T1500-42-0102030405060708'' (FormatUint 5) code
        (FormatInt 0) 3)]"
proof -
  obtain r' w' where s: "(r', w') = (processOne (quiet 0) demo_config down 0 42 (xmessage demo_message) ^^ 3) (demo_stream, ())"
    by (metis surj_pair)
  have d: "stream_entries demo_stream (StreamDLQKey 42) = []"
    by (simp add: demo_stream_def stream_entries_XADD)
  have "MaxDeliveries demo_config = 3" by (simp add: demo_config_def)
  with retries_bounded [OF demo_config_ok demo_decode _ _ _ s]
  show ?thesis
    using s [symmetric] by (simp add: d down_def isTerminal_def demo_counter UnixMilli_def xmessage_def demo_message_def)
qed

text \<open>A rejected task becomes visible to its owner and to nobody else: after a failure that is
  final, the result of the order number reads \<open>FAILED\<close> for the user of the task and is not found for any
  other user.\<close>

theorem terminal_failure_visible:
  assumes cfg: "config_ok cfg" and dec: "decodeTask item m = (task, None)"
    and rejected: "proc (t_UserID task) (t_ActivityID task) (t_ItemID task) (t_OrderNo task) (t_ReservedAt task) w = (Inl err, w')"
    and terminal: "isTerminal err" and cnt: "counter_ok item r (xm_ID m)"
    and ono: "StreamOrderItemID (t_OrderNo task) = Some item" "printable (t_OrderNo task)" "t_OrderNo task \<noteq> []"
    and user: "t_UserID task \<noteq> 0" and g: "g_client g"
  shows "FindStreamResult (quiet 0) g (fst (processOne (quiet 0) cfg proc now item m (r, w))) u (t_OrderNo task) =
    (if u = t_UserID task then Inr AsyncResultFailed else fail ErrAsyncResultNotFound)"
proof -
  have id: "t_MessageID task = xm_ID m" using decodeTask_MessageID [OF dec] .
  let ?r = "fst (processOne (quiet 0) cfg proc now item m (r, w))"
  have r: "?r = snd (fail_task cfg now item task (stableErrorCode err) True r)"
    using dec rejected terminal by (simp add: processOne_def recordFailure_def)
  have res: "HGET ?r (StreamResultsKey item) (t_OrderNo task) = Some (FormatUint (t_UserID task) @ ''|FAILED'')"
    unfolding r using cnt id ono user by (intro fail_task_dead(4) [OF cfg]) (simp_all add: FormatUint_zero)
  have "CHR ''|'' \<notin> set (FormatUint (t_UserID task))"
    by (rule nondigit_not_in_FormatUint) (simp add: is_digit_def byte_def)
  then have "Split (FormatUint (t_UserID task) @ ''|FAILED'') (CHR ''|'') = [FormatUint (t_UserID task), ''FAILED'']"
    by (simp add: Split_sep)
  with res ono g user show ?thesis by (auto simp: FindStreamResult_def HGet_def)
qed

theorem terminal_failure_visible_witness:
  "FindStreamResult (quiet 0) demo_gate (fst (processOne (quiet 0) demo_config rejecting 0 42 (xmessage demo_message) (demo_stream, ())))
      5 ''T1500-42-0102030405060708'' = Inr AsyncResultFailed"
proof -
  note o = demo_stream_number
  show ?thesis
    using terminal_failure_visible [OF demo_config_ok demo_decode, where proc = rejecting and w = "()" and r = demo_stream
        and g = demo_gate and u = 5 and now = 0 and err = "Sentinel ErrOutOfStock" and w' = "()"] o
    by (simp add: rejecting_def isTerminal_def demo_counter byte_def demo_gate_def)
qed

end
