(* ===== verification/Sql.thy ===== *)
theory Sql
  imports Prelude
begin

text \<open>
  The parts of MySQL that the repositories share. A table is the list of its rows; a statement is a
  function on the tables that applies the constraints of \<open>migrations/*.sql\<close>. A transaction works on
  the tables as it finds them and is atomic: its changes appear together when it commits and not at
  all when its body returns an error (the deferred \<open>Rollback\<close>). Its environment decides whether it
  fails before the commit, commits, or commits without the caller learning of it. The numbers that
  \<open>AUTO_INCREMENT\<close> skips after a rollback, the limits on the length of a text column, and the
  case-insensitive collation of text keys are left out.
\<close>

abbreviation ER_DUP_ENTRY :: nat where "ER_DUP_ENTRY \<equiv> 1062"
abbreviation ER_CHECK_CONSTRAINT_VIOLATED :: nat where "ER_CHECK_CONSTRAINT_VIOLATED \<equiv> 3819"
abbreviation ER_NO_REFERENCED_ROW :: nat where "ER_NO_REFERENCED_ROW \<equiv> 1452"

abbreviation ER_TRUNCATED_WRONG_VALUE :: nat where "ER_TRUNCATED_WRONG_VALUE \<equiv> 1292"
abbreviation ER_TRUNCATED_WRONG_VALUE_FOR_FIELD :: nat where "ER_TRUNCATED_WRONG_VALUE_FOR_FIELD \<equiv> 1366"
abbreviation ER_AUTOINC_READ_FAILED :: nat where "ER_AUTOINC_READ_FAILED \<equiv> 1467"

text \<open>The range of a \<open>DATETIME\<close> column: the years 1000 to 9999.\<close>

definition datetime_ok :: "time \<Rightarrow> bool" where
  "datetime_ok t \<longleftrightarrow> - 30610224000 * second \<le> t \<and> t < 253402300800 * second"

lemma datetime_in_i64:
  assumes "datetime_ok t"
  shows "in_i64 (UnixMilli t)"
proof -
  have "- 30610224000000000000 div 1000000 \<le> t div 1000000" "t div 1000000 \<le> 253402300800000000000 div 1000000"
    using assms by (intro zdiv_mono1; simp add: datetime_ok_def)+
  then show ?thesis by (simp add: UnixMilli_def in_i64_def max_i64_def)
qed

text \<open>A table whose \<open>BIGINT UNSIGNED AUTO_INCREMENT\<close> key has no value left.\<close>

definition table_full :: "'a list \<Rightarrow> bool" where
  "table_full rows \<longleftrightarrow> 2 ^ 64 \<le> length rows + 1"

definition isDuplicateKey :: "goerr \<Rightarrow> bool" where
  "isDuplicateKey err \<longleftrightarrow> errors_As_MySQL err = Some ER_DUP_ENTRY"

definition atomically :: "'d step_env \<Rightarrow> ('d \<Rightarrow> 'a result \<times> 'd) \<Rightarrow> 'd \<Rightarrow> 'a result \<times> 'd" where
  "atomically c body = call c (\<lambda>d. case body d of (Inr x, d') \<Rightarrow> (Inr x, d') | (Inl e, _) \<Rightarrow> (Inl e, d))"

text \<open>A read: the tables are not changed.\<close>

definition read_db :: "'d step_env \<Rightarrow> ('d \<Rightarrow> 'a) \<Rightarrow> 'd \<Rightarrow> 'a result \<times> 'd" where
  "read_db c f = call c (\<lambda>d. (Inr (f d), d))"

text \<open>A failure of the infrastructure, as opposed to an answer of the server about the data.\<close>

definition infra_error :: "goerr \<Rightarrow> bool" where
  "infra_error e \<longleftrightarrow> errors_As_MySQL e \<noteq> Some ER_DUP_ENTRY \<and> (\<forall>s. errors_Is e s \<longrightarrow>
     s \<in> {Context_Canceled, Context_DeadlineExceeded})"

definition faults_ok :: "'d env \<Rightarrow> bool" where
  "faults_ok env \<longleftrightarrow> (\<forall>k e. outcome_of (env k) \<in> {Lost_before e, Lost_after e} \<longrightarrow> infra_error e)"

definition undisturbed :: "'d env \<Rightarrow> bool" where
  "undisturbed env \<longleftrightarrow> (\<forall>k. interference (env k) = id)"

lemma quiet_ok [simp]: "faults_ok quiet" "undisturbed quiet"
  by (simp_all add: faults_ok_def undisturbed_def quiet_def)

lemma atomically_quiet [simp]:
  "atomically (quiet k) body d = (case body d of (Inr x, d') \<Rightarrow> (Inr x, d') | (Inl e, _) \<Rightarrow> (Inl e, d))"
  by (simp add: atomically_def)

lemma read_db_quiet [simp]: "read_db (quiet k) f d = (Inr (f d), d)"
  by (simp add: read_db_def)

text \<open>Rely/guarantee for the two kinds of access.\<close>

lemma atomically_respects:
  assumes "\<And>a b c. R a b \<Longrightarrow> R b c \<Longrightarrow> R a c" and "\<And>d. R d d" and "\<And>d. R d (interference c d)"
    and "\<And>d x d'. body d = (Inr x, d') \<Longrightarrow> R d d'"
  shows "R d (snd (atomically c body d))"
  unfolding atomically_def
  by (rule call_respects [of R]) (use assms in \<open>auto split: prod.splits sum.splits\<close>)

lemma read_db_respects:
  assumes "\<And>d. R d (interference c d)"
  shows "R d (snd (read_db c f d))"
  using assms by (simp add: read_db_def call_def Let_def split: outcome.splits)

lemma read_db_undisturbed:
  assumes "undisturbed env"
  shows "snd (read_db (env k) f d) = d" and "read_db (env k) f d = (Inr x, d') \<Longrightarrow> x = f d \<and> d' = d"
  using assms by (auto simp: read_db_def call_def Let_def undisturbed_def split: outcome.splits)

lemma atomically_undisturbed:
  assumes "undisturbed env" and "atomically (env k) body d = (res, d')"
  shows "d' = d \<or> (\<exists>x. body d = (Inr x, d'))"
    and "res = Inr x \<Longrightarrow> body d = (Inr x, d')"
  using assms
  by (auto simp: atomically_def call_def Let_def undisturbed_def split: outcome.splits prod.splits sum.splits)

text \<open>An answer that is not an infrastructure failure is the body's.\<close>

lemma atomically_answer:
  assumes "faults_ok env" and "atomically (env k) body d = (res, d')" and "\<And>e. res = Inl e \<Longrightarrow> \<not> infra_error e"
  shows "(case body (interference (env k) d) of (Inr x, d') \<Rightarrow> (Inr x, d')
    | (Inl e, _) \<Rightarrow> (Inl e, interference (env k) d)) = (res, d')"
  using assms by (auto simp: atomically_def call_def Let_def faults_ok_def split: outcome.splits)

lemma find_append: "find P (xs @ ys) = (case find P xs of None \<Rightarrow> find P ys | Some x \<Rightarrow> Some x)"
  by (induction xs) simp_all

section \<open>Identifiers\<close>

text \<open>Rows are numbered from 1 in the order of their insertion.\<close>

definition numbered :: "u64 list \<Rightarrow> bool" where
  "numbered ids \<longleftrightarrow> ids = map (\<lambda>k. of_nat (k + 1)) [0..<length ids]"

lemma numbered_Nil [simp]: "numbered []"
  by (simp add: numbered_def)

lemma numbered_snoc: "numbered ids \<Longrightarrow> numbered (ids @ [of_nat (length ids + 1)])"
  by (simp add: numbered_def)

lemma unat_of_nat_u64: "m < 2 ^ 64 \<Longrightarrow> unat (of_nat m :: u64) = m"
  by (simp add: unat_of_nat take_bit_nat_eq_self)

lemma numbered_unat:
  assumes "numbered ids" and "length ids < 2 ^ 64"
  shows "map unat ids = map (\<lambda>k. k + 1) [0..<length ids]"
proof -
  have "map unat ids = map (\<lambda>k. unat (of_nat (k + 1) :: u64)) [0..<length ids]"
    using assms(1) by (subst numbered_def [THEN iffD1, OF assms(1)]) simp
  also have "\<dots> = map (\<lambda>k. k + 1) [0..<length ids]"
    using assms(2) by (intro map_cong refl unat_of_nat_u64) simp
  finally show ?thesis .
qed

lemma numbered_fresh:
  assumes "numbered ids" and "length ids + 1 < 2 ^ 64"
  shows "of_nat (length ids + 1) \<notin> set ids"
proof
  assume "of_nat (length ids + 1) \<in> set ids"
  then have "unat (of_nat (length ids + 1) :: u64) \<in> set (map unat ids)" by (simp only: set_map image_eqI)
  with numbered_unat [OF assms(1)] unat_of_nat_u64 [OF assms(2)] assms(2) show False by auto
qed

lemma numbered_sorted:
  assumes "numbered ids" and "length ids < 2 ^ 64"
  shows "sorted ids" and "distinct ids"
proof -
  note u = numbered_unat [OF assms]
  have "sorted (map unat ids)" unfolding u by (simp add: sorted_iff_nth_mono)
  then show "sorted ids" by (simp add: sorted_map sorted_wrt_iff_nth_less sorted_iff_nth_mono_less word_le_nat_alt)
  have "distinct (map unat ids)" unfolding u by (simp add: distinct_map inj_on_def)
  then show "distinct ids" by (simp add: distinct_map)
qed

section \<open>Recovery by retrying\<close>

text \<open>
  A write that is safe to repeat. An attempt meets any failures and either leaves the tables alone or
  has the effect of a clean attempt; an attempt that failed cleanly changed nothing; after a success,
  repeating the request changes nothing and answers with the same result. The last two may need tables
  with some room left: \<open>ready\<close>.
\<close>

locale recoverable =
  fixes invar :: "'d \<Rightarrow> bool"
    and ready :: "'d \<Rightarrow> bool"
    and request_ok :: "'i \<Rightarrow> bool"
    and attempt :: "'d env \<Rightarrow> time \<Rightarrow> 'i \<Rightarrow> 'd \<Rightarrow> 'r result \<times> 'd"
    and same :: "'r \<Rightarrow> 'r \<Rightarrow> bool"
  assumes effect: "invar d \<Longrightarrow> request_ok i \<Longrightarrow> undisturbed env \<Longrightarrow>
      snd (attempt env now i d) = d \<or> snd (attempt env now i d) = snd (attempt quiet now i d)"
    and failed: "ready d \<Longrightarrow> request_ok i \<Longrightarrow> attempt quiet now i d = (Inl e, d') \<Longrightarrow> d' = d"
    and replayed: "ready d \<Longrightarrow> request_ok i \<Longrightarrow> attempt quiet now i d = (Inr x, d') \<Longrightarrow>
      \<exists>y. attempt quiet now' i d' = (Inr y, d') \<and> same x y"
    and keeps: "ready d \<Longrightarrow> request_ok i \<Longrightarrow> invar (snd (attempt quiet now i d))"
    and same_refl: "same x x"
    and ready_invar: "ready d \<Longrightarrow> invar d"
begin

text \<open>Any number of attempts amounts to none or to one clean one.\<close>

lemma attempts_effect:
  assumes "ready d" and "request_ok i" and "\<forall>(env, now) \<in> set tries. undisturbed env"
    and "d1 = foldl (\<lambda>d (env, now). snd (attempt env now i d)) d tries"
  shows "d1 = d \<or> (\<exists>(env, now) \<in> set tries. \<exists>x. attempt quiet now i d = (Inr x, d1))"
  using assms(3,4)
proof (induction tries arbitrary: d1 rule: rev_induct)
  case Nil
  then show ?case by simp
next
  case (snoc attempt1 tries)
  obtain env now where t: "attempt1 = (env, now)" by fastforce
  define d0 where "d0 = foldl (\<lambda>d (env, now). snd (attempt env now i d)) d tries"
  have un: "undisturbed env" and d1: "d1 = snd (attempt env now i d0)"
    using snoc.prems by (simp_all add: t d0_def)
  have IH: "d0 = d \<or> (\<exists>(env, now) \<in> set tries. \<exists>x. attempt quiet now i d = (Inr x, d0))"
    by (rule snoc.IH) (use snoc.prems d0_def in simp_all)
  show ?case
  proof (cases "d0 = d")
    case True
    then consider "d1 = d" | "d1 = snd (attempt quiet now i d)"
      using effect [OF ready_invar [OF assms(1)] assms(2) un] d1 by auto
    then show ?thesis
    proof cases
      case 2
      then show ?thesis
        using failed [OF assms(1,2), of now] by (cases "attempt quiet now i d"; cases "fst (attempt quiet now i d)") (auto simp: t)
    qed simp
  next
    case False
    with IH obtain now0 x where x: "(\<exists>env. (env, now0) \<in> set tries)" "attempt quiet now0 i d = (Inr x, d0)" by auto
    have inv: "invar d0" using keeps [OF assms(1,2), of now0] x(2) by simp
    have "snd (attempt quiet now i d0) = d0" using replayed [OF assms(1,2) x(2), of now] by auto
    with effect [OF inv assms(2) un, of now] d1 have "d1 = d0" by auto
    with x show ?thesis by auto
  qed
qed

text \<open>A clean retry after them leaves what one clean attempt leaves, and answers the same.\<close>

lemma retry_exactly_once:
  assumes "ready d" and "request_ok i" and "\<forall>(env, now) \<in> set tries. undisturbed env"
    and "d1 = foldl (\<lambda>d (env, now). snd (attempt env now i d)) d tries"
    and "attempt quiet now i d1 = (res, d2)"
  shows "\<exists>t \<in> insert now (snd ` set tries). d2 = snd (attempt quiet t i d) \<and>
    (\<forall>x. fst (attempt quiet t i d) = Inr x \<longrightarrow> (\<exists>y. res = Inr y \<and> same x y))"
proof (cases "d1 = d")
  case True
  with assms(5) show ?thesis using same_refl by (intro bexI [of _ now]) auto
next
  case False
  with attempts_effect [OF assms(1-4)] obtain env t x
    where x: "(env, t) \<in> set tries" "attempt quiet t i d = (Inr x, d1)" by auto
  obtain y where "attempt quiet now i d1 = (Inr y, d1)" "same x y"
    using replayed [OF assms(1,2) x(2)] by blast
  with x assms(5) show ?thesis by (intro bexI [of _ t]) force+
qed

end

end
