(* ===== verification/RpcPolicy.thy ===== *)
theory RpcPolicy
  imports Complex_Main Prelude
begin

text \<open>
  What every service shares for its remote calls (\<open>internal/platform/rpc\<close>): the outbound error gate
  \<open>StatusError\<close>, the classification of failures, and the client policy with its retries and its
  circuit breaker.
\<close>

section \<open>Errors at the boundary\<close>

text \<open>
  \<open>status.Code\<close> of the gRPC library is the argument \<open>sc\<close> of the definitions that call it; the
  statements rely on what the library documents: the code of a status error, and \<open>Unknown\<close> for an
  error that carries no status.
\<close>

definition status_code_ok :: "(goerr \<Rightarrow> code) \<Rightarrow> bool" where
  "status_code_ok sc \<longleftrightarrow> (\<forall>c m d. sc (Status c m d) = c) \<and> (\<forall>s. sc (Sentinel s) = Unknown) \<and>
     (\<forall>m e. sc (Wrapf m e) = sc e) \<and> (\<forall>e m. sc (Caused e m) = sc e) \<and> (\<forall>m. sc (Plain m) = Unknown) \<and>
     (\<forall>n. sc (MySQLError n) = Unknown) \<and> (\<forall>c d m e. sc (PublicError c d m e) = sc e)"

primrec demo_status_code :: "goerr \<Rightarrow> code" where
  "demo_status_code (Sentinel s) = Unknown"
| "demo_status_code (Wrapf m e) = demo_status_code e"
| "demo_status_code (Caused e m) = demo_status_code e"
| "demo_status_code (Plain m) = Unknown"
| "demo_status_code (MySQLError n) = Unknown"
| "demo_status_code (Status c m d) = c"
| "demo_status_code (PublicError c d m e) = demo_status_code e"

lemma demo_status_code_ok [simp]: "status_code_ok demo_status_code"
  by (simp add: status_code_ok_def)

definition NewPublicError :: "code \<Rightarrow> error_code \<Rightarrow> string \<Rightarrow> bool \<Rightarrow> goerr \<Rightarrow> goerr" where
  "NewPublicError grpcCode businessCode message retryable cause =
     PublicError grpcCode \<lparr>ed_Code = businessCode, ed_Retryable = retryable\<rparr> message cause"

text \<open>\<open>errors.As\<close> to \<open>*PublicError\<close>.\<close>

primrec errors_As_Public :: "goerr \<Rightarrow> (code \<times> error_detail \<times> string) option" where
  "errors_As_Public (Sentinel s) = None"
| "errors_As_Public (Wrapf m e) = errors_As_Public e"
| "errors_As_Public (Caused e m) = errors_As_Public e"
| "errors_As_Public (Plain m) = None"
| "errors_As_Public (MySQLError n) = None"
| "errors_As_Public (Status c m d) = None"
| "errors_As_Public (PublicError c d m e) = Some (c, d, m)"

text \<open>A detail that cannot be attached (\<open>attach\<close> is false) is left out.\<close>

definition StatusError :: "bool \<Rightarrow> goerr \<Rightarrow> goerr" where
  "StatusError attach err = (case errors_As_Public err of
       None \<Rightarrow> Status Internal ''internal service error'' None
     | Some (c, d, m) \<Rightarrow> Status c m (if attach then Some d else None))"

datatype FailureClass =
    FailureClassUnspecified | FailureClassBusiness | FailureClassCanceled
  | FailureClassDependencyTimeout | FailureClassDependencyUnavailable | FailureClassInternal

definition Classify :: "(goerr \<Rightarrow> code) \<Rightarrow> goerr option \<Rightarrow> FailureClass" where
  "Classify sc err = (case err of
       None \<Rightarrow> FailureClassUnspecified
     | Some e \<Rightarrow>
         if errors_Is e Context_Canceled \<or> sc e = Canceled then FailureClassCanceled
         else if sc e \<in> {InvalidArgument, NotFound, AlreadyExists, FailedPrecondition, Unauthenticated,
              PermissionDenied, ResourceExhausted} then FailureClassBusiness
         else if sc e = DeadlineExceeded then FailureClassDependencyTimeout
         else if sc e = Unavailable then FailureClassDependencyUnavailable
         else FailureClassInternal)"

text \<open>\<open>WithBudget\<close>: the deadline of the derived context is the earlier one.\<close>

definition WithBudget :: "time \<Rightarrow> time option \<Rightarrow> int \<Rightarrow> time result" where
  "WithBudget now parent limit =
     (if limit \<le> 0 then fail ErrInvalidBudget
      else Inr (case parent of None \<Rightarrow> now + limit | Some d \<Rightarrow> min d (now + limit)))"

section \<open>The policy\<close>

record PolicyConfig =
  MaxAttempts :: int
  BackoffBase :: int
  BackoffMax :: int
  JitterRatio :: rat
  BreakerFailures :: int
  BreakerOpenPeriod :: int

definition PolicyConfig_Validate :: "PolicyConfig \<Rightarrow> goerr option" where
  "PolicyConfig_Validate c =
     (if MaxAttempts c \<le> 0 \<or> BackoffBase c \<le> 0 \<or> BackoffMax c < BackoffBase c \<or> JitterRatio c < 0 \<or>
         1 < JitterRatio c \<or> BreakerFailures c \<le> 0 \<or> BreakerOpenPeriod c \<le> 0
      then Some (Plain ''invalid RPC retry/breaker policy'') else None)"

record breaker =
  consecutiveFailures :: int
  openedAt :: time
  halfOpenInFlight :: bool

definition closed_breaker :: breaker where
  "closed_breaker = \<lparr>consecutiveFailures = 0, openedAt = zero_time, halfOpenInFlight = False\<rparr>"

definition retryableClass :: "FailureClass \<Rightarrow> bool" where
  "retryableClass class \<longleftrightarrow> class = FailureClassDependencyTimeout \<or> class = FailureClassDependencyUnavailable"

definition allow :: "breaker \<Rightarrow> time \<Rightarrow> int \<Rightarrow> bool \<times> breaker" where
  "allow b now openPeriod =
     (if IsZero (openedAt b) then (True, b)
      else if now - openedAt b < openPeriod \<or> halfOpenInFlight b then (False, b)
      else (True, b\<lparr>halfOpenInFlight := True\<rparr>))"

definition record_call :: "breaker \<Rightarrow> FailureClass \<Rightarrow> time \<Rightarrow> int \<Rightarrow> breaker" where
  "record_call b class now threshold =
     (if retryableClass class then
        (let n = wrap_i64 (consecutiveFailures b + 1) in
         b\<lparr>halfOpenInFlight := False, consecutiveFailures := n,
           openedAt := (if threshold \<le> n then now else openedAt b)\<rparr>)
      else if class = FailureClassUnspecified \<or> class = FailureClassBusiness
      then b\<lparr>consecutiveFailures := 0, openedAt := zero_time, halfOpenInFlight := False\<rparr>
      else b)"

text \<open>
  The exponential part of \<open>backoff\<close>: \<open>n\<close> is the number of iterations the loop may still make, from
  \<open>step = 1\<close> below \<open>attempt\<close>. The floating-point jitter is computed with rationals, rounded towards
  zero as the conversion to a duration does.
\<close>

fun backoff_loop :: "PolicyConfig \<Rightarrow> nat \<Rightarrow> int \<Rightarrow> int" where
  "backoff_loop c 0 delay = delay"
| "backoff_loop c (Suc n) delay =
     (if delay < BackoffMax c
      then (let d = wrap_i64 (delay * 2) in backoff_loop c n (if BackoffMax c < d then BackoffMax c else d))
      else delay)"

definition trunc :: "rat \<Rightarrow> int" where
  "trunc x = (if x < 0 then - \<lfloor>- x\<rfloor> else \<lfloor>x\<rfloor>)"

definition backoff :: "PolicyConfig \<Rightarrow> time \<Rightarrow> int \<Rightarrow> int" where
  "backoff c now attempt =
     (let delay = backoff_loop c (nat (attempt - 1)) (BackoffBase c) in
      if JitterRatio c = 0 then delay
      else (let span = of_int delay * JitterRatio c;
                fraction = of_int (now - 10000 * go_div now 10000) / 10000
            in trunc (of_int delay - span + 2 * span * fraction)))"

text \<open>
  What a call of \<open>Do\<close> meets at each attempt: the error of its context before the attempt, the two
  clock readings of the breaker, and the error that ended the wait after it, if the context ended.
\<close>

record attempt_env =
  ae_ctx :: "goerr option"
  ae_allow_at :: time
  ae_record_at :: time
  ae_wait :: "goerr option"

text \<open>
  The loop of \<open>Do\<close> with \<open>n\<close> attempts left. The remote call acts on the state \<open>'w\<close> of the services. The
  wait's length, \<open>backoff\<close>, is bounded by the context and not part of the result.
\<close>

fun do_loop :: "(goerr \<Rightarrow> code) \<Rightarrow> PolicyConfig \<Rightarrow> (nat \<Rightarrow> attempt_env) \<Rightarrow> ('w \<Rightarrow> goerr option \<times> 'w) \<Rightarrow> nat \<Rightarrow> nat \<Rightarrow>
    breaker \<times> 'w \<Rightarrow> goerr option \<times> breaker \<times> 'w" where
  "do_loop sc c env rpc k 0 (b, w) = (None, b, w)"
| "do_loop sc c env rpc k (Suc n) (b, w) =
     (case ae_ctx (env k) of
        Some e \<Rightarrow> (Some e, b, w)
      | None \<Rightarrow>
          (case allow b (ae_allow_at (env k)) (BreakerOpenPeriod c) of
             (False, b1) \<Rightarrow> (Some (Status Unavailable ''rpc circuit open'' None), b1, w)
           | (True, b1) \<Rightarrow>
               (case rpc w of (lastErr, w1) \<Rightarrow>
                  (let class = Classify sc lastErr;
                       b2 = record_call b1 class (ae_record_at (env k)) (BreakerFailures c)
                   in if lastErr = None \<or> \<not> retryableClass class \<or> n = 0 then (lastErr, b2, w1)
                      else (case ae_wait (env k) of
                          Some e \<Rightarrow> (Some e, b2, w1)
                        | None \<Rightarrow> do_loop sc c env rpc (k + 1) n (b2, w1))))))"

definition Do :: "(goerr \<Rightarrow> code) \<Rightarrow> PolicyConfig \<Rightarrow> (nat \<Rightarrow> attempt_env) \<Rightarrow> bool \<Rightarrow> ('w \<Rightarrow> goerr option \<times> 'w) \<Rightarrow>
    breaker \<times> 'w \<Rightarrow> goerr option \<times> breaker \<times> 'w" where
  "Do sc c env idempotent rpc s =
     do_loop sc c env rpc 0 (if idempotent then nat (MaxAttempts c) else 1) s"

section \<open>How often a call is executed\<close>

lemma do_loop_executions:
  "\<exists>j \<le> n. snd (snd (do_loop sc c env rpc k n (b, w))) = ((\<lambda>w. snd (rpc w)) ^^ j) w"
proof (induction n arbitrary: k b w)
  case 0
  then show ?case by simp
next
  case (Suc n)
  obtain lastErr w1 where r: "rpc w = (lastErr, w1)" by fastforce
  obtain ok b1 where a: "allow b (ae_allow_at (env k)) (BreakerOpenPeriod c) = (ok, b1)" by fastforce
  let ?b2 = "record_call b1 (Classify sc lastErr) (ae_record_at (env k)) (BreakerFailures c)"
  obtain j where j: "j \<le> n" "snd (snd (do_loop sc c env rpc (k + 1) n (?b2, w1))) = ((\<lambda>w. snd (rpc w)) ^^ j) w1"
    using Suc.IH by blast
  have more: "((\<lambda>w. snd (rpc w)) ^^ Suc j) w = ((\<lambda>w. snd (rpc w)) ^^ j) w1"
    using r funpow_swap1 [of "\<lambda>w. snd (rpc w)" j w] by simp
  have zero: "\<exists>j \<le> Suc n. w = ((\<lambda>w. snd (rpc w)) ^^ j) w" by (rule exI [of _ 0]) simp
  have one: "\<exists>j \<le> Suc n. w1 = ((\<lambda>w. snd (rpc w)) ^^ j) w" using r by (intro exI [of _ 1]) simp
  have many: "\<exists>i \<le> Suc n. snd (snd (do_loop sc c env rpc (k + 1) n (?b2, w1))) = ((\<lambda>w. snd (rpc w)) ^^ i) w"
    using j more by (intro exI [of _ "Suc j"]) simp
  show ?case
    using zero one many r a by (cases ok; cases "ae_ctx (env k)"; cases "ae_wait (env k)") (simp_all add: Let_def)
qed

section \<open>The breaker\<close>

lemma allow_open: "\<not> IsZero (openedAt b) \<Longrightarrow> now - openedAt b < period \<Longrightarrow> allow b now period = (False, b)"
  by (simp add: allow_def)

text \<open>A breaker whose probe is in flight lets nothing through, and only the end of a call changes that.\<close>

definition stuck :: "breaker \<Rightarrow> bool" where
  "stuck b \<longleftrightarrow> \<not> IsZero (openedAt b) \<and> halfOpenInFlight b"

lemma stuck_allow: "stuck b \<Longrightarrow> allow b now period = (False, b)"
  by (simp add: stuck_def allow_def)

lemma record_call_failures:
  assumes "retryableClass class" and "in_i64 (consecutiveFailures b + 1)"
  shows "consecutiveFailures (record_call b class now t) = consecutiveFailures b + 1"
    and "t \<le> consecutiveFailures b + 1 \<Longrightarrow> openedAt (record_call b class now t) = now"
    and "\<not> halfOpenInFlight (record_call b class now t)"
  using assms by (simp_all add: record_call_def Let_def)

text \<open>As many dependency failures in a row as the threshold leave the breaker open since the last.\<close>

lemma failures_open:
  assumes "in_i64 t"
  shows "int (length es) \<le> t \<Longrightarrow> \<forall>e \<in> set es. retryableClass (fst e) \<Longrightarrow>
      consecutiveFailures (foldl (\<lambda>b e. record_call b (fst e) (snd e) t) closed_breaker es) = int (length es) \<and>
      (int (length es) = t \<longrightarrow> es \<noteq> [] \<longrightarrow>
        openedAt (foldl (\<lambda>b e. record_call b (fst e) (snd e) t) closed_breaker es) = snd (last es))"
proof (induction es rule: rev_induct)
  case Nil
  then show ?case by (simp add: closed_breaker_def)
next
  case (snoc e es)
  let ?b = "foldl (\<lambda>b e. record_call b (fst e) (snd e) t) closed_breaker es"
  have cf: "consecutiveFailures ?b = int (length es)" using snoc by simp
  have "in_i64 (consecutiveFailures ?b + 1)" using cf snoc.prems(1) assms by (simp add: in_i64_def max_i64_def)
  with record_call_failures [of "fst e" ?b] snoc.prems cf show ?case by (auto simp: add.commute)
qed

text \<open>A call that the breaker refuses does not reach the dependency.\<close>

lemma Do_refused:
  assumes "ae_ctx (env 0) = None" and "allow b (ae_allow_at (env 0)) (BreakerOpenPeriod c) = (False, b)"
    and "idempotent \<Longrightarrow> 0 < MaxAttempts c"
  shows "Do sc c env idempotent rpc (b, w) = (Some (Status Unavailable ''rpc circuit open'' None), b, w)"
proof -
  have "do_loop sc c env rpc 0 (Suc n) (b, w) = (Some (Status Unavailable ''rpc circuit open'' None), b, w)" for n
    using assms(1,2) by simp
  moreover have "\<exists>n. (if idempotent then nat (MaxAttempts c) else 1) = Suc n"
    using assms(3) by (cases "nat (MaxAttempts c)") auto
  ultimately show ?thesis unfolding Do_def by auto
qed

section \<open>Calls in flight\<close>

text \<open>
  The breaker is shared by the calls of a process. Its lock makes \<open>allow\<close> and \<open>record_call\<close> atomic, so that a
  history of the policy is a sequence of these events: a call is admitted, a call is refused, or a call in flight
  ends with a class. The state is the breaker with the number of calls in flight; any of them may end at any time.
\<close>

datatype policy_event = Admitted time | Refused time | Ended FailureClass time

inductive policy_step :: "PolicyConfig \<Rightarrow> breaker \<times> nat \<Rightarrow> policy_event \<Rightarrow> breaker \<times> nat \<Rightarrow> bool" for c where
  admitted: "allow b now (BreakerOpenPeriod c) = (True, b') \<Longrightarrow> policy_step c (b, n) (Admitted now) (b', Suc n)"
| refused: "allow b now (BreakerOpenPeriod c) = (False, b') \<Longrightarrow> policy_step c (b, n) (Refused now) (b', n)"
| ended: "policy_step c (b, Suc n) (Ended class now) (record_call b class now (BreakerFailures c), n)"

inductive policy_run :: "PolicyConfig \<Rightarrow> breaker \<times> nat \<Rightarrow> policy_event list \<Rightarrow> breaker \<times> nat \<Rightarrow> bool" for c where
  stop: "policy_run c s [] s"
| go: "policy_step c s e t \<Longrightarrow> policy_run c t es u \<Longrightarrow> policy_run c s (e # es) u"

inductive_simps policy_step_simps: "policy_step c (b, n) (Admitted now) s" "policy_step c (b, n) (Refused now) s"
  "policy_step c (b, n) (Ended class now) s"
inductive_simps policy_run_simps: "policy_run c s [] t" "policy_run c s (e # es) t"
inductive_cases policy_stepE: "policy_step c (b, n) e s"

code_pred policy_run .

text \<open>A call of \<open>Do\<close> is such a history of its attempts, whatever else is in flight.\<close>

lemma do_loop_run: "\<exists>es. policy_run c (b, n) es (fst (snd (do_loop sc c env rpc k m (b, w))), n)"
proof (induction m arbitrary: k b w)
  case 0
  then show ?case by (auto intro: stop)
next
  case (Suc m)
  obtain lastErr w1 where r: "rpc w = (lastErr, w1)" by fastforce
  obtain ok b1 where a: "allow b (ae_allow_at (env k)) (BreakerOpenPeriod c) = (ok, b1)" by fastforce
  let ?cls = "Classify sc lastErr"
  let ?b2 = "record_call b1 ?cls (ae_record_at (env k)) (BreakerFailures c)"
  have zero: "\<exists>es. policy_run c (b, n) es (b, n)" using stop by blast
  have once: "\<not> ok \<Longrightarrow> \<exists>es. policy_run c (b, n) es (b1, n)" using go [OF refused stop, of b _ c b1 n] a
    by (intro exI [of _ "[Refused (ae_allow_at (env k))]"]) simp
  have onward: "ok \<Longrightarrow> policy_run c (?b2, n) es s \<Longrightarrow>
      policy_run c (b, n) (Admitted (ae_allow_at (env k)) # Ended ?cls (ae_record_at (env k)) # es) s" for es s
    using a by (intro go [OF admitted go [OF ended]]) auto
  have more: "ok \<Longrightarrow> \<exists>es. policy_run c (b, n) es (fst (snd (do_loop sc c env rpc (k + 1) m (?b2, w1))), n)"
    and last: "ok \<Longrightarrow> \<exists>es. policy_run c (b, n) es (?b2, n)"
    using Suc.IH [of ?b2 "k + 1" w1] onward stop by blast+
  show ?case
    using zero once more last r a by (cases ok; cases "ae_ctx (env k)"; cases "ae_wait (env k)") (simp_all add: Let_def)
qed

lemma Do_run: "\<exists>es. policy_run c (b, n) es (fst (snd (Do sc c env idempotent rpc (b, w))), n)"
  unfolding Do_def by (rule do_loop_run)

text \<open>Ends that the breaker does not count: the caller gave up, or an internal error.\<close>

definition unrecorded :: "policy_event list \<Rightarrow> bool" where
  "unrecorded es \<longleftrightarrow> (\<forall>class now. Ended class now \<in> set es \<longrightarrow> class \<in> {FailureClassCanceled, FailureClassInternal})"

lemma record_call_unrecorded:
  "class \<in> {FailureClassCanceled, FailureClassInternal} \<Longrightarrow> record_call b class now t = b"
  by (auto simp: record_call_def retryableClass_def)

lemma stuck_step:
  assumes "policy_step c (b, n) e s" and "stuck b" and "unrecorded [e]"
  shows "fst s = b \<and> (\<forall>now. e \<noteq> Admitted now)"
  using assms stuck_allow [OF assms(2)] record_call_unrecorded
  by (cases e; cases s) (auto simp: policy_step_simps unrecorded_def)

text \<open>While only such ends are recorded, a stuck breaker stays as it is and admits nobody.\<close>

lemma stuck_run:
  "policy_run c (b, n) es s \<Longrightarrow> stuck b \<Longrightarrow> unrecorded es \<Longrightarrow> fst s = b \<and> (\<forall>now. Admitted now \<notin> set es)"
proof (induction "(b, n)" es s arbitrary: n rule: policy_run.induct)
  case (go e t es u)
  have t: "fst t = b" "\<forall>now. e \<noteq> Admitted now"
    using stuck_step [OF go(1) go(4)] go(5) by (auto simp: unrecorded_def)
  moreover have "unrecorded es" using go(5) by (simp add: unrecorded_def)
  ultimately show ?case using go(3) [of "snd t"] go(4) by (cases t) auto
qed simp

text \<open>With nobody in flight there is nothing but refusals, for ever.\<close>

lemma stuck_idle:
  "policy_run c (b, 0) es s \<Longrightarrow> stuck b \<Longrightarrow> \<forall>ev \<in> set es. \<exists>now. ev = Refused now"
proof (induction "(b, 0 :: nat)" es s rule: policy_run.induct)
  case (go e t es u)
  from go(1) obtain now where "e = Refused now" "t = (b, 0)"
    by (cases rule: policy_stepE) (use stuck_allow [OF go(4)] in auto)
  then show ?case using go(3,4) by simp
qed simp

section \<open>The delay between attempts\<close>

lemma backoff_loop_exact:
  assumes "BackoffMax c \<le> 4611686018427387904"
  shows "0 < delay \<Longrightarrow> delay \<le> BackoffMax c \<Longrightarrow> backoff_loop c n delay = min (delay * 2 ^ n) (BackoffMax c)"
proof (induction n arbitrary: delay)
  case 0
  then show ?case by simp
next
  case (Suc n)
  show ?case
  proof (cases "delay < BackoffMax c")
    case True
    then have "wrap_i64 (delay * 2) = delay * 2"
      using Suc.prems assms by (intro wrap_i64_id) (simp add: in_i64_def max_i64_def)
    then have step: "backoff_loop c (Suc n) delay = backoff_loop c n (min (delay * 2) (BackoffMax c))"
      using True by (simp add: Let_def min_def)
    also have "\<dots> = min (min (delay * 2) (BackoffMax c) * 2 ^ n) (BackoffMax c)"
      using Suc.prems by (intro Suc.IH) auto
    also have "\<dots> = min (delay * 2 ^ Suc n) (BackoffMax c)"
    proof (cases "delay * 2 \<le> BackoffMax c")
      case True
      then show ?thesis by (simp add: mult.assoc)
    next
      case False
      have "(1::int) \<le> 2 ^ n" by simp
      then have "BackoffMax c \<le> BackoffMax c * 2 ^ n" "delay * 2 \<le> delay * 2 * 2 ^ n"
        using Suc.prems by (simp_all add: mult_le_cancel_left1)
      with False show ?thesis by (simp add: min_def mult.assoc)
    qed
    finally show ?thesis .
  next
    case False
    have "(1::int) \<le> 2 ^ Suc n" by (rule one_le_power) simp
    then have "delay \<le> delay * 2 ^ Suc n" using Suc.prems by (simp add: mult_le_cancel_left1)
    with False Suc.prems show ?thesis by (simp add: min_def)
  qed
qed

section \<open>Properties of the policy\<close>

text \<open>A call is executed a bounded number of times, whatever it answers and whatever the context
  and the clocks do: at most \<open>MaxAttempts\<close> times when it is declared idempotent, at most once when it
  is not.\<close>

theorem Do_executions:
  "\<exists>j. j \<le> (if idempotent then nat (MaxAttempts c) else 1) \<and>
     snd (snd (Do sc c env idempotent rpc (b, w))) = ((\<lambda>w. snd (rpc w)) ^^ j) w"
  unfolding Do_def by (rule do_loop_executions)

text \<open>The breaker opens: once as many dependency failures in a row as the threshold have been
  recorded, every call within the open period is refused without reaching the dependency.\<close>

theorem breaker_opens:
  assumes "\<forall>e \<in> set es. retryableClass (fst e)" and "length es = nat t" and "0 < t" and "in_i64 t"
    and "b = foldl (\<lambda>b e. record_call b (fst e) (snd e) t) closed_breaker es"
    and "\<not> IsZero (snd (last es))"
    and "ae_ctx (env 0) = None" and "ae_allow_at (env 0) - snd (last es) < BreakerOpenPeriod c"
    and "idempotent \<Longrightarrow> 0 < MaxAttempts c"
  shows "Do sc c env idempotent rpc (b, w) = (Some (Status Unavailable ''rpc circuit open'' None), b, w)"
proof -
  have "openedAt b = snd (last es)" using failures_open [OF assms(4), of es] assms(1-5) by auto
  with assms(6,8) have "allow b (ae_allow_at (env 0)) (BreakerOpenPeriod c) = (False, b)" by (simp add: allow_open)
  then show ?thesis by (rule Do_refused [of env, OF assms(7) _ assms(9)])
qed

theorem breaker_opens_witness:
  "Do demo_status_code
     \<lparr>MaxAttempts = 3, BackoffBase = 1, BackoffMax = 4, JitterRatio = 0, BreakerFailures = 2, BreakerOpenPeriod = 100\<rparr>
     (\<lambda>_. \<lparr>ae_ctx = None, ae_allow_at = 50, ae_record_at = 60, ae_wait = None\<rparr>) True (\<lambda>w. (None, w + 1))
     (foldl (\<lambda>b e. record_call b (fst e) (snd e) 2) closed_breaker
        [(FailureClassDependencyTimeout, 10), (FailureClassDependencyUnavailable, 20)], 0 :: nat)
   = (Some (Status Unavailable ''rpc circuit open'' None),
      foldl (\<lambda>b e. record_call b (fst e) (snd e) 2) closed_breaker
        [(FailureClassDependencyTimeout, 10), (FailureClassDependencyUnavailable, 20)], 0)"
  by (rule breaker_opens [OF _ _ _ _ refl])
    (simp_all add: retryableClass_def IsZero_def zero_time_def in_i64_def max_i64_def)

text \<open>C28: a probe whose caller gives up blocks the breaker for good. Take the call that an open breaker
  lets through as its probe, idempotent or not, and let it end as canceled or as an internal error. From its
  admission on, whatever other calls are in flight and in whatever order they ask and end, no call reaches the
  dependency as long as those that end do so as canceled or with internal errors: each is answered that the
  circuit is open. As soon as no call is in flight any more this can never change again, at any later time.
  Only a call that was admitted before the breaker opened and ends later with an answer or a failure of the
  dependency can release the breaker.\<close>

theorem canceled_probe_blocks_forever:
  assumes "\<not> IsZero (openedAt b)" and "ae_ctx (env 0) = None"
    and "allow b (ae_allow_at (env 0)) (BreakerOpenPeriod c) = (True, b1)"
    and "rpc w = (Some e, w1)" and "Classify sc (Some e) \<in> {FailureClassCanceled, FailureClassInternal}"
    and "idempotent \<Longrightarrow> 0 < MaxAttempts c"
  shows "Do sc c env idempotent rpc (b, w) = (Some e, b1, w1) \<and>
    (\<forall>n es s. policy_run c (b1, n) es s \<and> unrecorded es \<longrightarrow>
       (\<forall>now. Admitted now \<notin> set es) \<and>
       (\<forall>env' idempotent' rpc' (w' :: 'v). ae_ctx (env' 0) = None \<and> (idempotent' \<longrightarrow> 0 < MaxAttempts c) \<longrightarrow>
          Do sc c env' idempotent' rpc' (fst s, w') = (Some (Status Unavailable ''rpc circuit open'' None), fst s, w')) \<and>
       (snd s = 0 \<longrightarrow> (\<forall>es' s'. policy_run c s es' s' \<longrightarrow> (\<forall>ev \<in> set es'. \<exists>now. ev = Refused now))))"
proof (intro conjI allI impI)
  from assms(1,3) have b1: "b1 = b\<lparr>halfOpenInFlight := True\<rparr>" by (auto simp: allow_def split: if_splits)
  then have stuck: "stuck b1" using assms(1) by (simp add: stuck_def)
  have r: "record_call b1 (Classify sc (Some e)) tm t = b1" for tm t by (rule record_call_unrecorded [OF assms(5)])
  have "\<not> retryableClass (Classify sc (Some e))" using assms(5) by (auto simp: retryableClass_def)
  then have "do_loop sc c env rpc 0 (Suc k) (b, w) = (Some e, b1, w1)" for k using assms(2-4) by (simp add: r)
  moreover have "\<exists>k. (if idempotent then nat (MaxAttempts c) else 1) = Suc k"
    using assms(6) by (cases "nat (MaxAttempts c)") auto
  ultimately show "Do sc c env idempotent rpc (b, w) = (Some e, b1, w1)" unfolding Do_def by auto
  fix n es s
  assume run: "policy_run c (b1, n) es s \<and> unrecorded es"
  then have s: "fst s = b1" "\<forall>now. Admitted now \<notin> set es" using stuck_run [of c b1 n es s] stuck by auto
  then show "Admitted now \<notin> set es" for now by simp
  show "Do sc c env' idempotent' rpc' (fst s, w') = (Some (Status Unavailable ''rpc circuit open'' None), fst s, w')"
    if "ae_ctx (env' 0) = None \<and> (idempotent' \<longrightarrow> 0 < MaxAttempts c)"
    for env' idempotent' and rpc' :: "'v \<Rightarrow> goerr option \<times> 'v" and w'
    using that s(1) stuck by (intro Do_refused stuck_allow) auto
  show "\<forall>ev \<in> set es'. \<exists>now. ev = Refused now" if "snd s = 0" "policy_run c s es' s'" for es' s'
    using stuck_idle [of c b1 es' s'] stuck s(1) that by (cases s) auto
qed

theorem canceled_probe_blocks_forever_witness:
  "let c = \<lparr>MaxAttempts = 3, BackoffBase = 1, BackoffMax = 4, JitterRatio = 0, BreakerFailures = 2, BreakerOpenPeriod = 100\<rparr>;
       b1 = \<lparr>consecutiveFailures = 2, openedAt = 20, halfOpenInFlight = True\<rparr>
   in Do demo_status_code c (\<lambda>_. \<lparr>ae_ctx = None, ae_allow_at = 200, ae_record_at = 210, ae_wait = None\<rparr>) True
        (\<lambda>w. (Some (Sentinel Context_Canceled), w)) (b1\<lparr>halfOpenInFlight := False\<rparr>, ()) = (Some (Sentinel Context_Canceled), b1, ())
      \<and> policy_run c (b1, 2) [Refused 205, Ended FailureClassCanceled 210, Ended FailureClassInternal 220] (b1, 0)
      \<and> (\<forall>es s. policy_run c (b1, 0) es s \<longrightarrow> (\<forall>ev \<in> set es. \<exists>now. ev = Refused now))
      \<and> Do demo_status_code c (\<lambda>_. \<lparr>ae_ctx = None, ae_allow_at = 1000000, ae_record_at = 1000000, ae_wait = None\<rparr>) True
        (\<lambda>w. (None, w)) (b1, ()) = (Some (Status Unavailable ''rpc circuit open'' None), b1, ())"
proof -
  let ?c = "\<lparr>MaxAttempts = 3, BackoffBase = 1, BackoffMax = 4, JitterRatio = 0, BreakerFailures = 2, BreakerOpenPeriod = 100\<rparr>"
  let ?b1 = "\<lparr>consecutiveFailures = 2, openedAt = 20, halfOpenInFlight = True\<rparr> :: breaker"
  let ?es = "[Refused 205, Ended FailureClassCanceled 210, Ended FailureClassInternal 220]"
  have run: "policy_run ?c (?b1, 2) ?es (?b1, 0)"
    by (simp add: policy_run_simps policy_step_simps allow_def record_call_def retryableClass_def numeral_2_eq_2
        IsZero_def zero_time_def)
  have "unrecorded ?es" by (simp add: unrecorded_def)
  with canceled_probe_blocks_forever [of "?b1\<lparr>halfOpenInFlight := False\<rparr>"
      "\<lambda>_. \<lparr>ae_ctx = None, ae_allow_at = 200, ae_record_at = 210, ae_wait = None\<rparr>" ?c ?b1
      "\<lambda>w. (Some (Sentinel Context_Canceled), w)" "()" "Sentinel Context_Canceled" "()" demo_status_code True, where 'v = unit] run
  show ?thesis unfolding Let_def
    by (simp add: allow_def IsZero_def zero_time_def Classify_def)
qed

text \<open>Without jitter the delay after attempt \<open>n\<close> is the base doubled \<open>n - 1\<close> times, capped, for
  every configured maximum up to \<open>2^62\<close> nanoseconds.\<close>

theorem backoff_exact:
  assumes "PolicyConfig_Validate c = None" and "JitterRatio c = 0" and "BackoffMax c \<le> 2 ^ 62" and "1 \<le> n"
  shows "backoff c now n = min (BackoffBase c * 2 ^ nat (n - 1)) (BackoffMax c)"
  using assms backoff_loop_exact [of c "BackoffBase c" "nat (n - 1)"]
  by (simp add: backoff_def PolicyConfig_Validate_def split: if_splits)

theorem backoff_exact_witness:
  "backoff \<lparr>MaxAttempts = 9, BackoffBase = 50, BackoffMax = 1000, JitterRatio = 0, BreakerFailures = 2, BreakerOpenPeriod = 100\<rparr> 7 4 = 400"
  by (subst backoff_exact) (simp_all add: PolicyConfig_Validate_def)

end
