(* ===== verification/Inventory.thy ===== *)
theory Inventory
  imports Sql Domain RpcPolicy
begin

text \<open>
  The inventory service: the tables \<open>seckill_items\<close> and \<open>seckill_inventory_reservations\<close>
  (\<open>migrations/000006\<close>, \<open>000008\<close>), the repositories on them
  (\<open>internal/seckill/mysqlrepo/reservation.go\<close>, \<open>item.go\<close>), the services
  (\<open>internal/seckill/inventory.go\<close>, \<open>inventory_item.go\<close>) and the RPC server
  (\<open>internal/seckill/inventoryrpc\<close>).
\<close>

section \<open>Tables\<close>

record reservation_row =
  rw_id :: u64
  rw_order_no :: string
  rw_activity_id :: u64
  rw_seckill_item_id :: u64
  rw_user_id :: u64
  rw_product_name :: string
  rw_sku_code :: string
  rw_sku_name :: string
  rw_unit_price_cent :: int
  rw_reserved_at :: time
  rw_created_at :: time

record inventory_db =
  inv_items :: "InventoryItem list"
  inv_reservations :: "reservation_row list"

definition next_item_id :: "inventory_db \<Rightarrow> u64" where
  "next_item_id d = of_nat (length (inv_items d) + 1)"

definition next_reservation_id :: "inventory_db \<Rightarrow> u64" where
  "next_reservation_id d = of_nat (length (inv_reservations d) + 1)"

section \<open>Items\<close>

definition mapConflict :: "string \<Rightarrow> goerr \<Rightarrow> goerr" where
  "mapConflict operation err = (if isDuplicateKey err then Sentinel ErrConflict else Wrapf operation err)"

definition insert_item :: "InventoryItem \<Rightarrow> inventory_db \<Rightarrow> u64 result \<times> inventory_db" where
  "insert_item row d =
     (if \<exists>i \<in> set (inv_items d). it_ActivityID i = it_ActivityID row \<and> fs_SKUID (it_Snapshot i) = fs_SKUID (it_Snapshot row)
      then (Inl (MySQLError ER_DUP_ENTRY), d)
      else if it_InitialStock row < 0 \<or> it_AvailableStock row < 0 \<or> it_InitialStock row < it_AvailableStock row \<or>
        fs_UnitPriceCent (it_Snapshot row) < 0
      then (Inl (MySQLError ER_CHECK_CONSTRAINT_VIOLATED), d)
      else (Inr (next_item_id d), d\<lparr>inv_items := inv_items d @ [row\<lparr>it_ID := next_item_id d, it_Version := 0\<rparr>]\<rparr>))"

definition CreateInventoryItem ::
  "inventory_db step_env \<Rightarrow> time \<Rightarrow> CreateInventoryItemInput \<Rightarrow> FrozenSKUSnapshot \<Rightarrow> inventory_db \<Rightarrow>
     InventoryItem result \<times> inventory_db" where
  "CreateInventoryItem c now input snapshot d =
     (let createdAt = Truncate now microsecond;
          row = \<lparr>it_ID = 0, it_ActivityID = ci_ActivityID input, it_Snapshot = snapshot, it_InitialStock = ci_Stock input,
            it_AvailableStock = ci_Stock input, it_Version = 0, it_CreatedAt = createdAt\<rparr>
      in case call c (insert_item row) d of
           (Inl err, d') \<Rightarrow> (Inl (mapConflict ''insert inventory item'' err), d')
         | (Inr i, d') \<Rightarrow> (Inr (row\<lparr>it_ID := i\<rparr>), d'))"

definition ListActivityItems :: "inventory_db step_env \<Rightarrow> u64 \<Rightarrow> inventory_db \<Rightarrow> InventoryItem list result \<times> inventory_db" where
  "ListActivityItems c activityID d =
     (case read_db c (\<lambda>d. sort_key it_ID (filter (\<lambda>i. it_ActivityID i = activityID) (inv_items d))) d of
        (Inl e, d') \<Rightarrow> (Inl (Wrapf ''list inventory activity items'' e), d')
      | (Inr rows, d') \<Rightarrow> (Inr rows, d'))"

section \<open>Reservations\<close>

definition insert_reservation :: "reservation_row \<Rightarrow> inventory_db \<Rightarrow> u64 result \<times> inventory_db" where
  "insert_reservation row d =
     (if \<exists>x \<in> set (inv_reservations d). rw_order_no x = rw_order_no row \<or>
         (rw_activity_id x = rw_activity_id row \<and> rw_seckill_item_id x = rw_seckill_item_id row \<and>
          rw_user_id x = rw_user_id row)
      then (Inl (MySQLError ER_DUP_ENTRY), d)
      else if rw_unit_price_cent row < 0 then (Inl (MySQLError ER_CHECK_CONSTRAINT_VIOLATED), d)
      else if \<forall>i \<in> set (inv_items d). it_ID i \<noteq> rw_seckill_item_id row
      then (Inl (MySQLError ER_NO_REFERENCED_ROW), d)
      else (Inr (next_reservation_id d),
            d\<lparr>inv_reservations := inv_reservations d @ [row\<lparr>rw_id := next_reservation_id d\<rparr>]\<rparr>))"

text \<open>The \<open>UPDATE\<close> that takes one unit, with the number of rows it changed.\<close>

definition takes_unit :: "u64 \<Rightarrow> u64 \<Rightarrow> InventoryItem \<Rightarrow> bool" where
  "takes_unit itemID activityID i \<longleftrightarrow> it_ID i = itemID \<and> it_ActivityID i = activityID \<and> 0 < it_AvailableStock i"

definition decrement_stock :: "u64 \<Rightarrow> u64 \<Rightarrow> inventory_db \<Rightarrow> nat \<times> inventory_db" where
  "decrement_stock itemID activityID d =
     (length (filter (takes_unit itemID activityID) (inv_items d)),
      d\<lparr>inv_items := map (\<lambda>i. if takes_unit itemID activityID i
          then i\<lparr>it_AvailableStock := it_AvailableStock i - 1, it_Version := it_Version i + 1\<rparr> else i) (inv_items d)\<rparr>)"

text \<open>The body of the transaction in \<open>reserveOnce\<close>.\<close>

definition reserve_tx ::
  "time \<Rightarrow> InventoryReservationInput \<Rightarrow> inventory_db \<Rightarrow> InventoryReservation result \<times> inventory_db" where
  "reserve_tx now input d =
     (case find (\<lambda>i. it_ID i = iri_ItemID input \<and> it_ActivityID i = iri_ActivityID input) (inv_items d) of
        None \<Rightarrow> (fail ErrItemNotFound, d)
      | Some item \<Rightarrow>
          (let snapshot = it_Snapshot item; (rows, d1) = decrement_stock (iri_ItemID input) (iri_ActivityID input) d in
           if rows = 0 then (fail ErrOutOfStock, d1)
           else (case insert_reservation
               \<lparr>rw_id = 0, rw_order_no = iri_OrderNo input, rw_activity_id = iri_ActivityID input,
                rw_seckill_item_id = iri_ItemID input, rw_user_id = iri_UserID input,
                rw_product_name = fs_ProductName snapshot, rw_sku_code = fs_SKUCode snapshot,
                rw_sku_name = fs_SKUName snapshot, rw_unit_price_cent = fs_UnitPriceCent snapshot,
                rw_reserved_at = iri_ReservedAt input, rw_created_at = Truncate now microsecond\<rparr> d1 of
               (Inl e, d2) \<Rightarrow> (Inl e, d2)
             | (Inr i, d2) \<Rightarrow>
                 (Inr \<lparr>ir_ID = i, ir_OrderNo = iri_OrderNo input, ir_ActivityID = iri_ActivityID input,
                    ir_ItemID = iri_ItemID input, ir_UserID = iri_UserID input, ir_Snapshot = snapshot,
                    ir_ReservedAt = iri_ReservedAt input, ir_Replayed = False\<rparr>, d2))))"

definition reserveOnce ::
  "inventory_db step_env \<Rightarrow> time \<Rightarrow> InventoryReservationInput \<Rightarrow> inventory_db \<Rightarrow> InventoryReservation result \<times> inventory_db" where
  "reserveOnce c now input = atomically c (reserve_tx now input)"

text \<open>
  \<open>findOne\<close>: the row a condition selects, then the SKU of its item; the two queries are calls \<open>k\<close> and
  \<open>k + 1\<close> of the environment.
\<close>

definition load_reservation :: "reservation_row \<Rightarrow> u64 \<Rightarrow> InventoryReservation" where
  "load_reservation x sku =
     \<lparr>ir_ID = rw_id x, ir_OrderNo = rw_order_no x, ir_ActivityID = rw_activity_id x, ir_ItemID = rw_seckill_item_id x,
      ir_UserID = rw_user_id x,
      ir_Snapshot = \<lparr>fs_SKUID = sku, fs_ProductName = rw_product_name x, fs_SKUCode = rw_sku_code x,
        fs_SKUName = rw_sku_name x, fs_UnitPriceCent = rw_unit_price_cent x\<rparr>,
      ir_ReservedAt = Truncate (rw_reserved_at x) millisecond, ir_Replayed = False\<rparr>"

definition findOne ::
  "inventory_db env \<Rightarrow> nat \<Rightarrow> (reservation_row \<Rightarrow> bool) \<Rightarrow> inventory_db \<Rightarrow> InventoryReservation option result \<times> inventory_db" where
  "findOne env k cond d =
     (case read_db (env k) (\<lambda>d. find cond (inv_reservations d)) d of
        (Inl e, d1) \<Rightarrow> (Inl (Wrapf ''find inventory reservation'' e), d1)
      | (Inr None, d1) \<Rightarrow> (Inr None, d1)
      | (Inr (Some x), d1) \<Rightarrow>
          (case read_db (env (k + 1)) (\<lambda>d. find (\<lambda>i. it_ID i = rw_seckill_item_id x) (inv_items d)) d1 of
             (Inl e, d2) \<Rightarrow> (Inl (Wrapf ''load reservation SKU ID'' e), d2)
           | (Inr None, d2) \<Rightarrow> (Inl (Wrapf ''load reservation SKU ID'' (Plain ''sql: no rows in result set'')), d2)
           | (Inr (Some i), d2) \<Rightarrow> (Inr (Some (load_reservation x (fs_SKUID (it_Snapshot i)))), d2)))"

definition findByOrderNo where
  "findByOrderNo env k orderNo = findOne env k (\<lambda>x. rw_order_no x = orderNo)"

definition findByUserItem where
  "findByUserItem env k activityID itemID userID =
     findOne env k (\<lambda>x. rw_activity_id x = activityID \<and> rw_seckill_item_id x = itemID \<and> rw_user_id x = userID)"

definition replayOrder :: "InventoryReservation \<Rightarrow> InventoryReservationInput \<Rightarrow> InventoryReservation result" where
  "replayOrder existing input =
     (if ir_ActivityID existing \<noteq> iri_ActivityID input \<or> ir_ItemID existing \<noteq> iri_ItemID input \<or>
         ir_UserID existing \<noteq> iri_UserID input \<or> ir_ReservedAt existing \<noteq> iri_ReservedAt input
      then fail ErrConflict else Inr (existing\<lparr>ir_Replayed := True\<rparr>))"

definition ReserveSeckillStock ::
  "inventory_db env \<Rightarrow> time \<Rightarrow> InventoryReservationInput \<Rightarrow> inventory_db \<Rightarrow> InventoryReservation result \<times> inventory_db" where
  "ReserveSeckillStock env now input d =
     (case findByOrderNo env 0 (iri_OrderNo input) d of
        (Inl e, d1) \<Rightarrow> (Inl e, d1)
      | (Inr (Some existing), d1) \<Rightarrow> (replayOrder existing input, d1)
      | (Inr None, d1) \<Rightarrow>
          (case reserveOnce (env 2) now input d1 of
             (Inr created, d2) \<Rightarrow> (Inr created, d2)
           | (Inl err, d2) \<Rightarrow>
               if \<not> isDuplicateKey err \<and> \<not> errors_Is err ErrOutOfStock then (Inl err, d2)
               else (case findByOrderNo env 3 (iri_OrderNo input) d2 of
                   (Inl e, d3) \<Rightarrow> (Inl e, d3)
                 | (Inr (Some winner), d3) \<Rightarrow> (replayOrder winner input, d3)
                 | (Inr None, d3) \<Rightarrow>
                     (case findByUserItem env 5 (iri_ActivityID input) (iri_ItemID input) (iri_UserID input) d3 of
                        (Inl e, d4) \<Rightarrow> (Inl e, d4)
                      | (Inr None, d4) \<Rightarrow>
                          (if errors_Is err ErrOutOfStock then fail ErrOutOfStock
                           else Inl (Plain ''duplicate reservation has no committed winner''), d4)
                      | (Inr (Some winner), d4) \<Rightarrow> (Inr (winner\<lparr>ir_Replayed := True\<rparr>), d4)))))"

section \<open>Services\<close>

definition InventoryService_Reserve ::
  "inventory_db env \<Rightarrow> time \<Rightarrow> InventoryReservationInput \<Rightarrow> inventory_db \<Rightarrow> InventoryReservation result \<times> inventory_db" where
  "InventoryService_Reserve env now input0 d =
     (let input = input0\<lparr>iri_OrderNo := TrimSpace (iri_OrderNo input0)\<rparr> in
      if iri_OrderNo input = [] \<or> iri_ActivityID input = 0 \<or> iri_ItemID input = 0 \<or> iri_UserID input = 0 \<or>
         IsZero (iri_ReservedAt input)
      then (fail ErrInvalidArgument, d)
      else ReserveSeckillStock env now (input\<lparr>iri_ReservedAt := Truncate (iri_ReservedAt input) millisecond\<rparr>) d)"

text \<open>The snapshot comes from the product service, through the argument \<open>products\<close>.\<close>

definition CreateSeckillItem ::
  "(u64 \<Rightarrow> FrozenSKUSnapshot result) \<Rightarrow> inventory_db step_env \<Rightarrow> time \<Rightarrow> CreateInventoryItemInput \<Rightarrow> inventory_db \<Rightarrow>
     InventoryItem result \<times> inventory_db" where
  "CreateSeckillItem products c now input d =
     (if ci_ActivityID input = 0 \<or> ci_SKUID input = 0 \<or> ci_Stock input \<le> 0 then (fail ErrInvalidArgument, d)
      else (case products (ci_SKUID input) of
          Inl e \<Rightarrow> (Inl e, d)
        | Inr snapshot \<Rightarrow>
            if fs_SKUID snapshot \<noteq> ci_SKUID input \<or> TrimSpace (fs_ProductName snapshot) = [] \<or>
               TrimSpace (fs_SKUCode snapshot) = [] \<or> TrimSpace (fs_SKUName snapshot) = [] \<or> fs_UnitPriceCent snapshot < 0
            then (fail ErrInvalidArgument, d)
            else CreateInventoryItem c now input snapshot d))"

definition ItemService_ListActivityItems ::
  "inventory_db step_env \<Rightarrow> u64 \<Rightarrow> inventory_db \<Rightarrow> InventoryItem list result \<times> inventory_db" where
  "ItemService_ListActivityItems c activityID d =
     (if activityID = 0 then (fail ErrInvalidArgument, d) else ListActivityItems c activityID d)"

section \<open>The RPC server\<close>

record ReserveSeckillStockRequest =
  rq_OrderNo :: string
  rq_ActivityId :: u64
  rq_ItemId :: u64
  rq_UserId :: u64
  rq_ReservedAtMs :: int

record ReserveSeckillStockResponse =
  rs_ReservationId :: u64
  rs_OrderNo :: string
  rs_Sku :: FrozenSKUSnapshot
  rs_Replayed :: bool

record SeckillItem =
  si_Id :: u64
  si_ActivityId :: u64
  si_Sku :: FrozenSKUSnapshot
  si_InitialStock :: int
  si_AvailableStock :: int
  si_Version :: u64
  si_CreatedAtMs :: int

definition toProtoItem :: "InventoryItem \<Rightarrow> SeckillItem" where
  "toProtoItem value =
     \<lparr>si_Id = it_ID value, si_ActivityId = it_ActivityID value, si_Sku = it_Snapshot value,
      si_InitialStock = it_InitialStock value, si_AvailableStock = it_AvailableStock value,
      si_Version = it_Version value, si_CreatedAtMs = UnixMilli (it_CreatedAt value)\<rparr>"

definition mapInventoryError :: "(goerr \<Rightarrow> code) \<Rightarrow> bool \<Rightarrow> goerr \<Rightarrow> goerr" where
  "mapInventoryError sc attach err = StatusError attach
     (if sc err = DeadlineExceeded \<or> errors_Is err Context_DeadlineExceeded
      then NewPublicError DeadlineExceeded ERROR_CODE_TEMPORARILY_UNAVAILABLE ''inventory dependency timeout'' True err
      else if sc err = Unavailable
      then NewPublicError Unavailable ERROR_CODE_TEMPORARILY_UNAVAILABLE ''inventory dependency unavailable'' True err
      else if errors_Is err Context_Canceled
      then NewPublicError Canceled ERROR_CODE_TEMPORARILY_UNAVAILABLE ''request canceled'' True err
      else if errors_Is err ErrInvalidArgument
      then NewPublicError InvalidArgument ERROR_CODE_INVALID_ARGUMENT ''invalid inventory request'' False err
      else if errors_Is err ErrItemNotFound
      then NewPublicError NotFound ERROR_CODE_NOT_FOUND ''inventory item not found'' False err
      else if errors_Is err ErrOutOfStock
      then NewPublicError FailedPrecondition ERROR_CODE_OUT_OF_STOCK ''inventory out of stock'' False err
      else if errors_Is err ErrConflict
      then NewPublicError AlreadyExists ERROR_CODE_CONFLICT ''inventory idempotency conflict'' False err
      else err)"

definition Server_ReserveSeckillStock ::
  "(goerr \<Rightarrow> code) \<Rightarrow> bool \<Rightarrow> inventory_db env \<Rightarrow> time \<Rightarrow> ReserveSeckillStockRequest \<Rightarrow> inventory_db \<Rightarrow>
     ReserveSeckillStockResponse result \<times> inventory_db" where
  "Server_ReserveSeckillStock sc attach env now request d =
     (case InventoryService_Reserve env now
         \<lparr>iri_OrderNo = rq_OrderNo request, iri_ActivityID = rq_ActivityId request, iri_ItemID = rq_ItemId request,
          iri_UserID = rq_UserId request, iri_ReservedAt = time_UnixMilli (rq_ReservedAtMs request)\<rparr> d of
        (Inl err, d') \<Rightarrow> (Inl (mapInventoryError sc attach err), d')
      | (Inr reserved, d') \<Rightarrow>
          (Inr \<lparr>rs_ReservationId = ir_ID reserved, rs_OrderNo = ir_OrderNo reserved, rs_Sku = ir_Snapshot reserved,
            rs_Replayed = ir_Replayed reserved\<rparr>, d'))"

definition Server_CreateSeckillItem ::
  "(goerr \<Rightarrow> code) \<Rightarrow> bool \<Rightarrow> (u64 \<Rightarrow> FrozenSKUSnapshot result) \<Rightarrow> inventory_db step_env \<Rightarrow> time \<Rightarrow>
     CreateInventoryItemInput \<Rightarrow> inventory_db \<Rightarrow> SeckillItem result \<times> inventory_db" where
  "Server_CreateSeckillItem sc attach products c now input d =
     (case CreateSeckillItem products c now input d of
        (Inl err, d') \<Rightarrow> (Inl (mapInventoryError sc attach err), d')
      | (Inr item, d') \<Rightarrow> (Inr (toProtoItem item), d'))"

definition Server_ListActivityItems ::
  "(goerr \<Rightarrow> code) \<Rightarrow> bool \<Rightarrow> inventory_db step_env \<Rightarrow> u64 \<Rightarrow> inventory_db \<Rightarrow> SeckillItem list result \<times> inventory_db" where
  "Server_ListActivityItems sc attach c activityID d =
     (case ItemService_ListActivityItems c activityID d of
        (Inl err, d') \<Rightarrow> (Inl (mapInventoryError sc attach err), d')
      | (Inr items, d') \<Rightarrow> (Inr (map toProtoItem items), d'))"

section \<open>Invariant\<close>

definition user_item :: "reservation_row \<Rightarrow> u64 \<times> u64 \<times> u64" where
  "user_item x = (rw_activity_id x, rw_seckill_item_id x, rw_user_id x)"

definition reserved :: "u64 \<Rightarrow> inventory_db \<Rightarrow> reservation_row list" where
  "reserved itemID d = filter (\<lambda>x. rw_seckill_item_id x = itemID) (inv_reservations d)"

text \<open>
  The keys are unique, every reservation belongs to an item of its activity, and the units of an item
  are conserved: what is available and what is reserved make up the initial stock.
\<close>

definition inventory_ok :: "inventory_db \<Rightarrow> bool" where
  "inventory_ok d \<longleftrightarrow> distinct (map it_ID (inv_items d)) \<and> distinct (map rw_order_no (inv_reservations d)) \<and>
     distinct (map user_item (inv_reservations d)) \<and>
     (\<forall>x \<in> set (inv_reservations d). \<exists>i \<in> set (inv_items d). it_ID i = rw_seckill_item_id x \<and> it_ActivityID i = rw_activity_id x) \<and>
     (\<forall>i \<in> set (inv_items d). 0 \<le> it_AvailableStock i \<and>
        it_AvailableStock i + int (length (reserved (it_ID i) d)) = it_InitialStock i)"

text \<open>The evolution of the tables: reservations are only added, what an item froze stays.\<close>

definition frozen :: "InventoryItem \<Rightarrow> u64 \<times> u64 \<times> FrozenSKUSnapshot \<times> int" where
  "frozen i = (it_ID i, it_ActivityID i, it_Snapshot i, it_InitialStock i)"

definition evolves :: "inventory_db \<Rightarrow> inventory_db \<Rightarrow> bool" where
  "evolves d d' \<longleftrightarrow> (inventory_ok d \<longrightarrow> inventory_ok d') \<and>
     (\<exists>xs. inv_reservations d' = inv_reservations d @ xs) \<and>
     (\<exists>is. map frozen (inv_items d') = map frozen (inv_items d) @ is)"

lemma evolves_refl [simp]: "evolves d d"
  by (simp add: evolves_def)

lemma evolves_trans: "evolves a b \<Longrightarrow> evolves b c \<Longrightarrow> evolves a c"
  by (auto simp: evolves_def)

lemma reserve_tx_success:
  assumes "reserve_tx now input d = (Inr x, d')"
  obtains item row where "item \<in> set (inv_items d)" "it_ID item = iri_ItemID input" "it_ActivityID item = iri_ActivityID input"
    and "\<exists>i \<in> set (inv_items d). takes_unit (iri_ItemID input) (iri_ActivityID input) i"
    and "inv_items d' = map (\<lambda>i. if takes_unit (iri_ItemID input) (iri_ActivityID input) i
          then i\<lparr>it_AvailableStock := it_AvailableStock i - 1, it_Version := it_Version i + 1\<rparr> else i) (inv_items d)"
    and "inv_reservations d' = inv_reservations d @ [row]"
    and "row = \<lparr>rw_id = next_reservation_id d, rw_order_no = iri_OrderNo input, rw_activity_id = iri_ActivityID input,
           rw_seckill_item_id = iri_ItemID input, rw_user_id = iri_UserID input,
           rw_product_name = fs_ProductName (it_Snapshot item), rw_sku_code = fs_SKUCode (it_Snapshot item),
           rw_sku_name = fs_SKUName (it_Snapshot item), rw_unit_price_cent = fs_UnitPriceCent (it_Snapshot item),
           rw_reserved_at = iri_ReservedAt input, rw_created_at = Truncate now microsecond\<rparr>"
    and "\<forall>y \<in> set (inv_reservations d). rw_order_no y \<noteq> iri_OrderNo input \<and>
           user_item y \<noteq> (iri_ActivityID input, iri_ItemID input, iri_UserID input)"
    and "x = \<lparr>ir_ID = next_reservation_id d, ir_OrderNo = iri_OrderNo input, ir_ActivityID = iri_ActivityID input,
           ir_ItemID = iri_ItemID input, ir_UserID = iri_UserID input, ir_Snapshot = it_Snapshot item,
           ir_ReservedAt = iri_ReservedAt input, ir_Replayed = False\<rparr>"
proof -
  from assms obtain item where f: "find (\<lambda>i. it_ID i = iri_ItemID input \<and> it_ActivityID i = iri_ActivityID input) (inv_items d) = Some item"
    by (auto simp: reserve_tx_def split: option.splits)
  then have i: "item \<in> set (inv_items d)" "it_ID item = iri_ItemID input" "it_ActivityID item = iri_ActivityID input"
    by (auto simp: find_Some_iff)
  from assms f have t: "\<exists>i \<in> set (inv_items d). takes_unit (iri_ItemID input) (iri_ActivityID input) i"
    by (auto simp: reserve_tx_def decrement_stock_def filter_empty_conv Let_def split: if_splits)
  show ?thesis
    by (rule that [OF i t]) (use assms f in \<open>auto simp: reserve_tx_def decrement_stock_def insert_reservation_def
      next_reservation_id_def user_item_def Let_def split: if_splits prod.splits sum.splits\<close>)
qed

lemma frozen_map: "map frozen (map (\<lambda>i. if P i then i\<lparr>it_AvailableStock := f i, it_Version := g i\<rparr> else i) xs) = map frozen xs"
  by (simp add: frozen_def)

lemma inventory_ok_reserve:
  assumes ok: "inventory_ok d" and tx: "reserve_tx now input d = (Inr x, d')"
  shows "inventory_ok d'"
proof (rule reserve_tx_success [OF tx])
  fix item row
  let ?dec = "\<lambda>i. if takes_unit (iri_ItemID input) (iri_ActivityID input) i
          then i\<lparr>it_AvailableStock := it_AvailableStock i - 1, it_Version := it_Version i + 1\<rparr> else i"
  assume item: "item \<in> set (inv_items d)" "it_ID item = iri_ItemID input" "it_ActivityID item = iri_ActivityID input"
    and t: "\<exists>i \<in> set (inv_items d). takes_unit (iri_ItemID input) (iri_ActivityID input) i"
    and items: "inv_items d' = map ?dec (inv_items d)"
    and res: "inv_reservations d' = inv_reservations d @ [row]"
    and row: "row = \<lparr>rw_id = next_reservation_id d, rw_order_no = iri_OrderNo input, rw_activity_id = iri_ActivityID input,
           rw_seckill_item_id = iri_ItemID input, rw_user_id = iri_UserID input,
           rw_product_name = fs_ProductName (it_Snapshot item), rw_sku_code = fs_SKUCode (it_Snapshot item),
           rw_sku_name = fs_SKUName (it_Snapshot item), rw_unit_price_cent = fs_UnitPriceCent (it_Snapshot item),
           rw_reserved_at = iri_ReservedAt input, rw_created_at = Truncate now microsecond\<rparr>"
    and new: "\<forall>y \<in> set (inv_reservations d). rw_order_no y \<noteq> iri_OrderNo input \<and>
           user_item y \<noteq> (iri_ActivityID input, iri_ItemID input, iri_UserID input)"
  have "map it_ID (inv_items d') = map it_ID (inv_items d)" by (simp add: items)
  moreover have key: "takes_unit (iri_ItemID input) (iri_ActivityID input) i \<longleftrightarrow> it_ID i = iri_ItemID input"
    if "i \<in> set (inv_items d)" for i
    using t that ok by (auto simp: takes_unit_def inventory_ok_def distinct_map inj_on_def)
  moreover have "0 \<le> it_AvailableStock i \<and> it_AvailableStock i + int (length (reserved (it_ID i) d')) = it_InitialStock i"
    if "i \<in> set (inv_items d')" for i
  proof -
    from that items obtain j where j: "j \<in> set (inv_items d)" "i = ?dec j" by auto
    with key [OF j(1)] ok show ?thesis
      by (auto simp: inventory_ok_def reserved_def res row takes_unit_def)
  qed
  moreover have "\<forall>x \<in> set (inv_reservations d'). \<exists>i \<in> set (inv_items d'). it_ID i = rw_seckill_item_id x \<and> it_ActivityID i = rw_activity_id x"
  proof
    fix x assume "x \<in> set (inv_reservations d')"
    then obtain i where "i \<in> set (inv_items d)" "it_ID i = rw_seckill_item_id x" "it_ActivityID i = rw_activity_id x"
      using ok item by (auto simp: res row inventory_ok_def)
    then show "\<exists>i \<in> set (inv_items d'). it_ID i = rw_seckill_item_id x \<and> it_ActivityID i = rw_activity_id x"
      by (intro bexI [of _ "?dec i"]) (auto simp: items)
  qed
  ultimately show ?thesis
    using ok new by (auto simp: inventory_ok_def res row user_item_def)
qed

lemma reserve_tx_evolves:
  assumes tx: "reserve_tx now input d = (Inr x, d')"
  shows "evolves d d'"
proof -
  have "map frozen (inv_items d') = map frozen (inv_items d)"
    by (rule reserve_tx_success [OF tx]) (simp add: frozen_def)
  moreover have "\<exists>xs. inv_reservations d' = inv_reservations d @ xs"
    by (rule reserve_tx_success [OF tx]) simp
  ultimately show ?thesis using inventory_ok_reserve [OF _ tx] by (simp add: evolves_def)
qed

section \<open>The tables evolve\<close>

definition rely :: "inventory_db env \<Rightarrow> bool" where
  "rely env \<longleftrightarrow> (\<forall>k d. evolves d (interference (env k) d))"

lemma rely_undisturbed: "undisturbed env \<Longrightarrow> rely env"
  by (simp add: rely_def undisturbed_def)

lemma read_db_evolves: "rely env \<Longrightarrow> read_db (env k) f d = (x, d') \<Longrightarrow> evolves d d'"
  using read_db_respects [of evolves "env k" d f] by (simp add: rely_def)

lemma findOne_evolves:
  assumes "rely env" and "findOne env k cond d = (x, d')"
  shows "evolves d d'"
  using assms
  by (auto simp: findOne_def split: prod.splits sum.splits option.splits
      dest!: read_db_evolves [OF assms(1)] intro: evolves_trans)

lemma reserveOnce_evolves:
  assumes "rely env" and "reserveOnce (env k) now input d = (x, d')"
  shows "evolves d d'"
  using atomically_respects [of evolves "env k" "reserve_tx now input" d] assms evolves_trans reserve_tx_evolves
  by (auto simp: reserveOnce_def rely_def)

lemma ReserveSeckillStock_evolves:
  assumes "rely env" and "ReserveSeckillStock env now input d = (x, d')"
  shows "evolves d d'"
  using assms(2) unfolding ReserveSeckillStock_def findByOrderNo_def findByUserItem_def
  by (auto split: prod.splits sum.splits option.splits if_splits
      dest!: findOne_evolves [OF assms(1)] reserveOnce_evolves [OF assms(1)] intro: evolves_trans)

lemma InventoryService_Reserve_evolves:
  assumes "rely env" and "InventoryService_Reserve env now input d = (x, d')"
  shows "evolves d d'"
  using assms ReserveSeckillStock_evolves by (auto simp: InventoryService_Reserve_def Let_def split: if_splits)

section \<open>Reading a reservation\<close>

definition sku_of :: "inventory_db \<Rightarrow> reservation_row \<Rightarrow> u64" where
  "sku_of d x = fs_SKUID (it_Snapshot (the (find (\<lambda>i. it_ID i = rw_seckill_item_id x) (inv_items d))))"

definition lookup :: "(reservation_row \<Rightarrow> bool) \<Rightarrow> inventory_db \<Rightarrow> InventoryReservation option" where
  "lookup cond d = map_option (\<lambda>x. load_reservation x (sku_of d x)) (find cond (inv_reservations d))"

lemma find_item:
  assumes "inventory_ok d" and "x \<in> set (inv_reservations d)"
  obtains i where "find (\<lambda>i. it_ID i = rw_seckill_item_id x) (inv_items d) = Some i"
proof (cases "find (\<lambda>i. it_ID i = rw_seckill_item_id x) (inv_items d)")
  case None
  with assms show ?thesis by (fastforce simp: find_None_iff inventory_ok_def)
next
  case (Some i)
  with that show ?thesis by blast
qed

lemma findOne_quiet:
  assumes "inventory_ok d"
  shows "findOne quiet k cond d = (Inr (lookup cond d), d)"
proof (cases "find cond (inv_reservations d)")
  case None
  then show ?thesis by (simp add: findOne_def lookup_def)
next
  case (Some x)
  then have "x \<in> set (inv_reservations d)" by (auto simp: find_Some_iff)
  with assms obtain i where "find (\<lambda>i. it_ID i = rw_seckill_item_id x) (inv_items d) = Some i"
    by (rule find_item)
  with Some show ?thesis by (simp add: findOne_def lookup_def sku_of_def)
qed

lemma findOne_undisturbed:
  assumes un: "undisturbed env" and run: "findOne env k cond d = (res, d')"
  shows "d' = d" and "res = Inr v \<Longrightarrow> v = lookup cond d"
proof -
  have same: "read_db (env j) f e = (x, e') \<Longrightarrow> e' = e \<and> (\<forall>y. x = Inr y \<longrightarrow> f e = y)"
    for j e e' and x :: "'x result" and f
    using read_db_undisturbed(1) [OF un, of j f e] read_db_undisturbed(2) [OF un, of j f e] by auto
  show "d' = d" and "res = Inr v \<Longrightarrow> v = lookup cond d"
    using run
    by (auto simp: findOne_def lookup_def sku_of_def split: prod.splits sum.splits option.splits dest!: same)
qed

section \<open>One attempt\<close>

text \<open>A reservation up to the flag that says whether it is a replay.\<close>

abbreviation as_new :: "InventoryReservation \<Rightarrow> InventoryReservation" where
  "as_new x \<equiv> x\<lparr>ir_Replayed := False\<rparr>"

lemma as_new_OrderNo: "as_new x = as_new y \<Longrightarrow> ir_OrderNo x = ir_OrderNo y"
  by (cases x; cases y) simp

abbreviation by_order :: "string \<Rightarrow> reservation_row \<Rightarrow> bool" where
  "by_order ono \<equiv> (\<lambda>x. rw_order_no x = ono)"

abbreviation by_user_item :: "InventoryReservationInput \<Rightarrow> reservation_row \<Rightarrow> bool" where
  "by_user_item input \<equiv> (\<lambda>x. rw_activity_id x = iri_ActivityID input \<and>
     rw_seckill_item_id x = iri_ItemID input \<and> rw_user_id x = iri_UserID input)"

text \<open>What a committed transaction leaves can be read back under its order number.\<close>

lemma lookup_after_reserve:
  assumes ok: "inventory_ok d" and tx: "reserve_tx now input d = (Inr x, d')"
    and ms: "Truncate (iri_ReservedAt input) millisecond = iri_ReservedAt input"
  shows "lookup (by_order (iri_OrderNo input)) d' = Some x"
    and "replayOrder x input = Inr (x\<lparr>ir_Replayed := True\<rparr>)" and "as_new x = x"
proof -
  have ok': "inventory_ok d'" by (rule inventory_ok_reserve [OF ok tx])
  obtain item row where r: "item \<in> set (inv_items d)" "it_ID item = iri_ItemID input"
    "inv_reservations d' = inv_reservations d @ [row]"
    "inv_items d' = map (\<lambda>i. if takes_unit (iri_ItemID input) (iri_ActivityID input) i
          then i\<lparr>it_AvailableStock := it_AvailableStock i - 1, it_Version := it_Version i + 1\<rparr> else i) (inv_items d)"
    "row = \<lparr>rw_id = next_reservation_id d, rw_order_no = iri_OrderNo input, rw_activity_id = iri_ActivityID input,
           rw_seckill_item_id = iri_ItemID input, rw_user_id = iri_UserID input,
           rw_product_name = fs_ProductName (it_Snapshot item), rw_sku_code = fs_SKUCode (it_Snapshot item),
           rw_sku_name = fs_SKUName (it_Snapshot item), rw_unit_price_cent = fs_UnitPriceCent (it_Snapshot item),
           rw_reserved_at = iri_ReservedAt input, rw_created_at = Truncate now microsecond\<rparr>"
    "\<forall>y \<in> set (inv_reservations d). rw_order_no y \<noteq> iri_OrderNo input"
    "x = \<lparr>ir_ID = next_reservation_id d, ir_OrderNo = iri_OrderNo input, ir_ActivityID = iri_ActivityID input,
           ir_ItemID = iri_ItemID input, ir_UserID = iri_UserID input, ir_Snapshot = it_Snapshot item,
           ir_ReservedAt = iri_ReservedAt input, ir_Replayed = False\<rparr>"
    by (rule reserve_tx_success [OF tx]) blast
  have "find (by_order (iri_OrderNo input)) (inv_reservations d) = None"
    using r(6) by (simp add: find_None_iff)
  then have f: "find (by_order (iri_OrderNo input)) (inv_reservations d') = Some row"
    by (simp add: r(3) r(5) find_append)
  have "row \<in> set (inv_reservations d')" using r(3) by simp
  then obtain i where i: "find (\<lambda>i. it_ID i = rw_seckill_item_id row) (inv_items d') = Some i"
    by (rule find_item [OF ok'])
  then have "i \<in> set (inv_items d')" "it_ID i = iri_ItemID input"
    using r(5) by (auto simp: find_Some_iff)
  then obtain j where "j \<in> set (inv_items d)" "it_ID j = iri_ItemID input" "it_Snapshot i = it_Snapshot j"
    using r(4) by auto
  with r(1,2) ok have "it_Snapshot i = it_Snapshot item"
    by (metis distinct_map inj_onD inventory_ok_def)
  with i have "sku_of d' row = fs_SKUID (it_Snapshot item)" by (simp add: sku_of_def)
  with f show "lookup (by_order (iri_OrderNo input)) d' = Some x"
    using ms by (simp add: lookup_def load_reservation_def r(5,7))
  show "replayOrder x input = Inr (x\<lparr>ir_Replayed := True\<rparr>)" "as_new x = x"
    by (simp_all add: r(7) replayOrder_def)
qed

lemma reserve_tx_now: "fst (reserve_tx now' input d) = fst (reserve_tx now input d)"
proof (cases "find (\<lambda>i. it_ID i = iri_ItemID input \<and> it_ActivityID i = iri_ActivityID input) (inv_items d)")
  case (Some item)
  obtain rows d1 where "decrement_stock (iri_ItemID input) (iri_ActivityID input) d = (rows, d1)" by fastforce
  with Some show ?thesis by (auto simp: reserve_tx_def insert_reservation_def next_reservation_id_def Let_def)
qed (simp add: reserve_tx_def)

lemma lookup_none_new:
  assumes "reserve_tx now input d = (Inr x, d')"
  shows "lookup (by_order (iri_OrderNo input)) d = None"
  by (rule reserve_tx_success [OF assms]) (simp add: lookup_def find_None_iff)

text \<open>An undisturbed attempt leaves the tables alone or commits its transaction once.\<close>

lemma attempt_effect:
  assumes un: "undisturbed env" and run: "ReserveSeckillStock env now input d = (res, d')"
  shows "d' = d \<or> (\<exists>x. reserve_tx now input d = (Inr x, d'))"
  using run unfolding ReserveSeckillStock_def findByOrderNo_def findByUserItem_def reserveOnce_def
  by (auto split: prod.splits sum.splits option.splits if_splits
      dest!: findOne_undisturbed(1) [OF un] atomically_undisturbed(1) [OF un])

lemma ReserveSeckillStock_quiet:
  assumes "inventory_ok d"
  shows "ReserveSeckillStock quiet now input d =
    (case lookup (by_order (iri_OrderNo input)) d of
       Some existing \<Rightarrow> (replayOrder existing input, d)
     | None \<Rightarrow>
         (case reserve_tx now input d of
            (Inr x, d') \<Rightarrow> (Inr x, d')
          | (Inl err, _) \<Rightarrow>
              if \<not> isDuplicateKey err \<and> \<not> errors_Is err ErrOutOfStock then (Inl err, d)
              else (case lookup (by_user_item input) d of
                  None \<Rightarrow> (if errors_Is err ErrOutOfStock then fail ErrOutOfStock
                           else Inl (Plain ''duplicate reservation has no committed winner''), d)
                | Some winner \<Rightarrow> (Inr (winner\<lparr>ir_Replayed := True\<rparr>), d))))"
  using assms
  by (auto simp: ReserveSeckillStock_def findByOrderNo_def findByUserItem_def reserveOnce_def findOne_quiet
      split: prod.splits sum.splits option.splits)

text \<open>A reservation is a recoverable write, for requests whose time has the precision of the column.\<close>

interpretation reservations: recoverable inventory_ok inventory_ok
    "\<lambda>input. Truncate (iri_ReservedAt input) millisecond = iri_ReservedAt input"
    ReserveSeckillStock "\<lambda>x y. as_new y = as_new x"
proof (unfold_locales, goal_cases)
  case (1 d i env now)
  obtain res d' where r: "ReserveSeckillStock env now i d = (res, d')" by fastforce
  from attempt_effect [OF 1(3) r] show ?case
  proof
    assume "\<exists>x. reserve_tx now i d = (Inr x, d')"
    then obtain x where tx: "reserve_tx now i d = (Inr x, d')" by blast
    then have "ReserveSeckillStock quiet now i d = (Inr x, d')"
      using lookup_none_new [OF tx] by (simp add: ReserveSeckillStock_quiet [OF 1(1)])
    with r show ?thesis by simp
  qed (use r in simp)
next
  case (2 d i now e d')
  then show ?case
    by (auto simp: ReserveSeckillStock_quiet split: option.splits sum.splits prod.splits if_splits)
next
  case (3 d i now x d' now')
  show ?case
  proof (cases "\<exists>z. reserve_tx now i d = (Inr z, d')")
    case True
    then obtain z where tx: "reserve_tx now i d = (Inr z, d')" by blast
    note l = lookup_after_reserve [OF 3(1) tx 3(2)]
    have "x = z" using 3(1,3) tx lookup_none_new [OF tx] by (simp add: ReserveSeckillStock_quiet)
    with l show ?thesis by (simp add: ReserveSeckillStock_quiet [OF inventory_ok_reserve [OF 3(1) tx]])
  next
    case False
    have "undisturbed (quiet :: inventory_db env)" by simp
    from attempt_effect [OF this 3(3)] False have d': "d' = d" by blast
    have "ReserveSeckillStock quiet now' i d = (Inr x, d)"
    proof -
      have nt: "\<nexists>z. fst (reserve_tx now i d) = Inr z"
      proof
        assume "\<exists>z. fst (reserve_tx now i d) = Inr z"
        then obtain z d3 where tx: "reserve_tx now i d = (Inr z, d3)" by (metis prod.collapse)
        with 3(1,3) lookup_none_new [OF tx] False show False by (simp add: ReserveSeckillStock_quiet)
      qed
      obtain a b where ab: "reserve_tx now i d = (a, b)" by fastforce
      obtain b' where ab': "reserve_tx now' i d = (a, b')"
        using reserve_tx_now [of now' i d now] ab by (metis fst_conv prod.collapse)
      show ?thesis using 3(1,3) d' nt ab ab'
        by (cases a; cases "lookup (by_order (iri_OrderNo i)) d") (simp_all add: ReserveSeckillStock_quiet)
    qed
    with d' show ?thesis by simp
  qed
next
  case (4 d i now)
  have "rely (quiet :: inventory_db env)" by (simp add: rely_def quiet_def)
  from ReserveSeckillStock_evolves [OF this] 4(1) show ?case
    by (metis evolves_def prod.collapse)
qed simp_all

section \<open>An example\<close>

definition demo_snapshot :: FrozenSKUSnapshot where
  "demo_snapshot = \<lparr>fs_SKUID = 3, fs_ProductName = ''Phone'', fs_SKUCode = ''P-1'', fs_SKUName = ''black'', fs_UnitPriceCent = 9900\<rparr>"

definition demo_inventory :: inventory_db where
  "demo_inventory = \<lparr>inv_items = [\<lparr>it_ID = 1, it_ActivityID = 7, it_Snapshot = demo_snapshot, it_InitialStock = 1,
     it_AvailableStock = 1, it_Version = 0, it_CreatedAt = 0\<rparr>], inv_reservations = []\<rparr>"

definition demo_input :: "string \<Rightarrow> u64 \<Rightarrow> InventoryReservationInput" where
  "demo_input ono u = \<lparr>iri_OrderNo = ono, iri_ActivityID = 7, iri_ItemID = 1, iri_UserID = u, iri_ReservedAt = 1500000000\<rparr>"

definition lost_commit :: "'d env" where
  "lost_commit = (\<lambda>k. \<lparr>interference = id,
     outcome_of = (if k = 2 then Lost_after (Sentinel Context_DeadlineExceeded) else Done)\<rparr>)"

lemma demo_inventory_ok: "inventory_ok demo_inventory"
  by (simp add: inventory_ok_def demo_inventory_def reserved_def)

lemma demo_reserve:
  "\<exists>x d. reserve_tx now (demo_input ono u) demo_inventory = (Inr x, d) \<and> length (inv_reservations d) = 1 \<and> ir_OrderNo x = ono"
  by (simp add: reserve_tx_def demo_input_def demo_inventory_def decrement_stock_def takes_unit_def
      insert_reservation_def Let_def demo_snapshot_def)

lemma demo_ms: "Truncate (iri_ReservedAt (demo_input ono u)) millisecond = iri_ReservedAt (demo_input ono u)"
  by (simp add: demo_input_def Truncate_def zero_time_def)

section \<open>Properties of the inventory\<close>

text \<open>C19: no oversell and no double reservation in the database. Whatever the requests, their
  failures and the interleaving with other clients that keep the invariant, the reservations of an
  item never exceed its initial stock, the rest is what the item shows as available, and no user
  holds two reservations of one item.\<close>

theorem inventory_no_oversell:
  assumes "inventory_ok d" and "\<forall>(env, now, input) \<in> set reqs. rely env"
    and "d' = foldl (\<lambda>d (env, now, input). snd (InventoryService_Reserve env now input d)) d reqs"
  shows "inventory_ok d' \<and> (\<forall>i \<in> set (inv_items d'). int (length (reserved (it_ID i) d')) \<le> it_InitialStock i \<and>
      it_AvailableStock i = it_InitialStock i - int (length (reserved (it_ID i) d')) \<and>
      distinct (map rw_user_id (reserved (it_ID i) d')))"
proof -
  have step: "inventory_ok d \<Longrightarrow> rely env \<Longrightarrow> inventory_ok (snd (InventoryService_Reserve env now input d))" for env now input d
    using InventoryService_Reserve_evolves [of env now input d] by (metis evolves_def prod.collapse)
  have "inventory_ok d'"
    using assms
  proof (induction reqs arbitrary: d)
    case Nil
    then show ?case by simp
  next
    case (Cons req reqs)
    then show ?case using step by (cases req) fastforce
  qed
  moreover have "distinct (map rw_user_id (reserved i d'))" if ok': "inventory_ok d'" for i
  proof (rule distinct_map [THEN iffD2], intro conjI inj_onI)
    show "distinct (reserved i d')" using ok' by (auto simp: inventory_ok_def reserved_def distinct_map)
    fix x y
    assume xy: "x \<in> set (reserved i d')" "y \<in> set (reserved i d')" "rw_user_id x = rw_user_id y"
    have "\<exists>a \<in> set (inv_items d'). it_ID a = i \<and> it_ActivityID a = rw_activity_id z" if "z \<in> set (reserved i d')" for z
      using ok' that by (auto simp: inventory_ok_def reserved_def)
    with xy obtain a b where ab: "a \<in> set (inv_items d')" "b \<in> set (inv_items d')" "it_ID a = it_ID b"
      and act: "it_ActivityID a = rw_activity_id x" "it_ActivityID b = rw_activity_id y"
      by metis
    have "a = b" using ok' ab by (auto simp: inventory_ok_def distinct_map inj_on_def)
    with act have "rw_activity_id x = rw_activity_id y" by simp
    with xy ok' show "x = y"
      by (auto simp: inventory_ok_def reserved_def user_item_def distinct_map inj_on_def)
  qed
  ultimately show ?thesis by (auto simp: inventory_ok_def)
qed

theorem inventory_no_oversell_witness:
  "let d' = foldl (\<lambda>d (env, now, input). snd (InventoryService_Reserve env now input d)) demo_inventory
      [(lost_commit, 5, demo_input ''A'' 10), (quiet, 6, demo_input ''B'' 11), (quiet, 7, demo_input ''A'' 10)]
   in inventory_ok d' \<and> (\<forall>i \<in> set (inv_items d'). int (length (reserved (it_ID i) d')) \<le> it_InitialStock i)"
  using inventory_no_oversell [OF demo_inventory_ok,
      of "[(lost_commit, 5, demo_input ''A'' 10), (quiet, 6, demo_input ''B'' 11), (quiet, 7, demo_input ''A'' 10)]", OF _ refl]
  by (simp add: Let_def rely_def lost_commit_def quiet_def)

text \<open>C20: a reservation is made once, however often it is tried. After any number of attempts in which
  anything may have failed (a commit whose answer was lost included), a clean retry of the request
  leaves the tables as one clean attempt would have, and answers with the same reservation.\<close>

theorem reservation_retry_exactly_once:
  assumes "inventory_ok d" and "Truncate (iri_ReservedAt input) millisecond = iri_ReservedAt input"
    and "\<forall>(env, now) \<in> set tries. undisturbed env"
    and "d1 = foldl (\<lambda>d (env, now). snd (ReserveSeckillStock env now input d)) d tries"
    and "ReserveSeckillStock quiet now input d1 = (res, d2)"
  shows "\<exists>t \<in> insert now (snd ` set tries). d2 = snd (ReserveSeckillStock quiet t input d) \<and>
    (\<forall>x. fst (ReserveSeckillStock quiet t input d) = Inr x \<longrightarrow> (\<exists>y. res = Inr y \<and> as_new y = as_new x))"
  by (rule reservations.retry_exactly_once [OF assms])

theorem reservation_retry_exactly_once_witness:
  "\<exists>d1 res d2 y. d1 = foldl (\<lambda>d (env, now). snd (ReserveSeckillStock env now (demo_input ''A'' 10) d)) demo_inventory
       [(lost_commit, 5), (lost_commit, 6)] \<and>
     ReserveSeckillStock quiet 7 (demo_input ''A'' 10) d1 = (res, d2) \<and> res = Inr y \<and> ir_OrderNo y = ''A'' \<and>
     length (inv_reservations d2) = 1"
proof -
  obtain res d2 where r: "ReserveSeckillStock quiet 7 (demo_input ''A'' 10)
      (foldl (\<lambda>d (env, now). snd (ReserveSeckillStock env now (demo_input ''A'' 10) d)) demo_inventory
       [(lost_commit, 5), (lost_commit, 6)]) = (res, d2)" by fastforce
  have q: "\<exists>x d. ReserveSeckillStock quiet now (demo_input ''A'' 10) demo_inventory = (Inr x, d) \<and>
      length (inv_reservations d) = 1 \<and> ir_OrderNo x = ''A''" for now
  proof -
    have "lookup (by_order (iri_OrderNo (demo_input ''A'' 10))) demo_inventory = None"
      by (simp add: lookup_def demo_inventory_def)
    with demo_reserve [of now "''A''" 10] show ?thesis
      by (auto simp: ReserveSeckillStock_quiet [OF demo_inventory_ok])
  qed
  have un: "\<forall>(env, now) \<in> set [(lost_commit, 5), (lost_commit, 6)]. undisturbed env"
    by (simp add: undisturbed_def lost_commit_def)
  obtain t where "d2 = snd (ReserveSeckillStock quiet t (demo_input ''A'' 10) demo_inventory)"
    "\<forall>x. fst (ReserveSeckillStock quiet t (demo_input ''A'' 10) demo_inventory) = Inr x \<longrightarrow> (\<exists>y. res = Inr y \<and> as_new y = as_new x)"
    using reservation_retry_exactly_once [OF demo_inventory_ok demo_ms un refl r] by blast
  with q [of t] obtain y where "res = Inr y" "ir_OrderNo y = ''A''" "length (inv_reservations d2) = 1"
    by (auto dest!: as_new_OrderNo)
  with r show ?thesis by blast
qed

text \<open>A user who tries again with another order number gets the reservation made first, with its
  order number, and nothing is taken from the stock.\<close>

theorem user_item_replay:
  assumes ok: "inventory_ok d" and x: "x \<in> set (inv_reservations d)" "user_item x = (iri_ActivityID input, iri_ItemID input, iri_UserID input)"
    and new: "\<forall>y \<in> set (inv_reservations d). rw_order_no y \<noteq> iri_OrderNo input"
    and price: "\<forall>i \<in> set (inv_items d). 0 \<le> fs_UnitPriceCent (it_Snapshot i)"
  shows "\<exists>r. ReserveSeckillStock quiet now input d = (Inr r, d) \<and> ir_OrderNo r = rw_order_no x \<and> ir_Replayed r"
proof -
  obtain i where i: "i \<in> set (inv_items d)" "it_ID i = iri_ItemID input" "it_ActivityID i = iri_ActivityID input"
    using ok x by (fastforce simp: inventory_ok_def user_item_def)
  then obtain item where f: "find (\<lambda>i. it_ID i = iri_ItemID input \<and> it_ActivityID i = iri_ActivityID input) (inv_items d) = Some item"
    by (cases "find (\<lambda>i. it_ID i = iri_ItemID input \<and> it_ActivityID i = iri_ActivityID input) (inv_items d)")
      (auto simp: find_None_iff)
  have "\<exists>e d1. reserve_tx now input d = (Inl e, d1) \<and> (isDuplicateKey e \<or> errors_Is e ErrOutOfStock)"
    using f x by (auto simp: reserve_tx_def decrement_stock_def insert_reservation_def isDuplicateKey_def user_item_def Let_def)
  then obtain e d1 where e: "reserve_tx now input d = (Inl e, d1)" "isDuplicateKey e \<or> errors_Is e ErrOutOfStock" by blast
  have none: "lookup (by_order (iri_OrderNo input)) d = None"
    using new by (simp add: lookup_def find_None_iff)
  obtain y where y: "find (by_user_item input) (inv_reservations d) = Some y"
    using x by (cases "find (by_user_item input) (inv_reservations d)") (auto simp: find_None_iff user_item_def)
  then have "y \<in> set (inv_reservations d)" "user_item y = user_item x"
    using x by (auto simp: find_Some_iff user_item_def)
  then have "y = x" using ok x by (auto simp: inventory_ok_def distinct_map inj_on_def)
  with y none e show ?thesis
    by (auto simp: ReserveSeckillStock_quiet [OF ok] lookup_def load_reservation_def)
qed

theorem user_item_replay_witness:
  "\<exists>x d r. reserve_tx 5 (demo_input ''A'' 10) demo_inventory = (Inr x, d) \<and>
     ReserveSeckillStock quiet 6 (demo_input ''B'' 10) d = (Inr r, d) \<and> ir_OrderNo r = ''A'' \<and> ir_Replayed r"
proof -
  obtain x d where tx: "reserve_tx 5 (demo_input ''A'' 10) demo_inventory = (Inr x, d)" using demo_reserve by blast
  obtain row where r: "inv_reservations d = [row]" "rw_order_no row = ''A''" "user_item row = (7, 1, 10)"
    "\<forall>i \<in> set (inv_items d). 0 \<le> fs_UnitPriceCent (it_Snapshot i)"
    by (rule reserve_tx_success [OF tx]) (auto simp: demo_inventory_def demo_input_def user_item_def demo_snapshot_def)
  have "\<exists>r. ReserveSeckillStock quiet 6 (demo_input ''B'' 10) d = (Inr r, d) \<and> ir_OrderNo r = rw_order_no row \<and> ir_Replayed r"
    by (rule user_item_replay [OF inventory_ok_reserve [OF demo_inventory_ok tx]]) (use r in \<open>simp_all add: demo_input_def\<close>)
  with tx r show ?thesis by auto
qed

text \<open>One order number stands for one request. Under the order number of an existing reservation a
  request for another user, item, activity or time is a conflict and changes nothing.\<close>

theorem order_no_conflict:
  assumes ok: "inventory_ok d" and x: "x \<in> set (inv_reservations d)" "rw_order_no x = iri_OrderNo input"
    and other: "user_item x \<noteq> (iri_ActivityID input, iri_ItemID input, iri_UserID input) \<or>
      Truncate (rw_reserved_at x) millisecond \<noteq> iri_ReservedAt input"
  shows "ReserveSeckillStock quiet now input d = (fail ErrConflict, d)"
proof -
  obtain y where y: "find (by_order (iri_OrderNo input)) (inv_reservations d) = Some y"
    using x by (cases "find (by_order (iri_OrderNo input)) (inv_reservations d)") (auto simp: find_None_iff)
  then have "y \<in> set (inv_reservations d)" "rw_order_no y = rw_order_no x" using x by (auto simp: find_Some_iff)
  then have "y = x" using ok x by (auto simp: inventory_ok_def distinct_map inj_on_def)
  with y other show ?thesis
    by (auto simp: ReserveSeckillStock_quiet [OF ok] lookup_def load_reservation_def replayOrder_def user_item_def)
qed

theorem order_no_conflict_witness:
  "\<exists>x d. reserve_tx 5 (demo_input ''A'' 10) demo_inventory = (Inr x, d) \<and>
     ReserveSeckillStock quiet 6 (demo_input ''A'' 11) d = (fail ErrConflict, d)"
proof -
  obtain x d where tx: "reserve_tx 5 (demo_input ''A'' 10) demo_inventory = (Inr x, d)" using demo_reserve by blast
  obtain row where r: "inv_reservations d = [row]" "rw_order_no row = ''A''" "user_item row = (7, 1, 10)"
    by (rule reserve_tx_success [OF tx]) (auto simp: demo_inventory_def demo_input_def user_item_def)
  have "ReserveSeckillStock quiet 6 (demo_input ''A'' 11) d = (fail ErrConflict, d)"
    by (rule order_no_conflict [OF inventory_ok_reserve [OF demo_inventory_ok tx], of row]) (use r in \<open>simp_all add: demo_input_def\<close>)
  with tx show ?thesis by blast
qed

lemma findOne_none:
  assumes "rely env" and "findOne env k cond d = (Inr None, d')" and "x \<in> set (inv_reservations d)"
  shows "\<not> cond x"
proof -
  have "find cond (inv_reservations (interference (env k) d)) = None"
    using assms(2) by (auto simp: findOne_def read_db_def call_def Let_def split: outcome.splits option.splits prod.splits sum.splits)
  moreover have "x \<in> set (inv_reservations (interference (env k) d))"
    using assms(1,3) unfolding rely_def evolves_def by (metis Un_iff set_append)
  ultimately show ?thesis by (simp add: find_None_iff)
qed

lemma reserve_tx_duplicate:
  assumes "reserve_tx now input d = (Inl e, d')" and "isDuplicateKey e"
  shows "\<exists>x \<in> set (inv_reservations d). by_order (iri_OrderNo input) x \<or> by_user_item input x"
  using assms
  by (auto simp: reserve_tx_def decrement_stock_def insert_reservation_def isDuplicateKey_def Let_def
      split: option.splits if_splits)

lemma reserve_tx_not_plain: "fst (reserve_tx now input d) \<noteq> Inl (Plain msg)"
  by (simp add: reserve_tx_def decrement_stock_def insert_reservation_def Let_def split: option.split)

lemma atomically_not_plain:
  assumes "atomically c body d = (b, d')" and "\<And>u. fst (body u) \<noteq> Inl (Plain msg)"
    and "outcome_of c \<noteq> Lost_before (Plain msg) \<and> outcome_of c \<noteq> Lost_after (Plain msg)"
  shows "b \<noteq> Inl (Plain msg)"
proof (cases "body (interference c d)")
  case (Pair r d1)
  with assms show ?thesis
    using assms(2) [of "interference c d"]
    by (cases "outcome_of c"; cases r) (auto simp: atomically_def call_def Let_def)
qed

text \<open>The error "duplicate reservation has no committed winner" cannot arise: with faults that are
  failures of the infrastructure and other clients that only add reservations, a duplicate key always
  leads to its winner.\<close>

theorem duplicate_has_winner:
  assumes re: "rely env" and fo: "faults_ok env" and msg: "msg = ''duplicate reservation has no committed winner''"
    and genuine: "\<forall>k. outcome_of (env k) \<noteq> Lost_before (Plain msg) \<and> outcome_of (env k) \<noteq> Lost_after (Plain msg)"
    and run: "ReserveSeckillStock env now input d = (res, d')"
  shows "res \<noteq> Inl (Plain msg)"
proof
  assume bad: "res = Inl (Plain msg)"
  obtain a d1 where a: "findByOrderNo env 0 (iri_OrderNo input) d = (a, d1)" by fastforce
  obtain b d2 where b: "reserveOnce (env 2) now input d1 = (b, d2)" by fastforce
  obtain c d3 where c: "findByOrderNo env 3 (iri_OrderNo input) d2 = (c, d3)" by fastforce
  obtain e d4 where e: "findByUserItem env 5 (iri_ActivityID input) (iri_ItemID input) (iri_UserID input) d3 = (e, d4)" by fastforce
  have nf: "a \<noteq> Inl (Plain msg)" "c \<noteq> Inl (Plain msg)" "e \<noteq> Inl (Plain msg)"
    using a c e by (auto simp: findByOrderNo_def findByUserItem_def findOne_def split: prod.splits sum.splits option.splits)
  have nb: "b \<noteq> Inl (Plain msg)"
    by (rule atomically_not_plain [OF b [unfolded reserveOnce_def] reserve_tx_not_plain]) (use genuine in simp)
  have nr: "replayOrder y input \<noteq> Inl (Plain msg)" for y by (simp add: replayOrder_def)
  from run bad a b c e nf nb nr obtain err where err: "b = Inl err" "isDuplicateKey err" "c = Inr None" "e = Inr None"
    by (auto simp: ReserveSeckillStock_def split: sum.splits option.splits if_splits)
  have "\<not> infra_error err" using err(2) by (simp add: infra_error_def isDuplicateKey_def)
  with atomically_answer [OF fo b [unfolded reserveOnce_def]] err(1)
  have "\<exists>d''. reserve_tx now input d2 = (Inl err, d'')"
    by (auto split: prod.splits sum.splits)
  with reserve_tx_duplicate err(2) obtain x
    where x: "x \<in> set (inv_reservations d2)" "by_order (iri_OrderNo input) x \<or> by_user_item input x" by blast
  have "evolves d2 d3" using findOne_evolves [OF re] c by (simp add: findByOrderNo_def)
  then have "x \<in> set (inv_reservations d3)" using x(1) by (auto simp: evolves_def)
  with x findOne_none [OF re] c e err show False
    unfolding findByOrderNo_def findByUserItem_def by blast
qed

theorem duplicate_has_winner_witness:
  "fst (ReserveSeckillStock lost_commit 5 (demo_input ''A'' 10) demo_inventory)
     \<noteq> Inl (Plain ''duplicate reservation has no committed winner'')"
proof -
  obtain res d1 where a: "ReserveSeckillStock lost_commit 5 (demo_input ''A'' 10) demo_inventory = (res, d1)" by fastforce
  have r: "rely lost_commit" by (simp add: rely_def lost_commit_def)
  have f: "faults_ok lost_commit" by (simp add: faults_ok_def lost_commit_def infra_error_def)
  have "\<forall>k. outcome_of (lost_commit k) \<noteq> Lost_before (Plain m) \<and> outcome_of (lost_commit k) \<noteq> Lost_after (Plain m)" for m
    by (simp add: lost_commit_def)
  from duplicate_has_winner [OF r f refl this a] a show ?thesis by simp
qed

text \<open>Identifiers are handed out in order, so a new item's is not in use.\<close>

definition ids_assigned :: "inventory_db \<Rightarrow> bool" where
  "ids_assigned d \<longleftrightarrow> map it_ID (inv_items d) = map (\<lambda>k. of_nat (k + 1)) [0..<length (inv_items d)]"

lemma next_item_id_fresh:
  assumes "ids_assigned d" and "length (inv_items d) + 1 < 2 ^ 64"
  shows "next_item_id d \<notin> it_ID ` set (inv_items d)"
proof
  assume "next_item_id d \<in> it_ID ` set (inv_items d)"
  then have "next_item_id d \<in> set (map it_ID (inv_items d))" by simp
  then obtain k where k: "k < length (inv_items d)" "(of_nat (length (inv_items d) + 1) :: u64) = of_nat (k + 1)"
    using assms(1) unfolding ids_assigned_def by (auto simp: next_item_id_def)
  have u: "unat (of_nat m :: u64) = m" if "m < 2 ^ 64" for m
    using that by (simp add: unat_of_nat take_bit_nat_eq_self)
  have "length (inv_items d) + 1 = unat (of_nat (length (inv_items d) + 1) :: u64)"
    by (rule u [symmetric]) (use assms(2) in simp)
  also have "\<dots> = unat (of_nat (k + 1) :: u64)" by (simp only: k(2))
  also have "\<dots> = k + 1" by (rule u) (use assms(2) k(1) in simp)
  finally show False using k(1) by simp
qed

lemma insert_item_ok:
  assumes ok: "inventory_ok d" and ids: "ids_assigned d" and room: "length (inv_items d) + 1 < 2 ^ 64"
    and stock: "it_AvailableStock row = it_InitialStock row"
    and ins: "insert_item row d = (Inr i, d')"
  shows "inventory_ok d' \<and> ids_assigned d'"
proof -
  let ?n = "next_item_id d"
  have fresh: "?n \<notin> it_ID ` set (inv_items d)" by (rule next_item_id_fresh [OF ids room])
  have d': "inv_items d' = inv_items d @ [row\<lparr>it_ID := ?n, it_Version := 0\<rparr>]" "inv_reservations d' = inv_reservations d"
    and pos: "0 \<le> it_AvailableStock row"
    using ins by (auto simp: insert_item_def split: if_splits)
  have "reserved ?n d' = []"
    using ok fresh by (auto simp: reserved_def d' filter_empty_conv inventory_ok_def) (metis image_eqI)
  moreover have "reserved j d' = reserved j d" for j by (simp add: reserved_def d')
  ultimately have "inventory_ok d'"
    using ok fresh stock pos by (auto simp: inventory_ok_def d' image_iff)
  moreover have "ids_assigned d'" using ids by (simp add: ids_assigned_def d' next_item_id_def)
  ultimately show ?thesis by blast
qed

text \<open>Creating an item, whatever becomes of the request, keeps the invariant: the whole stock of
  the new item is available and nothing else changes.\<close>

theorem CreateSeckillItem_ok:
  assumes "inventory_ok d" and "ids_assigned d" and "length (inv_items d) + 1 < 2 ^ 64" and "interference c = id"
    and "CreateSeckillItem products c now input d = (res, d')"
  shows "inventory_ok d' \<and> ids_assigned d' \<and> inv_reservations d' = inv_reservations d \<and>
    (\<exists>is. inv_items d' = inv_items d @ is \<and> (\<forall>i \<in> set is. it_AvailableStock i = it_InitialStock i \<and> 0 < it_InitialStock i))"
proof -
  let ?P = "\<lambda>d'. inventory_ok d' \<and> ids_assigned d' \<and> inv_reservations d' = inv_reservations d \<and>
    (\<exists>is. inv_items d' = inv_items d @ is \<and> (\<forall>i \<in> set is. it_AvailableStock i = it_InitialStock i \<and> 0 < it_InitialStock i))"
  have same: "?P d" using assms(1,2) by simp
  have ins: "?P (snd (insert_item row d))"
    if "it_AvailableStock row = it_InitialStock row" "0 < it_InitialStock row" for row
  proof (cases "fst (insert_item row d)")
    case (Inl e)
    then have "snd (insert_item row d) = d" by (auto simp: insert_item_def split: if_splits)
    with same show ?thesis by simp
  next
    case (Inr i)
    then have i: "insert_item row d = (Inr i, snd (insert_item row d))" by (metis prod.collapse)
    have "inv_reservations (snd (insert_item row d)) = inv_reservations d"
      "inv_items (snd (insert_item row d)) = inv_items d @ [row\<lparr>it_ID := next_item_id d, it_Version := 0\<rparr>]"
      using Inr by (auto simp: insert_item_def split: if_splits)
    with insert_item_ok [OF assms(1-3) that(1) i] that show ?thesis by simp
  qed
  have create: "?P (snd (CreateInventoryItem c now input snapshot d))" if "0 < ci_Stock input" for snapshot
  proof -
    let ?row = "\<lparr>it_ID = 0, it_ActivityID = ci_ActivityID input, it_Snapshot = snapshot, it_InitialStock = ci_Stock input,
            it_AvailableStock = ci_Stock input, it_Version = 0, it_CreatedAt = Truncate now microsecond\<rparr>"
    have "snd (CreateInventoryItem c now input snapshot d) \<in> {d, snd (insert_item ?row d)}"
      using assms(4) by (auto simp: CreateInventoryItem_def call_def Let_def split: outcome.splits sum.splits prod.splits)
    with same ins [of ?row] that show ?thesis by auto
  qed
  have "?P (snd (CreateSeckillItem products c now input d))"
    using same create by (simp add: CreateSeckillItem_def split: sum.splits)
  with assms(5) show ?thesis by simp
qed

theorem CreateSeckillItem_ok_witness:
  "let d' = snd (CreateSeckillItem (\<lambda>_. Inr (demo_snapshot\<lparr>fs_SKUID := 4\<rparr>)) (quiet 0) 9
     \<lparr>ci_ActivityID = 7, ci_SKUID = 4, ci_Stock = 20\<rparr> demo_inventory) in inventory_ok d' \<and> ids_assigned d'"
proof -
  obtain res d' where r: "CreateSeckillItem (\<lambda>_. Inr (demo_snapshot\<lparr>fs_SKUID := 4\<rparr>)) (quiet 0) 9
     \<lparr>ci_ActivityID = 7, ci_SKUID = 4, ci_Stock = 20\<rparr> demo_inventory = (res, d')" by fastforce
  have "ids_assigned demo_inventory" "length (inv_items demo_inventory) + 1 < 2 ^ 64"
    by (simp_all add: ids_assigned_def demo_inventory_def)
  from CreateSeckillItem_ok [OF demo_inventory_ok this _ r] r show ?thesis by (simp add: Let_def quiet_def)
qed

end
