(* ===== verification/Utf8.thy ===== *)
theory Utf8
  imports Prelude
begin

text \<open>
  UTF-8 as the Go standard library reads it (\<open>unicode/utf8\<close>), on byte strings: the split of a text into runes,
  validity, and the texts that \<open>encoding/json\<close> makes of others, in which each byte that starts no rune is
  replaced by U+FFFD.
\<close>

section \<open>Runes\<close>

definition within :: "nat \<Rightarrow> nat \<Rightarrow> char \<Rightarrow> bool" where
  "within low high c \<longleftrightarrow> low \<le> byte c \<and> byte c \<le> high"

text \<open>
  \<open>utf8.DecodeRuneInString\<close>: the number of bytes of the rune that a text starts with, 0 where the decoder
  answers \<open>RuneError\<close> of width one. The second byte's range depends on the first: no overlong forms, no
  surrogates, nothing above U+10FFFF.
\<close>

definition rune_len :: "string \<Rightarrow> nat" where
  "rune_len s = (case s of
       [] \<Rightarrow> 0
     | c # t \<Rightarrow>
         if within 0 127 c then 1
         else if within 194 223 c
         then (case t of c1 # _ \<Rightarrow> if within 128 191 c1 then 2 else 0 | _ \<Rightarrow> 0)
         else if within 224 239 c
         then (case t of
             c1 # c2 # _ \<Rightarrow>
               if within (if byte c = 224 then 160 else 128) (if byte c = 237 then 159 else 191) c1 \<and> within 128 191 c2
               then 3 else 0
           | _ \<Rightarrow> 0)
         else if within 240 244 c
         then (case t of
             c1 # c2 # c3 # _ \<Rightarrow>
               if within (if byte c = 240 then 144 else 128) (if byte c = 244 then 143 else 191) c1 \<and>
                 within 128 191 c2 \<and> within 128 191 c3
               then 4 else 0
           | _ \<Rightarrow> 0)
         else 0)"

text \<open>The runes of a text in order, \<open>None\<close> for a byte that starts none.\<close>

function runes :: "string \<Rightarrow> string option list" where
  "runes s = (if s = [] then []
     else if rune_len s = 0 then None # runes (tl s)
     else Some (take (rune_len s) s) # runes (drop (rune_len s) s))"
  by pat_completeness auto
termination by (relation "measure length") auto

declare runes.simps [simp del]

definition valid_utf8 :: "string \<Rightarrow> bool" where
  "valid_utf8 s \<longleftrightarrow> None \<notin> set (runes s)"

text \<open>U+FFFD.\<close>

definition replacement :: string where
  "replacement = map char_of [239, 191, 189 :: nat]"

definition to_valid_utf8 :: "string \<Rightarrow> string" where
  "to_valid_utf8 s = concat (map (\<lambda>r. case r of None \<Rightarrow> replacement | Some bytes \<Rightarrow> bytes) (runes s))"

section \<open>Valid texts are kept, and only those\<close>

lemma runes_Nil [simp]: "runes [] = []"
  by (simp add: runes.simps)

lemma to_valid_utf8_Nil [simp]: "to_valid_utf8 [] = []"
  by (simp add: to_valid_utf8_def)

lemma valid_utf8_Nil [simp]: "valid_utf8 []"
  by (simp add: valid_utf8_def)

lemma runes_bad: "rune_len (c # s) = 0 \<Longrightarrow> runes (c # s) = None # runes s"
  and runes_good: "rune_len s \<noteq> 0 \<Longrightarrow> s \<noteq> [] \<Longrightarrow> runes s = Some (take (rune_len s) s) # runes (drop (rune_len s) s)"
  by (subst runes.simps, simp)+

lemma length_to_valid_utf8:
  "length s \<le> length (to_valid_utf8 s) \<and> (\<not> valid_utf8 s \<longrightarrow> length s < length (to_valid_utf8 s)) \<and>
   (valid_utf8 s \<longrightarrow> to_valid_utf8 s = s)"
proof (induction s rule: runes.induct)
  case (1 s)
  consider "s = []" | c t where "s = c # t" "rune_len s = 0" | "s \<noteq> []" "rune_len s \<noteq> 0" by (cases s) auto
  then show ?case
  proof cases
    case 2
    with 1(1) show ?thesis by (auto simp: valid_utf8_def to_valid_utf8_def replacement_def runes_bad)
  next
    case 3
    obtain r t where t: "take (rune_len s) s = r" "drop (rune_len s) s = t" by simp
    then have s: "s = r @ t" "runes s = Some r # runes t" using append_take_drop_id [of "rune_len s" s] runes_good [OF 3(2,1)] by auto
    from 1(2) [OF 3, unfolded t(2)] show ?thesis unfolding valid_utf8_def to_valid_utf8_def s(2) by (simp add: s(1))
  qed simp
qed

lemma to_valid_utf8_id [simp]: "valid_utf8 s \<Longrightarrow> to_valid_utf8 s = s"
  using length_to_valid_utf8 by blast

lemma to_valid_utf8_same: "to_valid_utf8 s = s \<longleftrightarrow> valid_utf8 s"
  using length_to_valid_utf8 [of s] by auto

section \<open>ASCII\<close>

lemma rune_len_ascii: "byte c \<le> 127 \<Longrightarrow> rune_len (c # s) = 1"
  by (simp add: rune_len_def within_def)

lemma runes_ascii: "byte c \<le> 127 \<Longrightarrow> runes (c # s) = Some [c] # runes s"
  by (simp add: runes.simps [of "c # s"] rune_len_ascii)

lemma valid_utf8_ascii_Cons [simp]: "byte c \<le> 127 \<Longrightarrow> valid_utf8 (c # s) \<longleftrightarrow> valid_utf8 s"
  by (simp add: valid_utf8_def runes_ascii)

lemma to_valid_utf8_ascii_Cons: "byte c \<le> 127 \<Longrightarrow> to_valid_utf8 (c # s) = c # to_valid_utf8 s"
  by (simp add: to_valid_utf8_def runes_ascii)

lemma valid_utf8_ascii_append: "\<forall>c \<in> set p. byte c \<le> 127 \<Longrightarrow> valid_utf8 (p @ s) \<longleftrightarrow> valid_utf8 s"
  by (induction p) simp_all

lemma to_valid_utf8_ascii_append: "\<forall>c \<in> set p. byte c \<le> 127 \<Longrightarrow> to_valid_utf8 (p @ s) = p @ to_valid_utf8 s"
  by (induction p) (simp_all add: to_valid_utf8_ascii_Cons)

lemma valid_utf8_printable [go_string]: "printable s \<Longrightarrow> valid_utf8 s"
  by (induction s) simp_all

end
