(* ===== verification/OrderEvents.thy ===== *)
theory OrderEvents
  imports Domain Utf8
begin

text \<open>
  The domain event \<open>order.created\<close>, version 1 (\<open>internal/order/events/order_created.go\<close>): its
  identifier, its validation, and its JSON form. A JSON text is represented by the value it denotes;
  a byte sequence that is not JSON is \<open>None\<close>. Object members are compared by their exact names. The
  encoder writes a byte of a text that is not UTF-8 as U+FFFD (\<open>to_valid_utf8\<close>), as \<open>json.Marshal\<close> does.
\<close>

section \<open>JSON\<close>

datatype json = JNull | JBool bool | JInt int | JFraction | JString string | JArray "json list"
  | JObject "(string \<times> json) list"

text \<open>\<open>json.Unmarshal\<close> into a struct: a member that is absent or null leaves the zero value, a member of
  another type or out of range is an error.\<close>

definition json_string :: "json \<Rightarrow> string \<Rightarrow> string option" where
  "json_string j name = (case j of
       JObject ms \<Rightarrow> (case map_of (rev ms) name of
           None \<Rightarrow> Some [] | Some JNull \<Rightarrow> Some [] | Some (JString s) \<Rightarrow> Some s | _ \<Rightarrow> None)
     | JNull \<Rightarrow> Some []
     | _ \<Rightarrow> None)"

definition json_int :: "json \<Rightarrow> string \<Rightarrow> int option" where
  "json_int j name = (case j of
       JObject ms \<Rightarrow> (case map_of (rev ms) name of
           None \<Rightarrow> Some 0 | Some JNull \<Rightarrow> Some 0
         | Some (JInt i) \<Rightarrow> if in_i64 i then Some i else None | _ \<Rightarrow> None)
     | JNull \<Rightarrow> Some 0
     | _ \<Rightarrow> None)"

definition json_uint :: "json \<Rightarrow> string \<Rightarrow> u64 option" where
  "json_uint j name = (case j of
       JObject ms \<Rightarrow> (case map_of (rev ms) name of
           None \<Rightarrow> Some 0 | Some JNull \<Rightarrow> Some 0
         | Some (JInt i) \<Rightarrow> if 0 \<le> i \<and> i < 2 ^ 64 then Some (of_int i) else None | _ \<Rightarrow> None)
     | JNull \<Rightarrow> Some 0
     | _ \<Rightarrow> None)"

section \<open>The event\<close>

abbreviation OrderCreatedEventType :: string where "OrderCreatedEventType \<equiv> ''order.created''"
abbreviation OrderCreatedVersion :: int where "OrderCreatedVersion \<equiv> 1"
abbreviation OrderSourceNormal :: string where "OrderSourceNormal \<equiv> ''NORMAL''"
abbreviation OrderSourceSeckill :: string where "OrderSourceSeckill \<equiv> ''SECKILL''"

record OrderCreatedV1 =
  ev_EventID :: string
  ev_EventType :: string
  ev_SchemaVersion :: int
  ev_OrderNo :: string
  ev_UserID :: u64
  ev_OrderSource :: string
  ev_TotalAmountCent :: int
  ev_CreatedAtMS :: int

definition StableEventID :: "string \<Rightarrow> string" where
  "StableEventID orderNo = OrderCreatedEventType @ ''.v1:'' @ TrimSpace orderNo"

text \<open>\<open>strings.ToUpper\<close>, on the ASCII letters.\<close>

definition ToUpper :: "string \<Rightarrow> string" where
  "ToUpper s = map (\<lambda>c. if 97 \<le> byte c \<and> byte c \<le> 122 then char_of (byte c - 32) else c) s"

definition OrderCreatedV1_Validate :: "OrderCreatedV1 \<Rightarrow> goerr option" where
  "OrderCreatedV1_Validate e =
     (if ev_EventType e \<noteq> OrderCreatedEventType \<or> ev_SchemaVersion e \<noteq> OrderCreatedVersion
      then Some (Sentinel ErrUnsupportedVersion)
      else if TrimSpace (ev_EventID e) = [] \<or> TrimSpace (ev_OrderNo e) = [] \<or>
        ev_EventID e \<noteq> StableEventID (ev_OrderNo e) \<or> ev_UserID e = 0 \<or> ev_TotalAmountCent e < 0 \<or>
        ev_CreatedAtMS e \<le> 0
      then Some (Sentinel ErrInvalidEvent)
      else if ev_OrderSource e \<noteq> OrderSourceNormal \<and> ev_OrderSource e \<noteq> OrderSourceSeckill
      then Some (Sentinel ErrInvalidEvent)
      else None)"

definition NewOrderCreatedV1 :: "Order \<Rightarrow> string \<Rightarrow> OrderCreatedV1 result" where
  "NewOrderCreatedV1 created source =
     (let event = \<lparr>ev_EventID = StableEventID (o_OrderNo created), ev_EventType = OrderCreatedEventType,
            ev_SchemaVersion = OrderCreatedVersion, ev_OrderNo = TrimSpace (o_OrderNo created),
            ev_UserID = o_UserID created, ev_OrderSource = ToUpper (TrimSpace source),
            ev_TotalAmountCent = o_TotalAmountCent created, ev_CreatedAtMS = UnixMilli (o_CreatedAt created)\<rparr>
      in case OrderCreatedV1_Validate event of Some e \<Rightarrow> Inl e | None \<Rightarrow> Inr event)"

text \<open>\<open>json.Marshal\<close> of an event. What it writes for a text is the text with invalid bytes replaced.\<close>

definition json_of_event :: "OrderCreatedV1 \<Rightarrow> json" where
  "json_of_event e = JObject
     [(''event_id'', JString (to_valid_utf8 (ev_EventID e))), (''event_type'', JString (to_valid_utf8 (ev_EventType e))),
      (''schema_version'', JInt (ev_SchemaVersion e)), (''order_no'', JString (to_valid_utf8 (ev_OrderNo e))),
      (''user_id'', JInt (uint (ev_UserID e))), (''order_source'', JString (to_valid_utf8 (ev_OrderSource e))),
      (''total_amount_cent'', JInt (ev_TotalAmountCent e)), (''created_at_ms'', JInt (ev_CreatedAtMS e))]"

definition EncodeOrderCreatedV1 :: "OrderCreatedV1 \<Rightarrow> json result" where
  "EncodeOrderCreatedV1 event = (case OrderCreatedV1_Validate event of
       Some e \<Rightarrow> Inl e
     | None \<Rightarrow> Inr (json_of_event event))"

definition unmarshal_event :: "json \<Rightarrow> OrderCreatedV1 option" where
  "unmarshal_event j =
     (case (json_string j ''event_id'', json_string j ''event_type'', json_int j ''schema_version'',
            json_string j ''order_no'', json_uint j ''user_id'', json_string j ''order_source'',
            json_int j ''total_amount_cent'', json_int j ''created_at_ms'') of
        (Some i, Some t, Some v, Some n, Some u, Some s, Some a, Some c) \<Rightarrow>
          Some \<lparr>ev_EventID = i, ev_EventType = t, ev_SchemaVersion = v, ev_OrderNo = n, ev_UserID = u,
            ev_OrderSource = s, ev_TotalAmountCent = a, ev_CreatedAtMS = c\<rparr>
      | _ \<Rightarrow> None)"

definition DecodeOrderCreatedV1 :: "json option \<Rightarrow> OrderCreatedV1 result" where
  "DecodeOrderCreatedV1 value = (case value of
       None \<Rightarrow> Inl (Wrapf ''decode order event header'' (Sentinel ErrInvalidEvent))
     | Some j \<Rightarrow>
         (case (json_string j ''event_type'', json_int j ''schema_version'') of
            (Some eventType, Some schemaVersion) \<Rightarrow>
              if eventType \<noteq> OrderCreatedEventType \<or> schemaVersion \<noteq> OrderCreatedVersion
              then fail ErrUnsupportedVersion
              else (case unmarshal_event j of
                  None \<Rightarrow> Inl (Wrapf ''decode order.created.v1'' (Sentinel ErrInvalidEvent))
                | Some event \<Rightarrow> (case OrderCreatedV1_Validate event of Some e \<Rightarrow> Inl e | None \<Rightarrow> Inr event))
          | _ \<Rightarrow> Inl (Wrapf ''decode order event header'' (Sentinel ErrInvalidEvent))))"

section \<open>Round trip\<close>

definition event_in_range :: "OrderCreatedV1 \<Rightarrow> bool" where
  "event_in_range e \<longleftrightarrow> in_i64 (ev_TotalAmountCent e) \<and> in_i64 (ev_CreatedAtMS e)"

text \<open>What a consumer sees of an encoded event.\<close>

definition readable :: "OrderCreatedV1 \<Rightarrow> OrderCreatedV1" where
  "readable e = e\<lparr>ev_EventID := to_valid_utf8 (ev_EventID e), ev_EventType := to_valid_utf8 (ev_EventType e),
     ev_OrderNo := to_valid_utf8 (ev_OrderNo e), ev_OrderSource := to_valid_utf8 (ev_OrderSource e)\<rparr>"

lemma unmarshal_json_of_event:
  assumes "event_in_range e" and "ev_SchemaVersion e = 1"
  shows "unmarshal_event (json_of_event e) = Some (readable e)"
proof -
  have "uint (ev_UserID e) < 2 ^ LENGTH(64)" by (rule uint_bounded)
  then have u: "uint (ev_UserID e) < 18446744073709551616" by simp
  show ?thesis
    using assms u
    by (simp add: unmarshal_event_def json_of_event_def json_string_def json_int_def json_uint_def event_in_range_def
        in_i64_def max_i64_def readable_def)
qed

lemma Validate_version: "OrderCreatedV1_Validate e = None \<Longrightarrow> ev_EventType e = OrderCreatedEventType \<and> ev_SchemaVersion e = 1"
  by (auto simp: OrderCreatedV1_Validate_def split: if_splits)

lemma event_type_utf8 [simp]: "to_valid_utf8 OrderCreatedEventType = OrderCreatedEventType"
  "to_valid_utf8 OrderSourceNormal = OrderSourceNormal" "to_valid_utf8 OrderSourceSeckill = OrderSourceSeckill"
  by (simp_all add: byte_def)

lemma StableEventID_utf8: "valid_utf8 (StableEventID orderNo) \<longleftrightarrow> valid_utf8 (TrimSpace orderNo)"
  by (simp add: StableEventID_def byte_def)

text \<open>A valid event is readable as itself just when its order number and that without surrounding space are UTF-8.\<close>

lemma readable_same:
  assumes "OrderCreatedV1_Validate e = None"
  shows "readable e = e \<longleftrightarrow> valid_utf8 (ev_OrderNo e) \<and> valid_utf8 (TrimSpace (ev_OrderNo e))"
proof -
  have "ev_EventID e = StableEventID (ev_OrderNo e)" "to_valid_utf8 (ev_EventType e) = ev_EventType e"
    "to_valid_utf8 (ev_OrderSource e) = ev_OrderSource e"
    using assms by (auto simp: OrderCreatedV1_Validate_def split: if_splits)
  moreover have "readable e = e \<longleftrightarrow> to_valid_utf8 (ev_EventID e) = ev_EventID e \<and> to_valid_utf8 (ev_EventType e) = ev_EventType e \<and>
      to_valid_utf8 (ev_OrderNo e) = ev_OrderNo e \<and> to_valid_utf8 (ev_OrderSource e) = ev_OrderSource e"
    by (cases e) (simp add: readable_def)
  ultimately show ?thesis by (auto simp: to_valid_utf8_same StableEventID_utf8)
qed

lemma Decode_json_of_event:
  assumes "OrderCreatedV1_Validate e = None" and "event_in_range e"
  shows "DecodeOrderCreatedV1 (Some (json_of_event e)) =
    (case OrderCreatedV1_Validate (readable e) of Some err \<Rightarrow> Inl err | None \<Rightarrow> Inr (readable e))"
proof -
  note v = Validate_version [OF assms(1)]
  have "json_string (json_of_event e) ''event_type'' = Some OrderCreatedEventType"
    using v by (simp add: json_of_event_def json_string_def)
  moreover have "json_int (json_of_event e) ''schema_version'' = Some 1"
    using v by (simp add: json_of_event_def json_int_def in_i64_def max_i64_def)
  ultimately show ?thesis
    using unmarshal_json_of_event [OF assms(2)] v by (simp add: DecodeOrderCreatedV1_def)
qed

lemma Decode_Encode_eq:
  assumes "EncodeOrderCreatedV1 e = Inr j" and "event_in_range e"
    and "valid_utf8 (ev_OrderNo e)" and "TrimSpace (ev_OrderNo e) = ev_OrderNo e"
  shows "DecodeOrderCreatedV1 (Some j) = Inr e"
proof -
  have "OrderCreatedV1_Validate e = None" and "j = json_of_event e"
    using assms(1) by (auto simp: EncodeOrderCreatedV1_def split: option.splits)
  then show ?thesis using Decode_json_of_event [OF _ assms(2)] readable_same [of e] assms(3,4) by simp
qed

lemma Decode_Inr:
  assumes "DecodeOrderCreatedV1 v = Inr e"
  shows "OrderCreatedV1_Validate e = None" and "\<exists>j. v = Some j \<and> unmarshal_event j = Some e"
  using assms by (auto simp: DecodeOrderCreatedV1_def split: option.splits if_splits)

lemma Decode_other_version:
  assumes "json_string j ''event_type'' = Some t" and "json_int j ''schema_version'' = Some n"
    and "t \<noteq> OrderCreatedEventType \<or> n \<noteq> OrderCreatedVersion"
  shows "DecodeOrderCreatedV1 (Some j) = fail ErrUnsupportedVersion"
  using assms by (simp add: DecodeOrderCreatedV1_def)


definition demo_event :: OrderCreatedV1 where
  "demo_event = \<lparr>ev_EventID = ''order.created.v1:T1500-42-0102030405060708'', ev_EventType = OrderCreatedEventType,
     ev_SchemaVersion = 1, ev_OrderNo = ''T1500-42-0102030405060708'', ev_UserID = 5,
     ev_OrderSource = OrderSourceSeckill, ev_TotalAmountCent = 9900, ev_CreatedAtMS = 1600\<rparr>"

lemma demo_event_valid: "OrderCreatedV1_Validate demo_event = None" "event_in_range demo_event"
  by (simp_all add: OrderCreatedV1_Validate_def demo_event_def StableEventID_def byte_def event_in_range_def
      in_i64_def max_i64_def)

definition broken_event :: OrderCreatedV1 where
  "broken_event = demo_event\<lparr>ev_OrderNo := ''T1'' @ [char_of (255 :: nat)], ev_EventID := StableEventID (''T1'' @ [char_of (255 :: nat)])\<rparr>"


lemma NewOrderCreatedV1_valid:
  assumes "NewOrderCreatedV1 ord source = Inr e"
  shows "OrderCreatedV1_Validate e = None" and "ev_EventID e = StableEventID (o_OrderNo ord)"
    and "ev_OrderNo e = TrimSpace (o_OrderNo ord)" and "ev_UserID e = o_UserID ord"
    and "ev_TotalAmountCent e = o_TotalAmountCent ord"
  using assms by (auto simp: NewOrderCreatedV1_def Let_def split: option.splits)

end
