(* ===== verification/OrderRepo.thy ===== *)
theory OrderRepo
  imports Sql OrderEvents RpcPolicy
begin

text \<open>
  The order service: the tables \<open>orders\<close>, \<open>order_items\<close> and \<open>order_outbox_events\<close>
  (\<open>migrations/000005\<close>, \<open>000009\<close>), the repository (\<open>internal/order/mysqlrepo/repository.go\<close>),
  the service (\<open>internal/order/order.go\<close>) and the RPC server (\<open>internal/order/rpcserver\<close>). An order,
  its items and its event are written in one transaction.
\<close>

section \<open>Tables\<close>

record order_row =
  or_id :: u64
  or_order_no :: string
  or_user_id :: u64
  or_status :: nat
  or_total_amount_cent :: int
  or_created_at :: time

text \<open>A row of \<open>order_items\<close>: the order it belongs to and the item with its own identifier.\<close>

type_synonym order_item_row = "u64 \<times> OrderItem"

abbreviation OutboxStatusPending :: nat where "OutboxStatusPending \<equiv> 1"
abbreviation OutboxStatusPublished :: nat where "OutboxStatusPublished \<equiv> 2"

record outbox_row =
  ob_id :: u64
  ob_event_id :: string
  ob_order_id :: u64
  ob_aggregate_key :: string
  ob_event_type :: string
  ob_schema_version :: int
  ob_payload :: json
  ob_status :: nat
  ob_attempts :: int
  ob_next_attempt_at :: time
  ob_claimed_by :: "string option"
  ob_claim_until :: "time option"
  ob_last_error_code :: "string option"
  ob_published_at :: "time option"
  ob_created_at :: time

record order_db =
  od_orders :: "order_row list"
  od_items :: "order_item_row list"
  od_outbox :: "outbox_row list"

definition next_id_in :: "'a list \<Rightarrow> u64" where
  "next_id_in rows = of_nat (length rows + 1)"

section \<open>Normalisation of the requested items\<close>

fun normalize_loop :: "ItemInput list \<Rightarrow> u64 list \<Rightarrow> OrderItem list \<Rightarrow> int \<Rightarrow> (OrderItem list \<times> int) result" where
  "normalize_loop [] seen items amount = Inr (items, amount)"
| "normalize_loop (input # inputs) seen items amount =
     (let productName = TrimSpace (in_ProductName input);
          skuCode = TrimSpace (in_SKUCode input);
          skuName = TrimSpace (in_SKUName input);
          price = in_UnitPriceCent input;
          quantity = in_Quantity input
      in if in_SKUID input = 0 \<or> productName = [] \<or> skuCode = [] \<or> skuName = [] \<or> price < 0 \<or> quantity < 1 \<or> 100 < quantity
         then fail ErrInvalidOrder
         else if in_SKUID input \<in> set seen then fail ErrInvalidOrder
         else if price \<noteq> 0 \<and> go_div max_i64 price < quantity then fail ErrInvalidOrder
         else (let subtotal = wrap_i64 (price * quantity) in
           if wrap_i64 (max_i64 - subtotal) < amount then fail ErrInvalidOrder
           else normalize_loop inputs (in_SKUID input # seen)
             (items @ [\<lparr>oi_ID = 0, oi_SKUID = in_SKUID input, oi_ProductName = productName, oi_SKUCode = skuCode,
                oi_SKUName = skuName, oi_UnitPriceCent = price, oi_Quantity = quantity, oi_SubtotalCent = subtotal\<rparr>])
             (wrap_i64 (amount + subtotal))))"

definition normalizeItems :: "u64 \<Rightarrow> string \<Rightarrow> ItemInput list \<Rightarrow> (OrderItem list \<times> int) result" where
  "normalizeItems userID orderNo inputs =
     (if userID = 0 \<or> orderNo = [] \<or> inputs = [] then fail ErrInvalidOrder
      else normalize_loop inputs [] [] 0)"

definition same_item :: "OrderItem \<Rightarrow> OrderItem \<Rightarrow> bool" where
  "same_item left right \<longleftrightarrow> oi_SKUID left = oi_SKUID right \<and> oi_ProductName left = oi_ProductName right \<and>
     oi_SKUCode left = oi_SKUCode right \<and> oi_SKUName left = oi_SKUName right \<and>
     oi_UnitPriceCent left = oi_UnitPriceCent right \<and> oi_Quantity left = oi_Quantity right \<and>
     oi_SubtotalCent left = oi_SubtotalCent right"

definition samePayload :: "Order \<Rightarrow> u64 \<Rightarrow> int \<Rightarrow> OrderItem list \<Rightarrow> bool" where
  "samePayload found userID amount items \<longleftrightarrow> o_UserID found = userID \<and> o_TotalAmountCent found = amount \<and>
     length (o_Items found) = length items \<and> list_all2 same_item (o_Items found) items"

section \<open>Queries\<close>

definition findItems :: "order_db \<Rightarrow> u64 \<Rightarrow> OrderItem list" where
  "findItems d orderID = sort_key oi_ID (map snd (filter (\<lambda>r. fst r = orderID) (od_items d)))"

definition load_order :: "order_row \<Rightarrow> OrderItem list \<Rightarrow> Order" where
  "load_order r items = \<lparr>o_ID = or_id r, o_OrderNo = or_order_no r, o_UserID = or_user_id r, o_Status = or_status r,
     o_TotalAmountCent = or_total_amount_cent r, o_Items = items, o_CreatedAt = or_created_at r\<rparr>"

text \<open>The two queries outside a transaction are calls \<open>k\<close> and \<open>k + 1\<close> of the environment.\<close>

definition find_order :: "string \<Rightarrow> order_db env \<Rightarrow> nat \<Rightarrow> (order_row \<Rightarrow> bool) \<Rightarrow> order_db \<Rightarrow> Order result \<times> order_db" where
  "find_order text env k cond d =
     (case read_db (env k) (\<lambda>d. find cond (od_orders d)) d of
        (Inl e, d1) \<Rightarrow> (Inl (Wrapf text e), d1)
      | (Inr None, d1) \<Rightarrow> (fail ErrOrderNotFound, d1)
      | (Inr (Some r), d1) \<Rightarrow>
          (case read_db (env (k + 1)) (\<lambda>d. findItems d (or_id r)) d1 of
             (Inl e, d2) \<Rightarrow> (Inl (Wrapf ''find order items'' e), d2)
           | (Inr items, d2) \<Rightarrow> (Inr (load_order r items), d2)))"

definition FindOwned :: "order_db env \<Rightarrow> nat \<Rightarrow> u64 \<Rightarrow> u64 \<Rightarrow> order_db \<Rightarrow> Order result \<times> order_db" where
  "FindOwned env k userID orderID =
     find_order ''find owned order'' env k (\<lambda>r. or_id r = orderID \<and> or_user_id r = userID)"

definition FindOwnedByOrderNo :: "order_db env \<Rightarrow> nat \<Rightarrow> u64 \<Rightarrow> string \<Rightarrow> order_db \<Rightarrow> Order result \<times> order_db" where
  "FindOwnedByOrderNo env k userID orderNo =
     find_order ''find owned order by number'' env k (\<lambda>r. or_order_no r = TrimSpace orderNo \<and> or_user_id r = userID)"

definition findByOrderNoTx :: "string \<Rightarrow> order_db \<Rightarrow> Order result" where
  "findByOrderNoTx orderNo d = (case find (\<lambda>r. or_order_no r = orderNo) (od_orders d) of
       None \<Rightarrow> fail ErrOrderNotFound
     | Some r \<Rightarrow> Inr (load_order r (findItems d (or_id r))))"

section \<open>Creating an order\<close>

text \<open>
  The order number is a \<open>utf8mb4\<close> column: a text that is not UTF-8 is refused in MySQL's strict mode.
  The tables hold only valid texts, so that the order of this check and the unique key does not matter.
\<close>

definition insert_order :: "order_row \<Rightarrow> order_db \<Rightarrow> u64 result \<times> order_db" where
  "insert_order row d =
     (if \<exists>r \<in> set (od_orders d). or_order_no r = or_order_no row then (Inl (MySQLError ER_DUP_ENTRY), d)
      else if table_full (od_orders d) then (Inl (MySQLError ER_AUTOINC_READ_FAILED), d)
      else if \<not> valid_utf8 (or_order_no row) then (Inl (MySQLError ER_TRUNCATED_WRONG_VALUE_FOR_FIELD), d)
      else if \<not> datetime_ok (or_created_at row) then (Inl (MySQLError ER_TRUNCATED_WRONG_VALUE), d)
      else if or_total_amount_cent row < 0 then (Inl (MySQLError ER_CHECK_CONSTRAINT_VIOLATED), d)
      else (Inr (next_id_in (od_orders d)),
            d\<lparr>od_orders := od_orders d @ [row\<lparr>or_id := next_id_in (od_orders d)\<rparr>]\<rparr>))"

fun insert_items :: "u64 \<Rightarrow> OrderItem list \<Rightarrow> order_db \<Rightarrow> OrderItem list result \<times> order_db" where
  "insert_items orderID [] d = (Inr [], d)"
| "insert_items orderID (item # items) d =
     (if oi_UnitPriceCent item < 0 \<or> oi_Quantity item \<le> 0 \<or> oi_SubtotalCent item < 0
      then (Inl (Wrapf ''insert order item'' (MySQLError ER_CHECK_CONSTRAINT_VIOLATED)), d)
      else if table_full (od_items d) then (Inl (Wrapf ''insert order item'' (MySQLError ER_AUTOINC_READ_FAILED)), d)
      else (let row = item\<lparr>oi_ID := next_id_in (od_items d)\<rparr> in
        case insert_items orderID items (d\<lparr>od_items := od_items d @ [(orderID, row)]\<rparr>) of
          (Inl e, d') \<Rightarrow> (Inl e, d')
        | (Inr rows, d') \<Rightarrow> (Inr (row # rows), d')))"

definition insert_outbox :: "outbox_row \<Rightarrow> order_db \<Rightarrow> unit result \<times> order_db" where
  "insert_outbox row d =
     (if \<exists>r \<in> set (od_outbox d). ob_event_id r = ob_event_id row then (Inl (MySQLError ER_DUP_ENTRY), d)
      else if ob_schema_version row \<le> 0 then (Inl (MySQLError ER_CHECK_CONSTRAINT_VIOLATED), d)
      else if table_full (od_outbox d) then (Inl (MySQLError ER_AUTOINC_READ_FAILED), d)
      else (Inr (), d\<lparr>od_outbox := od_outbox d @ [row\<lparr>ob_id := next_id_in (od_outbox d)\<rparr>]\<rparr>))"

text \<open>The transaction ends with the order it found, or with the identifier of the one it wrote.\<close>

datatype created = Existing Order | Written u64

definition create_tx ::
  "time \<Rightarrow> u64 \<Rightarrow> string \<Rightarrow> OrderItem list \<Rightarrow> int \<Rightarrow> order_db \<Rightarrow> created result \<times> order_db" where
  "create_tx now userID orderNo items amount d =
     (let createdAt = Truncate now microsecond in
      case insert_order \<lparr>or_id = 0, or_order_no = orderNo, or_user_id = userID, or_status = 1,
          or_total_amount_cent = amount, or_created_at = createdAt\<rparr> d of
        (Inl err, d1) \<Rightarrow>
          if \<not> isDuplicateKey err then (Inl (Wrapf ''insert order'' err), d1)
          else (case findByOrderNoTx orderNo d1 of
              Inl e \<Rightarrow> (Inl e, d1)
            | Inr found \<Rightarrow> if samePayload found userID amount items then (Inr (Existing found), d1)
                else (fail ErrOrderConflict, d1))
      | (Inr orderID, d1) \<Rightarrow>
          (case insert_items orderID items d1 of
             (Inl e, d2) \<Rightarrow> (Inl e, d2)
           | (Inr rows, d2) \<Rightarrow>
               (let source = (if HasPrefix orderNo ''T'' then OrderSourceSeckill else OrderSourceNormal) in
                case NewOrderCreatedV1 \<lparr>o_ID = orderID, o_OrderNo = orderNo, o_UserID = userID, o_Status = 1,
                    o_TotalAmountCent = amount, o_Items = rows, o_CreatedAt = createdAt\<rparr> source of
                  Inl e \<Rightarrow> (Inl (Wrapf ''build order outbox event'' e), d2)
                | Inr domainEvent \<Rightarrow>
                    (case EncodeOrderCreatedV1 domainEvent of
                       Inl e \<Rightarrow> (Inl e, d2)
                     | Inr payload \<Rightarrow>
                         (case insert_outbox \<lparr>ob_id = 0, ob_event_id = ev_EventID domainEvent, ob_order_id = orderID,
                             ob_aggregate_key = orderNo, ob_event_type = ev_EventType domainEvent,
                             ob_schema_version = ev_SchemaVersion domainEvent, ob_payload = payload,
                             ob_status = OutboxStatusPending, ob_attempts = 0,
                             ob_next_attempt_at = Truncate createdAt millisecond, ob_claimed_by = None,
                             ob_claim_until = None, ob_last_error_code = None, ob_published_at = None,
                             ob_created_at = createdAt\<rparr> d2 of
                            (Inl e, d3) \<Rightarrow> (Inl (Wrapf ''insert order outbox event'' e), d3)
                          | (Inr _, d3) \<Rightarrow> (Inr (Written orderID), d3))))))"

definition CreateIdempotent ::
  "order_db env \<Rightarrow> time \<Rightarrow> u64 \<Rightarrow> string \<Rightarrow> ItemInput list \<Rightarrow> order_db \<Rightarrow> CreateResult result \<times> order_db" where
  "CreateIdempotent env now userID orderNo0 inputs d =
     (let orderNo = TrimSpace orderNo0 in
      case normalizeItems userID orderNo inputs of
        Inl e \<Rightarrow> (Inl e, d)
      | Inr (items, amount) \<Rightarrow>
          (case atomically (env 0) (create_tx now userID orderNo items amount) d of
             (Inl e, d1) \<Rightarrow> (Inl e, d1)
           | (Inr (Existing found), d1) \<Rightarrow> (Inr \<lparr>cr_Order = found, cr_Replayed = True\<rparr>, d1)
           | (Inr (Written orderID), d1) \<Rightarrow>
               (case FindOwned env 1 userID orderID d1 of
                  (Inl e, d2) \<Rightarrow> (Inl e, d2)
                | (Inr created, d2) \<Rightarrow> (Inr \<lparr>cr_Order = created, cr_Replayed = False\<rparr>, d2))))"

definition Repository_Create ::
  "order_db env \<Rightarrow> time \<Rightarrow> u64 \<Rightarrow> string \<Rightarrow> ItemInput list \<Rightarrow> order_db \<Rightarrow> Order result \<times> order_db" where
  "Repository_Create env now userID orderNo inputs d =
     (case CreateIdempotent env now userID orderNo inputs d of
        (Inl e, d') \<Rightarrow> (Inl e, d') | (Inr r, d') \<Rightarrow> (Inr (cr_Order r), d'))"

section \<open>The service\<close>

fun valid_request :: "ItemInput list \<Rightarrow> u64 list \<Rightarrow> bool" where
  "valid_request [] seen = True"
| "valid_request (item # items) seen =
     (\<not> (in_SKUID item = 0 \<or> in_Quantity item < 1 \<or> 100 < in_Quantity item) \<and> in_SKUID item \<notin> set seen \<and>
      valid_request items (in_SKUID item # seen))"

text \<open>The snapshots come from the product service, through the argument \<open>snapshots\<close>.\<close>

fun resolve :: "(u64 \<Rightarrow> ItemInput result) \<Rightarrow> ItemInput list \<Rightarrow> ItemInput list result" where
  "resolve snapshots [] = Inr []"
| "resolve snapshots (requested # items) = (case snapshots (in_SKUID requested) of
       Inl e \<Rightarrow> Inl e
     | Inr snapshot \<Rightarrow>
         if in_SKUID snapshot \<noteq> in_SKUID requested then fail ErrInvalidOrder
         else (case resolve snapshots items of
             Inl e \<Rightarrow> Inl e
           | Inr rest \<Rightarrow> Inr (snapshot\<lparr>in_Quantity := in_Quantity requested\<rparr> # rest)))"

definition Create ::
  "(u64 \<Rightarrow> ItemInput result) option \<Rightarrow> random \<Rightarrow> order_db env \<Rightarrow> time \<Rightarrow> u64 \<Rightarrow> ItemInput list \<Rightarrow> order_db \<Rightarrow>
     Order result \<times> order_db" where
  "Create snapshots rnd env now userID items d =
     (if userID = 0 \<or> items = [] \<or> \<not> valid_request items [] then (fail ErrInvalidOrder, d)
      else (case (case snapshots of None \<Rightarrow> Inr items | Some s \<Rightarrow> resolve s items) of
          Inl e \<Rightarrow> (Inl e, d)
        | Inr resolved \<Rightarrow>
            (case newNormalOrderNo now rnd of
               Inl e \<Rightarrow> (Inl (Wrapf ''generate order number'' e), d)
             | Inr orderNo \<Rightarrow> Repository_Create env now userID orderNo resolved d)))"

definition CreateSeckill ::
  "order_db env \<Rightarrow> time \<Rightarrow> u64 \<Rightarrow> string \<Rightarrow> ItemInput \<Rightarrow> order_db \<Rightarrow> CreateResult result \<times> order_db" where
  "CreateSeckill env now userID orderNo0 item d =
     (let orderNo = TrimSpace orderNo0 in
      if userID = 0 \<or> orderNo = [] \<or> in_SKUID item = 0 \<or> in_Quantity item \<noteq> 1 \<or> TrimSpace (in_ProductName item) = [] \<or>
         TrimSpace (in_SKUCode item) = [] \<or> TrimSpace (in_SKUName item) = [] \<or> in_UnitPriceCent item < 0
      then (fail ErrInvalidOrder, d)
      else CreateIdempotent env now userID orderNo [item] d)"

definition FindSeckill :: "order_db env \<Rightarrow> u64 \<Rightarrow> string \<Rightarrow> order_db \<Rightarrow> Order result \<times> order_db" where
  "FindSeckill env userID orderNo0 d =
     (let orderNo = TrimSpace orderNo0 in
      if userID = 0 \<or> orderNo = [] then (fail ErrOrderNotFound, d)
      else FindOwnedByOrderNo env 0 userID orderNo d)"

definition Get :: "order_db env \<Rightarrow> u64 \<Rightarrow> u64 \<Rightarrow> order_db \<Rightarrow> Order result \<times> order_db" where
  "Get env userID orderID d =
     (if userID = 0 \<or> orderID = 0 then (fail ErrOrderNotFound, d) else FindOwned env 0 userID orderID d)"

section \<open>The RPC server\<close>

datatype OrderSource = ORDER_SOURCE_NORMAL | ORDER_SOURCE_SECKILL

definition sourceFromOrderNo :: "string \<Rightarrow> OrderSource" where
  "sourceFromOrderNo orderNo =
     (if HasPrefix (TrimSpace orderNo) ''T'' then ORDER_SOURCE_SECKILL else ORDER_SOURCE_NORMAL)"

definition mapError :: "(goerr \<Rightarrow> code) \<Rightarrow> bool \<Rightarrow> goerr \<Rightarrow> goerr" where
  "mapError sc attach err = StatusError attach
     (if sc err = DeadlineExceeded \<or> errors_Is err Context_DeadlineExceeded
      then NewPublicError DeadlineExceeded ERROR_CODE_TEMPORARILY_UNAVAILABLE ''order dependency timeout'' True err
      else if sc err = Unavailable
      then NewPublicError Unavailable ERROR_CODE_TEMPORARILY_UNAVAILABLE ''order dependency unavailable'' True err
      else if errors_Is err Context_Canceled
      then NewPublicError Canceled ERROR_CODE_TEMPORARILY_UNAVAILABLE ''request canceled'' True err
      else if errors_Is err ErrInvalidOrder
      then NewPublicError InvalidArgument ERROR_CODE_INVALID_ARGUMENT ''invalid order'' False err
      else if errors_Is err ErrOrderNotFound
      then NewPublicError NotFound ERROR_CODE_NOT_FOUND ''order not found'' False err
      else if errors_Is err ErrOrderConflict
      then NewPublicError AlreadyExists ERROR_CODE_CONFLICT ''order idempotency conflict'' False err
      else err)"

record CreateSeckillOrderRequest =
  cs_OrderNo :: string
  cs_UserId :: u64
  cs_ActivityId :: u64
  cs_ItemId :: u64
  cs_ReservedAtMs :: int
  cs_Item :: "ItemInput option"

definition CreateSeckillOrder ::
  "(goerr \<Rightarrow> code) \<Rightarrow> bool \<Rightarrow> order_db env \<Rightarrow> time \<Rightarrow> CreateSeckillOrderRequest \<Rightarrow> order_db \<Rightarrow> CreateResult result \<times> order_db" where
  "CreateSeckillOrder sc attach env now request d =
     (case (if cs_ActivityId request = 0 \<or> cs_ItemId request = 0 \<or> cs_ReservedAtMs request \<le> 0 then None else cs_Item request) of
        None \<Rightarrow> (Inl (mapError sc attach (Sentinel ErrInvalidOrder)), d)
      | Some item \<Rightarrow>
          (case CreateSeckill env now (cs_UserId request) (cs_OrderNo request) (item\<lparr>in_Quantity := 1\<rparr>) d of
             (Inl err, d') \<Rightarrow> (Inl (mapError sc attach err), d')
           | (Inr r, d') \<Rightarrow> (Inr r, d')))"

text \<open>\<open>toProtoOrder\<close>: the order as the client sees it, with status created, its source and millisecond time.\<close>

definition toProtoOrder :: "Order \<Rightarrow> OrderSource \<Rightarrow> Order \<times> OrderSource \<times> int" where
  "toProtoOrder value source = (value\<lparr>o_Status := 1\<rparr>, source, UnixMilli (o_CreatedAt value))"

definition CreateOrder ::
  "(goerr \<Rightarrow> code) \<Rightarrow> bool \<Rightarrow> (u64 \<Rightarrow> ItemInput result) option \<Rightarrow> random \<Rightarrow> order_db env \<Rightarrow> time \<Rightarrow> u64 \<Rightarrow>
     (u64 \<times> int) list \<Rightarrow> order_db \<Rightarrow> (Order \<times> OrderSource \<times> int) result \<times> order_db" where
  "CreateOrder sc attach snapshots rnd env now userID items d =
     (case Create snapshots rnd env now userID
         (map (\<lambda>(sku, q). \<lparr>in_SKUID = sku, in_ProductName = [], in_SKUCode = [], in_SKUName = [], in_UnitPriceCent = 0,
            in_Quantity = q\<rparr>) items) d of
        (Inl err, d') \<Rightarrow> (Inl (mapError sc attach err), d')
      | (Inr created, d') \<Rightarrow> (Inr (toProtoOrder created ORDER_SOURCE_NORMAL), d'))"

definition GetOrder ::
  "(goerr \<Rightarrow> code) \<Rightarrow> bool \<Rightarrow> order_db env \<Rightarrow> u64 \<Rightarrow> u64 \<Rightarrow> order_db \<Rightarrow> (Order \<times> OrderSource \<times> int) result \<times> order_db" where
  "GetOrder sc attach env userID orderID d =
     (case Get env userID orderID d of
        (Inl err, d') \<Rightarrow> (Inl (mapError sc attach err), d')
      | (Inr found, d') \<Rightarrow> (Inr (toProtoOrder found (sourceFromOrderNo (o_OrderNo found))), d'))"

definition FindSeckillOrder ::
  "(goerr \<Rightarrow> code) \<Rightarrow> bool \<Rightarrow> order_db env \<Rightarrow> u64 \<Rightarrow> string \<Rightarrow> order_db \<Rightarrow> (Order \<times> OrderSource \<times> int) result \<times> order_db" where
  "FindSeckillOrder sc attach env userID orderNo d =
     (case FindSeckill env userID orderNo d of
        (Inl err, d') \<Rightarrow> (Inl (mapError sc attach err), d')
      | (Inr found, d') \<Rightarrow> (Inr (toProtoOrder found ORDER_SOURCE_SECKILL), d'))"

section \<open>Normalisation computes the exact total\<close>

definition amount_of :: "ItemInput \<Rightarrow> int" where
  "amount_of input = in_UnitPriceCent input * in_Quantity input"

definition norm_item :: "ItemInput \<Rightarrow> OrderItem" where
  "norm_item input = \<lparr>oi_ID = 0, oi_SKUID = in_SKUID input, oi_ProductName = TrimSpace (in_ProductName input),
     oi_SKUCode = TrimSpace (in_SKUCode input), oi_SKUName = TrimSpace (in_SKUName input),
     oi_UnitPriceCent = in_UnitPriceCent input, oi_Quantity = in_Quantity input, oi_SubtotalCent = amount_of input\<rparr>"

definition valid_input :: "ItemInput \<Rightarrow> bool" where
  "valid_input input \<longleftrightarrow> in_SKUID input \<noteq> 0 \<and> TrimSpace (in_ProductName input) \<noteq> [] \<and> TrimSpace (in_SKUCode input) \<noteq> [] \<and>
     TrimSpace (in_SKUName input) \<noteq> [] \<and> 0 \<le> in_UnitPriceCent input \<and> 1 \<le> in_Quantity input \<and> in_Quantity input \<le> 100"

lemma quotient_check:
  assumes "0 \<le> p" and "0 < q"
  shows "(p \<noteq> 0 \<and> go_div max_i64 p < q) \<longleftrightarrow> max_i64 < p * (q :: int)"
proof (cases "p = 0")
  case False
  with assms have p: "0 < p" by simp
  have "max_i64 div p < q \<longleftrightarrow> max_i64 < q * p"
  proof
    assume "max_i64 div p < q"
    then have "(max_i64 div p + 1) * p \<le> q * p" using p by (intro mult_right_mono) simp_all
    moreover have "max_i64 < (max_i64 div p + 1) * p"
      using p div_mult_mod_eq [of max_i64 p] pos_mod_bound [of p max_i64]
      unfolding distrib_right mult_1_left by linarith
    ultimately show "max_i64 < q * p" by simp
  next
    assume less: "max_i64 < q * p"
    show "max_i64 div p < q"
    proof (rule ccontr)
      assume "\<not> max_i64 div p < q"
      then have "q * p \<le> max_i64 div p * p" using p by (intro mult_right_mono) simp_all
      also have "\<dots> \<le> max_i64" using p div_mult_mod_eq [of max_i64 p] pos_mod_sign [of p max_i64] by linarith
      finally show False using less by simp
    qed
  qed
  with p show ?thesis by (simp add: max_i64_def mult.commute)
qed (simp add: max_i64_def)

lemma sum_amount_nonneg: "list_all valid_input inputs \<Longrightarrow> 0 \<le> sum_list (map amount_of inputs)"
  by (induction inputs) (auto simp: valid_input_def amount_of_def)

lemma normalize_loop_spec:
  "0 \<le> amount \<Longrightarrow> amount \<le> max_i64 \<Longrightarrow> normalize_loop inputs seen items amount =
    (if list_all valid_input inputs \<and> distinct (map in_SKUID inputs) \<and> set (map in_SKUID inputs) \<inter> set seen = {} \<and>
        amount + sum_list (map amount_of inputs) \<le> max_i64
     then Inr (items @ map norm_item inputs, amount + sum_list (map amount_of inputs)) else fail ErrInvalidOrder)"
proof (induction inputs arbitrary: seen items amount)
  case Nil
  then show ?case by simp
next
  case (Cons input inputs)
  let ?p = "in_UnitPriceCent input" and ?q = "in_Quantity input"
  show ?case
  proof (cases "valid_input input \<and> in_SKUID input \<notin> set seen")
    case False
    then show ?thesis by (auto simp: valid_input_def Let_def)
  next
    case True
    then have v: "0 \<le> ?p" "0 < ?q" "0 \<le> amount_of input" by (auto simp: valid_input_def amount_of_def)
    have rest: "list_all valid_input inputs \<Longrightarrow> 0 \<le> sum_list (map amount_of inputs)" by (rule sum_amount_nonneg)
    show ?thesis
    proof (cases "amount + amount_of input \<le> max_i64")
      case fits: True
      then have sub: "wrap_i64 (?p * ?q) = amount_of input" "wrap_i64 (max_i64 - amount_of input) = max_i64 - amount_of input"
        "wrap_i64 (amount + amount_of input) = amount + amount_of input"
        using v(3) Cons.prems max_i64_def unfolding amount_of_def [symmetric] by (simp_all add: in_i64_def)
      have ok: "\<not> (?p \<noteq> 0 \<and> go_div max_i64 ?p < ?q)"
        using quotient_check [OF v(1,2)] fits Cons.prems by (simp add: amount_of_def)
      have step: "normalize_loop (input # inputs) seen items amount =
        normalize_loop inputs (in_SKUID input # seen) (items @ [norm_item input]) (amount + amount_of input)"
        using True ok sub fits by (auto simp: valid_input_def Let_def norm_item_def amount_of_def)
      have "0 \<le> amount + amount_of input" using v Cons.prems by simp
      from Cons.IH [OF this fits, of "in_SKUID input # seen" "items @ [norm_item input]"] True show ?thesis
        unfolding step by (auto simp: add.assoc)
    next
      case over: False
      have "normalize_loop (input # inputs) seen items amount = fail ErrInvalidOrder"
      proof (cases "max_i64 < ?p * ?q")
        case True
        with quotient_check [OF v(1,2)] show ?thesis by (auto simp: Let_def)
      next
        case False
        then have "wrap_i64 (?p * ?q) = amount_of input" "wrap_i64 (max_i64 - amount_of input) = max_i64 - amount_of input"
          using v(3) max_i64_def unfolding amount_of_def [symmetric] by (simp_all add: in_i64_def)
        with over show ?thesis by (auto simp: Let_def)
      qed
      moreover have "list_all valid_input inputs \<Longrightarrow> \<not> amount + (amount_of input + sum_list (map amount_of inputs)) \<le> max_i64"
        using over rest by fastforce
      ultimately show ?thesis by auto
    qed
  qed
qed

text \<open>C26: the total of an order is exact. The items are accepted just when each is valid, no SKU occurs
  twice and the true sum of price times quantity fits in an \<open>int64\<close>; then that sum is the total, so
  the computation never wraps around.\<close>

theorem normalizeItems_exact:
  "normalizeItems userID orderNo inputs =
    (if userID \<noteq> 0 \<and> orderNo \<noteq> [] \<and> inputs \<noteq> [] \<and> list_all valid_input inputs \<and> distinct (map in_SKUID inputs) \<and>
        sum_list (map amount_of inputs) \<le> max_i64
     then Inr (map norm_item inputs, sum_list (map amount_of inputs)) else fail ErrInvalidOrder)"
  using normalize_loop_spec [of 0 inputs "[]" "[]"] by (auto simp: normalizeItems_def max_i64_def)

section \<open>Orders and their events\<close>

text \<open>
  Rows are numbered in the order of insertion, order numbers are unique, items belong to orders, and
  the outbox holds, in the order of the orders, one event for each: with the identifier derived from the
  order number, the order number as its key, and a payload that decodes to the facts of the order. (The demo
  order of migration \<open>000007\<close> is inserted without an event; a database with it is not such a state.)
\<close>

definition item_ids :: "order_db \<Rightarrow> u64 list" where
  "item_ids d = map (\<lambda>r. oi_ID (snd r)) (od_items d)"

definition event_of :: "order_row \<Rightarrow> outbox_row \<Rightarrow> bool" where
  "event_of r e \<longleftrightarrow> ob_order_id e = or_id r \<and> ob_event_id e = StableEventID (or_order_no r) \<and>
     ob_aggregate_key e = or_order_no r \<and>
     (\<exists>v. DecodeOrderCreatedV1 (Some (ob_payload e)) = Inr v \<and> ev_OrderNo v = or_order_no r \<and>
        ev_UserID v = or_user_id r \<and> ev_TotalAmountCent v = or_total_amount_cent r)"

definition tables_ok :: "order_db \<Rightarrow> bool" where
  "tables_ok d \<longleftrightarrow> numbered (map or_id (od_orders d)) \<and> length (od_orders d) < 2 ^ 64 \<and>
     numbered (item_ids d) \<and> length (od_items d) < 2 ^ 64 \<and>
     distinct (map or_order_no (od_orders d)) \<and> (\<forall>r \<in> set (od_items d). fst r \<in> or_id ` set (od_orders d))"

definition orders_ok :: "order_db \<Rightarrow> bool" where
  "orders_ok d \<longleftrightarrow> tables_ok d \<and> list_all2 event_of (od_orders d) (od_outbox d)"

lemma orders_ok_tables: "orders_ok d \<Longrightarrow> tables_ok d"
  by (simp add: orders_ok_def)

lemma findItems_eq:
  assumes "tables_ok d"
  shows "findItems d i = map snd (filter (\<lambda>r. fst r = i) (od_items d))"
proof -
  have "sorted (map (\<lambda>r. oi_ID (snd r)) (od_items d))"
    using numbered_sorted(1) [of "item_ids d"] assms by (simp add: tables_ok_def item_ids_def)
  then have "sorted (map oi_ID (map snd (filter (\<lambda>r. fst r = i) (od_items d))))"
    using sorted_filter [of "\<lambda>r. oi_ID (snd r)"] by (simp add: o_def)
  then show ?thesis unfolding findItems_def by (rule sort_key_id_if_sorted)
qed

lemma insert_items_success:
  "insert_items orderID items d = (Inr rows, d') \<Longrightarrow>
     od_items d' = od_items d @ map (Pair orderID) rows \<and> od_orders d' = od_orders d \<and>
     od_outbox d' = od_outbox d \<and> list_all2 same_item rows items \<and>
     (numbered (item_ids d) \<longrightarrow> numbered (item_ids d')) \<and>
     (length (od_items d) < 2 ^ 64 \<longrightarrow> length (od_items d') < 2 ^ 64)"
proof (induction items arbitrary: d rows)
  case Nil
  then show ?case by simp
next
  case (Cons item items)
  let ?row = "item\<lparr>oi_ID := next_id_in (od_items d)\<rparr>"
  let ?d = "d\<lparr>od_items := od_items d @ [(orderID, ?row)]\<rparr>"
  obtain rs where rs: "rows = ?row # rs" "insert_items orderID items ?d = (Inr rs, d')"
    using Cons.prems by (auto simp: Let_def split: if_splits prod.splits sum.splits)
  have num: "numbered (item_ids d) \<Longrightarrow> numbered (item_ids ?d)"
    using numbered_snoc [of "item_ids d"] by (simp add: next_id_in_def item_ids_def)
  have "same_item ?row item" by (simp add: same_item_def)
  moreover have "length (od_items ?d) < 2 ^ 64"
    using Cons.prems by (auto simp: Let_def table_full_def split: if_splits)
  ultimately show ?case using Cons.IH [OF rs(2)] rs(1) num by auto
qed

text \<open>What a transaction that commits has done.\<close>

lemma create_tx_success:
  assumes run: "create_tx now userID orderNo items amount d = (Inr c, d')"
    and trim: "TrimSpace orderNo = orderNo" and amount: "0 \<le> amount" "amount \<le> max_i64"
  obtains (existing) found where "c = Existing found" "d' = d" "findByOrderNoTx orderNo d = Inr found"
      "samePayload found userID amount items"
  | (written) row rows e where "c = Written (or_id row)" "or_id row = next_id_in (od_orders d)" "or_order_no row = orderNo"
      "or_user_id row = userID" "or_total_amount_cent row = amount" "\<not> table_full (od_orders d)"
      "\<forall>r \<in> set (od_orders d). or_order_no r \<noteq> orderNo"
      "od_orders d' = od_orders d @ [row]" "od_items d' = od_items d @ map (Pair (or_id row)) rows"
      "list_all2 same_item rows items" "od_outbox d' = od_outbox d @ [e]" "event_of row e"
      "numbered (item_ids d) \<longrightarrow> numbered (item_ids d')" "length (od_items d) < 2 ^ 64 \<longrightarrow> length (od_items d') < 2 ^ 64"
proof -
  let ?at = "Truncate now microsecond"
  let ?new = "\<lparr>or_id = 0, or_order_no = orderNo, or_user_id = userID, or_status = 1,
          or_total_amount_cent = amount, or_created_at = ?at\<rparr>"
  obtain a d1 where ins: "insert_order ?new d = (a, d1)" by fastforce
  show ?thesis
  proof (cases a)
    case (Inl err)
    with ins have "d1 = d" by (auto simp: insert_order_def split: if_splits)
    with run ins Inl existing show ?thesis
      by (auto simp: create_tx_def Let_def split: if_splits sum.splits)
  next
    case (Inr orderID)
    let ?row = "?new\<lparr>or_id := next_id_in (od_orders d)\<rparr>"
    have o: "orderID = next_id_in (od_orders d)" "d1 = d\<lparr>od_orders := od_orders d @ [?row]\<rparr>"
      "\<forall>r \<in> set (od_orders d). or_order_no r \<noteq> orderNo" "\<not> table_full (od_orders d)" "datetime_ok ?at"
      "valid_utf8 orderNo"
      using ins Inr by (auto simp: insert_order_def split: if_splits)
    obtain rows d2 where it: "insert_items orderID items d1 = (Inr rows, d2)"
      using run ins Inr by (auto simp: create_tx_def Let_def split: sum.splits prod.splits)
    note i = insert_items_success [OF it]
    let ?src = "if HasPrefix orderNo ''T'' then OrderSourceSeckill else OrderSourceNormal"
    let ?ord = "\<lparr>o_ID = orderID, o_OrderNo = orderNo, o_UserID = userID, o_Status = 1,
                    o_TotalAmountCent = amount, o_Items = rows, o_CreatedAt = ?at\<rparr>"
    obtain ev where ev: "NewOrderCreatedV1 ?ord ?src = Inr ev"
      using run ins Inr it by (auto simp: create_tx_def Let_def split: sum.splits)
    note v = NewOrderCreatedV1_valid [OF ev]
    have enc: "EncodeOrderCreatedV1 ev = Inr (json_of_event ev)" using v(1) by (simp add: EncodeOrderCreatedV1_def)
    have "ev_CreatedAtMS ev = UnixMilli ?at" using ev by (auto simp: NewOrderCreatedV1_def Let_def split: option.splits)
    then have "event_in_range ev"
      using v(5) amount datetime_in_i64 [OF o(5)] by (simp add: event_in_range_def in_i64_def max_i64_def)
    then have dec: "DecodeOrderCreatedV1 (Some (json_of_event ev)) = Inr ev" using v(3) trim o(6)
      by (intro Decode_Encode_eq [OF enc]) simp_all
    obtain e where e: "c = Written orderID" "od_outbox d' = od_outbox d @ [e]" "od_orders d' = od_orders d2"
      "od_items d' = od_items d2" "ob_order_id e = orderID" "ob_event_id e = ev_EventID ev" "ob_aggregate_key e = orderNo"
      "ob_payload e = json_of_event ev"
      using run ins Inr it ev enc i o
      by (auto simp: create_tx_def Let_def insert_outbox_def split: if_splits)
    have evo: "event_of ?row e" using e dec v trim o(1) by (auto simp: event_of_def)
    have ids: "item_ids d' = item_ids d2" "item_ids d1 = item_ids d" using e(4) o(2) by (simp_all add: item_ids_def)
    show ?thesis by (rule written [of ?row rows e]) (use evo ids e i o in auto)
  qed
qed

lemma orders_ok_create:
  assumes ok: "orders_ok d" and run: "create_tx now userID orderNo items amount d = (Inr c, d')"
    and trim: "TrimSpace orderNo = orderNo" and amount: "0 \<le> amount" "amount \<le> max_i64"
  shows "orders_ok d'"
  using run trim amount
proof (cases rule: create_tx_success)
  case (written row rows e)
  have "numbered (map or_id (od_orders d'))"
    using ok written numbered_snoc [of "map or_id (od_orders d)"] by (simp add: orders_ok_def tables_ok_def next_id_in_def)
  moreover have "length (od_orders d') < 2 ^ 64" using written by (simp add: table_full_def)
  moreover have "distinct (map or_order_no (od_orders d'))" using ok written by (auto simp: orders_ok_def tables_ok_def)
  moreover have "\<forall>r \<in> set (od_items d'). fst r \<in> or_id ` set (od_orders d')" using ok written by (auto simp: orders_ok_def tables_ok_def)
  ultimately show ?thesis using ok written by (auto simp: orders_ok_def tables_ok_def list_all2_appendI)
qed (use ok in simp)

text \<open>The order just written is what the queries find, by its number and by its identifier.\<close>

lemma written_found:
  assumes ok: "tables_ok d" and ok': "tables_ok d'"
    and w: "or_id row = next_id_in (od_orders d)" "or_order_no row = orderNo" "\<not> table_full (od_orders d)"
      "\<forall>r \<in> set (od_orders d). or_order_no r \<noteq> orderNo"
      "od_orders d' = od_orders d @ [row]" "od_items d' = od_items d @ map (Pair (or_id row)) rows"
  shows "findItems d' (or_id row) = rows" and "findByOrderNoTx orderNo d' = Inr (load_order row rows)"
    and "find (\<lambda>r. or_id r = or_id row \<and> or_user_id r = or_user_id row) (od_orders d') = Some row"
proof -
  have fresh: "or_id row \<notin> or_id ` set (od_orders d)"
    using numbered_fresh [of "map or_id (od_orders d)"] ok w(1,3) by (simp add: tables_ok_def next_id_in_def table_full_def)
  then have "filter (\<lambda>r. fst r = or_id row) (od_items d) = []"
    using ok by (auto simp: filter_empty_conv tables_ok_def)
  then show items: "findItems d' (or_id row) = rows"
    using w(6) by (simp add: findItems_eq [OF ok'] filter_map o_def)
  have "find (\<lambda>r. or_order_no r = orderNo) (od_orders d) = None" using w(4) by (simp add: find_None_iff)
  then show "findByOrderNoTx orderNo d' = Inr (load_order row rows)"
    using w items by (simp add: findByOrderNoTx_def find_append)
  have "find (\<lambda>r. or_id r = or_id row \<and> or_user_id r = or_user_id row) (od_orders d) = None"
    using fresh by (auto simp: find_None_iff) (metis image_eqI)
  then show "find (\<lambda>r. or_id r = or_id row \<and> or_user_id r = or_user_id row) (od_orders d') = Some row"
    by (simp add: w(5) find_append)
qed

lemma samePayload_written:
  assumes "list_all2 same_item rows items"
  shows "samePayload (load_order row rows) (or_user_id row) (or_total_amount_cent row) items"
  using assms by (simp add: samePayload_def load_order_def list_all2_lengthD)

text \<open>The transaction on a number that is taken.\<close>

lemma create_tx_taken:
  assumes "findByOrderNoTx orderNo d = Inr found"
  shows "create_tx now userID orderNo items amount d =
    (if samePayload found userID amount items then Inr (Existing found) else fail ErrOrderConflict, d)"
proof -
  obtain r where "find (\<lambda>r. or_order_no r = orderNo) (od_orders d) = Some r"
    using assms by (auto simp: findByOrderNoTx_def split: option.splits)
  then have "\<exists>r \<in> set (od_orders d). or_order_no r = orderNo" by (auto simp: find_Some_iff)
  then have "insert_order row d = (Inl (MySQLError ER_DUP_ENTRY), d)" if "or_order_no row = orderNo" for row
    using that by (simp add: insert_order_def)
  then show ?thesis using assms by (simp add: create_tx_def Let_def isDuplicateKey_def)
qed

section \<open>One attempt\<close>

abbreviation create_request ::
  "order_db env \<Rightarrow> time \<Rightarrow> u64 \<times> string \<times> ItemInput list \<Rightarrow> order_db \<Rightarrow> CreateResult result \<times> order_db" where
  "create_request env now req d \<equiv> CreateIdempotent env now (fst req) (fst (snd req)) (snd (snd req)) d"

lemma normalizeItems_ok:
  assumes "normalizeItems u ono inputs = Inr (items, amount)"
  shows "0 \<le> amount" "amount \<le> max_i64"
  using assms sum_amount_nonneg normalize_loop_spec [of 0 inputs "[]" "[]"]
  by (auto simp: normalizeItems_def max_i64_def split: if_splits)

text \<open>A clean attempt, case by case.\<close>

lemma CreateIdempotent_quiet:
  assumes ok: "orders_ok d" and norm: "normalizeItems u (TrimSpace ono) inputs = Inr (items, amount)"
  shows "\<exists>e. fst (create_tx now u (TrimSpace ono) items amount d) = Inl e \<Longrightarrow>
      \<exists>e. CreateIdempotent quiet now u ono inputs d = (Inl e, d)"
    and "create_tx now u (TrimSpace ono) items amount d = (Inr (Existing found), d') \<Longrightarrow>
      CreateIdempotent quiet now u ono inputs d = (Inr \<lparr>cr_Order = found, cr_Replayed = True\<rparr>, d)"
    and "create_tx now u (TrimSpace ono) items amount d = (Inr (Written i), d') \<Longrightarrow>
      \<exists>found. CreateIdempotent quiet now u ono inputs d = (Inr \<lparr>cr_Order = found, cr_Replayed = False\<rparr>, d') \<and>
        findByOrderNoTx (TrimSpace ono) d' = Inr found \<and> samePayload found u amount items \<and> orders_ok d'"
proof -
  note n = normalizeItems_ok [OF norm]
  show "\<exists>e. fst (create_tx now u (TrimSpace ono) items amount d) = Inl e \<Longrightarrow>
      \<exists>e. CreateIdempotent quiet now u ono inputs d = (Inl e, d)"
    using norm by (auto simp: CreateIdempotent_def split: prod.splits)
  show "create_tx now u (TrimSpace ono) items amount d = (Inr (Existing found), d') \<Longrightarrow>
      CreateIdempotent quiet now u ono inputs d = (Inr \<lparr>cr_Order = found, cr_Replayed = True\<rparr>, d)"
    using norm by (auto simp: CreateIdempotent_def elim!: create_tx_success [OF _ TrimSpace_idem n])
  assume tx: "create_tx now u (TrimSpace ono) items amount d = (Inr (Written i), d')"
  have ok': "orders_ok d'" by (rule orders_ok_create [OF ok tx TrimSpace_idem n])
  from tx TrimSpace_idem n show "\<exists>found. CreateIdempotent quiet now u ono inputs d =
      (Inr \<lparr>cr_Order = found, cr_Replayed = False\<rparr>, d') \<and>
        findByOrderNoTx (TrimSpace ono) d' = Inr found \<and> samePayload found u amount items \<and> orders_ok d'"
  proof (cases rule: create_tx_success)
    case (written row rows e)
    note f = written_found [OF orders_ok_tables [OF ok] orders_ok_tables [OF ok'] written(2,3,6,7,8,9)]
    have "FindOwned quiet 1 u i d' = (Inr (load_order row rows), d')"
      using f(1,3) written(1,4) by (simp add: FindOwned_def find_order_def)
    moreover have "samePayload (load_order row rows) u amount items"
      using samePayload_written [OF written(10), of row] written(4,5) by simp
    ultimately show ?thesis using norm tx f(2) ok' by (simp add: CreateIdempotent_def)
  qed simp
qed

lemma FindOwned_undisturbed:
  assumes "undisturbed env"
  shows "snd (FindOwned env k u i d) = d"
proof -
  have same: "read_db (env j) f e = (x, e') \<Longrightarrow> e' = e" for j e e' and x :: "'x result" and f
    using read_db_undisturbed(1) [OF assms, of j f e] by simp
  show ?thesis
    by (auto simp: FindOwned_def find_order_def split: prod.splits sum.splits option.splits dest!: same)
qed

lemma create_attempt_effect:
  assumes un: "undisturbed env" and norm: "normalizeItems u (TrimSpace ono) inputs = Inr (items, amount)"
  shows "snd (CreateIdempotent env now u ono inputs d) = d \<or>
    (\<exists>c. create_tx now u (TrimSpace ono) items amount d = (Inr c, snd (CreateIdempotent env now u ono inputs d)))"
proof -
  obtain res d1 where a: "atomically (env 0) (create_tx now u (TrimSpace ono) items amount) d = (res, d1)" by fastforce
  have "snd (CreateIdempotent env now u ono inputs d) = d1"
    using norm a FindOwned_undisturbed [OF un, of 1 u _ d1]
    by (auto simp: CreateIdempotent_def split: prod.splits sum.splits created.splits) (metis snd_conv)+
  with atomically_undisturbed(1) [OF un a] show ?thesis by auto
qed

interpretation orders: recoverable orders_ok orders_ok "\<lambda>_. True" create_request "\<lambda>x y. cr_Order y = cr_Order x"
proof (unfold_locales, goal_cases)
  case (1 d i env now)
  obtain u ono inputs where i: "i = (u, ono, inputs)" by (cases i)
  show ?case
  proof (cases "normalizeItems u (TrimSpace ono) inputs")
    case (Inr r)
    obtain items amount where r: "r = (items, amount)" by fastforce
    note q = CreateIdempotent_quiet [OF 1(1) Inr [unfolded r]]
    from create_attempt_effect [OF 1(3) Inr [unfolded r], of now d] show ?thesis
    proof
      assume "\<exists>c. create_tx now u (TrimSpace ono) items amount d = (Inr c, snd (CreateIdempotent env now u ono inputs d))"
      then obtain c where c: "create_tx now u (TrimSpace ono) items amount d = (Inr c, snd (CreateIdempotent env now u ono inputs d))"
        by blast
      then show ?thesis
      proof (cases c)
        case (Existing found)
        with c TrimSpace_idem normalizeItems_ok [OF Inr [unfolded r]] i show ?thesis by (cases rule: create_tx_success) auto
      next
        case (Written n)
        with c q(3) i show ?thesis by fastforce
      qed
    qed (simp add: i)
  qed (simp add: i CreateIdempotent_def)
next
  case (2 d i now e d')
  obtain u ono inputs where i: "i = (u, ono, inputs)" by (cases i)
  show ?case
  proof (cases "normalizeItems u (TrimSpace ono) inputs")
    case (Inr r)
    obtain items amount where r: "r = (items, amount)" by fastforce
    note q = CreateIdempotent_quiet [OF 2(1) Inr [unfolded r], of now]
    obtain a b where t: "create_tx now u (TrimSpace ono) items amount d = (a, b)" by fastforce
    show ?thesis
    proof (cases a)
      case (Inl x)
      with t q(1) 2(3) i show ?thesis by auto
    next
      case (Inr c)
      with t q(2,3) 2(3) i show ?thesis by (cases c) fastforce+
    qed
  qed (use 2(3) i in \<open>simp add: CreateIdempotent_def\<close>)
next
  case (3 d i now x d' now')
  obtain u ono inputs where i: "i = (u, ono, inputs)" by (cases i)
  obtain items amount where n: "normalizeItems u (TrimSpace ono) inputs = Inr (items, amount)"
    using 3(3) i by (cases "normalizeItems u (TrimSpace ono) inputs") (auto simp: CreateIdempotent_def)
  note q = CreateIdempotent_quiet [OF 3(1) n, of now]
  obtain a b where t: "create_tx now u (TrimSpace ono) items amount d = (a, b)" by fastforce
  have "\<exists>found. findByOrderNoTx (TrimSpace ono) d' = Inr found \<and> samePayload found u amount items \<and>
      orders_ok d' \<and> cr_Order x = found"
  proof (cases a)
    case (Inl e)
    with t q(1) 3(3) i show ?thesis by auto
  next
    case (Inr c)
    show ?thesis
    proof (cases c)
      case (Existing found)
      have "findByOrderNoTx (TrimSpace ono) d = Inr found \<and> samePayload found u amount items"
        using t Inr Existing TrimSpace_idem normalizeItems_ok [OF n]
        by (auto elim!: create_tx_success)
      with t q(2) [of found b] Inr Existing 3(1,3) i show ?thesis by auto
    next
      case (Written m)
      with t q(3) [of m b] Inr 3(3) i show ?thesis by auto
    qed
  qed
  then obtain found where f: "findByOrderNoTx (TrimSpace ono) d' = Inr found" "samePayload found u amount items"
    "orders_ok d'" "cr_Order x = found" by blast
  have "create_tx now' u (TrimSpace ono) items amount d' = (Inr (Existing found), d')"
    using create_tx_taken [OF f(1)] f(2) by simp
  from CreateIdempotent_quiet(2) [OF f(3) n this] f(4) i show ?case by simp
next
  case (4 d i now)
  obtain u ono inputs where i: "i = (u, ono, inputs)" by (cases i)
  show ?case
  proof (cases "normalizeItems u (TrimSpace ono) inputs")
    case (Inr r)
    obtain items amount where r: "r = (items, amount)" by fastforce
    from create_attempt_effect [OF _ Inr [unfolded r], of quiet now d] show ?thesis
    proof
      assume "\<exists>c. create_tx now u (TrimSpace ono) items amount d = (Inr c, snd (CreateIdempotent quiet now u ono inputs d))"
      then show ?thesis
        using orders_ok_create [OF 4(1) _ TrimSpace_idem normalizeItems_ok [OF Inr [unfolded r]]] i by auto
    qed (use 4 i in simp_all)
  qed (use 4 in \<open>simp add: i CreateIdempotent_def\<close>)
qed simp_all

section \<open>An example\<close>

definition demo_orders :: order_db where
  "demo_orders = \<lparr>od_orders = [], od_items = [], od_outbox = []\<rparr>"

definition demo_line :: ItemInput where
  "demo_line = \<lparr>in_SKUID = 3, in_ProductName = ''Phone'', in_SKUCode = ''P-1'', in_SKUName = ''black'', in_UnitPriceCent = 9900,
     in_Quantity = 1\<rparr>"

lemma demo_orders_ok: "orders_ok demo_orders"
  by (simp add: orders_ok_def tables_ok_def demo_orders_def item_ids_def)

lemma demo_normalize: "normalizeItems 5 ''T1-42-0102030405060708'' [demo_line] = Inr ([norm_item demo_line], 9900)"
  by (simp add: normalizeItems_def demo_line_def norm_item_def amount_of_def byte_def max_i64_def Let_def
      in_i64_def)

lemma demo_create:
  assumes "datetime_ok (Truncate now microsecond)" "0 < UnixMilli now"
  shows "\<exists>x d. CreateIdempotent quiet now 5 ''T1-42-0102030405060708'' [demo_line] demo_orders = (Inr x, d) \<and>
    length (od_orders d) = 1 \<and> length (od_outbox d) = 1"
proof -
  let ?ono = "''T1-42-0102030405060708''"
  have p: "TrimSpace ?ono = ?ono" by (simp add: byte_def)
  have "\<exists>d. create_tx now 5 ?ono [norm_item demo_line] 9900 demo_orders = (Inr (Written 1), d) \<and>
      length (od_orders d) = 1 \<and> length (od_outbox d) = 1"
    using assms p
    by (simp add: create_tx_def insert_order_def demo_orders_def table_full_def next_id_in_def norm_item_def demo_line_def
        amount_of_def NewOrderCreatedV1_def OrderCreatedV1_Validate_def StableEventID_def EncodeOrderCreatedV1_def
        insert_outbox_def Let_def HasPrefix_def byte_def ToUpper_def)
  then obtain d where d: "create_tx now 5 ?ono [norm_item demo_line] 9900 demo_orders = (Inr (Written 1), d)"
    "length (od_orders d) = 1" "length (od_outbox d) = 1" by blast
  from CreateIdempotent_quiet(3) [OF demo_orders_ok, of 5 ?ono "[demo_line]", unfolded p, OF demo_normalize d(1)] d(2,3)
  show ?thesis by blast
qed

section \<open>Properties of the order service\<close>

text \<open>C21: an order is created once, however often it is tried. After any number of attempts in which
  anything may have failed (a commit whose answer was lost included), a clean retry of the request
  leaves one order, its items and its event as one clean attempt would have, and answers with that order.\<close>

theorem order_retry_exactly_once:
  assumes "orders_ok d" and "\<forall>(env, now) \<in> set tries. undisturbed env"
    and "d1 = foldl (\<lambda>d (env, now). snd (CreateIdempotent env now userID orderNo inputs d)) d tries"
    and "CreateIdempotent quiet now userID orderNo inputs d1 = (res, d2)"
  shows "\<exists>t \<in> insert now (snd ` set tries). d2 = snd (CreateIdempotent quiet t userID orderNo inputs d) \<and>
    (\<forall>x. fst (CreateIdempotent quiet t userID orderNo inputs d) = Inr x \<longrightarrow> (\<exists>y. res = Inr y \<and> cr_Order y = cr_Order x))"
  using orders.retry_exactly_once [where i = "(userID, orderNo, inputs)", simplified, OF assms] by simp

text \<open>C22: orders and events come in pairs. Through any requests with any failures the tables keep their
  invariant: every order, committed or recovered, has exactly one event in the outbox, with the
  identifier derived from its number, and the payload decodes to the order's number, user and total.\<close>

theorem orders_have_events:
  assumes "orders_ok d" and "\<forall>(env, now, req) \<in> set reqs. undisturbed env"
    and "d' = foldl (\<lambda>d (env, now, req). snd (create_request env now req d)) d reqs"
  shows "orders_ok d' \<and> length (od_orders d') = length (od_outbox d') \<and> (\<forall>k < length (od_orders d').
    event_of (od_orders d' ! k) (od_outbox d' ! k))"
proof -
  have step: "orders_ok (snd (create_request env now req d))" if "orders_ok d" "undisturbed env" for env now req d
    using orders.effect [OF that(1) TrueI that(2), of now req] orders.keeps [OF that(1) TrueI, of now req] that(1)
    by (elim disjE) simp_all
  have "orders_ok d'"
    using assms
  proof (induction reqs arbitrary: d)
    case Nil
    then show ?case by simp
  next
    case (Cons r reqs)
    then show ?case using step by (cases r) fastforce
  qed
  then show ?thesis by (auto simp: orders_ok_def tables_ok_def list_all2_lengthD list_all2_nthD)
qed

text \<open>An order number stands for one order: a request under a number that is taken by an order of
  another user, total or items is a conflict and changes nothing.\<close>

theorem order_conflict:
  assumes "orders_ok d" and "normalizeItems userID (TrimSpace orderNo) inputs = Inr (items, amount)"
    and "findByOrderNoTx (TrimSpace orderNo) d = Inr found" and "\<not> samePayload found userID amount items"
  shows "CreateIdempotent quiet now userID orderNo inputs d = (fail ErrOrderConflict, d)"
  using assms(2,4) create_tx_taken [OF assms(3)] by (simp add: CreateIdempotent_def)

theorem order_retry_exactly_once_witness:
  "\<exists>res d2 y. CreateIdempotent quiet 1700000000000000000 5 ''T1-42-0102030405060708'' [demo_line]
      (foldl (\<lambda>d (env, now). snd (CreateIdempotent env now 5 ''T1-42-0102030405060708'' [demo_line] d)) demo_orders
        [(\<lambda>k. \<lparr>interference = id, outcome_of = Lost_after (Sentinel Context_DeadlineExceeded)\<rparr>, 1600000000000000000)]) = (res, d2) \<and>
     res = Inr y \<and> length (od_orders d2) = 1 \<and> length (od_outbox d2) = 1"
proof -
  let ?lost = "\<lambda>k :: nat. \<lparr>interference = (id :: order_db \<Rightarrow> order_db), outcome_of = Lost_after (Sentinel Context_DeadlineExceeded)\<rparr>"
  let ?tries = "[(?lost, 1600000000000000000)]"
  obtain res d2 where r: "CreateIdempotent quiet 1700000000000000000 5 ''T1-42-0102030405060708'' [demo_line]
      (foldl (\<lambda>d (env, now). snd (CreateIdempotent env now 5 ''T1-42-0102030405060708'' [demo_line] d)) demo_orders ?tries) = (res, d2)"
    by fastforce
  have "\<forall>(env, now) \<in> set ?tries. undisturbed env" by (simp add: undisturbed_def)
  from order_retry_exactly_once [OF demo_orders_ok this refl r]
  obtain t where t: "t \<in> {1700000000000000000, 1600000000000000000}"
    "d2 = snd (CreateIdempotent quiet t 5 ''T1-42-0102030405060708'' [demo_line] demo_orders)"
    "\<forall>x. fst (CreateIdempotent quiet t 5 ''T1-42-0102030405060708'' [demo_line] demo_orders) = Inr x \<longrightarrow> (\<exists>y. res = Inr y \<and> cr_Order y = cr_Order x)"
    by auto
  have "datetime_ok (Truncate t microsecond)" "0 < UnixMilli t"
    using t(1) by (auto simp: datetime_ok_def Truncate_def zero_time_def UnixMilli_def)
  from demo_create [OF this] t(2,3) r show ?thesis by auto
qed

theorem orders_have_events_witness:
  "let d' = foldl (\<lambda>d (env, now, req). snd (create_request env now req d)) demo_orders
     [(\<lambda>k. \<lparr>interference = id, outcome_of = Lost_after (Sentinel Context_DeadlineExceeded)\<rparr>, 1600000000000000000, 5, ''T1-42-0102030405060708'', [demo_line]),
      (quiet, 1700000000000000000, 6, ''O2'', [demo_line])]
   in orders_ok d' \<and> length (od_orders d') = length (od_outbox d')"
  using orders_have_events [OF demo_orders_ok _ refl, of
     "[(\<lambda>k. \<lparr>interference = id, outcome_of = Lost_after (Sentinel Context_DeadlineExceeded)\<rparr>, 1600000000000000000, 5, ''T1-42-0102030405060708'', [demo_line]),
      (quiet, 1700000000000000000, 6, ''O2'', [demo_line])]"]
  by (simp add: Let_def undisturbed_def quiet_def)

theorem order_conflict_witness:
  "\<exists>x d. CreateIdempotent quiet 1700000000000000000 5 ''T1-42-0102030405060708'' [demo_line] demo_orders = (Inr x, d) \<and>
     CreateIdempotent quiet 1800000000000000000 6 ''T1-42-0102030405060708'' [demo_line] d = (fail ErrOrderConflict, d)"
proof -
  let ?ono = "''T1-42-0102030405060708''"
  have p: "TrimSpace ?ono = ?ono" by (simp add: byte_def)
  have "datetime_ok (Truncate 1700000000000000000 microsecond)" "0 < UnixMilli 1700000000000000000"
    by (simp_all add: datetime_ok_def Truncate_def zero_time_def UnixMilli_def)
  from demo_create [OF this] obtain x d where x: "CreateIdempotent quiet 1700000000000000000 5 ?ono [demo_line] demo_orders = (Inr x, d)"
    "length (od_orders d) = 1" by blast
  obtain c where tx: "create_tx 1700000000000000000 5 ?ono [norm_item demo_line] 9900 demo_orders = (Inr c, d)"
    using create_attempt_effect [of quiet 5 ?ono "[demo_line]", unfolded p, OF _ demo_normalize, of 1700000000000000000 demo_orders] x
    by (auto simp: demo_orders_def)
  have ok: "orders_ok d" using orders.keeps [OF demo_orders_ok TrueI, of 1700000000000000000 "(5, ?ono, [demo_line])"] x by simp
  have am: "0 \<le> (9900 :: int)" "9900 \<le> max_i64" by (simp_all add: max_i64_def)
  have "\<exists>found. findByOrderNoTx ?ono d = Inr found \<and> o_UserID found = 5"
    using tx p am
  proof (cases rule: create_tx_success)
    case (existing found)
    then show ?thesis by (simp add: findByOrderNoTx_def demo_orders_def)
  next
    case (written row rows e)
    with written_found(2) [OF orders_ok_tables [OF demo_orders_ok] orders_ok_tables [OF ok] written(2,3,6,7,8,9)] show ?thesis by (simp add: load_order_def)
  qed
  then obtain found where f: "findByOrderNoTx ?ono d = Inr found" "o_UserID found = 5" by blast
  have "normalizeItems 6 ?ono [demo_line] = Inr ([norm_item demo_line], 9900)"
    using demo_normalize by (simp add: normalizeItems_def)
  from order_conflict [OF ok, of 6 ?ono, unfolded p, OF this f(1)] f(2) x(1) show ?thesis by (auto simp: samePayload_def)
qed

end
