(* ===== verification/Pipeline.thy ===== *)
theory Pipeline
  imports StreamQueue Inventory OrderRepo
begin

text \<open>
  The orchestrator (\<open>cmd/seckill-orchestrator\<close>): the adapters through which the processor of the stream calls the
  inventory service and the order service with retries and a circuit breaker, and what the whole path from a task
  of the stream to the rows of both databases guarantees. The two services commit separately, so everything
  rests on retries under the order number of the task.
\<close>

section \<open>The databases behind the orchestrator\<close>

record tables =
  tb_inventory :: inventory_db
  tb_orders :: order_db

definition on_inventory_db :: "(inventory_db \<Rightarrow> 'a \<times> inventory_db) \<Rightarrow> tables \<Rightarrow> 'a \<times> tables" where
  "on_inventory_db f w = (case f (tb_inventory w) of (x, d) \<Rightarrow> (x, w\<lparr>tb_inventory := d\<rparr>))"

definition on_order_db :: "(order_db \<Rightarrow> 'a \<times> order_db) \<Rightarrow> tables \<Rightarrow> 'a \<times> tables" where
  "on_order_db f w = (case f (tb_orders w) of (x, d) \<Rightarrow> (x, w\<lparr>tb_orders := d\<rparr>))"

text \<open>
  What one use of an adapter meets: the environment of its policy, and for each attempt the network (with what other
  workers do to either database before the request arrives), the database of the server and its clock.
\<close>

record 'd rpc_env =
  rp_policy :: "nat \<Rightarrow> attempt_env"
  rp_net :: "nat \<Rightarrow> tables step_env"
  rp_server :: "nat \<Rightarrow> 'd env"
  rp_now :: "nat \<Rightarrow> time"

text \<open>
  The closure given to \<open>policy.Do\<close>: it makes the call and keeps the response of the last attempt. The state is
  the number of the attempt, that response, and the tables.
\<close>

definition attempt_rpc :: "(nat \<Rightarrow> tables step_env) \<Rightarrow> (nat \<Rightarrow> tables \<Rightarrow> 'r result \<times> tables) \<Rightarrow>
    nat \<times> 'r option \<times> tables \<Rightarrow> goerr option \<times> nat \<times> 'r option \<times> tables" where
  "attempt_rpc net handle s = (case s of (k, response, w) \<Rightarrow>
     (case call (net k) (handle k) w of
        (Inl callErr, w') \<Rightarrow> (Some callErr, k + 1, None, w')
      | (Inr x, w') \<Rightarrow> (None, k + 1, Some x, w')))"

section \<open>The adapters\<close>

text \<open>The state of the orchestrator: the breakers of its two policies, and the tables.\<close>

record orchestrator =
  oc_inventoryBreaker :: breaker
  oc_orderBreaker :: breaker
  oc_tables :: tables

definition inventoryRPCAdapter ::
  "(goerr \<Rightarrow> code) \<Rightarrow> bool \<Rightarrow> PolicyConfig \<Rightarrow> inventory_db rpc_env \<Rightarrow> orchestrator inventory_rpc" where
  "inventoryRPCAdapter sc attach policy E userID activityID itemID orderNo reservedAt s =
     (let request = \<lparr>rq_OrderNo = orderNo, rq_ActivityId = activityID, rq_ItemId = itemID, rq_UserId = userID,
            rq_ReservedAtMs = UnixMilli reservedAt\<rparr>;
          handle = (\<lambda>k. on_inventory_db (Server_ReserveSeckillStock sc attach (rp_server E k) (rp_now E k) request))
      in case Do sc policy (rp_policy E) True (attempt_rpc (rp_net E) handle) (oc_inventoryBreaker s, 0, None, oc_tables s) of
           (Some err, b, _, _, w) \<Rightarrow> (Inl err, s\<lparr>oc_inventoryBreaker := b, oc_tables := w\<rparr>)
         | (None, b, _, None, w) \<Rightarrow> (Inl (Plain ''inventory-rpc returned empty reservation snapshot''),
              s\<lparr>oc_inventoryBreaker := b, oc_tables := w\<rparr>)
         | (None, b, _, Some response, w) \<Rightarrow>
             (let snapshot = rs_Sku response in
              (Inr \<lparr>rr_Snapshot = \<lparr>sn_SKUID = fs_SKUID snapshot, sn_ProductName = fs_ProductName snapshot,
                   sn_SKUCode = fs_SKUCode snapshot, sn_SKUName = fs_SKUName snapshot,
                   sn_UnitPriceCent = fs_UnitPriceCent snapshot\<rparr>,
                 rr_Replayed = rs_Replayed response\<rparr>,
               s\<lparr>oc_inventoryBreaker := b, oc_tables := w\<rparr>)))"

definition frozen_line :: "ReservedSnapshot \<Rightarrow> ItemInput" where
  "frozen_line snapshot = \<lparr>in_SKUID = sn_SKUID snapshot, in_ProductName = sn_ProductName snapshot,
     in_SKUCode = sn_SKUCode snapshot, in_SKUName = sn_SKUName snapshot, in_UnitPriceCent = sn_UnitPriceCent snapshot,
     in_Quantity = 1\<rparr>"

definition orderRPCAdapter ::
  "(goerr \<Rightarrow> code) \<Rightarrow> bool \<Rightarrow> PolicyConfig \<Rightarrow> order_db rpc_env \<Rightarrow> orchestrator order_rpc" where
  "orderRPCAdapter sc attach policy E userID activityID itemID orderNo reservedAt snapshot s =
     (let request = \<lparr>cs_OrderNo = orderNo, cs_UserId = userID, cs_ActivityId = activityID, cs_ItemId = itemID,
            cs_ReservedAtMs = UnixMilli reservedAt, cs_Item = Some (frozen_line snapshot)\<rparr>;
          handle = (\<lambda>k. on_order_db (CreateSeckillOrder sc attach (rp_server E k) (rp_now E k) request))
      in case Do sc policy (rp_policy E) True (attempt_rpc (rp_net E) handle) (oc_orderBreaker s, 0, None, oc_tables s) of
           (Some err, b, _, _, w) \<Rightarrow> (Inl err, s\<lparr>oc_orderBreaker := b, oc_tables := w\<rparr>)
         | (None, b, _, response, w) \<Rightarrow>
             (Inr (case response of Some r \<Rightarrow> cr_Replayed r | None \<Rightarrow> False), s\<lparr>oc_orderBreaker := b, oc_tables := w\<rparr>))"

text \<open>
  \<open>newRPCPolicy\<close> takes its settings in milliseconds; the processor of the orchestrator is \<open>ProcessStreamTask\<close> over
  the two adapters. What the world does to a task may depend on it: \<open>F\<close> gives its environments.
\<close>

record retryConfig =
  ry_MaxAttempts :: int
  ry_BackoffBaseMilliseconds :: int
  ry_BackoffMaxMilliseconds :: int
  ry_JitterRatio :: rat
  ry_BreakerFailures :: int
  ry_BreakerOpenMilliseconds :: int

definition newRPCPolicy :: "retryConfig \<Rightarrow> PolicyConfig result" where
  "newRPCPolicy c =
     (let config = \<lparr>MaxAttempts = ry_MaxAttempts c, BackoffBase = wrap_i64 (ry_BackoffBaseMilliseconds c * millisecond),
            BackoffMax = wrap_i64 (ry_BackoffMaxMilliseconds c * millisecond), JitterRatio = ry_JitterRatio c,
            BreakerFailures = ry_BreakerFailures c,
            BreakerOpenPeriod = wrap_i64 (ry_BreakerOpenMilliseconds c * millisecond)\<rparr>
      in case PolicyConfig_Validate config of Some e \<Rightarrow> Inl e | None \<Rightarrow> Inr config)"

record orchestrator_env =
  oe_inventory :: "inventory_db rpc_env"
  oe_orders :: "order_db rpc_env"

definition orchestrate :: "(goerr \<Rightarrow> code) \<Rightarrow> bool \<Rightarrow> PolicyConfig \<Rightarrow> orchestrator_env \<Rightarrow> orchestrator processor" where
  "orchestrate sc attach policy E = ProcessStreamTask sc (inventoryRPCAdapter sc attach policy (oe_inventory E))
     (orderRPCAdapter sc attach policy (oe_orders E))"

section \<open>What a use of an adapter does\<close>

text \<open>A use of the policy repeats the call; if it reports no error, its last attempt reported none.\<close>

lemma do_loop_success:
  assumes "do_loop sc c env rpc k n (b, w) = (None, b', w')" and "0 < n"
  shows "\<exists>j. rpc (((\<lambda>w. snd (rpc w)) ^^ j) w) = (None, w')"
  using assms
proof (induction n arbitrary: k b w)
  case (Suc n)
  obtain lastErr w1 where r: "rpc w = (lastErr, w1)" by fastforce
  obtain ok b1 where a: "allow b (ae_allow_at (env k)) (BreakerOpenPeriod c) = (ok, b1)" by fastforce
  let ?b2 = "record_call b1 (Classify sc lastErr) (ae_record_at (env k)) (BreakerFailures c)"
  show ?case
  proof (cases "lastErr = None")
    case True
    then have "w' = w1" using Suc.prems(1) r a by (auto simp: Let_def split: option.splits if_splits bool.splits)
    with r True show ?thesis by (intro exI [of _ 0]) simp
  next
    case False
    then have "do_loop sc c env rpc (k + 1) n (?b2, w1) = (None, b', w')" "0 < n"
      using Suc.prems(1) r a by (auto simp: Let_def split: option.splits if_splits bool.splits)
    from Suc.IH [OF this] obtain j where "rpc (((\<lambda>w. snd (rpc w)) ^^ j) w1) = (None, w')" by blast
    then have "rpc (((\<lambda>w. snd (rpc w)) ^^ Suc j) w) = (None, w')"
      using r funpow_swap1 [of "\<lambda>w. snd (rpc w)" j w] by simp
    then show ?thesis by blast
  qed
qed simp

text \<open>What every attempt respects, the whole use does.\<close>

lemma attempts_respect:
  assumes R: "reflp R" "transp R"
    and step: "\<And>k w. R w (snd (call (net k) (handle k) w))"
  shows "R w (snd (snd (((\<lambda>s. snd (attempt_rpc net handle s)) ^^ j) (k, r, w))))"
proof (induction j)
  case (Suc j)
  obtain k' r' w' where s: "((\<lambda>s. snd (attempt_rpc net handle s)) ^^ j) (k, r, w) = (k', r', w')" by (metis prod_cases3)
  have "snd (snd (snd (attempt_rpc net handle (k', r', w')))) = snd (call (net k') (handle k') w')"
    by (cases "call (net k') (handle k') w'"; cases "fst (call (net k') (handle k') w')") (simp_all add: attempt_rpc_def)
  then show ?case using Suc s step [of w' k'] by (auto intro: transpD [OF R(2)])
qed (simp add: reflpD [OF R(1)])

lemma Do_respects:
  assumes "reflp R" and "transp R" and "\<And>k w. R w (snd (call (net k) (handle k) w))"
    and "Do sc c env i (attempt_rpc net handle) (b, k, r, w) = (e, b', k', r', w')"
  shows "R w w'"
proof -
  obtain j where "snd (snd (Do sc c env i (attempt_rpc net handle) (b, k, r, w))) =
      ((\<lambda>s. snd (attempt_rpc net handle s)) ^^ j) (k, r, w)"
    using Do_executions by metis
  then have "((\<lambda>s. snd (attempt_rpc net handle s)) ^^ j) (k, r, w) = (k', r', w')" using assms(4) by simp
  with attempts_respect [where R = R and net = net and handle = handle and w = w and j = j and k = k and r = r, OF assms(1-3)] show ?thesis by simp
qed

text \<open>A response comes from a call that was answered, in tables that the earlier attempts left.\<close>

lemma Do_response:
  assumes R: "reflp R" "transp R" "\<And>k w. R w (snd (call (net k) (handle k) w))"
    and run: "Do sc c env True (attempt_rpc net handle) (b, k, r, w) = (None, b', k', r', w')" and "0 < MaxAttempts c"
  obtains j w0 x where "R w w0" "call (net j) (handle j) w0 = (Inr x, w')" "r' = Some x"
proof -
  let ?rpc = "attempt_rpc net handle"
  have "0 < nat (MaxAttempts c)" using assms(5) by simp
  with do_loop_success [of sc c env ?rpc 0 "nat (MaxAttempts c)" b "(k, r, w)" b' "(k', r', w')"] run
  obtain i where i: "?rpc (((\<lambda>s. snd (?rpc s)) ^^ i) (k, r, w)) = (None, k', r', w')" by (auto simp: Do_def)
  obtain j r0 w0 where s: "((\<lambda>s. snd (?rpc s)) ^^ i) (k, r, w) = (j, r0, w0)" by (metis prod_cases3)
  have "R w w0" using attempts_respect [where R = R and net = net and handle = handle and w = w and j = i and k = k and r = r, OF R] s by simp
  moreover obtain x where "call (net j) (handle j) w0 = (Inr x, w')" "r' = Some x"
    using i s by (auto simp: attempt_rpc_def split: prod.splits sum.splits)
  ultimately show ?thesis by (rule that)
qed

section \<open>What the two databases say of each other\<close>

text \<open>
  The gate has granted order numbers: \<open>granted no\<close> is the activity, the item and the user of a number, and a user has one
  number for an item. The databases are linked if every reservation was made under a granted number, for
  its activity, item and user, and every order under a granted number has its reservation, of the same user at the same price.
\<close>

definition gate_ok :: "(string \<Rightarrow> (u64 \<times> u64 \<times> u64) option) \<Rightarrow> bool" where
  "gate_ok granted \<longleftrightarrow> inj_on granted (dom granted) \<and> (\<forall>no \<in> dom granted. TrimSpace no = no)"

definition reserved_as :: "reservation_row \<Rightarrow> order_row \<Rightarrow> bool" where
  "reserved_as x r \<longleftrightarrow> rw_order_no x = or_order_no r \<and> rw_user_id x = or_user_id r \<and>
     rw_unit_price_cent x = or_total_amount_cent r"

definition linked :: "(string \<Rightarrow> (u64 \<times> u64 \<times> u64) option) \<Rightarrow> tables \<Rightarrow> bool" where
  "linked granted w \<longleftrightarrow> inventory_ok (tb_inventory w) \<and> orders_ok (tb_orders w) \<and>
     (\<forall>x \<in> set (inv_reservations (tb_inventory w)). granted (rw_order_no x) = Some (user_item x)) \<and>
     (\<forall>r \<in> set (od_orders (tb_orders w)). or_order_no r \<in> dom granted \<longrightarrow>
        (\<exists>x \<in> set (inv_reservations (tb_inventory w)). reserved_as x r))"

text \<open>Rows are only added, and items keep what they froze.\<close>

definition grows :: "tables \<Rightarrow> tables \<Rightarrow> bool" where
  "grows w w' \<longleftrightarrow> set (inv_reservations (tb_inventory w)) \<subseteq> set (inv_reservations (tb_inventory w')) \<and>
     set (od_orders (tb_orders w)) \<subseteq> set (od_orders (tb_orders w')) \<and>
     frozen ` set (inv_items (tb_inventory w)) \<subseteq> frozen ` set (inv_items (tb_inventory w'))"

lemma grows_refl [simp]: "grows w w"
  by (simp add: grows_def)

lemma grows_trans: "grows a b \<Longrightarrow> grows b c \<Longrightarrow> grows a c"
  unfolding grows_def by (meson subset_trans)

text \<open>What each worker guarantees and relies on; \<open>row\<close> is a reservation that is known to be there.\<close>

definition advances :: "(string \<Rightarrow> (u64 \<times> u64 \<times> u64) option) \<Rightarrow> reservation_row set \<Rightarrow> tables \<Rightarrow> tables \<Rightarrow> bool" where
  "advances granted rows w w' \<longleftrightarrow> grows w w' \<and>
     (linked granted w \<and> rows \<subseteq> set (inv_reservations (tb_inventory w)) \<longrightarrow> linked granted w')"

lemma advances_order [simp]: "reflp (advances granted rows)" "transp (advances granted rows)"
proof -
  show "reflp (advances granted rows)" by (simp add: reflp_def advances_def)
  show "transp (advances granted rows)"
  proof (rule transpI)
    fix a b c assume "advances granted rows a b" "advances granted rows b c"
    moreover from this have "rows \<subseteq> set (inv_reservations (tb_inventory b))" if "rows \<subseteq> set (inv_reservations (tb_inventory a))"
      using that unfolding advances_def grows_def by (meson subset_trans)
    ultimately show "advances granted rows a c" unfolding advances_def using grows_trans by blast
  qed
qed

lemma advances_less: "advances granted {} w w' \<Longrightarrow> advances granted rows w w'"
  by (simp add: advances_def)

lemma advances_call:
  assumes "\<And>w. advances granted {} w (interference c w)" and "\<And>w. advances granted rows w (snd (f w))"
  shows "advances granted rows w (snd (call c f w))"
  by (rule call_respects [of "advances granted rows"])
    (use assms advances_less transpD [OF advances_order(2)] in \<open>blast+\<close>)

subsection \<open>The inventory service\<close>

lemma Reserve_once:
  assumes un: "undisturbed env" and run: "InventoryService_Reserve env now input d = (res, d')"
    and trim: "TrimSpace (iri_OrderNo input) = iri_OrderNo input"
  shows "d' = d \<or> (\<exists>x. reserve_tx now (input\<lparr>iri_ReservedAt := Truncate (iri_ReservedAt input) millisecond\<rparr>) d = (Inr x, d'))"
  using run attempt_effect [OF un] trim by (auto simp: InventoryService_Reserve_def Let_def split: if_splits)

lemma lookup_row:
  assumes "lookup cond d = Some x"
  obtains row where "row \<in> set (inv_reservations d)" "cond row" "x = load_reservation row (sku_of d row)"
proof -
  from assms obtain row where "find cond (inv_reservations d) = Some row" "x = load_reservation row (sku_of d row)"
    by (auto simp: lookup_def)
  moreover from this have "row \<in> set (inv_reservations d)" "cond row" by (auto simp: find_Some_iff)
  ultimately show ?thesis using that by blast
qed

text \<open>The answer names a reservation that is there: its own, the one under its number, or the one of the user.\<close>

lemma Reserve_answer:
  assumes un: "undisturbed env" and run: "ReserveSeckillStock env now input d = (Inr x, d')"
  shows "\<exists>row \<in> set (inv_reservations d'). user_item row = (iri_ActivityID input, iri_ItemID input, iri_UserID input) \<and>
    rw_unit_price_cent row = fs_UnitPriceCent (ir_Snapshot x)"
proof -
  let ?found = "\<lambda>z e. \<exists>row \<in> set (inv_reservations e). user_item row = (iri_ActivityID input, iri_ItemID input, iri_UserID input) \<and>
    rw_unit_price_cent row = fs_UnitPriceCent (ir_Snapshot z)"
  have replay: "?found x e" if "lookup cond e = Some z" "replayOrder z input = Inr x" for cond z e
    using that(2) by (rule_tac lookup_row [OF that(1)]) (auto simp: replayOrder_def load_reservation_def user_item_def split: if_splits)
  have winner: "?found (z\<lparr>ir_Replayed := True\<rparr>) e" if "lookup (by_user_item input) e = Some z" for z e
    by (rule lookup_row [OF that]) (auto simp: load_reservation_def user_item_def)
  have new: "?found x e" if "reserveOnce (env k) now input c = (Inr x, e)" for k c e
  proof (rule reserve_tx_success)
    show "reserve_tx now input c = (Inr x, e)"
      using atomically_undisturbed(2) [OF un, of k "reserve_tx now input" c "Inr x" e x] that by (simp add: reserveOnce_def)
  qed (simp add: user_item_def)
  note one = findOne_undisturbed [OF un]
  obtain r1 d1 where f1: "findByOrderNo env 0 (iri_OrderNo input) d = (r1, d1)" by fastforce
  note o1 = one [OF f1 [unfolded findByOrderNo_def]]
  consider z where "r1 = Inr (Some z)" | "r1 = Inr None" using run f1 by (cases r1) (auto simp: ReserveSeckillStock_def)
  then show ?thesis
  proof cases
    case (1 z)
    with run f1 have "replayOrder z input = Inr x" "d' = d1" by (auto simp: ReserveSeckillStock_def)
    moreover have "lookup (by_order (iri_OrderNo input)) d1 = Some z" using o1 1 by simp
    ultimately show ?thesis using replay by blast
  next
    case 2
    obtain r2 d2 where f2: "reserveOnce (env 2) now input d1 = (r2, d2)" by fastforce
    show ?thesis
    proof (cases r2)
      case (Inr y)
      with run f1 f2 2 new show ?thesis by (auto simp: ReserveSeckillStock_def)
    next
      case (Inl e)
      obtain r3 d3 where f3: "findByOrderNo env 3 (iri_OrderNo input) d2 = (r3, d3)" by fastforce
      note o3 = one [OF f3 [unfolded findByOrderNo_def]]
      obtain r4 d4 where f4: "findByUserItem env 5 (iri_ActivityID input) (iri_ItemID input) (iri_UserID input) d3 = (r4, d4)" by fastforce
      note o4 = one [OF f4 [unfolded findByUserItem_def]]
      have "(\<exists>z. r3 = Inr (Some z) \<and> replayOrder z input = Inr x \<and> d' = d3) \<or>
          (\<exists>z. r4 = Inr (Some z) \<and> x = z\<lparr>ir_Replayed := True\<rparr> \<and> d' = d4)"
        using run f1 f2 f3 f4 2 Inl
        by (auto simp: ReserveSeckillStock_def split: if_splits sum.splits option.splits)
      then show ?thesis
      proof (elim disjE exE conjE)
        fix z assume z: "r3 = Inr (Some z)" "replayOrder z input = Inr x" "d' = d3"
        have "lookup (by_order (iri_OrderNo input)) d3 = Some z" using o3 z(1) by simp
        from replay [OF this z(2)] z(3) show ?thesis by simp
      next
        fix z assume z: "r4 = Inr (Some z)" "x = z\<lparr>ir_Replayed := True\<rparr>" "d' = d4"
        have "lookup (by_user_item input) d4 = Some z" using o4 z(1) by simp
        from winner [OF this] z(2,3) show ?thesis by simp
      qed
    qed
  qed
qed

lemma inventory_guarantee:
  assumes "gate_ok granted" and "granted no = Some (act, item, user)" and "undisturbed env"
    and "rq = \<lparr>rq_OrderNo = no, rq_ActivityId = act, rq_ItemId = item, rq_UserId = user, rq_ReservedAtMs = ms\<rparr>"
  shows "advances granted {} w (snd (on_inventory_db (Server_ReserveSeckillStock sc attach env now rq) w))"
proof -
  let ?input = "\<lparr>iri_OrderNo = no, iri_ActivityID = act, iri_ItemID = item, iri_UserID = user, iri_ReservedAt = time_UnixMilli ms\<rparr>"
  have trim: "TrimSpace no = no" using assms(1,2) by (auto simp: gate_ok_def)
  obtain res d' where r: "InventoryService_Reserve env now ?input (tb_inventory w) = (res, d')" by fastforce
  have w': "snd (on_inventory_db (Server_ReserveSeckillStock sc attach env now rq) w) = w\<lparr>tb_inventory := d'\<rparr>"
    using r by (cases res) (simp_all add: assms(4) on_inventory_db_def Server_ReserveSeckillStock_def)
  from Reserve_once [OF assms(3) r] trim consider "d' = tb_inventory w" | x where
    "reserve_tx now (?input\<lparr>iri_ReservedAt := Truncate (time_UnixMilli ms) millisecond\<rparr>) (tb_inventory w) = (Inr x, d')" by auto
  then show ?thesis
  proof cases
    case 1
    then show ?thesis by (simp add: w' advances_def)
  next
    case (2 x)
    from reserve_tx_success [OF 2] obtain row where row: "inv_reservations d' = inv_reservations (tb_inventory w) @ [row]"
      "rw_order_no row = no" "user_item row = (act, item, user)"
      by (metis (no_types, lifting) InventoryReservationInput.select_convs(1,2,3,4) InventoryReservationInput.update_convs(5)
          reservation_row.select_convs(2,3,4,5) user_item_def)
    have "map frozen (inv_items (tb_inventory w)) = take (length (inv_items (tb_inventory w))) (map frozen (inv_items d'))"
      using reserve_tx_evolves [OF 2] by (auto simp: evolves_def)
    then have "frozen ` set (inv_items (tb_inventory w)) \<subseteq> frozen ` set (inv_items d')"
      by (metis image_set set_take_subset)
    with row assms(2) inventory_ok_reserve [OF _ 2] show ?thesis
      unfolding w' advances_def grows_def linked_def by auto
  qed
qed

lemma inventory_answer:
  assumes "undisturbed env" and "TrimSpace no = no"
    and "rq = \<lparr>rq_OrderNo = no, rq_ActivityId = act, rq_ItemId = item, rq_UserId = user, rq_ReservedAtMs = ms\<rparr>"
    and "on_inventory_db (Server_ReserveSeckillStock sc attach env now rq) w = (Inr x, w')"
  shows "\<exists>row \<in> set (inv_reservations (tb_inventory w')). user_item row = (act, item, user) \<and>
    rw_unit_price_cent row = fs_UnitPriceCent (rs_Sku x)"
proof -
  let ?input = "\<lparr>iri_OrderNo = no, iri_ActivityID = act, iri_ItemID = item, iri_UserID = user, iri_ReservedAt = time_UnixMilli ms\<rparr>"
  obtain y where "InventoryService_Reserve env now ?input (tb_inventory w) = (Inr y, tb_inventory w')" "rs_Sku x = ir_Snapshot y"
    using assms(3,4) by (auto simp: on_inventory_db_def Server_ReserveSeckillStock_def split: prod.splits sum.splits)
  with Reserve_answer [OF assms(1)] assms(2) show ?thesis
    by (fastforce simp: InventoryService_Reserve_def Let_def split: if_splits)
qed

subsection \<open>The order service\<close>

lemma normalize_line:
  assumes "normalizeItems u no [line] = Inr (items, amount)" and "in_Quantity line = 1"
  shows "amount = in_UnitPriceCent line" "0 \<le> amount" "amount \<le> max_i64"
  using assms normalizeItems_ok [OF assms(1)] normalize_loop_spec [of 0 "[line]" "[]" "[]"]
  by (auto simp: normalizeItems_def amount_of_def max_i64_def split: if_splits)

lemma Create_once:
  assumes un: "undisturbed env" and trim: "TrimSpace no = no" and line: "in_Quantity line = 1"
    and run: "CreateIdempotent env now u no [line] d = (res, d')"
  shows "d' = d \<or> (\<exists>c items. create_tx now u no items (in_UnitPriceCent line) d = (Inr c, d') \<and>
      0 \<le> in_UnitPriceCent line \<and> in_UnitPriceCent line \<le> max_i64)"
    and "res = Inr x \<Longrightarrow> \<exists>c items. create_tx now u no items (in_UnitPriceCent line) d = (Inr c, d') \<and>
      0 \<le> in_UnitPriceCent line \<and> in_UnitPriceCent line \<le> max_i64"
proof -
  let ?goal = "\<exists>c items. create_tx now u no items (in_UnitPriceCent line) d = (Inr c, d') \<and>
      0 \<le> in_UnitPriceCent line \<and> in_UnitPriceCent line \<le> max_i64"
  have "(d' = d \<or> ?goal) \<and> (\<forall>x. res = Inr x \<longrightarrow> ?goal)"
  proof (cases "normalizeItems u no [line]")
    case (Inl e)
    with run trim show ?thesis by (auto simp: CreateIdempotent_def)
  next
    case norm: (Inr r)
    obtain items amount where r: "r = (items, amount)" by fastforce
    note n = normalize_line [OF norm [unfolded r] line]
    obtain a d1 where a: "atomically (env 0) (create_tx now u no items amount) d = (a, d1)" by fastforce
    have "d' = d1 \<and> ((\<exists>x. res = Inr x) \<longrightarrow> (\<exists>c. a = Inr c))"
    proof (cases a)
      case (Inl e)
      with run norm r trim a show ?thesis by (auto simp: CreateIdempotent_def)
    next
      case c: (Inr c)
      show ?thesis
      proof (cases c)
        case (Existing found)
        with run norm r trim a c show ?thesis by (auto simp: CreateIdempotent_def)
      next
        case (Written i)
        obtain q d2 where q: "FindOwned env 1 u i d1 = (q, d2)" by fastforce
        then have "d2 = d1" using FindOwned_undisturbed [OF un, of 1 u i d1] by simp
        moreover have "CreateIdempotent env now u no [line] d = (case q of Inl e \<Rightarrow> (Inl e, d2)
            | Inr x \<Rightarrow> (Inr \<lparr>cr_Order = x, cr_Replayed = False\<rparr>, d2))"
          by (cases q) (simp_all add: CreateIdempotent_def trim norm r a c Written q [simplified])
        ultimately show ?thesis using run c by (cases q) simp_all
      qed
    qed
    then have d': "d' = d1" and res: "\<And>x. res = Inr x \<Longrightarrow> \<exists>c. a = Inr c" by auto
    note tx = atomically_undisturbed [OF un a]
    show ?thesis
    proof (intro conjI allI impI)
      show "d' = d \<or> ?goal" using tx(1) d' n by (elim disjE exE) auto
      show ?goal if "res = Inr x" for x using tx(2) res [OF that] d' n by auto
    qed
  qed
  then show "d' = d \<or> ?goal" "res = Inr x \<Longrightarrow> ?goal" by auto
qed

lemma CreateSeckillOrder_once:
  assumes un: "undisturbed env" and trim: "TrimSpace no = no"
    and rq: "rq = \<lparr>cs_OrderNo = no, cs_UserId = user, cs_ActivityId = act, cs_ItemId = item, cs_ReservedAtMs = ms,
      cs_Item = Some (frozen_line snapshot)\<rparr>"
    and run: "CreateSeckillOrder sc attach env now rq d = (res, d')"
  shows "d' = d \<or> (\<exists>c items. create_tx now user no items (sn_UnitPriceCent snapshot) d = (Inr c, d') \<and>
      0 \<le> sn_UnitPriceCent snapshot \<and> sn_UnitPriceCent snapshot \<le> max_i64)"
    and "res = Inr x \<Longrightarrow> \<exists>c items. create_tx now user no items (sn_UnitPriceCent snapshot) d = (Inr c, d') \<and>
      0 \<le> sn_UnitPriceCent snapshot \<and> sn_UnitPriceCent snapshot \<le> max_i64"
proof -
  let ?line = "frozen_line snapshot"
  obtain r e where c: "CreateIdempotent env now user no [?line] d = (r, e)" by fastforce
  have l: "in_Quantity ?line = 1" "in_UnitPriceCent ?line = sn_UnitPriceCent snapshot" "?line\<lparr>in_Quantity := 1\<rparr> = ?line"
    by (simp_all add: frozen_line_def)
  have run': "d' = d \<and> (\<forall>x. res \<noteq> Inr x) \<or> d' = e \<and> (\<forall>x. res = Inr x \<longrightarrow> r = Inr x)"
    using run c trim by (auto simp: CreateSeckillOrder_def CreateSeckill_def rq l(3) Let_def split: prod.splits sum.splits if_splits)
  note once = Create_once [OF un trim l(1) c, unfolded l(2)]
  show "d' = d \<or> (\<exists>c items. create_tx now user no items (sn_UnitPriceCent snapshot) d = (Inr c, d') \<and>
      0 \<le> sn_UnitPriceCent snapshot \<and> sn_UnitPriceCent snapshot \<le> max_i64)"
    using run' once(1) by blast
  show "res = Inr x \<Longrightarrow> \<exists>c items. create_tx now user no items (sn_UnitPriceCent snapshot) d = (Inr c, d') \<and>
      0 \<le> sn_UnitPriceCent snapshot \<and> sn_UnitPriceCent snapshot \<le> max_i64"
    using run' once(2) by blast
qed

text \<open>A transaction that commits leaves an order under its number, of its user and total, and no other new one.\<close>

lemma create_tx_order:
  assumes "create_tx now user no items amount d = (Inr c, d')" and "TrimSpace no = no" "0 \<le> amount" "amount \<le> max_i64"
  obtains r where "r \<in> set (od_orders d')" "or_order_no r = no" "or_user_id r = user" "or_total_amount_cent r = amount"
    "set (od_orders d') = insert r (set (od_orders d))"
  using assms
proof (cases rule: create_tx_success)
  case (existing found)
  then obtain r where r: "find (\<lambda>r. or_order_no r = no) (od_orders d) = Some r" "found = load_order r (findItems d (or_id r))"
    by (auto simp: findByOrderNoTx_def split: option.splits)
  then have "r \<in> set (od_orders d)" "or_order_no r = no" by (auto simp: find_Some_iff)
  with existing r that [of r] show ?thesis by (auto simp: samePayload_def load_order_def)
next
  case (written row rows e)
  with that [of row] show ?thesis by simp
qed

lemma order_guarantee:
  assumes "undisturbed env" and trim: "TrimSpace no = no"
    and rq: "rq = \<lparr>cs_OrderNo = no, cs_UserId = user, cs_ActivityId = act, cs_ItemId = item, cs_ReservedAtMs = ms,
      cs_Item = Some (frozen_line snapshot)\<rparr>"
    and row: "rw_order_no row = no" "rw_user_id row = user" "rw_unit_price_cent row = sn_UnitPriceCent snapshot"
  shows "advances granted {row} w (snd (on_order_db (CreateSeckillOrder sc attach env now rq) w))"
    and "on_order_db (CreateSeckillOrder sc attach env now rq) w = (Inr x, w') \<Longrightarrow>
      \<exists>r \<in> set (od_orders (tb_orders w')). reserved_as row r"
proof -
  obtain res d' where run: "CreateSeckillOrder sc attach env now rq (tb_orders w) = (res, d')" by fastforce
  have w': "on_order_db (CreateSeckillOrder sc attach env now rq) w = (res, w\<lparr>tb_orders := d'\<rparr>)"
    by (simp add: on_order_db_def run)
  note once = CreateSeckillOrder_once [OF assms(1) trim rq run]
  show "advances granted {row} w (snd (on_order_db (CreateSeckillOrder sc attach env now rq) w))"
    using once(1)
  proof (elim disjE exE conjE)
    fix c items
    assume tx: "create_tx now user no items (sn_UnitPriceCent snapshot) (tb_orders w) = (Inr c, d')"
      "0 \<le> sn_UnitPriceCent snapshot" "sn_UnitPriceCent snapshot \<le> max_i64"
    obtain r where r: "or_order_no r = no" "or_user_id r = user" "or_total_amount_cent r = sn_UnitPriceCent snapshot"
      "set (od_orders d') = insert r (set (od_orders (tb_orders w)))"
      by (rule create_tx_order [OF tx(1) trim tx(2,3)]) blast
    moreover have "reserved_as row r" by (simp add: reserved_as_def row r(1-3))
    moreover have "orders_ok (tb_orders w) \<Longrightarrow> orders_ok d'" by (rule orders_ok_create [OF _ tx(1) trim tx(2,3)])
    ultimately show ?thesis by (auto simp: w' advances_def grows_def linked_def)
  qed (simp add: w' advances_def)
  show "\<exists>r \<in> set (od_orders (tb_orders w')). reserved_as row r"
    if x: "on_order_db (CreateSeckillOrder sc attach env now rq) w = (Inr x, w')"
  proof -
    obtain c items where tx: "create_tx now user no items (sn_UnitPriceCent snapshot) (tb_orders w) = (Inr c, d')"
      "0 \<le> sn_UnitPriceCent snapshot" "sn_UnitPriceCent snapshot \<le> max_i64"
      using once(2) x by (auto simp: w')
    show ?thesis
      by (rule create_tx_order [OF tx(1) trim tx(2,3)]) (use x row in \<open>auto simp: w' reserved_as_def\<close>)
  qed
qed

subsection \<open>A task\<close>

text \<open>Anything may fail, and before each request other workers may advance both databases.\<close>

definition fair_rpc :: "(string \<Rightarrow> (u64 \<times> u64 \<times> u64) option) \<Rightarrow> 'd rpc_env \<Rightarrow> bool" where
  "fair_rpc granted E \<longleftrightarrow> (\<forall>k w. advances granted {} w (interference (rp_net E k) w)) \<and> (\<forall>k. undisturbed (rp_server E k))"

lemma inventory_adapter:
  assumes gate: "gate_ok granted" "granted no = Some (act, item, user)" and fair: "fair_rpc granted E"
    and run: "inventoryRPCAdapter sc attach policy E user act item no t0 s = (res, s')"
  shows "advances granted {} (oc_tables s) (oc_tables s')"
    and "res = Inr x \<Longrightarrow> 0 < MaxAttempts policy \<Longrightarrow> linked granted (oc_tables s) \<Longrightarrow>
      \<exists>row \<in> set (inv_reservations (tb_inventory (oc_tables s'))). rw_order_no row = no \<and> user_item row = (act, item, user) \<and>
        rw_unit_price_cent row = sn_UnitPriceCent (rr_Snapshot x)"
proof -
  define rq where "rq = \<lparr>rq_OrderNo = no, rq_ActivityId = act, rq_ItemId = item, rq_UserId = user, rq_ReservedAtMs = UnixMilli t0\<rparr>"
  define handle where "handle k = on_inventory_db (Server_ReserveSeckillStock sc attach (rp_server E k) (rp_now E k) rq)" for k
  obtain e b k r w where d: "Do sc policy (rp_policy E) True (attempt_rpc (rp_net E) handle)
      (oc_inventoryBreaker s, 0, None, oc_tables s) = (e, b, k, r, w)" by (metis prod_cases5)
  have s': "oc_tables s' = w" and res: "res = Inr x \<Longrightarrow> e = None \<and> (\<exists>y. r = Some y \<and>
      sn_UnitPriceCent (rr_Snapshot x) = fs_UnitPriceCent (rs_Sku y))" for x
    using run d unfolding inventoryRPCAdapter_def handle_def rq_def Let_def by (auto split: option.splits)
  have R: "advances granted {} w (snd (call (rp_net E k) (handle k) w))" for k w
    using fair by (intro advances_call) (auto simp: fair_rpc_def handle_def intro!: inventory_guarantee [OF gate _ rq_def])
  from Do_respects [where R = "advances granted {}", OF advances_order R d]
  show adv: "advances granted {} (oc_tables s) (oc_tables s')" by (simp add: s')
  show "\<exists>row \<in> set (inv_reservations (tb_inventory (oc_tables s'))). rw_order_no row = no \<and> user_item row = (act, item, user) \<and>
        rw_unit_price_cent row = sn_UnitPriceCent (rr_Snapshot x)"
    if x: "res = Inr x" "0 < MaxAttempts policy" "linked granted (oc_tables s)"
  proof -
    from res [OF x(1)] obtain y where y: "e = None" "r = Some y" "sn_UnitPriceCent (rr_Snapshot x) = fs_UnitPriceCent (rs_Sku y)"
      by blast
    obtain j w0 where "call (rp_net E j) (handle j) w0 = (Inr y, w)"
      by (rule Do_response [where R = "advances granted {}", OF advances_order R d [unfolded y(1)] x(2)]) (use y in auto)
    from call_Inr [OF this] have "\<exists>row \<in> set (inv_reservations (tb_inventory w)). user_item row = (act, item, user) \<and>
        rw_unit_price_cent row = fs_UnitPriceCent (rs_Sku y)"
      unfolding handle_def using fair gate by (intro inventory_answer [OF _ _ rq_def]) (auto simp: fair_rpc_def gate_ok_def)
    then obtain row where row: "row \<in> set (inv_reservations (tb_inventory w))" "user_item row = (act, item, user)"
      "rw_unit_price_cent row = fs_UnitPriceCent (rs_Sku y)" by blast
    have "linked granted w" using adv x(3) by (simp add: advances_def s')
    then have "granted (rw_order_no row) = granted no" using row gate(2) by (simp add: linked_def)
    then have "rw_order_no row = no"
      using gate inj_onD [of granted "dom granted" "rw_order_no row" no] by (auto simp: gate_ok_def)
    with row y(3) show ?thesis by (auto simp: s')
  qed
qed

lemma order_adapter:
  assumes trim: "TrimSpace no = no" and fair: "fair_rpc granted E"
    and row: "rw_order_no row = no" "rw_user_id row = user" "rw_unit_price_cent row = sn_UnitPriceCent snapshot"
    and run: "orderRPCAdapter sc attach policy E user act item no t0 snapshot s = (res, s')"
  shows "advances granted {row} (oc_tables s) (oc_tables s')"
    and "res = Inr x \<Longrightarrow> 0 < MaxAttempts policy \<Longrightarrow>
      \<exists>r \<in> set (od_orders (tb_orders (oc_tables s'))). reserved_as row r"
proof -
  define rq where "rq = \<lparr>cs_OrderNo = no, cs_UserId = user, cs_ActivityId = act, cs_ItemId = item, cs_ReservedAtMs = UnixMilli t0,
      cs_Item = Some (frozen_line snapshot)\<rparr>"
  define handle where "handle k = on_order_db (CreateSeckillOrder sc attach (rp_server E k) (rp_now E k) rq)" for k
  obtain e b k r w where d: "Do sc policy (rp_policy E) True (attempt_rpc (rp_net E) handle)
      (oc_orderBreaker s, 0, None, oc_tables s) = (e, b, k, r, w)" by (metis prod_cases5)
  have s': "oc_tables s' = w" and res: "res = Inr x \<Longrightarrow> e = None" for x
    using run d unfolding orderRPCAdapter_def handle_def rq_def Let_def by (auto split: option.splits)
  have un: "undisturbed (rp_server E k)" for k using fair by (simp add: fair_rpc_def)
  have R: "advances granted {row} w (snd (call (rp_net E k) (handle k) w))" for k w
    unfolding handle_def
    by (rule advances_call) (use fair in \<open>simp add: fair_rpc_def\<close>, rule order_guarantee(1) [OF un trim rq_def row])
  from Do_respects [where R = "advances granted {row}", OF advances_order R d]
  show "advances granted {row} (oc_tables s) (oc_tables s')" by (simp add: s')
  show "\<exists>r \<in> set (od_orders (tb_orders (oc_tables s'))). reserved_as row r"
    if x: "res = Inr x" "0 < MaxAttempts policy"
  proof -
    obtain j w0 y where "call (rp_net E j) (handle j) w0 = (Inr y, w)"
      by (rule Do_response [where R = "advances granted {row}", OF advances_order R d [unfolded res [OF x(1)]] x(2)])
    from call_Inr [OF this] show ?thesis
      unfolding handle_def s' by (rule order_guarantee(2) [OF un trim rq_def row])
  qed
qed

lemma task_steps:
  assumes gate: "gate_ok granted" "granted no = Some (act, item, user)"
    and fair: "fair_rpc granted (oe_inventory E)" "fair_rpc granted (oe_orders E)" and "0 < MaxAttempts policy"
    and run: "orchestrate sc attach policy E user act item no t0 s = (res, s')" and ok: "linked granted (oc_tables s)"
  shows "linked granted (oc_tables s') \<and> grows (oc_tables s) (oc_tables s')"
    and "res = Inr x \<Longrightarrow> \<exists>row \<in> set (inv_reservations (tb_inventory (oc_tables s'))). \<exists>r \<in> set (od_orders (tb_orders (oc_tables s'))).
      rw_order_no row = no \<and> user_item row = (act, item, user) \<and> reserved_as row r"
proof -
  obtain r1 s1 where i: "inventoryRPCAdapter sc attach policy (oe_inventory E) user act item no t0 s = (r1, s1)" by fastforce
  note inv = inventory_adapter [OF gate fair(1) i]
  have ok1: "linked granted (oc_tables s1)" "grows (oc_tables s) (oc_tables s1)" using inv(1) ok by (simp_all add: advances_def)
  have "linked granted (oc_tables s') \<and> grows (oc_tables s) (oc_tables s') \<and> (\<forall>x. res = Inr x \<longrightarrow>
    (\<exists>row \<in> set (inv_reservations (tb_inventory (oc_tables s'))). \<exists>r \<in> set (od_orders (tb_orders (oc_tables s'))).
      rw_order_no row = no \<and> user_item row = (act, item, user) \<and> reserved_as row r))"
  proof (cases "user = 0 \<or> act = 0 \<or> item = 0 \<or> no = [] \<or> IsZero t0")
    case True
    with run ok show ?thesis by (auto simp: orchestrate_def ProcessStreamTask_def)
  next
    case False
    show ?thesis
    proof (cases r1)
      case (Inl e)
      with run False i ok1 show ?thesis by (auto simp: orchestrate_def ProcessStreamTask_def)
    next
      case (Inr reservation)
      from inv(2) [OF Inr assms(5) ok] obtain row where row: "row \<in> set (inv_reservations (tb_inventory (oc_tables s1)))"
        "rw_order_no row = no" "user_item row = (act, item, user)" "rw_unit_price_cent row = sn_UnitPriceCent (rr_Snapshot reservation)"
        by blast
      obtain r2 s2 where o2: "orderRPCAdapter sc attach policy (oe_orders E) user act item no t0 (rr_Snapshot reservation) s1 = (r2, s2)"
        by fastforce
      have "TrimSpace no = no" "rw_user_id row = user" using gate row(3) by (auto simp: gate_ok_def user_item_def)
      note ord = order_adapter [OF this(1) fair(2) row(2) this(2) row(4) o2]
      have s2: "linked granted (oc_tables s2)" "grows (oc_tables s1) (oc_tables s2)" using ord(1) ok1 row(1) by (simp_all add: advances_def)
      have e: "s' = s2" "res = Inr x \<Longrightarrow> \<exists>y. r2 = Inr y" for x
        using run False i Inr o2 by (auto simp: orchestrate_def ProcessStreamTask_def split: sum.splits)
      have "\<exists>r \<in> set (od_orders (tb_orders (oc_tables s'))). reserved_as row r" if "res = Inr x" for x
        using e(2) [OF that] ord(2) assms(5) e(1) by blast
      moreover have "row \<in> set (inv_reservations (tb_inventory (oc_tables s')))" using row(1) s2(2) e(1) by (auto simp: grows_def)
      ultimately show ?thesis using s2 e(1) row(2,3) grows_trans [OF ok1(2)] by blast
    qed
  qed
  then show "linked granted (oc_tables s') \<and> grows (oc_tables s) (oc_tables s')"
    and "res = Inr x \<Longrightarrow> \<exists>row \<in> set (inv_reservations (tb_inventory (oc_tables s'))). \<exists>r \<in> set (od_orders (tb_orders (oc_tables s'))).
      rw_order_no row = no \<and> user_item row = (act, item, user) \<and> reserved_as row r" by auto
qed

section \<open>Orders and stock\<close>

text \<open>The orders of an item that the gate granted.\<close>

definition granted_orders :: "(string \<Rightarrow> (u64 \<times> u64 \<times> u64) option) \<Rightarrow> u64 \<Rightarrow> tables \<Rightarrow> order_row list" where
  "granted_orders granted item w =
     filter (\<lambda>r. map_option (\<lambda>(act, i, user). i) (granted (or_order_no r)) = Some item) (od_orders (tb_orders w))"

lemma granted_orders_reserved:
  assumes "linked granted w" and "r \<in> set (granted_orders granted item w)"
  obtains x where "x \<in> set (reserved item (tb_inventory w))" "reserved_as x r" "granted (or_order_no r) = Some (user_item x)"
proof -
  obtain act user where g: "granted (or_order_no r) = Some (act, item, user)" "r \<in> set (od_orders (tb_orders w))"
    using assms(2) by (auto simp: granted_orders_def)
  then obtain x where "x \<in> set (inv_reservations (tb_inventory w))" "reserved_as x r"
    using assms(1) unfolding linked_def by blast
  moreover from this g assms(1) have "granted (or_order_no r) = Some (user_item x)" by (auto simp: linked_def reserved_as_def)
  moreover from this g have "rw_seckill_item_id x = item" by (simp add: user_item_def)
  ultimately show ?thesis using that by (simp add: reserved_def)
qed

lemma linked_within_stock:
  assumes ok: "linked granted w" and i: "i \<in> set (inv_items (tb_inventory w))"
  shows "int (length (granted_orders granted (it_ID i) w)) \<le> it_InitialStock i"
proof -
  let ?os = "granted_orders granted (it_ID i) w" and ?xs = "reserved (it_ID i) (tb_inventory w)"
  have "distinct (map or_order_no ?os)"
    using ok by (auto simp: linked_def orders_ok_def tables_ok_def granted_orders_def distinct_map inj_on_def)
  then have "length ?os = card (or_order_no ` set ?os)" by (metis distinct_card length_map set_map)
  also have "\<dots> \<le> card (rw_order_no ` set ?xs)"
  proof (rule card_mono)
    show "or_order_no ` set ?os \<subseteq> rw_order_no ` set ?xs"
    proof
      fix no assume "no \<in> or_order_no ` set ?os"
      then obtain r where "r \<in> set ?os" "no = or_order_no r" by blast
      with granted_orders_reserved [OF ok this(1)] show "no \<in> rw_order_no ` set ?xs" by (metis image_eqI reserved_as_def)
    qed
  qed simp
  also have "\<dots> \<le> length ?xs" using card_image_le [of "set ?xs" rw_order_no] card_length [of ?xs] by simp
  finally show ?thesis using ok i by (auto simp: linked_def inventory_ok_def)
qed

lemma linked_one_order:
  assumes ok: "linked granted w" and gate: "gate_ok granted"
    and r: "r \<in> set (granted_orders granted item w)" "r' \<in> set (granted_orders granted item w)" "or_user_id r = or_user_id r'"
  shows "r = r'"
proof -
  obtain x where x: "x \<in> set (reserved item (tb_inventory w))" "reserved_as x r" "granted (or_order_no r) = Some (user_item x)"
    by (rule granted_orders_reserved [OF ok r(1)])
  obtain y where y: "y \<in> set (reserved item (tb_inventory w))" "reserved_as y r'" "granted (or_order_no r') = Some (user_item y)"
    by (rule granted_orders_reserved [OF ok r(2)])
  have "\<exists>i \<in> set (inv_items (tb_inventory w)). it_ID i = item \<and> it_ActivityID i = rw_activity_id z"
    if "z \<in> set (reserved item (tb_inventory w))" for z
    using ok that by (auto simp: linked_def inventory_ok_def reserved_def)
  with x(1) y(1) obtain i j where "i \<in> set (inv_items (tb_inventory w))" "j \<in> set (inv_items (tb_inventory w))"
    "it_ID i = it_ID j" "it_ActivityID i = rw_activity_id x" "it_ActivityID j = rw_activity_id y" by metis
  then have "rw_activity_id x = rw_activity_id y"
    using ok by (metis distinct_map inj_onD inventory_ok_def linked_def)
  then have "user_item x = user_item y" using x y r(3) by (simp add: user_item_def reserved_as_def reserved_def)
  then have "or_order_no r = or_order_no r'"
    using x(3) y(3) gate inj_onD [of granted "dom granted" "or_order_no r" "or_order_no r'"] by (auto simp: gate_ok_def)
  with r ok show ?thesis
    by (auto simp: granted_orders_def linked_def orders_ok_def tables_ok_def distinct_map dest: inj_onD)
qed

text \<open>A session of the orchestrator: tasks one after the other, each with its environment.\<close>

type_synonym task = "orchestrator_env \<times> u64 \<times> u64 \<times> u64 \<times> string \<times> time"

definition run_tasks :: "(goerr \<Rightarrow> code) \<Rightarrow> bool \<Rightarrow> PolicyConfig \<Rightarrow> task list \<Rightarrow> orchestrator \<Rightarrow> orchestrator" where
  "run_tasks sc attach policy tasks s =
     foldl (\<lambda>s (E, user, act, item, no, t). snd (orchestrate sc attach policy E user act item no t s)) s tasks"

definition fair_task :: "(string \<Rightarrow> (u64 \<times> u64 \<times> u64) option) \<Rightarrow> task \<Rightarrow> bool" where
  "fair_task granted = (\<lambda>(E, user, act, item, no, t). granted no = Some (act, item, user) \<and>
     fair_rpc granted (oe_inventory E) \<and> fair_rpc granted (oe_orders E))"

lemma run_tasks_steps:
  assumes "gate_ok granted" and "0 < MaxAttempts policy"
  shows "linked granted (oc_tables s) \<Longrightarrow> \<forall>t \<in> set tasks. fair_task granted t \<Longrightarrow>
    linked granted (oc_tables (run_tasks sc attach policy tasks s)) \<and>
    grows (oc_tables s) (oc_tables (run_tasks sc attach policy tasks s))"
proof (induction tasks arbitrary: s)
  case (Cons t ts)
  obtain E user act item no t0 where t: "t = (E, user, act, item, no, t0)" by (metis prod_cases6)
  obtain res s1 where run: "orchestrate sc attach policy E user act item no t0 s = (res, s1)" by fastforce
  have "linked granted (oc_tables s1) \<and> grows (oc_tables s) (oc_tables s1)"
    by (rule task_steps(1) [OF assms(1) _ _ _ assms(2) run Cons.prems(1)]) (use Cons.prems(2) t in \<open>auto simp: fair_task_def\<close>)
  with Cons.IH [of s1] Cons.prems(2) show ?case by (auto simp: run_tasks_def t run intro: grows_trans)
qed (simp add: run_tasks_def)

text \<open>C4: the orders of a seckill stay within its stock. Whatever tasks the orchestrator works on, as often as it likes, with
  any failures of the network, the services and their databases and with other workers at the same databases,
  the granted orders of an item are at most as many as its initial stock, no user has two of them, and each has its reservation
  in the other database, of the same user at the same price.\<close>

theorem orders_within_stock:
  assumes "gate_ok granted" and "0 < MaxAttempts policy" and "linked granted (oc_tables s)"
    and "\<forall>t \<in> set tasks. fair_task granted t" and "w = oc_tables (run_tasks sc attach policy tasks s)"
  shows "(\<forall>i \<in> set (inv_items (tb_inventory w)). int (length (granted_orders granted (it_ID i) w)) \<le> it_InitialStock i) \<and>
    (\<forall>r \<in> set (granted_orders granted item w). \<forall>r' \<in> set (granted_orders granted item w).
      or_user_id r = or_user_id r' \<longrightarrow> r = r') \<and>
    (\<forall>r \<in> set (granted_orders granted item w). \<exists>x \<in> set (reserved item (tb_inventory w)). reserved_as x r)"
proof -
  have ok: "linked granted w" using run_tasks_steps [OF assms(1-4)] assms(5) by simp
  show ?thesis
  proof (intro conjI ballI impI)
    fix r assume r: "r \<in> set (granted_orders granted item w)"
    show "\<exists>x \<in> set (reserved item (tb_inventory w)). reserved_as x r"
      by (rule granted_orders_reserved [OF ok r]) (rule bexI)
    fix r' assume "r' \<in> set (granted_orders granted item w)" "or_user_id r = or_user_id r'"
    with r show "r = r'" by (rule linked_one_order [OF ok assms(1)])
  qed (rule linked_within_stock [OF ok])
qed

text \<open>A task that counts as processed has its rows. When the processor accepts a task, then after anything else the
  orchestrator and others do there is a reservation under the number of the task, for its activity, item and user, and an order
  under that number, of the user and at the price of the reservation.\<close>

theorem processed_task_is_ordered:
  assumes "gate_ok granted" and "0 < MaxAttempts policy" and "linked granted (oc_tables s)"
    and "fair_task granted (E, user, act, item, no, t)" and "\<forall>t \<in> set tasks. fair_task granted t"
    and "orchestrate sc attach policy E user act item no t s = (Inr x, s')"
    and "w = oc_tables (run_tasks sc attach policy tasks s')"
  shows "\<exists>row \<in> set (inv_reservations (tb_inventory w)). \<exists>r \<in> set (od_orders (tb_orders w)).
    rw_order_no row = no \<and> user_item row = (act, item, user) \<and> reserved_as row r"
proof -
  have fair: "granted no = Some (act, item, user)" "fair_rpc granted (oe_inventory E)" "fair_rpc granted (oe_orders E)"
    using assms(4) by (auto simp: fair_task_def)
  note steps = task_steps [OF assms(1) fair assms(2) assms(6) assms(3)]
  have "grows (oc_tables s') w" using run_tasks_steps [OF assms(1,2) _ assms(5)] steps(1) assms(7) by simp
  moreover obtain row r where "row \<in> set (inv_reservations (tb_inventory (oc_tables s')))"
    "r \<in> set (od_orders (tb_orders (oc_tables s')))" "rw_order_no row = no" "user_item row = (act, item, user)" "reserved_as row r"
    using steps(2) [OF refl] by blast
  ultimately show ?thesis by (intro bexI [of _ row] bexI [of _ r]) (auto simp: grows_def)
qed

section \<open>From the stream to the order\<close>

text \<open>
  The orchestrator as the processor of the stream consumer; \<open>Es k\<close> is what the \<open>k\<close>-th task meets. A message is
  ordered when the tables hold the reservation and the order of its task.
\<close>

definition stream_processor :: "(goerr \<Rightarrow> code) \<Rightarrow> bool \<Rightarrow> PolicyConfig \<Rightarrow> (nat \<Rightarrow> orchestrator_env) \<Rightarrow> (nat \<times> orchestrator) processor" where
  "stream_processor sc attach policy Es user act item no t w =
     (case orchestrate sc attach policy (Es (fst w)) user act item no t (snd w) of (res, s) \<Rightarrow> (res, fst w + 1, s))"

definition ordered :: "tables \<Rightarrow> u64 \<Rightarrow> string \<times> fields \<Rightarrow> bool" where
  "ordered w item m \<longleftrightarrow> (case decodeTask item (xmessage m) of
       (task, Some e) \<Rightarrow> False
     | (task, None) \<Rightarrow> \<exists>row \<in> set (inv_reservations (tb_inventory w)). \<exists>r \<in> set (od_orders (tb_orders w)).
         rw_order_no row = t_OrderNo task \<and> user_item row = (t_ActivityID task, t_ItemID task, t_UserID task) \<and> reserved_as row r)"

text \<open>The messages of the item carry what the gate granted.\<close>

definition granted_messages :: "(string \<Rightarrow> (u64 \<times> u64 \<times> u64) option) \<Rightarrow> (string \<Rightarrow> fields) \<Rightarrow> u64 \<Rightarrow> bool" where
  "granted_messages granted F item \<longleftrightarrow> (\<forall>i task. decodeTask item (xmessage (i, F i)) = (task, None) \<longrightarrow>
     granted (t_OrderNo task) = Some (t_ActivityID task, t_ItemID task, t_UserID task))"

lemma orchestrator_works:
  assumes "gate_ok granted" and "0 < MaxAttempts policy" and "granted_messages granted F item"
    and "\<And>k. fair_rpc granted (oe_inventory (Es k)) \<and> fair_rpc granted (oe_orders (Es k))"
  shows "stream_work (stream_processor sc attach policy Es) item F (ordered (oc_tables (snd final)) item)
    (\<lambda>w. linked granted (oc_tables (snd w))) (\<lambda>w w'. grows (oc_tables (snd w)) (oc_tables (snd w'))) final"
proof (unfold_locales, goal_cases)
  case (3 w i task res w')
  obtain s' where run: "orchestrate sc attach policy (Es (fst w)) (t_UserID task) (t_ActivityID task) (t_ItemID task) (t_OrderNo task)
      (t_ReservedAt task) (snd w) = (res, s')" and w': "w' = (fst w + 1, s')"
    using 3(3) by (auto simp: stream_processor_def split: prod.splits)
  have "granted (t_OrderNo task) = Some (t_ActivityID task, t_ItemID task, t_UserID task)"
    using assms(3) 3(2) by (auto simp: granted_messages_def)
  note steps = task_steps [OF assms(1) this assms(4) [THEN conjunct1] assms(4) [THEN conjunct2] assms(2) run 3(1)]
  have "ordered (oc_tables (snd final)) item (i, F i)" if "res = Inr x" "grows (oc_tables s') (oc_tables (snd final))" for x
    using steps(2) [OF that(1)] that(2) unfolding ordered_def 3(2) grows_def by auto
  with steps(1) w' show ?case by auto
qed (auto intro: grows_trans)

text \<open>C5: what the gate admitted becomes an order. Through any number of rounds of the stream consumer, whatever fails in Redis, in the
  network, in the services and in their databases, and with other workers that keep to the same rules, every message of
  an item's stream is afterwards still in the stream, or in the dead-letter stream for the operator, or the databases
  hold the reservation and the order of its task, of the right user and at the price of the reservation.\<close>

theorem admitted_becomes_order:
  assumes "gate_ok granted" and "0 < MaxAttempts policy" and "granted_messages granted F item" and "config_ok cfg"
    and "\<And>k. fair_rpc granted (oe_inventory (Es k)) \<and> fair_rpc granted (oe_orders (Es k))"
    and "s' = consumeItem L es cfg (stream_processor sc attach policy Es) item s" and "w = oc_tables (snd (rt_world s'))"
    and "\<forall>e \<in> set es. round_rely (ordered w item) F item e" and "ids_ok F item (rt_redis s)"
    and "linked granted (oc_tables (snd (rt_world s)))" and "m \<in> set (stream_entries (rt_redis s) (StreamKey item))"
  shows "m \<in> set (stream_entries (rt_redis s') (StreamKey item)) \<or> dead_lettered item (rt_redis s') (fst m) \<or> ordered w item m"
  using stream_work.consumeItem_accounts(2) [OF orchestrator_works [where sc = sc and attach = attach and final = "rt_world s'", OF assms(1-3,5)] assms(4)
      assms(8) [unfolded assms(7)] assms(9,10,6,11)] assms(7)
  by (simp add: accounted_def)

section \<open>An example\<close>

definition demo_rpc :: "outcome \<Rightarrow> 'd rpc_env" where
  "demo_rpc first = \<lparr>rp_policy = (\<lambda>_. \<lparr>ae_ctx = None, ae_allow_at = 0, ae_record_at = 0, ae_wait = None\<rparr>),
     rp_net = (\<lambda>k. \<lparr>interference = id, outcome_of = (if k = 0 then first else Done)\<rparr>), rp_server = (\<lambda>_. quiet),
     rp_now = (\<lambda>_. 1600000000000000000)\<rparr>"

definition demo_granted :: "string \<Rightarrow> (u64 \<times> u64 \<times> u64) option" where
  "demo_granted = [''T1-42-0102030405060708'' \<mapsto> (7, 1, 5)]"

definition demo_policy :: PolicyConfig where
  "demo_policy = \<lparr>MaxAttempts = 3, BackoffBase = 10000000, BackoffMax = 80000000, JitterRatio = 0, BreakerFailures = 5,
     BreakerOpenPeriod = 1000000000\<rparr>"

definition demo_start :: orchestrator where
  "demo_start = \<lparr>oc_inventoryBreaker = closed_breaker, oc_orderBreaker = closed_breaker,
     oc_tables = \<lparr>tb_inventory = demo_inventory, tb_orders = demo_orders\<rparr>\<rparr>"

definition demo_task :: "outcome \<Rightarrow> task" where
  "demo_task first = (\<lparr>oe_inventory = demo_rpc first, oe_orders = demo_rpc first\<rparr>, 5, 7, 1, ''T1-42-0102030405060708'', 1500000000)"

lemma demo_gate: "gate_ok demo_granted"
  by (auto simp: gate_ok_def demo_granted_def byte_def)

lemma demo_linked: "linked demo_granted (oc_tables demo_start)"
  using demo_inventory_ok demo_orders_ok by (simp add: linked_def demo_start_def demo_inventory_def demo_orders_def)

lemma demo_fair_rpc: "fair_rpc granted (demo_rpc first)"
  using reflpD [OF advances_order(1), of granted "{}"] by (simp add: fair_rpc_def demo_rpc_def)

lemma demo_fair_task: "fair_task demo_granted (demo_task first)"
  by (simp add: fair_task_def demo_task_def demo_granted_def demo_fair_rpc)

theorem orders_within_stock_witness:
  "let w = oc_tables (run_tasks demo_status_code True demo_policy
       [demo_task (Lost_after (Status Unavailable ''connection lost'' None)), demo_task Done] demo_start)
   in (\<forall>i \<in> set (inv_items (tb_inventory w)). int (length (granted_orders demo_granted (it_ID i) w)) \<le> it_InitialStock i)"
proof -
  let ?tasks = "[demo_task (Lost_after (Status Unavailable ''connection lost'' None)), demo_task Done]"
  have "\<forall>t \<in> set ?tasks. fair_task demo_granted t" by (simp add: demo_fair_task)
  from orders_within_stock [OF demo_gate _ demo_linked this refl, of demo_policy demo_status_code True 1]
  show ?thesis by (simp add: demo_policy_def Let_def)
qed

text \<open>The clean task: the reservation, and the order for what it froze.\<close>

lemma Do_first:
  assumes "0 < MaxAttempts policy" and "call (net 0) (handle 0) w = (Inr x, w')" and "ae_ctx (env 0) = None"
  shows "Do sc policy env True (attempt_rpc net handle) (closed_breaker, 0, None, w) = (None, closed_breaker, 1, Some x, w')"
proof -
  obtain n where "nat (MaxAttempts policy) = Suc n" using assms(1) by (cases "nat (MaxAttempts policy)") auto
  then show ?thesis
    using assms by (simp add: Do_def attempt_rpc_def allow_def closed_breaker_def IsZero_def Classify_def record_call_def retryableClass_def)
qed

lemma demo_net: "call (rp_net (demo_rpc Done) 0) f w = f w" "ae_ctx (rp_policy (demo_rpc Done) 0) = None"
    "rp_server (demo_rpc Done) k = quiet" "rp_now (demo_rpc Done) k = 1600000000000000000" "0 < MaxAttempts demo_policy"
  by (simp_all add: demo_rpc_def call_def demo_policy_def)

lemma demo_inventory_adapter:
  "\<exists>x s. inventoryRPCAdapter demo_status_code True demo_policy (demo_rpc Done) 5 7 1 ''T1-42-0102030405060708'' 1500000000 demo_start = (Inr x, s) \<and>
     frozen_line (rr_Snapshot x) = demo_line \<and> oc_orderBreaker s = closed_breaker \<and> tb_orders (oc_tables s) = demo_orders"
proof -
  let ?no = "''T1-42-0102030405060708''"
  obtain x d where tx: "reserve_tx 1600000000000000000 (demo_input ?no 5) demo_inventory = (Inr x, d)" by (metis demo_reserve)
  then have x: "ir_Snapshot x = demo_snapshot"
    by (auto simp: reserve_tx_def demo_input_def demo_inventory_def decrement_stock_def takes_unit_def
        insert_reservation_def Let_def demo_snapshot_def)
  have "ReserveSeckillStock quiet 1600000000000000000 (demo_input ?no 5) demo_inventory = (Inr x, d)"
    using tx lookup_none_new [OF tx] by (simp add: ReserveSeckillStock_quiet [OF demo_inventory_ok] demo_input_def)
  then have r: "InventoryService_Reserve quiet 1600000000000000000 \<lparr>iri_OrderNo = ?no, iri_ActivityID = 7, iri_ItemID = 1,
      iri_UserID = 5, iri_ReservedAt = time_UnixMilli (UnixMilli 1500000000)\<rparr> demo_inventory = (Inr x, d)"
    by (simp add: InventoryService_Reserve_def demo_input_def Let_def byte_def IsZero_def zero_time_def time_UnixMilli_def UnixMilli_def Truncate_def)
  show ?thesis
    using r x
    by (simp add: inventoryRPCAdapter_def Let_def demo_start_def demo_net Do_first on_inventory_db_def Server_ReserveSeckillStock_def
        frozen_line_def demo_snapshot_def demo_line_def)
qed

theorem processed_task_is_ordered_witness:
  "\<exists>x s. orchestrate demo_status_code True demo_policy \<lparr>oe_inventory = demo_rpc Done, oe_orders = demo_rpc Done\<rparr>
       5 7 1 ''T1-42-0102030405060708'' 1500000000 demo_start = (Inr x, s) \<and>
     (\<exists>r \<in> set (od_orders (tb_orders (oc_tables (run_tasks demo_status_code True demo_policy [demo_task Done] s)))).
        or_order_no r = ''T1-42-0102030405060708'' \<and> or_user_id r = 5)"
proof -
  let ?no = "''T1-42-0102030405060708''" and ?E = "\<lparr>oe_inventory = demo_rpc Done, oe_orders = demo_rpc Done\<rparr>"
  obtain x s where i: "inventoryRPCAdapter demo_status_code True demo_policy (demo_rpc Done) 5 7 1 ?no 1500000000 demo_start = (Inr x, s)"
    "frozen_line (rr_Snapshot x) = demo_line" "oc_orderBreaker s = closed_breaker" "tb_orders (oc_tables s) = demo_orders"
    using demo_inventory_adapter by blast
  have "datetime_ok (Truncate 1600000000000000000 microsecond)" "0 < UnixMilli 1600000000000000000"
    by (simp_all add: datetime_ok_def Truncate_def zero_time_def UnixMilli_def)
  from demo_create [OF this] obtain y d where
    "CreateIdempotent quiet 1600000000000000000 5 ?no [demo_line] demo_orders = (Inr y, d)" by blast
  then have "\<exists>z s'. orderRPCAdapter demo_status_code True demo_policy (demo_rpc Done) 5 7 1 ?no 1500000000 (rr_Snapshot x) s = (Inr z, s')"
    using i(2-4)
    by (simp add: orderRPCAdapter_def Let_def demo_net Do_first on_order_db_def CreateSeckillOrder_def CreateSeckill_def demo_line_def
        UnixMilli_def zero_time_def byte_def)
  then obtain z s' where o2: "orderRPCAdapter demo_status_code True demo_policy (demo_rpc Done) 5 7 1 ?no 1500000000 (rr_Snapshot x) s = (Inr z, s')"
    by blast
  have run: "orchestrate demo_status_code True demo_policy ?E 5 7 1 ?no 1500000000 demo_start =
      (Inr \<lparr>pu_Order = no_order, pu_Replayed = rr_Replayed x\<rparr>, s')"
    using i(1) o2 by (simp add: orchestrate_def ProcessStreamTask_def IsZero_def zero_time_def)
  have "fair_task demo_granted (?E, 5, 7, 1, ?no, 1500000000)" "\<forall>t \<in> set [demo_task Done]. fair_task demo_granted t"
    using demo_fair_task [of Done] by (simp_all add: demo_task_def)
  from processed_task_is_ordered [OF demo_gate demo_net(5) demo_linked this run refl] run
  show ?thesis by (fastforce simp: reserved_as_def user_item_def)
qed

text \<open>The stream with this task, and one round of the consumer over a network that loses the first answers.\<close>

definition demo_order_message :: fields where
  "demo_order_message = order_requested_fields ''T1-42-0102030405060708'' (FormatUint 5) (FormatUint 7) (FormatUint 1) (FormatInt 1500)"

definition demo_runtime :: "(nat \<times> orchestrator) runtime" where
  "demo_runtime = \<lparr>rt_redis = XADD empty_redis (StreamKey 1) demo_order_message, rt_world = (0, demo_start), rt_active = 0, rt_peak = 0\<rparr>"

lemma demo_order_message_decode:
  "decodeTask 1 (xmessage (show_id (0, k), demo_order_message)) = (\<lparr>t_MessageID = show_id (0, k), t_OrderNo = ''T1-42-0102030405060708'',
     t_UserID = 5, t_ActivityID = 7, t_ItemID = 1, t_ReservedAt = time_UnixMilli 1500\<rparr>, None)"
  unfolding demo_order_message_def
  by (subst decodeTask_requested) (simp_all add: show_id_def in_i64_def max_i64_def byte_def)

lemma demo_granted_messages: "granted_messages demo_granted (\<lambda>_. demo_order_message) 1"
proof -
  have "decodeTask 1 (xmessage (i, demo_order_message)) = (task, None) \<Longrightarrow>
      t_OrderNo task = ''T1-42-0102030405060708'' \<and> t_UserID task = 5 \<and> t_ActivityID task = 7 \<and> t_ItemID task = 1" for i task
    using decodeTask_requested [of i "''T1-42-0102030405060708''" 5 7 1 1500]
    by (cases "i = []") (auto simp: demo_order_message_def in_i64_def max_i64_def byte_def decodeTask_def xmessage_def Let_def no_task_def
        split: prod.splits if_splits)
  then show ?thesis by (auto simp: granted_messages_def demo_granted_def)
qed

theorem admitted_becomes_order_witness:
  "let Es = (\<lambda>k. fst (demo_task (Lost_after (Status Unavailable ''connection lost'' None))));
     s' = consumeItem demo_lib [\<lparr>re_call = quiet, re_alive = (\<lambda>_. True), re_wait = True,
         re_batch = \<lparr>be_call = lost_reply, be_now = (\<lambda>_. 0), be_slot = (\<lambda>_. True)\<rparr>\<rparr>] demo_config
       (stream_processor demo_status_code True demo_policy Es) 1 demo_runtime
   in (show_id (0, 1), demo_order_message) \<in> set (stream_entries (rt_redis s') (StreamKey 1)) \<or>
     dead_lettered 1 (rt_redis s') (show_id (0, 1)) \<or> ordered (oc_tables (snd (rt_world s'))) 1 (show_id (0, 1), demo_order_message)"
proof -
  let ?Es = "\<lambda>k :: nat. fst (demo_task (Lost_after (Status Unavailable ''connection lost'' None)))"
  let ?es = "[\<lparr>re_call = quiet, re_alive = (\<lambda>_. True), re_wait = True,
         re_batch = \<lparr>be_call = lost_reply, be_now = (\<lambda>_. 0), be_slot = (\<lambda>_. True)\<rparr>\<rparr>]"
  have fair: "fair_rpc demo_granted (oe_inventory (?Es k)) \<and> fair_rpc demo_granted (oe_orders (?Es k))" for k
    by (simp add: demo_task_def demo_fair_rpc)
  have entries: "stream_entries (rt_redis demo_runtime) (StreamKey 1) = [(show_id (0, 1), demo_order_message)]"
    by (simp add: demo_runtime_def stream_entries_XADD next_id_def empty_stream_def)
  have "counter_ok 1 (rt_redis demo_runtime) i" for i by (simp add: counter_ok_def demo_runtime_def)
  then have ids: "ids_ok (\<lambda>_. demo_order_message) 1 (rt_redis demo_runtime)" by (simp add: ids_ok_def entries)
  have rely: "\<forall>e \<in> set ?es. round_rely a (\<lambda>_. demo_order_message) 1 e" for a by (simp add: round_rely_def quiet_def lost_reply_def)
  have linked: "linked demo_granted (oc_tables (snd (rt_world demo_runtime)))" using demo_linked by (simp add: demo_runtime_def)
  show ?thesis
    using admitted_becomes_order [OF demo_gate demo_net(5) demo_granted_messages demo_config_ok fair refl refl rely ids linked,
        of "(show_id (0, 1), demo_order_message)"] entries
    by (simp add: Let_def)
qed

end
