(* ===== verification/Catalog.thy ===== *)
theory Catalog
  imports Inventory
begin

text \<open>
  The product catalogue: the tables \<open>products\<close> and \<open>product_skus\<close> (\<open>migrations/000004\<close>), the repository
  (\<open>internal/product/mysqlrepo\<close>), the service (\<open>product.go\<close>), the RPC server (\<open>rpcserver\<close>), and the adapter
  through which the inventory service freezes the snapshot of a SKU (\<open>inventoryrpc/product.go\<close>).
\<close>

section \<open>Data and tables\<close>

abbreviation StatusActive :: nat where "StatusActive \<equiv> 1"
abbreviation StatusInactive :: nat where "StatusInactive \<equiv> 2"

record SKU =
  sk_ID :: u64
  sk_Code :: string
  sk_Name :: string
  sk_PriceCent :: int
  sk_Status :: nat

record Product =
  p_ID :: u64
  p_Name :: string
  p_Description :: string
  p_Status :: nat
  p_SKUs :: "SKU list"
  p_CreatedAt :: time

record SKUSnapshot =
  ss_SKUID :: u64
  ss_ProductID :: u64
  ss_ProductName :: string
  ss_SKUCode :: string
  ss_SKUName :: string
  ss_PriceCent :: int
  ss_ProductStatus :: nat
  ss_SKUStatus :: nat

record CreateInput =
  cp_Name :: string
  cp_Description :: string
  cp_SKUs :: "SKU list"

record ProductPage =
  pp_Items :: "Product list"
  pp_Page :: int
  pp_PageSize :: int
  pp_Total :: int

text \<open>A row of \<open>products\<close> is a \<open>Product\<close> without SKUs; a row of \<open>product_skus\<close> is a \<open>SKU\<close> with its product.\<close>

record catalog =
  ct_products :: "Product list"
  ct_skus :: "(u64 \<times> SKU) list"

section \<open>The repository\<close>

definition mapProductConflict :: "string \<Rightarrow> goerr \<Rightarrow> goerr" where
  "mapProductConflict operation err = (if isDuplicateKey err then Sentinel ErrProductConflict else Wrapf operation err)"

definition insert_product :: "Product \<Rightarrow> catalog \<Rightarrow> u64 result \<times> catalog" where
  "insert_product row d =
     (if table_full (ct_products d) then (Inl (MySQLError ER_AUTOINC_READ_FAILED), d)
      else (let i = of_nat (length (ct_products d) + 1) in
        (Inr i, d\<lparr>ct_products := ct_products d @ [row\<lparr>p_ID := i\<rparr>]\<rparr>)))"

definition insert_sku :: "u64 \<Rightarrow> SKU \<Rightarrow> catalog \<Rightarrow> u64 result \<times> catalog" where
  "insert_sku productID row d =
     (if \<exists>(p, s) \<in> set (ct_skus d). sk_Code s = sk_Code row then (Inl (MySQLError ER_DUP_ENTRY), d)
      else if sk_PriceCent row < 0 then (Inl (MySQLError ER_CHECK_CONSTRAINT_VIOLATED), d)
      else if table_full (ct_skus d) then (Inl (MySQLError ER_AUTOINC_READ_FAILED), d)
      else (let i = of_nat (length (ct_skus d) + 1) in
        (Inr i, d\<lparr>ct_skus := ct_skus d @ [(productID, row\<lparr>sk_ID := i\<rparr>)]\<rparr>)))"

fun insert_skus :: "u64 \<Rightarrow> SKU list \<Rightarrow> catalog \<Rightarrow> SKU list result \<times> catalog" where
  "insert_skus productID [] d = (Inr [], d)"
| "insert_skus productID (sku # skus) d =
     (case insert_sku productID (sku\<lparr>sk_Status := StatusActive\<rparr>) d of
        (Inl err, d') \<Rightarrow> (Inl (mapProductConflict ''insert product SKU'' err), d')
      | (Inr skuID, d') \<Rightarrow>
          (case insert_skus productID skus d' of
             (Inl err, d'') \<Rightarrow> (Inl err, d'')
           | (Inr created, d'') \<Rightarrow> (Inr (sku\<lparr>sk_ID := skuID\<rparr> # created), d'')))"

text \<open>The creation time of a row is the clock of the server, \<open>dbnow\<close>.\<close>

definition product_tx :: "time \<Rightarrow> CreateInput \<Rightarrow> catalog \<Rightarrow> (u64 \<times> SKU list) result \<times> catalog" where
  "product_tx dbnow input d =
     (case insert_product \<lparr>p_ID = 0, p_Name = cp_Name input, p_Description = cp_Description input, p_Status = StatusInactive,
          p_SKUs = [], p_CreatedAt = Truncate dbnow microsecond\<rparr> d of
        (Inl err, d') \<Rightarrow> (Inl (mapProductConflict ''insert product'' err), d')
      | (Inr productID, d') \<Rightarrow>
          (case insert_skus productID (cp_SKUs input) d' of
             (Inl err, d'') \<Rightarrow> (Inl err, d'')
           | (Inr created, d'') \<Rightarrow> (Inr (productID, created), d'')))"

definition Product_Repository_Create ::
  "catalog step_env \<Rightarrow> time \<Rightarrow> time \<Rightarrow> CreateInput \<Rightarrow> catalog \<Rightarrow> Product result \<times> catalog" where
  "Product_Repository_Create c dbnow now input d = (case atomically c (product_tx dbnow input) d of
       (Inl err, d') \<Rightarrow> (Inl err, d')
     | (Inr (productID, created), d') \<Rightarrow>
         (Inr \<lparr>p_ID = productID, p_Name = cp_Name input, p_Description = cp_Description input, p_Status = StatusInactive,
            p_SKUs = created, p_CreatedAt = now\<rparr>, d'))"

text \<open>An \<open>UPDATE\<close> of the products with an identifier, and the number of rows it changed.\<close>

definition update_stmt :: "u64 \<Rightarrow> (Product \<Rightarrow> Product) \<Rightarrow> catalog \<Rightarrow> nat result \<times> catalog" where
  "update_stmt productID f d =
     (Inr (length (filter (\<lambda>p. p_ID p = productID \<and> f p \<noteq> p) (ct_products d))),
      d\<lparr>ct_products := map (\<lambda>p. if p_ID p = productID then f p else p) (ct_products d)\<rparr>)"

definition updated :: "string \<Rightarrow> nat result \<times> catalog \<Rightarrow> unit result \<times> catalog" where
  "updated text r = (case r of
       (Inl err, d) \<Rightarrow> (Inl (Wrapf text err), d)
     | (Inr n, d) \<Rightarrow> if n = 0 then (fail ErrProductNotFound, d) else (Inr (), d))"

definition Product_Repository_Update ::
  "catalog step_env \<Rightarrow> u64 \<Rightarrow> string \<Rightarrow> string \<Rightarrow> catalog \<Rightarrow> unit result \<times> catalog" where
  "Product_Repository_Update c productID name description d =
     updated ''update product'' (atomically c (update_stmt productID (\<lambda>p. p\<lparr>p_Name := name, p_Description := description\<rparr>)) d)"

definition Product_Repository_SetStatus ::
  "catalog step_env \<Rightarrow> u64 \<Rightarrow> nat \<Rightarrow> catalog \<Rightarrow> unit result \<times> catalog" where
  "Product_Repository_SetStatus c productID status d =
     updated ''set product status'' (atomically c (update_stmt productID (\<lambda>p. p\<lparr>p_Status := status\<rparr>)) d)"

definition active_products :: "catalog \<Rightarrow> Product list" where
  "active_products d = rev (sort_key p_ID (filter (\<lambda>p. p_Status p = StatusActive) (ct_products d)))"

definition ListActive ::
  "catalog env \<Rightarrow> int \<Rightarrow> int \<Rightarrow> catalog \<Rightarrow> (Product list \<times> int) result \<times> catalog" where
  "ListActive env offset limit d = (case read_db (env 0) (\<lambda>d. int (length (active_products d))) d of
       (Inl err, d1) \<Rightarrow> (Inl (Wrapf ''count active products'' err), d1)
     | (Inr n, d1) \<Rightarrow>
         if limit < 0 \<or> offset < 0 then (Inl (Wrapf ''list active products'' (MySQLError 1064)), d1)
         else (case read_db (env 1) (\<lambda>d. take (nat limit) (drop (nat offset) (active_products d))) d1 of
             (Inl err, d2) \<Rightarrow> (Inl (Wrapf ''list active products'' err), d2)
           | (Inr items, d2) \<Rightarrow> (Inr (items, n), d2)))"

definition active_skus :: "u64 \<Rightarrow> catalog \<Rightarrow> SKU list" where
  "active_skus productID d =
     sort_key sk_ID (map snd (filter (\<lambda>(p, s). p = productID \<and> sk_Status s = StatusActive) (ct_skus d)))"

definition FindActive :: "catalog env \<Rightarrow> u64 \<Rightarrow> catalog \<Rightarrow> Product result \<times> catalog" where
  "FindActive env productID d =
     (case read_db (env 0) (\<lambda>d. find (\<lambda>p. p_ID p = productID \<and> p_Status p = StatusActive) (ct_products d)) d of
        (Inl err, d1) \<Rightarrow> (Inl (Wrapf ''find active product'' err), d1)
      | (Inr None, d1) \<Rightarrow> (fail ErrProductNotFound, d1)
      | (Inr (Some item), d1) \<Rightarrow>
          (case read_db (env 1) (active_skus productID) d1 of
             (Inl err, d2) \<Rightarrow> (Inl (Wrapf ''find product SKUs'' err), d2)
           | (Inr skus, d2) \<Rightarrow> (Inr (item\<lparr>p_SKUs := skus\<rparr>), d2)))"

text \<open>The join of a SKU with its product.\<close>

definition sku_snapshot :: "u64 \<Rightarrow> catalog \<Rightarrow> SKUSnapshot option" where
  "sku_snapshot skuID d = (case find (\<lambda>(p, s). sk_ID s = skuID) (ct_skus d) of
       None \<Rightarrow> None
     | Some (productID, s) \<Rightarrow> map_option (\<lambda>p. \<lparr>ss_SKUID = sk_ID s, ss_ProductID = p_ID p, ss_ProductName = p_Name p,
           ss_SKUCode = sk_Code s, ss_SKUName = sk_Name s, ss_PriceCent = sk_PriceCent s, ss_ProductStatus = p_Status p,
           ss_SKUStatus = sk_Status s\<rparr>) (find (\<lambda>p. p_ID p = productID) (ct_products d)))"

definition active_snapshot :: "u64 \<Rightarrow> catalog \<Rightarrow> SKUSnapshot option" where
  "active_snapshot skuID d = (case sku_snapshot skuID d of
       Some s \<Rightarrow> if ss_SKUStatus s = StatusActive \<and> ss_ProductStatus s = StatusActive then Some s else None
     | None \<Rightarrow> None)"

definition FindActiveSKU :: "catalog step_env \<Rightarrow> u64 \<Rightarrow> catalog \<Rightarrow> SKUSnapshot result \<times> catalog" where
  "FindActiveSKU c skuID d = (case read_db c (active_snapshot skuID) d of
       (Inl err, d') \<Rightarrow> (Inl (Wrapf ''find active SKU snapshot'' err), d')
     | (Inr None, d') \<Rightarrow> (fail ErrSKUNotFound, d')
     | (Inr (Some s), d') \<Rightarrow> (Inr s, d'))"

section \<open>The service\<close>

fun normalize_skus :: "SKU list \<Rightarrow> string list \<Rightarrow> SKU list result" where
  "normalize_skus [] seen = Inr []"
| "normalize_skus (sku0 # skus) seen =
     (let sku = sku0\<lparr>sk_Code := TrimSpace (sk_Code sku0), sk_Name := TrimSpace (sk_Name sku0)\<rparr> in
      if sk_Code sku = [] \<or> sk_Name sku = [] \<or> sk_PriceCent sku < 0 then fail ErrInvalidProduct
      else if sk_Code sku \<in> set seen then fail ErrProductConflict
      else (case normalize_skus skus (sk_Code sku # seen) of
          Inl e \<Rightarrow> Inl e
        | Inr rest \<Rightarrow> Inr (sku\<lparr>sk_Status := StatusActive\<rparr> # rest)))"

definition Product_Create ::
  "catalog step_env \<Rightarrow> time \<Rightarrow> time \<Rightarrow> CreateInput \<Rightarrow> catalog \<Rightarrow> Product result \<times> catalog" where
  "Product_Create c dbnow now input d =
     (if TrimSpace (cp_Name input) = [] \<or> cp_SKUs input = [] then (fail ErrInvalidProduct, d)
      else (case normalize_skus (cp_SKUs input) [] of
          Inl e \<Rightarrow> (Inl e, d)
        | Inr skus \<Rightarrow> Product_Repository_Create c dbnow now
            \<lparr>cp_Name = TrimSpace (cp_Name input), cp_Description = TrimSpace (cp_Description input), cp_SKUs = skus\<rparr> d))"

definition Product_Update ::
  "catalog step_env \<Rightarrow> u64 \<Rightarrow> string \<Rightarrow> string \<Rightarrow> catalog \<Rightarrow> unit result \<times> catalog" where
  "Product_Update c productID name description d =
     (if productID = 0 \<or> TrimSpace name = [] then (fail ErrInvalidProduct, d)
      else Product_Repository_Update c productID (TrimSpace name) (TrimSpace description) d)"

definition Product_SetStatus :: "catalog step_env \<Rightarrow> u64 \<Rightarrow> nat \<Rightarrow> catalog \<Rightarrow> unit result \<times> catalog" where
  "Product_SetStatus c productID status d =
     (if productID = 0 \<or> (status \<noteq> StatusActive \<and> status \<noteq> StatusInactive) then (fail ErrInvalidProduct, d)
      else Product_Repository_SetStatus c productID status d)"

definition ListPublic :: "catalog env \<Rightarrow> int \<Rightarrow> int \<Rightarrow> catalog \<Rightarrow> ProductPage result \<times> catalog" where
  "ListPublic env page0 pageSize0 d =
     (let page = (if page0 \<le> 0 then 1 else page0);
          pageSize1 = (if pageSize0 \<le> 0 then 20 else pageSize0);
          pageSize = (if 100 < pageSize1 then 100 else pageSize1)
      in case ListActive env (wrap_i64 (wrap_i64 (page - 1) * pageSize)) pageSize d of
           (Inl err, d') \<Rightarrow> (Inl err, d')
         | (Inr (items, n), d') \<Rightarrow> (Inr \<lparr>pp_Items = items, pp_Page = page, pp_PageSize = pageSize, pp_Total = n\<rparr>, d'))"

definition GetPublic :: "catalog env \<Rightarrow> u64 \<Rightarrow> catalog \<Rightarrow> Product result \<times> catalog" where
  "GetPublic env productID d = (if productID = 0 then (fail ErrProductNotFound, d) else FindActive env productID d)"

definition GetActiveSKUSnapshot :: "catalog step_env \<Rightarrow> u64 \<Rightarrow> catalog \<Rightarrow> SKUSnapshot result \<times> catalog" where
  "GetActiveSKUSnapshot c skuID d = (if skuID = 0 then (fail ErrSKUNotFound, d) else FindActiveSKU c skuID d)"

section \<open>The RPC server\<close>

datatype ProductStatus = PRODUCT_STATUS_UNSPECIFIED | PRODUCT_STATUS_ENABLED | PRODUCT_STATUS_DISABLED | PRODUCT_STATUS_OTHER int

definition toProtoStatus :: "nat \<Rightarrow> ProductStatus" where
  "toProtoStatus s = (if s = StatusActive then PRODUCT_STATUS_ENABLED
     else if s = StatusInactive then PRODUCT_STATUS_DISABLED else PRODUCT_STATUS_UNSPECIFIED)"

definition fromProtoStatus :: "ProductStatus \<Rightarrow> nat" where
  "fromProtoStatus s = (case s of PRODUCT_STATUS_ENABLED \<Rightarrow> StatusActive | PRODUCT_STATUS_DISABLED \<Rightarrow> StatusInactive | _ \<Rightarrow> 0)"

record SkuSnapshot =
  px_SkuId :: u64
  px_ProductId :: u64
  px_ProductName :: string
  px_SkuCode :: string
  px_SkuName :: string
  px_UnitPriceCent :: int
  px_Status :: ProductStatus

record proto_product =
  py_Id :: u64
  py_Name :: string
  py_Description :: string
  py_Status :: ProductStatus
  py_Skus :: "SkuSnapshot list"
  py_CreatedAtMs :: int

definition toProtoProduct :: "Product \<Rightarrow> proto_product" where
  "toProtoProduct value = \<lparr>py_Id = p_ID value, py_Name = p_Name value, py_Description = p_Description value,
     py_Status = toProtoStatus (p_Status value),
     py_Skus = map (\<lambda>sku. \<lparr>px_SkuId = sk_ID sku, px_ProductId = p_ID value, px_ProductName = p_Name value,
       px_SkuCode = sk_Code sku, px_SkuName = sk_Name sku, px_UnitPriceCent = sk_PriceCent sku,
       px_Status = toProtoStatus (sk_Status sku)\<rparr>) (p_SKUs value),
     py_CreatedAtMs = UnixMilli (p_CreatedAt value)\<rparr>"

definition mapProductError :: "bool \<Rightarrow> goerr \<Rightarrow> goerr" where
  "mapProductError attach err = StatusError attach
     (if errors_Is err Context_Canceled
      then NewPublicError Canceled ERROR_CODE_TEMPORARILY_UNAVAILABLE ''request canceled'' True err
      else if errors_Is err Context_DeadlineExceeded
      then NewPublicError DeadlineExceeded ERROR_CODE_TEMPORARILY_UNAVAILABLE ''product service timeout'' True err
      else if errors_Is err ErrInvalidProduct
      then NewPublicError InvalidArgument ERROR_CODE_INVALID_ARGUMENT ''invalid product'' False err
      else if errors_Is err ErrProductNotFound \<or> errors_Is err ErrSKUNotFound
      then NewPublicError NotFound ERROR_CODE_NOT_FOUND ''product not found'' False err
      else if errors_Is err ErrProductConflict
      then NewPublicError AlreadyExists ERROR_CODE_CONFLICT ''product conflict'' False err
      else err)"

text \<open>The page of a request is two \<open>uint32\<close>, both 0 without one.\<close>

definition ListProducts ::
  "bool \<Rightarrow> catalog env \<Rightarrow> 32 word \<times> 32 word \<Rightarrow> catalog \<Rightarrow>
     (proto_product list \<times> u64 \<times> 32 word \<times> 32 word) result \<times> catalog" where
  "ListProducts attach env requestPage d =
     (case ListPublic env (uint (fst requestPage)) (uint (snd requestPage)) d of
        (Inl err, d') \<Rightarrow> (Inl (mapProductError attach err), d')
      | (Inr page, d') \<Rightarrow> (Inr (map toProtoProduct (pp_Items page), of_int (pp_Total page), of_int (pp_Page page),
          of_int (pp_PageSize page)), d'))"

definition GetProduct :: "bool \<Rightarrow> catalog env \<Rightarrow> u64 \<Rightarrow> catalog \<Rightarrow> proto_product result \<times> catalog" where
  "GetProduct attach env productID d = (case GetPublic env productID d of
       (Inl err, d') \<Rightarrow> (Inl (mapProductError attach err), d')
     | (Inr found, d') \<Rightarrow> (Inr (toProtoProduct found), d'))"

definition CreateProduct ::
  "bool \<Rightarrow> catalog step_env \<Rightarrow> time \<Rightarrow> time \<Rightarrow> string \<Rightarrow> string \<Rightarrow> (string \<times> string \<times> int) list \<Rightarrow> catalog \<Rightarrow>
     proto_product result \<times> catalog" where
  "CreateProduct attach c dbnow now name description skus d =
     (case Product_Create c dbnow now \<lparr>cp_Name = name, cp_Description = description,
          cp_SKUs = map (\<lambda>(code, name, price). \<lparr>sk_ID = 0, sk_Code = code, sk_Name = name, sk_PriceCent = price, sk_Status = 0\<rparr>) skus\<rparr> d of
        (Inl err, d') \<Rightarrow> (Inl (mapProductError attach err), d')
      | (Inr created, d') \<Rightarrow> (Inr (toProtoProduct created), d'))"

definition UpdateProduct ::
  "bool \<Rightarrow> catalog step_env \<Rightarrow> u64 \<Rightarrow> string \<Rightarrow> string \<Rightarrow> catalog \<Rightarrow> proto_product result \<times> catalog" where
  "UpdateProduct attach c productID name description d = (case Product_Update c productID name description d of
       (Inl err, d') \<Rightarrow> (Inl (mapProductError attach err), d')
     | (Inr _, d') \<Rightarrow> (Inr \<lparr>py_Id = productID, py_Name = name, py_Description = description,
         py_Status = PRODUCT_STATUS_UNSPECIFIED, py_Skus = [], py_CreatedAtMs = 0\<rparr>, d'))"

definition UpdateProductStatus ::
  "bool \<Rightarrow> catalog step_env \<Rightarrow> u64 \<Rightarrow> ProductStatus \<Rightarrow> catalog \<Rightarrow> unit result \<times> catalog" where
  "UpdateProductStatus attach c productID status d = (case Product_SetStatus c productID (fromProtoStatus status) d of
       (Inl err, d') \<Rightarrow> (Inl (mapProductError attach err), d')
     | (Inr _, d') \<Rightarrow> (Inr (), d'))"

definition GetSkuSnapshot :: "bool \<Rightarrow> catalog step_env \<Rightarrow> u64 \<Rightarrow> catalog \<Rightarrow> SkuSnapshot result \<times> catalog" where
  "GetSkuSnapshot attach c skuID d = (case GetActiveSKUSnapshot c skuID d of
       (Inl err, d') \<Rightarrow> (Inl (mapProductError attach err), d')
     | (Inr s, d') \<Rightarrow> (Inr \<lparr>px_SkuId = ss_SKUID s, px_ProductId = ss_ProductID s, px_ProductName = ss_ProductName s,
         px_SkuCode = ss_SKUCode s, px_SkuName = ss_SKUName s, px_UnitPriceCent = ss_PriceCent s,
         px_Status = toProtoStatus (ss_SKUStatus s)\<rparr>, d'))"

text \<open>The adapter of the inventory service; \<open>client\<close> is the RPC client for \<open>GetSkuSnapshot\<close>.\<close>

definition ProductSnapshotAdapter :: "(u64 \<Rightarrow> SkuSnapshot result) \<Rightarrow> u64 \<Rightarrow> FrozenSKUSnapshot result" where
  "ProductSnapshotAdapter client skuID = (case client skuID of
       Inl err \<Rightarrow> Inl err
     | Inr snapshot \<Rightarrow>
         if px_Status snapshot \<noteq> PRODUCT_STATUS_ENABLED then Inl (Plain ''product SKU is not active'')
         else Inr \<lparr>fs_SKUID = px_SkuId snapshot, fs_ProductName = px_ProductName snapshot, fs_SKUCode = px_SkuCode snapshot,
           fs_SKUName = px_SkuName snapshot, fs_UnitPriceCent = px_UnitPriceCent snapshot\<rparr>)"

section \<open>Invariant\<close>

text \<open>Rows are numbered, the codes of SKUs are unique, every SKU has its product, and no price is negative.\<close>

definition catalog_ok :: "catalog \<Rightarrow> bool" where
  "catalog_ok d \<longleftrightarrow> numbered (map p_ID (ct_products d)) \<and> length (ct_products d) < 2 ^ 64 \<and>
     numbered (map (sk_ID \<circ> snd) (ct_skus d)) \<and> length (ct_skus d) < 2 ^ 64 \<and>
     distinct (map (sk_Code \<circ> snd) (ct_skus d)) \<and>
     (\<forall>r \<in> set (ct_skus d). fst r \<in> p_ID ` set (ct_products d) \<and> 0 \<le> sk_PriceCent (snd r))"

lemma find_distinct: "distinct (map f xs) \<Longrightarrow> x \<in> set xs \<Longrightarrow> P x \<Longrightarrow> find (\<lambda>y. f y = f x \<and> P y) xs = Some x"
  by (induction xs) (auto simp: image_iff)

lemma numbered_mem_nonzero:
  assumes "numbered ids" and "length ids < 2 ^ 64" and "x \<in> set ids"
  shows "x \<noteq> 0"
proof -
  have "unat x \<in> set (map unat ids)" using assms(3) by simp
  then show ?thesis unfolding numbered_unat [OF assms(1,2)] by auto
qed

lemma insert_sku_ok:
  assumes "catalog_ok d" and "productID \<in> p_ID ` set (ct_products d)" and "insert_sku productID row d = (Inr i, d')"
  shows "catalog_ok d'" and "ct_products d' = ct_products d" and "ct_skus d' = ct_skus d @ [(productID, row\<lparr>sk_ID := i\<rparr>)]"
proof -
  from assms(3) have i: "i = of_nat (length (ct_skus d) + 1)" "d' = d\<lparr>ct_skus := ct_skus d @ [(productID, row\<lparr>sk_ID := i\<rparr>)]\<rparr>"
    "\<forall>r \<in> set (ct_skus d). sk_Code (snd r) \<noteq> sk_Code row" "0 \<le> sk_PriceCent row" "length (ct_skus d) + 1 < 2 ^ 64"
    by (auto simp: insert_sku_def table_full_def Let_def split: if_splits)
  show "ct_products d' = ct_products d" "ct_skus d' = ct_skus d @ [(productID, row\<lparr>sk_ID := i\<rparr>)]" by (simp_all add: i(2))
  have "numbered (map (sk_ID \<circ> snd) (ct_skus d'))"
    using assms(1) numbered_snoc [of "map (sk_ID \<circ> snd) (ct_skus d)"] by (simp add: i(1,2) catalog_ok_def)
  moreover have "distinct (map (sk_Code \<circ> snd) (ct_skus d'))" using assms(1) i(3) by (auto simp: i(2) catalog_ok_def)
  ultimately show "catalog_ok d'" using assms(1,2) i(4,5) by (auto simp: catalog_ok_def i(2))
qed

lemma insert_skus_ok:
  assumes "catalog_ok d" and "productID \<in> p_ID ` set (ct_products d)" and "insert_skus productID skus d = (Inr created, d')"
  shows "catalog_ok d' \<and> ct_products d' = ct_products d \<and>
    ct_skus d' = ct_skus d @ map (\<lambda>s. (productID, s\<lparr>sk_Status := StatusActive\<rparr>)) created \<and>
    list_all2 (\<lambda>s t. s = t\<lparr>sk_ID := sk_ID s\<rparr>) created skus"
  using assms
proof (induction skus arbitrary: d created)
  case (Cons sku skus)
  from Cons.prems(3) obtain i d1 rest where
    one: "insert_sku productID (sku\<lparr>sk_Status := StatusActive\<rparr>) d = (Inr i, d1)"
    and more: "insert_skus productID skus d1 = (Inr rest, d')" and created: "created = sku\<lparr>sk_ID := i\<rparr> # rest"
    by (auto split: prod.splits sum.splits)
  note o = insert_sku_ok [OF Cons.prems(1,2) one]
  from Cons.IH [OF o(1) _ more] Cons.prems(2) show ?case by (simp add: o created)
qed simp

lemma product_tx_ok:
  assumes ok: "catalog_ok d" and tx: "product_tx dbnow input d = (Inr (productID, created), d')"
  shows "catalog_ok d'" and "productID \<notin> p_ID ` set (ct_products d)" and "productID \<noteq> 0"
    and "ct_products d' = ct_products d @ [\<lparr>p_ID = productID, p_Name = cp_Name input, p_Description = cp_Description input,
       p_Status = StatusInactive, p_SKUs = [], p_CreatedAt = Truncate dbnow microsecond\<rparr>]"
    and "ct_skus d' = ct_skus d @ map (\<lambda>s. (productID, s\<lparr>sk_Status := StatusActive\<rparr>)) created"
    and "list_all2 (\<lambda>s t. s = t\<lparr>sk_ID := sk_ID s\<rparr>) created (cp_SKUs input)"
proof -
  define row where "row = \<lparr>p_ID = productID, p_Name = cp_Name input, p_Description = cp_Description input,
       p_Status = StatusInactive, p_SKUs = [], p_CreatedAt = Truncate dbnow microsecond\<rparr>"
  define d1 where "d1 = d\<lparr>ct_products := ct_products d @ [row]\<rparr>"
  from tx have i: "productID = of_nat (length (ct_products d) + 1)" "length (ct_products d) + 1 < 2 ^ 64"
    "insert_skus productID (cp_SKUs input) d1 = (Inr created, d')"
    by (auto simp: product_tx_def insert_product_def table_full_def Let_def row_def d1_def split: if_splits sum.splits prod.splits)
  have "numbered (map p_ID (ct_products d1))"
    using ok numbered_snoc [of "map p_ID (ct_products d)"] by (simp add: d1_def row_def i(1) catalog_ok_def)
  then have ok1: "catalog_ok d1" using ok i(2) by (auto simp: catalog_ok_def d1_def)
  have mem: "productID \<in> p_ID ` set (ct_products d1)" by (simp add: d1_def row_def)
  note s = insert_skus_ok [OF ok1 mem i(3)]
  show "catalog_ok d'" "ct_products d' = ct_products d @ [\<lparr>p_ID = productID, p_Name = cp_Name input, p_Description = cp_Description input,
       p_Status = StatusInactive, p_SKUs = [], p_CreatedAt = Truncate dbnow microsecond\<rparr>]"
    "ct_skus d' = ct_skus d @ map (\<lambda>s. (productID, s\<lparr>sk_Status := StatusActive\<rparr>)) created"
    "list_all2 (\<lambda>s t. s = t\<lparr>sk_ID := sk_ID s\<rparr>) created (cp_SKUs input)"
    using s by (simp_all add: d1_def row_def)
  show "productID \<notin> p_ID ` set (ct_products d)"
    using numbered_fresh [of "map p_ID (ct_products d)"] ok i(2) unfolding i(1) by (simp add: catalog_ok_def)
  show "productID \<noteq> 0"
    by (rule numbered_mem_nonzero [of "map p_ID (ct_products d1)"]) (use ok1 mem in \<open>simp_all add: catalog_ok_def\<close>)
qed

lemma update_stmt_ok:
  assumes "catalog_ok d" and "update_stmt productID f d = (Inr n, d')" and "\<And>p. p_ID (f p) = p_ID p"
  shows "catalog_ok d'"
proof -
  have "map p_ID (ct_products d') = map p_ID (ct_products d)" "ct_skus d' = ct_skus d"
    using assms(2,3) by (auto simp: update_stmt_def)
  then show ?thesis using assms(1) unfolding catalog_ok_def by (metis length_map list.set_map)
qed

lemma normalize_skus_ok:
  "normalize_skus skus seen = Inr out \<Longrightarrow> length out = length skus \<and> (\<forall>s \<in> set out. sk_Status s = StatusActive \<and>
     sk_Code s \<noteq> [] \<and> sk_Name s \<noteq> [] \<and> 0 \<le> sk_PriceCent s)"
  by (induction skus seen arbitrary: out rule: normalize_skus.induct) (auto simp: Let_def split: if_splits sum.splits)

lemma active_skus_sorted:
  assumes "catalog_ok d"
  shows "active_skus productID d = map snd (filter (\<lambda>(p, s). p = productID \<and> sk_Status s = StatusActive) (ct_skus d))"
proof -
  have "sorted (map (sk_ID \<circ> snd) (ct_skus d))"
    using numbered_sorted(1) [of "map (sk_ID \<circ> snd) (ct_skus d)"] assms by (simp add: catalog_ok_def)
  then have "sorted (map sk_ID (map snd (filter (\<lambda>(p, s). p = productID \<and> sk_Status s = StatusActive) (ct_skus d))))"
    using sorted_filter [of "sk_ID \<circ> snd"] by (simp add: o_def)
  then show ?thesis unfolding active_skus_def by (rule sort_key_id_if_sorted)
qed

text \<open>What a successful creation leaves.\<close>

lemma Product_Create_success:
  assumes ok: "catalog_ok d" and un: "undisturbed env" and run: "Product_Create (env 0) dbnow now input d = (Inr p, d1)"
  shows "catalog_ok d1" and "p_ID p \<notin> p_ID ` set (ct_products d)" and "p_ID p \<noteq> 0" and "p_Status p = StatusInactive"
    and "ct_products d1 = ct_products d @ [p\<lparr>p_SKUs := [], p_CreatedAt := Truncate dbnow microsecond\<rparr>]"
    and "ct_skus d1 = ct_skus d @ map (Pair (p_ID p)) (p_SKUs p)" and "\<forall>s \<in> set (p_SKUs p). sk_Status s = StatusActive"
proof -
  from run obtain skus where n: "normalize_skus (cp_SKUs input) [] = Inr skus"
    by (auto simp: Product_Create_def split: if_splits sum.splits)
  define input' where "input' = \<lparr>cp_Name = TrimSpace (cp_Name input), cp_Description = TrimSpace (cp_Description input), cp_SKUs = skus\<rparr>"
  from run n have "Product_Repository_Create (env 0) dbnow now input' d = (Inr p, d1)"
    by (auto simp: Product_Create_def input'_def split: if_splits)
  then obtain productID created where tx: "product_tx dbnow input' d = (Inr (productID, created), d1)"
    and p: "p = \<lparr>p_ID = productID, p_Name = cp_Name input', p_Description = cp_Description input', p_Status = StatusInactive,
            p_SKUs = created, p_CreatedAt = now\<rparr>"
    by (auto simp: Product_Repository_Create_def split: sum.splits prod.splits dest!: atomically_undisturbed(2) [OF un, OF _ refl])
  note t = product_tx_ok [OF ok tx]
  have active: "sk_Status s = StatusActive" if "s \<in> set created" for s
  proof -
    from that t(6) obtain u where u: "u \<in> set skus" "s = u\<lparr>sk_ID := sk_ID s\<rparr>"
      by (auto simp: list_all2_conv_all_nth in_set_conv_nth input'_def) (metis nth_mem)
    have "sk_Status s = sk_Status u" by (subst u(2)) simp
    with normalize_skus_ok [OF n] u(1) show ?thesis by simp
  qed
  have "map (\<lambda>s. (productID, s\<lparr>sk_Status := StatusActive\<rparr>)) created = map (Pair productID) created"
    using active by (intro map_cong refl) simp
  with t p active show "catalog_ok d1" "p_ID p \<notin> p_ID ` set (ct_products d)" "p_ID p \<noteq> 0" "p_Status p = StatusInactive"
    "ct_products d1 = ct_products d @ [p\<lparr>p_SKUs := [], p_CreatedAt := Truncate dbnow microsecond\<rparr>]"
    "ct_skus d1 = ct_skus d @ map (Pair (p_ID p)) (p_SKUs p)" "\<forall>s \<in> set (p_SKUs p). sk_Status s = StatusActive"
    by simp_all
qed

lemma find_sku:
  assumes "catalog_ok d" and "(productID, s) \<in> set (ct_skus d)"
  shows "find (\<lambda>(q, u). sk_ID u = sk_ID s) (ct_skus d) = Some (productID, s)" and "sk_ID s \<noteq> 0"
proof -
  have "distinct (map (sk_ID \<circ> snd) (ct_skus d))"
    using numbered_sorted(2) [of "map (sk_ID \<circ> snd) (ct_skus d)"] assms(1) by (simp add: catalog_ok_def)
  from find_distinct [OF this assms(2), of "\<lambda>_. True"]
  show "find (\<lambda>(q, u). sk_ID u = sk_ID s) (ct_skus d) = Some (productID, s)" by (simp add: case_prod_unfold)
  show "sk_ID s \<noteq> 0"
    by (rule numbered_mem_nonzero [of "map (sk_ID \<circ> snd) (ct_skus d)"])
      (use assms in \<open>auto simp: catalog_ok_def image_iff intro!: bexI [of _ "(productID, s)"]\<close>)
qed

lemma snapshot_read:
  assumes "catalog_ok d" and "(p_ID p, s) \<in> set (ct_skus d)" and "find (\<lambda>q. p_ID q = p_ID p) (ct_products d) = Some p"
    and "sk_Status s = StatusActive"
  shows "GetActiveSKUSnapshot (quiet 0) (sk_ID s) d =
    (if p_Status p = StatusActive
     then Inr \<lparr>ss_SKUID = sk_ID s, ss_ProductID = p_ID p, ss_ProductName = p_Name p, ss_SKUCode = sk_Code s,
          ss_SKUName = sk_Name s, ss_PriceCent = sk_PriceCent s, ss_ProductStatus = StatusActive, ss_SKUStatus = StatusActive\<rparr>
     else fail ErrSKUNotFound, d)"
  using find_sku [OF assms(1,2)] assms(3,4)
  by (simp add: GetActiveSKUSnapshot_def FindActiveSKU_def active_snapshot_def sku_snapshot_def)

lemma find_last: "f y \<notin> f ` set xs \<Longrightarrow> find (\<lambda>q. f q = f y \<and> P q) (xs @ [y]) = (if P y then Some y else None)"
proof -
  assume "f y \<notin> f ` set xs"
  then have "find (\<lambda>q. f q = f y \<and> P q) xs = None" by (auto simp: find_None_iff image_iff)
  then show ?thesis by (simp add: find_append)
qed

section \<open>Properties of the catalogue\<close>

text \<open>The life of a product. Once created, whatever else the catalogue holds, the product is complete but hidden:
  neither it nor its SKUs can be read. Setting it active succeeds, and then the public reads return exactly what
  was created, and a snapshot of each of its SKUs.\<close>

theorem product_lifecycle:
  assumes ok: "catalog_ok d" and un: "undisturbed env" and run: "Product_Create (env 0) dbnow now input d = (Inr p, d1)"
  shows "catalog_ok d1 \<and> GetPublic quiet (p_ID p) d1 = (fail ErrProductNotFound, d1) \<and>
    (\<forall>s \<in> set (p_SKUs p). GetActiveSKUSnapshot (quiet 0) (sk_ID s) d1 = (fail ErrSKUNotFound, d1)) \<and>
    (\<exists>d2. Product_SetStatus (quiet 0) (p_ID p) StatusActive d1 = (Inr (), d2) \<and>
      GetPublic quiet (p_ID p) d2 = (Inr (p\<lparr>p_Status := StatusActive, p_CreatedAt := Truncate dbnow microsecond\<rparr>), d2) \<and>
      (\<forall>s \<in> set (p_SKUs p). GetActiveSKUSnapshot (quiet 0) (sk_ID s) d2 =
        (Inr \<lparr>ss_SKUID = sk_ID s, ss_ProductID = p_ID p, ss_ProductName = p_Name p, ss_SKUCode = sk_Code s,
          ss_SKUName = sk_Name s, ss_PriceCent = sk_PriceCent s, ss_ProductStatus = StatusActive, ss_SKUStatus = StatusActive\<rparr>, d2)))"
proof -
  note t = Product_Create_success [OF ok un run]
  define row where "row = p\<lparr>p_SKUs := [], p_CreatedAt := Truncate dbnow microsecond\<rparr>"
  define d2 where "d2 = d1\<lparr>ct_products := map (\<lambda>q. if p_ID q = p_ID p then q\<lparr>p_Status := StatusActive\<rparr> else q) (ct_products d1)\<rparr>"
  have old: "map (\<lambda>q. if p_ID q = p_ID p then q\<lparr>p_Status := StatusActive\<rparr> else q) (ct_products d) = ct_products d"
    using t(2) by (intro map_idI) (auto simp: image_iff)
  have prods: "ct_products d1 = ct_products d @ [row]" "ct_products d2 = ct_products d @ [row\<lparr>p_Status := StatusActive\<rparr>]"
    using old by (simp_all add: d2_def t(5) row_def)
  have row: "p_ID row = p_ID p" "p_Status row = StatusInactive" "p_Name row = p_Name p" by (simp_all add: row_def t(4))
  have "row\<lparr>p_Status := StatusActive\<rparr> \<noteq> row"
  proof
    assume "row\<lparr>p_Status := StatusActive\<rparr> = row"
    then have "p_Status (row\<lparr>p_Status := StatusActive\<rparr>) = p_Status row" by (simp only:)
    with row(2) show False by simp
  qed
  then have set_status: "Product_SetStatus (quiet 0) (p_ID p) StatusActive d1 = (Inr (), d2)"
    using t(3) row(1) by (simp add: Product_SetStatus_def Product_Repository_SetStatus_def updated_def update_stmt_def d2_def prods(1))
  have ok2: "catalog_ok d2"
    by (rule update_stmt_ok [OF t(1), of "p_ID p" "\<lambda>q. q\<lparr>p_Status := StatusActive\<rparr>"]) (simp_all add: update_stmt_def d2_def)
  have skus: "ct_skus d2 = ct_skus d @ map (Pair (p_ID p)) (p_SKUs p)" by (simp add: d2_def t(6))
  have "filter (\<lambda>(q, s). q = p_ID p \<and> sk_Status s = StatusActive) (ct_skus d) = []"
    using ok t(2) by (auto simp: filter_empty_conv catalog_ok_def)
  moreover have "filter (\<lambda>(q, s). q = p_ID p \<and> sk_Status s = StatusActive) (map (Pair (p_ID p)) (p_SKUs p)) = map (Pair (p_ID p)) (p_SKUs p)"
    using t(7) by (simp add: filter_id_conv)
  ultimately have active: "active_skus (p_ID p) d2 = p_SKUs p"
    by (simp add: active_skus_sorted [OF ok2] skus o_def)
  note f = find_last [of p_ID row "ct_products d"] find_last [of p_ID "row\<lparr>p_Status := StatusActive\<rparr>" "ct_products d"]
  have pub: "GetPublic quiet (p_ID p) d1 = (fail ErrProductNotFound, d1)"
    "GetPublic quiet (p_ID p) d2 = (Inr (p\<lparr>p_Status := StatusActive, p_CreatedAt := Truncate dbnow microsecond\<rparr>), d2)"
    using f [of "\<lambda>q. p_Status q = StatusActive"] t(2,3) row active
    by (simp_all add: GetPublic_def FindActive_def prods) (simp add: row_def)
  have snap: "GetActiveSKUSnapshot (quiet 0) (sk_ID s) d1 = (fail ErrSKUNotFound, d1)"
    "GetActiveSKUSnapshot (quiet 0) (sk_ID s) d2 = (Inr \<lparr>ss_SKUID = sk_ID s, ss_ProductID = p_ID p, ss_ProductName = p_Name p,
       ss_SKUCode = sk_Code s, ss_SKUName = sk_Name s, ss_PriceCent = sk_PriceCent s, ss_ProductStatus = StatusActive,
       ss_SKUStatus = StatusActive\<rparr>, d2)" if "s \<in> set (p_SKUs p)" for s
    using snapshot_read [OF t(1), of row s] snapshot_read [OF ok2, of "row\<lparr>p_Status := StatusActive\<rparr>" s] that
      f [of "\<lambda>_. True"] t(2,6,7) row by (simp_all add: prods skus)
  show ?thesis using t(1) pub set_status snap by blast
qed

text \<open>C18: an item is frozen from the catalogue. When the inventory service creates an item through its adapter to the product
  service, whatever fails, the item carries the name, code and price that an active SKU of an active product
  had, for the SKU that was asked for, and a positive stock.\<close>

theorem item_freezes_catalogue:
  assumes un: "undisturbed penv"
    and run: "CreateSeckillItem (ProductSnapshotAdapter (\<lambda>sku. fst (GetSkuSnapshot attach (penv 0) sku cat))) c now input d = (Inr item, d')"
  shows "\<exists>s. active_snapshot (ci_SKUID input) cat = Some s \<and> ss_SKUStatus s = StatusActive \<and> ss_ProductStatus s = StatusActive \<and>
    it_Snapshot item = \<lparr>fs_SKUID = ci_SKUID input, fs_ProductName = ss_ProductName s, fs_SKUCode = ss_SKUCode s,
      fs_SKUName = ss_SKUName s, fs_UnitPriceCent = ss_PriceCent s\<rparr> \<and>
    it_ActivityID item = ci_ActivityID input \<and> it_InitialStock item = ci_Stock input \<and> it_AvailableStock item = ci_Stock input \<and>
    0 < ci_Stock input"
proof -
  from run obtain f where f: "ProductSnapshotAdapter (\<lambda>sku. fst (GetSkuSnapshot attach (penv 0) sku cat)) (ci_SKUID input) = Inr f"
    "fs_SKUID f = ci_SKUID input" "0 < ci_Stock input" "CreateInventoryItem c now input f d = (Inr item, d')"
    by (auto simp: CreateSeckillItem_def split: if_splits sum.splits)
  from f(1) obtain x where x: "fst (GetSkuSnapshot attach (penv 0) (ci_SKUID input) cat) = Inr x"
    "f = \<lparr>fs_SKUID = px_SkuId x, fs_ProductName = px_ProductName x, fs_SKUCode = px_SkuCode x, fs_SKUName = px_SkuName x,
       fs_UnitPriceCent = px_UnitPriceCent x\<rparr>"
    by (auto simp: ProductSnapshotAdapter_def split: sum.splits if_splits)
  from x(1) obtain s d2 where "read_db (penv 0) (active_snapshot (ci_SKUID input)) cat = (Inr (Some s), d2)" and px: "px_SkuId x = ss_SKUID s"
    "px_ProductName x = ss_ProductName s" "px_SkuCode x = ss_SKUCode s" "px_SkuName x = ss_SKUName s" "px_UnitPriceCent x = ss_PriceCent s"
    by (auto simp: GetSkuSnapshot_def GetActiveSKUSnapshot_def FindActiveSKU_def split: if_splits sum.splits prod.splits option.splits)
  from read_db_undisturbed(2) [OF un this(1)] px have s: "active_snapshot (ci_SKUID input) cat = Some s" "px_SkuId x = ss_SKUID s"
    "px_ProductName x = ss_ProductName s" "px_SkuCode x = ss_SKUCode s" "px_SkuName x = ss_SKUName s" "px_UnitPriceCent x = ss_PriceCent s"
    by simp_all
  then have "ss_SKUStatus s = StatusActive" "ss_ProductStatus s = StatusActive"
    by (auto simp: active_snapshot_def split: option.splits if_splits)
  with s f x show ?thesis
    by (auto simp: CreateInventoryItem_def Let_def split: sum.splits prod.splits)
qed

text \<open>Setting the status a product already has is answered as if there were no such product: MySQL counts the rows
  it changed.\<close>

lemma update_stmt_again:
  assumes "update_stmt productID f d = (Inr n, d1)" and "\<And>p. f (f p) = f p" and "\<And>p. p_ID (f p) = p_ID p"
  shows "update_stmt productID f d1 = (Inr 0, d1)"
proof -
  have d1: "ct_products d1 = map (\<lambda>p. if p_ID p = productID then f p else p) (ct_products d)"
    using assms(1) by (auto simp: update_stmt_def)
  have "f p = p" if "p \<in> set (ct_products d1)" "p_ID p = productID" for p
    using that assms(2,3) by (auto simp: d1 split: if_splits)
  then have "filter (\<lambda>p. p_ID p = productID \<and> f p \<noteq> p) (ct_products d1) = []"
    "map (\<lambda>p. if p_ID p = productID then f p else p) (ct_products d1) = ct_products d1"
    by (auto simp: filter_empty_conv intro!: map_idI)
  then show ?thesis by (simp add: update_stmt_def)
qed

theorem product_status_repeated:
  assumes "Product_SetStatus (quiet 0) productID status d = (Inr (), d1)"
  shows "Product_SetStatus (quiet 0) productID status d1 = (fail ErrProductNotFound, d1)"
proof -
  from assms obtain n where n: "update_stmt productID (\<lambda>p. p\<lparr>p_Status := status\<rparr>) d = (Inr n, d1)"
    and valid: "\<not> (productID = 0 \<or> (status \<noteq> StatusActive \<and> status \<noteq> StatusInactive))"
    by (cases "update_stmt productID (\<lambda>p. p\<lparr>p_Status := status\<rparr>) d")
      (auto simp: Product_SetStatus_def Product_Repository_SetStatus_def updated_def split: if_splits sum.splits)
  have "update_stmt productID (\<lambda>p. p\<lparr>p_Status := status\<rparr>) d1 = (Inr 0, d1)"
    by (rule update_stmt_again [OF n]) simp_all
  with valid show ?thesis by (simp add: Product_SetStatus_def Product_Repository_SetStatus_def updated_def)
qed

section \<open>Witnesses\<close>

definition empty_catalog :: catalog where
  "empty_catalog = \<lparr>ct_products = [], ct_skus = []\<rparr>"

definition demo_product :: CreateInput where
  "demo_product = \<lparr>cp_Name = ''Phone'', cp_Description = [], cp_SKUs = [\<lparr>sk_ID = 0, sk_Code = ''P-1'', sk_Name = ''black'',
     sk_PriceCent = 9900, sk_Status = 0\<rparr>]\<rparr>"

lemma demo_catalog:
  "\<exists>p d. Product_Create (quiet 0) 5 6 demo_product empty_catalog = (Inr p, d) \<and>
     p_SKUs p = [\<lparr>sk_ID = 1, sk_Code = ''P-1'', sk_Name = ''black'', sk_PriceCent = 9900, sk_Status = StatusActive\<rparr>] \<and> p_Name p = ''Phone''"
proof -
  have "TrimSpace ''Phone'' = ''Phone''" "TrimSpace ''P-1'' = ''P-1''" "TrimSpace ''black'' = ''black''"
    by (rule TrimSpace_printable, code_simp)+
  then show ?thesis
    by (simp add: Product_Create_def Product_Repository_Create_def product_tx_def insert_product_def insert_sku_def table_full_def
        demo_product_def empty_catalog_def Let_def)
qed

theorem product_lifecycle_witness:
  "\<exists>p d1 d2. Product_Create (quiet 0) 5 6 demo_product empty_catalog = (Inr p, d1) \<and>
     GetPublic quiet (p_ID p) d1 = (fail ErrProductNotFound, d1) \<and>
     Product_SetStatus (quiet 0) (p_ID p) StatusActive d1 = (Inr (), d2) \<and> (\<exists>q. GetPublic quiet (p_ID p) d2 = (Inr q, d2) \<and> p_Name q = ''Phone'')"
proof -
  obtain p d1 where run: "Product_Create (quiet 0) 5 6 demo_product empty_catalog = (Inr p, d1)" "p_Name p = ''Phone''"
    using demo_catalog by blast
  have "catalog_ok empty_catalog" by (simp add: catalog_ok_def empty_catalog_def)
  from product_lifecycle [OF this quiet_ok(2) run(1)] run show ?thesis by auto
qed

definition demo_active :: catalog where
  "demo_active = \<lparr>ct_products = [\<lparr>p_ID = 1, p_Name = ''Phone'', p_Description = [], p_Status = StatusActive, p_SKUs = [], p_CreatedAt = 0\<rparr>],
     ct_skus = [(1, \<lparr>sk_ID = 1, sk_Code = ''P-1'', sk_Name = ''black'', sk_PriceCent = 9900, sk_Status = StatusActive\<rparr>)]\<rparr>"

theorem item_freezes_catalogue_witness:
  "\<exists>item d'. CreateSeckillItem (ProductSnapshotAdapter (\<lambda>sku. fst (GetSkuSnapshot False (quiet 0) sku demo_active))) (quiet 0) 5
      \<lparr>ci_ActivityID = 7, ci_SKUID = 1, ci_Stock = 2\<rparr> \<lparr>inv_items = [], inv_reservations = []\<rparr> = (Inr item, d') \<and>
    it_Snapshot item = \<lparr>fs_SKUID = 1, fs_ProductName = ''Phone'', fs_SKUCode = ''P-1'', fs_SKUName = ''black'', fs_UnitPriceCent = 9900\<rparr>"
proof -
  let ?adapter = "ProductSnapshotAdapter (\<lambda>sku. fst (GetSkuSnapshot False (quiet 0) sku demo_active))"
  let ?in = "\<lparr>ci_ActivityID = 7, ci_SKUID = 1, ci_Stock = 2\<rparr>" and ?d = "\<lparr>inv_items = [], inv_reservations = []\<rparr>"
  have "TrimSpace ''Phone'' = ''Phone''" "TrimSpace ''P-1'' = ''P-1''" "TrimSpace ''black'' = ''black''"
    by (rule TrimSpace_printable, code_simp)+
  moreover have snap: "active_snapshot 1 demo_active = Some \<lparr>ss_SKUID = 1, ss_ProductID = 1, ss_ProductName = ''Phone'', ss_SKUCode = ''P-1'',
      ss_SKUName = ''black'', ss_PriceCent = 9900, ss_ProductStatus = StatusActive, ss_SKUStatus = StatusActive\<rparr>"
    by (simp add: active_snapshot_def sku_snapshot_def demo_active_def)
  ultimately have "\<exists>item d'. CreateSeckillItem ?adapter (quiet 0) 5 ?in ?d = (Inr item, d')"
    by (simp add: CreateSeckillItem_def ProductSnapshotAdapter_def GetSkuSnapshot_def GetActiveSKUSnapshot_def FindActiveSKU_def
        toProtoStatus_def CreateInventoryItem_def insert_item_def Let_def)
  then obtain item d' where run: "CreateSeckillItem ?adapter (quiet 0) 5 ?in ?d = (Inr item, d')" by blast
  from item_freezes_catalogue [OF quiet_ok(2) run] snap run show ?thesis by auto
qed

end
