(* ===== verification/Activities.thy ===== *)
theory Activities
  imports Sql StreamQueue RpcPolicy
begin

text \<open>
  The activities of the seckill service: the table \<open>seckill_activities\<close> (\<open>migrations/000006\<close>) and its
  repository (\<open>internal/seckill/mysqlrepo/activity.go\<close>), the services over it and over the Redis gate
  (\<open>activity_service.go\<close>, \<open>queue_service.go\<close>) and the RPC server (\<open>seckillrpc/server.go\<close>). The items of an
  activity come from the inventory service: the argument \<open>items\<close>.
\<close>

section \<open>The repository\<close>

text \<open>The driver writes a time with microseconds and drops the rest. A row is an \<open>Activity\<close>.\<close>

definition insert_activity :: "Activity \<Rightarrow> Activity list \<Rightarrow> u64 result \<times> Activity list" where
  "insert_activity row rows =
     (if table_full rows then (Inl (MySQLError ER_AUTOINC_READ_FAILED), rows)
      else if \<not> datetime_ok (a_StartAt row) \<or> \<not> datetime_ok (a_EndAt row) \<or> \<not> datetime_ok (a_CreatedAt row)
      then (Inl (MySQLError ER_TRUNCATED_WRONG_VALUE), rows)
      else (let stored = row\<lparr>a_ID := of_nat (length rows + 1), a_StartAt := Truncate (a_StartAt row) microsecond,
                  a_EndAt := Truncate (a_EndAt row) microsecond\<rparr>
            in if \<not> a_StartAt stored < a_EndAt stored \<or> a_Status stored \<notin> {1, 2}
               then (Inl (MySQLError ER_CHECK_CONSTRAINT_VIOLATED), rows)
               else (Inr (a_ID stored), rows @ [stored])))"

definition Repository_CreateActivity ::
  "Activity list step_env \<Rightarrow> time \<Rightarrow> CreateActivityInput \<Rightarrow> Activity list \<Rightarrow> Activity result \<times> Activity list" where
  "Repository_CreateActivity c now input rows =
     (let row = \<lparr>a_ID = 0, a_Name = ca_Name input, a_StartAt = ca_StartAt input, a_EndAt = ca_EndAt input,
            a_Status = StatusDisabled, a_CreatedAt = Truncate now microsecond\<rparr> in
      case atomically c (insert_activity row) rows of
        (Inl err, rows') \<Rightarrow> (Inl (Wrapf ''insert seckill activity'' err), rows')
      | (Inr i, rows') \<Rightarrow> (Inr (row\<lparr>a_ID := i\<rparr>), rows'))"

definition find_activity :: "u64 \<Rightarrow> Activity list \<Rightarrow> Activity option" where
  "find_activity activityID rows = find (\<lambda>a. a_ID a = activityID) rows"

definition FindActivity :: "Activity list step_env \<Rightarrow> u64 \<Rightarrow> Activity list \<Rightarrow> Activity result \<times> Activity list" where
  "FindActivity c activityID rows = (case read_db c (find_activity activityID) rows of
       (Inl err, rows') \<Rightarrow> (Inl (Wrapf ''find seckill activity'' err), rows')
     | (Inr None, rows') \<Rightarrow> (fail ErrActivityNotFound, rows')
     | (Inr (Some a), rows') \<Rightarrow> (Inr a, rows'))"

text \<open>\<open>UPDATE \<dots> SET status = ? WHERE id = ?\<close>, with the number of rows it changed.\<close>

definition status_stmt :: "u64 \<Rightarrow> nat \<Rightarrow> Activity list \<Rightarrow> nat result \<times> Activity list" where
  "status_stmt activityID status rows =
     (if status \<notin> {1, 2} \<and> (\<exists>a \<in> set rows. a_ID a = activityID)
      then (Inl (MySQLError ER_CHECK_CONSTRAINT_VIOLATED), rows)
      else (Inr (length (filter (\<lambda>a. a_ID a = activityID \<and> a_Status a \<noteq> status) rows)),
            map (\<lambda>a. if a_ID a = activityID then a\<lparr>a_Status := status\<rparr> else a) rows))"

definition Repository_SetStatus ::
  "Activity list env \<Rightarrow> u64 \<Rightarrow> nat \<Rightarrow> Activity list \<Rightarrow> unit result \<times> Activity list" where
  "Repository_SetStatus env activityID status rows = (case atomically (env 0) (status_stmt activityID status) rows of
       (Inl err, rows') \<Rightarrow> (Inl (Wrapf ''set seckill activity status'' err), rows')
     | (Inr n, rows') \<Rightarrow>
         if 0 < n then (Inr (), rows')
         else (case FindActivity (env 1) activityID rows' of
             (Inl err, rows'') \<Rightarrow> (Inl err, rows'') | (Inr _, rows'') \<Rightarrow> (Inr (), rows'')))"

definition active_ids :: "time \<Rightarrow> Activity list \<Rightarrow> u64 list" where
  "active_ids now rows = map a_ID (sort_key a_ID (filter (\<lambda>a. a_Status a = StatusEnabled \<and> now < a_EndAt a) rows))"

definition ListActiveActivityIDs ::
  "Activity list step_env \<Rightarrow> time \<Rightarrow> Activity list \<Rightarrow> u64 list result \<times> Activity list" where
  "ListActiveActivityIDs c now rows = (case read_db c (active_ids now) rows of
       (Inl err, rows') \<Rightarrow> (Inl (Wrapf ''list active seckill activity IDs'' err), rows')
     | (Inr ids, rows') \<Rightarrow> (Inr ids, rows'))"

section \<open>The activity service\<close>

definition CreateActivity ::
  "Activity list step_env \<Rightarrow> time \<Rightarrow> CreateActivityInput \<Rightarrow> Activity list \<Rightarrow> Activity result \<times> Activity list" where
  "CreateActivity c now input0 rows =
     (let input = input0\<lparr>ca_Name := TrimSpace (ca_Name input0)\<rparr> in
      if ca_Name input = [] \<or> IsZero (ca_StartAt input) \<or> IsZero (ca_EndAt input) \<or> \<not> ca_StartAt input < ca_EndAt input
      then (fail ErrInvalidArgument, rows)
      else Repository_CreateActivity c now input rows)"

definition itemIDs :: "Item list \<Rightarrow> u64 list" where
  "itemIDs xs = map i_ID xs"

type_synonym item_reader = "u64 \<Rightarrow> Item list result"

definition of_error :: "goerr option \<Rightarrow> unit result" where
  "of_error e = (case e of None \<Rightarrow> Inr () | Some err \<Rightarrow> Inl err)"

definition SetActivityStatus ::
  "item_reader \<Rightarrow> Activity list env \<Rightarrow> redis env \<Rightarrow> u64 \<Rightarrow> nat \<Rightarrow> Activity list \<times> redis \<Rightarrow> unit result \<times> Activity list \<times> redis" where
  "SetActivityStatus items env renv activityID status = (\<lambda>(rows, r).
     if activityID = 0 \<or> (status \<noteq> StatusEnabled \<and> status \<noteq> StatusDisabled) then (fail ErrInvalidArgument, rows, r)
     else if status = StatusDisabled then
       (case Repository_SetStatus env activityID status rows of
          (Inl err, rows') \<Rightarrow> (Inl err, rows', r)
        | (Inr _, rows') \<Rightarrow>
            (case items activityID of
               Inl err \<Rightarrow> (Inl err, rows', r)
             | Inr xs \<Rightarrow> (case InvalidateItems renv 0 r (itemIDs xs) of (e, r') \<Rightarrow> (of_error e, rows', r'))))
     else
       (case items activityID of
          Inl err \<Rightarrow> (Inl err, rows, r)
        | Inr xs \<Rightarrow>
            (case InvalidateItems renv 0 r (itemIDs xs) of
               (Some err, r') \<Rightarrow> (Inl err, rows, r')
             | (None, r') \<Rightarrow> (case Repository_SetStatus env activityID status rows of (res, rows') \<Rightarrow> (res, rows', r')))))"

definition PreheatActivity ::
  "item_reader \<Rightarrow> Activity list env \<Rightarrow> redis env \<Rightarrow> time \<Rightarrow> u64 \<Rightarrow> Activity list \<times> redis \<Rightarrow>
     PreheatResult result \<times> Activity list \<times> redis" where
  "PreheatActivity items env renv now activityID = (\<lambda>(rows, r).
     if activityID = 0 then (fail ErrInvalidArgument, rows, r)
     else (case FindActivity (env 0) activityID rows of
         (Inl err, rows') \<Rightarrow> (Inl err, rows', r)
       | (Inr activity, rows') \<Rightarrow>
           (case items activityID of
              Inl err \<Rightarrow> (Inl err, rows', r)
            | Inr xs \<Rightarrow>
                if xs = [] then (fail ErrNoItems, rows', r)
                else if a_Status activity \<noteq> StatusEnabled \<or> \<not> now < a_StartAt activity then (fail ErrUnavailable, rows', r)
                else (case PublishActivity renv r \<lparr>ps_Activity = activity, ps_Items = xs\<rparr> now of
                    ((Some err, _), r') \<Rightarrow> (Inl err, rows', r')
                  | ((None, res), r') \<Rightarrow> (Inr res, rows', r')))))"

fun collect_ids :: "item_reader \<Rightarrow> u64 list \<Rightarrow> u64 list \<Rightarrow> u64 list result" where
  "collect_ids items [] ids = Inr ids"
| "collect_ids items (activityID # activityIDs) ids = (case items activityID of
       Inl err \<Rightarrow> Inl err
     | Inr xs \<Rightarrow> collect_ids items activityIDs (ids @ map i_ID xs))"

definition ListStreamItemIDs ::
  "item_reader \<Rightarrow> Activity list env \<Rightarrow> time \<Rightarrow> Activity list \<Rightarrow> u64 list result \<times> Activity list" where
  "ListStreamItemIDs items env now rows = (case ListActiveActivityIDs (env 0) now rows of
       (Inl err, rows') \<Rightarrow> (Inl err, rows')
     | (Inr activityIDs, rows') \<Rightarrow> (collect_ids items activityIDs [], rows'))"

section \<open>The queue service\<close>

definition Enqueue ::
  "redis_lib \<Rightarrow> redis env \<Rightarrow> time \<Rightarrow> random \<Rightarrow> u64 \<Rightarrow> u64 \<Rightarrow> gate \<times> redis \<Rightarrow> AsyncSubmission result \<times> gate \<times> redis" where
  "Enqueue L env now0 rnd userID itemID = (\<lambda>(g, r).
     if userID = 0 \<or> itemID = 0 then (fail ErrInvalidArgument, g, r)
     else (let now = Truncate now0 millisecond in
       case newStreamOrderNo now itemID rnd of
         Inl err \<Rightarrow> (Inl (Wrapf ''generate stream seckill order number'' err), g, r)
       | Inr orderNo \<Rightarrow>
           (case ReserveAndEnqueue L env g r \<lparr>ri_UserID = userID, ri_ItemID = itemID, ri_OrderNo = orderNo, ri_Now = now\<rparr> of
              (Inl err, g', r') \<Rightarrow> (Inl err, g', r')
            | (Inr reservation, g', r') \<Rightarrow>
                (Inr \<lparr>as_OrderNo = rv_OrderNo reservation, as_Replayed = rv_Replayed reservation\<rparr>, g', r'))))"

definition GetProjectedResult :: "redis step_env \<Rightarrow> gate \<Rightarrow> redis \<Rightarrow> u64 \<Rightarrow> string \<Rightarrow> (string \<times> string) result" where
  "GetProjectedResult c g r userID orderNo0 =
     (let orderNo = TrimSpace orderNo0 in
      if userID = 0 \<or> orderNo = [] then fail ErrAsyncResultNotFound
      else (case FindStreamResult c g r userID orderNo of
          Inl err \<Rightarrow> Inl err
        | Inr status \<Rightarrow> Inr (orderNo, status)))"

section \<open>The RPC server\<close>

datatype ActivityStatus = ACTIVITY_STATUS_UNSPECIFIED | ACTIVITY_STATUS_ENABLED | ACTIVITY_STATUS_DISABLED | ACTIVITY_STATUS_OTHER int
datatype ResultStatus = RESULT_STATUS_UNSPECIFIED | RESULT_STATUS_QUEUED | RESULT_STATUS_SUCCEEDED | RESULT_STATUS_FAILED

definition toProtoActivityStatus :: "nat \<Rightarrow> ActivityStatus" where
  "toProtoActivityStatus s = (if s = StatusEnabled then ACTIVITY_STATUS_ENABLED
     else if s = StatusDisabled then ACTIVITY_STATUS_DISABLED else ACTIVITY_STATUS_UNSPECIFIED)"

definition fromProtoActivityStatus :: "ActivityStatus \<Rightarrow> nat" where
  "fromProtoActivityStatus s = (case s of ACTIVITY_STATUS_ENABLED \<Rightarrow> StatusEnabled | ACTIVITY_STATUS_DISABLED \<Rightarrow> StatusDisabled | _ \<Rightarrow> 0)"

definition toProtoResultStatus :: "string \<Rightarrow> ResultStatus" where
  "toProtoResultStatus s = (if s = AsyncResultQueued then RESULT_STATUS_QUEUED
     else if s = AsyncResultSucceeded then RESULT_STATUS_SUCCEEDED
     else if s = AsyncResultFailed then RESULT_STATUS_FAILED else RESULT_STATUS_UNSPECIFIED)"

record proto_activity =
  pa_Id :: u64
  pa_Name :: string
  pa_StartAtMs :: int
  pa_EndAtMs :: int
  pa_Status :: ActivityStatus
  pa_CreatedAtMs :: int

definition toProtoActivity :: "Activity \<Rightarrow> proto_activity" where
  "toProtoActivity a = \<lparr>pa_Id = a_ID a, pa_Name = a_Name a, pa_StartAtMs = UnixMilli (a_StartAt a), pa_EndAtMs = UnixMilli (a_EndAt a),
     pa_Status = toProtoActivityStatus (a_Status a), pa_CreatedAtMs = UnixMilli (a_CreatedAt a)\<rparr>"

definition mapSeckillError :: "(goerr \<Rightarrow> code) \<Rightarrow> bool \<Rightarrow> goerr \<Rightarrow> goerr" where
  "mapSeckillError sc attach err = StatusError attach
     (if sc err = DeadlineExceeded \<or> errors_Is err Context_DeadlineExceeded
      then NewPublicError DeadlineExceeded ERROR_CODE_TEMPORARILY_UNAVAILABLE ''seckill dependency timeout'' True err
      else if sc err = Unavailable
      then NewPublicError Unavailable ERROR_CODE_TEMPORARILY_UNAVAILABLE ''seckill dependency unavailable'' True err
      else if errors_Is err Context_Canceled
      then NewPublicError Canceled ERROR_CODE_TEMPORARILY_UNAVAILABLE ''request canceled'' True err
      else if errors_Is err ErrInvalidArgument
      then NewPublicError InvalidArgument ERROR_CODE_INVALID_ARGUMENT ''invalid seckill request'' False err
      else if errors_Is err ErrActivityNotFound \<or> errors_Is err ErrAsyncResultNotFound
      then NewPublicError NotFound ERROR_CODE_NOT_FOUND ''seckill resource not found'' False err
      else if errors_Is err ErrOutOfStock
      then NewPublicError FailedPrecondition ERROR_CODE_OUT_OF_STOCK ''seckill item out of stock'' False err
      else if errors_Is err ErrUnavailable \<or> errors_Is err ErrCacheNotReady
      then NewPublicError FailedPrecondition ERROR_CODE_CONFLICT ''seckill activity unavailable'' False err
      else if errors_Is err ErrNoItems
      then NewPublicError FailedPrecondition ERROR_CODE_CONFLICT ''seckill activity has no items'' False err
      else if errors_Is err ErrAdmissionFailure \<or> errors_Is err ErrQueueUnavailable
      then NewPublicError Unavailable ERROR_CODE_TEMPORARILY_UNAVAILABLE ''seckill queue unavailable'' True err
      else err)"

definition or_map :: "(goerr \<Rightarrow> goerr) \<Rightarrow> ('a \<Rightarrow> 'b) \<Rightarrow> 'a result \<Rightarrow> 'b result" where
  "or_map m f res = (case res of Inl err \<Rightarrow> Inl (m err) | Inr x \<Rightarrow> Inr (f x))"

definition Server_CreateActivity where
  "Server_CreateActivity sc attach c now name startAtMs endAtMs rows =
     (case CreateActivity c now \<lparr>ca_Name = name, ca_StartAt = time_UnixMilli startAtMs, ca_EndAt = time_UnixMilli endAtMs\<rparr> rows of
        (res, rows') \<Rightarrow> (or_map (mapSeckillError sc attach) toProtoActivity res, rows'))"

definition UpdateActivityStatus where
  "UpdateActivityStatus sc attach items env renv activityID status s =
     (case SetActivityStatus items env renv activityID (fromProtoActivityStatus status) s of
        (res, s') \<Rightarrow> (or_map (mapSeckillError sc attach) (\<lambda>x. x) res, s'))"

definition Server_PreheatActivity where
  "Server_PreheatActivity sc attach items env renv now activityID s =
     (case PreheatActivity items env renv now activityID s of
        (res, s') \<Rightarrow> (or_map (mapSeckillError sc attach) (\<lambda>p. (pr_ActivityID p, word_of_int (int (pr_ItemCount p)) :: 32 word,
            UnixMilli (pr_EarliestExpireAt p), UnixMilli (pr_LatestExpireAt p))) res, s'))"

definition Server_Enqueue where
  "Server_Enqueue sc attach L env now rnd userID itemID s =
     (case Enqueue L env now rnd userID itemID s of
        (res, s') \<Rightarrow> (or_map (mapSeckillError sc attach) (\<lambda>x. (as_OrderNo x, RESULT_STATUS_QUEUED, as_Replayed x)) res, s'))"

definition GetResult where
  "GetResult sc attach c g r userID orderNo =
     or_map (mapSeckillError sc attach) (\<lambda>(orderNo, status). (orderNo, toProtoResultStatus status))
       (GetProjectedResult c g r userID orderNo)"

definition Server_ListStreamItemIDs where
  "Server_ListStreamItemIDs sc attach items env now rows =
     (case ListStreamItemIDs items env now rows of
        (res, rows') \<Rightarrow> (or_map (mapSeckillError sc attach) (\<lambda>ids. ids) res, rows'))"

section \<open>The status of an activity\<close>

definition with_status :: "u64 \<Rightarrow> nat \<Rightarrow> Activity list \<Rightarrow> Activity list" where
  "with_status activityID status rows = map (\<lambda>a. if a_ID a = activityID then a\<lparr>a_Status := status\<rparr> else a) rows"

lemma FindActivity_undisturbed:
  assumes "undisturbed env" and "FindActivity (env k) activityID rows = (res, rows')"
  shows "rows' = rows" and "res = Inr a \<Longrightarrow> a \<in> set rows \<and> a_ID a = activityID"
  using assms read_db_undisturbed(1) [OF assms(1), of k "find_activity activityID" rows]
    read_db_undisturbed(2) [OF assms(1), of k "find_activity activityID" rows]
  by (auto simp: FindActivity_def find_activity_def find_Some_iff split: prod.splits sum.splits option.splits)

lemma status_stmt_ok: "status_stmt activityID status rows = (Inr n, rows') \<Longrightarrow> rows' = with_status activityID status rows \<and>
    n = length (filter (\<lambda>a. a_ID a = activityID \<and> a_Status a \<noteq> status) rows)"
  by (auto simp: status_stmt_def with_status_def split: if_splits)

lemma SetStatus_undisturbed:
  assumes un: "undisturbed env" and run: "Repository_SetStatus env activityID status rows = (res, rows')"
  shows "rows' = rows \<or> rows' = with_status activityID status rows"
    and "res = Inr x \<Longrightarrow> rows' = with_status activityID status rows \<and> (\<exists>a \<in> set rows'. a_ID a = activityID)"
proof -
  obtain u d where a: "atomically (env 0) (status_stmt activityID status) rows = (u, d)" by fastforce
  note a' = atomically_undisturbed [OF un a]
  obtain v d2 where f: "FindActivity (env 1) activityID d = (v, d2)" by fastforce
  note f' = FindActivity_undisturbed [OF un f]
  have d: "d = rows \<or> d = with_status activityID status rows" using a'(1) by (auto dest: status_stmt_ok)
  have rows': "rows' = d" using run a f f'(1) by (auto simp: Repository_SetStatus_def split: sum.splits if_splits)
  with d show "rows' = rows \<or> rows' = with_status activityID status rows" by simp
  assume res: "res = Inr x"
  from run a res obtain n where u: "u = Inr n" by (cases u) (auto simp: Repository_SetStatus_def)
  from status_stmt_ok [OF a'(2) [OF u]] have n: "d = with_status activityID status rows"
    "n = length (filter (\<lambda>a. a_ID a = activityID \<and> a_Status a \<noteq> status) rows)" by simp_all
  have "\<exists>a \<in> set d. a_ID a = activityID"
  proof (cases "0 < n")
    case True
    then obtain a where "a \<in> set rows" "a_ID a = activityID" using n(2) by (auto simp: filter_empty_conv)
    then show ?thesis unfolding n(1) with_status_def by (auto intro!: bexI [of _ "a\<lparr>a_Status := status\<rparr>"])
  next
    case False
    with run a u f res have "\<exists>b. v = Inr b" by (auto simp: Repository_SetStatus_def split: sum.splits)
    then show ?thesis using f' by auto
  qed
  with rows' n show "rows' = with_status activityID status rows \<and> (\<exists>a \<in> set rows'. a_ID a = activityID)" by simp
qed

lemma InvalidateItems_closed:
  assumes "undisturbed env" and "InvalidateItems env k r ids = (e, r')"
  shows "(\<not> is_ready i r \<longrightarrow> \<not> is_ready i r') \<and> (e = None \<longrightarrow> i \<in> set ids \<longrightarrow> \<not> is_ready i r')"
  using assms(2)
proof (induction ids arbitrary: k r)
  case (Cons j ids)
  have del: "is_ready i (snd (del_item j x)) \<longleftrightarrow> i \<noteq> j \<and> is_ready i x" for x
    by (auto simp: is_ready_def del_item_def HGET_DEL)
  obtain u r1 where c: "call (env k) (del_item j) r = (u, r1)" by fastforce
  have r1: "r1 = r \<or> r1 = snd (del_item j r)" and u: "u = Inr () \<Longrightarrow> r1 = snd (del_item j r)"
    using c assms(1) by (auto simp: call_def Let_def undisturbed_def del_item_def split: outcome.splits)
  show ?case
  proof (cases "j = 0")
    case False
    show ?thesis
    proof (cases u)
      case (Inl err)
      with Cons.prems c False r1 del show ?thesis by auto
    next
      case (Inr z)
      with Cons.prems c False have "InvalidateItems env (k + 1) r1 ids = (e, r')" by simp
      from Cons.IH [OF this] r1 u Inr del show ?thesis by auto
    qed
  qed (use Cons.prems in auto)
qed simp

section \<open>Preheating\<close>

text \<open>An item as a preheat leaves it: open, with its stock and without buyers.\<close>

definition opened :: "Item \<Rightarrow> redis \<Rightarrow> bool" where
  "opened item r \<longleftrightarrow> is_ready (i_ID item) r \<and> item_ok (i_ID item) r \<and> stock_of (i_ID item) r = i_AvailableStock item \<and>
     buyer_of (i_ID item) r = Map.empty"

lemma untouched_trans: "untouched j r r1 \<Longrightarrow> untouched j r1 r2 \<Longrightarrow> untouched j r r2"
  by (simp add: untouched_def)

lemma opened_untouched: "untouched (i_ID item) r r' \<Longrightarrow> opened item r \<Longrightarrow> opened item r'"
  using untouched_observe [of "i_ID item" r r'] by (simp add: opened_def item_ok_def)

lemma expiry_PEXPIREAT_other: "k' \<noteq> k \<Longrightarrow> expiry (PEXPIREAT r k t) k' = expiry r k'"
  by (simp add: PEXPIREAT_def DEL_def)

lemma publish_item_untouched:
  assumes "j \<noteq> i_ID item"
  shows "untouched j r (snd (publish_item a item r))"
  using assms
  by (auto simp: untouched_def publish_item_def publishScript_def Let_def hashes_HSET hashes_DEL expiry_PEXPIREAT_other)
    (simp_all add: DEL_def)

lemma itemExpiry_eq: "itemExpiry endAt itemID = endAt + (300 + uint itemID mod 31) * second"
proof -
  have "word_of_int (go_div preheatJitterRange second) + 1 = (31 :: u64)" by (simp add: preheatJitterRange_def)
  moreover have "uint (31 :: u64) = 31" by simp
  ultimately show ?thesis unfolding itemExpiry_def Let_def by (simp only: uint_mod) (simp add: preheatGrace_def algebra_simps)
qed

lemma itemExpiry_after: "UnixMilli endAt < UnixMilli (itemExpiry endAt itemID)"
  and itemExpiry_in_i64: "datetime_ok endAt \<Longrightarrow> in_i64 (UnixMilli (itemExpiry endAt itemID))"
proof -
  define m where "m = uint itemID mod 31"
  have m: "0 \<le> m" "m < 31" by (simp_all add: m_def)
  have e: "UnixMilli (itemExpiry endAt itemID) = UnixMilli endAt + (300 + m) * 1000"
    by (simp add: itemExpiry_eq UnixMilli_def m_def algebra_simps)
  with m show "UnixMilli endAt < UnixMilli (itemExpiry endAt itemID)" by simp
  assume "datetime_ok endAt"
  then have "- 30610224000000000000 div 1000000 \<le> endAt div 1000000" "endAt div 1000000 \<le> 253402300800000000000 div 1000000"
    by (intro zdiv_mono1; simp add: datetime_ok_def)+
  with m show "in_i64 (UnixMilli (itemExpiry endAt itemID))" unfolding e by (simp add: UnixMilli_def in_i64_def max_i64_def)
qed

lemma publish_items_open:
  assumes un: "undisturbed env"
    and end_ok: "datetime_ok (a_EndAt a)" "int (clock r) \<le> UnixMilli (a_EndAt a)"
    and items: "\<forall>x \<in> set xs. in_i64 (i_AvailableStock x)" "distinct (map i_ID xs)"
    and run: "publish_items env k a xs p r = ((None, p'), r')"
  shows "(\<forall>x \<in> set xs. opened x r') \<and> (\<forall>j. j \<notin> i_ID ` set xs \<longrightarrow> untouched j r r') \<and>
    pr_ItemCount p' = pr_ItemCount p + length xs"
  using end_ok(2) items run
proof (induction xs arbitrary: k p r)
  case Nil
  then show ?case by (simp add: untouched_def)
next
  case (Cons x xs)
  obtain u r1 where c: "call (env k) (publish_item a x) r = (u, r1)" by fastforce
  from Cons.prems c have pub: "publishable a x" and u: "u \<noteq> Inl e" for e by (auto split: if_splits sum.splits)
  from Cons.prems c pub u obtain p1 where rest: "publish_items env (k + 1) a xs p1 r1 = ((None, p'), r')"
    "pr_ItemCount p1 = pr_ItemCount p + 1"
    by (cases u) (auto simp: Let_def split: sum.splits)
  have r1: "r1 = snd (publish_item a x r)"
    using c u un by (auto simp: call_def Let_def undisturbed_def split: outcome.splits)
  have av: "0 \<le> i_AvailableStock x" using pub by (auto simp: publishable_def)
  have cl: "int (clock r) < UnixMilli (itemExpiry (a_EndAt a) (i_ID x))"
    using Cons.prems(1) itemExpiry_after [of "a_EndAt a" "i_ID x"] by simp
  have "in_i64 (i_AvailableStock x)" using Cons.prems(2) by simp
  note live = publish_item_live [OF av this cl itemExpiry_in_i64 [OF end_ok(1)]]
  have x: "opened x r1" using live(2-5) by (simp add: opened_def r1)
  have other: "untouched j r r1" if "j \<noteq> i_ID x" for j
    unfolding r1 by (rule publish_item_untouched [OF that])
  from other [of "i_ID x + 1"] have "clock r1 = clock r" by (simp add: untouched_def)
  with Cons.prems have "int (clock r1) \<le> UnixMilli (a_EndAt a)" "\<forall>x \<in> set xs. in_i64 (i_AvailableStock x)" "distinct (map i_ID xs)"
    by simp_all
  from Cons.IH [OF this rest(1)] have IH: "\<forall>y \<in> set xs. opened y r'" "\<And>j. j \<notin> i_ID ` set xs \<Longrightarrow> untouched j r1 r'"
    "pr_ItemCount p' = pr_ItemCount p1 + length xs" by simp_all
  have "opened x r'" by (rule opened_untouched [OF IH(2) x]) (use Cons.prems(3) in simp)
  then show ?case using IH other rest(2) untouched_trans by fastforce
qed

section \<open>Enqueueing\<close>

lemma enqueue_queued:
  assumes "item_ok item r" and "ono \<noteq> []" and "0 \<le> ret" "in_i64 ret"
    and "enqueue item ret r u now ono = (Inr \<lparr>rv_OrderNo = n, rv_Replayed = False\<rparr>, r')"
  shows "n = ono \<and> HGET r' (StreamResultsKey item) ono = Some (FormatUint u @ ''|QUEUED'')"
proof -
  from assms(5) have "is_ready item r" by (auto simp: enqueue_def reserveAndEnqueueScript_def lua_reply_def is_ready_def
      split: if_splits option.splits)
  with assms(1) obtain stock e where live: "live item r stock e" by (auto simp: item_ok_def)
  note inv = enqueue_first_inv [OF assms(5) live]
  obtain act where act: "HGET r (StateKey item) ''activity_id'' = Some act"
    using assms(5) inv by (cases "HGET r (StateKey item) ''activity_id''")
      (auto simp: enqueue_def reserveAndEnqueueScript_def lua_reply_def is_ready_def split: if_splits option.splits)
  obtain r1 where "enqueue item ret r u now ono = (Inr \<lparr>rv_OrderNo = ono, rv_Replayed = False\<rparr>, r1)"
    "HGET r1 (StreamResultsKey item) ono = Some (FormatUint u @ ''|QUEUED'')"
    by (rule enqueue_first [OF live inv(1,3) assms(2-4) inv(2,4) act])
  with assms(5) show ?thesis by simp
qed

section \<open>Properties of activities\<close>

text \<open>C17: the order of the two stores when an activity changes its status. Whatever fails on the way, the table
  is changed to enabled only when no item of the activity is open in Redis any more; Redis is touched for a
  disabling only when the table already says disabled; and a change that is acknowledged has both.\<close>

theorem activation_fail_closed:
  assumes un: "undisturbed env" "undisturbed renv"
    and run: "SetActivityStatus items env renv activityID status (rows, r) = (res, rows', r')"
  shows "(status = StatusEnabled \<and> rows' \<noteq> rows \<longrightarrow>
        (\<exists>xs. items activityID = Inr xs \<and> (\<forall>x \<in> set xs. \<not> is_ready (i_ID x) r'))) \<and>
    (status = StatusDisabled \<and> r' \<noteq> r \<longrightarrow> rows' = with_status activityID StatusDisabled rows) \<and>
    (\<forall>i. \<not> is_ready i r \<longrightarrow> \<not> is_ready i r') \<and>
    (res = Inr () \<longrightarrow> rows' = with_status activityID status rows \<and> (\<exists>a \<in> set rows'. a_ID a = activityID) \<and>
        (\<exists>xs. items activityID = Inr xs \<and> (\<forall>x \<in> set xs. \<not> is_ready (i_ID x) r')))"
proof (cases "activityID = 0 \<or> (status \<noteq> StatusEnabled \<and> status \<noteq> StatusDisabled)")
  case True
  with run show ?thesis by (auto simp: SetActivityStatus_def)
next
  case valid: False
  obtain u rows1 where s: "Repository_SetStatus env activityID status rows = (u, rows1)" by fastforce
  note s' = SetStatus_undisturbed [OF un(1) s]
  show ?thesis
  proof (cases "items activityID")
    case (Inl err)
    with run s valid s' show ?thesis by (auto simp: SetActivityStatus_def split: if_splits sum.splits)
  next
    case (Inr xs)
    obtain e r1 where i: "InvalidateItems renv 0 r (itemIDs xs) = (e, r1)" by fastforce
    have i': "\<not> is_ready j r \<longrightarrow> \<not> is_ready j r1" "e = None \<longrightarrow> (\<forall>x \<in> set xs. \<not> is_ready (i_ID x) r1)" for j
      using InvalidateItems_closed [OF un(2) i] by (auto simp: itemIDs_def)
    from run s valid Inr i s' i' show ?thesis
      by (cases e; cases u) (auto simp: SetActivityStatus_def of_error_def split: if_splits)
  qed
qed

text \<open>A preheat opens exactly the items of an enabled activity that has not started. Redis is only changed
  when the activity is enabled and lies ahead; the activity table is only read; and after an acknowledged
  preheat each item is open with its available stock and without buyers.\<close>

theorem preheat_opens:
  assumes un: "undisturbed env" "undisturbed renv"
    and rows: "\<forall>a \<in> set rows. datetime_ok (a_EndAt a) \<and> int (clock r) \<le> UnixMilli (a_EndAt a)"
    and its: "\<forall>xs. items activityID = Inr xs \<longrightarrow> distinct (map i_ID xs) \<and> (\<forall>x \<in> set xs. in_i64 (i_AvailableStock x))"
    and run: "PreheatActivity items env renv now activityID (rows, r) = (res, rows', r')"
  shows "rows' = rows \<and>
    (r' \<noteq> r \<longrightarrow> (\<exists>a \<in> set rows. a_ID a = activityID \<and> a_Status a = StatusEnabled \<and> now < a_StartAt a)) \<and>
    (\<forall>p. res = Inr p \<longrightarrow> (\<exists>xs. items activityID = Inr xs \<and> xs \<noteq> [] \<and> pr_ItemCount p = length xs \<and> (\<forall>x \<in> set xs. opened x r') \<and>
       (\<forall>j. j \<notin> i_ID ` set xs \<longrightarrow> untouched j r r')))"
proof -
  obtain u rows1 where f: "FindActivity (env 0) activityID rows = (u, rows1)" by fastforce
  note f' = FindActivity_undisturbed [OF un(1) f]
  have rows': "rows' = rows"
    using run f f'(1) by (auto simp: PreheatActivity_def split: if_splits sum.splits prod.splits option.splits)
  show ?thesis
  proof (cases "r' = r \<and> (\<forall>p. res \<noteq> Inr p)")
    case True
    with rows' show ?thesis by simp
  next
    case False
    with run f f'(1) obtain a xs where a: "u = Inr a" "items activityID = Inr xs" "xs \<noteq> []" "a_Status a = StatusEnabled" "now < a_StartAt a" "activityID \<noteq> 0"
      by (auto simp: PreheatActivity_def split: if_splits sum.splits prod.splits option.splits)
    obtain e p r1 where p: "PublishActivity renv r \<lparr>ps_Activity = a, ps_Items = xs\<rparr> now = ((e, p), r1)" by (metis prod.exhaust)
    have res: "r' = r1" "res = (case e of None \<Rightarrow> Inr p | Some err \<Rightarrow> Inl err)"
      using run f a p by (auto simp: PreheatActivity_def split: if_splits option.splits)
    have "\<forall>x \<in> set xs. opened x r1" "\<And>j. j \<notin> i_ID ` set xs \<Longrightarrow> untouched j r r1" "pr_ItemCount p = length xs" if "e = None"
    proof -
      from that p have "\<exists>p0. publish_items renv 0 a xs p0 r = ((None, p), r1) \<and> pr_ItemCount p0 = 0"
        by (auto simp: PublishActivity_def Let_def split: if_splits)
      then obtain p0 where "publish_items renv 0 a xs p0 r = ((None, p), r1)" "pr_ItemCount p0 = 0" by blast
      with publish_items_open [OF un(2) _ _ _ _ this(1)] rows its f'(2) [OF a(1)] a(2)
      show "\<forall>x \<in> set xs. opened x r1" "\<And>j. j \<notin> i_ID ` set xs \<Longrightarrow> untouched j r r1" "pr_ItemCount p = length xs"
        by auto
    qed
    with rows' res a f'(2) [OF a(1)] show ?thesis by (auto split: option.splits)
  qed
qed

text \<open>What an accepted request answers can be asked for. After a first reservation, whatever failed and was
  retried inside it, the returned order number is queued for its user, and no other user can see it.\<close>

theorem enqueued_is_queued:
  assumes sha: "sha_ok L g" and un: "undisturbed env" and ok: "item_ok itemID r"
    and g: "g_client g" "in_i64 (g_streamRetention g)"
    and now: "0 \<le> UnixMilli now0" "in_i64 (UnixMilli now0)" and rnd: "\<forall>bs. rnd = Inr bs \<longrightarrow> length bs = 8"
    and run: "Enqueue L env now0 rnd userID itemID (g, r) = (Inr \<lparr>as_OrderNo = n, as_Replayed = False\<rparr>, g', r')"
  shows "GetProjectedResult (quiet 0) g' r' userID n = Inr (n, AsyncResultQueued) \<and>
    (\<forall>u. u \<noteq> userID \<longrightarrow> GetProjectedResult (quiet 0) g' r' u n = fail ErrAsyncResultNotFound)"
proof -
  define now where "now = Truncate now0 millisecond"
  have ms: "UnixMilli now = UnixMilli now0" by (simp add: now_def UnixMilli_Truncate)
  from run obtain ono bs where ono: "userID \<noteq> 0" "itemID \<noteq> 0" "newStreamOrderNo now itemID rnd = Inr ono" "rnd = Inr bs"
    by (cases rnd) (auto simp: Enqueue_def newStreamOrderNo_def now_def Let_def split: if_splits)
  let ?in = "\<lparr>ri_UserID = userID, ri_ItemID = itemID, ri_OrderNo = ono, ri_Now = now\<rparr>"
  from run ono have e: "ReserveAndEnqueue L env g r ?in = (Inr \<lparr>rv_OrderNo = n, rv_Replayed = False\<rparr>, g', r')"
    by (auto simp: Enqueue_def Let_def now_def split: prod.splits sum.splits if_splits)
  have quiet: "\<And>k. interference (env k) = id" using un by (simp add: undisturbed_def)
  obtain r3 where r3: "item_ok itemID r3" "0 < g_streamRetention g"
    "enqueue itemID (Milliseconds (g_streamRetention g)) r3 userID (UnixMilli now) ono = (Inr \<lparr>rv_OrderNo = n, rv_Replayed = False\<rparr>, r')"
    using ReserveAndEnqueue_effects [OF sha quiet _ g(2) e] ok by auto
  have "StreamOrderItemID ono = Some itemID"
    using StreamOrderItemID_text [of "UnixMilli now" itemID bs] now ono rnd ms
    by (auto simp: newStreamOrderNo_def split: if_splits)
  moreover have p: "printable ono" "ono \<noteq> []" using newStreamOrderNo_printable [OF ono(3)] by simp_all
  ultimately have id: "StreamOrderItemID ono = Some itemID" "TrimSpace ono = ono" by (simp_all add: TrimSpace_printable)
  have ret: "0 \<le> Milliseconds (g_streamRetention g)" "in_i64 (Milliseconds (g_streamRetention g))"
    using Milliseconds_pos [OF r3(2) g(2)] by simp_all
  have "n = ono \<and> HGET r' (StreamResultsKey itemID) ono = Some (FormatUint userID @ ''|QUEUED'')"
    by (rule enqueue_queued [OF r3(1) p(2) ret r3(3)])
  then have h: "HGET r' (StreamResultsKey itemID) (TrimSpace n) = Some (FormatUint userID @ ''|'' @ AsyncResultQueued)" "n = ono"
    using id by simp_all
  have "g_client g'" using ReserveAndEnqueue_gate [OF e] g(1) by simp
  from FindStreamResult_value [where ono = n, OF _ this _ h(1)] h(2) id ono(1) p(2) show ?thesis
    by (simp add: GetProjectedResult_def)
qed

section \<open>Witnesses\<close>

definition demo_disabled :: Activity where
  "demo_disabled = demo_activity\<lparr>a_Status := StatusDisabled\<rparr>"

theorem activation_fail_closed_witness:
  "\<exists>rows' r'. SetActivityStatus (\<lambda>_. Inr [demo_item]) quiet quiet 7 StatusEnabled ([demo_disabled], demo_redis) = (Inr (), rows', r') \<and>
     is_ready 42 demo_redis \<and> \<not> is_ready 42 r' \<and> rows' = [demo_activity]"
proof -
  have "Repository_SetStatus quiet 7 StatusEnabled [demo_disabled] = (Inr (), [demo_activity])"
    by (simp add: Repository_SetStatus_def status_stmt_def demo_disabled_def demo_activity_def)
  then obtain rows' r' where run: "SetActivityStatus (\<lambda>_. Inr [demo_item]) quiet quiet 7 StatusEnabled ([demo_disabled], demo_redis) =
      (Inr (), rows', r')"
    by (simp add: SetActivityStatus_def itemIDs_def demo_item_def del_item_def)
  from activation_fail_closed [OF quiet_ok(2) quiet_ok(2) run] have "\<not> is_ready 42 r'" "rows' = with_status 7 StatusEnabled [demo_disabled]"
    by (simp_all add: demo_item_def)
  with run demo_live(3) show ?thesis by (simp add: with_status_def demo_disabled_def demo_activity_def)
qed

theorem preheat_opens_witness:
  "\<exists>p r'. PreheatActivity (\<lambda>_. Inr [demo_item]) quiet quiet 500000000 7 ([demo_activity], empty_redis) = (Inr p, [demo_activity], r') \<and>
     pr_ItemCount p = 1 \<and> opened demo_item r'"
proof -
  have "publishable demo_activity demo_item" by (simp add: publishable_def demo_activity_def demo_item_def)
  moreover have "\<exists>x. fst (publish_item demo_activity demo_item empty_redis) = Inr x"
    by (simp add: publish_item_def publishScript_def Let_def)
  ultimately have "\<exists>p r'. PublishActivity quiet empty_redis \<lparr>ps_Activity = demo_activity, ps_Items = [demo_item]\<rparr> 500000000 = ((None, p), r')"
    by (auto simp: PublishActivity_def Let_def IsZero_def zero_time_def demo_activity_def time_UnixMilli_def split: prod.splits sum.splits)
  then obtain p r' where run: "PreheatActivity (\<lambda>_. Inr [demo_item]) quiet quiet 500000000 7 ([demo_activity], empty_redis) =
      (Inr p, [demo_activity], r')"
    by (auto simp: PreheatActivity_def FindActivity_def find_activity_def demo_activity_def time_UnixMilli_def)
  have rows: "\<forall>a \<in> set [demo_activity]. datetime_ok (a_EndAt a) \<and> int (clock empty_redis) \<le> UnixMilli (a_EndAt a)"
    by (simp add: demo_activity_def datetime_ok_def time_UnixMilli_def UnixMilli_def)
  have its: "\<forall>xs. (Inr [demo_item] :: Item list result) = Inr xs \<longrightarrow> distinct (map i_ID xs) \<and> (\<forall>x \<in> set xs. in_i64 (i_AvailableStock x))"
    by (auto simp: demo_item_def in_i64_def max_i64_def)
  from preheat_opens [OF quiet_ok(2) quiet_ok(2) rows its run] run show ?thesis by auto
qed

theorem enqueued_is_queued_witness:
  "\<exists>n g' r'. Enqueue demo_lib quiet 1500000000 (Inr [1, 2, 3, 4, 5, 6, 7, 8]) 5 42
      (demo_gate\<lparr>g_streamSHA := ''b2''\<rparr>, demo_redis\<lparr>scripts := [''b2'']\<rparr>) = (Inr \<lparr>as_OrderNo = n, as_Replayed = False\<rparr>, g', r') \<and>
    GetProjectedResult (quiet 0) g' r' 5 n = Inr (n, AsyncResultQueued) \<and>
    GetProjectedResult (quiet 0) g' r' 6 n = fail ErrAsyncResultNotFound"
proof -
  let ?g = "demo_gate\<lparr>g_streamSHA := ''b2''\<rparr>" and ?r = "demo_redis\<lparr>scripts := [''b2'']\<rparr>"
  have sha: "sha_ok demo_lib ?g" by (simp add: sha_ok_def demo_lib_def demo_gate_def)
  have un: "untouched 42 demo_redis ?r" by (simp add: untouched_def)
  have h: "HGET ?r = HGET demo_redis" by (simp add: HGET_def fun_eq_iff)
  have ok: "item_ok 42 ?r" and live: "live 42 ?r 1 313000" and ready: "is_ready 42 ?r"
    using untouched_observe [OF un] demo_live by (simp_all add: item_ok_def)
  obtain ono where ono: "newStreamOrderNo 1500000000 42 (Inr [1, 2, 3, 4, 5, 6, 7, 8]) = Inr ono"
    by (simp add: newStreamOrderNo_def IsZero_def zero_time_def)
  then have ne: "ono \<noteq> []" "printable ono" using newStreamOrderNo_printable by blast+
  have now: "Truncate 1500000000 millisecond = 1500000000" by (simp add: Truncate_def zero_time_def)
  have ret: "Milliseconds 86400000000000 = 86400000" by (simp add: Milliseconds_def)
  obtain r' where r': "enqueue 42 86400000 ?r 5 1500 ono = (Inr \<lparr>rv_OrderNo = ono, rv_Replayed = False\<rparr>, r')"
    by (rule enqueue_first [OF live ready _ ne(1), of 86400000 5 1500 "FormatUint 7"])
      (use demo_open [of 1500] in \<open>simp_all add: h demo_state in_i64_def max_i64_def\<close>)
  then obtain reply where reply: "reserveAndEnqueueScript ?r (StateKey 42) (BuyersKey 42) (StreamKey 42) (StreamResultsKey 42)
      (FormatUint 5) (FormatInt 1500) ono (FormatUint 42) (FormatInt 86400000) = (Inr reply, r')"
    "parseReservation reply = Inr \<lparr>rv_OrderNo = ono, rv_Replayed = False\<rparr>"
    by (auto simp: enqueue_def split: prod.splits sum.splits)
  have ev: "EVALSHA demo_lib ''b2'' [StateKey 42, BuyersKey 42, StreamKey 42, StreamResultsKey 42]
      [FormatUint 5, FormatInt 1500, ono, FormatUint 42, FormatInt 86400000] ?r = (Inr reply, r')"
    using EVALSHA_stream [OF sha, of 42 86400000 5 1500 ono ?r] reply
    by (simp add: stream_keys_def stream_args_def demo_lib_def)
  have run: "Enqueue demo_lib quiet 1500000000 (Inr [1, 2, 3, 4, 5, 6, 7, 8]) 5 42 (?g, ?r) =
      (Inr \<lparr>as_OrderNo = ono, as_Replayed = False\<rparr>, ?g, r')"
    using ev reply(2) ne
    by (simp add: Enqueue_def now ono ReserveAndEnqueue_def streamScriptSHA_def evalWithReload_def TrimSpace_printable
      demo_gate_def ret IsZero_def zero_time_def UnixMilli_def Let_def)
  have "GetProjectedResult (quiet 0) ?g r' 5 ono = Inr (ono, AsyncResultQueued) \<and>
    (\<forall>u. u \<noteq> 5 \<longrightarrow> GetProjectedResult (quiet 0) ?g r' u ono = fail ErrAsyncResultNotFound)"
    by (rule enqueued_is_queued [OF sha quiet_ok(2) ok _ _ _ _ _ run])
      (simp_all add: demo_gate_def in_i64_def max_i64_def UnixMilli_def)
  with run show ?thesis by (intro exI [of _ ono] exI [of _ ?g] exI [of _ r']) simp
qed

end
