(* ===== verification/Purchase.thy ===== *)
theory Purchase
  imports Catalog OrderRepo Activities
begin

text \<open>
  The single-database purchase (\<open>internal/seckill/mysqlrepo/repository.go\<close>): one transaction takes a unit of stock,
  writes the order and the claim of the user, in one of three locking strategies. The repository's other
  operations on activities and items are here too. All tables live in one database: \<open>shop\<close>. In the
  interval between the reads and the writes of a transaction that does not lock, other transactions may
  commit; a transaction that locks its rows when it reads them is one step.
\<close>

section \<open>Tables\<close>

text \<open>A row of \<open>seckill_order_claims\<close>, without its creation time.\<close>

record claim_row =
  cl_id :: u64
  cl_activity_id :: u64
  cl_seckill_item_id :: u64
  cl_user_id :: u64
  cl_order_id :: u64

record shop =
  sh_activities :: "Activity list"
  sh_inventory :: inventory_db
  sh_catalog :: catalog
  sh_orders :: order_db
  sh_claims :: "claim_row list"

abbreviation sh_items :: "shop \<Rightarrow> InventoryItem list" where "sh_items d \<equiv> inv_items (sh_inventory d)"

section \<open>The strategies\<close>

datatype StockMode = StockModeAtomic | StockModePessimistic | StockModeOptimistic | StockModeOther nat

abbreviation optimisticMaxAttempts :: nat where "optimisticMaxAttempts \<equiv> 32"

text \<open>
  \<open>strings.ToLower\<close> as far as it decides equality with an ASCII text: the two letters beyond ASCII whose lower
  case is ASCII are I with a dot above and the Kelvin sign.
\<close>

fun ToLower :: "string \<Rightarrow> string" where
  "ToLower [] = []"
| "ToLower (c # s) =
     (if of_char c = (0xC4 :: nat) \<and> s \<noteq> [] \<and> of_char (hd s) = (0xB0 :: nat) then CHR ''i'' # ToLower (tl s)
      else if of_char c = (0xE2 :: nat) \<and> take 2 s = map char_of [0x84 :: nat, 0xAA] then CHR ''k'' # ToLower (drop 2 s)
      else if 65 \<le> (of_char c :: nat) \<and> of_char c \<le> (90 :: nat) then char_of (of_char c + 32 :: nat) # ToLower s
      else c # ToLower s)"

definition ParseStockMode :: "string \<Rightarrow> StockMode result" where
  "ParseStockMode value0 = (let value = ToLower (TrimSpace value0) in
     if value = [] \<or> value = ''atomic'' then Inr StockModeAtomic
     else if value = ''pessimistic'' then Inr StockModePessimistic
     else if value = ''optimistic'' then Inr StockModeOptimistic
     else Inl (Plain ''unsupported seckill stock mode; use atomic, pessimistic, or optimistic''))"

definition StockMode_String :: "StockMode \<Rightarrow> string" where
  "StockMode_String m = (case m of
       StockModeAtomic \<Rightarrow> ''atomic'' | StockModePessimistic \<Rightarrow> ''pessimistic'' | StockModeOptimistic \<Rightarrow> ''optimistic''
     | StockModeOther n \<Rightarrow> ''unknown('' @ show_nat n @ '')'')"

section \<open>Activities and items\<close>

definition Legacy_CreateActivity ::
  "shop step_env \<Rightarrow> time \<Rightarrow> CreateActivityInput \<Rightarrow> shop \<Rightarrow> Activity result \<times> shop" where
  "Legacy_CreateActivity c dbnow input d =
     (let row = \<lparr>a_ID = 0, a_Name = ca_Name input, a_StartAt = ca_StartAt input, a_EndAt = ca_EndAt input,
            a_Status = StatusDisabled, a_CreatedAt = Truncate dbnow microsecond\<rparr> in
      case atomically c (\<lambda>d. case insert_activity row (sh_activities d) of (r, rows) \<Rightarrow> (r, d\<lparr>sh_activities := rows\<rparr>)) d of
        (Inl err, d') \<Rightarrow> (Inl (Wrapf ''insert seckill activity'' err), d')
      | (Inr i, d') \<Rightarrow> (Inr \<lparr>a_ID = i, a_Name = ca_Name input, a_StartAt = ca_StartAt input, a_EndAt = ca_EndAt input,
            a_Status = StatusDisabled, a_CreatedAt = zero_time\<rparr>, d'))"

definition activityExists :: "u64 \<Rightarrow> shop \<Rightarrow> bool" where
  "activityExists activityID d \<longleftrightarrow> (\<exists>a \<in> set (sh_activities d). a_ID a = activityID)"

definition Legacy_AddItem :: "shop env \<Rightarrow> time \<Rightarrow> AddItemInput \<Rightarrow> shop \<Rightarrow> Item result \<times> shop" where
  "Legacy_AddItem env dbnow input d = (case read_db (env 0) (activityExists (ai_ActivityID input)) d of
       (Inl err, d1) \<Rightarrow> (Inl (Wrapf ''find seckill activity'' err), d1)
     | (Inr False, d1) \<Rightarrow> (fail ErrActivityNotFound, d1)
     | (Inr True, d1) \<Rightarrow>
         (case read_db (env 1) (\<lambda>d. active_snapshot (ai_SKUID input) (sh_catalog d)) d1 of
            (Inl err, d2) \<Rightarrow> (Inl (Wrapf ''find active SKU for seckill'' err), d2)
          | (Inr None, d2) \<Rightarrow> (fail ErrInvalidArgument, d2)
          | (Inr (Some s), d2) \<Rightarrow>
              (let row = \<lparr>it_ID = 0, it_ActivityID = ai_ActivityID input,
                     it_Snapshot = \<lparr>fs_SKUID = ai_SKUID input, fs_ProductName = ss_ProductName s, fs_SKUCode = ss_SKUCode s,
                       fs_SKUName = ss_SKUName s, fs_UnitPriceCent = ss_PriceCent s\<rparr>,
                     it_InitialStock = ai_Stock input, it_AvailableStock = ai_Stock input, it_Version = 0,
                     it_CreatedAt = Truncate dbnow microsecond\<rparr> in
               case atomically (env 2) (\<lambda>d. case insert_item row (sh_inventory d) of (r, tables) \<Rightarrow> (r, d\<lparr>sh_inventory := tables\<rparr>)) d2 of
                 (Inl err, d3) \<Rightarrow> (Inl (mapConflict ''insert seckill item'' err), d3)
               | (Inr i, d3) \<Rightarrow> (Inr \<lparr>i_ID = i, i_ActivityID = ai_ActivityID input, i_SKUID = ai_SKUID input,
                     i_InitialStock = ai_Stock input, i_AvailableStock = ai_Stock input, i_Version = 0,
                     i_CreatedAt = zero_time\<rparr>, d3))))"

definition Legacy_SetActivityStatus :: "shop env \<Rightarrow> u64 \<Rightarrow> nat \<Rightarrow> shop \<Rightarrow> unit result \<times> shop" where
  "Legacy_SetActivityStatus env activityID status d =
     (case atomically (env 0) (\<lambda>d. case status_stmt activityID status (sh_activities d) of (r, rows) \<Rightarrow> (r, d\<lparr>sh_activities := rows\<rparr>)) d of
        (Inl err, d1) \<Rightarrow> (Inl (Wrapf ''set seckill activity status'' err), d1)
      | (Inr n, d1) \<Rightarrow>
          if 0 < n then (Inr (), d1)
          else (case read_db (env 1) (activityExists activityID) d1 of
              (Inl err, d2) \<Rightarrow> (Inl (Wrapf ''check seckill activity existence'' err), d2)
            | (Inr False, d2) \<Rightarrow> (fail ErrActivityNotFound, d2)
            | (Inr True, d2) \<Rightarrow> (Inr (), d2)))"

definition item_of :: "InventoryItem \<Rightarrow> Item" where
  "item_of i = \<lparr>i_ID = it_ID i, i_ActivityID = it_ActivityID i, i_SKUID = fs_SKUID (it_Snapshot i),
     i_InitialStock = it_InitialStock i, i_AvailableStock = it_AvailableStock i, i_Version = it_Version i,
     i_CreatedAt = it_CreatedAt i\<rparr>"

text \<open>The read-only transaction of a preheat sees one state of the tables.\<close>

definition LoadPreheatSnapshot :: "shop step_env \<Rightarrow> u64 \<Rightarrow> shop \<Rightarrow> PreheatSnapshot result \<times> shop" where
  "LoadPreheatSnapshot c activityID d =
     (if activityID = 0 then (fail ErrInvalidArgument, d)
      else (case read_db c (\<lambda>d. (find_activity activityID (sh_activities d),
            sort_key it_ID (filter (\<lambda>i. it_ActivityID i = activityID) (sh_items d)))) d of
          (Inl err, d') \<Rightarrow> (Inl (Wrapf ''load seckill preheat activity'' err), d')
        | (Inr (None, items), d') \<Rightarrow> (fail ErrActivityNotFound, d')
        | (Inr (Some a, items), d') \<Rightarrow>
            if items = [] then (fail ErrNoItems, d')
            else (Inr \<lparr>ps_Activity = a, ps_Items = map item_of items\<rparr>, d')))"

definition Legacy_ListStreamItemIDs :: "shop step_env \<Rightarrow> time \<Rightarrow> shop \<Rightarrow> u64 list result \<times> shop" where
  "Legacy_ListStreamItemIDs c dbnow d =
     (case read_db c (\<lambda>d. sort_key id (map it_ID (filter (\<lambda>i. \<exists>a \<in> set (sh_activities d). a_ID a = it_ActivityID i \<and>
          a_Status a = StatusEnabled \<and> dbnow < a_EndAt a) (sh_items d)))) d of
        (Inl err, d') \<Rightarrow> (Inl (Wrapf ''list stream seckill item IDs'' err), d')
      | (Inr ids, d') \<Rightarrow> (Inr ids, d'))"

section \<open>Orders and claims\<close>

text \<open>\<open>FindOwned\<close> of the order repository on the shared database: calls \<open>k\<close> and \<open>k + 1\<close> of the environment.\<close>

definition Shop_FindOwned :: "shop env \<Rightarrow> nat \<Rightarrow> u64 \<Rightarrow> u64 \<Rightarrow> shop \<Rightarrow> Order result \<times> shop" where
  "Shop_FindOwned env k userID orderID d =
     (case read_db (env k) (\<lambda>d. find (\<lambda>r. or_id r = orderID \<and> or_user_id r = userID) (od_orders (sh_orders d))) d of
        (Inl e, d1) \<Rightarrow> (Inl (Wrapf ''find owned order'' e), d1)
      | (Inr None, d1) \<Rightarrow> (fail ErrOrderNotFound, d1)
      | (Inr (Some r), d1) \<Rightarrow>
          (case read_db (env (k + 1)) (\<lambda>d. findItems (sh_orders d) (or_id r)) d1 of
             (Inl e, d2) \<Rightarrow> (Inl (Wrapf ''find order items'' e), d2)
           | (Inr items, d2) \<Rightarrow> (Inr (load_order r items), d2)))"

definition FindOrderOwned :: "shop env \<Rightarrow> u64 \<Rightarrow> string \<Rightarrow> shop \<Rightarrow> Order result \<times> shop" where
  "FindOrderOwned env userID orderNo d =
     (if userID = 0 \<or> TrimSpace orderNo = [] then (fail ErrAsyncResultNotFound, d)
      else (case read_db (env 0) (\<lambda>d. find (\<lambda>r. or_user_id r = userID \<and> or_order_no r = TrimSpace orderNo) (od_orders (sh_orders d))) d of
          (Inl err, d1) \<Rightarrow> (Inl (Wrapf ''find stream seckill order ID'' err), d1)
        | (Inr None, d1) \<Rightarrow> (fail ErrAsyncResultNotFound, d1)
        | (Inr (Some r), d1) \<Rightarrow>
            (case Shop_FindOwned env 1 userID (or_id r) d1 of
               (Inl err, d2) \<Rightarrow> (Inl (Wrapf ''find stream seckill order'' err), d2)
             | (Inr created, d2) \<Rightarrow> (Inr created, d2))))"

definition claims_of :: "u64 \<Rightarrow> shop \<Rightarrow> claim_row list" where
  "claims_of itemID d = filter (\<lambda>c. cl_seckill_item_id c = itemID) (sh_claims d)"

text \<open>Initial stock, available stock and number of claims of an item.\<close>

definition InspectItemState :: "shop step_env \<Rightarrow> u64 \<Rightarrow> shop \<Rightarrow> (int \<times> int \<times> int) result \<times> shop" where
  "InspectItemState c itemID d =
     (if itemID = 0 then (fail ErrInvalidArgument, d)
      else (case read_db c (\<lambda>d. map_option (\<lambda>i. (it_InitialStock i, it_AvailableStock i, int (length (claims_of itemID d))))
              (find (\<lambda>i. it_ID i = itemID) (sh_items d))) d of
          (Inl err, d') \<Rightarrow> (Inl (Wrapf ''inspect seckill MySQL state'' err), d')
        | (Inr None, d') \<Rightarrow> (fail ErrItemNotFound, d')
        | (Inr (Some s), d') \<Rightarrow> (Inr s, d')))"

definition findExistingPurchase :: "shop env \<Rightarrow> nat \<Rightarrow> u64 \<Rightarrow> u64 \<Rightarrow> shop \<Rightarrow> Order option result \<times> shop" where
  "findExistingPurchase env k userID itemID d =
     (case read_db (env k) (\<lambda>d. find (\<lambda>c. cl_user_id c = userID \<and> cl_seckill_item_id c = itemID) (sh_claims d)) d of
        (Inl err, d1) \<Rightarrow> (Inl (Wrapf ''find existing seckill claim'' err), d1)
      | (Inr None, d1) \<Rightarrow> (Inr None, d1)
      | (Inr (Some c), d1) \<Rightarrow>
          (case Shop_FindOwned env (k + 1) userID (cl_order_id c) d1 of
             (Inl err, d2) \<Rightarrow> (Inl (Wrapf ''load existing seckill order'' err), d2)
           | (Inr found, d2) \<Rightarrow> (Inr (Some found), d2)))"

section \<open>The purchase\<close>

record purchaseSnapshot =
  sn_activityID :: u64
  sn_skuID :: u64
  sn_activityFlag :: nat
  sn_startAt :: time
  sn_endAt :: time
  sn_productName :: string
  sn_skuCode :: string
  sn_skuName :: string
  sn_priceCent :: int
  sn_skuStatus :: nat
  sn_productState :: nat
  sn_stock :: int
  sn_version :: u64

definition loadPurchaseSnapshot :: "u64 \<Rightarrow> shop \<Rightarrow> purchaseSnapshot option" where
  "loadPurchaseSnapshot itemID d = (case find (\<lambda>i. it_ID i = itemID) (sh_items d) of
       None \<Rightarrow> None
     | Some i \<Rightarrow> (case find_activity (it_ActivityID i) (sh_activities d) of
           None \<Rightarrow> None
         | Some a \<Rightarrow> map_option (\<lambda>s. \<lparr>sn_activityID = it_ActivityID i, sn_skuID = fs_SKUID (it_Snapshot i),
               sn_activityFlag = a_Status a, sn_startAt = a_StartAt a, sn_endAt = a_EndAt a,
               sn_productName = ss_ProductName s, sn_skuCode = ss_SKUCode s, sn_skuName = ss_SKUName s,
               sn_priceCent = ss_PriceCent s, sn_skuStatus = ss_SKUStatus s, sn_productState = ss_ProductStatus s,
               sn_stock = it_AvailableStock i, sn_version = it_Version i\<rparr>)
             (sku_snapshot (fs_SKUID (it_Snapshot i)) (sh_catalog d))))"

text \<open>The two checks on the snapshot.\<close>

definition purchasable :: "time \<Rightarrow> purchaseSnapshot \<Rightarrow> bool" where
  "purchasable now sn \<longleftrightarrow> sn_activityFlag sn = StatusEnabled \<and> \<not> now < sn_startAt sn \<and> now < sn_endAt sn \<and>
     sn_skuStatus sn = StatusActive \<and> sn_productState sn = StatusActive"

text \<open>\<open>UPDATE seckill_items SET available_stock = available_stock - 1, version = version + 1 WHERE \<dots>\<close>.\<close>

definition take_unit :: "(InventoryItem \<Rightarrow> bool) \<Rightarrow> shop \<Rightarrow> nat result \<times> shop" where
  "take_unit cond d =
     (if \<exists>i \<in> set (sh_items d). cond i \<and> it_AvailableStock i \<le> 0 then (Inl (MySQLError ER_CHECK_CONSTRAINT_VIOLATED), d)
      else (Inr (length (filter cond (sh_items d))), d\<lparr>sh_inventory := (sh_inventory d)\<lparr>inv_items :=
        map (\<lambda>i. if cond i then i\<lparr>it_AvailableStock := it_AvailableStock i - 1, it_Version := it_Version i + 1\<rparr> else i) (sh_items d)\<rparr>\<rparr>))"

definition decrementStock :: "StockMode \<Rightarrow> u64 \<Rightarrow> purchaseSnapshot \<Rightarrow> shop \<Rightarrow> unit result \<times> shop" where
  "decrementStock mode itemID sn d =
     (let done' = (\<lambda>r. case r of
            (Inl err, d') \<Rightarrow> (Inl (Wrapf ''decrement seckill stock'' err), d')
          | (Inr rows, d') \<Rightarrow>
              if mode = StockModeOptimistic \<and> rows = 0 then (fail errOptimisticConflict, d')
              else if rows = 0 then (fail ErrOutOfStock, d') else (Inr (), d'))
      in case mode of
           StockModeAtomic \<Rightarrow> done' (take_unit (\<lambda>i. it_ID i = itemID \<and> 0 < it_AvailableStock i) d)
         | StockModePessimistic \<Rightarrow>
             if sn_stock sn \<le> 0 then (fail ErrOutOfStock, d) else done' (take_unit (\<lambda>i. it_ID i = itemID) d)
         | StockModeOptimistic \<Rightarrow>
             if sn_stock sn \<le> 0 then (fail ErrOutOfStock, d)
             else done' (take_unit (\<lambda>i. it_ID i = itemID \<and> 0 < it_AvailableStock i \<and> it_Version i = sn_version sn) d)
         | StockModeOther n \<Rightarrow> (Inl (Plain (''unsupported seckill stock mode '' @ show_nat n)), d))"

definition insert_seckill_item :: "u64 \<Rightarrow> OrderItem \<Rightarrow> order_db \<Rightarrow> u64 result \<times> order_db" where
  "insert_seckill_item orderID item d =
     (if oi_UnitPriceCent item < 0 \<or> oi_Quantity item \<le> 0 \<or> oi_SubtotalCent item < 0
      then (Inl (MySQLError ER_CHECK_CONSTRAINT_VIOLATED), d)
      else if table_full (od_items d) then (Inl (MySQLError ER_AUTOINC_READ_FAILED), d)
      else (Inr (next_id_in (od_items d)), d\<lparr>od_items := od_items d @ [(orderID, item\<lparr>oi_ID := next_id_in (od_items d)\<rparr>)]\<rparr>))"

definition insert_claim :: "claim_row \<Rightarrow> shop \<Rightarrow> unit result \<times> shop" where
  "insert_claim row d =
     (if \<exists>c \<in> set (sh_claims d). cl_order_id c = cl_order_id row \<or> (cl_activity_id c = cl_activity_id row \<and>
          cl_seckill_item_id c = cl_seckill_item_id row \<and> cl_user_id c = cl_user_id row)
      then (Inl (MySQLError ER_DUP_ENTRY), d)
      else if table_full (sh_claims d) then (Inl (MySQLError ER_AUTOINC_READ_FAILED), d)
      else (Inr (), d\<lparr>sh_claims := sh_claims d @ [row\<lparr>cl_id := next_id_in (sh_claims d)\<rparr>]\<rparr>))"

text \<open>The writes of a purchase, with the snapshot it read before.\<close>

definition purchase_writes ::
  "StockMode \<Rightarrow> u64 \<Rightarrow> u64 \<Rightarrow> string \<Rightarrow> time \<Rightarrow> purchaseSnapshot \<Rightarrow> shop \<Rightarrow> PurchaseResult result \<times> shop" where
  "purchase_writes mode userID itemID orderNo now sn d =
     (case decrementStock mode itemID sn d of
        (Inl e, d1) \<Rightarrow> (Inl e, d1)
      | (Inr _, d1) \<Rightarrow>
          (let createdAt = Truncate now microsecond;
               item = \<lparr>oi_ID = 0, oi_SKUID = sn_skuID sn, oi_ProductName = sn_productName sn, oi_SKUCode = sn_skuCode sn,
                 oi_SKUName = sn_skuName sn, oi_UnitPriceCent = sn_priceCent sn, oi_Quantity = 1, oi_SubtotalCent = sn_priceCent sn\<rparr>
           in case insert_order \<lparr>or_id = 0, or_order_no = orderNo, or_user_id = userID, or_status = 1,
                  or_total_amount_cent = sn_priceCent sn, or_created_at = createdAt\<rparr> (sh_orders d1) of
                (Inl err, _) \<Rightarrow> ((if isDuplicateKey err then fail errDuplicateClaim else Inl (Wrapf ''insert seckill order'' err)), d1)
              | (Inr orderID, orders1) \<Rightarrow>
                  (case insert_seckill_item orderID item orders1 of
                     (Inl err, _) \<Rightarrow> (Inl (Wrapf ''insert seckill order item'' err), d1)
                   | (Inr orderItemID, orders2) \<Rightarrow>
                       (case insert_claim \<lparr>cl_id = 0, cl_activity_id = sn_activityID sn, cl_seckill_item_id = itemID,
                            cl_user_id = userID, cl_order_id = orderID\<rparr> (d1\<lparr>sh_orders := orders2\<rparr>) of
                          (Inl err, d2) \<Rightarrow>
                            ((if isDuplicateKey err then fail errDuplicateClaim else Inl (Wrapf ''insert seckill order claim'' err)), d2)
                        | (Inr _, d2) \<Rightarrow>
                            (Inr \<lparr>pu_Order = \<lparr>o_ID = orderID, o_OrderNo = orderNo, o_UserID = userID, o_Status = 1,
                               o_TotalAmountCent = sn_priceCent sn, o_Items = [item\<lparr>oi_ID := orderItemID\<rparr>],
                               o_CreatedAt = createdAt\<rparr>, pu_Replayed = False\<rparr>, d2)))))"

text \<open>The transaction when it sees and changes one state of the tables.\<close>

definition purchase_tx ::
  "StockMode \<Rightarrow> u64 \<Rightarrow> u64 \<Rightarrow> string \<Rightarrow> time \<Rightarrow> shop \<Rightarrow> PurchaseResult result \<times> shop" where
  "purchase_tx mode userID itemID orderNo now d = (case loadPurchaseSnapshot itemID d of
       None \<Rightarrow> (fail ErrItemNotFound, d)
     | Some sn \<Rightarrow> if \<not> purchasable now sn then (fail ErrUnavailable, d)
         else purchase_writes mode userID itemID orderNo now sn d)"

definition purchaseOnce ::
  "StockMode \<Rightarrow> shop env \<Rightarrow> nat \<Rightarrow> u64 \<Rightarrow> u64 \<Rightarrow> string \<Rightarrow> time \<Rightarrow> shop \<Rightarrow> PurchaseResult result \<times> shop" where
  "purchaseOnce mode env k userID itemID orderNo now d =
     (if mode = StockModePessimistic then atomically (env k) (purchase_tx mode userID itemID orderNo now) d
      else (case read_db (env k) (loadPurchaseSnapshot itemID) d of
          (Inl err, d1) \<Rightarrow> (Inl (Wrapf ''load seckill purchase snapshot'' err), d1)
        | (Inr None, d1) \<Rightarrow> (fail ErrItemNotFound, d1)
        | (Inr (Some sn), d1) \<Rightarrow>
            if \<not> purchasable now sn then (fail ErrUnavailable, d1)
            else atomically (env (k + 1)) (purchase_writes mode userID itemID orderNo now sn) d1))"

text \<open>The pause before another optimistic attempt; \<open>ctx k d\<close> is the error of a context that ends within \<open>d\<close> of attempt \<open>k\<close>.\<close>

definition optimistic_delay :: "u64 \<Rightarrow> nat \<Rightarrow> int" where
  "optimistic_delay userID attempt = 2 ^ (if 4 < attempt then 4 else attempt) * 100 * microsecond +
     uint ((userID + of_nat attempt * 17) mod 7) * 50 * microsecond"

definition waitOptimisticRetry :: "(nat \<Rightarrow> int \<Rightarrow> goerr option) \<Rightarrow> u64 \<Rightarrow> nat \<Rightarrow> goerr option" where
  "waitOptimisticRetry ctx userID attempt = ctx attempt (optimistic_delay userID attempt)"

text \<open>The loop of attempts, \<open>left\<close> of them; attempt \<open>a\<close> makes the calls from \<open>3 + 5 * a\<close> of the environment.\<close>

fun purchase_attempts ::
  "StockMode \<Rightarrow> shop env \<Rightarrow> (nat \<Rightarrow> int \<Rightarrow> goerr option) \<Rightarrow> u64 \<Rightarrow> u64 \<Rightarrow> string \<Rightarrow> time \<Rightarrow> nat \<Rightarrow> nat \<Rightarrow> shop \<Rightarrow>
     PurchaseResult result \<times> shop" where
  "purchase_attempts mode env ctx userID itemID orderNo now 0 attempt d = (fail ErrInventoryBusy, d)"
| "purchase_attempts mode env ctx userID itemID orderNo now (Suc left) attempt d =
     (let k = 3 + 5 * attempt in
      case purchaseOnce mode env k userID itemID orderNo now d of
        (Inr created, d1) \<Rightarrow> (Inr created, d1)
      | (Inl err, d1) \<Rightarrow>
          if errors_Is err errDuplicateClaim then
            (case findExistingPurchase env (k + 2) userID itemID d1 of
               (Inl e, d2) \<Rightarrow> (Inl e, d2)
             | (Inr None, d2) \<Rightarrow> (Inl (Plain ''duplicate seckill claim without committed order''), d2)
             | (Inr (Some existing), d2) \<Rightarrow> (Inr \<lparr>pu_Order = existing, pu_Replayed = True\<rparr>, d2))
          else if errors_Is err errOptimisticConflict then
            (if left = 0 then (fail ErrInventoryBusy, d1)
             else (case waitOptimisticRetry ctx userID attempt of
                 Some e \<Rightarrow> (Inl e, d1)
               | None \<Rightarrow> purchase_attempts mode env ctx userID itemID orderNo now left (attempt + 1) d1))
          else (Inl err, d1))"

definition Repository_Purchase ::
  "StockMode \<Rightarrow> (nat \<Rightarrow> int \<Rightarrow> goerr option) \<Rightarrow> shop env \<Rightarrow> u64 \<Rightarrow> u64 \<Rightarrow> string \<Rightarrow> time \<Rightarrow> shop \<Rightarrow>
     PurchaseResult result \<times> shop" where
  "Repository_Purchase mode ctx env userID itemID orderNo now d = (case findExistingPurchase env 0 userID itemID d of
       (Inl e, d1) \<Rightarrow> (Inl e, d1)
     | (Inr (Some existing), d1) \<Rightarrow> (Inr \<lparr>pu_Order = existing, pu_Replayed = True\<rparr>, d1)
     | (Inr None, d1) \<Rightarrow>
         purchase_attempts mode env ctx userID itemID orderNo now
           (if mode = StockModeOptimistic then optimisticMaxAttempts else 1) 0 d1)"

section \<open>Invariant\<close>

definition claim_key :: "claim_row \<Rightarrow> u64 \<times> u64 \<times> u64" where
  "claim_key c = (cl_activity_id c, cl_seckill_item_id c, cl_user_id c)"

text \<open>
  Keys are unique; a claim belongs to an item of its activity and to an order of its user; and the units of an item
  are conserved: what is available and what is claimed make up the initial stock.
\<close>

definition shop_ok :: "shop \<Rightarrow> bool" where
  "shop_ok d \<longleftrightarrow> distinct (map it_ID (sh_items d)) \<and> tables_ok (sh_orders d) \<and>
     distinct (map claim_key (sh_claims d)) \<and> distinct (map cl_order_id (sh_claims d)) \<and>
     (\<forall>c \<in> set (sh_claims d).
        (\<exists>i \<in> set (sh_items d). it_ID i = cl_seckill_item_id c \<and> it_ActivityID i = cl_activity_id c) \<and>
        (\<exists>r \<in> set (od_orders (sh_orders d)). or_id r = cl_order_id c \<and> or_user_id r = cl_user_id c)) \<and>
     (\<forall>i \<in> set (sh_items d). 0 \<le> it_AvailableStock i \<and>
        it_AvailableStock i + int (length (claims_of (it_ID i) d)) = it_InitialStock i)"

text \<open>The evolution of the tables from a good state: claims and orders are only added, what an item froze stays.\<close>

definition shop_evolves :: "shop \<Rightarrow> shop \<Rightarrow> bool" where
  "shop_evolves d d' \<longleftrightarrow> (shop_ok d \<longrightarrow> shop_ok d' \<and> (\<exists>cs. sh_claims d' = sh_claims d @ cs) \<and>
     (\<exists>rs. od_orders (sh_orders d') = od_orders (sh_orders d) @ rs) \<and>
     (\<exists>xs. map frozen (sh_items d') = map frozen (sh_items d) @ xs))"

lemma shop_evolves_refl [simp]: "shop_evolves d d"
  by (simp add: shop_evolves_def)

lemma shop_evolves_trans: "shop_evolves a b \<Longrightarrow> shop_evolves b c \<Longrightarrow> shop_evolves a c"
  by (auto simp: shop_evolves_def)

text \<open>A snapshot agrees with the frozen facts of its item, and keeps agreeing.\<close>

definition agrees :: "u64 \<Rightarrow> purchaseSnapshot \<Rightarrow> shop \<Rightarrow> bool" where
  "agrees itemID sn d \<longleftrightarrow> (\<exists>i \<in> set (sh_items d). it_ID i = itemID \<and> it_ActivityID i = sn_activityID sn)"

lemma agrees_load: "loadPurchaseSnapshot itemID d = Some sn \<Longrightarrow> agrees itemID sn d"
  by (auto simp: loadPurchaseSnapshot_def agrees_def find_Some_iff split: option.splits)

lemma agrees_evolves:
  assumes "shop_evolves d d'" and "shop_ok d" and "agrees itemID sn d"
  shows "agrees itemID sn d'"
proof -
  from assms(3) obtain i where i: "i \<in> set (sh_items d)" "it_ID i = itemID" "it_ActivityID i = sn_activityID sn"
    by (auto simp: agrees_def)
  obtain more' where e: "map frozen (sh_items d') = map frozen (sh_items d) @ more'" using assms(1,2) by (auto simp: shop_evolves_def)
  have "frozen i \<in> set (map frozen (sh_items d'))" unfolding e using i(1) by simp
  then obtain j where "j \<in> set (sh_items d')" "frozen j = frozen i" by auto
  with i show ?thesis by (auto simp: agrees_def frozen_def)
qed

section \<open>A committed purchase\<close>

abbreviation taken :: "u64 \<Rightarrow> InventoryItem \<Rightarrow> InventoryItem" where
  "taken itemID i \<equiv> (if it_ID i = itemID then i\<lparr>it_AvailableStock := it_AvailableStock i - 1, it_Version := it_Version i + 1\<rparr> else i)"

lemma take_unit_success:
  assumes "take_unit cond d = (Inr n, d1)" and "n \<noteq> 0" and "\<And>i. cond i \<Longrightarrow> it_ID i = itemID"
    and "distinct (map it_ID (sh_items d))"
  shows "(\<exists>i \<in> set (sh_items d). it_ID i = itemID \<and> 0 < it_AvailableStock i) \<and>
    d1 = d\<lparr>sh_inventory := (sh_inventory d)\<lparr>inv_items := map (taken itemID) (sh_items d)\<rparr>\<rparr>"
proof -
  from assms(1) have pos: "\<forall>i \<in> set (sh_items d). cond i \<longrightarrow> 0 < it_AvailableStock i" and n: "n = length (filter cond (sh_items d))"
    and d1: "d1 = d\<lparr>sh_inventory := (sh_inventory d)\<lparr>inv_items :=
        map (\<lambda>i. if cond i then i\<lparr>it_AvailableStock := it_AvailableStock i - 1, it_Version := it_Version i + 1\<rparr> else i) (sh_items d)\<rparr>\<rparr>"
    by (auto simp: take_unit_def split: if_splits)
  from n assms(2) obtain i where i: "i \<in> set (sh_items d)" "cond i" by (auto simp: filter_empty_conv)
  have "cond j \<longleftrightarrow> it_ID j = itemID" if "j \<in> set (sh_items d)" for j
    using that i assms(3,4) by (metis distinct_map inj_onD)
  then have "map (\<lambda>i. if cond i then i\<lparr>it_AvailableStock := it_AvailableStock i - 1, it_Version := it_Version i + 1\<rparr> else i) (sh_items d) =
      map (taken itemID) (sh_items d)"
    by (intro map_cong refl) simp
  with i pos assms(3) d1 show ?thesis by auto
qed

lemma decrementStock_success:
  assumes "decrementStock mode itemID sn d = (Inr x, d1)" and "distinct (map it_ID (sh_items d))"
  shows "(\<exists>i \<in> set (sh_items d). it_ID i = itemID \<and> 0 < it_AvailableStock i) \<and>
    d1 = d\<lparr>sh_inventory := (sh_inventory d)\<lparr>inv_items := map (taken itemID) (sh_items d)\<rparr>\<rparr>"
proof -
  from assms(1) obtain cond n where "take_unit cond d = (Inr n, d1)" "n \<noteq> 0" "\<And>i. cond i \<Longrightarrow> it_ID i = itemID"
    by (cases mode) (auto simp: decrementStock_def Let_def split: if_splits sum.splits prod.splits)
  from take_unit_success [OF this assms(2)] show ?thesis .
qed

lemma purchase_writes_success:
  assumes run: "purchase_writes mode userID itemID orderNo now sn d = (Inr res, d')" and ids: "distinct (map it_ID (sh_items d))"
  obtains row it where "\<exists>i \<in> set (sh_items d). it_ID i = itemID \<and> 0 < it_AvailableStock i"
    and "sh_items d' = map (taken itemID) (sh_items d)"
    and "od_orders (sh_orders d') = od_orders (sh_orders d) @ [row]"
    and "od_items (sh_orders d') = od_items (sh_orders d) @ map (Pair (or_id row)) [it]"
    and "oi_ID it = next_id_in (od_items (sh_orders d))"
    and "sh_claims d' = sh_claims d @ [\<lparr>cl_id = next_id_in (sh_claims d), cl_activity_id = sn_activityID sn, cl_seckill_item_id = itemID,
       cl_user_id = userID, cl_order_id = or_id row\<rparr>]"
    and "or_id row = next_id_in (od_orders (sh_orders d))" and "or_order_no row = orderNo" and "or_user_id row = userID"
    and "\<not> table_full (od_orders (sh_orders d))" and "\<not> table_full (od_items (sh_orders d))"
    and "\<forall>r \<in> set (od_orders (sh_orders d)). or_order_no r \<noteq> orderNo"
    and "\<forall>c \<in> set (sh_claims d). cl_order_id c \<noteq> or_id row \<and> claim_key c \<noteq> (sn_activityID sn, itemID, userID)"
    and "res = \<lparr>pu_Order = load_order row [it], pu_Replayed = False\<rparr>"
    and "sh_activities d' = sh_activities d" and "sh_catalog d' = sh_catalog d"
proof -
  from run obtain d1 where dec: "decrementStock mode itemID sn d = (Inr (), d1)"
    by (auto simp: purchase_writes_def split: prod.splits sum.splits)
  note d1 = decrementStock_success [OF dec ids]
  show ?thesis
    by (rule that) (use run dec d1 in \<open>auto simp: purchase_writes_def insert_order_def insert_seckill_item_def insert_claim_def
      Let_def claim_key_def load_order_def split: if_splits prod.splits sum.splits\<close>)
qed

lemma tables_ok_snoc:
  assumes "tables_ok d" and "od_orders d' = od_orders d @ [row]" and "od_items d' = od_items d @ map (Pair (or_id row)) [it]"
    and "oi_ID it = next_id_in (od_items d)" and "or_id row = next_id_in (od_orders d)"
    and "\<not> table_full (od_orders d)" and "\<not> table_full (od_items d)" and "\<forall>r \<in> set (od_orders d). or_order_no r \<noteq> or_order_no row"
  shows "tables_ok d'"
proof -
  have "numbered (map or_id (od_orders d'))"
    using assms numbered_snoc [of "map or_id (od_orders d)"] by (simp add: tables_ok_def next_id_in_def)
  moreover have "numbered (item_ids d')"
    using assms numbered_snoc [of "item_ids d"] by (simp add: tables_ok_def next_id_in_def item_ids_def)
  ultimately show ?thesis using assms by (auto simp: tables_ok_def table_full_def)
qed

lemma shop_ok_writes:
  assumes ok: "shop_ok d" and agrees: "agrees itemID sn d"
    and run: "purchase_writes mode userID itemID orderNo now sn d = (Inr res, d')"
  shows "shop_ok d'" and "shop_evolves d d'"
proof -
  have ids: "distinct (map it_ID (sh_items d))" using ok by (simp add: shop_ok_def)
  obtain row it where w: "\<exists>i \<in> set (sh_items d). it_ID i = itemID \<and> 0 < it_AvailableStock i"
    "sh_items d' = map (taken itemID) (sh_items d)"
    "od_orders (sh_orders d') = od_orders (sh_orders d) @ [row]"
    "od_items (sh_orders d') = od_items (sh_orders d) @ map (Pair (or_id row)) [it]"
    "oi_ID it = next_id_in (od_items (sh_orders d))"
    "sh_claims d' = sh_claims d @ [\<lparr>cl_id = next_id_in (sh_claims d), cl_activity_id = sn_activityID sn, cl_seckill_item_id = itemID,
       cl_user_id = userID, cl_order_id = or_id row\<rparr>]"
    "or_id row = next_id_in (od_orders (sh_orders d))" "or_order_no row = orderNo" "or_user_id row = userID"
    "\<not> table_full (od_orders (sh_orders d))" "\<not> table_full (od_items (sh_orders d))"
    "\<forall>r \<in> set (od_orders (sh_orders d)). or_order_no r \<noteq> orderNo"
    "\<forall>c \<in> set (sh_claims d). cl_order_id c \<noteq> or_id row \<and> claim_key c \<noteq> (sn_activityID sn, itemID, userID)"
    by (rule purchase_writes_success [OF run ids]) blast
  have tables: "tables_ok (sh_orders d')"
    by (rule tables_ok_snoc [OF _ w(3-5,7,10,11)]) (use ok w(8,12) in \<open>simp_all add: shop_ok_def\<close>)
  have stock: "0 \<le> it_AvailableStock i \<and> it_AvailableStock i + int (length (claims_of (it_ID i) d')) = it_InitialStock i"
    if "i \<in> set (sh_items d')" for i
  proof -
    from that w(2) obtain j where j: "j \<in> set (sh_items d)" "i = taken itemID j" by auto
    have "it_ID j = itemID \<Longrightarrow> 0 < it_AvailableStock j" using w(1) j(1) ids by (metis distinct_map inj_onD)
    then show ?thesis using ok j by (auto simp: shop_ok_def claims_of_def w(6))
  qed
  have ref: "(\<exists>i \<in> set (sh_items d'). it_ID i = cl_seckill_item_id c \<and> it_ActivityID i = cl_activity_id c) \<and>
        (\<exists>r \<in> set (od_orders (sh_orders d')). or_id r = cl_order_id c \<and> or_user_id r = cl_user_id c)" if "c \<in> set (sh_claims d')" for c
  proof -
    from that agrees ok obtain i where "i \<in> set (sh_items d)" "it_ID i = cl_seckill_item_id c" "it_ActivityID i = cl_activity_id c"
      by (auto simp: w(6) agrees_def shop_ok_def)
    then have "\<exists>i \<in> set (sh_items d'). it_ID i = cl_seckill_item_id c \<and> it_ActivityID i = cl_activity_id c"
      by (intro bexI [of _ "taken itemID i"]) (auto simp: w(2))
    moreover have "\<exists>r \<in> set (od_orders (sh_orders d')). or_id r = cl_order_id c \<and> or_user_id r = cl_user_id c"
      using that ok w(9) by (auto simp: w(3,6) shop_ok_def)
    ultimately show ?thesis ..
  qed
  have "map it_ID (sh_items d') = map it_ID (sh_items d)" by (simp add: w(2))
  then have "distinct (map it_ID (sh_items d'))" using ids by simp
  moreover have "distinct (map claim_key (sh_claims d'))" "distinct (map cl_order_id (sh_claims d'))"
    using ok w(13) by (auto simp: shop_ok_def w(6) claim_key_def)
  ultimately show ok': "shop_ok d'" using tables stock ref by (simp add: shop_ok_def)
  have "map frozen (sh_items d') = map frozen (sh_items d)" by (simp add: w(2) frozen_def)
  with ok' w(3,6) show "shop_evolves d d'" by (simp add: shop_evolves_def)
qed

lemma purchase_tx_ok:
  assumes "shop_ok d" and "purchase_tx mode userID itemID orderNo now d = (Inr res, d')"
  shows "shop_ok d'" and "shop_evolves d d'"
proof -
  from assms(2) obtain sn where "loadPurchaseSnapshot itemID d = Some sn" "purchase_writes mode userID itemID orderNo now sn d = (Inr res, d')"
    by (auto simp: purchase_tx_def split: option.splits if_splits)
  with shop_ok_writes [OF assms(1) agrees_load] show "shop_ok d'" "shop_evolves d d'" by blast+
qed

section \<open>The tables evolve\<close>

definition shop_rely :: "shop env \<Rightarrow> bool" where
  "shop_rely env \<longleftrightarrow> (\<forall>k d. shop_evolves d (interference (env k) d))"

lemma atomically_cases:
  "atomically c body d = (res, d') \<Longrightarrow> d' = interference c d \<or> (\<exists>x. body (interference c d) = (Inr x, d'))"
  by (auto simp: atomically_def call_def Let_def split: outcome.splits prod.splits sum.splits)

lemma read_db_cases:
  "read_db c f d = (res, d') \<Longrightarrow> d' = interference c d \<and> (\<forall>x. res = Inr x \<longrightarrow> x = f (interference c d))"
  by (auto simp: read_db_def call_def Let_def split: outcome.splits)

lemma read_db_shop: "shop_rely env \<Longrightarrow> read_db (env k) f d = (x, d') \<Longrightarrow> shop_evolves d d'"
  by (auto simp: shop_rely_def dest: read_db_cases)

lemma findExisting_evolves:
  assumes "shop_rely env" and "findExistingPurchase env k userID itemID d = (x, d')"
  shows "shop_evolves d d'"
  using assms(2) unfolding findExistingPurchase_def Shop_FindOwned_def
  by (auto split: prod.splits sum.splits option.splits dest!: read_db_shop [OF assms(1)] intro: shop_evolves_trans)

lemma purchaseOnce_evolves:
  assumes rely: "shop_rely env" and ok: "shop_ok d" and run: "purchaseOnce mode env k userID itemID orderNo now d = (x, d')"
  shows "shop_evolves d d'"
proof (cases "mode = StockModePessimistic")
  case True
  with run have a: "atomically (env k) (purchase_tx mode userID itemID orderNo now) d = (x, d')" by (simp add: purchaseOnce_def)
  have e: "shop_evolves d (interference (env k) d)" using rely by (simp add: shop_rely_def)
  with ok have "shop_ok (interference (env k) d)" by (simp add: shop_evolves_def)
  with atomically_cases [OF a] purchase_tx_ok(2) e show ?thesis by (blast intro: shop_evolves_trans)
next
  case False
  obtain y d1 where r: "read_db (env k) (loadPurchaseSnapshot itemID) d = (y, d1)" by fastforce
  note e1 = read_db_shop [OF rely r]
  consider "d' = d1" | sn where "y = Inr (Some sn)" "atomically (env (k + 1)) (purchase_writes mode userID itemID orderNo now sn) d1 = (x, d')"
    using run r False by (auto simp: purchaseOnce_def split: sum.splits option.splits if_splits)
  then show ?thesis
  proof cases
    case 2
    have d1: "loadPurchaseSnapshot itemID d1 = Some sn" using read_db_cases [OF r] 2(1) by auto
    define d2 where "d2 = interference (env (k + 1)) d1"
    have e2: "shop_evolves d1 d2" using rely by (simp add: shop_rely_def d2_def)
    have "shop_ok d1" using ok e1 by (simp add: shop_evolves_def)
    then have "shop_ok d2" "agrees itemID sn d2" using e2 agrees_evolves [OF e2 _ agrees_load [OF d1]] by (simp_all add: shop_evolves_def)
    then have "d' = d2 \<or> shop_evolves d2 d'"
      using atomically_cases [OF 2(2)] shop_ok_writes(2) unfolding d2_def [symmetric] by blast
    with e1 e2 show ?thesis by (blast intro: shop_evolves_trans)
  qed (use e1 in simp)
qed

lemma purchase_attempts_evolves:
  assumes rely: "shop_rely env"
  shows "shop_ok d \<Longrightarrow> purchase_attempts mode env ctx userID itemID orderNo now left attempt d = (x, d') \<Longrightarrow> shop_evolves d d'"
proof (induction left arbitrary: attempt d)
  case (Suc left)
  obtain y d1 where o: "purchaseOnce mode env (3 + 5 * attempt) userID itemID orderNo now d = (y, d1)" by fastforce
  note e = purchaseOnce_evolves [OF rely Suc.prems(1) o]
  then have ok1: "shop_ok d1" using Suc.prems(1) by (simp add: shop_evolves_def)
  obtain z d2 where f: "findExistingPurchase env (3 + 5 * attempt + 2) userID itemID d1 = (z, d2)" by fastforce
  note ef = shop_evolves_trans [OF e findExisting_evolves [OF rely f]]
  have "d' = d1 \<or> d' = d2 \<or> purchase_attempts mode env ctx userID itemID orderNo now left (attempt + 1) d1 = (x, d')"
    using Suc.prems(2) o f by (auto simp: Let_def split: sum.splits option.splits if_splits)
  with Suc.IH [OF ok1] e ef show ?case by (blast intro: shop_evolves_trans)
qed simp

lemma Repository_Purchase_evolves:
  assumes rely: "shop_rely env" and ok: "shop_ok d" and run: "Repository_Purchase mode ctx env userID itemID orderNo now d = (x, d')"
  shows "shop_evolves d d'"
proof -
  obtain y d1 where f: "findExistingPurchase env 0 userID itemID d = (y, d1)" by fastforce
  note e = findExisting_evolves [OF rely f]
  then have "shop_ok d1" using ok by (simp add: shop_evolves_def)
  with run f e purchase_attempts_evolves [OF rely] show ?thesis
    by (auto simp: Repository_Purchase_def split: sum.splits option.splits intro: shop_evolves_trans)
qed

section \<open>Undisturbed purchases\<close>

lemma decrement_current:
  assumes ids: "distinct (map it_ID (sh_items d))" and load: "loadPurchaseSnapshot itemID d = Some sn"
    and mode: "mode \<in> {StockModeAtomic, StockModePessimistic, StockModeOptimistic}"
  shows "decrementStock mode itemID sn d =
    (if 0 < sn_stock sn then (Inr (), d\<lparr>sh_inventory := (sh_inventory d)\<lparr>inv_items := map (taken itemID) (sh_items d)\<rparr>\<rparr>)
     else (fail ErrOutOfStock, d))"
proof -
  from load obtain i where f: "find (\<lambda>i. it_ID i = itemID) (sh_items d) = Some i"
    and sn: "sn_stock sn = it_AvailableStock i" "sn_version sn = it_Version i"
    by (auto simp: loadPurchaseSnapshot_def split: option.splits)
  from f have "i \<in> set (sh_items d)" "it_ID i = itemID" by (auto simp: find_Some_iff)
  note i = this sn
  have unique: "j \<in> set (sh_items d) \<Longrightarrow> it_ID j = itemID \<longleftrightarrow> j = i" for j using i ids by (metis distinct_map inj_onD)
  have unit: "take_unit cond d = (Inr n, d\<lparr>sh_inventory := (sh_inventory d)\<lparr>inv_items := map (taken itemID) (sh_items d)\<rparr>\<rparr>) \<and> n \<noteq> 0"
    if "n = length (filter cond (sh_items d))" "0 < sn_stock sn" "cond i" "\<And>j. cond j \<Longrightarrow> it_ID j = itemID" for cond n
  proof -
    have "cond j \<longleftrightarrow> it_ID j = itemID" if "j \<in> set (sh_items d)" for j
      using that unique \<open>cond i\<close> \<open>\<And>j. cond j \<Longrightarrow> it_ID j = itemID\<close> by blast
    then have "map (\<lambda>i. if cond i then i\<lparr>it_AvailableStock := it_AvailableStock i - 1, it_Version := it_Version i + 1\<rparr> else i) (sh_items d) =
      map (taken itemID) (sh_items d)" by (intro map_cong refl) simp
    moreover have "\<not> (\<exists>j \<in> set (sh_items d). cond j \<and> it_AvailableStock j \<le> 0)"
      using that(2,4) unique i(3) by fastforce
    moreover have "n \<noteq> 0" using that(1,3) i(1) by (auto simp: filter_empty_conv)
    ultimately show ?thesis using that(1) by (simp add: take_unit_def)
  qed
  have none: "take_unit (\<lambda>i. it_ID i = itemID \<and> 0 < it_AvailableStock i) d = (Inr 0, d)" if "\<not> 0 < sn_stock sn"
  proof -
    have no: "\<not> (it_ID j = itemID \<and> 0 < it_AvailableStock j)" if "j \<in> set (sh_items d)" for j
      using that unique i(3) \<open>\<not> 0 < sn_stock sn\<close> by auto
    then have "filter (\<lambda>i. it_ID i = itemID \<and> 0 < it_AvailableStock i) (sh_items d) = []" by (simp add: filter_empty_conv)
    moreover have "map (\<lambda>i. if it_ID i = itemID \<and> 0 < it_AvailableStock i
        then i\<lparr>it_AvailableStock := it_AvailableStock i - 1, it_Version := it_Version i + 1\<rparr> else i) (sh_items d) = sh_items d"
      using no by (intro map_idI) auto
    ultimately show ?thesis by (auto simp: take_unit_def)
  qed
  show ?thesis
  proof (cases "0 < sn_stock sn")
    case True
    note u = unit [OF refl True, of "\<lambda>j. it_ID j = itemID \<and> 0 < it_AvailableStock j"] unit [OF refl True, of "\<lambda>j. it_ID j = itemID"]
      unit [OF refl True, of "\<lambda>j. it_ID j = itemID \<and> 0 < it_AvailableStock j \<and> it_Version j = sn_version sn"]
    from mode True i u show ?thesis
      by (auto simp: decrementStock_def Let_def)
  next
    case False
    with mode none show ?thesis by (auto simp: decrementStock_def Let_def)
  qed
qed

lemma purchase_tx_modes:
  assumes "shop_ok d" and "mode \<in> {StockModeAtomic, StockModePessimistic, StockModeOptimistic}"
  shows "purchase_tx mode userID itemID orderNo now d = purchase_tx StockModeAtomic userID itemID orderNo now d"
  using assms decrement_current [of d itemID _ mode] decrement_current [of d itemID _ StockModeAtomic]
  by (auto simp: purchase_tx_def purchase_writes_def shop_ok_def split: option.splits)

lemma purchase_tx_no_conflict:
  assumes "shop_ok d" and "purchase_tx mode userID itemID orderNo now d = (Inl e, d')"
  shows "\<not> errors_Is e errOptimisticConflict"
proof (cases mode)
  case (StockModeOther n)
  with assms(2) show ?thesis
    by (auto simp: purchase_tx_def purchase_writes_def decrementStock_def Let_def split: option.splits if_splits)
qed (use assms(2) decrement_current [of d itemID _ mode] assms(1) in \<open>auto simp: purchase_tx_def purchase_writes_def Let_def shop_ok_def
      insert_order_def insert_seckill_item_def insert_claim_def split: option.splits if_splits sum.splits prod.splits\<close>)

text \<open>What a committed purchase leaves is found by a repeated request, and cannot be committed again.\<close>

definition existing :: "u64 \<Rightarrow> u64 \<Rightarrow> shop \<Rightarrow> Order option" where
  "existing userID itemID d = map_option
     (\<lambda>c. let r = the (find (\<lambda>r. or_id r = cl_order_id c \<and> or_user_id r = userID) (od_orders (sh_orders d)))
          in load_order r (findItems (sh_orders d) (or_id r)))
     (find (\<lambda>c. cl_user_id c = userID \<and> cl_seckill_item_id c = itemID) (sh_claims d))"

lemma findExisting_quiet:
  assumes "shop_ok d"
  shows "findExistingPurchase quiet k userID itemID d = (Inr (existing userID itemID d), d)"
proof (cases "find (\<lambda>c. cl_user_id c = userID \<and> cl_seckill_item_id c = itemID) (sh_claims d)")
  case None
  then show ?thesis by (simp add: findExistingPurchase_def existing_def)
next
  case (Some c)
  then have "c \<in> set (sh_claims d)" "cl_user_id c = userID" by (auto simp: find_Some_iff)
  with assms have "\<exists>r \<in> set (od_orders (sh_orders d)). or_id r = cl_order_id c \<and> or_user_id r = userID"
    by (auto simp: shop_ok_def)
  then obtain r where "find (\<lambda>r. or_id r = cl_order_id c \<and> or_user_id r = userID) (od_orders (sh_orders d)) = Some r"
    by (cases "find (\<lambda>r. or_id r = cl_order_id c \<and> or_user_id r = userID) (od_orders (sh_orders d))") (auto simp: find_None_iff)
  with Some show ?thesis by (simp add: findExistingPurchase_def existing_def Shop_FindOwned_def)
qed

lemma purchase_tx_found:
  assumes ok: "shop_ok d" and tx: "purchase_tx mode userID itemID orderNo now d = (Inr x, d')" and new: "existing userID itemID d = None"
  shows "existing userID itemID d' = Some (pu_Order x)"
proof -
  have ids: "distinct (map it_ID (sh_items d))" using ok by (simp add: shop_ok_def)
  have ok': "shop_ok d'" by (rule purchase_tx_ok(1) [OF ok tx])
  from tx obtain sn where "purchase_writes mode userID itemID orderNo now sn d = (Inr x, d')"
    by (auto simp: purchase_tx_def split: option.splits if_splits)
  then obtain row it where w:
    "od_orders (sh_orders d') = od_orders (sh_orders d) @ [row]"
    "od_items (sh_orders d') = od_items (sh_orders d) @ map (Pair (or_id row)) [it]"
    "sh_claims d' = sh_claims d @ [\<lparr>cl_id = next_id_in (sh_claims d), cl_activity_id = sn_activityID sn, cl_seckill_item_id = itemID,
       cl_user_id = userID, cl_order_id = or_id row\<rparr>]"
    "or_id row = next_id_in (od_orders (sh_orders d))" "or_order_no row = orderNo" "or_user_id row = userID"
    "\<not> table_full (od_orders (sh_orders d))" "\<forall>r \<in> set (od_orders (sh_orders d)). or_order_no r \<noteq> orderNo"
    "x = \<lparr>pu_Order = load_order row [it], pu_Replayed = False\<rparr>"
    by (rule purchase_writes_success [OF _ ids]) blast
  have t: "tables_ok (sh_orders d)" "tables_ok (sh_orders d')" using ok ok' by (simp_all add: shop_ok_def)
  note f = written_found [OF t w(4,5,7,8,1,2)]
  have "find (\<lambda>c. cl_user_id c = userID \<and> cl_seckill_item_id c = itemID) (sh_claims d) = None"
    using new by (auto simp: existing_def)
  with f(1,3) show ?thesis by (simp add: existing_def w(3,6,9) find_append)
qed

lemma purchase_tx_once:
  assumes ok: "shop_ok d" and tx: "purchase_tx mode userID itemID orderNo now d = (Inr x, d1)"
  shows "purchase_tx mode userID itemID orderNo now' d1 \<noteq> (Inr y, d2)"
proof
  assume again: "purchase_tx mode userID itemID orderNo now' d1 = (Inr y, d2)"
  have ids: "distinct (map it_ID (sh_items d))" "distinct (map it_ID (sh_items d1))"
    using ok purchase_tx_ok(1) [OF ok tx] by (simp_all add: shop_ok_def)
  from tx obtain sn where w: "purchase_writes mode userID itemID orderNo now sn d = (Inr x, d1)"
    by (auto simp: purchase_tx_def split: option.splits if_splits)
  from again obtain sn' where w': "purchase_writes mode userID itemID orderNo now' sn' d1 = (Inr y, d2)"
    by (auto simp: purchase_tx_def split: option.splits if_splits)
  have "\<exists>r \<in> set (od_orders (sh_orders d1)). or_order_no r = orderNo"
    by (rule purchase_writes_success [OF w ids(1)]) simp
  moreover have "\<forall>r \<in> set (od_orders (sh_orders d1)). or_order_no r \<noteq> orderNo"
    by (rule purchase_writes_success [OF w' ids(2)]) blast
  ultimately show False by blast
qed

lemma purchaseOnce_quiet:
  "purchaseOnce mode quiet k userID itemID orderNo now d = (case purchase_tx mode userID itemID orderNo now d of
     (Inr x, d') \<Rightarrow> (Inr x, d') | (Inl e, _) \<Rightarrow> (Inl e, d))"
  by (auto simp: purchaseOnce_def purchase_tx_def split: option.splits)

lemma Repository_Purchase_quiet:
  assumes ok: "shop_ok d"
  shows "Repository_Purchase mode ctx quiet userID itemID orderNo now d = (case existing userID itemID d of
      Some x \<Rightarrow> (Inr \<lparr>pu_Order = x, pu_Replayed = True\<rparr>, d)
    | None \<Rightarrow> (case purchase_tx mode userID itemID orderNo now d of
          (Inr x, d') \<Rightarrow> (Inr x, d')
        | (Inl e, _) \<Rightarrow> (if errors_Is e errDuplicateClaim then Inl (Plain ''duplicate seckill claim without committed order'') else Inl e, d)))"
proof (cases "existing userID itemID d")
  case None
  obtain n where n: "(if mode = StockModeOptimistic then optimisticMaxAttempts else 1) = Suc n" by (cases mode) auto
  have "purchase_attempts mode quiet ctx userID itemID orderNo now (Suc n) 0 d = (case purchase_tx mode userID itemID orderNo now d of
          (Inr x, d') \<Rightarrow> (Inr x, d')
        | (Inl e, _) \<Rightarrow> (if errors_Is e errDuplicateClaim then Inl (Plain ''duplicate seckill claim without committed order'') else Inl e, d))"
    using findExisting_quiet [OF ok] None purchase_tx_no_conflict [OF ok, of mode userID itemID orderNo now]
    by (cases "purchase_tx mode userID itemID orderNo now d"; cases "fst (purchase_tx mode userID itemID orderNo now d)")
      (simp_all add: purchaseOnce_quiet Let_def)
  with None n findExisting_quiet [OF ok] show ?thesis by (simp add: Repository_Purchase_def)
qed (simp add: Repository_Purchase_def findExisting_quiet [OF ok])

lemma purchaseOnce_undisturbed:
  assumes un: "undisturbed env" and run: "purchaseOnce mode env k userID itemID orderNo now d = (res, d')"
  shows "d' = d \<or> (\<exists>x. purchase_tx mode userID itemID orderNo now d = (Inr x, d'))"
proof (cases "mode = StockModePessimistic")
  case True
  with run have "atomically (env k) (purchase_tx mode userID itemID orderNo now) d = (res, d')" by (simp add: purchaseOnce_def)
  from atomically_undisturbed(1) [OF un this] show ?thesis .
next
  case False
  obtain y d1 where r: "read_db (env k) (loadPurchaseSnapshot itemID) d = (y, d1)" by fastforce
  have d1: "d1 = d" "\<And>v. y = Inr v \<Longrightarrow> v = loadPurchaseSnapshot itemID d"
    using read_db_cases [OF r] un by (simp_all add: undisturbed_def)
  consider "d' = d1" | sn where "y = Inr (Some sn)" "purchasable now sn"
      "atomically (env (k + 1)) (purchase_writes mode userID itemID orderNo now sn) d1 = (res, d')"
    using run r False by (auto simp: purchaseOnce_def split: sum.splits option.splits if_splits)
  then show ?thesis
  proof cases
    case 2
    with atomically_undisturbed(1) [OF un 2(3)] d1(2) [OF 2(1), symmetric] show ?thesis by (auto simp: d1(1) purchase_tx_def)
  qed (simp add: d1(1))
qed

lemma findExisting_undisturbed:
  assumes un: "undisturbed env" and run: "findExistingPurchase env k userID itemID d = (res, d')"
  shows "d' = d" and "res = Inr None \<Longrightarrow> existing userID itemID d = None"
  using run un unfolding findExistingPurchase_def Shop_FindOwned_def existing_def undisturbed_def
  by (auto split: prod.splits sum.splits option.splits dest!: read_db_cases)

lemma purchase_attempts_undisturbed:
  assumes un: "undisturbed env"
  shows "shop_ok d \<Longrightarrow> purchase_attempts mode env ctx userID itemID orderNo now left attempt d = (x, d') \<Longrightarrow>
    d' = d \<or> (\<exists>y. purchase_tx mode userID itemID orderNo now d = (Inr y, d'))"
proof (induction left arbitrary: attempt d)
  case (Suc left)
  obtain y d1 where o: "purchaseOnce mode env (3 + 5 * attempt) userID itemID orderNo now d = (y, d1)" by fastforce
  note d1 = purchaseOnce_undisturbed [OF un o]
  obtain z d2 where f: "findExistingPurchase env (3 + 5 * attempt + 2) userID itemID d1 = (z, d2)" by fastforce
  have "d' = d1 \<or> purchase_attempts mode env ctx userID itemID orderNo now left (attempt + 1) d1 = (x, d')"
    using Suc.prems(2) o f findExisting_undisturbed(1) [OF un f] by (auto simp: Let_def split: sum.splits option.splits if_splits)
  moreover have "shop_ok d1" using d1 Suc.prems(1) purchase_tx_ok(1) by auto
  ultimately have "d' = d1 \<or> (\<exists>y. purchase_tx mode userID itemID orderNo now d1 = (Inr y, d'))" using Suc.IH by blast
  with d1 purchase_tx_once [OF Suc.prems(1)] show ?case by blast
qed simp

text \<open>A purchase is a recoverable write.\<close>

type_synonym purchase_request = "StockMode \<times> (nat \<Rightarrow> int \<Rightarrow> goerr option) \<times> u64 \<times> u64 \<times> string"

definition try_purchase :: "shop env \<Rightarrow> time \<Rightarrow> purchase_request \<Rightarrow> shop \<Rightarrow> PurchaseResult result \<times> shop" where
  "try_purchase env now = (\<lambda>(mode, ctx, userID, itemID, orderNo) d. Repository_Purchase mode ctx env userID itemID orderNo now d)"

lemma try_purchase_undisturbed:
  assumes un: "undisturbed env" and ok: "shop_ok d" and run: "Repository_Purchase mode ctx env userID itemID orderNo now d = (res, d')"
  shows "d' = d \<or> existing userID itemID d = None \<and> (\<exists>x. purchase_tx mode userID itemID orderNo now d = (Inr x, d'))"
proof -
  obtain y d1 where f: "findExistingPurchase env 0 userID itemID d = (y, d1)" by fastforce
  note f' = findExisting_undisturbed [OF un f]
  consider "d' = d1" | left where "y = Inr None" "purchase_attempts mode env ctx userID itemID orderNo now left 0 d1 = (res, d')"
    using run f by (auto simp: Repository_Purchase_def split: sum.splits option.splits)
  then show ?thesis
  proof cases
    case 2
    with purchase_attempts_undisturbed [OF un _ 2(2)] ok f' show ?thesis by auto
  qed (simp add: f')
qed

lemma try_purchase_quiet:
  assumes ok: "shop_ok d"
  obtains (found) x where "existing userID itemID d = Some x"
      "Repository_Purchase mode ctx quiet userID itemID orderNo now d = (Inr \<lparr>pu_Order = x, pu_Replayed = True\<rparr>, d)"
    | (committed) x d' where "existing userID itemID d = None" "purchase_tx mode userID itemID orderNo now d = (Inr x, d')"
      "Repository_Purchase mode ctx quiet userID itemID orderNo now d = (Inr x, d')"
    | (refused) e where "Repository_Purchase mode ctx quiet userID itemID orderNo now d = (Inl e, d)"
proof (cases "existing userID itemID d")
  case None
  obtain r d' where "purchase_tx mode userID itemID orderNo now d = (r, d')" by fastforce
  with None Repository_Purchase_quiet [OF ok, of mode ctx userID itemID orderNo now] that(2,3) show ?thesis
    by (cases r) (auto split: if_splits)
next
  case (Some x)
  with Repository_Purchase_quiet [OF ok, of mode ctx userID itemID orderNo now] that(1) show ?thesis by simp
qed

interpretation purchases: recoverable shop_ok shop_ok "\<lambda>_. True" try_purchase "\<lambda>x y. pu_Order y = pu_Order x"
proof (unfold_locales, goal_cases)
  case (1 d i env now)
  obtain mode ctx u it ono where i: "i = (mode, ctx, u, it, ono)" by (metis prod.exhaust)
  obtain res d' where r: "Repository_Purchase mode ctx env u it ono now d = (res, d')" by fastforce
  show ?case
    by (rule try_purchase_quiet [OF 1(1), of u it mode ctx ono now])
      (use try_purchase_undisturbed [OF 1(3,1) r] Repository_Purchase_quiet [OF 1(1), of mode ctx u it ono now] r in
        \<open>auto simp: try_purchase_def i\<close>)
next
  case (2 d i now e d')
  obtain mode ctx u it ono where i: "i = (mode, ctx, u, it, ono)" by (metis prod.exhaust)
  show ?case
    by (rule try_purchase_quiet [OF 2(1), of u it mode ctx ono now]) (use 2(3) in \<open>auto simp: try_purchase_def i\<close>)
next
  case (3 d i now x d' now')
  obtain mode ctx u it ono where i: "i = (mode, ctx, u, it, ono)" by (metis prod.exhaust)
  show ?case
  proof (rule try_purchase_quiet [OF 3(1), of u it mode ctx ono now])
    fix y assume "existing u it d = Some y"
      "Repository_Purchase mode ctx quiet u it ono now d = (Inr \<lparr>pu_Order = y, pu_Replayed = True\<rparr>, d)"
    with 3(3) Repository_Purchase_quiet [OF 3(1), of mode ctx u it ono now'] show ?thesis by (auto simp: try_purchase_def i)
  next
    fix y d1 assume y: "existing u it d = None" "purchase_tx mode u it ono now d = (Inr y, d1)"
      "Repository_Purchase mode ctx quiet u it ono now d = (Inr y, d1)"
    with 3(3) have d1: "d1 = d'" "y = x" by (simp_all add: try_purchase_def i)
    have "shop_ok d'" using purchase_tx_ok(1) [OF 3(1) y(2)] d1 by simp
    from Repository_Purchase_quiet [OF this, of mode ctx u it ono now'] purchase_tx_found [OF 3(1) y(2,1)] d1
    show ?thesis by (auto simp: try_purchase_def i)
  qed (use 3(3) in \<open>simp add: try_purchase_def i\<close>)
next
  case (4 d i now)
  obtain mode ctx u it ono where i: "i = (mode, ctx, u, it, ono)" by (metis prod.exhaust)
  have "shop_rely (quiet :: shop env)" by (simp add: shop_rely_def quiet_def)
  from Repository_Purchase_evolves [OF this 4(1)] show ?case
    using 4(1) by (metis (no_types, lifting) case_prod_conv i prod.collapse shop_evolves_def try_purchase_def)
qed simp_all

lemma distinct_claims:
  assumes ok: "shop_ok d"
  shows "distinct (map cl_user_id (claims_of i d))"
proof (rule distinct_map [THEN iffD2], intro conjI inj_onI)
  show "distinct (claims_of i d)" using ok by (auto simp: shop_ok_def claims_of_def distinct_map)
  fix x y assume xy: "x \<in> set (claims_of i d)" "y \<in> set (claims_of i d)" "cl_user_id x = cl_user_id y"
  have "\<exists>a \<in> set (sh_items d). it_ID a = i \<and> it_ActivityID a = cl_activity_id z" if "z \<in> set (claims_of i d)" for z
    using ok that by (auto simp: shop_ok_def claims_of_def)
  with xy obtain a b where ab: "a \<in> set (sh_items d)" "b \<in> set (sh_items d)" "it_ID a = it_ID b"
    and act: "it_ActivityID a = cl_activity_id x" "it_ActivityID b = cl_activity_id y"
    by metis
  have "a = b" using ok ab by (auto simp: shop_ok_def distinct_map inj_on_def)
  with act xy have "claim_key x = claim_key y" by (simp add: claim_key_def claims_of_def)
  with xy ok show "x = y" by (auto simp: shop_ok_def claims_of_def distinct_map inj_on_def)
qed

section \<open>Properties of the purchase\<close>

text \<open>C9: no strategy oversells. Whatever requests are made with whatever strategies, failures and other transactions
  in between (also between the read of a snapshot and the writes that use it), the claims of an item never
  exceed its initial stock, the rest is what the item shows as available, and no user has two claims of one
  item.\<close>

theorem purchase_no_oversell:
  assumes "shop_ok d" and "\<forall>(env, now, request) \<in> set reqs. shop_rely env"
    and "d' = foldl (\<lambda>d (env, now, request). snd (try_purchase env now request d)) d reqs"
  shows "shop_ok d' \<and> (\<forall>i \<in> set (sh_items d'). int (length (claims_of (it_ID i) d')) \<le> it_InitialStock i \<and>
      it_AvailableStock i = it_InitialStock i - int (length (claims_of (it_ID i) d')) \<and>
      distinct (map cl_user_id (claims_of (it_ID i) d')))"
proof -
  have step: "shop_ok d \<Longrightarrow> shop_rely env \<Longrightarrow> shop_ok (snd (try_purchase env now request d))" for env now request d
    using Repository_Purchase_evolves [of env d] by (cases request) (metis (no_types, lifting) case_prod_conv prod.collapse shop_evolves_def try_purchase_def)
  have "shop_ok d'"
    using assms
  proof (induction reqs arbitrary: d)
    case (Cons req reqs)
    then show ?case using step by (cases req) fastforce
  qed simp
  moreover have "distinct (map cl_user_id (claims_of i d'))" if ok': "shop_ok d'" for i
    by (rule distinct_claims [OF ok'])
  ultimately show ?thesis by (auto simp: shop_ok_def)
qed

text \<open>C14: the strategies are equivalent. On one state of the database, without failures, a purchase by optimistic or by
  pessimistic locking has the same answer and leaves the same tables as one by the atomic update.\<close>

theorem stock_modes_equivalent:
  assumes "shop_ok d" and "mode \<in> {StockModeAtomic, StockModePessimistic, StockModeOptimistic}"
  shows "Repository_Purchase mode ctx quiet userID itemID orderNo now d =
    Repository_Purchase StockModeAtomic ctx quiet userID itemID orderNo now d"
  by (simp add: Repository_Purchase_quiet [OF assms(1)] purchase_tx_modes [OF assms] split: option.splits)

text \<open>C15: a purchase is made once, however often it is tried. After any number of attempts in which anything may have
  failed, a clean retry leaves the tables as one clean attempt would have, and answers with the same order.\<close>

theorem purchase_retry_exactly_once:
  assumes "shop_ok d" and "\<forall>(env, now) \<in> set tries. undisturbed env"
    and "d1 = foldl (\<lambda>d (env, now). snd (try_purchase env now request d)) d tries"
    and "try_purchase quiet now request d1 = (res, d2)"
  shows "\<exists>t \<in> insert now (snd ` set tries). d2 = snd (try_purchase quiet t request d) \<and>
    (\<forall>x. fst (try_purchase quiet t request d) = Inr x \<longrightarrow> (\<exists>y. res = Inr y \<and> pu_Order y = pu_Order x))"
  by (rule purchases.retry_exactly_once [OF assms(1) _ assms(2-4)]) simp

section \<open>Witnesses\<close>

definition demo_shop :: shop where
  "demo_shop = \<lparr>sh_activities = [demo_activity], sh_inventory = demo_inventory,
     sh_catalog = \<lparr>ct_products = [\<lparr>p_ID = 1, p_Name = ''Phone'', p_Description = [], p_Status = StatusActive, p_SKUs = [], p_CreatedAt = 0\<rparr>],
       ct_skus = [(1, \<lparr>sk_ID = 3, sk_Code = ''P-1'', sk_Name = ''black'', sk_PriceCent = 9900, sk_Status = StatusActive\<rparr>)]\<rparr>,
     sh_orders = \<lparr>od_orders = [], od_items = [], od_outbox = []\<rparr>, sh_claims = []\<rparr>"

lemma demo_shop_ok: "shop_ok demo_shop"
  by (simp add: shop_ok_def demo_shop_def demo_inventory_def tables_ok_def claims_of_def item_ids_def)

text \<open>A context that never ends, a lost answer to the writes, and a rival whose purchase commits before them.\<close>

definition no_deadline :: "nat \<Rightarrow> int \<Rightarrow> goerr option" where
  "no_deadline = (\<lambda>_ _. None)"

definition lost_writes :: "shop env" where
  "lost_writes = (\<lambda>k. \<lparr>interference = id,
     outcome_of = (if k = 4 then Lost_after (Sentinel Context_DeadlineExceeded) else Done)\<rparr>)"

definition rival :: "shop env" where
  "rival = (\<lambda>k. \<lparr>interference = (if k = 4 then \<lambda>d. snd (Repository_Purchase StockModeAtomic no_deadline quiet 99 1 ''R'' 1500000000 d) else id),
     outcome_of = Done\<rparr>)"

lemma rival_rely: "shop_rely rival"
proof -
  have "shop_rely (quiet :: shop env)" by (simp add: shop_rely_def quiet_def)
  then have "shop_evolves d (snd (Repository_Purchase StockModeAtomic no_deadline quiet 99 1 ''R'' 1500000000 d))" for d
    by (cases "shop_ok d") (metis Repository_Purchase_evolves prod.collapse, simp add: shop_evolves_def)
  then show ?thesis by (simp add: shop_rely_def rival_def)
qed

lemma demo_purchase:
  assumes "time_UnixMilli 1000 \<le> now" and "now < time_UnixMilli 2000" and "valid_utf8 ono"
  shows "\<exists>x d. Repository_Purchase StockModeAtomic ctx quiet u 1 ono now demo_shop = (Inr x, d) \<and> o_OrderNo (pu_Order x) = ono \<and>
    length (sh_claims d) = 1"
proof -
  have day: "datetime_ok (Truncate now microsecond)"
  proof -
    obtain m where m: "(now - zero_time) mod microsecond = m" "0 \<le> m" "m < 1000" by simp
    have "Truncate now microsecond = now - m" by (simp add: Truncate_def m(1))
    with m assms show ?thesis by (simp add: datetime_ok_def time_UnixMilli_def)
  qed
  have sn: "loadPurchaseSnapshot 1 demo_shop = Some \<lparr>sn_activityID = 7, sn_skuID = 3, sn_activityFlag = StatusEnabled,
     sn_startAt = time_UnixMilli 1000, sn_endAt = time_UnixMilli 2000, sn_productName = ''Phone'', sn_skuCode = ''P-1'',
     sn_skuName = ''black'', sn_priceCent = 9900, sn_skuStatus = StatusActive, sn_productState = StatusActive, sn_stock = 1, sn_version = 0\<rparr>"
    by (simp add: loadPurchaseSnapshot_def demo_shop_def demo_inventory_def demo_snapshot_def demo_activity_def find_activity_def sku_snapshot_def)
  have none: "existing u 1 demo_shop = None" by (simp add: existing_def demo_shop_def)
  have ids: "distinct (map it_ID (sh_items demo_shop))" using demo_shop_ok by (simp add: shop_ok_def)
  have "\<exists>x d. purchase_tx StockModeAtomic u 1 ono now demo_shop = (Inr x, d) \<and> o_OrderNo (pu_Order x) = ono \<and> length (sh_claims d) = 1"
    using assms day decrement_current [OF ids sn, of StockModeAtomic]
    by (simp add: purchase_tx_def sn purchasable_def purchase_writes_def insert_order_def insert_seckill_item_def insert_claim_def
        table_full_def Let_def) (simp add: demo_shop_def)
  with none show ?thesis by (auto simp: Repository_Purchase_quiet [OF demo_shop_ok])
qed

theorem purchase_no_oversell_witness:
  "let d' = foldl (\<lambda>d (env, now, request). snd (try_purchase env now request d)) demo_shop
      [(rival, 1500000000, (StockModeOptimistic, no_deadline, 10, 1, ''A'')),
       (lost_writes, 1500000001, (StockModeAtomic, no_deadline, 11, 1, ''B'')),
       (quiet, 1500000002, (StockModePessimistic, no_deadline, 10, 1, ''A''))]
   in shop_ok d' \<and> (\<forall>i \<in> set (sh_items d'). int (length (claims_of (it_ID i) d')) \<le> it_InitialStock i)"
  using purchase_no_oversell [OF demo_shop_ok,
      of "[(rival, 1500000000, (StockModeOptimistic, no_deadline, 10, 1, ''A'')),
       (lost_writes, 1500000001, (StockModeAtomic, no_deadline, 11, 1, ''B'')),
       (quiet, 1500000002, (StockModePessimistic, no_deadline, 10, 1, ''A''))]", OF _ refl] rival_rely
  by (simp add: Let_def shop_rely_def lost_writes_def quiet_def)

theorem stock_modes_equivalent_witness:
  "Repository_Purchase StockModeOptimistic no_deadline quiet 10 1 ''A'' 1500000000 demo_shop =
     Repository_Purchase StockModeAtomic no_deadline quiet 10 1 ''A'' 1500000000 demo_shop \<and>
   (\<exists>x d. Repository_Purchase StockModeOptimistic no_deadline quiet 10 1 ''A'' 1500000000 demo_shop = (Inr x, d))"
  using stock_modes_equivalent [OF demo_shop_ok, of StockModeOptimistic no_deadline 10 1 "''A''" 1500000000]
    demo_purchase [of 1500000000 "''A''" no_deadline 10]
  by (auto simp: time_UnixMilli_def byte_def)

theorem purchase_retry_exactly_once_witness:
  "\<exists>d1 res d2 y. d1 = foldl (\<lambda>d (env, now). snd (try_purchase env now (StockModeAtomic, no_deadline, 10, 1, ''A'') d)) demo_shop
       [(lost_writes, 1500000000), (lost_writes, 1600000000)] \<and>
     try_purchase quiet 1700000000 (StockModeAtomic, no_deadline, 10, 1, ''A'') d1 = (res, d2) \<and> res = Inr y \<and>
     o_OrderNo (pu_Order y) = ''A'' \<and> length (sh_claims d2) = 1"
proof -
  let ?q = "(StockModeAtomic, no_deadline, 10, 1, ''A'') :: purchase_request"
  let ?d1 = "foldl (\<lambda>d (env, now). snd (try_purchase env now ?q d)) demo_shop [(lost_writes, 1500000000), (lost_writes, 1600000000)]"
  obtain res d2 where r: "try_purchase quiet 1700000000 ?q ?d1 = (res, d2)" by fastforce
  have un: "\<forall>(env, now) \<in> set [(lost_writes, 1500000000 :: time), (lost_writes, 1600000000)]. undisturbed env"
    by (simp add: undisturbed_def lost_writes_def)
  obtain t where t: "t \<in> {1700000000, 1500000000, 1600000000}" "d2 = snd (try_purchase quiet t ?q demo_shop)"
    "\<forall>x. fst (try_purchase quiet t ?q demo_shop) = Inr x \<longrightarrow> (\<exists>y. res = Inr y \<and> pu_Order y = pu_Order x)"
    using purchase_retry_exactly_once [OF demo_shop_ok un refl r] by auto
  have "time_UnixMilli 1000 \<le> t" "t < time_UnixMilli 2000" using t(1) by (auto simp: time_UnixMilli_def)
  moreover have "valid_utf8 ''A''" by (simp add: byte_def)
  ultimately have "\<exists>x d. Repository_Purchase StockModeAtomic no_deadline quiet 10 1 ''A'' t demo_shop = (Inr x, d) \<and>
      o_OrderNo (pu_Order x) = ''A'' \<and> length (sh_claims d) = 1" by (rule demo_purchase)
  with t(2,3) obtain y where "res = Inr y" "o_OrderNo (pu_Order y) = ''A''" "length (sh_claims d2) = 1"
    by (auto simp: try_purchase_def)
  with r show ?thesis by blast
qed

end
