(* ===== verification/Config.thy ===== *)
theory Config
  imports Pipeline Purchase
begin

text \<open>
  Configuration (\<open>internal/config\<close>): the records that the commands read from their files, their validation and the durations
  they stand for, the modes that are chosen at the start, and the addresses and service keys of the RPC servers and
  clients. The files are read by go-zero; its own part of a configuration shows with the fields that the code uses.
\<close>

section \<open>Go's addresses\<close>

fun IndexByte :: "string \<Rightarrow> char \<Rightarrow> nat option" where
  "IndexByte [] c = None"
| "IndexByte (x # s) c = (if x = c then Some 0 else map_option Suc (IndexByte s c))"

definition LastIndexByte :: "string \<Rightarrow> char \<Rightarrow> nat option" where
  "LastIndexByte s c = map_option (\<lambda>k. length s - 1 - k) (IndexByte (rev s) c)"

definition addrErr :: "string \<Rightarrow> string \<Rightarrow> 'a result" where
  "addrErr addr why = Inl (Plain (if addr = [] then why else ''address '' @ addr @ '': '' @ why))"

text \<open>\<open>net.SplitHostPort\<close>: the host and the two positions from which no further bracket may occur, then the port.\<close>

definition split_host :: "string \<Rightarrow> nat \<Rightarrow> (string \<times> nat \<times> nat) result" where
  "split_host hostport i =
     (if hd hostport = CHR ''['' then
        (case IndexByte hostport (CHR '']'') of
           None \<Rightarrow> addrErr hostport ''missing ']' in address''
         | Some e \<Rightarrow>
             if e + 1 = length hostport then addrErr hostport ''missing port in address''
             else if e + 1 = i then Inr (drop 1 (take e hostport), 1, e + 1)
             else if hostport ! (e + 1) = CHR '':'' then addrErr hostport ''too many colons in address''
             else addrErr hostport ''missing port in address'')
      else if CHR '':'' \<in> set (take i hostport) then addrErr hostport ''too many colons in address''
      else Inr (take i hostport, 0, 0))"

definition SplitHostPort :: "string \<Rightarrow> (string \<times> string) result" where
  "SplitHostPort hostport =
     (case LastIndexByte hostport (CHR '':'') of
        None \<Rightarrow> addrErr hostport ''missing port in address''
      | Some i \<Rightarrow>
          (case split_host hostport i of
             Inl e \<Rightarrow> Inl e
           | Inr (host, j, k) \<Rightarrow>
               if CHR ''['' \<in> set (drop j hostport) then addrErr hostport ''unexpected '[' in address''
               else if CHR '']'' \<in> set (drop k hostport) then addrErr hostport ''unexpected ']' in address''
               else Inr (host, drop (i + 1) hostport)))"

section \<open>Stores\<close>

record MySQLConfig =
  my_DataSource :: string
  my_MaxOpenConns :: int
  my_MaxIdleConns :: int
  my_ConnMaxLifetimeSeconds :: int

record AuthConfig =
  au_AccessSecret :: string
  au_AccessTTLSeconds :: int

record SeckillConfig =
  sk_StockMode :: string
  sk_AdmissionMode :: string
  sk_OrderMode :: string

record RedisConfig =
  rdc_Address :: string
  rdc_Username :: string
  rdc_Password :: string
  rdc_DB :: int
  rdc_DialTimeoutMilliseconds :: int
  rdc_OperationTimeoutMilliseconds :: int

text \<open>A count of units as a \<open>time.Duration\<close>; the product wraps around.\<close>

definition Duration :: "int \<Rightarrow> int \<Rightarrow> int" where
  "Duration n unit = wrap_i64 (n * unit)"

definition RedisConfig_DialTimeout :: "RedisConfig \<Rightarrow> int" where
  "RedisConfig_DialTimeout c = Duration (rdc_DialTimeoutMilliseconds c) millisecond"

definition RedisConfig_OperationTimeout :: "RedisConfig \<Rightarrow> int" where
  "RedisConfig_OperationTimeout c = Duration (rdc_OperationTimeoutMilliseconds c) millisecond"

definition RedisConfig_Validate :: "RedisConfig \<Rightarrow> goerr option" where
  "RedisConfig_Validate c =
     (if TrimSpace (rdc_Address c) = [] then Some (Plain ''redis address is required'')
      else if rdc_DB c < 0 then Some (Plain ''redis DB must not be negative'')
      else if rdc_DialTimeoutMilliseconds c \<le> 0 then Some (Plain ''redis dial timeout must be positive'')
      else if rdc_OperationTimeoutMilliseconds c \<le> 0 then Some (Plain ''redis operation timeout must be positive'')
      else None)"

definition validateMySQLConfig :: "MySQLConfig \<Rightarrow> goerr option" where
  "validateMySQLConfig c =
     (if my_DataSource c = [] then Some (Plain ''MySQL data source is required'')
      else if my_MaxOpenConns c \<le> 0 then Some (Plain ''MySQL max open connections must be positive'')
      else if my_MaxIdleConns c < 0 \<or> my_MaxOpenConns c < my_MaxIdleConns c
      then Some (Plain ''MySQL max idle connections must be between zero and max open connections'')
      else if my_ConnMaxLifetimeSeconds c \<le> 0 then Some (Plain ''MySQL connection lifetime must be positive'')
      else None)"

section \<open>The stream of orders\<close>

record RedisStreamConfig =
  st_ConsumerGroup :: string
  st_ConsumerPrefix :: string
  st_ConsumerConcurrency :: int
  st_BatchSize :: int
  st_BlockMilliseconds :: int
  st_ClaimIdleMilliseconds :: int
  st_DiscoveryIntervalMilliseconds :: int
  st_ShutdownTimeoutMilliseconds :: int
  st_MaxDeliveries :: int
  st_RetentionSeconds :: int

definition RedisStreamConfig_Validate :: "RedisStreamConfig \<Rightarrow> goerr option" where
  "RedisStreamConfig_Validate c =
     (if TrimSpace (st_ConsumerGroup c) = [] \<or> TrimSpace (st_ConsumerPrefix c) = []
      then Some (Plain ''redis stream consumer group and prefix are required'')
      else if st_ConsumerConcurrency c \<le> 0 \<or> st_BatchSize c \<le> 0 \<or> st_MaxDeliveries c \<le> 0
      then Some (Plain ''redis stream concurrency, batch size, and max deliveries must be positive'')
      else if st_BlockMilliseconds c \<le> 0 \<or> st_ClaimIdleMilliseconds c \<le> 0 \<or> st_DiscoveryIntervalMilliseconds c \<le> 0 \<or>
        st_ShutdownTimeoutMilliseconds c \<le> 0 \<or> st_RetentionSeconds c \<le> 0
      then Some (Plain ''redis stream time budgets and retention must be positive'')
      else None)"

definition st_Block :: "RedisStreamConfig \<Rightarrow> int" where
  "st_Block c = Duration (st_BlockMilliseconds c) millisecond"

definition st_ClaimIdle :: "RedisStreamConfig \<Rightarrow> int" where
  "st_ClaimIdle c = Duration (st_ClaimIdleMilliseconds c) millisecond"

definition st_DiscoveryInterval :: "RedisStreamConfig \<Rightarrow> int" where
  "st_DiscoveryInterval c = Duration (st_DiscoveryIntervalMilliseconds c) millisecond"

definition st_ShutdownTimeout :: "RedisStreamConfig \<Rightarrow> int" where
  "st_ShutdownTimeout c = Duration (st_ShutdownTimeoutMilliseconds c) millisecond"

definition st_Retention :: "RedisStreamConfig \<Rightarrow> int" where
  "st_Retention c = Duration (st_RetentionSeconds c) second"

text \<open>\<open>runtimeConfig\<close> of the orchestrator.\<close>

definition runtimeConfig :: "RedisStreamConfig \<Rightarrow> RuntimeConfig" where
  "runtimeConfig c = \<lparr>ConsumerGroup = st_ConsumerGroup c, ConsumerPrefix = st_ConsumerPrefix c,
     ConsumerConcurrency = st_ConsumerConcurrency c, BatchSize = st_BatchSize c, Block = st_Block c, ClaimIdle = st_ClaimIdle c,
     DiscoveryInterval = st_DiscoveryInterval c, ShutdownTimeout = st_ShutdownTimeout c, MaxDeliveries = st_MaxDeliveries c,
     Retention = st_Retention c\<rparr>"

section \<open>Modes\<close>

datatype AdmissionMode = AdmissionModeMySQL | AdmissionModeRedis
datatype OrderMode = OrderModeSync | OrderModeAsyncStream

definition ParseAdmissionMode :: "string \<Rightarrow> AdmissionMode result" where
  "ParseAdmissionMode value0 = (let value = Purchase.ToLower (TrimSpace value0) in
     if value = [] \<or> value = ''mysql'' then Inr AdmissionModeMySQL
     else if value = ''redis'' then Inr AdmissionModeRedis
     else Inl (Plain ''unsupported seckill admission mode; use mysql or redis''))"

definition AdmissionMode_String :: "AdmissionMode \<Rightarrow> string" where
  "AdmissionMode_String m = (case m of AdmissionModeMySQL \<Rightarrow> ''mysql'' | AdmissionModeRedis \<Rightarrow> ''redis'')"

definition ParseOrderMode :: "string \<Rightarrow> OrderMode result" where
  "ParseOrderMode value0 = (let value = Purchase.ToLower (TrimSpace value0) in
     if value = [] \<or> value = ''sync'' then Inr OrderModeSync
     else if value = ''async'' \<or> value = ''async-stream'' then Inr OrderModeAsyncStream
     else Inl (Plain ''unsupported seckill order mode; use sync or async-stream''))"

definition OrderMode_String :: "OrderMode \<Rightarrow> string" where
  "OrderMode_String m = (case m of OrderModeSync \<Rightarrow> ''sync'' | OrderModeAsyncStream \<Rightarrow> ''async-stream'')"

section \<open>RPC servers and clients\<close>

record RPCServerConfig =
  rps_Name :: string
  rps_ListenOn :: string
  rps_EtcdHosts :: "string list"
  rps_EtcdKey :: string
  rps_EtcdPass :: string
  rps_Timeout :: int

record RPCClientConfig =
  rpc_Endpoints :: "string list"
  rpc_Target :: string
  rpc_EtcdHosts :: "string list"
  rpc_EtcdKey :: string
  rpc_EtcdPass :: string
  rpc_Timeout :: int
  rpc_BalancerName :: string

fun validate_hosts :: "string list \<Rightarrow> goerr option" where
  "validate_hosts [] = None"
| "validate_hosts (host # hosts) =
     (if TrimSpace host = [] then Some (Plain ''etcd host must not be empty'') else validate_hosts hosts)"

definition validateEtcd :: "string list \<Rightarrow> string \<Rightarrow> goerr option" where
  "validateEtcd hosts key =
     (if hosts = [] then Some (Plain ''etcd hosts are required'')
      else (case validate_hosts hosts of
          Some e \<Rightarrow> Some e
        | None \<Rightarrow> if TrimSpace key = [] then Some (Plain ''etcd service key is required'') else None))"

definition validateListenOn :: "string \<Rightarrow> goerr option" where
  "validateListenOn value =
     (case SplitHostPort (TrimSpace value) of
        Inl err \<Rightarrow> Some (Wrapf ''rpc listen address must be host:port'' err)
      | Inr (host, portText) \<Rightarrow>
          if TrimSpace host = [] then Some (Plain ''rpc listen host is required'')
          else (case ParseInt portText of (port, err) \<Rightarrow>
            if err \<noteq> None \<or> port \<le> 0 \<or> 65535 < port then Some (Plain ''rpc listen port must be between 1 and 65535'')
            else None))"

definition RPCServerConfig_Validate :: "RPCServerConfig \<Rightarrow> goerr option" where
  "RPCServerConfig_Validate c =
     (if TrimSpace (rps_Name c) = [] then Some (Plain ''rpc server name is required'')
      else (case validateListenOn (rps_ListenOn c) of
          Some e \<Rightarrow> Some e
        | None \<Rightarrow> (case validateEtcd (rps_EtcdHosts c) (rps_EtcdKey c) of
              Some e \<Rightarrow> Some e
            | None \<Rightarrow> if rps_Timeout c \<le> 0 then Some (Plain ''rpc server timeout must be positive'') else None)))"

definition RPCClientConfig_Validate :: "RPCClientConfig \<Rightarrow> goerr option" where
  "RPCClientConfig_Validate c =
     (if rpc_Endpoints c \<noteq> [] \<or> TrimSpace (rpc_Target c) \<noteq> []
      then Some (Plain ''rpc client static endpoints and target are disabled; use etcd discovery'')
      else (case validateEtcd (rpc_EtcdHosts c) (rpc_EtcdKey c) of
          Some e \<Rightarrow> Some e
        | None \<Rightarrow> if rpc_Timeout c \<le> 0 then Some (Plain ''rpc client timeout must be positive'') else None))"

definition RPCServerConfig_SafeSummary :: "RPCServerConfig \<Rightarrow> string" where
  "RPCServerConfig_SafeSummary c = ''name='' @ rps_Name c @ '' listen='' @ rps_ListenOn c @ '' etcd_key='' @ rps_EtcdKey c @
     '' etcd_hosts='' @ FormatInt (int (length (rps_EtcdHosts c))) @ '' timeout_ms='' @ FormatInt (rps_Timeout c)"

definition RPCClientConfig_SafeSummary :: "RPCClientConfig \<Rightarrow> string" where
  "RPCClientConfig_SafeSummary c = ''etcd_key='' @ rpc_EtcdKey c @ '' etcd_hosts='' @ FormatInt (int (length (rpc_EtcdHosts c))) @
     '' timeout_ms='' @ FormatInt (rpc_Timeout c) @ '' balancer='' @ rpc_BalancerName c"

section \<open>Splitting and joining an address\<close>

lemma IndexByte_Some: "IndexByte s c = Some i \<longleftrightarrow> (\<exists>a b. s = a @ c # b \<and> c \<notin> set a \<and> i = length a)"
proof (induction s arbitrary: i)
  case (Cons x s)
  show ?case
  proof
    assume "IndexByte (x # s) c = Some i"
    then show "\<exists>a b. x # s = a @ c # b \<and> c \<notin> set a \<and> i = length a"
    proof (cases "x = c")
      case True
      with \<open>IndexByte (x # s) c = Some i\<close> show ?thesis by (intro exI [of _ "[]"] exI [of _ s]) simp
    next
      case False
      with \<open>IndexByte (x # s) c = Some i\<close> obtain k where k: "i = Suc k" "IndexByte s c = Some k" by auto
      from Cons.IH [THEN iffD1, OF k(2)] obtain a b where "s = a @ c # b" "c \<notin> set a" "i = Suc (length a)" using k(1) by blast
      with False show ?thesis by (intro exI [of _ "x # a"] exI [of _ b]) simp
    qed
  next
    assume "\<exists>a b. x # s = a @ c # b \<and> c \<notin> set a \<and> i = length a"
    then obtain a b where ab: "x # s = a @ c # b" "c \<notin> set a" "i = length a" by blast
    then show "IndexByte (x # s) c = Some i"
    proof (cases a)
      case (Cons y a')
      then have "IndexByte s c = Some (length a')" using ab Cons.IH [of "length a'"] by auto
      with Cons ab show ?thesis by auto
    qed simp
  qed
qed simp

lemma IndexByte_None: "IndexByte s c = None \<longleftrightarrow> c \<notin> set s"
  by (induction s) auto

lemma LastIndexByte_Some: "LastIndexByte s c = Some i \<longleftrightarrow> (\<exists>a b. s = a @ c # b \<and> c \<notin> set b \<and> i = length a)"
proof
  assume "LastIndexByte s c = Some i"
  then obtain k where k: "IndexByte (rev s) c = Some k" "i = length s - 1 - k" by (auto simp: LastIndexByte_def)
  then obtain a b where "rev s = a @ c # b" "c \<notin> set a" "k = length a" by (auto simp: IndexByte_Some)
  then have "s = rev b @ c # rev a" by (metis append.assoc append_Cons append_Nil rev.simps(2) rev_append rev_rev_ident)
  with k \<open>k = length a\<close> \<open>c \<notin> set a\<close> show "\<exists>a b. s = a @ c # b \<and> c \<notin> set b \<and> i = length a"
    by (intro exI [of _ "rev b"] exI [of _ "rev a"]) simp
next
  assume "\<exists>a b. s = a @ c # b \<and> c \<notin> set b \<and> i = length a"
  then obtain a b where ab: "s = a @ c # b" "c \<notin> set b" "i = length a" by blast
  then have "IndexByte (rev s) c = Some (length b)"
    unfolding IndexByte_Some by (intro exI [of _ "rev b"] exI [of _ "rev a"]) simp
  with ab show "LastIndexByte s c = Some i" by (simp add: LastIndexByte_def)
qed

lemma LastIndexByte_snoc: "c \<notin> set b \<Longrightarrow> LastIndexByte (a @ c # b) c = Some (length a)"
  by (auto simp: LastIndexByte_Some)

lemma IndexByte_app: "c \<notin> set a \<Longrightarrow> IndexByte (a @ c # b) c = Some (length a)"
  by (auto simp: IndexByte_Some)

definition clean :: "string \<Rightarrow> bool" where
  "clean s \<longleftrightarrow> CHR '':'' \<notin> set s \<and> CHR ''['' \<notin> set s \<and> CHR '']'' \<notin> set s"

lemma SplitHostPort_join:
  assumes "clean port"
  shows "clean host \<Longrightarrow> SplitHostPort (host @ CHR '':'' # port) = Inr (host, port)"
    and "CHR ''['' \<notin> set host \<Longrightarrow> CHR '']'' \<notin> set host \<Longrightarrow> SplitHostPort (CHR ''['' # host @ CHR '']'' # CHR '':'' # port) = Inr (host, port)"
proof -
  show "SplitHostPort (host @ CHR '':'' # port) = Inr (host, port)" if h: "clean host"
  proof -
    have "hd (host @ CHR '':'' # port) \<noteq> CHR ''[''" using h by (cases host) (auto simp: clean_def)
    with h assms show ?thesis by (simp add: SplitHostPort_def LastIndexByte_snoc split_host_def clean_def)
  qed
  show "SplitHostPort (CHR ''['' # host @ CHR '']'' # CHR '':'' # port) = Inr (host, port)"
    if h: "CHR ''['' \<notin> set host" "CHR '']'' \<notin> set host"
  proof -
    let ?hp = "CHR ''['' # host @ CHR '']'' # CHR '':'' # port"
    have i: "LastIndexByte ?hp (CHR '':'') = Some (length host + 2)"
      using LastIndexByte_snoc [of "CHR '':''" port "CHR ''['' # host @ [CHR '']'']"] assms by (simp add: clean_def)
    have e: "IndexByte ?hp (CHR '']'') = Some (length host + 1)"
      using IndexByte_app [of "CHR '']''" "CHR ''['' # host"] h by simp
    have sp: "split_host ?hp (length host + 2) = Inr (host, 1, length host + 2)"
      unfolding split_host_def e by simp
    show ?thesis unfolding SplitHostPort_def i using h assms by (simp add: sp [simplified] clean_def)
  qed
qed

lemma SplitHostPort_parts:
  assumes "SplitHostPort hp = Inr (host, port)"
  shows "clean port \<and> (hp = host @ CHR '':'' # port \<and> clean host \<or>
    hp = CHR ''['' # host @ CHR '']'' # CHR '':'' # port \<and> CHR ''['' \<notin> set host \<and> CHR '']'' \<notin> set host)"
proof -
  obtain i where i: "LastIndexByte hp (CHR '':'') = Some i"
    using assms by (auto simp: SplitHostPort_def addrErr_def split: option.splits)
  then obtain a b where ab: "hp = a @ CHR '':'' # b" "CHR '':'' \<notin> set b" "i = length a" by (auto simp: LastIndexByte_Some)
  obtain j k where jk: "split_host hp i = Inr (host, j, k)" "CHR ''['' \<notin> set (drop j hp)" "CHR '']'' \<notin> set (drop k hp)"
    "port = drop (i + 1) hp"
    using assms i by (auto simp: SplitHostPort_def addrErr_def split: sum.splits if_splits)
  have port: "port = b" using jk(4) ab by simp
  show ?thesis
  proof (cases "hd hp = CHR ''[''")
    case False
    then have "host = a" "j = 0" "k = 0" "CHR '':'' \<notin> set a"
      using jk(1) ab by (auto simp: split_host_def addrErr_def split: if_splits)
    with ab jk(2,3) port show ?thesis by (simp add: clean_def)
  next
    case True
    then obtain e where e: "IndexByte hp (CHR '']'') = Some e" "e + 1 = i" "host = drop 1 (take e hp)" "j = 1" "k = e + 1"
    proof (cases "IndexByte hp (CHR '']'')")
      case None
      with jk(1) True show ?thesis by (simp add: split_host_def addrErr_def)
    next
      case (Some e)
      have "split_host hp i \<noteq> Inr (host, j, k)" if "e + 1 \<noteq> i"
        using that True by (simp add: split_host_def addrErr_def Some)
      then have "e + 1 = i" using jk(1) by blast
      have "i < length hp" by (simp add: ab(1,3))
      with \<open>e + 1 = i\<close> have "e + 1 \<noteq> length hp" by simp
      then have "host = drop 1 (take e hp) \<and> j = 1 \<and> k = e + 1"
        using jk(1) True \<open>e + 1 = i\<close> unfolding split_host_def Some by auto
      with Some \<open>e + 1 = i\<close> that show ?thesis by blast
    qed
    from e(1) obtain c d where cd: "hp = c @ CHR '']'' # d" "CHR '']'' \<notin> set c" "e = length c" by (auto simp: IndexByte_Some)
    then have "hp ! e = CHR '']''" by simp
    obtain c' where c': "c = CHR ''['' # c'"
      using True cd(1) by (cases c) auto
    have d: "d = CHR '':'' # b"
    proof -
      have "a @ CHR '':'' # b = (c @ [CHR '']'']) @ d" using ab(1) cd(1) by simp
      moreover have "length a = length (c @ [CHR '']''])" using ab(3) cd(3) e(2) by simp
      ultimately have "CHR '':'' # b = d" unfolding append_eq_append_conv_if by simp
      then show ?thesis ..
    qed
    have "host = c'" using e(3) cd c' by simp
    moreover have "CHR ''['' \<notin> set c'" "CHR ''['' \<notin> set b" "CHR '']'' \<notin> set b"
      using jk(2,3) e(4,5) cd(1,3) c' d by auto
    ultimately show ?thesis using cd(1,2) c' d ab(2) port by (simp add: clean_def)
  qed
qed

section \<open>What a validated configuration means\<close>

lemma Duration_exact: "0 \<le> n \<Longrightarrow> 0 < unit \<Longrightarrow> n \<le> max_i64 div unit \<Longrightarrow> Duration n unit = n * unit"
proof -
  assume a: "0 \<le> n" "0 < unit" "n \<le> max_i64 div unit"
  have "n * unit \<le> max_i64 div unit * unit" using a by (intro mult_right_mono) simp_all
  also have "\<dots> \<le> max_i64" using a div_mult_mod_eq [of max_i64 unit] pos_mod_sign [of unit max_i64] by linarith
  finally have "in_i64 (n * unit)" using a by (simp add: in_i64_def max_i64_def) (use mult_nonneg_nonneg [of n unit] in linarith)
  then show ?thesis by (simp add: Duration_def)
qed

text \<open>Modes are read back from their names.\<close>

lemma mode_names:
  "ParseAdmissionMode ''mysql'' = Inr AdmissionModeMySQL" "ParseAdmissionMode ''redis'' = Inr AdmissionModeRedis"
  "ParseOrderMode ''sync'' = Inr OrderModeSync" "ParseOrderMode ''async-stream'' = Inr OrderModeAsyncStream"
  by (simp_all add: ParseAdmissionMode_def ParseOrderMode_def byte_def Let_def)

text \<open>C39: a listen address is accepted just when it names a host and a port. The text, without the blanks around it, must be a
  host and a decimal port between 1 and 65535 with a colon between them, the host without colons or in brackets, and not blank.\<close>

theorem listen_address_checked:
  "validateListenOn value = None \<longleftrightarrow> (\<exists>host port. clean port \<and> TrimSpace host \<noteq> [] \<and>
     (TrimSpace value = host @ CHR '':'' # port \<and> clean host \<or>
      TrimSpace value = CHR ''['' # host @ CHR '']'' # CHR '':'' # port \<and> CHR ''['' \<notin> set host \<and> CHR '']'' \<notin> set host) \<and>
     snd (ParseInt port) = None \<and> 0 < fst (ParseInt port) \<and> fst (ParseInt port) \<le> 65535)"
  (is "_ \<longleftrightarrow> ?accepted")
proof
  assume v: "validateListenOn value = None"
  then obtain host port where sp: "SplitHostPort (TrimSpace value) = Inr (host, port)"
    by (cases "SplitHostPort (TrimSpace value)") (auto simp: validateListenOn_def)
  with v have "TrimSpace host \<noteq> []" "snd (ParseInt port) = None" "0 < fst (ParseInt port)" "fst (ParseInt port) \<le> 65535"
    by (auto simp: validateListenOn_def split: prod.splits if_splits)
  with SplitHostPort_parts [OF sp] show ?accepted by blast
next
  assume ?accepted
  then obtain host port where hp: "clean port" "TrimSpace host \<noteq> []"
    "TrimSpace value = host @ CHR '':'' # port \<and> clean host \<or>
      TrimSpace value = CHR ''['' # host @ CHR '']'' # CHR '':'' # port \<and> CHR ''['' \<notin> set host \<and> CHR '']'' \<notin> set host"
    "snd (ParseInt port) = None" "0 < fst (ParseInt port)" "fst (ParseInt port) \<le> 65535" by blast
  from hp(3) have "SplitHostPort (TrimSpace value) = Inr (host, port)"
    using SplitHostPort_join [OF hp(1)] by auto
  with hp show "validateListenOn value = None" by (cases "ParseInt port") (simp add: validateListenOn_def)
qed

text \<open>A validated stream configuration whose times fit a duration is taken over by the runtime as it is meant, in nanoseconds.\<close>

definition times_fit :: "RedisStreamConfig \<Rightarrow> bool" where
  "times_fit c \<longleftrightarrow> st_BlockMilliseconds c \<le> max_i64 div millisecond \<and> st_ClaimIdleMilliseconds c \<le> max_i64 div millisecond \<and>
     st_DiscoveryIntervalMilliseconds c \<le> max_i64 div millisecond \<and>
     st_ShutdownTimeoutMilliseconds c \<le> max_i64 div millisecond \<and> st_RetentionSeconds c \<le> max_i64 div second"

theorem validated_stream_starts:
  assumes "RedisStreamConfig_Validate c = None" and "times_fit c"
  shows "NewRuntime True True True (runtimeConfig c) = Inr (runtimeConfig c) \<and>
    Block (runtimeConfig c) = st_BlockMilliseconds c * millisecond \<and> ClaimIdle (runtimeConfig c) = st_ClaimIdleMilliseconds c * millisecond \<and>
    DiscoveryInterval (runtimeConfig c) = st_DiscoveryIntervalMilliseconds c * millisecond \<and>
    ShutdownTimeout (runtimeConfig c) = st_ShutdownTimeoutMilliseconds c * millisecond \<and>
    Retention (runtimeConfig c) = st_RetentionSeconds c * second"
proof -
  have pos: "0 < st_BlockMilliseconds c" "0 < st_ClaimIdleMilliseconds c" "0 < st_DiscoveryIntervalMilliseconds c"
    "0 < st_ShutdownTimeoutMilliseconds c" "0 < st_RetentionSeconds c"
    using assms(1) by (auto simp: RedisStreamConfig_Validate_def split: if_splits)
  with assms(2) have d: "st_Block c = st_BlockMilliseconds c * millisecond" "st_ClaimIdle c = st_ClaimIdleMilliseconds c * millisecond"
    "st_DiscoveryInterval c = st_DiscoveryIntervalMilliseconds c * millisecond"
    "st_ShutdownTimeout c = st_ShutdownTimeoutMilliseconds c * millisecond" "st_Retention c = st_RetentionSeconds c * second"
    by (simp_all add: times_fit_def st_Block_def st_ClaimIdle_def st_DiscoveryInterval_def st_ShutdownTimeout_def st_Retention_def
        Duration_exact)
  have "RuntimeConfig_Validate (runtimeConfig c) = None"
    using assms(1) pos d by (auto simp: RedisStreamConfig_Validate_def RuntimeConfig_Validate_def runtimeConfig_def split: if_splits)
  with d show ?thesis by (simp add: NewRuntime_def runtimeConfig_def)
qed

text \<open>Longer times wrap around: a claim time of 584 years passes both validations as less than a millisecond, with which a worker
  takes over messages that another has just been given.\<close>

definition long_idle :: RedisStreamConfig where
  "long_idle = \<lparr>st_ConsumerGroup = ''orders'', st_ConsumerPrefix = ''worker'', st_ConsumerConcurrency = 2, st_BatchSize = 10,
     st_BlockMilliseconds = 1000, st_ClaimIdleMilliseconds = 18446744073710, st_DiscoveryIntervalMilliseconds = 1000,
     st_ShutdownTimeoutMilliseconds = 5000, st_MaxDeliveries = 3, st_RetentionSeconds = 86400\<rparr>"

lemma long_idle_wraps:
  "RedisStreamConfig_Validate long_idle = None" "NewRuntime True True True (runtimeConfig long_idle) = Inr (runtimeConfig long_idle)"
  "Milliseconds (ClaimIdle (runtimeConfig long_idle)) = 0"
  by (simp_all add: long_idle_def RedisStreamConfig_Validate_def NewRuntime_def runtimeConfig_def RuntimeConfig_Validate_def st_Block_def
      st_ClaimIdle_def st_DiscoveryInterval_def st_ShutdownTimeout_def st_Retention_def Duration_def wrap_i64_def max_i64_def
      Milliseconds_def byte_def)

theorem validated_stream_starts_witness:
  "NewRuntime True True True (runtimeConfig (long_idle\<lparr>st_ClaimIdleMilliseconds := 30000\<rparr>)) =
     Inr (runtimeConfig (long_idle\<lparr>st_ClaimIdleMilliseconds := 30000\<rparr>))"
  using validated_stream_starts [of "long_idle\<lparr>st_ClaimIdleMilliseconds := 30000\<rparr>"]
  by (simp add: long_idle_def RedisStreamConfig_Validate_def times_fit_def max_i64_def byte_def)

end
