(* ===== verification/Accounts.thy ===== *)
theory Accounts
  imports Sql RpcPolicy "HOL-Library.List_Lexorder" "HOL-Library.Char_ord" "HOL-Library.Multiset"
begin

text \<open>
  Users and their permissions: the tables of \<open>migrations/000002\<close> and \<open>000003\<close>, the user service with
  registration and authentication (\<open>internal/user/user.go\<close>, \<open>auth.go\<close>, \<open>mysqlrepo\<close>), the role-based
  authorization (\<open>internal/rbac\<close>) and the RPC server of both (\<open>internal/user/rpcserver\<close>). The password hash is a
  library and an argument of the definitions; so are the case mapping and the address grammar of texts with
  bytes outside ASCII, and the collation of the server.
\<close>

section \<open>Texts\<close>

text \<open>
  \<open>strings.ToLower\<close> outside ASCII; whether \<open>mail.ParseAddress\<close> gives back the very text, for a domain literal
  and outside ASCII; the weights by which \<open>utf8mb4_0900_ai_ci\<close> compares two texts.
\<close>

record text_lib =
  tl_ToLower :: "string \<Rightarrow> string"
  tl_address :: "string \<Rightarrow> bool"
  tl_collate :: "string \<Rightarrow> nat list"

definition ascii :: "string \<Rightarrow> bool" where
  "ascii s \<longleftrightarrow> (\<forall>c \<in> set s. byte c < 128)"

definition lower_char :: "char \<Rightarrow> char" where
  "lower_char c = (if 65 \<le> byte c \<and> byte c \<le> 90 then char_of (byte c + 32) else c)"

definition ToLower :: "text_lib \<Rightarrow> string \<Rightarrow> string" where
  "ToLower T s = (if ascii s then map lower_char s else tl_ToLower T s)"

text \<open>The characters of an atom: visible and none of \<open>( ) < > [ ] : ; @ \ , "\<close>; the dot is checked apart.\<close>

definition atext :: "char \<Rightarrow> bool" where
  "atext c \<longleftrightarrow> 33 \<le> byte c \<and> byte c \<le> 126 \<and> byte c \<notin> {34, 40, 41, 44, 58, 59, 60, 62, 64, 91, 92, 93}"

definition dot_atom :: "string \<Rightarrow> bool" where
  "dot_atom s \<longleftrightarrow> s \<noteq> [] \<and> (\<forall>c \<in> set s. atext c) \<and> hd s \<noteq> CHR ''.'' \<and> last s \<noteq> CHR ''.'' \<and> \<not> Contains s ''..''"

text \<open>
  Whether \<open>mail.ParseAddress\<close> accepts a text and its \<open>Address\<close> is that text: a display name, an angle
  bracket, a comment, a quoted local part or a group would make it shorter.
\<close>

definition plain_address :: "text_lib \<Rightarrow> string \<Rightarrow> bool" where
  "plain_address T s =
     (if ascii s \<and> CHR ''['' \<notin> set s
      then (case Split s (CHR ''@'') of [local, domain] \<Rightarrow> dot_atom local \<and> dot_atom domain | _ \<Rightarrow> False)
      else tl_address T s)"

definition normalizeEmail :: "text_lib \<Rightarrow> string \<Rightarrow> string \<times> bool" where
  "normalizeEmail T email = (let normalized = ToLower T (TrimSpace email) in (normalized, plain_address T normalized))"

section \<open>Passwords\<close>

text \<open>\<open>bcrypt.GenerateFromPassword\<close> with its random salt, and \<open>bcrypt.CompareHashAndPassword\<close>.\<close>

record bcrypt_lib =
  bl_generate :: "nat \<Rightarrow> string \<Rightarrow> goerr + string"
  bl_compare :: "string \<Rightarrow> string \<Rightarrow> bool"

text \<open>bcrypt keys its cipher with the password and a NUL byte, repeated up to 72 bytes.\<close>

definition bcrypt_key :: "string \<Rightarrow> string" where
  "bcrypt_key p = take 72 (concat (replicate 72 (p @ [char_of (0 :: nat)])))"

definition bcrypt_ok :: "bcrypt_lib \<Rightarrow> bool" where
  "bcrypt_ok B \<longleftrightarrow> (\<forall>salt p h q. bl_generate B salt p = Inr h \<longrightarrow> bl_compare B h q = (bcrypt_key q = bcrypt_key p))"

section \<open>Tables\<close>

record user_row =
  us_id :: u64
  us_email :: string
  us_password_hash :: string
  us_status :: nat
  us_created_at :: time

record accounts =
  ac_users :: "user_row list"
  ac_roles :: "(u64 \<times> string) list"
  ac_permissions :: "(u64 \<times> string) list"
  ac_user_roles :: "(u64 \<times> u64) list"
  ac_role_permissions :: "(u64 \<times> u64) list"

text \<open>The tables after the migrations, before the demonstration data.\<close>

definition migrated_accounts :: accounts where
  "migrated_accounts = \<lparr>ac_users = [], ac_roles = [(1, ''admin''), (2, ''customer'')],
     ac_permissions = [(1, ''rbac:manage''), (2, ''product:write''), (3, ''seckill:write'')],
     ac_user_roles = [], ac_role_permissions = [(1, 1), (1, 2), (1, 3)]\<rparr>"

section \<open>The user repository\<close>

record User =
  u_ID :: u64
  u_Email :: string
  u_CreatedAt :: time

record Credential =
  cd_User :: User
  cd_PasswordHash :: string
  cd_Active :: bool

text \<open>The creation time of a row is the clock of the server, \<open>dbnow\<close>.\<close>

definition insert_user :: "text_lib \<Rightarrow> time \<Rightarrow> string \<Rightarrow> string \<Rightarrow> accounts \<Rightarrow> u64 result \<times> accounts" where
  "insert_user T dbnow email passwordHash d =
     (if \<exists>u \<in> set (ac_users d). tl_collate T (us_email u) = tl_collate T email then (Inl (MySQLError ER_DUP_ENTRY), d)
      else if table_full (ac_users d) then (Inl (MySQLError ER_AUTOINC_READ_FAILED), d)
      else (let i = of_nat (length (ac_users d) + 1) in
        (Inr i, d\<lparr>ac_users := ac_users d @ [\<lparr>us_id = i, us_email = email, us_password_hash = passwordHash, us_status = 1,
           us_created_at = Truncate dbnow microsecond\<rparr>]\<rparr>)))"

definition User_Repository_Create ::
  "text_lib \<Rightarrow> accounts step_env \<Rightarrow> time \<Rightarrow> time \<Rightarrow> string \<Rightarrow> string \<Rightarrow> accounts \<Rightarrow> User result \<times> accounts" where
  "User_Repository_Create T c dbnow now email passwordHash d =
     (case atomically c (insert_user T dbnow email passwordHash) d of
        (Inl err, d') \<Rightarrow> if isDuplicateKey err then (fail ErrUserAlreadyExists, d') else (Inl (Wrapf ''insert user'' err), d')
      | (Inr i, d') \<Rightarrow> (Inr \<lparr>u_ID = i, u_Email = email, u_CreatedAt = now\<rparr>, d'))"

definition scan_user :: "user_row \<Rightarrow> User" where
  "scan_user r = \<lparr>u_ID = us_id r, u_Email = us_email r, u_CreatedAt = us_created_at r\<rparr>"

definition with_email :: "text_lib \<Rightarrow> string \<Rightarrow> accounts \<Rightarrow> user_row option" where
  "with_email T email d = find (\<lambda>r. tl_collate T (us_email r) = tl_collate T email) (ac_users d)"

definition FindCredentialByEmail ::
  "text_lib \<Rightarrow> accounts step_env \<Rightarrow> string \<Rightarrow> accounts \<Rightarrow> Credential result \<times> accounts" where
  "FindCredentialByEmail T c email d = (case read_db c (with_email T email) d of
       (Inl err, d') \<Rightarrow> (Inl (Wrapf ''find user credential'' err), d')
     | (Inr None, d') \<Rightarrow> (fail ErrInvalidCredentials, d')
     | (Inr (Some r), d') \<Rightarrow>
         (Inr \<lparr>cd_User = scan_user r, cd_PasswordHash = us_password_hash r, cd_Active = (us_status r = 1)\<rparr>, d'))"

definition active_user :: "u64 \<Rightarrow> accounts \<Rightarrow> user_row option" where
  "active_user i d = find (\<lambda>r. us_id r = i \<and> us_status r = 1) (ac_users d)"

definition FindByID :: "accounts step_env \<Rightarrow> u64 \<Rightarrow> accounts \<Rightarrow> User result \<times> accounts" where
  "FindByID c i d = (case read_db c (active_user i) d of
       (Inl err, d') \<Rightarrow> (Inl (Wrapf ''find active user by id'' err), d')
     | (Inr None, d') \<Rightarrow> (fail ErrUserNotFound, d')
     | (Inr (Some r), d') \<Rightarrow> (Inr (scan_user r), d'))"

section \<open>The user service\<close>

definition Register ::
  "text_lib \<Rightarrow> bcrypt_lib \<Rightarrow> accounts step_env \<Rightarrow> nat \<Rightarrow> time \<Rightarrow> time \<Rightarrow> string \<Rightarrow> string \<Rightarrow> accounts \<Rightarrow> User result \<times> accounts" where
  "Register T B c salt dbnow now email password d =
     (let (normalizedEmail, valid) = normalizeEmail T email in
      if \<not> valid then (fail ErrInvalidEmail, d)
      else if length password < 8 \<or> 72 < length password then (fail ErrInvalidPassword, d)
      else (case bl_generate B salt password of
          Inl err \<Rightarrow> (Inl err, d)
        | Inr passwordHash \<Rightarrow> User_Repository_Create T c dbnow now normalizedEmail passwordHash d))"

text \<open>The panic of a failed generation is \<open>None\<close>.\<close>

definition NewAuthService :: "bcrypt_lib \<Rightarrow> nat \<Rightarrow> string option" where
  "NewAuthService B salt = (case bl_generate B salt ''dummy-password-never-used'' of Inl err \<Rightarrow> None | Inr h \<Rightarrow> Some h)"

text \<open>The second component of the answer lists the hashes that were compared with the password.\<close>

definition Authenticate ::
  "text_lib \<Rightarrow> bcrypt_lib \<Rightarrow> string \<Rightarrow> accounts step_env \<Rightarrow> string \<Rightarrow> string \<Rightarrow> accounts \<Rightarrow> User result \<times> string list \<times> accounts" where
  "Authenticate T B dummyHash c email password d =
     (let (normalizedEmail, valid) = normalizeEmail T email in
      if \<not> valid then (fail ErrInvalidCredentials, [dummyHash], d)
      else (case FindCredentialByEmail T c normalizedEmail d of
          (Inl err, d') \<Rightarrow>
            if errors_Is err ErrInvalidCredentials then (fail ErrInvalidCredentials, [dummyHash], d') else (Inl err, [], d')
        | (Inr credential, d') \<Rightarrow>
            let compared = [cd_PasswordHash credential] in
            if \<not> cd_Active credential then (fail ErrInvalidCredentials, compared, d')
            else if \<not> bl_compare B (cd_PasswordHash credential) password then (fail ErrInvalidCredentials, compared, d')
            else (Inr (cd_User credential), compared, d')))"

definition CurrentUser :: "accounts step_env \<Rightarrow> u64 \<Rightarrow> accounts \<Rightarrow> User result \<times> accounts" where
  "CurrentUser c i d = FindByID c i d"

section \<open>Roles and permissions\<close>

text \<open>\<open>SELECT id, code FROM roles WHERE code IN (\<dots>)\<close>, as the map from the codes it returns to their identifiers.\<close>

definition findRoleIDs :: "text_lib \<Rightarrow> string list \<Rightarrow> accounts \<Rightarrow> (string \<times> u64) list" where
  "findRoleIDs T roleCodes d =
     map (\<lambda>(i, code). (code, i)) (filter (\<lambda>(i, code). \<exists>c \<in> set roleCodes. tl_collate T c = tl_collate T code) (ac_roles d))"

definition insert_user_role :: "u64 \<Rightarrow> u64 \<Rightarrow> accounts \<Rightarrow> unit result \<times> accounts" where
  "insert_user_role userID roleID d =
     (if (userID, roleID) \<in> set (ac_user_roles d) then (Inl (MySQLError ER_DUP_ENTRY), d)
      else if userID \<notin> us_id ` set (ac_users d) \<or> roleID \<notin> fst ` set (ac_roles d) then (Inl (MySQLError ER_NO_REFERENCED_ROW), d)
      else (Inr (), d\<lparr>ac_user_roles := ac_user_roles d @ [(userID, roleID)]\<rparr>))"

text \<open>A code that is no key of the map has the identifier 0.\<close>

definition role_id :: "(string \<times> u64) list \<Rightarrow> string \<Rightarrow> u64" where
  "role_id roleIDs code = (case map_of roleIDs code of None \<Rightarrow> 0 | Some i \<Rightarrow> i)"

fun assign_roles :: "u64 \<Rightarrow> (string \<times> u64) list \<Rightarrow> string list \<Rightarrow> accounts \<Rightarrow> unit result \<times> accounts" where
  "assign_roles userID roleIDs [] d = (Inr (), d)"
| "assign_roles userID roleIDs (code # codes) d =
     (case insert_user_role userID (role_id roleIDs code) d of
        (Inl err, d') \<Rightarrow> (Inl (Wrapf ''assign user role'' err), d')
      | (Inr _, d') \<Rightarrow> assign_roles userID roleIDs codes d')"

definition replace_roles_tx :: "text_lib \<Rightarrow> u64 \<Rightarrow> string list \<Rightarrow> accounts \<Rightarrow> unit result \<times> accounts" where
  "replace_roles_tx T userID roleCodes d =
     (if userID \<notin> us_id ` set (ac_users d) then (fail RBAC_ErrUserNotFound, d)
      else (let roleIDs = (if roleCodes = [] then [] else findRoleIDs T roleCodes d) in
        if length roleIDs \<noteq> length roleCodes then (fail ErrRoleAssignmentConflict, d)
        else assign_roles userID roleIDs roleCodes
          (d\<lparr>ac_user_roles := filter (\<lambda>(u, r). u \<noteq> userID) (ac_user_roles d)\<rparr>)))"

definition Repository_ReplaceUserRoles ::
  "text_lib \<Rightarrow> accounts step_env \<Rightarrow> u64 \<Rightarrow> string list \<Rightarrow> accounts \<Rightarrow> unit result \<times> accounts" where
  "Repository_ReplaceUserRoles T c userID roleCodes d = atomically c (replace_roles_tx T userID roleCodes) d"

definition role_codes :: "text_lib \<Rightarrow> u64 \<Rightarrow> accounts \<Rightarrow> string list" where
  "role_codes T userID d =
     sort_key (tl_collate T) (concat (map (\<lambda>(u, r). map snd (filter (\<lambda>role. fst role = r) (ac_roles d)))
       (filter (\<lambda>(u, r). u = userID) (ac_user_roles d))))"

definition Repository_UserRoles :: "text_lib \<Rightarrow> accounts step_env \<Rightarrow> u64 \<Rightarrow> accounts \<Rightarrow> string list result \<times> accounts" where
  "Repository_UserRoles T c userID d = (case read_db c (role_codes T userID) d of
       (Inl err, d') \<Rightarrow> (Inl (Wrapf ''query user roles'' err), d') | (Inr codes, d') \<Rightarrow> (Inr codes, d'))"

text \<open>The join of the roles of a user with their permissions.\<close>

definition permitted :: "text_lib \<Rightarrow> u64 \<Rightarrow> string \<Rightarrow> accounts \<Rightarrow> bool" where
  "permitted T userID permissionCode d \<longleftrightarrow>
     (\<exists>(u, r) \<in> set (ac_user_roles d). u = userID \<and> (\<exists>(r', q) \<in> set (ac_role_permissions d). r' = r \<and>
        (\<exists>(p, code) \<in> set (ac_permissions d). p = q \<and> tl_collate T code = tl_collate T permissionCode)))"

definition Repository_HasPermission ::
  "text_lib \<Rightarrow> accounts step_env \<Rightarrow> u64 \<Rightarrow> string \<Rightarrow> accounts \<Rightarrow> bool result \<times> accounts" where
  "Repository_HasPermission T c userID permissionCode d = (case read_db c (permitted T userID permissionCode) d of
       (Inl err, d') \<Rightarrow> (Inl (Wrapf ''check user permission'' err), d') | (Inr allowed, d') \<Rightarrow> (Inr allowed, d'))"

section \<open>The authorization service\<close>

text \<open>The codes are trimmed, made unique and sorted by their bytes.\<close>

definition ReplaceUserRoles ::
  "text_lib \<Rightarrow> accounts step_env \<Rightarrow> u64 \<Rightarrow> string list \<Rightarrow> accounts \<Rightarrow> unit result \<times> accounts" where
  "ReplaceUserRoles T c userID roleCodes d =
     (if userID = 0 then (fail RBAC_ErrUserNotFound, d)
      else if \<exists>code \<in> set roleCodes. TrimSpace code = [] then (fail ErrRoleAssignmentConflict, d)
      else Repository_ReplaceUserRoles T c userID (remdups (sort (map TrimSpace roleCodes))) d)"

definition UserRoles :: "text_lib \<Rightarrow> accounts step_env \<Rightarrow> u64 \<Rightarrow> accounts \<Rightarrow> string list result \<times> accounts" where
  "UserRoles T c userID d = Repository_UserRoles T c userID d"

definition HasPermission :: "text_lib \<Rightarrow> accounts step_env \<Rightarrow> u64 \<Rightarrow> string \<Rightarrow> accounts \<Rightarrow> bool result \<times> accounts" where
  "HasPermission T c userID permissionCode d =
     (if userID = 0 \<or> TrimSpace permissionCode = [] then (Inr False, d)
      else Repository_HasPermission T c userID permissionCode d)"

section \<open>The RPC server\<close>

record proto_user =
  pu_Id :: u64
  pu_Email :: string
  pu_CreatedAtMs :: int

definition toProtoUser :: "User \<Rightarrow> proto_user" where
  "toProtoUser value = \<lparr>pu_Id = u_ID value, pu_Email = u_Email value, pu_CreatedAtMs = UnixMilli (u_CreatedAt value)\<rparr>"

definition mapUserError :: "bool \<Rightarrow> goerr \<Rightarrow> goerr" where
  "mapUserError attach err = StatusError attach
     (if errors_Is err Context_Canceled
      then NewPublicError Canceled ERROR_CODE_TEMPORARILY_UNAVAILABLE ''request canceled'' True err
      else if errors_Is err Context_DeadlineExceeded
      then NewPublicError DeadlineExceeded ERROR_CODE_TEMPORARILY_UNAVAILABLE ''user service timeout'' True err
      else if errors_Is err ErrInvalidEmail \<or> errors_Is err ErrInvalidPassword
      then NewPublicError InvalidArgument ERROR_CODE_INVALID_ARGUMENT ''invalid registration'' False err
      else if errors_Is err ErrUserAlreadyExists
      then NewPublicError AlreadyExists ERROR_CODE_CONFLICT ''user already exists'' False err
      else if errors_Is err ErrInvalidCredentials
      then NewPublicError Unauthenticated ERROR_CODE_UNAUTHENTICATED ''invalid credentials'' False err
      else if errors_Is err ErrUserNotFound \<or> errors_Is err RBAC_ErrUserNotFound
      then NewPublicError NotFound ERROR_CODE_NOT_FOUND ''user not found'' False err
      else if errors_Is err ErrRoleAssignmentConflict
      then NewPublicError FailedPrecondition ERROR_CODE_CONFLICT ''role assignment conflict'' False err
      else err)"

definition answer_user :: "bool \<Rightarrow> ('a \<Rightarrow> 'b) \<Rightarrow> 'a result \<times> accounts \<Rightarrow> 'b result \<times> accounts" where
  "answer_user attach f r = (case r of (Inl err, d) \<Rightarrow> (Inl (mapUserError attach err), d) | (Inr x, d) \<Rightarrow> (Inr (f x), d))"

definition Server_Register where
  "Server_Register attach T B c salt dbnow now email password d =
     answer_user attach toProtoUser (Register T B c salt dbnow now email password d)"

definition Server_Authenticate ::
  "bool \<Rightarrow> text_lib \<Rightarrow> bcrypt_lib \<Rightarrow> string \<Rightarrow> accounts env \<Rightarrow> string \<Rightarrow> string \<Rightarrow> accounts \<Rightarrow>
     (proto_user \<times> string list) result \<times> accounts" where
  "Server_Authenticate attach T B dummyHash env email password d =
     (case Authenticate T B dummyHash (env 0) email password d of
        (Inl err, _, d1) \<Rightarrow> (Inl (mapUserError attach err), d1)
      | (Inr authenticated, _, d1) \<Rightarrow>
          answer_user attach (\<lambda>roles. (toProtoUser authenticated, roles)) (UserRoles T (env 1) (u_ID authenticated) d1))"

definition Server_GetUser where
  "Server_GetUser attach c i d = answer_user attach toProtoUser (CurrentUser c i d)"

definition Server_GetUserRoles where
  "Server_GetUserRoles attach T c i d = answer_user attach (\<lambda>roles. roles) (UserRoles T c i d)"

definition Server_HasPermission where
  "Server_HasPermission attach T c i permissionCode d = answer_user attach (\<lambda>allowed. allowed) (HasPermission T c i permissionCode d)"

definition Server_ReplaceUserRoles where
  "Server_ReplaceUserRoles attach T c i roleCodes d = answer_user attach (\<lambda>u. u) (ReplaceUserRoles T c i roleCodes d)"

section \<open>Well-formed tables\<close>

text \<open>
  The keys are unique, every stored address is in normal form, and the join tables refer to rows that
  exist. Role identifiers start at 1.
\<close>

definition users_ok :: "text_lib \<Rightarrow> accounts \<Rightarrow> bool" where
  "users_ok T d \<longleftrightarrow> numbered (map us_id (ac_users d)) \<and> length (ac_users d) < 2 ^ 64 \<and>
     distinct (map (tl_collate T \<circ> us_email) (ac_users d)) \<and> (\<forall>u \<in> set (ac_users d). plain_address T (us_email u))"

definition roles_ok :: "text_lib \<Rightarrow> accounts \<Rightarrow> bool" where
  "roles_ok T d \<longleftrightarrow> distinct (map fst (ac_roles d)) \<and> 0 \<notin> fst ` set (ac_roles d) \<and>
     distinct (map (tl_collate T \<circ> snd) (ac_roles d)) \<and>
     (\<forall>(r, p) \<in> set (ac_role_permissions d). r \<in> fst ` set (ac_roles d) \<and> p \<in> fst ` set (ac_permissions d))"

definition assignments_ok :: "accounts \<Rightarrow> bool" where
  "assignments_ok d \<longleftrightarrow> distinct (ac_user_roles d) \<and>
     (\<forall>(u, r) \<in> set (ac_user_roles d). u \<in> us_id ` set (ac_users d) \<and> r \<in> fst ` set (ac_roles d))"

definition accounts_ok :: "text_lib \<Rightarrow> accounts \<Rightarrow> bool" where
  "accounts_ok T d \<longleftrightarrow> users_ok T d \<and> roles_ok T d \<and> assignments_ok d"

lemma insert_user_Inr:
  assumes "insert_user T dbnow email h d = (Inr i, d')"
  shows "\<forall>u \<in> set (ac_users d). tl_collate T (us_email u) \<noteq> tl_collate T email"
    and "length (ac_users d) + 1 < 2 ^ 64" and "i = of_nat (length (ac_users d) + 1)"
    and "d' = d\<lparr>ac_users := ac_users d @ [\<lparr>us_id = i, us_email = email, us_password_hash = h, us_status = 1,
           us_created_at = Truncate dbnow microsecond\<rparr>]\<rparr>"
  using assms by (auto simp: insert_user_def table_full_def Let_def split: if_splits)

lemma insert_user_ok:
  assumes ok: "accounts_ok T d" and "plain_address T email" and i: "insert_user T dbnow email h d = (Inr i, d')"
  shows "accounts_ok T d'"
proof -
  note I = insert_user_Inr [OF i]
  have "users_ok T d'"
    using ok assms(2) I numbered_snoc [of "map us_id (ac_users d)"] by (auto simp: accounts_ok_def users_ok_def)
  moreover have "roles_ok T d'" using ok I(4) by (simp add: accounts_ok_def roles_ok_def)
  moreover have "assignments_ok d'" using ok I(4) by (auto simp: accounts_ok_def assignments_ok_def)
  ultimately show ?thesis by (simp add: accounts_ok_def)
qed

lemma assign_roles_Inr:
  assumes "assign_roles userID m codes d = (Inr x, d')"
  shows "d' = d\<lparr>ac_user_roles := ac_user_roles d @ map (\<lambda>c. (userID, role_id m c)) codes\<rparr>"
    and "distinct (ac_user_roles d) \<longrightarrow> distinct (ac_user_roles d')"
    and "\<forall>c \<in> set codes. role_id m c \<in> fst ` set (ac_roles d) \<and> userID \<in> us_id ` set (ac_users d)"
proof -
  have "d' = d\<lparr>ac_user_roles := ac_user_roles d @ map (\<lambda>c. (userID, role_id m c)) codes\<rparr> \<and>
    (distinct (ac_user_roles d) \<longrightarrow> distinct (ac_user_roles d')) \<and>
    (\<forall>c \<in> set codes. role_id m c \<in> fst ` set (ac_roles d) \<and> userID \<in> us_id ` set (ac_users d))"
    using assms
  proof (induction codes arbitrary: d)
    case (Cons c codes)
    obtain r d1 where r: "insert_user_role userID (role_id m c) d = (r, d1)" by fastforce
    with Cons.prems have rest: "assign_roles userID m codes d1 = (Inr x, d')" and R: "\<exists>u. r = Inr u" by (auto split: sum.splits)
    have d1: "d1 = d\<lparr>ac_user_roles := ac_user_roles d @ [(userID, role_id m c)]\<rparr>" "(userID, role_id m c) \<notin> set (ac_user_roles d)"
      "role_id m c \<in> fst ` set (ac_roles d)" "userID \<in> us_id ` set (ac_users d)"
      using r R by (auto simp: insert_user_role_def split: if_splits)
    from Cons.IH [OF rest] d1 show ?case by (auto simp: disjoint_iff image_iff) blast
  qed simp
  then show "d' = d\<lparr>ac_user_roles := ac_user_roles d @ map (\<lambda>c. (userID, role_id m c)) codes\<rparr>"
    and "distinct (ac_user_roles d) \<longrightarrow> distinct (ac_user_roles d')"
    and "\<forall>c \<in> set codes. role_id m c \<in> fst ` set (ac_roles d) \<and> userID \<in> us_id ` set (ac_users d)" by blast+
qed

text \<open>A successful replacement: every code is exactly that of a role.\<close>

lemma role_id_findRoleIDs:
  assumes ok: "roles_ok T d" and i: "role_id (findRoleIDs T codes d) c \<in> fst ` set (ac_roles d)"
  shows "(role_id (findRoleIDs T codes d) c, c) \<in> set (ac_roles d)"
proof -
  have "role_id (findRoleIDs T codes d) c \<noteq> 0" using i ok unfolding roles_ok_def by metis
  then obtain j where j: "map_of (findRoleIDs T codes d) c = Some j" "role_id (findRoleIDs T codes d) c = j"
    by (auto simp: role_id_def split: option.splits)
  from map_of_SomeD [OF j(1)] j(2) show ?thesis by (auto simp: findRoleIDs_def)
qed

lemma replace_roles_Inr:
  assumes ok: "accounts_ok T d" and run: "replace_roles_tx T userID codes d = (Inr x, d')"
  shows "\<exists>ids. d' = d\<lparr>ac_user_roles := filter (\<lambda>(u, r). u \<noteq> userID) (ac_user_roles d) @ map (Pair userID) ids\<rparr> \<and>
      list_all2 (\<lambda>i c. (i, c) \<in> set (ac_roles d)) ids codes \<and> distinct (ac_user_roles d') \<and> userID \<in> us_id ` set (ac_users d)"
proof -
  define m where "m = (if codes = [] then [] else findRoleIDs T codes d)"
  define d0 where "d0 = d\<lparr>ac_user_roles := filter (\<lambda>(u, r). u \<noteq> userID) (ac_user_roles d)\<rparr>"
  have run': "assign_roles userID m codes d0 = (Inr x, d')" and u: "userID \<in> us_id ` set (ac_users d)"
    using run by (auto simp: replace_roles_tx_def m_def d0_def Let_def split: if_splits)
  note A = assign_roles_Inr [OF run']
  have r: "roles_ok T d" using ok by (simp add: accounts_ok_def)
  have "(role_id m c, c) \<in> set (ac_roles d)" if "c \<in> set codes" for c
    using role_id_findRoleIDs [OF r, of codes c] A(3) that by (auto simp: m_def d0_def)
  then have "list_all2 (\<lambda>i c. (i, c) \<in> set (ac_roles d)) (map (role_id m) codes) codes"
    by (simp add: list_all2_conv_all_nth)
  moreover have "distinct (ac_user_roles d')" using A(2) ok by (simp add: d0_def accounts_ok_def assignments_ok_def)
  ultimately show ?thesis using A(1) u by (intro exI [of _ "map (role_id m) codes"]) (simp add: d0_def comp_def)
qed

lemma replace_roles_ok:
  assumes ok: "accounts_ok T d" and run: "replace_roles_tx T userID codes d = (Inr x, d')"
  shows "accounts_ok T d'"
proof -
  from replace_roles_Inr [OF ok run] obtain ids where ids:
    "d' = d\<lparr>ac_user_roles := filter (\<lambda>(u, r). u \<noteq> userID) (ac_user_roles d) @ map (Pair userID) ids\<rparr>"
    "list_all2 (\<lambda>i c. (i, c) \<in> set (ac_roles d)) ids codes" "distinct (ac_user_roles d')" "userID \<in> us_id ` set (ac_users d)" by blast
  have "i \<in> fst ` set (ac_roles d)" if "i \<in> set ids" for i
    using ids(2) that by (force simp: list_all2_conv_all_nth in_set_conv_nth)
  with ok ids show ?thesis by (auto simp: accounts_ok_def users_ok_def roles_ok_def assignments_ok_def)
qed

section \<open>Every request keeps the tables well formed\<close>

datatype account_request =
    RegisterRequest string string | AuthenticateRequest string string | GetUserRequest u64 | GetUserRolesRequest u64
  | HasPermissionRequest u64 string | ReplaceUserRolesRequest u64 "string list"

text \<open>What a request met: the behaviour of the database, the salt, and the clocks of the server and of the service.\<close>

record account_step =
  as_request :: account_request
  as_env :: "accounts env"
  as_salt :: nat
  as_dbnow :: time
  as_now :: time

definition serve_account :: "text_lib \<Rightarrow> bcrypt_lib \<Rightarrow> string \<Rightarrow> bool \<Rightarrow> accounts \<Rightarrow> account_step \<Rightarrow> accounts" where
  "serve_account T B dummyHash attach d s = (let env = as_env s in
     case as_request s of
       RegisterRequest email password \<Rightarrow> snd (Server_Register attach T B (env 0) (as_salt s) (as_dbnow s) (as_now s) email password d)
     | AuthenticateRequest email password \<Rightarrow> snd (Server_Authenticate attach T B dummyHash env email password d)
     | GetUserRequest i \<Rightarrow> snd (Server_GetUser attach (env 0) i d)
     | GetUserRolesRequest i \<Rightarrow> snd (Server_GetUserRoles attach T (env 0) i d)
     | HasPermissionRequest i code \<Rightarrow> snd (Server_HasPermission attach T (env 0) i code d)
     | ReplaceUserRolesRequest i codes \<Rightarrow> snd (Server_ReplaceUserRoles attach T (env 0) i codes d))"

lemma snd_answer_user [simp]: "snd (answer_user attach f r) = snd r"
  by (cases r) (auto simp: answer_user_def split: sum.splits)

lemma snd_FindCredentialByEmail [simp]: "snd (FindCredentialByEmail T c email d) = snd (read_db c (with_email T email) d)"
  by (auto simp: FindCredentialByEmail_def split: prod.splits sum.splits option.splits)

lemma snd_FindByID [simp]: "snd (FindByID c i d) = snd (read_db c (active_user i) d)"
  by (auto simp: FindByID_def split: prod.splits sum.splits option.splits)

lemma snd_UserRoles [simp]: "snd (UserRoles T c i d) = snd (read_db c (role_codes T i) d)"
  by (auto simp: UserRoles_def Repository_UserRoles_def split: prod.splits sum.splits)

lemma snd_HasPermission: "snd (HasPermission T c i code d) \<in> {d, snd (read_db c (permitted T i code) d)}"
  by (auto simp: HasPermission_def Repository_HasPermission_def split: prod.splits sum.splits)

lemma snd_Authenticate: "snd (snd (Authenticate T B dummyHash c email password d)) \<in>
    {d, snd (read_db c (with_email T (fst (normalizeEmail T email))) d)}"
  using snd_FindCredentialByEmail [of T c "fst (normalizeEmail T email)" d]
  by (auto simp: Authenticate_def Let_def split: prod.splits sum.splits simp del: snd_FindCredentialByEmail)

lemma snd_User_Create: "snd (User_Repository_Create T c dbnow now email h d) = snd (atomically c (insert_user T dbnow email h) d)"
  by (auto simp: User_Repository_Create_def split: prod.splits sum.splits)

lemma snd_Register: "snd (Register T B c salt dbnow now email password d) = d \<or>
    (\<exists>h. snd (normalizeEmail T email) \<and>
       snd (Register T B c salt dbnow now email password d) = snd (atomically c (insert_user T dbnow (fst (normalizeEmail T email)) h) d))"
  by (auto simp: Register_def Let_def snd_User_Create split: prod.splits sum.splits)

lemma snd_ReplaceUserRoles: "snd (ReplaceUserRoles T c i codes d) \<in>
    {d, snd (atomically c (replace_roles_tx T i (remdups (sort (map TrimSpace codes)))) d)}"
  by (auto simp: ReplaceUserRoles_def Repository_ReplaceUserRoles_def)

text \<open>An access keeps what the other transactions and its statement keep.\<close>

lemma read_keeps: "(\<And>d. P d \<Longrightarrow> P (interference c d)) \<Longrightarrow> P d \<Longrightarrow> P (snd (read_db c f d))"
  using read_db_respects [of "\<lambda>a b. P a \<longrightarrow> P b" c d f] by blast

lemma atomically_invariant:
  "(\<And>d. P d \<Longrightarrow> P (interference c d)) \<Longrightarrow> (\<And>d x d'. P d \<Longrightarrow> body d = (Inr x, d') \<Longrightarrow> P d') \<Longrightarrow> P d \<Longrightarrow>
     P (snd (atomically c body d))"
  using atomically_respects [of "\<lambda>a b. P a \<longrightarrow> P b" c body d] by blast

lemma normalizeEmail_address: "snd (normalizeEmail T email) \<longleftrightarrow> plain_address T (fst (normalizeEmail T email))"
  by (simp add: normalizeEmail_def Let_def)

lemma serve_account_ok:
  assumes ok: "accounts_ok T d" and rely: "\<And>k x. accounts_ok T x \<Longrightarrow> accounts_ok T (interference (as_env s k) x)"
  shows "accounts_ok T (serve_account T B dummyHash attach d s)"
proof -
  note read = read_keeps [of "accounts_ok T", OF rely]
  show ?thesis
  proof (cases "as_request s")
    case (RegisterRequest email password)
    have "accounts_ok T (snd (atomically (as_env s 0) (insert_user T (as_dbnow s) (fst (normalizeEmail T email)) h) d))"
      if "snd (normalizeEmail T email)" for h
      by (rule atomically_invariant) (use rely ok insert_user_ok that normalizeEmail_address in blast)+
    with snd_Register [of T B "as_env s 0" "as_salt s" "as_dbnow s" "as_now s" email password d] ok RegisterRequest
    show ?thesis by (auto simp: serve_account_def Let_def Server_Register_def)
  next
    case (AuthenticateRequest email password)
    obtain r cs d1 where A: "Authenticate T B dummyHash (as_env s 0) email password d = (r, cs, d1)" by (metis prod.exhaust)
    have "accounts_ok T d1"
      using snd_Authenticate [of T B dummyHash "as_env s 0" email password d] A ok read by auto
    with A AuthenticateRequest read show ?thesis
      by (auto simp: serve_account_def Let_def Server_Authenticate_def split: sum.splits)
  next
    case (HasPermissionRequest i code)
    with snd_HasPermission [of T "as_env s 0" i code d] ok read show ?thesis
      by (auto simp: serve_account_def Let_def Server_HasPermission_def)
  next
    case (ReplaceUserRolesRequest i codes)
    have "accounts_ok T (snd (atomically (as_env s 0) (replace_roles_tx T i (remdups (sort (map TrimSpace codes)))) d))"
      by (rule atomically_invariant) (use rely ok replace_roles_ok in blast)+
    with snd_ReplaceUserRoles [of T "as_env s 0" i codes d] ok ReplaceUserRolesRequest show ?thesis
      by (auto simp: serve_account_def Let_def Server_ReplaceUserRoles_def)
  qed (use ok read in \<open>simp_all add: serve_account_def Let_def Server_GetUser_def CurrentUser_def Server_GetUserRoles_def\<close>)
qed

lemma serve_accounts_ok:
  assumes "accounts_ok T d" and "\<forall>s \<in> set steps. \<forall>k x. accounts_ok T x \<longrightarrow> accounts_ok T (interference (as_env s k) x)"
  shows "accounts_ok T (foldl (serve_account T B dummyHash attach) d steps)"
  using assms
proof (induction steps arbitrary: d)
  case (Cons s steps)
  have "accounts_ok T (serve_account T B dummyHash attach d s)"
    by (rule serve_account_ok) (use Cons.prems in auto)
  from Cons.IH [OF this] Cons.prems show ?case by simp
qed simp

section \<open>Lookups\<close>

lemma find_unique:
  assumes "distinct (map f xs)" and "x \<in> set xs" and "\<And>y. y \<in> set xs \<Longrightarrow> P y \<longleftrightarrow> f y = f x"
  shows "find P xs = Some x"
proof -
  obtain i where i: "i < length xs" "xs ! i = x" using assms(2) by (auto simp: in_set_conv_nth)
  have "\<not> P (xs ! j)" if "j < i" for j
  proof
    assume "P (xs ! j)"
    with assms(3) [of "xs ! j"] that i have "map f xs ! j = map f xs ! i" by simp
    moreover have "j < length (map f xs)" "i < length (map f xs)" using that i by auto
    ultimately have "j = i" using assms(1) nth_eq_iff_index_eq by blast
    with that show False by simp
  qed
  with i assms(2,3) show ?thesis by (auto simp: find_Some_iff)
qed

lemma with_email_unique:
  assumes "users_ok T d" and "u \<in> set (ac_users d)" and "tl_collate T email = tl_collate T (us_email u)"
  shows "with_email T email d = Some u"
  using assms unfolding with_email_def users_ok_def
  by (intro find_unique [of "tl_collate T \<circ> us_email"]) auto

lemma with_email_Some: "with_email T email d = Some u \<Longrightarrow> u \<in> set (ac_users d) \<and> tl_collate T (us_email u) = tl_collate T email"
  by (auto simp: with_email_def find_Some_iff)

lemma user_ids_distinct: "users_ok T d \<Longrightarrow> distinct (map us_id (ac_users d))"
  using numbered_sorted(2) [of "map us_id (ac_users d)"] by (simp add: users_ok_def)

lemma filter_unique_key:
  "distinct (map fst xs) \<Longrightarrow> (k, v) \<in> set xs \<Longrightarrow> filter (\<lambda>x. fst x = k) xs = [(k, v)]"
proof (induction xs)
  case (Cons x xs)
  show ?case
  proof (cases "x = (k, v)")
    case True
    with Cons.prems have "\<forall>y \<in> set xs. fst y \<noteq> k" by force
    with True show ?thesis by (simp add: filter_empty_conv)
  next
    case False
    with Cons.prems have v: "(k, v) \<in> set xs" by auto
    then have "k \<in> fst ` set xs" by force
    with Cons.prems(1) have "fst x \<noteq> k" by auto
    with Cons v show ?thesis by simp
  qed
qed simp

text \<open>The codes of the roles of a user, before they are sorted: exactly one for each assignment.\<close>

lemma concat_roles:
  assumes "distinct (map fst roles)" and "list_all2 (\<lambda>i c. (i, c) \<in> set roles) ids codes"
  shows "concat (map (\<lambda>(u, r). map snd (filter (\<lambda>role. fst role = r) roles)) (map (Pair userID) ids)) = codes"
  using assms(2)
proof (induction rule: list_all2_induct)
  case (Cons i ids c codes)
  then show ?case using filter_unique_key [OF assms(1) Cons.hyps(1)] by simp
qed simp

lemma role_codes_length:
  assumes "roles_ok T d" and "assignments_ok d"
  shows "length (role_codes T userID d) = length (filter (\<lambda>(u, r). u = userID) (ac_user_roles d))"
proof -
  have one: "length (filter (\<lambda>role. fst role = r) (ac_roles d)) = 1" if r: "(u, r) \<in> set (ac_user_roles d)" for u r
  proof -
    obtain c where "(r, c) \<in> set (ac_roles d)" using assms(2) r by (force simp: assignments_ok_def)
    from filter_unique_key [OF _ this] assms(1) show ?thesis by (simp add: roles_ok_def)
  qed
  have len: "length (concat (map (\<lambda>(u, r). map snd (filter (\<lambda>role. fst role = r) (ac_roles d))) xs)) = length xs"
    if "set xs \<subseteq> set (ac_user_roles d)" for xs
    using that by (induction xs) (auto simp: one)
  have "length (role_codes T userID d) = length (concat (map (\<lambda>(u, r). map snd (filter (\<lambda>role. fst role = r) (ac_roles d)))
      (filter (\<lambda>(u, r). u = userID) (ac_user_roles d))))" by (simp add: role_codes_def)
  also have "\<dots> = length (filter (\<lambda>(u, r). u = userID) (ac_user_roles d))" by (rule len) auto
  finally show ?thesis .
qed

section \<open>Demonstration instances of the libraries\<close>

definition demo_text :: text_lib where
  "demo_text = \<lparr>tl_ToLower = (\<lambda>s. s), tl_address = (\<lambda>s. False), tl_collate = (\<lambda>s. map (byte \<circ> lower_char) s)\<rparr>"

definition demo_bcrypt :: bcrypt_lib where
  "demo_bcrypt = \<lparr>bl_generate = (\<lambda>salt p. Inr (bcrypt_key p)), bl_compare = (\<lambda>h q. bcrypt_key q = h)\<rparr>"

lemma demo_bcrypt_ok: "bcrypt_ok demo_bcrypt"
  by (auto simp: bcrypt_ok_def demo_bcrypt_def)

lemma migrated_ok: "accounts_ok demo_text migrated_accounts"
  by (simp add: accounts_ok_def users_ok_def roles_ok_def assignments_ok_def migrated_accounts_def demo_text_def lower_char_def
      byte_def)

section \<open>Properties of the tables\<close>

text \<open>C33: the tables stay well formed. Whatever requests the server answers, whatever fails and whatever other
  well-behaved transactions do in between, the keys stay unique, every stored address stays in normal form
  and is found again, and no role assignment dangles: a user has exactly one code for each assignment.
\<close>

theorem accounts_stay_well_formed:
  assumes "accounts_ok T d" and "\<forall>s \<in> set steps. \<forall>k x. accounts_ok T x \<longrightarrow> accounts_ok T (interference (as_env s k) x)"
    and "d' = foldl (serve_account T B dummyHash attach) d steps"
  shows "accounts_ok T d' \<and> (\<forall>u \<in> set (ac_users d'). with_email T (us_email u) d' = Some u) \<and>
    (\<forall>userID. length (role_codes T userID d') = length (filter (\<lambda>(u, r). u = userID) (ac_user_roles d')))"
proof -
  have "accounts_ok T d'" unfolding assms(3) by (rule serve_accounts_ok [OF assms(1,2)])
  then show ?thesis using with_email_unique [of T d'] role_codes_length [of T d'] by (auto simp: accounts_ok_def)
qed

definition demo_request :: "account_request \<Rightarrow> account_step" where
  "demo_request r = \<lparr>as_request = r, as_env = quiet, as_salt = 0, as_dbnow = 5000, as_now = 7000\<rparr>"

theorem accounts_stay_well_formed_witness:
  "accounts_ok demo_text (foldl (serve_account demo_text demo_bcrypt ''x'' True) migrated_accounts
     [demo_request (RegisterRequest ''a@b'' ''password''), demo_request (ReplaceUserRolesRequest 1 [''admin''])])"
  using accounts_stay_well_formed [of demo_text migrated_accounts
      "[demo_request (RegisterRequest ''a@b'' ''password''), demo_request (ReplaceUserRolesRequest 1 [''admin''])]"
      _ demo_bcrypt "''x''" True, OF migrated_ok _ refl]
  by (simp add: demo_request_def quiet_def)

section \<open>Authentication\<close>

text \<open>A password without NUL bytes is determined by its key, up to 72 bytes.\<close>

abbreviation NUL :: char where "NUL \<equiv> char_of (0 :: nat)"

lemma takeWhile_bcrypt_key:
  assumes "NUL \<notin> set p" and "length p \<le> 72"
  shows "takeWhile (\<lambda>c. c \<noteq> NUL) (bcrypt_key p) = p"
proof -
  obtain r where r: "concat (replicate 72 (p @ [NUL])) = p @ NUL # r"
    by (simp add: replicate_Suc [of 71, simplified])
  have p: "takeWhile (\<lambda>c. c \<noteq> NUL) p = p" using assms(1) by (intro takeWhile_eq_all_conv [THEN iffD2]) auto
  have "\<forall>c \<in> set p. c \<noteq> NUL" using assms(1) by auto
  then have "takeWhile (\<lambda>c. c \<noteq> NUL) (p @ take (72 - length p) (NUL # r)) = p"
    by (cases "72 - length p") (simp_all add: takeWhile_append2 p)
  with assms(2) show ?thesis by (simp add: bcrypt_key_def r)
qed

lemma bcrypt_key_inj:
  "NUL \<notin> set p \<Longrightarrow> NUL \<notin> set q \<Longrightarrow> length p \<le> 72 \<Longrightarrow> length q \<le> 72 \<Longrightarrow> bcrypt_key q = bcrypt_key p \<longleftrightarrow> q = p"
  by (metis takeWhile_bcrypt_key)

lemma Authenticate_quiet:
  "Authenticate T B dummyHash (quiet k) email password d =
     (case (if snd (normalizeEmail T email) then with_email T (fst (normalizeEmail T email)) d else None) of
        None \<Rightarrow> (fail ErrInvalidCredentials, [dummyHash], d)
      | Some r \<Rightarrow> (if us_status r = 1 \<and> bl_compare B (us_password_hash r) password then Inr (scan_user r) else fail ErrInvalidCredentials,
          [us_password_hash r], d))"
  by (auto simp: Authenticate_def FindCredentialByEmail_def Let_def split: option.splits prod.splits)

text \<open>Requests met by no other transaction only append users.\<close>

lemma atomically_insert_prefix:
  assumes "undisturbed env"
  shows "\<exists>xs. ac_users (snd (atomically (env k) (insert_user T dbnow email h) d)) = ac_users d @ xs"
proof -
  obtain r d' where a: "atomically (env k) (insert_user T dbnow email h) d = (r, d')" by fastforce
  have "d' = d \<or> (\<exists>i. insert_user T dbnow email h d = (Inr i, d'))"
    using atomically_undisturbed(1) [OF assms a] by blast
  with a show ?thesis using insert_user_Inr(4) [of T dbnow email h d _ d'] by auto
qed

lemma assign_roles_users: "ac_users (snd (assign_roles userID m codes d)) = ac_users d"
proof (induction codes arbitrary: d)
  case (Cons c codes)
  show ?case
    using Cons.IH by (auto simp: insert_user_role_def split: prod.splits sum.splits if_splits)
qed simp

lemma replace_roles_users: "ac_users (snd (replace_roles_tx T userID codes d)) = ac_users d"
  by (simp add: replace_roles_tx_def Let_def assign_roles_users)

lemma atomically_replace_users:
  assumes "undisturbed env"
  shows "ac_users (snd (atomically (env k) (replace_roles_tx T userID codes) d)) = ac_users d"
proof -
  obtain r d' where a: "atomically (env k) (replace_roles_tx T userID codes) d = (r, d')" by fastforce
  show ?thesis
    using atomically_undisturbed(1) [OF assms a] replace_roles_users [of T userID codes d] a by auto
qed

lemma serve_account_appends:
  assumes "undisturbed (as_env s)"
  shows "\<exists>xs. ac_users (serve_account T B dummyHash attach d s) = ac_users d @ xs"
proof -
  note read = read_db_undisturbed(1) [OF assms]
  show ?thesis
  proof (cases "as_request s")
    case (RegisterRequest email password)
    show ?thesis
      using snd_Register [of T B "as_env s 0" "as_salt s" "as_dbnow s" "as_now s" email password d] RegisterRequest
        atomically_insert_prefix [OF assms, of 0] by (auto simp: serve_account_def Let_def Server_Register_def)
  next
    case (AuthenticateRequest email password)
    obtain r cs d1 where A: "Authenticate T B dummyHash (as_env s 0) email password d = (r, cs, d1)" by (metis prod.exhaust)
    have "d1 = d" using snd_Authenticate [of T B dummyHash "as_env s 0" email password d] A read by auto
    with A AuthenticateRequest show ?thesis
      by (auto simp: read serve_account_def Let_def Server_Authenticate_def split: sum.splits)
  next
    case (HasPermissionRequest i code)
    with snd_HasPermission [of T "as_env s 0" i code d] show ?thesis
      by (auto simp: read serve_account_def Let_def Server_HasPermission_def)
  next
    case (ReplaceUserRolesRequest i codes)
    with snd_ReplaceUserRoles [of T "as_env s 0" i codes d] atomically_replace_users [OF assms, of 0] show ?thesis
      by (auto simp: serve_account_def Let_def Server_ReplaceUserRoles_def)
  qed (simp_all add: read serve_account_def Let_def Server_GetUser_def CurrentUser_def Server_GetUserRoles_def)
qed

lemma serve_accounts_append:
  assumes "\<forall>s \<in> set steps. undisturbed (as_env s)"
  shows "\<exists>xs. ac_users (foldl (serve_account T B dummyHash attach) d steps) = ac_users d @ xs"
  using assms
proof (induction steps arbitrary: d)
  case (Cons s steps)
  obtain xs where "ac_users (serve_account T B dummyHash attach d s) = ac_users d @ xs"
    using serve_account_appends [of s T B dummyHash attach d] Cons.prems by auto
  with Cons.IH [of "serve_account T B dummyHash attach d s"] Cons.prems show ?case by auto
qed simp

text \<open>What a successful registration stores.\<close>

lemma Register_Inr:
  assumes "Register T B (quiet k) salt dbnow now email p d = (Inr u, d')"
  shows "\<exists>h. snd (normalizeEmail T email) \<and> 8 \<le> length p \<and> length p \<le> 72 \<and> bl_generate B salt p = Inr h \<and>
    insert_user T dbnow (fst (normalizeEmail T email)) h d = (Inr (u_ID u), d') \<and>
    u = \<lparr>u_ID = u_ID u, u_Email = fst (normalizeEmail T email), u_CreatedAt = now\<rparr>"
proof -
  obtain h where h: "snd (normalizeEmail T email)" "8 \<le> length p" "length p \<le> 72" "bl_generate B salt p = Inr h"
    "User_Repository_Create T (quiet k) dbnow now (fst (normalizeEmail T email)) h d = (Inr u, d')"
    using assms by (auto simp: Register_def Let_def split: prod.splits if_splits sum.splits)
  from h(5) have "insert_user T dbnow (fst (normalizeEmail T email)) h d = (Inr (u_ID u), d')"
    "u = \<lparr>u_ID = u_ID u, u_Email = fst (normalizeEmail T email), u_CreatedAt = now\<rparr>"
    by (auto simp: User_Repository_Create_def split: prod.splits sum.splits if_splits)
  with h show ?thesis by blast
qed

lemma registration_usable:
  assumes "bcrypt_ok B" and "accounts_ok T d" and "Register T B (quiet k) salt dbnow now email p d = (Inr u, d')"
    and "fst (normalizeEmail T email2) = fst (normalizeEmail T email)"
    and "\<forall>s \<in> set steps. undisturbed (as_env s)" and "d'' = foldl (serve_account T B dummyHash attach) d' steps"
  shows "(\<exists>h. Authenticate T B dummyHash (quiet j) email2 q d'' =
      (if bcrypt_key q = bcrypt_key p then Inr (u\<lparr>u_CreatedAt := Truncate dbnow microsecond\<rparr>) else fail ErrInvalidCredentials, [h], d''))
    \<and> (NUL \<notin> set p \<union> set q \<and> length q \<le> 72 \<longrightarrow> (bcrypt_key q = bcrypt_key p \<longleftrightarrow> q = p))"
proof -
  let ?e = "fst (normalizeEmail T email)"
  from Register_Inr [OF assms(3)] obtain h where h: "snd (normalizeEmail T email)" "length p \<le> 72" "bl_generate B salt p = Inr h"
    "insert_user T dbnow ?e h d = (Inr (u_ID u), d')" "u = \<lparr>u_ID = u_ID u, u_Email = ?e, u_CreatedAt = now\<rparr>" by blast
  define r where "r = \<lparr>us_id = u_ID u, us_email = ?e, us_password_hash = h, us_status = 1, us_created_at = Truncate dbnow microsecond\<rparr>"
  have "accounts_ok T d'" by (rule insert_user_ok [OF assms(2) _ h(4)]) (use h(1) normalizeEmail_address in blast)
  then have ok: "accounts_ok T d''" unfolding assms(6) using assms(5) by (intro serve_accounts_ok) (auto simp: undisturbed_def)
  obtain xs where "ac_users d'' = ac_users d' @ xs" using serve_accounts_append [OF assms(5)] assms(6) by blast
  with insert_user_Inr(4) [OF h(4)] have "r \<in> set (ac_users d'')" by (simp add: r_def)
  then have "with_email T ?e d'' = Some r"
    using ok by (intro with_email_unique) (simp_all add: accounts_ok_def r_def)
  moreover have "snd (normalizeEmail T email2)"
    using h(1) assms(4) normalizeEmail_address [of T email] normalizeEmail_address [of T email2] by simp
  moreover have "bl_compare B h q = (bcrypt_key q = bcrypt_key p)" using assms(1) h(3) by (simp add: bcrypt_ok_def)
  moreover have "scan_user r = u\<lparr>u_CreatedAt := Truncate dbnow microsecond\<rparr>" by (subst h(5)) (simp add: scan_user_def r_def)
  ultimately show ?thesis
    using bcrypt_key_inj [of p q] h(2) assms(4) by (auto simp: Authenticate_quiet r_def intro!: exI [of _ h])
qed

text \<open>The new user, by its identifier.\<close>

lemma registered_user:
  assumes "accounts_ok T d" and "Register T B (quiet k) salt dbnow now email p d = (Inr u, d')"
  shows "u_ID u \<noteq> 0" and "u_Email u = fst (normalizeEmail T email)" and "role_codes T (u_ID u) d' = []"
    and "CurrentUser (quiet j) (u_ID u) d' = (Inr (u\<lparr>u_CreatedAt := Truncate dbnow microsecond\<rparr>), d')"
proof -
  from Register_Inr [OF assms(2)] obtain h where h: "insert_user T dbnow (fst (normalizeEmail T email)) h d = (Inr (u_ID u), d')"
    "snd (normalizeEmail T email)" "u = \<lparr>u_ID = u_ID u, u_Email = fst (normalizeEmail T email), u_CreatedAt = now\<rparr>" by blast
  note I = insert_user_Inr [OF h(1)]
  define r where "r = \<lparr>us_id = u_ID u, us_email = fst (normalizeEmail T email), us_password_hash = h, us_status = 1,
    us_created_at = Truncate dbnow microsecond\<rparr>"
  have ok: "accounts_ok T d'" by (rule insert_user_ok [OF assms(1) _ h(1)]) (use h(2) normalizeEmail_address in blast)
  have n: "numbered (map us_id (ac_users d))" using assms(1) by (simp add: accounts_ok_def users_ok_def)
  have "unat (u_ID u) = length (ac_users d) + 1" unfolding I(3) using I(2) by (rule unat_of_nat_u64)
  then show "u_ID u \<noteq> 0" by auto
  have new: "u_ID u \<notin> us_id ` set (ac_users d)"
    using numbered_fresh [OF n] I(2,3) by simp
  then have "\<forall>(v, x) \<in> set (ac_user_roles d'). v \<noteq> u_ID u"
    using assms(1) I(4) by (auto simp: accounts_ok_def assignments_ok_def)
  then have "filter (\<lambda>(v, x). v = u_ID u) (ac_user_roles d') = []" by (auto simp: filter_empty_conv)
  then show "role_codes T (u_ID u) d' = []" by (simp add: role_codes_def)
  show "u_Email u = fst (normalizeEmail T email)" by (subst h(3)) simp
  have r: "r \<in> set (ac_users d')" using I(4) by (simp add: r_def)
  have d: "distinct (map us_id (ac_users d'))" using ok user_ids_distinct [of T d'] by (simp add: accounts_ok_def)
  have "active_user (u_ID u) d' = Some r"
    unfolding active_user_def using new I(4) by (intro find_unique [OF d r]) (auto simp: r_def, metis imageI)
  moreover have "scan_user r = u\<lparr>u_CreatedAt := Truncate dbnow microsecond\<rparr>" by (subst h(3)) (simp add: scan_user_def r_def)
  ultimately show "CurrentUser (quiet j) (u_ID u) d' = (Inr (u\<lparr>u_CreatedAt := Truncate dbnow microsecond\<rparr>), d')"
    by (simp add: CurrentUser_def FindByID_def)
qed

text \<open>C31: a registration can be used. After a successful registration and any further requests, a login with any
  spelling of the same address succeeds exactly for the password that was registered (compared as bcrypt does:
  for passwords of at most 72 bytes without NUL, exactly that password), and answers with the registered user.
\<close>

theorem registered_user_authenticates:
  assumes "bcrypt_ok B" and "accounts_ok T d" and "Register T B (quiet k) salt dbnow now email p d = (Inr u, d')"
    and "fst (normalizeEmail T email2) = fst (normalizeEmail T email)"
    and "\<forall>s \<in> set steps. undisturbed (as_env s)" and "d'' = foldl (serve_account T B dummyHash attach) d' steps"
  shows "(\<exists>h. Authenticate T B dummyHash (quiet j) email2 q d'' =
      (if bcrypt_key q = bcrypt_key p then Inr (u\<lparr>u_CreatedAt := Truncate dbnow microsecond\<rparr>) else fail ErrInvalidCredentials, [h], d''))
    \<and> (NUL \<notin> set p \<union> set q \<and> length q \<le> 72 \<longrightarrow> (bcrypt_key q = bcrypt_key p \<longleftrightarrow> q = p))"
  by (rule registration_usable [OF assms])

lemma demo_chars: "char_of (97 :: nat) = CHR ''a''" "char_of (98 :: nat) = CHR ''b''"
  by code_simp+

definition demo_registered :: accounts where
  "demo_registered = migrated_accounts\<lparr>ac_users := [\<lparr>us_id = 1, us_email = ''a@b'', us_password_hash = bcrypt_key ''password'',
     us_status = 1, us_created_at = Truncate 5000 microsecond\<rparr>]\<rparr>"

lemma demo_address: "fst (normalizeEmail demo_text ''A@b'') = ''a@b''" "fst (normalizeEmail demo_text ''a@B'') = ''a@b''"
  "plain_address demo_text ''a@b''"
  by (simp_all add: normalizeEmail_def ToLower_def ascii_def lower_char_def byte_def demo_chars plain_address_def dot_atom_def
      atext_def HasPrefix_def)

lemma demo_registration:
  "Register demo_text demo_bcrypt (quiet 0) 0 5000 7000 ''A@b'' ''password'' migrated_accounts =
     (Inr \<lparr>u_ID = 1, u_Email = ''a@b'', u_CreatedAt = 7000\<rparr>, demo_registered)"
proof -
  have "normalizeEmail demo_text ''A@b'' = (''a@b'', True)"
    using demo_address normalizeEmail_address [of demo_text "''A@b''"] by (metis prod.collapse)
  then show ?thesis
    by (simp add: Register_def User_Repository_Create_def insert_user_def migrated_accounts_def demo_bcrypt_def table_full_def
        Let_def demo_registered_def)
qed

lemma demo_registered_ok: "accounts_ok demo_text demo_registered"
  using migrated_ok demo_address(3)
  by (simp add: accounts_ok_def users_ok_def roles_ok_def assignments_ok_def migrated_accounts_def demo_registered_def numbered_def)

theorem registered_user_authenticates_witness:
  "\<exists>h. Authenticate demo_text demo_bcrypt ''x'' (quiet 0) ''a@B'' ''password'' demo_registered =
     (Inr \<lparr>u_ID = 1, u_Email = ''a@b'', u_CreatedAt = 5000\<rparr>, [h], demo_registered)"
  using registered_user_authenticates [OF demo_bcrypt_ok migrated_ok demo_registration, of "''a@B''" "[]" demo_registered "''x''" True 0
      "''password''"] by (simp add: demo_address Truncate_micro)

text \<open>C34: a failed login tells nothing. For every address and password the answer is the user of the only active
  account with that address and password, or else the one error for invalid credentials; in every case exactly
  one hash is compared and nothing is written.
\<close>

theorem login_reveals_nothing:
  assumes "accounts_ok T d"
  shows "\<exists>h. Authenticate T B dummyHash (quiet k) email password d =
    ((if \<exists>r \<in> set (ac_users d). snd (normalizeEmail T email) \<and> tl_collate T (us_email r) = tl_collate T (fst (normalizeEmail T email)) \<and>
          us_status r = 1 \<and> bl_compare B (us_password_hash r) password
      then Inr (scan_user (the (with_email T (fst (normalizeEmail T email)) d))) else fail ErrInvalidCredentials), [h], d)"
proof -
  have "with_email T (fst (normalizeEmail T email)) d = Some r"
    if "r \<in> set (ac_users d)" "tl_collate T (us_email r) = tl_collate T (fst (normalizeEmail T email))" for r
    using assms that by (intro with_email_unique) (simp_all add: accounts_ok_def)
  then show ?thesis
    using with_email_Some [of T "fst (normalizeEmail T email)" d]
    by (cases "with_email T (fst (normalizeEmail T email)) d") (auto simp: Authenticate_quiet)
qed

theorem login_reveals_nothing_witness:
  "\<exists>h. Authenticate demo_text demo_bcrypt ''x'' (quiet 0) ''c@d'' ''password'' migrated_accounts = (fail ErrInvalidCredentials, [h], migrated_accounts)"
  using login_reveals_nothing [OF migrated_ok, of demo_bcrypt "''x''" 0 "''c@d''" "''password''"] by (simp add: migrated_accounts_def)

section \<open>Role assignments\<close>

text \<open>A role carries a permission, by its identifier and by its code.\<close>

definition role_grants :: "text_lib \<Rightarrow> accounts \<Rightarrow> string \<Rightarrow> u64 \<Rightarrow> bool" where
  "role_grants T d permissionCode r \<longleftrightarrow> (\<exists>(r', q) \<in> set (ac_role_permissions d). r' = r \<and>
     (\<exists>(p, pcode) \<in> set (ac_permissions d). p = q \<and> tl_collate T pcode = tl_collate T permissionCode))"

definition grants :: "text_lib \<Rightarrow> accounts \<Rightarrow> string \<Rightarrow> string \<Rightarrow> bool" where
  "grants T d permissionCode code \<longleftrightarrow> (\<exists>r. (r, code) \<in> set (ac_roles d) \<and> role_grants T d permissionCode r)"

lemma permitted_roles: "permitted T v permission d \<longleftrightarrow> (\<exists>r. (v, r) \<in> set (ac_user_roles d) \<and> role_grants T d permission r)"
  unfolding permitted_def role_grants_def by (auto split: prod.splits)

text \<open>The tables after the roles of a user were replaced by exactly those codes.\<close>

definition roles_are :: "text_lib \<Rightarrow> u64 \<Rightarrow> string list \<Rightarrow> accounts \<Rightarrow> accounts \<Rightarrow> bool" where
  "roles_are T userID codes d d' \<longleftrightarrow> mset (role_codes T userID d') = mset codes \<and>
     (\<forall>v. v \<noteq> userID \<longrightarrow> role_codes T v d' = role_codes T v d) \<and>
     (\<forall>v permission. permitted T v permission d' \<longleftrightarrow>
        (if v = userID then \<exists>code \<in> set codes. grants T d permission code else permitted T v permission d)) \<and>
     d' = d\<lparr>ac_user_roles := ac_user_roles d'\<rparr>"

lemma grants_role:
  assumes "roles_ok T d" and "(i, c) \<in> set (ac_roles d)"
  shows "grants T d permission c \<longleftrightarrow> role_grants T d permission i"
proof -
  have "r = i" if "(r, c) \<in> set (ac_roles d)" for r
  proof -
    have "inj_on (tl_collate T \<circ> snd) (set (ac_roles d))" using assms(1) by (simp add: roles_ok_def distinct_map)
    from inj_onD [OF this _ that assms(2)] show ?thesis by simp
  qed
  with assms(2) show ?thesis unfolding grants_def by blast
qed

lemma replace_roles_are:
  assumes ok: "accounts_ok T d" and run: "replace_roles_tx T userID codes d = (Inr x, d')"
  shows "roles_are T userID codes d d'"
proof -
  have r: "roles_ok T d" using ok by (simp add: accounts_ok_def)
  from replace_roles_Inr [OF ok run] obtain ids where
    d': "d' = d\<lparr>ac_user_roles := filter (\<lambda>(u, r). u \<noteq> userID) (ac_user_roles d) @ map (Pair userID) ids\<rparr>"
    and ids: "list_all2 (\<lambda>i c. (i, c) \<in> set (ac_roles d)) ids codes" by blast
  have mine: "filter (\<lambda>(u, r). u = userID) (ac_user_roles d') = map (Pair userID) ids"
    by (simp add: d' filter_map comp_def case_prod_unfold filter_empty_conv)
  have other: "filter (\<lambda>(u, r). u = v) (ac_user_roles d') = filter (\<lambda>(u, r). u = v) (ac_user_roles d)" if "v \<noteq> userID" for v
    using that by (auto simp: d' filter_map comp_def case_prod_unfold filter_empty_conv intro!: filter_cong)
  have same: "ac_roles d' = ac_roles d" "ac_role_permissions d' = ac_role_permissions d" "ac_permissions d' = ac_permissions d"
    by (simp_all add: d')
  have "mset (role_codes T userID d') = mset codes"
    using concat_roles [OF _ ids, of userID] r by (simp add: role_codes_def mine same roles_ok_def)
  moreover have "role_codes T v d' = role_codes T v d" if "v \<noteq> userID" for v
    by (simp add: role_codes_def other [OF that] same)
  moreover have rg: "role_grants T d' permission r = role_grants T d permission r" for permission r
    by (simp add: role_grants_def same)
  moreover have "permitted T userID permission d' \<longleftrightarrow> (\<exists>code \<in> set codes. grants T d permission code)" for permission
  proof -
    have "permitted T userID permission d' \<longleftrightarrow> (\<exists>i \<in> set ids. role_grants T d permission i)"
      unfolding permitted_roles rg by (auto simp: d')
    also have "\<dots> \<longleftrightarrow> (\<exists>k < length ids. role_grants T d permission (ids ! k))" by (metis in_set_conv_nth)
    also have "\<dots> \<longleftrightarrow> (\<exists>k < length codes. grants T d permission (codes ! k))"
    proof -
      have "length ids = length codes" "\<forall>k < length codes. grants T d permission (codes ! k) = role_grants T d permission (ids ! k)"
        using ids grants_role [OF r] by (simp_all add: list_all2_conv_all_nth)
      then show ?thesis by auto
    qed
    also have "\<dots> \<longleftrightarrow> (\<exists>code \<in> set codes. grants T d permission code)" by (metis in_set_conv_nth)
    finally show ?thesis .
  qed
  moreover have "permitted T v permission d' \<longleftrightarrow> permitted T v permission d" if "v \<noteq> userID" for v permission
    using that unfolding permitted_roles rg by (auto simp: d')
  ultimately show ?thesis by (simp add: roles_are_def d')
qed

text \<open>C32: an assignment of roles is all or nothing and takes effect at once. Whatever happens to the transaction,
  the tables are unchanged or the user has exactly the requested roles (trimmed, without repetitions), with the
  roles of the others untouched; after a success it is the latter. From then on exactly the permissions of
  these roles are granted, as no answer is cached.
\<close>

theorem role_assignment_atomic:
  assumes "accounts_ok T d" and "undisturbed env" and "ReplaceUserRoles T (env k) userID codes d = (res, d')"
  shows "(d' = d \<or> roles_are T userID (remdups (sort (map TrimSpace codes))) d d') \<and>
    (\<forall>x. res = Inr x \<longrightarrow> roles_are T userID (remdups (sort (map TrimSpace codes))) d d') \<and>
    (\<forall>v permission. v \<noteq> 0 \<and> TrimSpace permission \<noteq> [] \<longrightarrow>
       HasPermission T (quiet j) v permission d' = (Inr (permitted T v permission d'), d'))"
proof -
  let ?codes = "remdups (sort (map TrimSpace codes))"
  have "(d' = d \<or> roles_are T userID ?codes d d') \<and> (\<forall>x. res = Inr x \<longrightarrow> roles_are T userID ?codes d d')"
  proof (cases "userID = 0 \<or> (\<exists>code \<in> set codes. TrimSpace code = [])")
    case True
    with assms(3) show ?thesis by (auto simp: ReplaceUserRoles_def split: if_splits)
  next
    case False
    with assms(3) have "atomically (env k) (replace_roles_tx T userID ?codes) d = (res, d')"
      by (simp add: ReplaceUserRoles_def Repository_ReplaceUserRoles_def)
    from atomically_undisturbed [OF assms(2) this] show ?thesis using replace_roles_are [OF assms(1)] by blast
  qed
  then show ?thesis by (auto simp: HasPermission_def Repository_HasPermission_def)
qed

theorem role_assignment_atomic_witness:
  "roles_are demo_text 1 [''admin''] demo_registered (snd (ReplaceUserRoles demo_text (quiet 0) 1 ['' admin'', ''admin''] demo_registered))"
proof -
  have t: "TrimSpace '' admin'' = ''admin''" by code_simp
  have "fst (ReplaceUserRoles demo_text (quiet 0) 1 ['' admin'', ''admin''] demo_registered) = Inr ()"
    by (simp add: ReplaceUserRoles_def Repository_ReplaceUserRoles_def t byte_def replace_roles_tx_def demo_registered_def
        migrated_accounts_def findRoleIDs_def demo_text_def lower_char_def role_id_def insert_user_role_def)
  then show ?thesis
    using role_assignment_atomic [OF demo_registered_ok quiet_ok(2) prod.collapse [symmetric], of 0 1 "['' admin'', ''admin'']"]
    by (simp add: t byte_def)
qed

text \<open>
  A code that equals the code of a role only under the collation (another case, say) is found by the query but
  is no key of the map the service builds from its rows: the row that is inserted refers to role 0.
\<close>

lemma role_of_another_case:
  assumes "accounts_ok T d" and "userID \<in> us_id ` set (ac_users d)" and "userID \<noteq> 0"
    and "(i, code) \<in> set (ac_roles d)" and "tl_collate T c = tl_collate T code" and "c \<noteq> code"
    and "TrimSpace c = c" and "c \<noteq> []"
  shows "ReplaceUserRoles T (quiet k) userID [c] d = (Inl (Wrapf ''assign user role'' (MySQLError ER_NO_REFERENCED_ROW)), d)"
proof -
  have r: "roles_ok T d" using assms(1) by (simp add: accounts_ok_def)
  have "filter (\<lambda>(i, code). tl_collate T c = tl_collate T code) (ac_roles d) = [(i, code)]"
  proof -
    have "filter (\<lambda>x. fst x = tl_collate T code) (map (\<lambda>(i, code). (tl_collate T code, (i, code))) (ac_roles d)) =
        [(tl_collate T code, (i, code))]"
      using r by (intro filter_unique_key rev_image_eqI [OF assms(4), THEN image_set [THEN equalityD1, THEN subsetD]])
        (simp_all add: roles_ok_def comp_def case_prod_unfold)
    then have "map (\<lambda>x. (tl_collate T (snd x), x)) (filter (\<lambda>x. tl_collate T (snd x) = tl_collate T code) (ac_roles d)) =
        [(tl_collate T code, (i, code))]"
      by (simp add: filter_map comp_def case_prod_unfold)
    from arg_cong [OF this, of "map snd"] assms(5) show ?thesis
      by (simp add: comp_def case_prod_unfold eq_commute [of "tl_collate T code"])
  qed
  then have "findRoleIDs T [c] d = [(code, i)]" by (simp add: findRoleIDs_def)
  moreover have "0 \<notin> fst ` set (ac_roles d)" using r by (simp add: roles_ok_def)
  ultimately show ?thesis
    using assms by (auto simp: ReplaceUserRoles_def Repository_ReplaceUserRoles_def replace_roles_tx_def role_id_def
        insert_user_role_def accounts_ok_def assignments_ok_def)
qed

end
