(* ===== verification/Tokens.thy ===== *)
theory Tokens
  imports Prelude
begin

text \<open>
  Access tokens (\<open>internal/auth/token.go\<close>): a manager with a secret and a lifetime issues texts that name a user
  and reads them back. Signing and verification are the \<open>jwt\<close> library, an argument of the definitions with the
  laws its documentation gives.
\<close>

section \<open>The library\<close>

datatype signing_method = HS256 | Other_method string

record RegisteredClaims =
  jc_Issuer :: string
  jc_Subject :: string
  jc_IssuedAt :: "time option"
  jc_NotBefore :: "time option"
  jc_ExpiresAt :: "time option"

record parser_options =
  po_ValidMethods :: "signing_method list"
  po_Issuer :: string
  po_ExpirationRequired :: bool
  po_IssuedAt :: bool
  po_TimeFunc :: time

datatype jwt_error = Jwt_ErrTokenExpired | Jwt_ErrTokenInvalid

text \<open>\<open>SignedString\<close> with \<open>HS256\<close>, and \<open>ParseWithClaims\<close> with the claims it fills and whether the token is valid.\<close>

record jwt_lib =
  jw_NewNumericDate :: "time \<Rightarrow> time"
  jw_SignedString :: "string \<Rightarrow> RegisteredClaims \<Rightarrow> string result"
  jw_ParseWithClaims :: "(signing_method \<Rightarrow> string result) \<Rightarrow> parser_options \<Rightarrow> string \<Rightarrow> jwt_error + RegisteredClaims \<times> bool"

text \<open>The validation of the claims as documented: an expired token is reported as such whatever else is wrong.\<close>

definition validate_claims :: "parser_options \<Rightarrow> RegisteredClaims \<Rightarrow> jwt_error + RegisteredClaims \<times> bool" where
  "validate_claims opts c = (let now = po_TimeFunc opts in
     if (case jc_ExpiresAt c of Some e \<Rightarrow> e \<le> now | None \<Rightarrow> False) then Inl Jwt_ErrTokenExpired
     else if (po_ExpirationRequired opts \<and> jc_ExpiresAt c = None) \<or>
       (case jc_NotBefore c of Some n \<Rightarrow> now < n | None \<Rightarrow> False) \<or>
       (po_IssuedAt opts \<and> (case jc_IssuedAt c of Some i \<Rightarrow> now < i | None \<Rightarrow> False)) \<or>
       (po_Issuer opts \<noteq> [] \<and> jc_Issuer c \<noteq> po_Issuer opts)
     then Inl Jwt_ErrTokenInvalid
     else Inr (c, True))"

text \<open>
  Times have the precision of a second; a token with plain texts and whole seconds is printable, and is verified
  with the key that signed it and validated; and only what was signed with a key is accepted with it. The last law is an
  idealisation: the parser is not strict about base64, so that the last digit of a signature has other spellings with
  the same bits, which are accepted as the signed text is.
\<close>

definition plain_claims :: "RegisteredClaims \<Rightarrow> bool" where
  "plain_claims c \<longleftrightarrow> printable (jc_Issuer c) \<and> printable (jc_Subject c) \<and>
     (\<forall>t \<in> set_option (jc_IssuedAt c) \<union> set_option (jc_NotBefore c) \<union> set_option (jc_ExpiresAt c). t mod second = 0)"

definition jwt_ok :: "jwt_lib \<Rightarrow> bool" where
  "jwt_ok L \<longleftrightarrow> (\<forall>t. jw_NewNumericDate L t = Truncate t second) \<and>
     (\<forall>key c. \<exists>tok. jw_SignedString L key c = Inr tok) \<and>
     (\<forall>key c tok. jw_SignedString L key c = Inr tok \<longrightarrow> plain_claims c \<longrightarrow> printable tok \<and> tok \<noteq> []) \<and>
     (\<forall>key c tok keyfunc opts. jw_SignedString L key c = Inr tok \<longrightarrow> plain_claims c \<longrightarrow> HS256 \<in> set (po_ValidMethods opts) \<longrightarrow>
        keyfunc HS256 = Inr key \<longrightarrow> jw_ParseWithClaims L keyfunc opts tok = validate_claims opts c) \<and>
     (\<forall>keyfunc opts tok x. po_ValidMethods opts = [HS256] \<longrightarrow> jw_ParseWithClaims L keyfunc opts tok = Inr x \<longrightarrow>
        (\<exists>key c. keyfunc HS256 = Inr key \<and> jw_SignedString L key c = Inr tok))"

section \<open>The manager\<close>

abbreviation tokenIssuer :: string where "tokenIssuer \<equiv> ''service_rpc''"

text \<open>The clock \<open>now\<close> of the manager is an argument of its operations.\<close>

record TokenManager =
  tm_secret :: string
  tm_ttl :: int

definition newTokenManager :: "string \<Rightarrow> int \<Rightarrow> TokenManager result" where
  "newTokenManager secret ttl =
     (if length secret < 32 then Inl (Plain ''access token secret must be at least 32 bytes'')
      else if ttl \<le> 0 then Inl (Plain ''access token TTL must be positive'')
      else Inr \<lparr>tm_secret = secret, tm_ttl = ttl\<rparr>)"

definition Issue :: "jwt_lib \<Rightarrow> TokenManager \<Rightarrow> time \<Rightarrow> u64 \<Rightarrow> string result" where
  "Issue L m now userID =
     (if userID = 0 then Inl (Plain ''access token user ID must be positive'')
      else jw_SignedString L (tm_secret m)
        \<lparr>jc_Issuer = tokenIssuer, jc_Subject = FormatUint userID, jc_IssuedAt = Some (jw_NewNumericDate L now), jc_NotBefore = None,
         jc_ExpiresAt = Some (jw_NewNumericDate L (now + tm_ttl m))\<rparr>)"

definition token_key :: "TokenManager \<Rightarrow> signing_method \<Rightarrow> string result" where
  "token_key m method = (if method \<noteq> HS256 then Inl (Plain ''unexpected signing method'') else Inr (tm_secret m))"

definition token_options :: "time \<Rightarrow> parser_options" where
  "token_options now = \<lparr>po_ValidMethods = [HS256], po_Issuer = tokenIssuer, po_ExpirationRequired = True, po_IssuedAt = True,
     po_TimeFunc = now\<rparr>"

definition ParseUserID :: "jwt_lib \<Rightarrow> TokenManager \<Rightarrow> time \<Rightarrow> string \<Rightarrow> u64 result" where
  "ParseUserID L m now tokenText = (case jw_ParseWithClaims L (token_key m) (token_options now) tokenText of
       Inl Jwt_ErrTokenExpired \<Rightarrow> fail ErrTokenExpired
     | Inl Jwt_ErrTokenInvalid \<Rightarrow> fail ErrTokenInvalid
     | Inr (claims, valid) \<Rightarrow>
         if \<not> valid then fail ErrTokenInvalid
         else (case ParseUint (jc_Subject claims) of (userID, err) \<Rightarrow>
           if err \<noteq> None \<or> userID = 0 then fail ErrTokenInvalid else Inr userID))"

definition ExpiresInSeconds :: "TokenManager \<Rightarrow> int" where
  "ExpiresInSeconds m = go_div (tm_ttl m) second"

section \<open>What is issued can be read, and nothing else\<close>

lemma Truncate_second: "Truncate t second mod second = 0"
proof -
  have "(t - zero_time) mod 1000000000 = t mod 1000000000"
    using mod_mult_self1 [of t 62135596800 1000000000] by (simp add: zero_time_def)
  then show ?thesis by (simp add: Truncate_def)
qed

lemma issued_claims:
  assumes "jwt_ok L" and "Issue L m t userID = Inr tok"
  shows "userID \<noteq> 0 \<and> (\<exists>c. c = \<lparr>jc_Issuer = tokenIssuer, jc_Subject = FormatUint userID, jc_IssuedAt = Some (Truncate t second),
      jc_NotBefore = None, jc_ExpiresAt = Some (Truncate (t + tm_ttl m) second)\<rparr> \<and> plain_claims c \<and>
      jw_SignedString L (tm_secret m) c = Inr tok)"
  using assms by (auto simp: Issue_def jwt_ok_def plain_claims_def Truncate_second byte_def split: if_splits)

lemma Issue_total: "jwt_ok L \<Longrightarrow> userID \<noteq> 0 \<Longrightarrow> \<exists>tok. Issue L m now userID = Inr tok"
  unfolding Issue_def jwt_ok_def by (simp only: if_False)

lemma issued_printable: "jwt_ok L \<Longrightarrow> Issue L m t userID = Inr tok \<Longrightarrow> printable tok \<and> tok \<noteq> []"
  using issued_claims [of L m t userID tok] unfolding jwt_ok_def by blast

lemma parse_issued:
  assumes "jwt_ok L" and "Issue L m t userID = Inr tok"
  shows "ParseUserID L m now tok =
    (if Truncate (t + tm_ttl m) second \<le> now then fail ErrTokenExpired
     else if now < Truncate t second then fail ErrTokenInvalid else Inr userID)"
proof -
  obtain c where u: "userID \<noteq> 0" and c: "c = \<lparr>jc_Issuer = tokenIssuer, jc_Subject = FormatUint userID,
      jc_IssuedAt = Some (Truncate t second), jc_NotBefore = None, jc_ExpiresAt = Some (Truncate (t + tm_ttl m) second)\<rparr>"
    "plain_claims c" "jw_SignedString L (tm_secret m) c = Inr tok"
    using issued_claims [OF assms] by blast
  from c(2,3) assms(1) have "jw_ParseWithClaims L (token_key m) (token_options now) tok = validate_claims (token_options now) c"
    by (simp add: jwt_ok_def token_key_def token_options_def)
  with u show ?thesis by (auto simp: c(1) ParseUserID_def validate_claims_def token_options_def)
qed

text \<open>The secret is used by its managers only: a text signed with it was issued by one, at some time.\<close>

definition issued_by :: "jwt_lib \<Rightarrow> TokenManager \<Rightarrow> string \<Rightarrow> bool" where
  "issued_by L m tok \<longleftrightarrow> (\<exists>t userID. Issue L m t userID = Inr tok)"

definition secret_kept :: "jwt_lib \<Rightarrow> TokenManager \<Rightarrow> string \<Rightarrow> bool" where
  "secret_kept L m tok \<longleftrightarrow> ((\<exists>c. jw_SignedString L (tm_secret m) c = Inr tok) \<longrightarrow> issued_by L m tok)"

lemma accepted_issued:
  assumes "jwt_ok L" and "secret_kept L m tok" and p: "ParseUserID L m now tok = Inr userID"
  shows "\<exists>t. Issue L m t userID = Inr tok \<and> Truncate t second \<le> now \<and> now < Truncate (t + tm_ttl m) second"
proof -
  obtain x where x: "jw_ParseWithClaims L (token_key m) (token_options now) tok = Inr x"
    using p by (auto simp: ParseUserID_def split: sum.splits jwt_error.splits)
  have "po_ValidMethods (token_options now) = [HS256]" by (simp add: token_options_def)
  with x assms(1) obtain key c where "token_key m HS256 = Inr key" "jw_SignedString L key c = Inr tok"
    unfolding jwt_ok_def by blast
  then have "issued_by L m tok" using assms(2) by (auto simp: secret_kept_def token_key_def)
  then obtain t u where t: "Issue L m t u = Inr tok" by (auto simp: issued_by_def)
  from p parse_issued [OF assms(1) t, of now] have "u = userID" "Truncate t second \<le> now" "now < Truncate (t + tm_ttl m) second"
    by (auto split: if_splits)
  with t show ?thesis by blast
qed

text \<open>A library that satisfies the laws: claims in a text with unary lengths, and the key in front as its signature.\<close>

definition enc_text :: "string \<Rightarrow> string" where
  "enc_text s = replicate (length s) (CHR ''1'') @ CHR ''0'' # s"

definition dec_text :: "string \<Rightarrow> string \<times> string" where
  "dec_text x = (let n = length (takeWhile (\<lambda>c. c = CHR ''1'') x); r = drop (n + 1) x in (take n r, drop n r))"

lemma dec_enc_text [simp]: "dec_text (enc_text s @ r) = (s, r)"
proof -
  have "takeWhile (\<lambda>c. c = CHR ''1'') (replicate n (CHR ''1'') @ CHR ''0'' # x) = replicate n (CHR ''1'')" for n x
    by (induction n) simp_all
  then show ?thesis by (simp add: dec_text_def enc_text_def Let_def)
qed

definition enc_time :: "time option \<Rightarrow> string" where
  "enc_time t = (case t of None \<Rightarrow> enc_text [] | Some i \<Rightarrow>
     enc_text ((if i < 0 then CHR ''-'' else CHR ''+'') # replicate (nat \<bar>i\<bar>) (CHR ''1'')))"

definition dec_time :: "string \<Rightarrow> time option \<times> string" where
  "dec_time x = (case dec_text x of (s, r) \<Rightarrow> (case s of [] \<Rightarrow> None
     | c # u \<Rightarrow> Some (if c = CHR ''-'' then - int (length u) else int (length u)), r))"

lemma dec_enc_time [simp]: "dec_time (enc_time t @ r) = (t, r)"
  by (auto simp: dec_time_def enc_time_def split: option.splits)

definition demo_key :: "string \<Rightarrow> string" where
  "demo_key key = concat (map (\<lambda>c. replicate (byte c) (CHR ''1'') @ ''0'') key)"

definition demo_sign :: "string \<Rightarrow> RegisteredClaims \<Rightarrow> string" where
  "demo_sign key c = enc_text (demo_key key) @ enc_text (jc_Issuer c) @ enc_text (jc_Subject c) @ enc_time (jc_IssuedAt c) @
     enc_time (jc_NotBefore c) @ enc_time (jc_ExpiresAt c) @ []"

definition demo_read :: "string \<Rightarrow> string \<times> RegisteredClaims" where
  "demo_read x = (let (key, x1) = dec_text x; (iss, x2) = dec_text x1; (sub, x3) = dec_text x2; (i, x4) = dec_time x3;
     (n, x5) = dec_time x4; (e, x6) = dec_time x5
   in (key, \<lparr>jc_Issuer = iss, jc_Subject = sub, jc_IssuedAt = i, jc_NotBefore = n, jc_ExpiresAt = e\<rparr>))"

lemma demo_read_sign [simp]: "demo_read (demo_sign key c) = (demo_key key, c)"
  by (simp add: demo_read_def demo_sign_def del: append_Nil2)

definition demo_jwt :: jwt_lib where
  "demo_jwt = \<lparr>jw_NewNumericDate = (\<lambda>t. Truncate t second), jw_SignedString = (\<lambda>key c. Inr (demo_sign key c)),
     jw_ParseWithClaims = (\<lambda>keyfunc opts tok. case (keyfunc HS256, demo_read tok) of
         (Inr key, (k, c)) \<Rightarrow> if tok = demo_sign key c \<and> HS256 \<in> set (po_ValidMethods opts) then validate_claims opts c
           else Inl Jwt_ErrTokenInvalid
       | _ \<Rightarrow> Inl Jwt_ErrTokenInvalid)\<rparr>"

lemma printable_enc [simp]: "printable (enc_text s) \<longleftrightarrow> printable s" "printable (enc_time t)" "printable (demo_key key)"
  by (auto simp: enc_text_def enc_time_def demo_key_def printable_def byte_def split: option.splits)

lemma demo_jwt_ok: "jwt_ok demo_jwt"
proof -
  have "printable (demo_sign key c) \<and> demo_sign key c \<noteq> []" if "plain_claims c" for key c
    using that by (simp add: demo_sign_def plain_claims_def) (simp add: enc_text_def)
  then show ?thesis by (auto simp: jwt_ok_def demo_jwt_def split: prod.splits if_splits sum.splits)
qed

section \<open>Properties\<close>


definition demo_manager :: TokenManager where
  "demo_manager = \<lparr>tm_secret = replicate 32 (CHR ''k''), tm_ttl = 900 * second\<rparr>"

lemma demo_issue: "\<exists>tok. Issue demo_jwt demo_manager 0 7 = Inr tok \<and> secret_kept demo_jwt demo_manager tok"
proof -
  obtain tok where "Issue demo_jwt demo_manager 0 7 = Inr tok" by (simp add: Issue_def demo_jwt_def)
  then show ?thesis by (auto simp: secret_kept_def issued_by_def)
qed


text \<open>A manager exists only with a secret of at least 32 bytes and a positive lifetime, and reports it in seconds.\<close>

lemma newTokenManager_ok:
  "newTokenManager secret ttl = Inr m \<longleftrightarrow> 32 \<le> length secret \<and> 0 < ttl \<and> m = \<lparr>tm_secret = secret, tm_ttl = ttl\<rparr>"
  by (auto simp: newTokenManager_def)

lemma ExpiresInSeconds_seconds: "newTokenManager secret (n * second) = Inr m \<Longrightarrow> ExpiresInSeconds m = n"
  by (auto simp: newTokenManager_ok ExpiresInSeconds_def)

end
