(* ===== verification/Mq.thy ===== *)
theory Mq
  imports OrderEvents
begin

text \<open>
  Messages and the Kafka consumer (\<open>internal/platform/mq\<close>): the attempt header of \<open>message.go\<close>, the guards
  of the client in \<open>kafka.go\<close>, and the consumer of \<open>consumer.go\<close>, which commits the offset of a message
  only once the message is handled or a copy of it is acknowledged on the retry or dead-letter topic. The
  client library and the brokers behind it are an argument, \<open>lib\<close>, on a broker state of any type; what the
  consumer relies on is \<open>kafka_ok\<close>.
\<close>

section \<open>Messages\<close>

text \<open>The bytes of a value: the JSON value they denote, or bytes that are not JSON.\<close>

datatype payload = Json json | Not_json string

fun json_value :: "payload \<Rightarrow> json option" where
  "json_value (Json j) = Some j"
| "json_value (Not_json _) = None"

abbreviation AttemptHeader :: string where "AttemptHeader \<equiv> ''x-attempt''"

text \<open>The headers are a Go map, held as an association list with one entry for each key.\<close>

record Message =
  m_Topic :: string
  m_Key :: string
  m_Value :: payload
  m_Headers :: "(string \<times> string) list"
  m_Partition :: int
  m_Offset :: int

definition Attempt :: "Message \<Rightarrow> int result" where
  "Attempt m =
     (let value = TrimSpace (case map_of (m_Headers m) AttemptHeader of None \<Rightarrow> [] | Some v \<Rightarrow> v) in
      if value = [] then Inr 0
      else (case ParseInt value of
          (attempt, None) \<Rightarrow>
            if attempt < 0 then Inl (Wrapf ''invalid Kafka attempt header'' (Sentinel ErrPermanent)) else Inr attempt
        | (_, Some _) \<Rightarrow> Inl (Wrapf ''invalid Kafka attempt header'' (Sentinel ErrPermanent))))"

definition WithAttempt :: "Message \<Rightarrow> string \<Rightarrow> int \<Rightarrow> Message" where
  "WithAttempt m topic attempt = \<lparr>m_Topic = topic, m_Key = m_Key m, m_Value = m_Value m,
     m_Headers = AList.update AttemptHeader (FormatInt attempt) (m_Headers m), m_Partition = 0, m_Offset = 0\<rparr>"

definition Permanent :: "goerr option \<Rightarrow> goerr option" where
  "Permanent err = map_option (\<lambda>e. Caused (Sentinel ErrPermanent) (err_text e)) err"

section \<open>The client\<close>

record KafkaConfig =
  kc_Brokers :: "string list"
  kc_ClientID :: string
  kc_GroupID :: string
  kc_Topics :: "string list"
  kc_OperationTimeout :: int

definition ValidatePublisher :: "KafkaConfig \<Rightarrow> goerr option" where
  "ValidatePublisher c =
     (if kc_Brokers c = [] \<or> TrimSpace (kc_ClientID c) = [] \<or> kc_OperationTimeout c \<le> 0
      then Some (Plain ''Kafka brokers, client ID, and operation timeout are required'') else None)"

definition ValidateConsumer :: "KafkaConfig \<Rightarrow> goerr option" where
  "ValidateConsumer c = (case ValidatePublisher c of
       Some e \<Rightarrow> Some e
     | None \<Rightarrow> if TrimSpace (kc_GroupID c) = [] \<or> kc_Topics c = []
               then Some (Plain ''Kafka consumer group and topics are required'') else None)"

text \<open>A record of the client library; its headers are a list and a key may occur more than once.\<close>

record kgo_record =
  r_Topic :: string
  r_Key :: string
  r_Value :: payload
  r_Headers :: "(string \<times> string) list"
  r_Partition :: int
  r_Offset :: int

text \<open>The calls of the library the client makes; \<open>PollRecords\<close> answers with records and errors.\<close>

record 'b kafka_lib =
  kl_ProduceSync :: "kgo_record \<Rightarrow> 'b \<Rightarrow> goerr option \<times> 'b"
  kl_PollRecords :: "'b \<Rightarrow> (kgo_record list \<times> goerr list) \<times> 'b"
  kl_CommitRecords :: "kgo_record \<Rightarrow> 'b \<Rightarrow> goerr option \<times> 'b"

definition Publish :: "'b kafka_lib \<Rightarrow> Message \<Rightarrow> 'b \<Rightarrow> goerr option \<times> 'b" where
  "Publish lib m b =
     (if TrimSpace (m_Topic m) = [] \<or> m_Key m = [] \<or> m_Value m = Not_json []
      then (Some (Plain ''invalid Kafka publish message''), b)
      else (case kl_ProduceSync lib \<lparr>r_Topic = m_Topic m, r_Key = m_Key m, r_Value = m_Value m,
              r_Headers = m_Headers m, r_Partition = 0, r_Offset = 0\<rparr> b of
          (Some err, b') \<Rightarrow> (Some (Wrapf ''publish Kafka message'' err), b')
        | (None, b') \<Rightarrow> (None, b')))"

definition message_of :: "kgo_record \<Rightarrow> Message" where
  "message_of r = \<lparr>m_Topic = r_Topic r, m_Key = r_Key r, m_Value = r_Value r,
     m_Headers = fold (\<lambda>(k, v). AList.update k v) (r_Headers r) [], m_Partition = r_Partition r, m_Offset = r_Offset r\<rparr>"

definition Fetch :: "'b kafka_lib \<Rightarrow> goerr option \<Rightarrow> 'b \<Rightarrow> Message result \<times> 'b" where
  "Fetch lib ctxErr b = (case kl_PollRecords lib b of
       ((r # _, _), b') \<Rightarrow> (Inr (message_of r), b')
     | (([], err # _), b') \<Rightarrow> (Inl (Wrapf ''fetch Kafka message'' err), b')
     | (([], []), b') \<Rightarrow> (Inl (case ctxErr of Some err \<Rightarrow> err | None \<Rightarrow> Plain ''Kafka poll returned no record''), b'))"

definition Commit :: "'b kafka_lib \<Rightarrow> Message \<Rightarrow> 'b \<Rightarrow> goerr option \<times> 'b" where
  "Commit lib m b = (case kl_CommitRecords lib \<lparr>r_Topic = m_Topic m, r_Key = [], r_Value = Not_json [], r_Headers = [],
       r_Partition = m_Partition m, r_Offset = m_Offset m\<rparr> b of
       (Some err, b') \<Rightarrow> (Some (Wrapf ''commit Kafka offset'' err), b')
     | (None, b') \<Rightarrow> (None, b'))"

section \<open>The consumer\<close>

record ConsumerConfig =
  cc_RetryTopic :: string
  cc_DLQTopic :: string
  cc_MaxAttempts :: int

definition ConsumerConfig_Validate :: "ConsumerConfig \<Rightarrow> goerr option" where
  "ConsumerConfig_Validate c =
     (if cc_RetryTopic c = [] \<or> cc_DLQTopic c = [] \<or> cc_RetryTopic c = cc_DLQTopic c \<or> cc_MaxAttempts c \<le> 0
      then Some (Plain ''Kafka retry topic, DLQ topic, and positive max attempts are required'') else None)"

type_synonym 's handler = "Message \<Rightarrow> 's \<Rightarrow> goerr option \<times> 's"

text \<open>The copy of a message that failed, for the retry topic or, when the error is permanent or the attempts
  are used up, for the dead-letter topic.\<close>

definition forward :: "ConsumerConfig \<Rightarrow> int \<Rightarrow> goerr \<Rightarrow> Message \<Rightarrow> Message" where
  "forward config attempt handleErr message =
     (let nextAttempt = wrap_i64 (attempt + 1);
          target = (if errors_Is handleErr ErrPermanent \<or> cc_MaxAttempts config \<le> nextAttempt
                    then cc_DLQTopic config else cc_RetryTopic config)
      in WithAttempt message target nextAttempt)"

definition ProcessOne ::
  "'b kafka_lib \<Rightarrow> ConsumerConfig \<Rightarrow> 's handler \<Rightarrow> goerr option \<Rightarrow> 's \<times> 'b \<Rightarrow> goerr option \<times> 's \<times> 'b" where
  "ProcessOne lib config handler ctxErr = (\<lambda>(s, b). case Fetch lib ctxErr b of
       (Inl err, b1) \<Rightarrow> (Some err, s, b1)
     | (Inr message, b1) \<Rightarrow>
         (let (attempt, (handleErr, s1)) = (case Attempt message of
                Inl err \<Rightarrow> (0, (Some err, s))
              | Inr attempt \<Rightarrow> (attempt, handler message s))
          in case handleErr of
               None \<Rightarrow> (case Commit lib message b1 of (res, b2) \<Rightarrow> (res, s1, b2))
             | Some err \<Rightarrow>
                 (case Publish lib (forward config attempt err message) b1 of
                    (Some err, b2) \<Rightarrow> (Some (Wrapf ''publish Kafka retry/DLQ before source commit'' err), s1, b2)
                  | (None, b2) \<Rightarrow>
                      (case Commit lib message b2 of
                         (Some err, b3) \<Rightarrow> (Some (Wrapf ''commit Kafka source after retry/DLQ publish'' err), s1, b3)
                       | (None, b3) \<Rightarrow> (None, s1, b3)))))"

text \<open>\<open>Run\<close> processes messages until one returns an error; \<open>n\<close> bounds how many messages are followed, and the
  answer \<open>None\<close> means that it is still running.\<close>

fun Consumer_Run ::
  "nat \<Rightarrow> 'b kafka_lib \<Rightarrow> ConsumerConfig \<Rightarrow> 's handler \<Rightarrow> (nat \<Rightarrow> goerr option) \<Rightarrow> 's \<times> 'b \<Rightarrow> goerr option \<times> 's \<times> 'b" where
  "Consumer_Run 0 lib config handler ctxErr sb = (None, sb)"
| "Consumer_Run (Suc n) lib config handler ctxErr sb = (case ProcessOne lib config handler (ctxErr n) sb of
       (Some err, sb') \<Rightarrow> (Some err, sb')
     | (None, sb') \<Rightarrow> Consumer_Run n lib config handler ctxErr sb')"

section \<open>What the consumer relies on\<close>

text \<open>
  The library, seen through the records of the log, the offsets the group has committed and the positions
  of the session. Records are never removed and a record is added at or after the position; a record produced
  with success is in the log, whatever happens to one produced with an error; a poll returns the next
  record of a partition and moves past it; a commit moves the committed offset just past the record or,
  on an error, may leave it.
\<close>

type_synonym place = "string \<times> int"

definition place_of :: "kgo_record \<Rightarrow> place" where
  "place_of r = (r_Topic r, r_Partition r)"

definition log_grows :: "('b \<Rightarrow> kgo_record set) \<Rightarrow> ('b \<Rightarrow> place \<Rightarrow> int) \<Rightarrow> 'b \<Rightarrow> 'b \<Rightarrow> bool" where
  "log_grows lg pos b b' \<longleftrightarrow> lg b \<subseteq> lg b' \<and> (\<forall>r \<in> lg b' - lg b. pos b (place_of r) \<le> r_Offset r)"

definition copy_in :: "kgo_record \<Rightarrow> kgo_record set \<Rightarrow> bool" where
  "copy_in r rs \<longleftrightarrow> (\<exists>r' \<in> rs. r_Topic r' = r_Topic r \<and> r_Key r' = r_Key r \<and> r_Value r' = r_Value r \<and>
     r_Headers r' = r_Headers r)"

definition kafka_ok ::
  "'b kafka_lib \<Rightarrow> ('b \<Rightarrow> kgo_record set) \<Rightarrow> ('b \<Rightarrow> place \<Rightarrow> int) \<Rightarrow> ('b \<Rightarrow> place \<Rightarrow> int) \<Rightarrow> bool" where
  "kafka_ok lib lg pos committed \<longleftrightarrow>
     (\<forall>r b res b'. kl_ProduceSync lib r b = (res, b') \<longrightarrow>
        log_grows lg pos b b' \<and> (res = None \<longrightarrow> copy_in r (lg b')) \<and> pos b' = pos b \<and> committed b' = committed b) \<and>
     (\<forall>r b res b'. kl_CommitRecords lib r b = (res, b') \<longrightarrow>
        log_grows lg pos b b' \<and> pos b' = pos b \<and>
        (committed b' = (committed b)(place_of r := r_Offset r + 1) \<or> res \<noteq> None \<and> committed b' = committed b)) \<and>
     (\<forall>b rs errs b'. kl_PollRecords lib b = ((rs, errs), b') \<longrightarrow>
        log_grows lg pos b b' \<and> committed b' = committed b \<and>
        (case rs of [] \<Rightarrow> pos b' = pos b
         | r # _ \<Rightarrow> r \<in> lg b' \<and> pos b (place_of r) \<le> r_Offset r \<and>
             (\<forall>r' \<in> lg b'. place_of r' = place_of r \<and> pos b (place_of r) \<le> r_Offset r' \<and> r_Offset r' \<le> r_Offset r \<longrightarrow> r' = r) \<and>
             pos b' = (pos b)(place_of r := r_Offset r + 1)))"

section \<open>Attempts\<close>

lemma Attempt_WithAttempt_eq:
  assumes "0 \<le> n" and "n \<le> max_i64"
  shows "Attempt (WithAttempt m topic n) = Inr n"
  using assms by (simp add: Attempt_def WithAttempt_def update_conv' in_i64_def max_i64_def)

lemma map_of_fold_update:
  "map_of (fold (\<lambda>(k, v). AList.update k v) kvs acc) = map_of acc ++ map_of (rev kvs)"
  by (induction kvs arbitrary: acc) (auto simp: update_conv' map_add_upd_left split: prod.splits)

lemma distinct_keys_rev: "distinct (map fst kvs) \<Longrightarrow> map_of (rev kvs) = map_of kvs"
  by (rule map_of_eqI) (auto simp: rev_map [symmetric])

text \<open>The header survives the broker: what is fetched carries the number that was published.\<close>

lemma Attempt_message_of:
  assumes "map_of (rev (r_Headers r)) AttemptHeader = map_of (m_Headers m) AttemptHeader"
  shows "Attempt (message_of r) = Attempt m"
  using assms by (simp add: Attempt_def message_of_def map_of_fold_update)

lemma forward_Attempt:
  assumes "0 \<le> a" and "a < cc_MaxAttempts config" and "cc_MaxAttempts config \<le> max_i64"
  shows "Attempt (forward config a err m) = Inr (a + 1)"
    and "m_Topic (forward config a err m) =
      (if errors_Is err ErrPermanent \<or> cc_MaxAttempts config \<le> a + 1 then cc_DLQTopic config else cc_RetryTopic config)"
proof -
  have "wrap_i64 (a + 1) = a + 1" using assms by (simp add: in_i64_def max_i64_def)
  then show "Attempt (forward config a err m) = Inr (a + 1)"
    and "m_Topic (forward config a err m) =
      (if errors_Is err ErrPermanent \<or> cc_MaxAttempts config \<le> a + 1 then cc_DLQTopic config else cc_RetryTopic config)"
    using assms by (simp add: forward_def Let_def Attempt_WithAttempt_eq, simp add: forward_def Let_def WithAttempt_def)
qed

section \<open>Nothing is lost\<close>

definition handler_ok :: "(Message \<Rightarrow> 's \<Rightarrow> bool) \<Rightarrow> 's handler \<Rightarrow> bool" where
  "handler_ok handled handler \<longleftrightarrow>
     (\<forall>m s s'. handler m s = (None, s') \<longrightarrow> handled m s') \<and>
     (\<forall>m m' s. handled m s \<longrightarrow> handled m (snd (handler m' s)))"

text \<open>A record is safe when its message was handled or a copy waits on the retry or dead-letter topic.\<close>

definition safe :: "(Message \<Rightarrow> 's \<Rightarrow> bool) \<Rightarrow> ConsumerConfig \<Rightarrow> 's \<Rightarrow> kgo_record set \<Rightarrow> kgo_record \<Rightarrow> bool" where
  "safe handled config s rs r \<longleftrightarrow> handled (message_of r) s \<or>
     (\<exists>r' \<in> rs. r_Topic r' \<in> {cc_RetryTopic config, cc_DLQTopic config} \<and> r_Key r' = r_Key r \<and> r_Value r' = r_Value r)"

lemma safe_mono: "safe handled config s rs r \<Longrightarrow> rs \<subseteq> rs' \<Longrightarrow> safe handled config s rs' r"
  by (auto simp: safe_def)

lemma safe_handler: "safe handled config s rs r \<Longrightarrow> handler_ok handled handler \<Longrightarrow> safe handled config (snd (handler m s)) rs r"
  by (auto simp: safe_def handler_ok_def)

definition all_safe ::
  "(Message \<Rightarrow> 's \<Rightarrow> bool) \<Rightarrow> ConsumerConfig \<Rightarrow> ('b \<Rightarrow> kgo_record set) \<Rightarrow> (place \<Rightarrow> int) \<Rightarrow> 's \<Rightarrow> 'b \<Rightarrow> bool" where
  "all_safe handled config lg bound s b \<longleftrightarrow>
     (\<forall>r \<in> lg b. r_Offset r < bound (place_of r) \<longrightarrow> safe handled config s (lg b) r)"

lemma all_safe_grows:
  assumes "all_safe handled config lg bound s b" and "log_grows lg pos b b'" and "\<And>p. bound p \<le> pos b p"
  shows "all_safe handled config lg bound s b'"
  unfolding all_safe_def
proof (intro ballI impI)
  fix r assume r: "r \<in> lg b'" "r_Offset r < bound (place_of r)"
  have "r \<in> lg b"
  proof (rule ccontr)
    assume "r \<notin> lg b"
    then have "pos b (place_of r) \<le> r_Offset r" using assms(2) r(1) by (auto simp: log_grows_def)
    with r(2) assms(3) [of "place_of r"] show False by linarith
  qed
  with assms r show "safe handled config s (lg b') r" by (auto simp: all_safe_def log_grows_def intro: safe_mono)
qed

lemma all_safe_handler:
  "all_safe handled config lg bound s b \<Longrightarrow> handler_ok handled handler \<Longrightarrow> all_safe handled config lg bound (snd (handler m s)) b"
  by (auto simp: all_safe_def intro: safe_handler)

lemma all_safe_bound: "all_safe handled config lg bound s b \<Longrightarrow> (\<And>p. bound' p \<le> bound p) \<Longrightarrow> all_safe handled config lg bound' s b"
  by (meson all_safe_def order.strict_trans2)

lemma all_safe_extend:
  assumes "all_safe handled config lg bound s b" and "safe handled config s (lg b) r0"
    and "\<And>r. r \<in> lg b \<Longrightarrow> place_of r = place_of r0 \<Longrightarrow> bound (place_of r0) \<le> r_Offset r \<Longrightarrow> r_Offset r \<le> r_Offset r0 \<Longrightarrow> r = r0"
  shows "all_safe handled config lg (bound(place_of r0 := r_Offset r0 + 1)) s b"
  unfolding all_safe_def
proof (intro ballI impI)
  fix r assume r: "r \<in> lg b" "r_Offset r < (bound(place_of r0 := r_Offset r0 + 1)) (place_of r)"
  show "safe handled config s (lg b) r"
  proof (cases "r_Offset r < bound (place_of r)")
    case True
    with r assms(1) show ?thesis by (simp add: all_safe_def)
  next
    case False
    with r have "place_of r = place_of r0" by (metis fun_upd_other)
    with r False assms(3) [OF r(1)] have "r = r0" by simp
    with assms(2) show ?thesis by simp
  qed
qed

text \<open>The laws of the library for the calls of the client.\<close>

lemma Publish_law:
  assumes "kafka_ok lib lg pos committed" and "Publish lib m b = (res, b')"
  shows "log_grows lg pos b b' \<and> pos b' = pos b \<and> committed b' = committed b"
    and "res = None \<Longrightarrow> \<exists>r \<in> lg b'. r_Topic r = m_Topic m \<and> r_Key r = m_Key m \<and> r_Value r = m_Value m \<and> r_Headers r = m_Headers m"
proof -
  define k where "k = \<lparr>r_Topic = m_Topic m, r_Key = m_Key m, r_Value = m_Value m, r_Headers = m_Headers m,
    r_Partition = 0, r_Offset = 0\<rparr>"
  obtain kr kb where k: "kl_ProduceSync lib k b = (kr, kb)" by fastforce
  have law: "log_grows lg pos b kb \<and> (kr = None \<longrightarrow> copy_in k (lg kb)) \<and> pos kb = pos b \<and> committed kb = committed b"
    using assms(1) k unfolding kafka_ok_def by blast
  have "log_grows lg pos b b" by (simp add: log_grows_def)
  with law assms(2) k show "log_grows lg pos b b' \<and> pos b' = pos b \<and> committed b' = committed b"
    by (auto simp: Publish_def k_def split: if_splits option.splits)
  assume "res = None"
  with law assms(2) k show "\<exists>r \<in> lg b'. r_Topic r = m_Topic m \<and> r_Key r = m_Key m \<and> r_Value r = m_Value m \<and> r_Headers r = m_Headers m"
    by (auto simp: Publish_def k_def copy_in_def split: if_splits option.splits)
qed

lemma Commit_law:
  assumes "kafka_ok lib lg pos committed" and "Commit lib m b = (res, b')"
  shows "log_grows lg pos b b' \<and> pos b' = pos b \<and>
    (committed b' = (committed b)((m_Topic m, m_Partition m) := m_Offset m + 1) \<or> res \<noteq> None \<and> committed b' = committed b)"
proof -
  define k where "k = \<lparr>r_Topic = m_Topic m, r_Key = [], r_Value = Not_json [], r_Headers = [],
    r_Partition = m_Partition m, r_Offset = m_Offset m\<rparr>"
  obtain kr kb where k: "kl_CommitRecords lib k b = (kr, kb)" by fastforce
  have "log_grows lg pos b kb \<and> pos kb = pos b \<and>
      (committed kb = (committed b)(place_of k := r_Offset k + 1) \<or> kr \<noteq> None \<and> committed kb = committed b)"
    using assms(1) k unfolding kafka_ok_def by blast
  moreover have "place_of k = (m_Topic m, m_Partition m)" "r_Offset k = m_Offset m" by (simp_all add: k_def place_of_def)
  ultimately show ?thesis using assms(2) k by (auto simp: Commit_def k_def [symmetric] split: option.splits)
qed

lemma Fetch_law:
  assumes "kafka_ok lib lg pos committed" and "Fetch lib ctxErr b = (res, b')"
  shows "log_grows lg pos b b' \<and> committed b' = committed b"
    and "res = Inr m \<Longrightarrow> \<exists>r. m = message_of r \<and> r \<in> lg b' \<and> pos b (place_of r) \<le> r_Offset r \<and>
       (\<forall>r' \<in> lg b'. place_of r' = place_of r \<and> pos b (place_of r) \<le> r_Offset r' \<and> r_Offset r' \<le> r_Offset r \<longrightarrow> r' = r) \<and>
       pos b' = (pos b)(place_of r := r_Offset r + 1)"
proof -
  obtain rs errs kb where k: "kl_PollRecords lib b = ((rs, errs), kb)" by (metis surj_pair)
  have "log_grows lg pos b kb \<and> committed kb = committed b \<and>
        (case rs of [] \<Rightarrow> pos kb = pos b
         | r # _ \<Rightarrow> r \<in> lg kb \<and> pos b (place_of r) \<le> r_Offset r \<and>
             (\<forall>r' \<in> lg kb. place_of r' = place_of r \<and> pos b (place_of r) \<le> r_Offset r' \<and> r_Offset r' \<le> r_Offset r \<longrightarrow> r' = r) \<and>
             pos kb = (pos b)(place_of r := r_Offset r + 1))"
    using assms(1) k unfolding kafka_ok_def by blast
  then show "log_grows lg pos b b' \<and> committed b' = committed b"
    and "res = Inr m \<Longrightarrow> \<exists>r. m = message_of r \<and> r \<in> lg b' \<and> pos b (place_of r) \<le> r_Offset r \<and>
       (\<forall>r' \<in> lg b'. place_of r' = place_of r \<and> pos b (place_of r) \<le> r_Offset r' \<and> r_Offset r' \<le> r_Offset r \<longrightarrow> r' = r) \<and>
       pos b' = (pos b)(place_of r := r_Offset r + 1)"
    using assms(2) k by (auto simp: Fetch_def split: list.splits)
qed

definition session_ok ::
  "(Message \<Rightarrow> 's \<Rightarrow> bool) \<Rightarrow> ConsumerConfig \<Rightarrow> ('b \<Rightarrow> kgo_record set) \<Rightarrow> ('b \<Rightarrow> place \<Rightarrow> int) \<Rightarrow> ('b \<Rightarrow> place \<Rightarrow> int) \<Rightarrow> 's \<times> 'b \<Rightarrow> bool" where
  "session_ok handled config lg pos committed = (\<lambda>(s, b).
     all_safe handled config lg (pos b) s b \<and> (\<forall>p. committed b p \<le> pos b p))"

definition committed_safe ::
  "(Message \<Rightarrow> 's \<Rightarrow> bool) \<Rightarrow> ConsumerConfig \<Rightarrow> ('b \<Rightarrow> kgo_record set) \<Rightarrow> ('b \<Rightarrow> place \<Rightarrow> int) \<Rightarrow> 's \<times> 'b \<Rightarrow> bool" where
  "committed_safe handled config lg committed = (\<lambda>(s, b). all_safe handled config lg (committed b) s b)"

lemma session_committed: "session_ok handled config lg pos committed sb \<Longrightarrow> committed_safe handled config lg committed sb"
  by (auto simp: session_ok_def committed_safe_def intro: all_safe_bound)

lemma Commit_session:
  assumes "kafka_ok lib lg pos committed" and "session_ok handled config lg pos committed (s, b)"
    and "m_Offset m < pos b (m_Topic m, m_Partition m)" and "Commit lib m b = (res, b')"
  shows "session_ok handled config lg pos committed (s, b')"
proof -
  have "log_grows lg pos b b' \<and> pos b' = pos b \<and>
    (committed b' = (committed b)((m_Topic m, m_Partition m) := m_Offset m + 1) \<or> res \<noteq> None \<and> committed b' = committed b)"
    by (rule Commit_law [OF assms(1,4)])
  with assms(2,3) show ?thesis by (auto simp: session_ok_def intro: all_safe_grows)
qed

text \<open>A message that was fetched, then found safe, leaves the session in order.\<close>

lemma fetched_session:
  assumes ok: "kafka_ok lib lg pos committed" and inv: "session_ok handled config lg pos committed (s, b)"
    and h: "handler_ok handled handler" and fetch: "Fetch lib ctxErr b = (Inr m, b1)"
    and s1: "s1 = s \<or> s1 = snd (handler m s)"
    and grows: "log_grows lg pos b1 b2 \<and> pos b2 = pos b1 \<and> committed b2 = committed b1"
  shows "committed_safe handled config lg committed (s1, b2)"
    and "(\<And>r. m = message_of r \<Longrightarrow> safe handled config s1 (lg b2) r) \<Longrightarrow> session_ok handled config lg pos committed (s1, b2)"
    and "m_Offset m < pos b2 (m_Topic m, m_Partition m)"
proof -
  have f1: "log_grows lg pos b b1 \<and> committed b1 = committed b" by (rule Fetch_law(1) [OF ok fetch])
  obtain r where r: "m = message_of r" "r \<in> lg b1" "pos b (place_of r) \<le> r_Offset r"
    "\<forall>r' \<in> lg b1. place_of r' = place_of r \<and> pos b (place_of r) \<le> r_Offset r' \<and> r_Offset r' \<le> r_Offset r \<longrightarrow> r' = r"
    "pos b1 = (pos b)(place_of r := r_Offset r + 1)"
    using Fetch_law(2) [OF ok fetch] by blast
  have le: "pos b p \<le> pos b1 p" for p using r(3,5) by simp
  have safe1: "all_safe handled config lg (pos b) s1 b"
    using inv s1 all_safe_handler [OF _ h] by (auto simp: session_ok_def)
  have all1: "all_safe handled config lg (pos b) s1 b1" by (rule all_safe_grows [OF safe1]) (use f1 in auto)
  have all2: "all_safe handled config lg (pos b) s1 b2" by (rule all_safe_grows [OF all1]) (use grows le in auto)
  have cm: "committed b2 p \<le> pos b p" for p using inv f1 grows by (auto simp: session_ok_def simp del: split_paired_All)
  show "committed_safe handled config lg committed (s1, b2)"
    using all_safe_bound [OF all2 cm] by (simp add: committed_safe_def)
  show "m_Offset m < pos b2 (m_Topic m, m_Partition m)" using r grows by (simp add: message_of_def place_of_def)
  assume "\<And>r. m = message_of r \<Longrightarrow> safe handled config s1 (lg b2) r"
  then have "all_safe handled config lg ((pos b)(place_of r := r_Offset r + 1)) s1 b2"
  proof (intro all_safe_extend all2)
    fix r' assume r': "r' \<in> lg b2" "place_of r' = place_of r" "pos b (place_of r) \<le> r_Offset r'" "r_Offset r' \<le> r_Offset r"
    have "r' \<in> lg b1"
      using grows r' r(5) by (auto simp: log_grows_def dest!: bspec [of _ _ r'])
    with r(4) r' show "r' = r" by blast
  qed (use r in simp)
  then show "session_ok handled config lg pos committed (s1, b2)"
    using grows r(5) order_trans [OF cm le] by (simp add: session_ok_def del: split_paired_All)
qed

text \<open>The ways a message can go.\<close>

lemma ProcessOne_cases:
  assumes "ProcessOne lib config handler ctxErr (s, b) = (res, s', b')"
  obtains (no_message) err where "Fetch lib ctxErr b = (Inl err, b')" "res = Some err" "s' = s"
  | (handled) m b1 a where "Fetch lib ctxErr b = (Inr m, b1)" "Attempt m = Inr a" "handler m s = (None, s')"
      "Commit lib m b1 = (res, b')"
  | (refused) m b1 a err e where "Fetch lib ctxErr b = (Inr m, b1)" "s' = s \<or> s' = snd (handler m s)"
      "Publish lib (forward config a err m) b1 = (Some e, b')" "res \<noteq> None"
  | (forwarded) m b1 a err b2 cr where "Fetch lib ctxErr b = (Inr m, b1)" "s' = s \<or> s' = snd (handler m s)"
      "Publish lib (forward config a err m) b1 = (None, b2)" "Commit lib m b2 = (cr, b')" "res = None \<longleftrightarrow> cr = None"
proof (cases "Fetch lib ctxErr b")
  case (Pair fr b1)
  show thesis
  proof (cases fr)
    case (Inl err)
    with Pair assms show thesis by (intro no_message) (auto simp: ProcessOne_def)
  next
    case (Inr m)
    obtain a handleErr s1 where a: "(a, (handleErr, s1)) = (case Attempt m of
        Inl err \<Rightarrow> (0, (Some err, s)) | Inr attempt \<Rightarrow> (attempt, handler m s))"
      by (metis surj_pair)
    have s1: "s1 = s \<or> s1 = snd (handler m s)" using a by (auto split: sum.splits simp: prod_eq_iff)
    note step = assms [unfolded ProcessOne_def prod.case Pair Inr sum.case a [symmetric] Let_def]
    show thesis
    proof (cases handleErr)
      case None
      then obtain a' where "Attempt m = Inr a'" "handler m s = (None, s1)" using a by (auto split: sum.splits)
      moreover have "Commit lib m b1 = (res, b')" "s' = s1" using step None by (auto split: prod.splits)
      ultimately show thesis using Pair Inr handled by simp
    next
      case (Some err)
      obtain pr b2 where pub: "Publish lib (forward config a err m) b1 = (pr, b2)" by fastforce
      show thesis
      proof (cases pr)
        case None
        with step Some pub s1 Pair Inr show thesis
          by (intro forwarded [of m b1 a err b2 "fst (Commit lib m b2)"]) (auto split: prod.splits option.splits)
      next
        case (Some e)
        with step \<open>handleErr = Some err\<close> pub s1 Pair Inr show thesis by (intro refused [of m b1 a err e]) auto
      qed
    qed
  qed
qed

lemma ProcessOne_session:
  assumes ok: "kafka_ok lib lg pos committed" and inv: "session_ok handled config lg pos committed (s, b)"
    and h: "handler_ok handled handler" and run: "ProcessOne lib config handler ctxErr (s, b) = (res, s', b')"
  shows "committed_safe handled config lg committed (s', b') \<and>
    (res = None \<longrightarrow> session_ok handled config lg pos committed (s', b'))"
  using run
proof (cases rule: ProcessOne_cases)
  case (no_message err)
  have "log_grows lg pos b b' \<and> committed b' = committed b" by (rule Fetch_law(1) [OF ok no_message(1)])
  with no_message show ?thesis
    using all_safe_grows [of handled config lg "committed b" s b pos b'] session_committed [OF inv] inv
    by (auto simp: committed_safe_def session_ok_def simp del: split_paired_All)
next
  case (handled m b1 a)
  have grows: "log_grows lg pos b1 b1 \<and> pos b1 = pos b1 \<and> committed b1 = committed b1" by (simp add: log_grows_def)
  have s': "s' = s \<or> s' = snd (handler m s)" using handled by simp
  have "session_ok handled config lg pos committed (s', b1)"
    by (rule fetched_session(2) [OF ok inv h handled(1) s' grows]) (use h handled(3) in \<open>auto simp: safe_def handler_ok_def\<close>)
  then have "session_ok handled config lg pos committed (s', b')"
    using fetched_session(3) [OF ok inv h handled(1) s' grows] Commit_session [OF ok _ _ handled(4)] by simp
  then show ?thesis using session_committed by blast
next
  case (refused m b1 a err e)
  then show ?thesis using fetched_session(1) [OF ok inv h refused(1,2) Publish_law(1) [OF ok refused(3)]] by auto
next
  case (forwarded m b1 a err b2 cr)
  note fs = fetched_session [OF ok inv h forwarded(1,2) Publish_law(1) [OF ok forwarded(3)]]
  have "safe handled config s' (lg b2) r" if "m = message_of r" for r
  proof -
    obtain r' where "r' \<in> lg b2" "r_Topic r' = m_Topic (forward config a err m)" "r_Key r' = m_Key m" "r_Value r' = m_Value m"
      using Publish_law(2) [OF ok forwarded(3)] by (auto simp: forward_def Let_def WithAttempt_def)
    with that show ?thesis
      unfolding safe_def by (intro disjI2 bexI [of _ r']) (auto simp: forward_def Let_def WithAttempt_def message_of_def)
  qed
  then have "session_ok handled config lg pos committed (s', b2)" by (rule fs(2))
  then have "session_ok handled config lg pos committed (s', b')"
    using fs(3) Commit_session [OF ok _ _ forwarded(4)] by simp
  then show ?thesis using session_committed by blast
qed

lemma consumer_safe:
  assumes "kafka_ok lib lg pos committed" and "handler_ok handled handler"
    and "\<forall>p. pos b p = committed b p" and "committed_safe handled config lg committed (s, b)"
    and "Consumer_Run n lib config handler ctxErr (s, b) = (res, s', b')"
  shows "committed_safe handled config lg committed (s', b')"
proof -
  have "session_ok handled config lg pos committed (s, b)"
  proof -
    have "pos b = committed b" using assms(3) by auto
    then show ?thesis using assms(4) by (simp add: session_ok_def committed_safe_def)
  qed
  with assms(5) show ?thesis
  proof (induction n arbitrary: s b)
    case 0
    then show ?case using session_committed by auto
  next
    case (Suc n)
    obtain r s1 b1 where one: "ProcessOne lib config handler (ctxErr n) (s, b) = (r, s1, b1)" by (metis surj_pair)
    show ?case
    proof (cases r)
      case None
      have "session_ok handled config lg pos committed (s1, b1)"
        using ProcessOne_session [OF assms(1) Suc.prems(2) assms(2) one] None by simp
      then show ?thesis using Suc.IH Suc.prems(1) one None by simp
    next
      case (Some err)
      then show ?thesis using ProcessOne_session [OF assms(1) Suc.prems(2) assms(2) one] Suc.prems(1) one by simp
    qed
  qed
qed

text \<open>The state of the handler keeps whatever the handler keeps.\<close>

lemma Consumer_Run_keeps:
  assumes "\<And>m s. P s \<Longrightarrow> P (snd (handler m s))"
  shows "P s \<Longrightarrow> Consumer_Run n lib config handler ctxErr (s, b) = (res, s', b') \<Longrightarrow> P s'"
proof (induction n arbitrary: s b)
  case (Suc n)
  obtain r s1 b1 where one: "ProcessOne lib config handler (ctxErr n) (s, b) = (r, s1, b1)" by (metis surj_pair)
  from one have "s1 = s \<or> (\<exists>m. s1 = snd (handler m s))"
    by (cases rule: ProcessOne_cases) (auto, metis snd_conv)
  with assms Suc.prems(1) have "P s1" by auto
  with Suc one show ?case by (cases r) auto
qed simp

text \<open>The log only grows.\<close>

lemma ProcessOne_grows:
  assumes "kafka_ok lib lg pos committed" and "ProcessOne lib config handler ctxErr (s, b) = (res, s', b')"
  shows "lg b \<subseteq> lg b'"
  using assms(2)
proof (cases rule: ProcessOne_cases)
  case (no_message err)
  with Fetch_law(1) [OF assms(1)] show ?thesis by (auto simp: log_grows_def)
next
  case (handled m b1 a)
  with Fetch_law(1) [OF assms(1) handled(1)] Commit_law [OF assms(1) handled(4)] show ?thesis by (auto simp: log_grows_def)
next
  case (refused m b1 a err e)
  with Fetch_law(1) [OF assms(1) refused(1)] Publish_law(1) [OF assms(1) refused(3)] show ?thesis by (auto simp: log_grows_def)
next
  case (forwarded m b1 a err b2 cr)
  with Fetch_law(1) [OF assms(1) forwarded(1)] Publish_law(1) [OF assms(1) forwarded(3)] Commit_law [OF assms(1) forwarded(4)]
  show ?thesis by (auto simp: log_grows_def)
qed

lemma Consumer_Run_grows:
  assumes "kafka_ok lib lg pos committed"
  shows "Consumer_Run n lib config handler ctxErr (s, b) = (res, s', b') \<Longrightarrow> lg b \<subseteq> lg b'"
proof (induction n arbitrary: s b)
  case (Suc n)
  obtain r s1 b1 where one: "ProcessOne lib config handler (ctxErr n) (s, b) = (r, s1, b1)" by (metis surj_pair)
  from Suc one ProcessOne_grows [OF assms one] show ?case by (cases r) fastforce+
qed simp

text \<open>C25: no message is lost. A session that starts where the group left off, with every record below the
  committed offsets safe, runs any number of messages with any failures of the handler and of the broker;
  however it ends, every record below the committed offsets was handled or has a copy on the retry or the
  dead-letter topic.\<close>

theorem consumer_no_loss:
  assumes "kafka_ok lib lg pos committed" and "handler_ok handled handler"
    and "\<forall>p. pos b p = committed b p" and "committed_safe handled config lg committed (s, b)"
    and "Consumer_Run n lib config handler ctxErr (s, b) = (res, s', b')"
  shows "committed_safe handled config lg committed (s', b')"
  by (rule consumer_safe [OF assms])

section \<open>Attempts are bounded\<close>

lemma Attempt_nonneg: "Attempt m = Inr a \<Longrightarrow> 0 \<le> a"
  by (auto simp: Attempt_def Let_def split: if_splits prod.splits option.splits)

text \<open>\<open>m'\<close> is the delivery of what the consumer published when \<open>m\<close> failed, through the retry topic.\<close>

definition redelivery :: "ConsumerConfig \<Rightarrow> Message \<Rightarrow> Message \<Rightarrow> bool" where
  "redelivery config m m' \<longleftrightarrow> (\<exists>a err r.
     (case Attempt m of Inl e \<Rightarrow> a = 0 \<and> err = e | Inr n \<Rightarrow> a = n) \<and> m' = message_of r \<and>
     r_Topic r = cc_RetryTopic config \<and>
     r_Topic r = m_Topic (forward config a err m) \<and> r_Key r = m_Key m \<and> r_Value r = m_Value m \<and>
     map_of (rev (r_Headers r)) = map_of (m_Headers (forward config a err m)))"

fun retry_chain :: "ConsumerConfig \<Rightarrow> Message \<Rightarrow> Message list \<Rightarrow> bool" where
  "retry_chain config m [] = True"
| "retry_chain config m (m' # ms) = (redelivery config m m' \<and> retry_chain config m' ms)"

lemma redelivery_Attempt:
  assumes "ConsumerConfig_Validate config = None" and "cc_MaxAttempts config \<le> max_i64"
    and "Attempt m = Inr a" and "a < cc_MaxAttempts config" and "redelivery config m m'"
  shows "Attempt m' = Inr (a + 1)" and "a + 1 < cc_MaxAttempts config"
    and "m_Topic m' = cc_RetryTopic config \<and> m_Key m' = m_Key m \<and> m_Value m' = m_Value m"
proof -
  obtain err r where r: "m' = message_of r" "r_Topic r = cc_RetryTopic config"
    "r_Topic r = m_Topic (forward config a err m)" "r_Key r = m_Key m" "r_Value r = m_Value m"
    "map_of (rev (r_Headers r)) = map_of (m_Headers (forward config a err m))"
    using assms(3,5) by (auto simp: redelivery_def)
  note f = forward_Attempt [OF Attempt_nonneg [OF assms(3)] assms(4,2)]
  show "Attempt m' = Inr (a + 1)" using r(1,6) f(1) Attempt_message_of by simp
  have "cc_RetryTopic config \<noteq> cc_DLQTopic config" using assms(1) by (auto simp: ConsumerConfig_Validate_def)
  then show "a + 1 < cc_MaxAttempts config" using r(2,3) f(2) [of err m] by (auto split: if_splits)
  show "m_Topic m' = cc_RetryTopic config \<and> m_Key m' = m_Key m \<and> m_Value m' = m_Value m"
    using r by (simp add: message_of_def)
qed

text \<open>A message is handled a bounded number of times. Along the redeliveries of a message the header
  counts the attempts, key and value stay the same, there are no more than \<open>MaxAttempts\<close> deliveries in all,
  and when the last of them fails its copy goes to the dead-letter topic.\<close>

theorem attempts_bounded:
  assumes "ConsumerConfig_Validate config = None" and "cc_MaxAttempts config \<le> max_i64"
    and "Attempt m = Inr a" and "a < cc_MaxAttempts config" and "retry_chain config m ms"
  shows "int (length ms) + 1 \<le> cc_MaxAttempts config - a \<and>
    (\<forall>k < length ms. Attempt (ms ! k) = Inr (a + int k + 1) \<and> m_Topic (ms ! k) = cc_RetryTopic config \<and>
      m_Key (ms ! k) = m_Key m \<and> m_Value (ms ! k) = m_Value m) \<and>
    (int (length ms) + 1 = cc_MaxAttempts config - a \<longrightarrow>
      m_Topic (forward config (a + int (length ms)) err (last (m # ms))) = cc_DLQTopic config)"
proof -
  have "int (length ms) + 1 \<le> cc_MaxAttempts config - a \<and>
    (\<forall>k < length ms. Attempt (ms ! k) = Inr (a + int k + 1) \<and> m_Topic (ms ! k) = cc_RetryTopic config \<and>
      m_Key (ms ! k) = m_Key m \<and> m_Value (ms ! k) = m_Value m)"
    using assms(3-)
  proof (induction ms arbitrary: m a)
    case (Cons m' ms)
    note r = redelivery_Attempt [OF assms(1,2) Cons.prems(1,2)]
    have red: "redelivery config m m'" and chain: "retry_chain config m' ms" using Cons.prems by simp_all
    have IH: "int (length ms) + 1 \<le> cc_MaxAttempts config - (a + 1) \<and>
      (\<forall>k < length ms. Attempt (ms ! k) = Inr (a + 1 + int k + 1) \<and> m_Topic (ms ! k) = cc_RetryTopic config \<and>
        m_Key (ms ! k) = m_Key m' \<and> m_Value (ms ! k) = m_Value m')"
      by (rule Cons.IH [OF r(1) [OF red] r(2) [OF red] chain])
    with r [OF red] show ?case by (auto simp: nth_Cons split: nat.splits)
  qed simp
  moreover have "m_Topic (forward config (a + int (length ms)) err (last (m # ms))) = cc_DLQTopic config"
    if "int (length ms) + 1 = cc_MaxAttempts config - a"
    using that Attempt_nonneg [OF assms(3)] assms(2) by (subst forward_Attempt(2)) simp_all
  ultimately show ?thesis by blast
qed

section \<open>A broker\<close>

text \<open>A broker that satisfies the laws: one partition for each topic, and a log in memory.\<close>

record memory_broker =
  mb_log :: "kgo_record list"
  mb_pos :: "place \<Rightarrow> int"
  mb_committed :: "place \<Rightarrow> int"

definition deliverable :: "string list \<Rightarrow> memory_broker \<Rightarrow> kgo_record \<Rightarrow> bool" where
  "deliverable topics b r \<longleftrightarrow> r_Topic r \<in> set topics \<and> mb_pos b (place_of r) \<le> r_Offset r \<and>
     list_all (\<lambda>r'. place_of r' = place_of r \<and> mb_pos b (place_of r) \<le> r_Offset r' \<and> r_Offset r' \<le> r_Offset r \<longrightarrow> r' = r) (mb_log b)"

definition memory_kafka :: "string list \<Rightarrow> memory_broker kafka_lib" where
  "memory_kafka topics = \<lparr>
     kl_ProduceSync = (\<lambda>r b. (None, b\<lparr>mb_log := mb_log b @
       [r\<lparr>r_Partition := 0, r_Offset := max (int (length (mb_log b))) (mb_pos b (r_Topic r, 0))\<rparr>]\<rparr>)),
     kl_PollRecords = (\<lambda>b. case find (deliverable topics b) (mb_log b) of
       None \<Rightarrow> (([], []), b)
     | Some r \<Rightarrow> (([r], []), b\<lparr>mb_pos := (mb_pos b)(place_of r := r_Offset r + 1)\<rparr>)),
     kl_CommitRecords = (\<lambda>r b. (None, b\<lparr>mb_committed := (mb_committed b)(place_of r := r_Offset r + 1)\<rparr>))\<rparr>"

lemma memory_kafka_ok: "kafka_ok (memory_kafka topics) (\<lambda>b. set (mb_log b)) mb_pos mb_committed"
proof -
  have poll: "r \<in> set (mb_log b) \<and> deliverable topics b r" if "find (deliverable topics b) (mb_log b) = Some r" for b r
    using that by (auto simp: find_Some_iff)
  show ?thesis
    unfolding kafka_ok_def
    by (intro conjI allI impI)
      (auto simp: memory_kafka_def log_grows_def copy_in_def place_of_def deliverable_def list_all_iff
        dest!: poll split: option.splits)
qed

definition demo_consumer :: ConsumerConfig where
  "demo_consumer = \<lparr>cc_RetryTopic = ''order.retry'', cc_DLQTopic = ''order.dlq'', cc_MaxAttempts = 2\<rparr>"

definition demo_record :: kgo_record where
  "demo_record = \<lparr>r_Topic = ''order.created'', r_Key = ''T1-42-0102030405060708'', r_Value = Json JNull, r_Headers = [],
     r_Partition = 0, r_Offset = 0\<rparr>"

definition demo_broker :: memory_broker where
  "demo_broker = \<lparr>mb_log = [demo_record], mb_pos = (\<lambda>_. 0), mb_committed = (\<lambda>_. 0)\<rparr>"

definition failing :: "nat handler" where
  "failing m n = (Some (Plain ''timeout''), n + 1)"

lemma demo_headers: "FormatInt 1 = ''1''" "FormatInt 2 = ''2''" "ParseInt ''1'' = (1, None)"
proof -
  have d: "digit 1 = CHR ''1''" "digit 2 = CHR ''2''" by code_simp+
  show f: "FormatInt 1 = ''1''" "FormatInt 2 = ''2''"
    by (simp_all add: FormatInt_def show_nat.simps d [simplified])
  show "ParseInt ''1'' = (1, None)" using ParseInt_FormatInt [of 1] by (simp add: f in_i64_def max_i64_def)
qed

lemma demo_run:
  "\<exists>b'. Consumer_Run 2 (memory_kafka [''order.created'', ''order.retry'']) demo_consumer failing (\<lambda>_. None) (0, demo_broker) =
    (None, 2, b') \<and> map r_Topic (mb_log b') = [''order.created'', ''order.retry'', ''order.dlq'']"
  by (simp add: numeral_2_eq_2 ProcessOne_def Fetch_def memory_kafka_def demo_broker_def demo_record_def deliverable_def
      place_of_def message_of_def Attempt_def failing_def forward_def Let_def demo_consumer_def WithAttempt_def Publish_def
      Commit_def demo_headers byte_def in_i64_def max_i64_def)

theorem consumer_no_loss_witness:
  "\<exists>s' b'. Consumer_Run 2 (memory_kafka [''order.created'', ''order.retry'']) demo_consumer failing (\<lambda>_. None) (0, demo_broker) =
      (None, s', b') \<and> map r_Topic (mb_log b') = [''order.created'', ''order.retry'', ''order.dlq''] \<and>
    committed_safe (\<lambda>_ _. False) demo_consumer (\<lambda>b. set (mb_log b)) mb_committed (s', b')"
proof -
  let ?lib = "memory_kafka [''order.created'', ''order.retry'']"
  obtain b' where run: "Consumer_Run 2 ?lib demo_consumer failing (\<lambda>_. None) (0, demo_broker) = (None, 2, b')"
    and log: "map r_Topic (mb_log b') = [''order.created'', ''order.retry'', ''order.dlq'']"
    using demo_run by (elim exE conjE) (rule that)
  have cs: "committed_safe (\<lambda>_ _. False) demo_consumer (\<lambda>b. set (mb_log b)) mb_committed (2 :: nat, b')"
  proof (rule consumer_no_loss [OF memory_kafka_ok _ _ _ run])
    show "handler_ok (\<lambda>_ _. False) failing" by (simp add: handler_ok_def failing_def)
    show "\<forall>p. mb_pos demo_broker p = mb_committed demo_broker p" by (simp add: demo_broker_def)
    show "committed_safe (\<lambda>_ _. False) demo_consumer (\<lambda>b. set (mb_log b)) mb_committed (0, demo_broker)"
      by (simp add: committed_safe_def all_safe_def demo_broker_def demo_record_def)
  qed
  show ?thesis by (rule exI, rule exI, rule conjI, rule run, rule conjI, rule log, rule cs)
qed

definition demo_retry :: kgo_record where
  "demo_retry = demo_record\<lparr>r_Topic := ''order.retry'', r_Headers := [(AttemptHeader, ''1'')], r_Offset := 1\<rparr>"

theorem attempts_bounded_witness:
  "int (length [message_of demo_retry]) + 1 \<le> 2 - 0 \<and>
    m_Topic (forward demo_consumer 1 (Plain ''timeout'') (message_of demo_retry)) = ''order.dlq''"
proof -
  have h: "map_of (m_Headers (forward demo_consumer 0 (Plain ''timeout'') (message_of demo_record))) = map_of [(AttemptHeader, ''1'')]"
    by (simp add: forward_def Let_def WithAttempt_def demo_record_def message_of_def in_i64_def max_i64_def demo_headers)
  have a: "Attempt (message_of demo_record) = Inr 0" by (simp add: Attempt_def message_of_def demo_record_def)
  have t: "m_Topic (forward demo_consumer 0 (Plain ''timeout'') (message_of demo_record)) = ''order.retry''"
    by (simp add: forward_def Let_def WithAttempt_def demo_consumer_def in_i64_def max_i64_def)
  have "redelivery demo_consumer (message_of demo_record) (message_of demo_retry)"
    unfolding redelivery_def a
    by (intro exI [of _ 0] exI [of _ "Plain ''timeout''"] exI [of _ demo_retry])
      (simp add: t h, simp add: demo_retry_def demo_record_def message_of_def demo_consumer_def)
  then have "retry_chain demo_consumer (message_of demo_record) [message_of demo_retry]" by simp
  from attempts_bounded [OF _ _ a _ this, of "Plain ''timeout''"] show ?thesis
    by (simp add: demo_consumer_def ConsumerConfig_Validate_def max_i64_def)
qed

end
