(* ===== verification/Notification.thy ===== *)
theory Notification
  imports Sql OrderEvents RpcPolicy Mq
begin

text \<open>
  In-app notifications: the tables \<open>notifications\<close> and \<open>notification_consumptions\<close>
  (\<open>migrations/000010\<close>), the repository (\<open>internal/notification/mysqlrepo\<close>), the service
  (\<open>notification.go\<close>), the Kafka handler (\<open>consumer.go\<close>) and the RPC server (\<open>rpcserver\<close>). A notification
  and the ledger entry of the event that caused it are written in one transaction; the unique event
  identifier in the ledger makes the consumption idempotent.
\<close>

section \<open>Tables\<close>

record notification_row =
  nt_id :: u64
  nt_user_id :: u64
  nt_business_type :: string
  nt_title :: string
  nt_body :: string
  nt_order_no :: string
  nt_read_at :: "time option"
  nt_created_at :: time

record consumption_row =
  nc_id :: u64
  nc_event_id :: string
  nc_notification_id :: u64
  nc_consumed_at :: time

record notification_db =
  nd_notifications :: "notification_row list"
  nd_consumptions :: "consumption_row list"

definition next_row_id :: "'a list \<Rightarrow> u64" where
  "next_row_id rows = of_nat (length rows + 1)"

definition insert_notification :: "notification_row \<Rightarrow> notification_db \<Rightarrow> u64 result \<times> notification_db" where
  "insert_notification row d =
     (if table_full (nd_notifications d) then (Inl (MySQLError ER_AUTOINC_READ_FAILED), d)
      else if \<not> datetime_ok (nt_created_at row) then (Inl (MySQLError ER_TRUNCATED_WRONG_VALUE), d)
      else (Inr (next_row_id (nd_notifications d)),
            d\<lparr>nd_notifications := nd_notifications d @ [row\<lparr>nt_id := next_row_id (nd_notifications d)\<rparr>]\<rparr>))"

definition insert_consumption :: "consumption_row \<Rightarrow> notification_db \<Rightarrow> unit result \<times> notification_db" where
  "insert_consumption row d =
     (if \<exists>c \<in> set (nd_consumptions d). nc_event_id c = nc_event_id row \<or> nc_notification_id c = nc_notification_id row
      then (Inl (MySQLError ER_DUP_ENTRY), d)
      else if \<forall>n \<in> set (nd_notifications d). nt_id n \<noteq> nc_notification_id row
      then (Inl (MySQLError ER_NO_REFERENCED_ROW), d)
      else if table_full (nd_consumptions d) then (Inl (MySQLError ER_AUTOINC_READ_FAILED), d)
      else if \<not> datetime_ok (nc_consumed_at row) then (Inl (MySQLError ER_TRUNCATED_WRONG_VALUE), d)
      else (Inr (), d\<lparr>nd_consumptions := nd_consumptions d @ [row\<lparr>nc_id := next_row_id (nd_consumptions d)\<rparr>]\<rparr>))"

section \<open>Consumption\<close>

abbreviation BusinessTypeOrderCreated :: string where "BusinessTypeOrderCreated \<equiv> ''ORDER_CREATED''"

text \<open>The Chinese texts of \<open>ContentFromOrder\<close>, in UTF-8.\<close>

definition utf8 :: "nat list \<Rightarrow> string" where
  "utf8 bytes = map char_of bytes"

definition ContentFromOrder :: "OrderCreatedV1 \<Rightarrow> string \<times> string" where
  "ContentFromOrder event =
     (utf8 [232, 174, 162, 229, 141, 149, 229, 136, 155, 229, 187, 186, 230, 136, 144, 229, 138, 159],
      utf8 [232, 174, 162, 229, 141, 149, 32] @ TrimSpace (ev_OrderNo event) @
      utf8 [32, 229, 183, 178, 229, 136, 155, 229, 187, 186, 239, 188, 140, 233, 135, 145, 233, 162, 157, 32] @ FormatInt (ev_TotalAmountCent event) @
      utf8 [32, 229, 136, 134, 227, 128, 130])"

text \<open>\<open>events.CreatedAt\<close>.\<close>

definition CreatedAt :: "OrderCreatedV1 \<Rightarrow> time" where
  "CreatedAt event = time_UnixMilli (ev_CreatedAtMS event)"

definition notification_of :: "OrderCreatedV1 \<Rightarrow> notification_row" where
  "notification_of event = \<lparr>nt_id = 0, nt_user_id = ev_UserID event, nt_business_type = BusinessTypeOrderCreated,
     nt_title = fst (ContentFromOrder event), nt_body = snd (ContentFromOrder event), nt_order_no = ev_OrderNo event,
     nt_read_at = None, nt_created_at = Truncate (CreatedAt event) microsecond\<rparr>"

text \<open>The transaction. \<open>Inr False\<close> is the explicit rollback of a duplicate event.\<close>

definition consume_tx :: "time \<Rightarrow> OrderCreatedV1 \<Rightarrow> notification_db \<Rightarrow> bool result \<times> notification_db" where
  "consume_tx now event d =
     (case insert_notification (notification_of event) d of
        (Inl err, d1) \<Rightarrow> (Inl (Wrapf ''insert notification'' err), d1)
      | (Inr notificationID, d1) \<Rightarrow>
          (case insert_consumption \<lparr>nc_id = 0, nc_event_id = ev_EventID event, nc_notification_id = notificationID,
              nc_consumed_at = Truncate now microsecond\<rparr> d1 of
             (Inl err, d2) \<Rightarrow> if isDuplicateKey err then (Inr False, d)
                else (Inl (Wrapf ''insert notification consumption'' err), d2)
           | (Inr _, d2) \<Rightarrow> (Inr True, d2)))"

definition Repository_Consume ::
  "notification_db env \<Rightarrow> time \<Rightarrow> OrderCreatedV1 \<Rightarrow> notification_db \<Rightarrow> bool result \<times> notification_db" where
  "Repository_Consume env now event d =
     (case atomically (env 0) (consume_tx now event) d of
        (Inl err, d1) \<Rightarrow> (Inl err, d1)
      | (Inr True, d1) \<Rightarrow> (Inr True, d1)
      | (Inr False, d1) \<Rightarrow>
          (case read_db (env 1) (\<lambda>d. \<exists>c \<in> set (nd_consumptions d). nc_event_id c = ev_EventID event) d1 of
             (Inl err, d2) \<Rightarrow> (Inl (Wrapf ''load duplicate notification consumption'' err), d2)
           | (Inr False, d2) \<Rightarrow>
               (Inl (Wrapf ''load duplicate notification consumption'' (Plain ''sql: no rows in result set'')), d2)
           | (Inr True, d2) \<Rightarrow> (Inr False, d2)))"

definition ConsumeOrderCreated ::
  "notification_db env \<Rightarrow> time \<Rightarrow> OrderCreatedV1 \<Rightarrow> notification_db \<Rightarrow> bool result \<times> notification_db" where
  "ConsumeOrderCreated env now event d = (case OrderCreatedV1_Validate event of
       Some err \<Rightarrow> (Inl err, d)
     | None \<Rightarrow> Repository_Consume env now event d)"

text \<open>The Kafka handler.\<close>

definition Notification_handler ::
  "notification_db env \<Rightarrow> time \<Rightarrow> Message \<Rightarrow> notification_db \<Rightarrow> goerr option \<times> notification_db" where
  "Notification_handler env now message d = (case DecodeOrderCreatedV1 (json_value (m_Value message)) of
       Inl err \<Rightarrow> (if errors_Is err ErrInvalidEvent \<or> errors_Is err ErrUnsupportedVersion then Permanent (Some err) else Some err, d)
     | Inr event \<Rightarrow> (case ConsumeOrderCreated env now event d of
           (Inl err, d') \<Rightarrow> (Some err, d') | (Inr _, d') \<Rightarrow> (None, d')))"

section \<open>Reading\<close>

record Notification =
  n_ID :: u64
  n_UserID :: u64
  n_BusinessType :: string
  n_Title :: string
  n_Body :: string
  n_OrderNo :: string
  n_CreatedAt :: time
  n_ReadAt :: "time option"

record Page =
  pg_Items :: "Notification list"
  pg_Page :: int
  pg_PageSize :: int
  pg_Total :: int

definition scan_notification :: "notification_row \<Rightarrow> Notification" where
  "scan_notification r = \<lparr>n_ID = nt_id r, n_UserID = nt_user_id r, n_BusinessType = nt_business_type r,
     n_Title = nt_title r, n_Body = nt_body r, n_OrderNo = nt_order_no r, n_CreatedAt = nt_created_at r,
     n_ReadAt = nt_read_at r\<rparr>"

text \<open>\<open>WHERE user_id = ? ORDER BY created_at DESC, id DESC\<close>.\<close>

definition owned :: "u64 \<Rightarrow> notification_db \<Rightarrow> notification_row list" where
  "owned userID d = rev (sort_key nt_created_at (sort_key nt_id (filter (\<lambda>r. nt_user_id r = userID) (nd_notifications d))))"

text \<open>\<open>LIMIT ? OFFSET ?\<close>; a negative offset is a syntax error.\<close>

definition ListOwned ::
  "notification_db env \<Rightarrow> u64 \<Rightarrow> int \<Rightarrow> int \<Rightarrow> notification_db \<Rightarrow> Page result \<times> notification_db" where
  "ListOwned env userID page pageSize d =
     (case read_db (env 0) (\<lambda>d. int (length (owned userID d))) d of
        (Inl err, d1) \<Rightarrow> (Inl (Wrapf ''count owned notifications'' err), d1)
      | (Inr n, d1) \<Rightarrow>
          (let offset = wrap_i64 (wrap_i64 (page - 1) * pageSize) in
           if pageSize < 0 \<or> offset < 0 then (Inl (Wrapf ''list owned notifications'' (MySQLError 1064)), d1)
           else (case read_db (env 1) (\<lambda>d. take (nat pageSize) (drop (nat offset) (owned userID d))) d1 of
               (Inl err, d2) \<Rightarrow> (Inl (Wrapf ''list owned notifications'' err), d2)
             | (Inr rows, d2) \<Rightarrow>
                 (Inr \<lparr>pg_Items = map scan_notification rows, pg_Page = page, pg_PageSize = pageSize, pg_Total = n\<rparr>, d2))))"

definition Notification_List ::
  "notification_db env \<Rightarrow> u64 \<Rightarrow> int \<Rightarrow> int \<Rightarrow> notification_db \<Rightarrow> Page result \<times> notification_db" where
  "Notification_List env userID page pageSize d =
     (if userID = 0 \<or> page < 1 \<or> pageSize < 1 \<or> 100 < pageSize then (fail Notification_ErrInvalidArgument, d)
      else ListOwned env userID page pageSize d)"

section \<open>Marking as read\<close>

text \<open>\<open>UPDATE \<dots> SET read_at = COALESCE(read_at, ?)\<close>; MySQL counts the rows it changed.\<close>

definition to_read :: "u64 \<Rightarrow> u64 \<Rightarrow> notification_row \<Rightarrow> bool" where
  "to_read notificationID userID r \<longleftrightarrow> nt_id r = notificationID \<and> nt_user_id r = userID \<and> nt_read_at r = None"

definition read_stmt :: "u64 \<Rightarrow> u64 \<Rightarrow> time \<Rightarrow> notification_db \<Rightarrow> nat result \<times> notification_db" where
  "read_stmt userID notificationID readAt d =
     (let changed = filter (to_read notificationID userID) (nd_notifications d) in
      if changed \<noteq> [] \<and> \<not> datetime_ok readAt then (Inl (MySQLError ER_TRUNCATED_WRONG_VALUE), d)
      else (Inr (length changed), d\<lparr>nd_notifications :=
        map (\<lambda>r. if to_read notificationID userID r then r\<lparr>nt_read_at := Some readAt\<rparr> else r) (nd_notifications d)\<rparr>))"

definition MarkReadOwned ::
  "notification_db env \<Rightarrow> u64 \<Rightarrow> u64 \<Rightarrow> time \<Rightarrow> notification_db \<Rightarrow> unit result \<times> notification_db" where
  "MarkReadOwned env userID notificationID readAt d =
     (case atomically (env 0) (read_stmt userID notificationID readAt) d of
        (Inl err, d') \<Rightarrow> (Inl (Wrapf ''mark owned notification read'' err), d')
      | (Inr rows, d') \<Rightarrow> if rows = 0 then (fail ErrNotificationNotFound, d') else (Inr (), d'))"

definition Notification_MarkRead ::
  "notification_db env \<Rightarrow> time \<Rightarrow> u64 \<Rightarrow> u64 \<Rightarrow> notification_db \<Rightarrow> unit result \<times> notification_db" where
  "Notification_MarkRead env now userID notificationID d =
     (if userID = 0 \<or> notificationID = 0 then (fail Notification_ErrInvalidArgument, d)
      else MarkReadOwned env userID notificationID (Truncate now millisecond) d)"

section \<open>The RPC server\<close>

definition mapNotificationError :: "bool \<Rightarrow> goerr \<Rightarrow> goerr" where
  "mapNotificationError attach err = StatusError attach
     (if errors_Is err Context_Canceled
      then NewPublicError Canceled ERROR_CODE_TEMPORARILY_UNAVAILABLE ''request canceled'' True err
      else if errors_Is err Context_DeadlineExceeded
      then NewPublicError DeadlineExceeded ERROR_CODE_TEMPORARILY_UNAVAILABLE ''notification timeout'' True err
      else if errors_Is err Notification_ErrInvalidArgument
      then NewPublicError InvalidArgument ERROR_CODE_INVALID_ARGUMENT ''invalid notification request'' False err
      else if errors_Is err ErrNotificationNotFound
      then NewPublicError NotFound ERROR_CODE_NOT_FOUND ''notification not found'' False err
      else err)"

text \<open>\<open>toProto\<close>: the row with millisecond times; an unread one has read time 0.\<close>

definition Notification_toProto :: "Notification \<Rightarrow> Notification \<times> int \<times> int" where
  "Notification_toProto value = (value, UnixMilli (n_CreatedAt value),
     (case n_ReadAt value of None \<Rightarrow> 0 | Some t \<Rightarrow> UnixMilli t))"

text \<open>The page of a request is two \<open>uint32\<close>; without it the first page of 20.\<close>

definition ListNotifications ::
  "bool \<Rightarrow> notification_db env \<Rightarrow> u64 \<Rightarrow> (32 word \<times> 32 word) option \<Rightarrow> notification_db \<Rightarrow>
     ((Notification \<times> int \<times> int) list \<times> 32 word \<times> 32 word \<times> u64) result \<times> notification_db" where
  "ListNotifications attach env userID requestPage d =
     (let (page, pageSize) = (case requestPage of None \<Rightarrow> (1, 20) | Some (p, s) \<Rightarrow> (uint p, uint s)) in
      case Notification_List env userID page pageSize d of
        (Inl err, d') \<Rightarrow> (Inl (mapNotificationError attach err), d')
      | (Inr found, d') \<Rightarrow> (Inr (map Notification_toProto (pg_Items found), of_int (pg_Page found), of_int (pg_PageSize found),
          of_int (pg_Total found)), d'))"

definition MarkRead ::
  "bool \<Rightarrow> notification_db env \<Rightarrow> time \<Rightarrow> u64 \<Rightarrow> u64 \<Rightarrow> notification_db \<Rightarrow> unit result \<times> notification_db" where
  "MarkRead attach env now userID notificationID d = (case Notification_MarkRead env now userID notificationID d of
       (Inl err, d') \<Rightarrow> (Inl (mapNotificationError attach err), d')
     | (Inr _, d') \<Rightarrow> (Inr (), d'))"

section \<open>Notifications and their ledger\<close>

text \<open>Rows are numbered in the order of insertion, and the ledger holds, in the order of the notifications, one
  entry for each, with the identifier of the event of its order; no event occurs twice.\<close>

definition noted :: "notification_row \<Rightarrow> consumption_row \<Rightarrow> bool" where
  "noted n c \<longleftrightarrow> nc_notification_id c = nt_id n \<and> nc_event_id c = StableEventID (nt_order_no n)"

definition notifications_ok :: "notification_db \<Rightarrow> bool" where
  "notifications_ok d \<longleftrightarrow> numbered (map nt_id (nd_notifications d)) \<and> length (nd_notifications d) < 2 ^ 64 \<and>
     distinct (map nc_event_id (nd_consumptions d)) \<and> list_all2 noted (nd_notifications d) (nd_consumptions d)"

definition consumed :: "string \<Rightarrow> notification_db \<Rightarrow> bool" where
  "consumed eventID d \<longleftrightarrow> (\<exists>c \<in> set (nd_consumptions d). nc_event_id c = eventID)"

lemma consume_tx_fresh:
  assumes ok: "notifications_ok d" and room: "\<not> table_full (nd_notifications d)"
    and created: "datetime_ok (Truncate (CreatedAt event) microsecond)"
  shows "consume_tx now event d =
    (if consumed (ev_EventID event) d then (Inr False, d)
     else if datetime_ok (Truncate now microsecond) then
       (Inr True, \<lparr>nd_notifications = nd_notifications d @ [notification_of event\<lparr>nt_id := next_row_id (nd_notifications d)\<rparr>],
          nd_consumptions = nd_consumptions d @ [\<lparr>nc_id = next_row_id (nd_consumptions d), nc_event_id = ev_EventID event,
            nc_notification_id = next_row_id (nd_notifications d), nc_consumed_at = Truncate now microsecond\<rparr>]\<rparr>)
     else (Inl (Wrapf ''insert notification consumption'' (MySQLError ER_TRUNCATED_WRONG_VALUE)), snd (consume_tx now event d)))"
proof -
  let ?id = "next_row_id (nd_notifications d)"
  have all2: "list_all2 noted (nd_notifications d) (nd_consumptions d)" and num: "numbered (map nt_id (nd_notifications d))"
    using ok by (simp_all add: notifications_ok_def)
  have len: "length (nd_consumptions d) = length (nd_notifications d)" using list_all2_lengthD [OF all2] by simp
  have "?id \<notin> set (map nt_id (nd_notifications d))"
    using numbered_fresh [OF num] room by (simp add: next_row_id_def table_full_def)
  moreover have "nc_notification_id ` set (nd_consumptions d) \<subseteq> set (map nt_id (nd_notifications d))"
    using all2 by (auto simp: list_all2_conv_all_nth noted_def in_set_conv_nth) (metis nth_mem image_eqI)
  ultimately have "?id \<notin> nc_notification_id ` set (nd_consumptions d)" by blast
  then have fresh: "\<forall>c \<in> set (nd_consumptions d). nc_notification_id c \<noteq> ?id" by (metis imageI)
  have room2: "\<not> table_full (nd_consumptions d)" using room by (simp add: table_full_def len)
  show ?thesis
    using created room room2 fresh
    by (auto simp: consume_tx_def insert_notification_def insert_consumption_def notification_of_def isDuplicateKey_def
        consumed_def)
qed

lemma consume_tx_guards:
  assumes "consume_tx now event d = (Inr b, d')"
  shows "\<not> table_full (nd_notifications d) \<and> datetime_ok (Truncate (CreatedAt event) microsecond)"
  using assms by (auto simp: consume_tx_def insert_notification_def notification_of_def split: if_splits)

lemma consume_tx_success:
  assumes ok: "notifications_ok d" and "consume_tx now event d = (Inr b, d')"
  obtains (again) "b = False" "consumed (ev_EventID event) d" "d' = d"
  | (first) n c where "b = True" "\<not> consumed (ev_EventID event) d" "nd_notifications d' = nd_notifications d @ [n]"
      "nd_consumptions d' = nd_consumptions d @ [c]" "n = notification_of event\<lparr>nt_id := next_row_id (nd_notifications d)\<rparr>"
      "nc_event_id c = ev_EventID event" "nc_notification_id c = nt_id n" "\<not> table_full (nd_notifications d)"
proof -
  note g = consume_tx_guards [OF assms(2)]
  show thesis
  proof (cases "consumed (ev_EventID event) d")
    case True
    with assms(2) consume_tx_fresh [OF ok, of event now] g again show thesis by simp
  next
    case False
    with assms(2) consume_tx_fresh [OF ok, of event now] g have "datetime_ok (Truncate now microsecond)"
      by (metis Inl_Inr_False prod.inject)
    with False assms(2) consume_tx_fresh [OF ok, of event now] g show thesis by (intro first) auto
  qed
qed

lemma Validate_event_id: "OrderCreatedV1_Validate event = None \<Longrightarrow> ev_EventID event = StableEventID (ev_OrderNo event)"
  by (auto simp: OrderCreatedV1_Validate_def split: if_splits)

lemma notifications_ok_consume:
  assumes ok: "notifications_ok d" and "OrderCreatedV1_Validate event = None" and "consume_tx now event d = (Inr b, d')"
  shows "notifications_ok d'"
  using ok assms(3)
proof (cases rule: consume_tx_success)
  case again
  then show ?thesis using ok by simp
next
  case (first n c)
  have num: "numbered (map nt_id (nd_notifications d))" using ok by (simp add: notifications_ok_def)
  from numbered_snoc [OF num] first ok show ?thesis
    by (auto simp: notifications_ok_def consumed_def noted_def notification_of_def next_row_id_def table_full_def
        Validate_event_id [OF assms(2)] intro!: list_all2_appendI)
qed

text \<open>A clean attempt.\<close>

lemma Consume_quiet:
  assumes "OrderCreatedV1_Validate event = None"
  shows "ConsumeOrderCreated quiet now event d = (case consume_tx now event d of
      (Inl e, _) \<Rightarrow> (Inl e, d)
    | (Inr True, d') \<Rightarrow> (Inr True, d')
    | (Inr False, d') \<Rightarrow> if consumed (ev_EventID event) d' then (Inr False, d')
        else (Inl (Wrapf ''load duplicate notification consumption'' (Plain ''sql: no rows in result set'')), d'))"
  using assms
  by (auto simp: ConsumeOrderCreated_def Repository_Consume_def consumed_def split: prod.splits sum.splits bool.splits)

lemma consume_tx_kept: "consume_tx now event d = (Inr False, d') \<Longrightarrow> d' = d"
  by (auto simp: consume_tx_def split: prod.splits sum.splits if_splits)

lemma Consume_effect:
  assumes un: "undisturbed env"
  shows "snd (ConsumeOrderCreated env now event d) = d \<or>
    OrderCreatedV1_Validate event = None \<and> consume_tx now event d = (Inr True, snd (ConsumeOrderCreated env now event d))"
proof (cases "OrderCreatedV1_Validate event")
  case None
  obtain res d1 where a: "atomically (env 0) (consume_tx now event) d = (res, d1)" by fastforce
  note at = atomically_undisturbed [OF un a]
  have same: "read_db (env k) f u = (x, u') \<Longrightarrow> u' = u" for k u u' and x :: "'x result" and f
    using read_db_undisturbed(1) [OF un, of k f u] by simp
  have "snd (ConsumeOrderCreated env now event d) = d1"
    using None a
    by (auto simp: ConsumeOrderCreated_def Repository_Consume_def split: prod.splits sum.splits bool.splits dest!: same)
  moreover have "d1 = d \<or> consume_tx now event d = (Inr True, d1)"
    using at(1) consume_tx_kept by (metis (full_types))
  ultimately show ?thesis using None by auto
qed (simp add: ConsumeOrderCreated_def)

definition room_for_one_more :: "notification_db \<Rightarrow> bool" where
  "room_for_one_more d \<longleftrightarrow> notifications_ok d \<and> length (nd_notifications d) + 2 < 2 ^ 64"

lemma consumed_again:
  assumes "notifications_ok d" and "OrderCreatedV1_Validate event = None" and "consumed (ev_EventID event) d"
    and "\<not> table_full (nd_notifications d)" and "datetime_ok (Truncate (CreatedAt event) microsecond)"
  shows "ConsumeOrderCreated quiet now event d = (Inr False, d)"
  using assms consume_tx_fresh [OF assms(1,4,5)] by (simp add: Consume_quiet)

interpretation consumptions: recoverable notifications_ok room_for_one_more "\<lambda>_. True" ConsumeOrderCreated "\<lambda>_ _. True"
proof (unfold_locales, goal_cases)
  case (1 d event env now)
  show ?case
    using Consume_effect [OF 1(3), of now event d] by (auto simp: Consume_quiet)
next
  case (2 d event now e d')
  show ?case
  proof (cases "OrderCreatedV1_Validate event")
    case None
    with 2(3) show ?thesis
      by (auto simp: Consume_quiet dest: consume_tx_kept split: prod.splits sum.splits bool.splits if_splits)
  qed (use 2(3) in \<open>simp add: ConsumeOrderCreated_def\<close>)
next
  case (3 d event now x d' now')
  have v: "OrderCreatedV1_Validate event = None" using 3(3) by (auto simp: ConsumeOrderCreated_def split: option.splits)
  have ok: "notifications_ok d" and room: "length (nd_notifications d) + 2 < 2 ^ 64" using 3(1) by (simp_all add: room_for_one_more_def)
  obtain b where tx: "consume_tx now event d = (Inr b, d')"
    using 3(3) v by (auto simp: Consume_quiet split: prod.splits sum.splits bool.splits if_splits)
  have ok': "notifications_ok d'" by (rule notifications_ok_consume [OF ok v tx])
  have "consumed (ev_EventID event) d' \<and> \<not> table_full (nd_notifications d')"
    using ok tx
  proof (cases rule: consume_tx_success)
    case again
    then show ?thesis using room by (simp add: table_full_def)
  next
    case (first n c)
    then show ?thesis using room by (auto simp: consumed_def table_full_def)
  qed
  with consumed_again [OF ok' v] consume_tx_guards [OF tx] show ?case by blast
next
  case (4 d event now)
  have ok: "notifications_ok d" using 4(1) by (simp add: room_for_one_more_def)
  show ?case
    using Consume_effect [of quiet now event d] notifications_ok_consume [OF ok] ok by auto
qed (simp_all add: room_for_one_more_def)

section \<open>Reading and marking\<close>

lemma read_stmt_rows:
  "read_stmt userID notificationID readAt d = (Inr k, d') \<Longrightarrow>
    d' = d\<lparr>nd_notifications := map (\<lambda>r. if to_read notificationID userID r then r\<lparr>nt_read_at := Some readAt\<rparr> else r) (nd_notifications d)\<rparr> \<and>
    k = length (filter (to_read notificationID userID) (nd_notifications d))"
  by (simp add: read_stmt_def Let_def split: if_splits)

lemma notifications_ok_read:
  assumes "notifications_ok d" and "read_stmt userID notificationID readAt d = (Inr k, d')"
  shows "notifications_ok d'"
proof -
  let ?f = "\<lambda>r. if to_read notificationID userID r then r\<lparr>nt_read_at := Some readAt\<rparr> else r"
  have "list_all2 noted (map ?f (nd_notifications d)) (nd_consumptions d)"
    using assms(1) by (auto simp: notifications_ok_def list_all2_conv_all_nth noted_def)
  moreover have "map nt_id (map ?f (nd_notifications d)) = map nt_id (nd_notifications d)" by simp
  ultimately show ?thesis
    using assms(1) read_stmt_rows [OF assms(2)] unfolding notifications_ok_def by (simp del: map_map)
qed

text \<open>The newest notifications of a user come first.\<close>

lemma owned_props:
  "set (owned userID d) = {r \<in> set (nd_notifications d). nt_user_id r = userID}"
  "sorted_wrt (\<lambda>r r'. nt_created_at r' \<le> nt_created_at r) (owned userID d)"
proof -
  show "set (owned userID d) = {r \<in> set (nd_notifications d). nt_user_id r = userID}"
    by (auto simp: owned_def)
  have "sorted (map nt_created_at (sort_key nt_created_at rows))" for rows :: "notification_row list" by simp
  then show "sorted_wrt (\<lambda>r r'. nt_created_at r' \<le> nt_created_at r) (owned userID d)"
    by (simp add: owned_def sorted_wrt_rev sorted_map)
qed

lemma concat_pages:
  "0 < s \<Longrightarrow> length xs \<le> n * s \<Longrightarrow> concat (map (\<lambda>p. take s (drop (p * s) xs)) [0..<n]) = xs"
proof -
  assume s: "0 < s"
  have "concat (map (\<lambda>p. take s (drop (p * s) xs)) [0..<n]) = take (n * s) xs" for n
  proof (induction n)
    case (Suc n)
    have "take (n * s) xs @ take s (drop (n * s) xs) = take (n * s + s) xs" by (simp add: take_add)
    with Suc show ?case by (simp add: add.commute)
  qed simp
  then show "length xs \<le> n * s \<Longrightarrow> ?thesis" by simp
qed

lemma List_quiet:
  assumes "userID \<noteq> 0" and "0 < s" and "s \<le> 100" and "int (p + 1) * int s \<le> max_i64"
  shows "Notification_List quiet userID (int p + 1) (int s) d =
    (Inr \<lparr>pg_Items = map scan_notification (take s (drop (p * s) (owned userID d))), pg_Page = int p + 1, pg_PageSize = int s,
       pg_Total = int (length (owned userID d))\<rparr>, d)"
proof -
  have ps: "int (p * s) \<le> max_i64" "int p \<le> max_i64"
  proof -
    have "int (p * s) \<le> int (p + 1) * int s" by (simp add: distrib_right)
    then show "int (p * s) \<le> max_i64" using assms(4) by linarith
    have "int p * 1 \<le> int p * int s" using assms(2) by (intro mult_left_mono) simp_all
    then show "int p \<le> max_i64" using \<open>int (p * s) \<le> max_i64\<close> by simp
  qed
  then have "in_i64 (int p)" "in_i64 (int (p * s))" unfolding in_i64_def max_i64_def by linarith+
  then have "wrap_i64 (int p) = int p" "wrap_i64 (int p * int s) = int (p * s)" by simp_all
  then have "nat (wrap_i64 (wrap_i64 (int p) * int s)) = p * s" "\<not> wrap_i64 (wrap_i64 (int p) * int s) < 0"
    by (simp_all flip: of_nat_mult)
  with assms(1-3) show ?thesis by (simp add: Notification_List_def ListOwned_def)
qed

section \<open>The handler under the consumer\<close>

definition Notification_handled :: "Message \<Rightarrow> notification_db \<Rightarrow> bool" where
  "Notification_handled m d \<longleftrightarrow> (\<exists>event. DecodeOrderCreatedV1 (json_value (m_Value m)) = Inr event \<and> consumed (ev_EventID event) d)"

lemma consumed_kept:
  assumes "undisturbed env" and "consumed i d"
  shows "consumed i (snd (ConsumeOrderCreated env now event d))"
proof -
  have "nd_consumptions d' = nd_consumptions d \<or> (\<exists>c. nd_consumptions d' = nd_consumptions d @ [c])"
    if "consume_tx now event d = (Inr True, d')" for d'
    using that by (auto simp: consume_tx_def insert_notification_def insert_consumption_def split: if_splits)
  then have "set (nd_consumptions d) \<subseteq> set (nd_consumptions (snd (ConsumeOrderCreated env now event d)))"
    using Consume_effect [OF assms(1), of now event d] by fastforce
  with assms(2) show ?thesis by (auto simp: consumed_def)
qed

lemma consumed_done:
  assumes un: "undisturbed env" and "ConsumeOrderCreated env now event d = (Inr x, d')"
  shows "consumed (ev_EventID event) d'"
proof -
  have v: "OrderCreatedV1_Validate event = None" using assms(2) by (auto simp: ConsumeOrderCreated_def split: option.splits)
  obtain res d1 where a: "atomically (env 0) (consume_tx now event) d = (res, d1)" by fastforce
  obtain b where b: "res = Inr b" using assms(2) v a by (cases res) (simp_all add: ConsumeOrderCreated_def Repository_Consume_def)
  have tx: "consume_tx now event d = (Inr b, d1)" using atomically_undisturbed(2) [OF un a b] .
  show ?thesis
  proof (cases b)
    case True
    with tx assms(2) v a b show ?thesis
      by (auto simp: ConsumeOrderCreated_def Repository_Consume_def consume_tx_def insert_notification_def insert_consumption_def
          consumed_def split: if_splits)
  next
    case False
    then obtain y where y: "read_db (env 1) (\<lambda>d. \<exists>c \<in> set (nd_consumptions d). nc_event_id c = ev_EventID event) d1 = (Inr y, d')" "y"
      using assms(2) v a b by (auto simp: ConsumeOrderCreated_def Repository_Consume_def split: prod.splits sum.splits bool.splits)
    with read_db_undisturbed(2) [OF un y(1)] show ?thesis by (simp add: consumed_def)
  qed
qed

lemma Notification_handler_ok:
  assumes "\<And>m. undisturbed (envs m)"
  shows "handler_ok Notification_handled (\<lambda>m. Notification_handler (envs m) (nows m) m)"
  unfolding handler_ok_def
proof (intro conjI allI impI)
  fix m :: Message and d d' :: notification_db assume "Notification_handler (envs m) (nows m) m d = (None, d')"
  then obtain event x where "DecodeOrderCreatedV1 (json_value (m_Value m)) = Inr event"
    "ConsumeOrderCreated (envs m) (nows m) event d = (Inr x, d')"
    by (auto simp: Notification_handler_def Permanent_def split: prod.splits sum.splits if_splits)
  with consumed_done [OF assms this(2)] show "Notification_handled m d'" by (simp add: Notification_handled_def)
next
  fix m m' :: Message and d :: notification_db assume "Notification_handled m d"
  then show "Notification_handled m (snd (Notification_handler (envs m') (nows m') m' d))"
    using consumed_kept [OF assms]
    by (auto simp: Notification_handled_def Notification_handler_def split: prod.splits sum.splits)
      (metis snd_conv)+
qed

section \<open>Properties\<close>

text \<open>C29: a user is notified of an order once, however often the event is delivered. After any number of
  deliveries in which anything may have failed, a clean delivery leaves the tables as a single clean delivery
  would have, and succeeds if that does.\<close>

theorem notification_exactly_once:
  assumes "room_for_one_more d" and "\<forall>(env, now) \<in> set tries. undisturbed env"
    and "d1 = foldl (\<lambda>d (env, now). snd (ConsumeOrderCreated env now event d)) d tries"
    and "ConsumeOrderCreated quiet now event d1 = (res, d2)"
  shows "\<exists>t \<in> insert now (snd ` set tries). d2 = snd (ConsumeOrderCreated quiet t event d) \<and>
    ((\<exists>x. fst (ConsumeOrderCreated quiet t event d) = Inr x) \<longrightarrow> (\<exists>y. res = Inr y))"
  using consumptions.retry_exactly_once [OF assms(1) TrueI assms(2-4)] by blast

text \<open>The operations on the tables.\<close>

datatype notification_op = Consume_event OrderCreatedV1 | Mark_read u64 u64

primrec run_notification :: "notification_op \<Rightarrow> notification_db env \<Rightarrow> time \<Rightarrow> notification_db \<Rightarrow> notification_db" where
  "run_notification (Consume_event event) env now d = snd (ConsumeOrderCreated env now event d)"
| "run_notification (Mark_read userID notificationID) env now d = snd (Notification_MarkRead env now userID notificationID d)"

lemma run_notification_ok:
  assumes "notifications_ok d" and un: "undisturbed env"
  shows "notifications_ok (run_notification op env now d)"
proof (cases op)
  case (Consume_event event)
  then show ?thesis
    using Consume_effect [OF un, of now event d] notifications_ok_consume [OF assms(1)] assms(1) by auto
next
  case (Mark_read u i)
  have "notifications_ok (snd (atomically (env 0) (read_stmt u i t) d))" for t
    using atomically_undisturbed(1) [OF un, of 0 "read_stmt u i t" d] notifications_ok_read [OF assms(1)] assms(1)
    by (metis prod.collapse)
  then show ?thesis
    using Mark_read assms(1)
    by (auto simp: Notification_MarkRead_def MarkReadOwned_def split: prod.splits sum.splits) (metis snd_conv)+
qed

text \<open>One notification for an order. Through any deliveries and marks with any failures, no two
  notifications are of the same order, and each has its entry in the ledger.\<close>

theorem one_notification_per_order:
  assumes "notifications_ok d" and "\<forall>(op, env, now) \<in> set ops. undisturbed env"
    and "d' = foldl (\<lambda>d (op, env, now). run_notification op env now d) d ops"
  shows "notifications_ok d' \<and> distinct (map (\<lambda>n. TrimSpace (nt_order_no n)) (nd_notifications d'))"
proof -
  have ok: "notifications_ok d'"
    using assms
  proof (induction ops arbitrary: d)
    case (Cons x ops)
    then show ?case using run_notification_ok by (cases x) fastforce
  qed simp
  then have "map (\<lambda>n. StableEventID (nt_order_no n)) (nd_notifications d') = map nc_event_id (nd_consumptions d')"
    by (auto simp: notifications_ok_def list_all2_conv_all_nth noted_def intro!: nth_equalityI)
  then have "distinct (map (\<lambda>n. StableEventID (nt_order_no n)) (nd_notifications d'))"
    using ok by (simp add: notifications_ok_def)
  then have "distinct (map StableEventID (map (\<lambda>n. TrimSpace (nt_order_no n)) (nd_notifications d')))"
    by (simp add: StableEventID_def comp_def)
  then have "distinct (map (\<lambda>n. TrimSpace (nt_order_no n)) (nd_notifications d'))" by (simp only: distinct_map)
  with ok show ?thesis by blast
qed

text \<open>The pages of a user's list are complete and private. Read one after the other without
  interference, they give each of the user's notifications once, newest first, and nobody else's.\<close>

theorem pages_complete:
  assumes "userID \<noteq> 0" and "0 < s" and "s \<le> 100" and "length (owned userID d) \<le> n * s" and "int n * int s \<le> max_i64"
  shows "\<exists>pages. (\<forall>p < n. Notification_List quiet userID (int p + 1) (int s) d = (Inr (pages p), d) \<and>
        pg_Total (pages p) = int (length (owned userID d))) \<and>
    concat (map (\<lambda>p. pg_Items (pages p)) [0..<n]) = map scan_notification (owned userID d) \<and>
    set (owned userID d) = {r \<in> set (nd_notifications d). nt_user_id r = userID} \<and>
    sorted_wrt (\<lambda>r r'. nt_created_at r' \<le> nt_created_at r) (owned userID d)"
proof -
  define pages where "pages p = \<lparr>pg_Items = map scan_notification (take s (drop (p * s) (owned userID d))), pg_Page = int p + 1,
    pg_PageSize = int s, pg_Total = int (length (owned userID d))\<rparr>" for p
  have "Notification_List quiet userID (int p + 1) (int s) d = (Inr (pages p), d)" if "p < n" for p
  proof -
    have "int (p + 1) * int s \<le> int n * int s" using that by (intro mult_right_mono) simp_all
    with assms(5) List_quiet [OF assms(1-3)] show ?thesis by (simp add: pages_def)
  qed
  moreover have "concat (map (\<lambda>p. pg_Items (pages p)) [0..<n]) = map scan_notification (owned userID d)"
  proof -
    have "map (\<lambda>p. pg_Items (pages p)) [0..<n] = map (map scan_notification) (map (\<lambda>p. take s (drop (p * s) (owned userID d))) [0..<n])"
      by (simp add: pages_def)
    then have "concat (map (\<lambda>p. pg_Items (pages p)) [0..<n]) =
        map scan_notification (concat (map (\<lambda>p. take s (drop (p * s) (owned userID d))) [0..<n]))" by (simp only: map_concat)
    with concat_pages [OF assms(2,4)] show ?thesis by simp
  qed
  ultimately show ?thesis using owned_props [of userID d] by (intro exI [of _ pages]) (simp add: pages_def)
qed

lemma filter_update: "(\<And>r. \<not> P (f r)) \<Longrightarrow> filter P (map (\<lambda>r. if P r then f r else r) rows) = []"
  by (induction rows) simp_all

text \<open>Only the owner marks a notification as read, only it is touched, and marking it a second time is
  answered that there is no such notification.\<close>

theorem mark_read_once:
  assumes "notifications_ok d" and "Notification_MarkRead quiet now userID notificationID d = (Inr (), d1)"
  shows "\<exists>n \<in> set (nd_notifications d). nt_id n = notificationID \<and> nt_user_id n = userID \<and> nt_read_at n = None \<and>
    d1 = d\<lparr>nd_notifications := map (\<lambda>r. if r = n then r\<lparr>nt_read_at := Some (Truncate now millisecond)\<rparr> else r) (nd_notifications d)\<rparr> \<and>
    Notification_MarkRead quiet later userID notificationID d1 = (fail ErrNotificationNotFound, d1)"
proof -
  let ?P = "to_read notificationID userID"
  obtain k where stmt: "read_stmt userID notificationID (Truncate now millisecond) d = (Inr k, d1)" and k: "k \<noteq> 0"
    and args: "userID \<noteq> 0" "notificationID \<noteq> 0"
    using assms(2) by (auto simp: Notification_MarkRead_def MarkReadOwned_def split: prod.splits sum.splits if_splits)
  note rows = read_stmt_rows [OF stmt]
  have "filter ?P (nd_notifications d) \<noteq> []" using rows k by auto
  then obtain n where n: "n \<in> set (nd_notifications d)" "?P n" by (auto simp: filter_empty_conv)
  have "distinct (map nt_id (nd_notifications d))"
    using numbered_sorted(2) assms(1) by (simp add: notifications_ok_def)
  then have inj: "inj_on nt_id (set (nd_notifications d))" by (simp add: distinct_map)
  have only: "?P r \<longleftrightarrow> r = n" if r: "r \<in> set (nd_notifications d)" for r
  proof
    assume "?P r"
    with n(2) have "nt_id r = nt_id n" by (simp add: to_read_def)
    then show "r = n" by (rule inj_onD [OF inj _ r n(1)])
  qed (use n(2) in simp)
  have d1: "d1 = d\<lparr>nd_notifications := map (\<lambda>r. if r = n then r\<lparr>nt_read_at := Some (Truncate now millisecond)\<rparr> else r) (nd_notifications d)\<rparr>"
  proof -
    have "map (\<lambda>r. if ?P r then r\<lparr>nt_read_at := Some (Truncate now millisecond)\<rparr> else r) (nd_notifications d) =
        map (\<lambda>r. if r = n then r\<lparr>nt_read_at := Some (Truncate now millisecond)\<rparr> else r) (nd_notifications d)"
      by (rule map_cong [OF refl]) (simp only: only)
    with rows show ?thesis by (simp only:)
  qed
  have none: "filter ?P (nd_notifications d1) = []"
  proof -
    have "\<not> ?P (r\<lparr>nt_read_at := Some t\<rparr>)" for r t by (simp add: to_read_def)
    then show ?thesis unfolding rows [THEN conjunct1] by (simp add: filter_update)
  qed
  have "read_stmt userID notificationID t d1 = (Inr 0, d1)" for t
  proof -
    have "map (\<lambda>r. if ?P r then r\<lparr>nt_read_at := Some t\<rparr> else r) (nd_notifications d1) = nd_notifications d1"
      using none by (intro map_idI) (simp add: filter_empty_conv)
    with none show ?thesis by (simp add: read_stmt_def Let_def)
  qed
  then have "Notification_MarkRead quiet later userID notificationID d1 = (fail ErrNotificationNotFound, d1)"
    using args by (simp add: Notification_MarkRead_def MarkReadOwned_def)
  moreover have "nt_id n = notificationID \<and> nt_user_id n = userID \<and> nt_read_at n = None" using n(2) by (simp add: to_read_def)
  ultimately show ?thesis using n(1) d1 by blast
qed

section \<open>Witnesses\<close>

definition demo_notice :: OrderCreatedV1 where
  "demo_notice = \<lparr>ev_EventID = ''order.created.v1:T1'', ev_EventType = ''order.created'', ev_SchemaVersion = 1,
     ev_OrderNo = ''T1'', ev_UserID = 5, ev_OrderSource = ''NORMAL'', ev_TotalAmountCent = 9900, ev_CreatedAtMS = 1700000000000\<rparr>"

definition no_notifications :: notification_db where
  "no_notifications = \<lparr>nd_notifications = [], nd_consumptions = []\<rparr>"

abbreviation lost_answers :: "notification_db env" where
  "lost_answers \<equiv> \<lambda>_. \<lparr>interference = id, outcome_of = Lost_after (Sentinel Context_DeadlineExceeded)\<rparr>"

lemma demo_notice_ok: "OrderCreatedV1_Validate demo_notice = None"
  by (simp add: OrderCreatedV1_Validate_def demo_notice_def StableEventID_def byte_def)

lemma demo_times:
  "Truncate (1700000000000 * millisecond) microsecond = 1700000000000 * millisecond"
  "Truncate (1800000000000 * millisecond) millisecond = 1800000000000 * millisecond"
  by (simp_all add: Truncate_def zero_time_def)

lemma no_notifications_ok: "notifications_ok no_notifications"
  by (simp add: notifications_ok_def no_notifications_def)

lemma demo_consume:
  "consume_tx (1700000000000 * millisecond) demo_notice no_notifications =
    (Inr True, \<lparr>nd_notifications = [notification_of demo_notice\<lparr>nt_id := 1\<rparr>],
       nd_consumptions = [\<lparr>nc_id = 1, nc_event_id = ''order.created.v1:T1'', nc_notification_id = 1, nc_consumed_at = 1700000000000 * millisecond\<rparr>]\<rparr>)"
  using consume_tx_fresh [OF no_notifications_ok, of demo_notice "1700000000000 * millisecond"] demo_times
  by (simp add: no_notifications_def table_full_def CreatedAt_def time_UnixMilli_def demo_notice_def datetime_ok_def
      consumed_def next_row_id_def)

definition demo_notified :: notification_db where
  "demo_notified = snd (consume_tx (1700000000000 * millisecond) demo_notice no_notifications)"

lemma demo_notified_ok: "notifications_ok demo_notified"
  using notifications_ok_consume [OF no_notifications_ok demo_notice_ok demo_consume] demo_consume
  by (simp add: demo_notified_def)

theorem notification_exactly_once_witness:
  "\<exists>res d2. ConsumeOrderCreated quiet (1700000000000 * millisecond) demo_notice
      (foldl (\<lambda>d (env, now). snd (ConsumeOrderCreated env now demo_notice d)) no_notifications
        [(lost_answers, 1700000000000 * millisecond), (lost_answers, 1700000000000 * millisecond)]) = (res, d2) \<and>
    d2 = demo_notified \<and> (\<exists>y. res = Inr y)"
proof -
  let ?t = "1700000000000 * millisecond"
  obtain res d2 where r: "ConsumeOrderCreated quiet ?t demo_notice
      (foldl (\<lambda>d (env, now). snd (ConsumeOrderCreated env now demo_notice d)) no_notifications
        [(lost_answers, ?t), (lost_answers, ?t)]) = (res, d2)" by fastforce
  have "room_for_one_more no_notifications" using no_notifications_ok by (simp add: room_for_one_more_def no_notifications_def)
  moreover have "\<forall>(env, now) \<in> set [(lost_answers, ?t), (lost_answers, ?t)]. undisturbed env" by (simp add: undisturbed_def)
  ultimately have "d2 = snd (ConsumeOrderCreated quiet ?t demo_notice no_notifications) \<and>
      ((\<exists>x. fst (ConsumeOrderCreated quiet ?t demo_notice no_notifications) = Inr x) \<longrightarrow> (\<exists>y. res = Inr y))"
    using notification_exactly_once [OF _ _ refl r] by simp
  moreover have "ConsumeOrderCreated quiet ?t demo_notice no_notifications = (Inr True, demo_notified)"
    using demo_consume by (simp add: Consume_quiet [OF demo_notice_ok] demo_notified_def)
  ultimately have "d2 = demo_notified" "\<exists>y. res = Inr y" by auto
  with r show ?thesis by blast
qed

theorem one_notification_per_order_witness:
  "distinct (map (\<lambda>n. TrimSpace (nt_order_no n)) (nd_notifications
    (foldl (\<lambda>d (op, env, now). run_notification op env now d) no_notifications
      [(Consume_event demo_notice, lost_answers, 1700000000000 * millisecond), (Consume_event demo_notice, quiet, 0)])))"
  by (rule one_notification_per_order [OF no_notifications_ok _ refl, THEN conjunct2])
    (simp add: undisturbed_def quiet_def)

theorem pages_complete_witness:
  "\<exists>pages. Notification_List quiet 5 1 20 demo_notified = (Inr (pages (0 :: nat)), demo_notified) \<and>
    map n_OrderNo (pg_Items (pages 0)) = [''T1'']"
proof -
  have o: "owned 5 demo_notified = [notification_of demo_notice\<lparr>nt_id := 1\<rparr>]"
    using demo_consume by (simp add: owned_def demo_notified_def notification_of_def demo_notice_def)
  have "\<exists>pages. (\<forall>p < 1. Notification_List quiet 5 (int p + 1) (int 20) demo_notified = (Inr (pages p), demo_notified) \<and>
        pg_Total (pages p) = int (length (owned 5 demo_notified))) \<and>
    concat (map (\<lambda>p. pg_Items (pages p)) [0..<1]) = map scan_notification (owned 5 demo_notified) \<and>
    set (owned 5 demo_notified) = {r \<in> set (nd_notifications demo_notified). nt_user_id r = 5} \<and>
    sorted_wrt (\<lambda>r r'. nt_created_at r' \<le> nt_created_at r) (owned 5 demo_notified)"
    by (rule pages_complete) (simp_all add: o max_i64_def)
  then obtain pages where p: "\<forall>p < (1 :: nat). Notification_List quiet 5 (int p + 1) (int 20) demo_notified = (Inr (pages p), demo_notified)"
    "concat (map (\<lambda>p. pg_Items (pages p)) [0..<1]) = map scan_notification (owned 5 demo_notified)" by blast
  then show ?thesis
    by (intro exI [of _ pages]) (simp add: o scan_notification_def notification_of_def demo_notice_def)
qed

theorem mark_read_once_witness:
  "\<exists>d1. Notification_MarkRead quiet (1800000000000 * millisecond) 5 1 demo_notified = (Inr (), d1) \<and>
    Notification_MarkRead quiet (1800000000000 * millisecond) 5 1 d1 = (fail ErrNotificationNotFound, d1)"
proof -
  have "\<exists>d1. Notification_MarkRead quiet (1800000000000 * millisecond) 5 1 demo_notified = (Inr (), d1)"
    using demo_consume demo_times
    by (simp add: Notification_MarkRead_def MarkReadOwned_def read_stmt_def to_read_def demo_notified_def notification_of_def
        demo_notice_def datetime_ok_def Let_def)
  then obtain d1 where "Notification_MarkRead quiet (1800000000000 * millisecond) 5 1 demo_notified = (Inr (), d1)" by blast
  with mark_read_once [OF demo_notified_ok this] show ?thesis by blast
qed

end
