(* ===== verification/Http.thy ===== *)
theory Http
  imports Accounts Tokens Catalog OrderRepo Activities Notification
begin

text \<open>
  What the HTTP handlers share (\<open>internal/handler\<close>): requests and responses, the decoding of JSON bodies into the
  request types, the payloads, the error responses and the authentication by access token. The framework's
  \<open>httpx.Parse\<close>, \<open>ParsePath\<close> and \<open>ParseForm\<close> are represented by what they return for the request; times in a payload
  stand for their \<open>RFC3339Nano\<close> texts.
\<close>

section \<open>Requests\<close>

text \<open>
  The header, the outcome of \<open>ParsePath\<close> for a numeric and for a textual parameter, of \<open>ParseForm\<close> for the page, and
  of \<open>Parse\<close> for credentials and for role assignments (\<open>None\<close> is an error); the JSON value of the body; and the
  user in the context, once authenticated.
\<close>

record http_request =
  hr_Authorization :: string
  hr_PathID :: "u64 option"
  hr_PathText :: "string option"
  hr_Page :: "(int \<times> int) option"
  hr_Credentials :: "(string \<times> string) option"
  hr_Roles :: "(u64 \<times> string list) option"
  hr_Body :: "json option"
  hr_UserID :: "u64 option"

text \<open>\<open>strings.Fields\<close>.\<close>

function fields_loop :: "string \<Rightarrow> string \<Rightarrow> string list" where
  "fields_loop w [] = (if w = [] then [] else [w])"
| "fields_loop w (c # s) =
     (case find (\<lambda>e. e \<noteq> [] \<and> take (length e) (c # s) = e) space_runes of
        None \<Rightarrow> fields_loop (w @ [c]) s
      | Some e \<Rightarrow> (if w = [] then [] else [w]) @ fields_loop [] (drop (length e) (c # s)))"
  by pat_completeness auto
termination
proof (relation "measure (\<lambda>(w, s). length s)")
  fix w c s e
  assume "find (\<lambda>e. e \<noteq> [] \<and> take (length e) (c # s) = e) space_runes = Some e"
  then have "e \<noteq> []" by (auto simp: find_Some_iff)
  then show "(([], drop (length e) (c # s)), w, c # s) \<in> measure (\<lambda>(w, s). length s)" by simp
qed simp_all

definition Fields :: "string \<Rightarrow> string list" where
  "Fields s = fields_loop [] s"

lemma find_none_printable:
  assumes "33 \<le> byte c" and "byte c \<le> 126"
  shows "find (\<lambda>e. e \<noteq> [] \<and> take (length e) (c # s) = e) space_runes = None"
proof -
  have "\<not> (e \<noteq> [] \<and> take (length e) (c # s) = e)" if "e \<in> set space_runes" for e
  proof
    assume e: "e \<noteq> [] \<and> take (length e) (c # s) = e"
    then have "c \<in> set e" by (cases e) auto
    with space_rune_not_printable [OF that] assms show False by blast
  qed
  then show ?thesis by (auto simp: find_None_iff)
qed

lemma fields_loop_printable: "printable s \<Longrightarrow> w @ s \<noteq> [] \<Longrightarrow> fields_loop w s = [w @ s]"
  by (induction s arbitrary: w) (simp_all add: find_none_printable)

lemma blank_char: "CHR '' '' \<noteq> char_of (9 :: nat)" "CHR '' '' \<noteq> char_of (10 :: nat)" "CHR '' '' \<noteq> char_of (11 :: nat)"
  "CHR '' '' \<noteq> char_of (12 :: nat)" "CHR '' '' \<noteq> char_of (13 :: nat)" "char_of (32 :: nat) = CHR '' ''"
  by code_simp+

lemma fields_loop_append:
  "printable s \<Longrightarrow> w @ s \<noteq> [] \<Longrightarrow> fields_loop w (s @ CHR '' '' # t) = (w @ s) # fields_loop [] t"
proof (induction s arbitrary: w)
  case Nil
  have "find (\<lambda>e. e \<noteq> [] \<and> take (length e) (CHR '' '' # t) = e) space_runes = Some '' ''"
    by (simp add: space_runes_def blank_char)
  with Nil show ?case by simp
qed (simp add: find_none_printable)

lemma Fields_two: "printable s \<Longrightarrow> printable t \<Longrightarrow> s \<noteq> [] \<Longrightarrow> t \<noteq> [] \<Longrightarrow> Fields (s @ CHR '' '' # t) = [s, t]"
  by (simp add: Fields_def fields_loop_append fields_loop_printable)

text \<open>\<open>strings.EqualFold(s, "Bearer")\<close>; no letter of it folds to a character outside ASCII.\<close>

definition is_bearer :: "string \<Rightarrow> bool" where
  "is_bearer s \<longleftrightarrow> map lower_char s = ''bearer''"

section \<open>JSON bodies\<close>

text \<open>
  \<open>encoding/json\<close> matches the name of a member with that of a field up to case folding, in which the Kelvin sign
  is a k and the long s is an s; a later member overwrites an earlier one.
\<close>

fun fold_name :: "string \<Rightarrow> string" where
  "fold_name [] = []"
| "fold_name (c # s) =
     (if byte c = 226 \<and> take 2 s = [char_of (132 :: nat), char_of (170 :: nat)] then CHR ''k'' # fold_name (drop 2 s)
      else if byte c = 197 \<and> take 1 s = [char_of (191 :: nat)] then CHR ''s'' # fold_name (drop 1 s)
      else lower_char c # fold_name s)"

definition json_members :: "json \<Rightarrow> (string \<times> json) list option" where
  "json_members j = (case j of JObject ms \<Rightarrow> Some ms | JNull \<Rightarrow> Some [] | _ \<Rightarrow> None)"

definition values_of :: "string \<Rightarrow> (string \<times> json) list \<Rightarrow> json list" where
  "values_of name ms = map snd (filter (\<lambda>(k, v). fold_name k = name) ms)"

text \<open>The value of a field after its members, from its value before: null leaves a number or a text alone.\<close>

fun json_field :: "(json \<Rightarrow> 'a option) \<Rightarrow> 'a \<Rightarrow> json list \<Rightarrow> 'a option" where
  "json_field f x [] = Some x"
| "json_field f x (v # vs) = (if v = JNull then json_field f x vs
     else (case f v of None \<Rightarrow> None | Some y \<Rightarrow> json_field f y vs))"

definition as_string :: "json \<Rightarrow> string option" where
  "as_string j = (case j of JString s \<Rightarrow> Some s | _ \<Rightarrow> None)"

definition as_int :: "json \<Rightarrow> int option" where
  "as_int j = (case j of JInt i \<Rightarrow> if in_i64 i then Some i else None | _ \<Rightarrow> None)"

definition as_u64 :: "json \<Rightarrow> u64 option" where
  "as_u64 j = (case j of JInt i \<Rightarrow> if 0 \<le> i \<and> i < 2 ^ 64 then Some (of_int i) else None | _ \<Rightarrow> None)"

definition as_u8 :: "json \<Rightarrow> nat option" where
  "as_u8 j = (case j of JInt i \<Rightarrow> if 0 \<le> i \<and> i < 256 then Some (nat i) else None | _ \<Rightarrow> None)"

text \<open>The values of a slice; a repeated member replaces the slice, null makes it empty.\<close>

fun map_option_list :: "('a \<Rightarrow> 'b option) \<Rightarrow> 'a list \<Rightarrow> 'b list option" where
  "map_option_list f [] = Some []"
| "map_option_list f (x # xs) = (case f x of None \<Rightarrow> None
     | Some y \<Rightarrow> map_option (Cons y) (map_option_list f xs))"

fun json_slice :: "(json \<Rightarrow> 'a option) \<Rightarrow> 'a list \<Rightarrow> json list \<Rightarrow> 'a list option" where
  "json_slice f xs [] = Some xs"
| "json_slice f xs (v # vs) = (case v of
       JNull \<Rightarrow> json_slice f [] vs
     | JArray js \<Rightarrow> (case map_option_list f js of None \<Rightarrow> None | Some ys \<Rightarrow> json_slice f ys vs)
     | _ \<Rightarrow> None)"

section \<open>The request types\<close>

record skuPayload =
  kp_ID :: u64
  kp_Code :: string
  kp_Name :: string
  kp_PriceCent :: int

definition decode_sku :: "json \<Rightarrow> skuPayload option" where
  "decode_sku j = (case json_members j of
       None \<Rightarrow> None
     | Some ms \<Rightarrow>
         (case (json_field as_u64 0 (values_of ''id'' ms), json_field as_string [] (values_of ''code'' ms),
                json_field as_string [] (values_of ''name'' ms), json_field as_int 0 (values_of ''price_cent'' ms)) of
            (Some i, Some c, Some n, Some p) \<Rightarrow> Some \<lparr>kp_ID = i, kp_Code = c, kp_Name = n, kp_PriceCent = p\<rparr>
          | _ \<Rightarrow> None))"

text \<open>\<open>createProductRequest\<close>: name, description and SKUs.\<close>

definition decode_createProduct :: "json \<Rightarrow> (string \<times> string \<times> skuPayload list) option" where
  "decode_createProduct j = (case json_members j of
       None \<Rightarrow> None
     | Some ms \<Rightarrow>
         (case (json_field as_string [] (values_of ''name'' ms), json_field as_string [] (values_of ''description'' ms),
                json_slice decode_sku [] (values_of ''skus'' ms)) of
            (Some n, Some d, Some ks) \<Rightarrow> Some (n, d, ks)
          | _ \<Rightarrow> None))"

text \<open>
  The requests with a path parameter are decoded into the structure that \<open>ParsePath\<close> has filled. The field of the
  parameter has no \<open>json\<close> tag and is therefore matched by its Go name.
\<close>

definition decode_updateProduct :: "u64 \<Rightarrow> json \<Rightarrow> (u64 \<times> string \<times> string) option" where
  "decode_updateProduct pathID j = (case json_members j of
       None \<Rightarrow> None
     | Some ms \<Rightarrow>
         (case (json_field as_u64 pathID (values_of ''productid'' ms), json_field as_string [] (values_of ''name'' ms),
                json_field as_string [] (values_of ''description'' ms)) of
            (Some i, Some n, Some d) \<Rightarrow> Some (i, n, d)
          | _ \<Rightarrow> None))"

definition decode_status :: "string \<Rightarrow> u64 \<Rightarrow> json \<Rightarrow> (u64 \<times> nat) option" where
  "decode_status idName pathID j = (case json_members j of
       None \<Rightarrow> None
     | Some ms \<Rightarrow>
         (case (json_field as_u64 pathID (values_of idName ms), json_field as_u8 0 (values_of ''status'' ms)) of
            (Some i, Some st) \<Rightarrow> Some (i, st)
          | _ \<Rightarrow> None))"

abbreviation decode_updateProductStatus :: "u64 \<Rightarrow> json \<Rightarrow> (u64 \<times> nat) option" where
  "decode_updateProductStatus \<equiv> decode_status ''productid''"

abbreviation decode_updateActivityStatus :: "u64 \<Rightarrow> json \<Rightarrow> (u64 \<times> nat) option" where
  "decode_updateActivityStatus \<equiv> decode_status ''activityid''"

definition decode_addSeckillItem :: "u64 \<Rightarrow> json \<Rightarrow> (u64 \<times> u64 \<times> int) option" where
  "decode_addSeckillItem pathID j = (case json_members j of
       None \<Rightarrow> None
     | Some ms \<Rightarrow>
         (case (json_field as_u64 pathID (values_of ''activityid'' ms), json_field as_u64 0 (values_of ''sku_id'' ms),
                json_field as_int 0 (values_of ''stock'' ms)) of
            (Some i, Some k, Some st) \<Rightarrow> Some (i, k, st)
          | _ \<Rightarrow> None))"

definition decode_orderItem :: "json \<Rightarrow> (u64 \<times> int) option" where
  "decode_orderItem j = (case json_members j of
       None \<Rightarrow> None
     | Some ms \<Rightarrow>
         (case (json_field as_u64 0 (values_of ''sku_id'' ms), json_field as_int 0 (values_of ''quantity'' ms)) of
            (Some k, Some q) \<Rightarrow> Some (k, q) | _ \<Rightarrow> None))"

definition decode_createOrder :: "json \<Rightarrow> (u64 \<times> int) list option" where
  "decode_createOrder j = (case json_members j of
       None \<Rightarrow> None | Some ms \<Rightarrow> json_slice decode_orderItem [] (values_of ''items'' ms))"

text \<open>\<open>createSeckillActivityRequest\<close>: the name and the texts of the two times.\<close>

definition decode_createActivity :: "json \<Rightarrow> (string \<times> string \<times> string) option" where
  "decode_createActivity j = (case json_members j of
       None \<Rightarrow> None
     | Some ms \<Rightarrow>
         (case (json_field as_string [] (values_of ''name'' ms), json_field as_string [] (values_of ''start_at'' ms),
                json_field as_string [] (values_of ''end_at'' ms)) of
            (Some n, Some st, Some e) \<Rightarrow> Some (n, st, e)
          | _ \<Rightarrow> None))"

section \<open>Payloads and responses\<close>

record productPayload =
  xp_ID :: u64
  xp_Name :: string
  xp_Description :: string
  xp_Status :: nat
  xp_SKUs :: "skuPayload list"
  xp_CreatedAt :: "time option"

text \<open>An \<open>orderItemPayload\<close> has the fields of an order item.\<close>

record orderPayload =
  op_ID :: u64
  op_OrderNo :: string
  op_Status :: nat
  op_TotalAmountCent :: int
  op_Items :: "OrderItem list"
  op_CreatedAt :: "time option"

record seckillActivityPayload =
  sa_ID :: u64
  sa_Name :: string
  sa_StartAt :: "time option"
  sa_EndAt :: "time option"
  sa_Status :: nat

record seckillItemPayload =
  sp_ID :: u64
  sp_ActivityID :: u64
  sp_SKUID :: u64
  sp_InitialStock :: int
  sp_AvailableStock :: int

record notificationPayload =
  np_ID :: u64
  np_BusinessType :: string
  np_Title :: string
  np_Body :: string
  np_OrderNo :: string
  np_CreatedAt :: time
  np_ReadAt :: "time option"

definition created_at :: "time \<Rightarrow> time option" where
  "created_at t = (if IsZero t then None else Some t)"

definition toProductPayload :: "Product \<Rightarrow> productPayload" where
  "toProductPayload item = \<lparr>xp_ID = p_ID item, xp_Name = p_Name item, xp_Description = p_Description item, xp_Status = p_Status item,
     xp_SKUs = map (\<lambda>k. \<lparr>kp_ID = sk_ID k, kp_Code = sk_Code k, kp_Name = sk_Name k, kp_PriceCent = sk_PriceCent k\<rparr>) (p_SKUs item),
     xp_CreatedAt = created_at (p_CreatedAt item)\<rparr>"

definition toOrderPayload :: "Order \<Rightarrow> orderPayload" where
  "toOrderPayload value = \<lparr>op_ID = o_ID value, op_OrderNo = o_OrderNo value, op_Status = o_Status value,
     op_TotalAmountCent = o_TotalAmountCent value, op_Items = o_Items value, op_CreatedAt = created_at (o_CreatedAt value)\<rparr>"

definition toSeckillActivityPayload :: "Activity \<Rightarrow> seckillActivityPayload" where
  "toSeckillActivityPayload value = \<lparr>sa_ID = a_ID value, sa_Name = a_Name value, sa_StartAt = Some (a_StartAt value),
     sa_EndAt = Some (a_EndAt value), sa_Status = a_Status value\<rparr>"

definition toSeckillItemPayload :: "Item \<Rightarrow> seckillItemPayload" where
  "toSeckillItemPayload value = \<lparr>sp_ID = i_ID value, sp_ActivityID = i_ActivityID value, sp_SKUID = i_SKUID value,
     sp_InitialStock = i_InitialStock value, sp_AvailableStock = i_AvailableStock value\<rparr>"

definition toNotificationPayload :: "Notification \<Rightarrow> notificationPayload" where
  "toNotificationPayload value = \<lparr>np_ID = n_ID value, np_BusinessType = n_BusinessType value, np_Title = n_Title value,
     np_Body = n_Body value, np_OrderNo = n_OrderNo value, np_CreatedAt = n_CreatedAt value, np_ReadAt = n_ReadAt value\<rparr>"

datatype payload =
    NoData
  | RegisteredUserData u64 string time
  | LoginData string int
  | CurrentUserData u64 string "string list"
  | UserRolesData u64 "string list"
  | ProductData productPayload
  | ProductListData "productPayload list" int int int
  | OrderData orderPayload
  | SeckillActivityData seckillActivityPayload
  | SeckillItemData seckillItemPayload
  | SeckillPreheatData u64 nat time time
  | SeckillOrderData orderPayload bool
  | QueuedSeckillOrderData string string bool
  | SeckillOrderResultData string string "orderPayload option"
  | NotificationListData "notificationPayload list" int int int
  | NotificationReadData u64 string

record response =
  hs_Status :: nat
  hs_Code :: string
  hs_Message :: string
  hs_Data :: payload

definition writeError :: "nat \<Rightarrow> string \<Rightarrow> string \<Rightarrow> response" where
  "writeError st code message = \<lparr>hs_Status = st, hs_Code = code, hs_Message = message, hs_Data = NoData\<rparr>"

definition OkJson :: "payload \<Rightarrow> response" where
  "OkJson data = \<lparr>hs_Status = 200, hs_Code = ''OK'', hs_Message = [], hs_Data = data\<rparr>"

definition Accepted :: "payload \<Rightarrow> response" where
  "Accepted data = \<lparr>hs_Status = 202, hs_Code = ''OK'', hs_Message = [], hs_Data = data\<rparr>"

lemmas response_defs [simp] = writeError_def OkJson_def Accepted_def

abbreviation unauthenticated :: response where
  "unauthenticated \<equiv> writeError 401 ''UNAUTHENTICATED'' ''authentication required''"

abbreviation internal_error :: response where
  "internal_error \<equiv> writeError 500 ''INTERNAL_ERROR'' ''internal server error''"

abbreviation invalid :: "string \<Rightarrow> response" where
  "invalid message \<equiv> writeError 400 ''INVALID_ARGUMENT'' message"

section \<open>Handlers and authentication\<close>

text \<open>A handler answers a request and changes the state \<open>'s\<close> of the services behind it.\<close>

type_synonym 's handler = "http_request \<Rightarrow> 's \<Rightarrow> response \<times> 's"

definition authenticate :: "jwt_lib \<Rightarrow> TokenManager \<Rightarrow> time \<Rightarrow> 's handler \<Rightarrow> 's handler" where
  "authenticate J tokens now handle r s =
     (case Fields (TrimSpace (hr_Authorization r)) of
        [scheme, tok] \<Rightarrow>
          if \<not> is_bearer scheme then (unauthenticated, s)
          else (case ParseUserID J tokens now tok of
              Inl err \<Rightarrow> (if errors_Is err ErrTokenExpired then writeError 401 ''TOKEN_EXPIRED'' ''access token expired''
                 else writeError 401 ''UNAUTHENTICATED'' ''invalid access token'', s)
            | Inr userID \<Rightarrow> handle (r\<lparr>hr_UserID := Some userID\<rparr>) s)
      | _ \<Rightarrow> (unauthenticated, s))"

definition gatewayUserID :: "http_request \<Rightarrow> u64 option" where
  "gatewayUserID r = (case hr_UserID r of Some v \<Rightarrow> if v = 0 then None else Some v | None \<Rightarrow> None)"

text \<open>The user a request authenticates, if any.\<close>

definition token_user :: "jwt_lib \<Rightarrow> TokenManager \<Rightarrow> time \<Rightarrow> http_request \<Rightarrow> u64 option" where
  "token_user J tokens now r = (case Fields (TrimSpace (hr_Authorization r)) of
       [scheme, tok] \<Rightarrow> if \<not> is_bearer scheme then None
         else (case ParseUserID J tokens now tok of Inl err \<Rightarrow> None | Inr userID \<Rightarrow> Some userID)
     | _ \<Rightarrow> None)"

lemma ParseUserID_nonzero: "ParseUserID J tokens now tok = Inr u \<Longrightarrow> u \<noteq> 0"
  by (auto simp: ParseUserID_def split: sum.splits jwt_error.splits prod.splits if_splits)

lemma token_user_nonzero: "token_user J tokens now r = Some u \<Longrightarrow> u \<noteq> 0"
  by (auto simp: token_user_def ParseUserID_nonzero split: list.splits sum.splits if_splits)

text \<open>Authentication passes a request on with its user, or answers 401 and does nothing.\<close>

lemma authenticate_cases:
  "authenticate J tokens now handle r s = (case token_user J tokens now r of
     Some u \<Rightarrow> handle (r\<lparr>hr_UserID := Some u\<rparr>) s
   | None \<Rightarrow> (fst (authenticate J tokens now handle r s), s))"
  "token_user J tokens now r = None \<Longrightarrow> hs_Status (fst (authenticate J tokens now handle r s)) = 401 \<and>
     hs_Data (fst (authenticate J tokens now handle r s)) = NoData"
  by (auto simp: authenticate_def token_user_def split: list.splits sum.splits)

lemma strip_head:
  assumes "33 \<le> byte c" and "byte c \<le> 126" and "\<forall>e \<in> set es. \<forall>c \<in> set e. \<not> (33 \<le> byte c \<and> byte c \<le> 126)"
  shows "strip es (c # s) = c # s"
proof (rule strip_fixed)
  have "\<not> (e \<noteq> [] \<and> take (length e) (c # s) = e)" if "e \<in> set es" for e
  proof
    assume "e \<noteq> [] \<and> take (length e) (c # s) = e"
    then have "c \<in> set e" by (cases e) auto
    with assms that show False by blast
  qed
  then show "find (\<lambda>e. e \<noteq> [] \<and> take (length e) (c # s) = e) es = None" by (auto simp: find_None_iff)
qed

lemma TrimSpace_ends:
  assumes "printable s" and "s \<noteq> []" and "printable t" and "t \<noteq> []"
  shows "TrimSpace (s @ u @ t) = s @ u @ t"
proof -
  obtain c s' where s: "s = c # s'" using assms(2) by (cases s) auto
  obtain b t' where t: "t = t' @ [b]" using assms(4) by (cases t rule: rev_cases) auto
  have c: "33 \<le> byte c" "byte c \<le> 126" "33 \<le> byte b" "byte b \<le> 126" using assms(1,3) s t by simp_all
  have "\<forall>e \<in> set space_runes. \<forall>c \<in> set e. \<not> (33 \<le> byte c \<and> byte c \<le> 126)" using space_rune_not_printable by blast
  then have "strip space_runes (c # x) = c # x" "strip (map rev space_runes) (b # x) = b # x" for x
    using c by (simp_all add: strip_head)
  then have "strip space_runes (s @ u @ t) = s @ u @ t" "strip (map rev space_runes) (rev (s @ u @ t)) = rev (s @ u @ t)"
    by (simp_all add: s t)
  then show ?thesis by (simp add: TrimSpace_def)
qed

lemma bearer_fields:
  assumes "printable tok" and "tok \<noteq> []"
  shows "Fields (TrimSpace (''Bearer '' @ tok)) = [''Bearer'', tok]"
proof -
  have "TrimSpace (''Bearer'' @ '' '' @ tok) = ''Bearer'' @ '' '' @ tok"
    using assms(1,2) by (intro TrimSpace_ends) (simp_all add: byte_def)
  then show ?thesis using assms Fields_two [of "''Bearer''" tok] by (simp add: byte_def)
qed

lemma token_user_bearer:
  assumes "printable tok" and "tok \<noteq> []" and "hr_Authorization r = ''Bearer '' @ tok"
  shows "token_user J tokens now r = (case ParseUserID J tokens now tok of Inl err \<Rightarrow> None | Inr userID \<Rightarrow> Some userID)"
proof -
  have "Fields (TrimSpace (hr_Authorization r)) = [''Bearer'', tok]" using assms bearer_fields by simp
  moreover have "is_bearer ''Bearer''" by code_simp
  ultimately show ?thesis by (simp add: token_user_def)
qed

end
