(* ===== verification/LoadTest.thy ===== *)
theory LoadTest
  imports Config Http Purchase
begin

text \<open>
  The load test (\<open>cmd/loadtest\<close>): its options, the preparation of an item and of users over the HTTP interface, the concurrent
  requests and the samples made of the answers, and the polling for the results of asynchronous orders. The server is a
  parameter: a function of the call and of a state that others change as well. Its report is the subject of \<open>LoadReport\<close>.
  Messages are given in English, and \<open>%q\<close> without its quotation marks.
\<close>

section \<open>Options\<close>

record options =
  lo_BaseURL :: string
  lo_Strategy :: string
  lo_Admission :: string
  lo_OrderMode :: string
  lo_ConfigFile :: string
  lo_RedisDeployment :: string
  lo_Scenario :: string
  lo_Concurrency :: int
  lo_Requests :: int
  lo_Stock :: int
  lo_RequestTimeout :: int
  lo_DrainTimeout :: int
  lo_PollInterval :: int
  lo_SetupConcurrency :: int
  lo_AdminEmail :: string
  lo_AdminPassword :: string
  lo_UserPassword :: string
  lo_UserDomain :: string
  lo_RunID :: string
  lo_TokensFile :: string
  lo_SKUID :: u64
  lo_ItemID :: u64
  lo_Output :: string

definition is_alnum :: "char \<Rightarrow> bool" where
  "is_alnum c \<longleftrightarrow> (97 \<le> byte c \<and> byte c \<le> 122) \<or> (65 \<le> byte c \<and> byte c \<le> 90) \<or> (48 \<le> byte c \<and> byte c \<le> 57)"

text \<open>The loop is over runes, and a rune outside ASCII has no byte that counts.\<close>

definition sanitizeRunID :: "string \<Rightarrow> string" where
  "sanitizeRunID value = Purchase.ToLower (filter is_alnum value)"

definition isAsyncOrderMode :: "string \<Rightarrow> bool" where
  "isAsyncOrderMode value \<longleftrightarrow> value = ''async-stream''"

definition TrimRight :: "string \<Rightarrow> char \<Rightarrow> string" where
  "TrimRight s c = rev (dropWhile (\<lambda>d. d = c) (rev s))"

text \<open>\<open>url.Parse\<close>, as far as it is used, is the argument \<open>parse_url\<close>: the scheme and the host, if there is no error.\<close>

definition validateOptions :: "(string \<Rightarrow> (string \<times> string) option) \<Rightarrow> options \<Rightarrow> options result" where
  "validateOptions parse_url opts =
     (case parse_url (lo_BaseURL opts) of
        None \<Rightarrow> Inl (Plain ''url must be absolute'')
      | Some (scheme, host) \<Rightarrow>
          if scheme = [] \<or> host = [] \<or> (scheme \<noteq> ''http'' \<and> scheme \<noteq> ''https'') then Inl (Plain ''url must be absolute'')
          else
            (let opts = opts\<lparr>lo_BaseURL := TrimRight (lo_BaseURL opts) (CHR ''/''),
                   lo_Strategy := Purchase.ToLower (TrimSpace (lo_Strategy opts))\<rparr> in
             if lo_Strategy opts \<noteq> ''atomic'' \<and> lo_Strategy opts \<noteq> ''pessimistic'' \<and> lo_Strategy opts \<noteq> ''optimistic''
             then Inl (Plain ''strategy'')
             else
               (let admission = Purchase.ToLower (TrimSpace (lo_Admission opts));
                    opts = opts\<lparr>lo_Admission := if admission = [] then ''mysql'' else admission\<rparr> in
                if lo_Admission opts \<noteq> ''mysql'' \<and> lo_Admission opts \<noteq> ''redis'' then Inl (Plain ''admission'')
                else
                  (let mode = Purchase.ToLower (TrimSpace (lo_OrderMode opts));
                       opts = opts\<lparr>lo_OrderMode := if mode = [] then ''sync'' else if mode = ''async'' then ''async-stream'' else mode\<rparr> in
                   if lo_OrderMode opts \<noteq> ''sync'' \<and> lo_OrderMode opts \<noteq> ''async-stream'' then Inl (Plain ''order-mode'')
                   else if TrimSpace (lo_ConfigFile opts) = [] then Inl (Plain ''config'')
                   else
                     (let opts = opts\<lparr>lo_RedisDeployment := TrimSpace (lo_RedisDeployment opts)\<rparr> in
                      if lo_RedisDeployment opts = [] then Inl (Plain ''redis-deployment'')
                      else
                        (let opts = opts\<lparr>lo_Scenario := Purchase.ToLower (TrimSpace (lo_Scenario opts))\<rparr> in
                         if lo_Scenario opts \<noteq> ''unique'' \<and> lo_Scenario opts \<noteq> ''replay'' then Inl (Plain ''scenario'')
                         else if lo_Concurrency opts \<le> 0 \<or> lo_Requests opts \<le> 0 \<or> lo_SetupConcurrency opts \<le> 0 \<or>
                           lo_RequestTimeout opts \<le> 0 \<or> lo_DrainTimeout opts \<le> 0 \<or> lo_PollInterval opts \<le> 0
                         then Inl (Plain ''counts and times must be positive'')
                         else if lo_Stock opts < 0 then Inl (Plain ''stock'')
                         else if lo_Output opts = [] then Inl (Plain ''output'')
                         else if 0 < lo_SKUID opts \<and> 0 < lo_ItemID opts then Inl (Plain ''sku-id and item-id'')
                         else if lo_TokensFile opts \<noteq> [] then
                           (if 0 < lo_SKUID opts then Inl (Plain ''sku-id with tokens-file'')
                            else if lo_ItemID opts = 0 then Inl (Plain ''tokens-file without item-id'')
                            else Inr opts)
                         else if lo_Stock opts = 0 then Inl (Plain ''stock of the prepared item'')
                         else if TrimSpace (lo_AdminEmail opts) = [] \<or> lo_AdminPassword opts = [] then Inl (Plain ''administrator'')
                         else if lo_UserPassword opts = [] \<or> TrimSpace (lo_UserDomain opts) = [] then Inl (Plain ''test users'')
                         else
                           (let opts = opts\<lparr>lo_RunID := sanitizeRunID (lo_RunID opts)\<rparr> in
                            if lo_RunID opts = [] then Inl (Plain ''run-id'')
                            else if 40 < length (lo_RunID opts) then Inl (Plain ''run-id is too long'')
                            else Inr opts)))))))"

section \<open>Calls\<close>

text \<open>
  A response: its status, an error while its body is read, the text of the body, the value of which \<open>json.Unmarshal\<close> of the whole
  text and \<open>Decode\<close> of its first value are the parse (or the text of their error). Only the first megabyte counts.
\<close>

record http_call =
  hq_Method :: string
  hq_Path :: string
  hq_Token :: string
  hq_Body :: "json option"

record http_reply =
  hb_Status :: int
  hb_ReadErr :: "goerr option"
  hb_Text :: string
  hb_Whole :: "json result"
  hb_First :: "json result"

text \<open>The request cannot be made, it gets no response, or it gets one.\<close>

datatype http_answer = NoRequest goerr | NoReply goerr | Reply http_reply

type_synonym 'w server = "http_call \<Rightarrow> 'w \<Rightarrow> http_answer \<times> 'w"

text \<open>\<open>apiResponse\<close> is embedded: its members are those of the envelope itself. A nested structure takes the members of every occurrence.\<close>

record apiResponse =
  ai_Code :: string
  ai_Message :: string

definition decode_api :: "(string \<times> json) list \<Rightarrow> apiResponse option" where
  "decode_api ms =
     (case (json_field as_string [] (values_of ''code'' ms), json_field as_string [] (values_of ''message'' ms)) of
        (Some c, Some m) \<Rightarrow> Some \<lparr>ai_Code = c, ai_Message = m\<rparr>
      | _ \<Rightarrow> None)"

definition nested :: "string \<Rightarrow> (string \<times> json) list \<Rightarrow> (string \<times> json) list option" where
  "nested name ms = map_option concat (map_option_list json_members (values_of name ms))"

text \<open>An envelope whose data is decoded from the members of \<open>data\<close>; \<open>decode_nothing\<close> for a plain \<open>apiResponse\<close>.\<close>

definition decode_envelope :: "((string \<times> json) list \<Rightarrow> 'a option) \<Rightarrow> json \<Rightarrow> (apiResponse \<times> 'a) option" where
  "decode_envelope data j = (case json_members j of
       None \<Rightarrow> None
     | Some ms \<Rightarrow>
         (case (decode_api ms, nested ''data'' ms) of
            (Some a, Some ds) \<Rightarrow> map_option (\<lambda>x. (a, x)) (data ds)
          | _ \<Rightarrow> None))"

definition decode_plain :: "json \<Rightarrow> (apiResponse \<times> unit) option" where
  "decode_plain j = (case json_members j of None \<Rightarrow> None | Some ms \<Rightarrow> map_option (\<lambda>a. (a, ())) (decode_api ms))"

definition decode_id :: "(string \<times> json) list \<Rightarrow> u64 option" where
  "decode_id ms = json_field as_u64 0 (values_of ''id'' ms)"

definition decode_token :: "(string \<times> json) list \<Rightarrow> string option" where
  "decode_token ms = json_field as_string [] (values_of ''access_token'' ms)"

definition decode_result_status :: "(string \<times> json) list \<Rightarrow> string option" where
  "decode_result_status ms = json_field as_string [] (values_of ''status'' ms)"

definition decode_product :: "(string \<times> json) list \<Rightarrow> (u64 \<times> u64 list) option" where
  "decode_product ms =
     (case (decode_id ms, json_slice (\<lambda>j. Option.bind (json_members j) decode_id) [] (values_of ''skus'' ms)) of
        (Some i, Some ks) \<Rightarrow> Some (i, ks)
      | _ \<Rightarrow> None)"

definition decode_error :: goerr where
  "decode_error = Plain ''json: cannot unmarshal''"

definition decoded :: "(json \<Rightarrow> 'a option) \<Rightarrow> json result \<Rightarrow> 'a result" where
  "decoded f r = (case r of Inl e \<Rightarrow> Inl e | Inr j \<Rightarrow> (case f j of None \<Rightarrow> Inl decode_error | Some x \<Rightarrow> Inr x))"

text \<open>The status, 0 without a response, and the decoded body or the error.\<close>

definition requestJSON ::
  "'w server \<Rightarrow> string \<Rightarrow> string \<Rightarrow> string \<Rightarrow> json \<Rightarrow> (json \<Rightarrow> (apiResponse \<times> 'a) option) \<Rightarrow> 'w \<Rightarrow>
     (int \<times> (apiResponse \<times> 'a) result) \<times> 'w" where
  "requestJSON server method path token body decode w =
     (case server \<lparr>hq_Method = method, hq_Path = path, hq_Token = token, hq_Body = Some body\<rparr> w of
        (NoRequest err, w') \<Rightarrow> ((0, Inl (Wrapf ''create request'' err)), w')
      | (NoReply err, w') \<Rightarrow> ((0, Inl (Wrapf ''send request'' err)), w')
      | (Reply r, w') \<Rightarrow>
          ((hb_Status r, case decoded decode (hb_First r) of
              Inl err \<Rightarrow> Inl (Wrapf ''parse response'' err) | Inr x \<Rightarrow> Inr x), w'))"

definition combineAPIErr :: "string \<Rightarrow> int \<Rightarrow> (apiResponse \<times> 'a) result \<Rightarrow> goerr" where
  "combineAPIErr operation status response = (case response of
       Inl err \<Rightarrow> Wrapf operation err
     | Inr (a, _) \<Rightarrow> Plain (operation @ '' failed: HTTP '' @ FormatInt status @ '' code='' @ ai_Code a @ '' message='' @ ai_Message a))"

text \<open>A call that has to be answered with 200 and OK, and with data that are complete.\<close>

definition expect ::
  "'w server \<Rightarrow> string \<Rightarrow> string \<Rightarrow> string \<Rightarrow> string \<Rightarrow> json \<Rightarrow> (json \<Rightarrow> (apiResponse \<times> 'a) option) \<Rightarrow> ('a \<Rightarrow> bool) \<Rightarrow> 'w \<Rightarrow>
     'a result \<times> 'w" where
  "expect server operation method path token body decode full w =
     (case requestJSON server method path token body decode w of
        ((status, response), w') \<Rightarrow>
          (case response of
             Inl err \<Rightarrow> (Inl (combineAPIErr operation status response), w')
           | Inr (a, x) \<Rightarrow>
               if status \<noteq> 200 \<or> ai_Code a \<noteq> ''OK'' \<or> \<not> full x
               then (Inl (combineAPIErr operation status response), w') else (Inr x, w')))"

section \<open>Preparation\<close>

text \<open>\<open>%X\<close> of a number.\<close>

definition upper_hex_digit :: "nat \<Rightarrow> char" where
  "upper_hex_digit d = (if d < 10 then char_of (48 + d) else char_of (55 + d))"

fun show_hex :: "nat \<Rightarrow> string" where
  "show_hex n = (if n < 16 then [upper_hex_digit n] else show_hex (n div 16) @ [upper_hex_digit (n mod 16)])"

declare show_hex.simps [simp del]

definition format_X :: "int \<Rightarrow> string" where
  "format_X i = (if i < 0 then CHR ''-'' # show_hex (nat (- i)) else show_hex (nat i))"

text \<open>The sequence number is that of the counter of the process after its increment.\<close>

definition newLoadtestSKUCode :: "string \<Rightarrow> time \<Rightarrow> u64 \<Rightarrow> string" where
  "newLoadtestSKUCode runID now sequence =
     ''LOADTEST-'' @ ToUpper runID @ ''-'' @ format_X (wrap_i64 now) @ ''-'' @ show_hex (unat sequence)"

definition status_one :: json where
  "status_one = JObject [(''status'', JInt 1)]"

definition createLoadtestSKU :: "'w server \<Rightarrow> options \<Rightarrow> time \<Rightarrow> u64 \<Rightarrow> string \<Rightarrow> 'w \<Rightarrow> u64 result \<times> 'w" where
  "createLoadtestSKU server opts now sequence adminToken w =
     (let skuCode = newLoadtestSKUCode (lo_RunID opts) now sequence in
      case expect server ''create product'' ''POST'' ''/v1/admin/products'' adminToken
          (JObject [(''description'', JString ''created by cmd/loadtest''), (''name'', JString (''Load Test Product '' @ lo_RunID opts)),
            (''skus'', JArray [JObject [(''code'', JString skuCode), (''name'', JString ''Default''), (''price_cent'', JInt 9900)]])])
          (decode_envelope decode_product) (\<lambda>(i, ks). i \<noteq> 0 \<and> ks \<noteq> []) w of
        (Inl err, w1) \<Rightarrow> (Inl err, w1)
      | (Inr (i, ks), w1) \<Rightarrow>
          (case expect server ''enable product'' ''PUT'' (''/v1/admin/products/'' @ FormatUint i @ ''/status'') adminToken status_one
              decode_plain (\<lambda>_. True) w1 of
             (Inl err, w2) \<Rightarrow> (Inl err, w2)
           | (Inr _, w2) \<Rightarrow> (Inr (hd ks), w2)))"

text \<open>
  The item, and the time from which it is on sale (\<open>readyAt\<close>). \<open>time.Format\<close> is the argument \<open>rfc\<close>; the second clock reading is the one
  for the code of a new SKU.
\<close>

definition createSeckillItem ::
  "'w server \<Rightarrow> (time \<Rightarrow> string) \<Rightarrow> options \<Rightarrow> time \<Rightarrow> time \<Rightarrow> u64 \<Rightarrow> string \<Rightarrow> 'w \<Rightarrow> (u64 \<times> time) result \<times> 'w" where
  "createSeckillItem server rfc opts skuNow now sequence adminToken w =
     (case (if lo_SKUID opts = 0 then createLoadtestSKU server opts skuNow sequence adminToken w else (Inr (lo_SKUID opts), w)) of
        (Inl err, w1) \<Rightarrow> (Inl err, w1)
      | (Inr skuID, w1) \<Rightarrow>
          (let startAt = (if lo_Admission opts = ''redis'' then now + 3 * second else now - 60 * second) in
           case expect server ''create activity'' ''POST'' ''/v1/admin/seckill/activities'' adminToken
               (JObject [(''end_at'', JString (rfc (now + 3600 * second))), (''name'', JString (''Load Test Activity '' @ lo_RunID opts)),
                 (''start_at'', JString (rfc startAt))])
               (decode_envelope decode_id) (\<lambda>i. i \<noteq> 0) w1 of
             (Inl err, w2) \<Rightarrow> (Inl err, w2)
           | (Inr activity, w2) \<Rightarrow>
               (case expect server ''configure stock'' ''POST''
                   (''/v1/admin/seckill/activities/'' @ FormatUint activity @ ''/items'') adminToken
                   (JObject [(''sku_id'', JInt (uint skuID)), (''stock'', JInt (lo_Stock opts))])
                   (decode_envelope decode_id) (\<lambda>i. i \<noteq> 0) w2 of
                  (Inl err, w3) \<Rightarrow> (Inl err, w3)
                | (Inr item, w3) \<Rightarrow>
                    (case expect server ''enable activity'' ''PUT''
                        (''/v1/admin/seckill/activities/'' @ FormatUint activity @ ''/status'') adminToken status_one
                        decode_plain (\<lambda>_. True) w3 of
                       (Inl err, w4) \<Rightarrow> (Inl err, w4)
                     | (Inr _, w4) \<Rightarrow>
                         if lo_Admission opts = ''redis'' then
                           (case expect server ''preheat activity'' ''POST''
                               (''/v1/admin/seckill/activities/'' @ FormatUint activity @ ''/preheat'') adminToken JNull
                               decode_plain (\<lambda>_. True) w4 of
                              (Inl err, w5) \<Rightarrow> (Inl err, w5)
                            | (Inr _, w5) \<Rightarrow> (Inr (item, startAt), w5))
                         else (Inr (item, startAt), w4)))))"

definition credentials :: "string \<Rightarrow> string \<Rightarrow> json" where
  "credentials email password = JObject [(''email'', JString email), (''password'', JString password)]"

definition loadtest_register :: "'w server \<Rightarrow> string \<Rightarrow> string \<Rightarrow> 'w \<Rightarrow> goerr option \<times> 'w" where
  "loadtest_register server email password w =
     (case requestJSON server ''POST'' ''/v1/auth/register'' [] (credentials email password) decode_plain w of
        ((status, response), w') \<Rightarrow>
          (case response of
             Inl err \<Rightarrow> (Some (Wrapf (''register test user '' @ email) err), w')
           | Inr (a, _) \<Rightarrow>
               if status = 200 \<and> ai_Code a = ''OK'' \<or> status = 409 \<and> ai_Code a = ''USER_ALREADY_EXISTS'' then (None, w')
               else (Some (combineAPIErr (''register test user '' @ email) status response), w')))"

definition loadtest_login :: "'w server \<Rightarrow> string \<Rightarrow> string \<Rightarrow> 'w \<Rightarrow> string result \<times> 'w" where
  "loadtest_login server email password w =
     expect server (''login '' @ email) ''POST'' ''/v1/auth/login'' [] (credentials email password)
       (decode_envelope decode_token) (\<lambda>t. t \<noteq> []) w"

text \<open>\<open>%06d\<close>.\<close>

definition pad6 :: "nat \<Rightarrow> string" where
  "pad6 n = (let s = show_nat n in replicate (6 - length s) (CHR ''0'') @ s)"

definition test_email :: "options \<Rightarrow> nat \<Rightarrow> string" where
  "test_email opts index = ''loadtest-'' @ lo_RunID opts @ ''-'' @ pad6 index @ ''@'' @ lo_UserDomain opts"

text \<open>
  The work of one index: the state at its registration and at its login are what the other workers have made of it. The errors
  go into a channel that keeps the first, \<open>order\<close> being the order in which the workers finish.
\<close>

definition prepare_user :: "'w server \<Rightarrow> options \<Rightarrow> nat \<Rightarrow> 'w \<times> 'w \<Rightarrow> string result" where
  "prepare_user server opts index w =
     (case fst (loadtest_register server (test_email opts index) (lo_UserPassword opts) (fst w)) of
        Some err \<Rightarrow> Inl err
      | None \<Rightarrow>
          (case fst (loadtest_login server (test_email opts index) (lo_UserPassword opts) (snd w)) of
             Inl err \<Rightarrow> Inl (Wrapf (''login test user '' @ test_email opts index) err)
           | Inr token \<Rightarrow> Inr token))"

definition prepareUsers :: "'w server \<Rightarrow> options \<Rightarrow> nat \<Rightarrow> nat list \<Rightarrow> (nat \<Rightarrow> 'w \<times> 'w) \<Rightarrow> string list result" where
  "prepareUsers server opts users order ws =
     (let user = (\<lambda>index. prepare_user server opts index (ws index));
          tokens = map (\<lambda>index. case user index of Inl _ \<Rightarrow> [] | Inr token \<Rightarrow> token) [0..<users] in
      case filter (\<lambda>r. isl r) (map user order) of
        Inl err # _ \<Rightarrow> Inl err
      | _ \<Rightarrow> if [] \<in> set tokens then Inl (Plain ''test user has no token'') else Inr tokens)"

text \<open>\<open>readTokens\<close>: the content of the file, if it can be read.\<close>

definition readTokens :: "string result \<Rightarrow> string list result" where
  "readTokens file = (case file of
       Inl err \<Rightarrow> Inl (Wrapf ''read tokens-file'' err)
     | Inr content \<Rightarrow>
         (let tokens = filter (\<lambda>t. t \<noteq> []) (map TrimSpace (Split content (char_of (10 :: nat)))) in
          if tokens = [] then Inl (Plain ''tokens-file has no token'') else Inr tokens))"

text \<open>What the preparation finds: the file of tokens, the clock, the counter, and the states of the server.\<close>

record 'w preparation =
  su_file :: "string result"
  su_sku_now :: time
  su_now :: time
  su_sequence :: u64
  su_order :: "nat list"
  su_users :: "nat \<Rightarrow> 'w \<times> 'w"

definition required :: "options \<Rightarrow> nat" where
  "required opts = (if lo_Scenario opts = ''replay'' then 1 else nat (lo_Requests opts))"

definition prepare :: "'w server \<Rightarrow> (time \<Rightarrow> string) \<Rightarrow> options \<Rightarrow> 'w preparation \<Rightarrow> 'w \<Rightarrow> (u64 \<times> string list) result" where
  "prepare server rfc opts su w =
     (if lo_TokensFile opts \<noteq> [] then
        (case readTokens (su_file su) of
           Inl err \<Rightarrow> Inl err
         | Inr tokens \<Rightarrow>
             if length tokens < required opts then Inl (Plain ''tokens-file has too few tokens'') else Inr (lo_ItemID opts, tokens))
      else
        (case loadtest_login server (lo_AdminEmail opts) (lo_AdminPassword opts) w of
           (Inl err, _) \<Rightarrow> Inl (Wrapf ''administrator login'' err)
         | (Inr adminToken, w1) \<Rightarrow>
             (case createSeckillItem server rfc opts (su_sku_now su) (su_now su) (su_sequence su) adminToken w1 of
                (Inl err, _) \<Rightarrow> Inl err
              | (Inr (itemID, readyAt), _) \<Rightarrow>
                  (case prepareUsers server opts (required opts) (su_order su) (su_users su) of
                     Inl err \<Rightarrow> Inl err
                   | Inr tokens \<Rightarrow> Inr (itemID, tokens)))))"

section \<open>Samples\<close>

record sample =
  sm_Sequence :: int
  sm_HTTPCode :: int
  sm_Code :: string
  sm_ResponseBody :: string
  sm_Replayed :: bool
  sm_OrderID :: u64
  sm_OrderNo :: string
  sm_Status :: string
  sm_ResultError :: string
  sm_LatencyMS :: rat
  sm_Error :: string
  sm_Duration :: int

definition durationMS :: "int \<Rightarrow> rat" where
  "durationMS value = of_int value / of_int millisecond"

definition new_sample :: "int \<Rightarrow> int \<Rightarrow> sample" where
  "new_sample sequence duration = \<lparr>sm_Sequence = sequence, sm_HTTPCode = 0, sm_Code = [], sm_ResponseBody = [], sm_Replayed = False,
     sm_OrderID = 0, sm_OrderNo = [], sm_Status = [], sm_ResultError = [], sm_LatencyMS = durationMS duration, sm_Error = [],
     sm_Duration = duration\<rparr>"

abbreviation codeServerTimeout :: string where "codeServerTimeout \<equiv> ''SERVER_TIMEOUT''"
abbreviation codeServerRejected :: string where "codeServerRejected \<equiv> ''SERVER_REJECTED''"

definition responseBodySummary :: "string \<Rightarrow> string" where
  "responseBodySummary body = (if length body \<le> 512 then body else take 512 body @ ''...'')"

definition as_bool :: "json \<Rightarrow> bool option" where
  "as_bool j = (case j of JBool b \<Rightarrow> Some b | _ \<Rightarrow> None)"

record order_data =
  oda_Replayed :: bool
  oda_Status :: string
  oda_OrderNo :: string
  oda_Order_ID :: u64
  oda_Order_OrderNo :: string

definition decode_order_data :: "(string \<times> json) list \<Rightarrow> order_data option" where
  "decode_order_data ms = (case nested ''order'' ms of
       None \<Rightarrow> None
     | Some os \<Rightarrow>
         (case (json_field as_bool False (values_of ''replayed'' ms), json_field as_string [] (values_of ''status'' ms),
                json_field as_string [] (values_of ''order_no'' ms), decode_id os, json_field as_string [] (values_of ''order_no'' os)) of
            (Some r, Some s, Some n, Some i, Some m) \<Rightarrow>
              Some \<lparr>oda_Replayed = r, oda_Status = s, oda_OrderNo = n, oda_Order_ID = i, oda_Order_OrderNo = m\<rparr>
          | _ \<Rightarrow> None))"

definition sample_of_reply :: "sample \<Rightarrow> http_reply \<Rightarrow> sample" where
  "sample_of_reply result0 r =
     (let result = result0\<lparr>sm_HTTPCode := hb_Status r\<rparr> in
      case hb_ReadErr r of
        Some err \<Rightarrow> result\<lparr>sm_Error := err_text err\<rparr>
      | None \<Rightarrow>
          (let trimmedBody = TrimSpace (hb_Text r) in
           if hb_Status r = 503 \<and> fold_name trimmedBody = ''request timeout''
           then result\<lparr>sm_Code := codeServerTimeout, sm_ResponseBody := trimmedBody\<rparr>
           else if hb_Status r = 503 \<and> trimmedBody = [] then result\<lparr>sm_Code := codeServerRejected\<rparr>
           else (case decoded (decode_envelope decode_order_data) (hb_Whole r) of
               Inl err \<Rightarrow>
                 (let result = result\<lparr>sm_ResponseBody := responseBodySummary trimmedBody\<rparr> in
                  if hb_Status r = 503 then result\<lparr>sm_Code := codeServerRejected\<rparr>
                  else result\<lparr>sm_Error := ''decode response: '' @ err_text err\<rparr>)
             | Inr (a, d) \<Rightarrow>
                 result\<lparr>sm_Code := ai_Code a, sm_Replayed := oda_Replayed d, sm_OrderID := oda_Order_ID d,
                   sm_OrderNo := (if oda_Order_OrderNo d = [] then oda_OrderNo d else oda_Order_OrderNo d), sm_Status := oda_Status d\<rparr>)))"

definition executeRequest :: "'w server \<Rightarrow> int \<Rightarrow> nat \<Rightarrow> u64 \<Rightarrow> string \<Rightarrow> 'w \<Rightarrow> sample" where
  "executeRequest server duration sequence itemID token w =
     (case fst (server \<lparr>hq_Method = ''POST'', hq_Path = ''/v1/seckill/items/'' @ FormatUint itemID @ ''/orders'', hq_Token = token,
         hq_Body = None\<rparr> w) of
        NoRequest err \<Rightarrow> (new_sample (int sequence) 0)\<lparr>sm_Error := err_text err\<rparr>
      | NoReply err \<Rightarrow> (new_sample (int sequence) duration)\<lparr>sm_Error := err_text err\<rparr>
      | Reply r \<Rightarrow> sample_of_reply (new_sample (int sequence) duration) r)"

text \<open>
  The workers share the sequence numbers; each number is taken by one of them, whose request meets the state \<open>ws sequence\<close> and
  takes \<open>durations sequence\<close>. An index beyond the tokens panics (\<open>None\<close>).
\<close>

definition token_index :: "options \<Rightarrow> nat \<Rightarrow> nat" where
  "token_index opts sequence = (if lo_Scenario opts = ''replay'' then 0 else sequence)"

definition run_requests ::
  "'w server \<Rightarrow> options \<Rightarrow> (nat \<Rightarrow> int) \<Rightarrow> (nat \<Rightarrow> 'w) \<Rightarrow> u64 \<Rightarrow> string list \<Rightarrow> sample list option" where
  "run_requests server opts durations ws itemID tokens =
     map_option_list (\<lambda>sequence. if token_index opts sequence < length tokens
         then Some (executeRequest server (durations sequence) sequence itemID (tokens ! token_index opts sequence) (ws sequence))
         else None) [0..<nat (lo_Requests opts)]"

section \<open>The results of asynchronous orders\<close>

definition pollAsyncResult :: "'w server \<Rightarrow> (string \<Rightarrow> string) \<Rightarrow> string \<Rightarrow> string \<Rightarrow> 'w \<Rightarrow> string result" where
  "pollAsyncResult server path_escape orderNo token w =
     (case fst (requestJSON server ''GET'' (''/v1/seckill/orders/'' @ path_escape orderNo @ ''/result'') token JNull
        (decode_envelope decode_result_status) w) of
        (status, response) \<Rightarrow>
          (case response of
             Inl err \<Rightarrow> Inl (combineAPIErr ''query result'' status response)
           | Inr (a, st) \<Rightarrow>
               if status \<noteq> 200 \<or> ai_Code a \<noteq> ''OK'' then Inl (combineAPIErr ''query result'' status response)
               else if st = ''QUEUED'' \<or> st = ''SUCCEEDED'' \<or> st = ''FAILED'' then Inr st
               else Inl (Plain (''query result: unknown status '' @ st))))"

text \<open>The pending orders, each with its token and the indices of its samples, in some order; the map has one entry for an order.\<close>

record pendingOrder =
  po_OrderNo :: string
  po_token :: string
  po_indices :: "nat list"

definition accepted_order :: "sample \<Rightarrow> bool" where
  "accepted_order item \<longleftrightarrow> \<not> (sm_HTTPCode item \<noteq> 202 \<or> sm_Code item \<noteq> ''OK'' \<or> sm_OrderNo item = [])"

fun add_pending :: "string \<Rightarrow> string \<Rightarrow> nat \<Rightarrow> pendingOrder list \<Rightarrow> pendingOrder list" where
  "add_pending orderNo token index [] = [\<lparr>po_OrderNo = orderNo, po_token = token, po_indices = [index]\<rparr>]"
| "add_pending orderNo token index (e # es) =
     (if po_OrderNo e = orderNo then e\<lparr>po_indices := po_indices e @ [index]\<rparr> # es else e # add_pending orderNo token index es)"

definition drain_index :: "options \<Rightarrow> sample \<Rightarrow> int" where
  "drain_index opts item = (if lo_Scenario opts = ''replay'' then 0 else sm_Sequence item)"

text \<open>The first loop of \<open>drainAsync\<close>, at one sample.\<close>

definition enter_sample :: "options \<Rightarrow> string list \<Rightarrow> nat \<Rightarrow> sample \<Rightarrow> pendingOrder list \<Rightarrow> sample \<times> pendingOrder list" where
  "enter_sample opts tokens index item waiting =
     (if sm_HTTPCode item \<noteq> 202 \<or> sm_Code item \<noteq> ''OK'' \<or> sm_OrderNo item = [] then (item, waiting)
      else
        (let item = item\<lparr>sm_Status := ''QUEUED''\<rparr>; tokenIndex = drain_index opts item in
         if tokenIndex < 0 \<or> int (length tokens) \<le> tokenIndex
         then (item\<lparr>sm_ResultError := ''missing token for result polling''\<rparr>, waiting)
         else (item, add_pending (sm_OrderNo item) (tokens ! nat tokenIndex) index waiting)))"

fun collect_pending :: "options \<Rightarrow> string list \<Rightarrow> nat \<Rightarrow> sample list \<Rightarrow> pendingOrder list \<Rightarrow> sample list \<times> pendingOrder list" where
  "collect_pending opts tokens index [] waiting = ([], waiting)"
| "collect_pending opts tokens index (item # items) waiting =
     (case enter_sample opts tokens index item waiting of
        (item', waiting1) \<Rightarrow>
          (case collect_pending opts tokens (Suc index) items waiting1 of (items', waiting2) \<Rightarrow> (item' # items', waiting2)))"

definition update_samples :: "(sample \<Rightarrow> sample) \<Rightarrow> nat list \<Rightarrow> sample list \<Rightarrow> sample list" where
  "update_samples f indices samples = foldl (\<lambda>ss i. ss[i := f (ss ! i)]) samples indices"

text \<open>
  One pass over the map: an order with a final status leaves it. \<open>found orderNo\<close> is the state of the server that the poll meets.
\<close>

fun poll_orders ::
  "'w server \<Rightarrow> (string \<Rightarrow> string) \<Rightarrow> (string \<Rightarrow> 'w) \<Rightarrow> pendingOrder list \<Rightarrow> sample list \<Rightarrow> sample list \<times> pendingOrder list" where
  "poll_orders server path_escape found [] samples = (samples, [])"
| "poll_orders server path_escape found (entry # orders) samples =
     (case pollAsyncResult server path_escape (po_OrderNo entry) (po_token entry) (found (po_OrderNo entry)) of
        Inl err \<Rightarrow>
          (case poll_orders server path_escape found orders
               (update_samples (\<lambda>s. s\<lparr>sm_ResultError := err_text err\<rparr>) (po_indices entry) samples) of
             (samples', rest) \<Rightarrow> (samples', entry # rest))
      | Inr status \<Rightarrow>
          (case poll_orders server path_escape found orders
               (update_samples (\<lambda>s. s\<lparr>sm_Status := status, sm_ResultError := []\<rparr>) (po_indices entry) samples) of
             (samples', rest) \<Rightarrow>
               (samples', if status = ''SUCCEEDED'' \<or> status = ''FAILED'' then rest else entry # rest)))"

text \<open>
  The loop of \<open>drainAsync\<close>: \<open>clock k\<close> is the time at the head of round \<open>k\<close>, \<open>visit k\<close> the order in which that round visits the map,
  \<open>found k\<close> what its polls meet. \<open>None\<close> means that the fuel is used up.
\<close>

record 'w drain_env =
  de_clock :: "nat \<Rightarrow> time"
  de_visit :: "nat \<Rightarrow> pendingOrder list \<Rightarrow> pendingOrder list"
  de_found :: "nat \<Rightarrow> string \<Rightarrow> 'w"

fun drain_loop ::
  "nat \<Rightarrow> 'w server \<Rightarrow> (string \<Rightarrow> string) \<Rightarrow> 'w drain_env \<Rightarrow> time \<Rightarrow> nat \<Rightarrow> pendingOrder list \<Rightarrow> sample list \<Rightarrow> sample list option" where
  "drain_loop 0 server path_escape env deadline k waiting samples = None"
| "drain_loop (Suc fuel) server path_escape env deadline k waiting samples =
     (if waiting \<noteq> [] \<and> de_clock env k < deadline then
        (case poll_orders server path_escape (de_found env k) (de_visit env k waiting) samples of
           (samples', waiting') \<Rightarrow>
             if waiting' = [] then Some samples'
             else drain_loop fuel server path_escape env deadline (Suc k) waiting' samples')
      else Some samples)"

definition drainAsync ::
  "nat \<Rightarrow> 'w server \<Rightarrow> (string \<Rightarrow> string) \<Rightarrow> 'w drain_env \<Rightarrow> options \<Rightarrow> time \<Rightarrow> sample list \<Rightarrow> string list \<Rightarrow> sample list option" where
  "drainAsync fuel server path_escape env opts now samples tokens =
     (case collect_pending opts tokens 0 samples [] of
        (samples, waiting) \<Rightarrow>
          if waiting = [] then Some samples
          else drain_loop fuel server path_escape env (now + lo_DrainTimeout opts) 0 waiting samples)"

section \<open>A prepared run\<close>

lemma map_option_list_total: "map_option_list f xs = Some ys \<longleftrightarrow> map f xs = map Some ys"
  by (induction xs arbitrary: ys) (auto split: option.splits)

lemma prepare_tokens: "prepare server rfc opts su w = Inr (itemID, tokens) \<Longrightarrow> required opts \<le> length tokens"
  by (auto simp: prepare_def prepareUsers_def Let_def split: if_splits sum.splits prod.splits list.splits)

lemma executeRequest_Sequence: "sm_Sequence (executeRequest server d i itemID token w) = int i"
  by (auto simp: executeRequest_def new_sample_def sample_of_reply_def Let_def split: http_answer.splits option.splits sum.splits)

text \<open>
  After a successful preparation the run makes every request: no worker reaches for a token that is not there, neither with a user
  for each request nor when one user repeats his, and the samples are those of the requests in their order, each made with the
  token of its user.
\<close>

theorem prepared_run_completes:
  assumes "prepare server rfc opts su w = Inr (itemID, tokens)"
  shows "run_requests server opts durations ws itemID tokens =
    Some (map (\<lambda>i. executeRequest server (durations i) i itemID (tokens ! (if lo_Scenario opts = ''replay'' then 0 else i)) (ws i))
      [0..<nat (lo_Requests opts)])"
  using prepare_tokens [OF assms]
  by (auto simp: run_requests_def map_option_list_total token_index_def required_def split: if_splits)

lemma length_show_nat_pos: "0 < length (show_nat n)"
  using show_nat_nonempty by simp

lemma dec_val_zeros: "dec_val a (replicate k (CHR ''0'') @ s) = dec_val (a * 10 ^ k) s"
  by (induction k arbitrary: a) (simp_all add: dec_val_def digit_val_def byte_def algebra_simps)

lemma dec_val_pad6: "dec_val 0 (pad6 n) = n"
  by (simp add: pad6_def Let_def dec_val_zeros)

lemma pad6_inject: "pad6 i = pad6 j \<Longrightarrow> i = j"
  using dec_val_pad6 by metis

text \<open>Each request of a run with unique users has a user of its own.\<close>

lemma test_email_inject: "test_email opts i = test_email opts j \<Longrightarrow> i = j"
  by (auto simp: test_email_def dest: pad6_inject)

text \<open>The code of a new SKU fits the column of 100 characters.\<close>

lemma length_show_hex: "n < 16 ^ k \<Longrightarrow> 0 < k \<Longrightarrow> length (show_hex n) \<le> k"
proof (induction k arbitrary: n)
  case (Suc k)
  show ?case
  proof (cases "n < 16")
    case False
    then have "0 < k" "n div 16 < 16 ^ k" using Suc.prems by (cases k; simp add: less_mult_imp_div_less mult.commute)+
    then show ?thesis using Suc.IH [of "n div 16"] False by (simp add: show_hex.simps [of n])
  qed (simp add: show_hex.simps [of n])
qed simp

lemma sku_code_length:
  assumes "length runID \<le> 40" and "0 \<le> now" "in_i64 now"
  shows "length (newLoadtestSKUCode runID now sequence) \<le> 83"
proof -
  have "wrap_i64 now = now" using assms(3) by (simp add: wrap_i64_id)
  moreover have "length (show_hex (nat now)) \<le> 16" using assms(2,3) by (intro length_show_hex) (auto simp: in_i64_def max_i64_def)
  moreover have "length (show_hex (unat sequence)) \<le> 16"
    using unat_u64_bound [of sequence] by (intro length_show_hex) simp_all
  ultimately show ?thesis using assms(1,2) by (simp add: newLoadtestSKUCode_def format_X_def ToUpper_def)
qed

section \<open>What the polling finds\<close>

definition stripped :: "sample \<Rightarrow> sample" where
  "stripped s = s\<lparr>sm_Status := [], sm_ResultError := []\<rparr>"

definition has_token :: "options \<Rightarrow> string list \<Rightarrow> sample \<Rightarrow> bool" where
  "has_token opts tokens item \<longleftrightarrow> 0 \<le> drain_index opts item \<and> drain_index opts item < int (length tokens)"

text \<open>The samples whose result is polled under an order number.\<close>

definition polled_at :: "options \<Rightarrow> string list \<Rightarrow> sample list \<Rightarrow> string \<Rightarrow> nat set" where
  "polled_at opts tokens samples orderNo =
     {i. i < length samples \<and> accepted_order (samples ! i) \<and> has_token opts tokens (samples ! i) \<and> sm_OrderNo (samples ! i) = orderNo}"

text \<open>
  What becomes of a sample: one that is not an accepted order stays as it is; an accepted order has one of the three states, and
  a final one only because a poll with one of the tokens was answered so.
\<close>

definition sample_drained :: "(string \<Rightarrow> string \<Rightarrow> bool) \<Rightarrow> sample \<Rightarrow> sample \<Rightarrow> bool" where
  "sample_drained answered s s' \<longleftrightarrow>
     (if accepted_order s
      then stripped s' = stripped s \<and> sm_Status s' \<in> {''QUEUED'', ''SUCCEEDED'', ''FAILED''} \<and>
        (sm_Status s' \<noteq> ''QUEUED'' \<longrightarrow> answered (sm_OrderNo s) (sm_Status s'))
      else s' = s)"

definition answers :: "'w server \<Rightarrow> (string \<Rightarrow> string) \<Rightarrow> 'w drain_env \<Rightarrow> string list \<Rightarrow> string \<Rightarrow> string \<Rightarrow> bool" where
  "answers server path_escape env tokens orderNo status \<longleftrightarrow>
     (\<exists>k. \<exists>token \<in> set tokens. pollAsyncResult server path_escape orderNo token (de_found env k orderNo) = Inr status)"

definition drained ::
  "(string \<Rightarrow> string \<Rightarrow> bool) \<Rightarrow> options \<Rightarrow> string list \<Rightarrow> sample list \<Rightarrow> sample list \<Rightarrow> bool" where
  "drained answered opts tokens ss0 ss \<longleftrightarrow> length ss = length ss0 \<and>
     (\<forall>i < length ss0. sample_drained answered (ss0 ! i) (ss ! i)) \<and>
     (\<forall>orderNo. \<forall>i \<in> polled_at opts tokens ss0 orderNo. \<forall>j \<in> polled_at opts tokens ss0 orderNo. sm_Status (ss ! i) = sm_Status (ss ! j))"

definition entry_ok :: "options \<Rightarrow> string list \<Rightarrow> sample list \<Rightarrow> pendingOrder \<Rightarrow> bool" where
  "entry_ok opts tokens ss0 e \<longleftrightarrow> po_token e \<in> set tokens \<and> set (po_indices e) = polled_at opts tokens ss0 (po_OrderNo e)"

lemma length_update [simp]: "length (update_samples f is ss) = length ss"
  by (induction "is" arbitrary: ss) (simp_all add: update_samples_def)

lemma update_samples_nth:
  assumes "\<And>s. f (f s) = f s" and "j < length ss"
  shows "update_samples f is ss ! j = (if j \<in> set is then f (ss ! j) else ss ! j)"
  using assms(2)
proof (induction "is" arbitrary: ss)
  case (Cons i "is")
  let ?s = "ss[i := f (ss ! i)]"
  have "update_samples f (i # is) ss ! j = (if j \<in> set is then f (?s ! j) else ?s ! j)"
    using Cons.IH [of ?s] Cons.prems by (simp add: update_samples_def)
  also have "?s ! j = (if i = j then f (ss ! j) else ss ! j)"
    using Cons.prems by (simp add: nth_list_update)
  finally show ?case by (simp add: assms(1))
qed (simp add: update_samples_def)

lemma poll_status:
  "pollAsyncResult server pe orderNo token w = Inr st \<Longrightarrow> st \<in> {''QUEUED'', ''SUCCEEDED'', ''FAILED''}"
  by (auto simp: pollAsyncResult_def split: prod.splits sum.splits if_splits)

text \<open>Setting the fields of the samples of an order keeps what has been established.\<close>

lemma drained_update:
  assumes d: "drained answered opts tokens ss0 ss" and e: "entry_ok opts tokens ss0 e"
    and f: "\<And>s. f (f s) = f s" "\<And>s. stripped (f s) = stripped s"
    and st: "(\<forall>s. sm_Status (f s) = sm_Status s) \<or>
      (\<exists>st \<in> {''QUEUED'', ''SUCCEEDED'', ''FAILED''}. answered (po_OrderNo e) st \<and> (\<forall>s. sm_Status (f s) = st))"
  shows "drained answered opts tokens ss0 (update_samples f (po_indices e) ss)"
proof -
  let ?ss = "update_samples f (po_indices e) ss" and ?E = "polled_at opts tokens ss0"
  have nth: "?ss ! j = (if j \<in> ?E (po_OrderNo e) then f (ss ! j) else ss ! j)" if "j < length ss0" for j
    using update_samples_nth [OF f(1), of j ss "po_indices e"] that d e by (simp add: drained_def entry_ok_def)
  have "sample_drained answered (ss0 ! i) (?ss ! i)" if i: "i < length ss0" for i
  proof (cases "i \<in> ?E (po_OrderNo e)")
    case True
    then have "accepted_order (ss0 ! i)" "sm_OrderNo (ss0 ! i) = po_OrderNo e" by (simp_all add: polled_at_def)
    moreover have "sample_drained answered (ss0 ! i) (ss ! i)" using d i by (simp add: drained_def)
    moreover have "?ss ! i = f (ss ! i)" using True i by (simp add: nth)
    ultimately show ?thesis using st by (auto simp: sample_drained_def f(2))
  next
    case False
    then have "?ss ! i = ss ! i" using i by (simp add: nth)
    with d i show ?thesis by (simp add: drained_def)
  qed
  moreover have "sm_Status (?ss ! i) = sm_Status (?ss ! j)" if ij: "i \<in> ?E orderNo" "j \<in> ?E orderNo" for orderNo i j
  proof -
    have same: "sm_Status (ss ! i) = sm_Status (ss ! j)" using d ij unfolding drained_def by blast
    have "i < length ss0" "j < length ss0" "i \<in> ?E (po_OrderNo e) \<longleftrightarrow> j \<in> ?E (po_OrderNo e)"
      using ij by (auto simp: polled_at_def)
    then have "?ss ! i = (if i \<in> ?E (po_OrderNo e) then f (ss ! i) else ss ! i)"
      "?ss ! j = (if i \<in> ?E (po_OrderNo e) then f (ss ! j) else ss ! j)"
      by (simp_all only: nth)
    then show ?thesis using same st by (cases "i \<in> ?E (po_OrderNo e)") (simp_all, metis)
  qed
  moreover have "length ?ss = length ss0" using d by (simp add: drained_def)
  ultimately show ?thesis unfolding drained_def by blast
qed

lemma poll_orders_drained:
  assumes "poll_orders server pe (de_found env k) orders ss = (ss', rest)"
    and "drained (answers server pe env tokens) opts tokens ss0 ss" and "\<forall>e \<in> set orders. entry_ok opts tokens ss0 e"
  shows "drained (answers server pe env tokens) opts tokens ss0 ss' \<and> set rest \<subseteq> set orders"
  using assms
proof (induction orders arbitrary: ss ss' rest)
  case (Cons e es)
  show ?case
  proof (cases "pollAsyncResult server pe (po_OrderNo e) (po_token e) (de_found env k (po_OrderNo e))")
    case (Inl err)
    let ?ss = "update_samples (\<lambda>s. s\<lparr>sm_ResultError := err_text err\<rparr>) (po_indices e) ss"
    have "drained (answers server pe env tokens) opts tokens ss0 ?ss"
      by (rule drained_update [OF Cons.prems(2)]) (use Cons.prems(3) in \<open>auto simp: stripped_def\<close>)
    moreover obtain rest' where "poll_orders server pe (de_found env k) es ?ss = (ss', rest')" "rest = e # rest'"
      using Cons.prems(1) Inl by (auto split: prod.splits)
    ultimately show ?thesis using Cons.IH [of ?ss ss' rest'] Cons.prems(3) by auto
  next
    case (Inr st)
    let ?ss = "update_samples (\<lambda>s. s\<lparr>sm_Status := st, sm_ResultError := []\<rparr>) (po_indices e) ss"
    have e: "entry_ok opts tokens ss0 e" using Cons.prems(3) by simp
    then have "answers server pe env tokens (po_OrderNo e) st"
      using Inr by (auto simp: answers_def entry_ok_def)
    then have "drained (answers server pe env tokens) opts tokens ss0 ?ss"
      using poll_status [OF Inr] by (intro drained_update [OF Cons.prems(2) e]) (auto simp: stripped_def)
    moreover obtain rest' where "poll_orders server pe (de_found env k) es ?ss = (ss', rest')" "set rest \<subseteq> insert e (set rest')"
      using Cons.prems(1) Inr by (auto split: prod.splits if_splits)
    ultimately show ?thesis using Cons.IH [of ?ss ss' rest'] Cons.prems(3) by auto
  qed
qed simp

lemma drain_loop_drained:
  assumes "drain_loop fuel server pe env deadline k waiting ss = Some ss'" and "\<forall>k p. set (de_visit env k p) = set p"
    and "drained (answers server pe env tokens) opts tokens ss0 ss" and "\<forall>e \<in> set waiting. entry_ok opts tokens ss0 e"
  shows "drained (answers server pe env tokens) opts tokens ss0 ss'"
  using assms
proof (induction fuel arbitrary: k waiting ss)
  case (Suc fuel)
  show ?case
  proof (cases "waiting \<noteq> [] \<and> de_clock env k < deadline")
    case True
    obtain ss1 rest where r: "poll_orders server pe (de_found env k) (de_visit env k waiting) ss = (ss1, rest)" by fastforce
    then have d: "drained (answers server pe env tokens) opts tokens ss0 ss1" "\<forall>e \<in> set rest. entry_ok opts tokens ss0 e"
      using poll_orders_drained [OF r Suc.prems(3)] Suc.prems(2,4) by auto
    then show ?thesis using Suc.prems(1,2) Suc.IH True r by (auto split: if_splits)
  next
    case False
    then show ?thesis using Suc.prems by auto
  qed
qed simp

text \<open>The entries after the first loop.\<close>

definition pending_at :: "pendingOrder list \<Rightarrow> string \<Rightarrow> nat set" where
  "pending_at p orderNo = \<Union> ((set \<circ> po_indices) ` {e \<in> set p. po_OrderNo e = orderNo})"

lemma pending_at_Cons: "pending_at (e # p) q = (if po_OrderNo e = q then set (po_indices e) else {}) \<union> pending_at p q"
  by (auto simp: pending_at_def)

lemma add_pending_props:
  "pending_at (add_pending orderNo token i p) q = pending_at p q \<union> (if q = orderNo then {i} else {})"
  "po_OrderNo ` set (add_pending orderNo token i p) = insert orderNo (po_OrderNo ` set p)"
  "po_token ` set (add_pending orderNo token i p) \<subseteq> insert token (po_token ` set p)"
  "distinct (map po_OrderNo p) \<Longrightarrow> distinct (map po_OrderNo (add_pending orderNo token i p))"
proof (induction p)
  case (Cons e p)
  { case 1
    show ?case by (cases "po_OrderNo e = orderNo") (auto simp: pending_at_Cons Cons.IH(1)) }
  { case 2 show ?case by (simp add: Cons.IH(2) insert_commute insert_absorb) }
  { case 3 show ?case using Cons.IH(3) by auto }
  { case 4 then show ?case using Cons.IH(4) Cons.IH(2) by (auto simp flip: set_map simp del: set_map) }
qed (auto simp: pending_at_def)

lemma polled_at_Cons:
  "polled_at opts tokens (item # items) q =
     (if accepted_order item \<and> has_token opts tokens item \<and> sm_OrderNo item = q then {0} else {}) \<union> Suc ` polled_at opts tokens items q"
proof (rule set_eqI)
  fix i
  show "i \<in> polled_at opts tokens (item # items) q \<longleftrightarrow>
    i \<in> (if accepted_order item \<and> has_token opts tokens item \<and> sm_OrderNo item = q then {0} else {}) \<union> Suc ` polled_at opts tokens items q"
    by (cases i) (auto simp: polled_at_def)
qed

lemma enter_sample_cases:
  "enter_sample opts tokens n item p =
     (if \<not> accepted_order item then (item, p)
      else if has_token opts tokens item
      then (item\<lparr>sm_Status := ''QUEUED''\<rparr>, add_pending (sm_OrderNo item) (tokens ! nat (drain_index opts item)) n p)
      else (item\<lparr>sm_Status := ''QUEUED'', sm_ResultError := ''missing token for result polling''\<rparr>, p))"
  by (auto simp: enter_sample_def accepted_order_def has_token_def Let_def drain_index_def)

lemma collect_pending_at:
  assumes "collect_pending opts tokens n items p = (items', p')"
  shows "pending_at p' q = pending_at p q \<union> (\<lambda>j. n + j) ` polled_at opts tokens items q"
  using assms
proof (induction items arbitrary: n p items' p')
  case (Cons item items)
  obtain it p1 where e: "enter_sample opts tokens n item p = (it, p1)" by fastforce
  obtain its p2 where c: "collect_pending opts tokens (Suc n) items p1 = (its, p2)" by fastforce
  have p': "p' = p2" using Cons.prems e c by simp
  have "pending_at p1 q = pending_at p q \<union>
      (if accepted_order item \<and> has_token opts tokens item \<and> sm_OrderNo item = q then {n} else {})"
    using e by (auto simp: enter_sample_cases add_pending_props split: if_splits)
  with Cons.IH [OF c] show ?case
    by (auto simp: p' polled_at_Cons image_Un image_image)
qed (simp add: polled_at_def)

lemma collect_pending_keys:
  assumes "collect_pending opts tokens n items p = (items', p')" and "distinct (map po_OrderNo p)" "po_token ` set p \<subseteq> set tokens"
  shows "distinct (map po_OrderNo p') \<and> po_token ` set p' \<subseteq> set tokens"
  using assms
proof (induction items arbitrary: n p items' p')
  case (Cons item items)
  obtain it p1 where e: "enter_sample opts tokens n item p = (it, p1)" by fastforce
  obtain its p2 where c: "collect_pending opts tokens (Suc n) items p1 = (its, p2)" by fastforce
  have "tokens ! nat (drain_index opts item) \<in> set tokens" if "has_token opts tokens item"
    using that by (auto simp: has_token_def)
  then have "po_token ` set (add_pending (sm_OrderNo item) (tokens ! nat (drain_index opts item)) n p) \<subseteq> set tokens"
    if "has_token opts tokens item"
    using that Cons.prems(3) by (intro order_trans [OF add_pending_props(3)]) simp
  then have "distinct (map po_OrderNo p1)" "po_token ` set p1 \<subseteq> set tokens"
    using e Cons.prems(2,3) add_pending_props(4) [OF Cons.prems(2)]
    by (auto simp add: enter_sample_cases split: if_splits)
  then show ?case using Cons.IH [OF c] Cons.prems(1) e c by simp
qed simp

lemma collect_pending_samples:
  "collect_pending opts tokens n items p = (items', p') \<Longrightarrow> items' = map (\<lambda>item. fst (enter_sample opts tokens 0 item [])) items"
  by (induction items arbitrary: n p items' p') (auto split: prod.splits simp: enter_sample_cases)

lemma collect_drained:
  assumes c: "collect_pending opts tokens 0 items [] = (items', p')"
  shows "drained answered opts tokens items items' \<and> (\<forall>e \<in> set p'. entry_ok opts tokens items e)"
proof
  have "sample_drained answered item (fst (enter_sample opts tokens 0 item []))" for item
    by (simp add: enter_sample_cases sample_drained_def stripped_def)
  moreover have "sm_Status (fst (enter_sample opts tokens 0 (items ! i) [])) = ''QUEUED''" if "i \<in> polled_at opts tokens items q" for i q
    using that by (simp add: enter_sample_cases polled_at_def)
  moreover have "i < length items" if "i \<in> polled_at opts tokens items q" for i q
    using that by (simp add: polled_at_def)
  ultimately show "drained answered opts tokens items items'"
    by (simp add: collect_pending_samples [OF c] drained_def)
  show "\<forall>e \<in> set p'. entry_ok opts tokens items e"
  proof
    fix e
    assume e: "e \<in> set p'"
    have k: "distinct (map po_OrderNo p')" "po_token ` set p' \<subseteq> set tokens"
      using collect_pending_keys [OF c] by simp_all
    have "{e' \<in> set p'. po_OrderNo e' = po_OrderNo e} = {e}"
      using k(1) e by (auto simp: distinct_map inj_on_def)
    then have "pending_at p' (po_OrderNo e) = set (po_indices e)" by (simp add: pending_at_def)
    then show "entry_ok opts tokens items e"
      using collect_pending_at [OF c, of "po_OrderNo e"] k(2) e by (auto simp: entry_ok_def pending_at_def)
  qed
qed

text \<open>
  What the load test reports of its asynchronous orders is what the service said. When the polling ends, the samples of requests that were
  not accepted are as they were; an accepted order is queued or has a final state, and a final one only if a poll for its number, with
  one of the tokens, was answered so; and the requests that were given the same order have the same state.
\<close>

lemma drainAsync_drained:
  assumes "drainAsync fuel server pe env opts now ss tokens = Some ss'" and "\<forall>k p. set (de_visit env k p) = set p"
  shows "drained (answers server pe env tokens) opts tokens ss ss'"
proof -
  obtain s p where c: "collect_pending opts tokens 0 ss [] = (s, p)" by fastforce
  show ?thesis
    using collect_drained [OF c] assms
    by (auto simp: drainAsync_def c split: if_splits intro: drain_loop_drained)
qed

section \<open>The polling ends\<close>

text \<open>A round that does not end the polling sleeps for the interval, but not beyond the deadline.\<close>

definition sleeps :: "(nat \<Rightarrow> time) \<Rightarrow> time \<Rightarrow> int \<Rightarrow> time \<Rightarrow> bool" where
  "sleeps clk now interval deadline \<longleftrightarrow> now \<le> clk 0 \<and> (\<forall>k. min (clk k + interval) deadline \<le> clk (Suc k))"

lemma sleeps_clock:
  assumes "sleeps clk now interval deadline" "0 < interval"
  shows "min (now + int k * interval) deadline \<le> clk k"
proof (induction k)
  case (Suc k)
  have "min (clk k + interval) deadline \<le> clk (Suc k)" using assms(1) by (simp add: sleeps_def)
  moreover have "clk k + interval \<ge> min (now + int k * interval) deadline + interval" using Suc by simp
  moreover have "now + int (Suc k) * interval = now + int k * interval + interval" by (simp add: algebra_simps)
  ultimately show ?case using assms(2) by linarith
qed (use assms in \<open>auto simp: sleeps_def\<close>)

lemma drain_loop_ends:
  "0 < fuel \<Longrightarrow> deadline \<le> de_clock env (k + fuel - 1) \<Longrightarrow> drain_loop fuel server pe env deadline k waiting ss \<noteq> None"
proof (induction fuel arbitrary: k waiting ss)
  case (Suc fuel)
  show ?case
  proof (cases "de_clock env k < deadline")
    case True
    then have "0 < fuel" using Suc.prems(2) by (cases fuel) auto
    then show ?thesis using Suc.IH Suc.prems(2) by (auto split: prod.splits)
  qed auto
qed simp

text \<open>
  The polling of results ends, whatever the service answers: as a round sleeps for the interval, it is over after as many rounds as
  intervals fit into the time for it, and two.
\<close>

lemma drain_loop_total:
  assumes "0 < lo_PollInterval opts" "0 \<le> lo_DrainTimeout opts"
    and "sleeps (de_clock env) now (lo_PollInterval opts) (now + lo_DrainTimeout opts)"
    and "nat (lo_DrainTimeout opts div lo_PollInterval opts) + 2 \<le> fuel"
  shows "\<exists>ss'. drainAsync fuel server pe env opts now ss tokens = Some ss'"
proof -
  let ?d = "now + lo_DrainTimeout opts" and ?k = "fuel - 1"
  have "lo_DrainTimeout opts < (lo_DrainTimeout opts div lo_PollInterval opts + 1) * lo_PollInterval opts"
    using assms(1) by (simp add: algebra_simps) (metis add.commute mult.commute mult_div_mod_eq pos_mod_bound add_less_cancel_right)
  also have "\<dots> \<le> int ?k * lo_PollInterval opts"
  proof (rule mult_right_mono)
    have "0 \<le> lo_DrainTimeout opts div lo_PollInterval opts" using assms(1,2) by (simp add: pos_imp_zdiv_nonneg_iff)
    then show "lo_DrainTimeout opts div lo_PollInterval opts + 1 \<le> int ?k" using assms(4) by linarith
  qed (use assms(1) in simp)
  finally have "?d \<le> de_clock env ?k" using sleeps_clock [OF assms(3,1), of ?k] by simp
  then have "drain_loop fuel server pe env ?d 0 p s \<noteq> None" for p s
    using drain_loop_ends [of fuel ?d env 0] assms(4) by simp
  then show ?thesis by (auto simp: drainAsync_def split: prod.splits)
qed

end
