(* ===== verification/Outbox.thy ===== *)
theory Outbox
  imports OrderRepo Mq
begin

text \<open>
  The transactional outbox: claiming and marking of events in \<open>internal/order/mysqlrepo/outbox.go\<close> and the
  relay that publishes them, \<open>internal/order/outboxrelay/relay.go\<close>. The statements work on the tables of
  \<open>OrderRepo\<close>, or on any record that extends them: the relay runs on a \<open>world\<close>, the tables together with the
  state of the Kafka brokers, so that the interference between two of its calls may be whatever other
  relays and the order service do to both.
\<close>

abbreviation ER_WARN_DATA_OUT_OF_RANGE :: nat where "ER_WARN_DATA_OUT_OF_RANGE \<equiv> 1264"

section \<open>Repository\<close>

record OutboxEvent =
  oe_ID :: u64
  oe_EventID :: string
  oe_OrderID :: u64
  oe_AggregateKey :: string
  oe_EventType :: string
  oe_SchemaVersion :: int
  oe_Payload :: payload
  oe_Attempts :: int
  oe_CreatedAt :: time

definition scan_event :: "outbox_row \<Rightarrow> OutboxEvent" where
  "scan_event r = \<lparr>oe_ID = ob_id r, oe_EventID = ob_event_id r, oe_OrderID = ob_order_id r,
     oe_AggregateKey = ob_aggregate_key r, oe_EventType = ob_event_type r, oe_SchemaVersion = ob_schema_version r,
     oe_Payload = Json (ob_payload r), oe_Attempts = ob_attempts r, oe_CreatedAt = ob_created_at r\<rparr>"

text \<open>The condition of the \<open>SELECT\<close>. Rows locked by another transaction are skipped: \<open>locked\<close>.\<close>

definition claimable :: "time \<Rightarrow> outbox_row \<Rightarrow> bool" where
  "claimable now r \<longleftrightarrow> ob_status r = OutboxStatusPending \<and> ob_next_attempt_at r \<le> now \<and>
     (case ob_claim_until r of None \<Rightarrow> True | Some u \<Rightarrow> u \<le> now)"

definition select_due :: "u64 list \<Rightarrow> time \<Rightarrow> int \<Rightarrow> outbox_row list \<Rightarrow> outbox_row list" where
  "select_due locked now limit rows =
     take (nat limit) (sort_key ob_id (filter (\<lambda>r. claimable now r \<and> ob_id r \<notin> set locked) rows))"

text \<open>\<open>UPDATE order_outbox_events SET \<dots> WHERE \<dots>\<close>\<close>

definition update_outbox ::
  "(outbox_row \<Rightarrow> bool) \<Rightarrow> (outbox_row \<Rightarrow> outbox_row) \<Rightarrow> 'a order_db_scheme \<Rightarrow> 'a order_db_scheme" where
  "update_outbox P f d = d\<lparr>od_outbox := map (\<lambda>r. if P r then f r else r) (od_outbox d)\<rparr>"

definition lease_row :: "string \<Rightarrow> time \<Rightarrow> outbox_row \<Rightarrow> outbox_row" where
  "lease_row workerID claimUntil r = r\<lparr>ob_claimed_by := Some workerID, ob_claim_until := Some claimUntil\<rparr>"

definition claim_tx ::
  "u64 list \<Rightarrow> string \<Rightarrow> time \<Rightarrow> time \<Rightarrow> int \<Rightarrow> 'a order_db_scheme \<Rightarrow> OutboxEvent list result \<times> 'a order_db_scheme" where
  "claim_tx locked workerID now claimUntil limit d =
     (let events = map scan_event (select_due locked now limit (od_outbox d)) in
      if events = [] then (Inr [], d)
      else if \<not> datetime_ok claimUntil
      then (Inl (Wrapf ''lease order outbox batch'' (MySQLError ER_TRUNCATED_WRONG_VALUE)), d)
      else (Inr events, update_outbox (\<lambda>r. ob_id r \<in> set (map oe_ID events)) (lease_row workerID claimUntil) d))"

definition ClaimOutbox ::
  "'a order_db_scheme step_env \<Rightarrow> u64 list \<Rightarrow> string \<Rightarrow> time \<Rightarrow> int \<Rightarrow> int \<Rightarrow> 'a order_db_scheme \<Rightarrow>
     OutboxEvent list result \<times> 'a order_db_scheme" where
  "ClaimOutbox c locked workerID0 now0 lease limit d =
     (let workerID = TrimSpace workerID0 in
      if workerID = [] \<or> IsZero now0 \<or> lease \<le> 0 \<or> limit \<le> 0 \<or> 1000 < limit then (fail ErrInvalidOrder, d)
      else (let now = Truncate now0 millisecond; claimUntil = Truncate (now + lease) millisecond in
        atomically c (claim_tx locked workerID now claimUntil limit) d))"

definition held_by :: "u64 \<Rightarrow> string \<Rightarrow> outbox_row \<Rightarrow> bool" where
  "held_by eventID workerID r \<longleftrightarrow> ob_id r = eventID \<and> ob_status r = OutboxStatusPending \<and> ob_claimed_by r = Some workerID"

definition published_row :: "time \<Rightarrow> outbox_row \<Rightarrow> outbox_row" where
  "published_row publishedAt r = r\<lparr>ob_status := OutboxStatusPublished, ob_published_at := Some publishedAt,
     ob_claimed_by := None, ob_claim_until := None, ob_last_error_code := None\<rparr>"

definition publish_stmt :: "u64 \<Rightarrow> string \<Rightarrow> time \<Rightarrow> 'a order_db_scheme \<Rightarrow> bool result \<times> 'a order_db_scheme" where
  "publish_stmt eventID workerID publishedAt d =
     (let held = filter (held_by eventID workerID) (od_outbox d) in
      if held \<noteq> [] \<and> \<not> datetime_ok publishedAt
      then (Inl (Wrapf ''mark order outbox published'' (MySQLError ER_TRUNCATED_WRONG_VALUE)), d)
      else (Inr (length held = 1), update_outbox (held_by eventID workerID) (published_row publishedAt) d))"

definition MarkOutboxPublished ::
  "'a order_db_scheme step_env \<Rightarrow> u64 \<Rightarrow> string \<Rightarrow> time \<Rightarrow> 'a order_db_scheme \<Rightarrow> bool result \<times> 'a order_db_scheme" where
  "MarkOutboxPublished c eventID workerID publishedAt d =
     atomically c (publish_stmt eventID (TrimSpace workerID) (Truncate publishedAt millisecond)) d"

definition failed_row :: "time \<Rightarrow> string \<Rightarrow> outbox_row \<Rightarrow> outbox_row" where
  "failed_row nextAttempt errorCode r = r\<lparr>ob_attempts := ob_attempts r + 1, ob_next_attempt_at := nextAttempt,
     ob_last_error_code := Some errorCode, ob_claimed_by := None, ob_claim_until := None\<rparr>"

definition fail_stmt ::
  "u64 \<Rightarrow> string \<Rightarrow> time \<Rightarrow> string \<Rightarrow> 'a order_db_scheme \<Rightarrow> bool result \<times> 'a order_db_scheme" where
  "fail_stmt eventID workerID nextAttempt errorCode d =
     (let held = filter (held_by eventID workerID) (od_outbox d) in
      if held \<noteq> [] \<and> \<not> datetime_ok nextAttempt
      then (Inl (Wrapf ''mark order outbox failed'' (MySQLError ER_TRUNCATED_WRONG_VALUE)), d)
      else if \<exists>r \<in> set held. 4294967295 < ob_attempts r + 1
      then (Inl (Wrapf ''mark order outbox failed'' (MySQLError ER_WARN_DATA_OUT_OF_RANGE)), d)
      else (Inr (length held = 1), update_outbox (held_by eventID workerID) (failed_row nextAttempt errorCode) d))"

definition MarkOutboxFailed ::
  "'a order_db_scheme step_env \<Rightarrow> u64 \<Rightarrow> string \<Rightarrow> time \<Rightarrow> string \<Rightarrow> 'a order_db_scheme \<Rightarrow>
     bool result \<times> 'a order_db_scheme" where
  "MarkOutboxFailed c eventID workerID nextAttempt errorCode0 d =
     (let errorCode = TrimSpace errorCode0 in
      if errorCode = [] \<or> 64 < length errorCode then (fail ErrInvalidOrder, d)
      else atomically c (fail_stmt eventID (TrimSpace workerID) (Truncate nextAttempt millisecond) errorCode) d)"

definition pending_rows :: "'a order_db_scheme \<Rightarrow> outbox_row list" where
  "pending_rows d = filter (\<lambda>r. ob_status r = OutboxStatusPending) (od_outbox d)"

definition OutboxBacklog :: "'a order_db_scheme step_env \<Rightarrow> 'a order_db_scheme \<Rightarrow> int result \<times> 'a order_db_scheme" where
  "OutboxBacklog c d = (case read_db c (\<lambda>d. int (length (pending_rows d))) d of
       (Inl e, d') \<Rightarrow> (Inl (Wrapf ''count order outbox backlog'' e), d')
     | (Inr n, d') \<Rightarrow> (Inr n, d'))"

section \<open>The relay\<close>

record relay_config =
  rc_WorkerID :: string
  rc_Topic :: string
  rc_BatchSize :: int
  rc_Lease :: int
  rc_Poll :: int
  rc_RetryBase :: int
  rc_RetryMax :: int

definition relay_Validate :: "relay_config \<Rightarrow> goerr option" where
  "relay_Validate c =
     (if TrimSpace (rc_WorkerID c) = [] \<or> TrimSpace (rc_Topic c) = [] \<or> rc_BatchSize c \<le> 0 \<or> 1000 < rc_BatchSize c \<or>
         rc_Lease c \<le> 0 \<or> rc_Poll c \<le> 0 \<or> rc_RetryBase c \<le> 0 \<or> rc_RetryMax c < rc_RetryBase c
      then Some (Plain ''invalid order outbox relay config'') else None)"

text \<open>The loop of \<open>retryDelay\<close>; \<open>Inl\<close> is its early return.\<close>

function retryDelay_loop :: "int \<Rightarrow> int \<Rightarrow> int \<Rightarrow> int \<Rightarrow> int + int" where
  "retryDelay_loop retryMax attempt index delay =
     (if index < attempt \<and> delay < retryMax then
        (if go_div retryMax 2 < delay then Inl retryMax
         else retryDelay_loop retryMax attempt (index + 1) (wrap_i64 (delay * 2)))
      else Inr delay)"
  by pat_completeness auto
termination by (relation "measure (\<lambda>(_, attempt, index, _). nat (attempt - index))") auto

declare retryDelay_loop.simps [simp del]

definition retryDelay :: "relay_config \<Rightarrow> int \<Rightarrow> int" where
  "retryDelay c attempt = (case retryDelay_loop (rc_RetryMax c) attempt 1 (rc_RetryBase c) of
       Inl d \<Rightarrow> d
     | Inr delay \<Rightarrow> if rc_RetryMax c < delay then rc_RetryMax c else delay)"

definition classifyPublishError :: "goerr \<Rightarrow> string" where
  "classifyPublishError _ = ''KAFKA_PUBLISH_FAILED''"

record 'b world = order_db +
  wd_broker :: 'b

definition event_message :: "string \<Rightarrow> OutboxEvent \<Rightarrow> Message" where
  "event_message topic event = \<lparr>m_Topic = topic, m_Key = oe_AggregateKey event, m_Value = oe_Payload event,
     m_Headers = [], m_Partition = 0, m_Offset = 0\<rparr>"

text \<open>The loop over the claimed events. The \<open>k\<close>-th event meets the environment of its own statement;
  \<open>hook\<close> is \<open>afterPublish\<close> and \<open>clock\<close> is \<open>r.now\<close>.\<close>

fun relay_events ::
  "'b kafka_lib \<Rightarrow> relay_config \<Rightarrow> (OutboxEvent \<Rightarrow> goerr option) option \<Rightarrow> (nat \<Rightarrow> time) \<Rightarrow> 'b world env \<Rightarrow> time \<Rightarrow> nat \<Rightarrow>
     OutboxEvent list \<Rightarrow> 'b world \<Rightarrow> unit result \<times> 'b world" where
  "relay_events lib config hook clock env now k [] w = (Inr (), w)"
| "relay_events lib config hook clock env now k (event # events) w =
     (case Publish lib (event_message (rc_Topic config) event) (wd_broker w) of
        (Some err, b) \<Rightarrow>
          (case MarkOutboxFailed (env k) (oe_ID event) (rc_WorkerID config)
              (now + retryDelay config (oe_Attempts event + 1)) (classifyPublishError err) (w\<lparr>wd_broker := b\<rparr>) of
             (Inl markErr, w') \<Rightarrow> (Inl markErr, w')
           | (Inr updated, w') \<Rightarrow>
               if \<not> updated then (Inl (Plain (''order outbox failure lease lost for event '' @ FormatUint (oe_ID event))), w')
               else relay_events lib config hook clock env now (k + 1) events w')
      | (None, b) \<Rightarrow>
          (case (case hook of None \<Rightarrow> None | Some f \<Rightarrow> f event) of
             Some err \<Rightarrow> (Inl err, w\<lparr>wd_broker := b\<rparr>)
           | None \<Rightarrow>
               (case MarkOutboxPublished (env k) (oe_ID event) (rc_WorkerID config) (clock k) (w\<lparr>wd_broker := b\<rparr>) of
                  (Inl err, w') \<Rightarrow> (Inl err, w')
                | (Inr updated, w') \<Rightarrow>
                    if \<not> updated then (Inl (Plain (''order outbox publish lease lost for event '' @ FormatUint (oe_ID event))), w')
                    else relay_events lib config hook clock env now (k + 1) events w')))"

definition ProcessBatch ::
  "'b kafka_lib \<Rightarrow> relay_config \<Rightarrow> (OutboxEvent \<Rightarrow> goerr option) option \<Rightarrow> (nat \<Rightarrow> time) \<Rightarrow> 'b world env \<Rightarrow> u64 list \<Rightarrow>
     'b world \<Rightarrow> int result \<times> 'b world" where
  "ProcessBatch lib config hook clock env locked w =
     (let now = clock 0 in
      case ClaimOutbox (env 0) locked (rc_WorkerID config) now (rc_Lease config) (rc_BatchSize config) w of
        (Inl err, w1) \<Rightarrow> (Inl err, w1)
      | (Inr events, w1) \<Rightarrow>
          (case relay_events lib config hook clock env now 1 events w1 of
             (Inl err, w2) \<Rightarrow> (Inl err, w2)
           | (Inr _, w2) \<Rightarrow> (Inr (int (length events)), w2)))"

text \<open>\<open>Run\<close>: batches until the context ends or a batch fails; each round has its own environment. The waiting
  time before the next round, the last part of the answer, is \<open>Poll\<close> after an empty batch.\<close>

record 'b round =
  rd_ctxErr :: "goerr option"
  rd_clock :: "nat \<Rightarrow> time"
  rd_env :: "'b world env"
  rd_locked :: "u64 list"

fun Relay_Run ::
  "'b kafka_lib \<Rightarrow> relay_config \<Rightarrow> (OutboxEvent \<Rightarrow> goerr option) option \<Rightarrow> 'b round list \<Rightarrow> 'b world \<Rightarrow>
     goerr option \<times> 'b world \<times> int list" where
  "Relay_Run lib config hook [] w = (None, w, [])"
| "Relay_Run lib config hook (r # rs) w = (case rd_ctxErr r of
       Some err \<Rightarrow> (Some err, w, [])
     | None \<Rightarrow>
         (case ProcessBatch lib config hook (rd_clock r) (rd_env r) (rd_locked r) w of
            (Inl err, w') \<Rightarrow> (Some err, w', [])
          | (Inr processed, w') \<Rightarrow>
              (case Relay_Run lib config hook rs w' of
                 (res, w'', waits) \<Rightarrow> (res, w'', (if processed = 0 then rc_Poll config else 0) # waits))))"

section \<open>Events are published at least once\<close>

definition ident :: "outbox_row \<Rightarrow> u64 \<times> string \<times> u64 \<times> string \<times> json" where
  "ident r = (ob_id r, ob_event_id r, ob_order_id r, ob_aggregate_key r, ob_payload r)"

lemma ident_rows [simp]:
  "ident (lease_row a t r) = ident r" "ident (published_row t r) = ident r" "ident (failed_row t c r) = ident r"
  by (simp_all add: ident_def lease_row_def published_row_def failed_row_def)

lemma idents_update_outbox:
  assumes "\<And>r. ident (f r) = ident r"
  shows "map ident (od_outbox (update_outbox P f d)) = map ident (od_outbox d)"
  using assms by (simp add: update_outbox_def comp_def)

lemma ids_of_idents: "map ob_id rows = map fst (map ident rows)"
  by (simp add: ident_def comp_def)

text \<open>An event stands in the broker's log when a record carries its key and payload on the relay's topic.\<close>

definition in_log :: "string \<Rightarrow> kgo_record set \<Rightarrow> string \<Rightarrow> payload \<Rightarrow> bool" where
  "in_log topic rs key value \<longleftrightarrow> (\<exists>r \<in> rs. r_Topic r = topic \<and> r_Key r = key \<and> r_Value r = value)"

definition relay_inv :: "string \<Rightarrow> ('b \<Rightarrow> kgo_record set) \<Rightarrow> 'b world \<Rightarrow> bool" where
  "relay_inv topic lg w \<longleftrightarrow> distinct (map ob_id (od_outbox w)) \<and>
     (\<forall>r \<in> set (od_outbox w). ob_status r = OutboxStatusPublished \<longrightarrow>
        in_log topic (lg (wd_broker w)) (ob_aggregate_key r) (Json (ob_payload r)))"

definition outbox_evolves :: "('b \<Rightarrow> kgo_record set) \<Rightarrow> 'b world \<Rightarrow> 'b world \<Rightarrow> bool" where
  "outbox_evolves lg w w' \<longleftrightarrow> ident ` set (od_outbox w) \<subseteq> ident ` set (od_outbox w') \<and> lg (wd_broker w) \<subseteq> lg (wd_broker w')"

lemma outbox_evolves_refl: "outbox_evolves lg w w"
  by (simp add: outbox_evolves_def)

lemma outbox_evolves_trans: "outbox_evolves lg u v \<Longrightarrow> outbox_evolves lg v w \<Longrightarrow> outbox_evolves lg u w"
  unfolding outbox_evolves_def by (meson subset_trans)

text \<open>What other processes may do between two calls: anything that keeps the events and the log.\<close>

definition fair_env :: "string \<Rightarrow> ('b \<Rightarrow> kgo_record set) \<Rightarrow> 'b world env \<Rightarrow> bool" where
  "fair_env topic lg env \<longleftrightarrow> (\<forall>k w. relay_inv topic lg w \<longrightarrow>
     relay_inv topic lg (interference (env k) w) \<and> outbox_evolves lg w (interference (env k) w))"

definition has_event :: "OutboxEvent \<Rightarrow> 'b world \<Rightarrow> bool" where
  "has_event event w \<longleftrightarrow> (\<exists>i. (oe_ID event, i) \<in> ident ` set (od_outbox w) \<and>
     (\<exists>e oid key j. i = (e, oid, key, j) \<and> oe_AggregateKey event = key \<and> oe_Payload event = Json j))"

lemma has_event_evolves: "has_event event w \<Longrightarrow> outbox_evolves lg w w' \<Longrightarrow> has_event event w'"
  unfolding has_event_def outbox_evolves_def by blast

lemma in_log_mono: "in_log topic rs key value \<Longrightarrow> rs \<subseteq> rs' \<Longrightarrow> in_log topic rs' key value"
  by (auto simp: in_log_def)

lemma update_outbox_broker [simp]: "wd_broker (update_outbox P f w) = wd_broker w"
  by (simp add: update_outbox_def)

text \<open>A statement that publishes no row keeps the invariant; one that publishes the row of an event in the
  log does too.\<close>

lemma update_keeps:
  assumes "relay_inv topic lg w" and "\<And>r. ident (f r) = ident r"
    and "\<And>r. r \<in> set (od_outbox w) \<Longrightarrow> P r \<Longrightarrow> ob_status (f r) = OutboxStatusPublished \<Longrightarrow>
      ob_status r = OutboxStatusPublished \<or> in_log topic (lg (wd_broker w)) (ob_aggregate_key r) (Json (ob_payload r))"
  shows "relay_inv topic lg (update_outbox P f w) \<and> outbox_evolves lg w (update_outbox P f w)"
proof
  note ids = idents_update_outbox [of f P w, OF assms(2)]
  have same: "ob_aggregate_key (f r) = ob_aggregate_key r" "ob_payload (f r) = ob_payload r" for r
    using assms(2) [of r] by (simp_all add: ident_def)
  have "map ob_id (od_outbox (update_outbox P f w)) = map ob_id (od_outbox w)" unfolding ids_of_idents ids ..
  moreover have "in_log topic (lg (wd_broker w)) (ob_aggregate_key r') (Json (ob_payload r'))"
    if r': "r' \<in> set (od_outbox (update_outbox P f w))" "ob_status r' = OutboxStatusPublished" for r'
  proof -
    obtain r where r: "r \<in> set (od_outbox w)" "r' = (if P r then f r else r)"
      using r'(1) by (auto simp: update_outbox_def)
    with assms(1,3) r'(2) show ?thesis by (auto simp: relay_inv_def same split: if_splits)
  qed
  ultimately show "relay_inv topic lg (update_outbox P f w)" using assms(1) by (simp add: relay_inv_def)
  have "ident ` set (od_outbox (update_outbox P f w)) = ident ` set (od_outbox w)"
    using arg_cong [OF ids, of set] by simp
  then show "outbox_evolves lg w (update_outbox P f w)" by (simp add: outbox_evolves_def)
qed

lemma lease_keeps:
  assumes "relay_inv topic lg w"
  shows "relay_inv topic lg (update_outbox P (lease_row a t) w)" "outbox_evolves lg w (update_outbox P (lease_row a t) w)"
  using update_keeps [OF assms, where f = "lease_row a t" and P = P] by (simp_all add: lease_row_def ident_def)

lemma failed_keeps:
  assumes "relay_inv topic lg w"
  shows "relay_inv topic lg (update_outbox P (failed_row t c) w)" "outbox_evolves lg w (update_outbox P (failed_row t c) w)"
  using update_keeps [OF assms, where f = "failed_row t c" and P = P] by (simp_all add: failed_row_def ident_def)

lemma published_keeps:
  assumes inv: "relay_inv topic lg w" and ev: "has_event event w"
    and "in_log topic (lg (wd_broker w)) (oe_AggregateKey event) (oe_Payload event)"
  shows "relay_inv topic lg (update_outbox (held_by (oe_ID event) a) (published_row t) w) \<and>
    outbox_evolves lg w (update_outbox (held_by (oe_ID event) a) (published_row t) w)"
proof (rule update_keeps [OF inv])
  fix r assume r: "r \<in> set (od_outbox w)" "held_by (oe_ID event) a r"
  obtain r' where r': "r' \<in> set (od_outbox w)" "ob_id r' = oe_ID event" "oe_AggregateKey event = ob_aggregate_key r'"
    "oe_Payload event = Json (ob_payload r')"
    using ev by (auto simp: has_event_def ident_def)
  have "r' = r"
    using inv r r' by (intro inj_onD [of ob_id "set (od_outbox w)"]) (auto simp: relay_inv_def held_by_def distinct_map)
  with r' assms(3) show "ob_status r = OutboxStatusPublished \<or>
      in_log topic (lg (wd_broker w)) (ob_aggregate_key r) (Json (ob_payload r))" by simp
qed simp

lemma world_call_keeps:
  assumes env: "fair_env topic lg env" and inv: "relay_inv topic lg w" and A: "A w"
    and up: "\<And>u v. A u \<Longrightarrow> outbox_evolves lg u v \<Longrightarrow> A v"
    and body: "\<And>u x v. relay_inv topic lg u \<Longrightarrow> A u \<Longrightarrow> body u = (Inr x, v) \<Longrightarrow> relay_inv topic lg v \<and> outbox_evolves lg u v"
  shows "relay_inv topic lg (snd (atomically (env k) body w)) \<and> outbox_evolves lg w (snd (atomically (env k) body w))"
proof -
  let ?R = "\<lambda>u v. relay_inv topic lg u \<and> A u \<longrightarrow> relay_inv topic lg v \<and> outbox_evolves lg u v"
  have "?R w (snd (atomically (env k) body w))"
  proof (rule atomically_respects [of ?R])
    show "?R a c" if "?R a b" "?R b c" for a b c using that up outbox_evolves_trans by blast
    show "?R d d" for d using outbox_evolves_refl by blast
    show "?R d (interference (env k) d)" for d using env by (simp add: fair_env_def)
    show "?R d d'" if "body d = (Inr x, d')" for d x d' using body that by blast
  qed
  with inv A show ?thesis by blast
qed

lemma ClaimOutbox_keeps:
  assumes "fair_env topic lg env" and "relay_inv topic lg w"
    and "ClaimOutbox (env k) locked workerID now lease limit w = (res, w')"
  shows "relay_inv topic lg w' \<and> outbox_evolves lg w w'"
    and "res = Inr events \<Longrightarrow> event \<in> set events \<Longrightarrow> has_event event w'"
proof -
  let ?tx = "claim_tx locked (TrimSpace workerID) (Truncate now millisecond)
    (Truncate (Truncate now millisecond + lease) millisecond) limit"
  have tx: "relay_inv topic lg v \<and> outbox_evolves lg u v" if "relay_inv topic lg u" "?tx u = (Inr x, v)" for u x v
    using that outbox_evolves_refl [of lg u] by (auto simp: claim_tx_def Let_def lease_keeps split: if_splits)
  have "relay_inv topic lg (snd (atomically (env k) ?tx w)) \<and> outbox_evolves lg w (snd (atomically (env k) ?tx w))"
    by (rule world_call_keeps [OF assms(1,2), of "\<lambda>_. True"]) (use tx in auto)
  with assms(2,3) show "relay_inv topic lg w' \<and> outbox_evolves lg w w'"
    using outbox_evolves_refl by (auto simp: ClaimOutbox_def Let_def split: if_splits)
  assume res: "res = Inr events" and ev: "event \<in> set events"
  then have "?tx (interference (env k) w) = (Inr events, w')"
    using assms(3) by (auto simp: ClaimOutbox_def Let_def atomically_def call_def split: if_splits outcome.splits prod.splits sum.splits)
  then obtain r where "r \<in> set (od_outbox (interference (env k) w))" "event = scan_event r"
    and w': "map ident (od_outbox w') = map ident (od_outbox (interference (env k) w))"
    using ev by (fastforce simp: claim_tx_def Let_def select_due_def idents_update_outbox dest!: in_set_takeD split: if_splits)
  moreover from this have "ident r \<in> ident ` set (od_outbox w')" by (metis image_eqI image_set)
  ultimately show "has_event event w'"
    by (auto simp: has_event_def scan_event_def ident_def intro!: exI [of _ "snd (ident r)"])
qed

lemma MarkOutboxFailed_keeps:
  assumes "fair_env topic lg env" and "relay_inv topic lg w"
    and "MarkOutboxFailed (env k) eventID workerID next code w = (res, w')"
  shows "relay_inv topic lg w' \<and> outbox_evolves lg w w'"
proof -
  let ?tx = "fail_stmt eventID (TrimSpace workerID) (Truncate next millisecond) (TrimSpace code)"
  have "relay_inv topic lg (snd (atomically (env k) ?tx w)) \<and> outbox_evolves lg w (snd (atomically (env k) ?tx w))"
    by (rule world_call_keeps [OF assms(1,2), of "\<lambda>_. True"]) (auto simp: fail_stmt_def Let_def failed_keeps split: if_splits)
  with assms(2,3) show ?thesis
    using outbox_evolves_refl [of lg w] by (auto simp: MarkOutboxFailed_def Let_def split: if_splits)
qed

lemma MarkOutboxPublished_keeps:
  assumes "fair_env topic lg env" and "relay_inv topic lg w" and "has_event event w"
    and "in_log topic (lg (wd_broker w)) (oe_AggregateKey event) (oe_Payload event)"
    and "MarkOutboxPublished (env k) (oe_ID event) workerID t w = (res, w')"
  shows "relay_inv topic lg w' \<and> outbox_evolves lg w w'"
proof -
  let ?A = "\<lambda>u. has_event event u \<and> in_log topic (lg (wd_broker u)) (oe_AggregateKey event) (oe_Payload event)"
  let ?tx = "publish_stmt (oe_ID event) (TrimSpace workerID) (Truncate t millisecond)"
  have "relay_inv topic lg (snd (atomically (env k) ?tx w)) \<and> outbox_evolves lg w (snd (atomically (env k) ?tx w))"
  proof (rule world_call_keeps [OF assms(1,2), of ?A])
    show "?A w" using assms by simp
    show "?A v" if "?A u" "outbox_evolves lg u v" for u v
      using that has_event_evolves in_log_mono by (auto simp: outbox_evolves_def)
    show "relay_inv topic lg v \<and> outbox_evolves lg u v" if "relay_inv topic lg u" "?A u" "?tx u = (Inr x, v)" for u x v
      using that published_keeps [of topic lg u event "TrimSpace workerID" "Truncate t millisecond"]
      by (auto simp: publish_stmt_def Let_def split: if_splits)
  qed
  with assms(5) show ?thesis by (simp add: MarkOutboxPublished_def)
qed

text \<open>Publishing adds to the log and leaves the tables.\<close>

lemma Publish_keeps:
  assumes "kafka_ok lib lg pos committed" and "relay_inv topic lg w"
    and "Publish lib m (wd_broker w) = (res, b)"
  shows "relay_inv topic lg (w\<lparr>wd_broker := b\<rparr>) \<and> outbox_evolves lg w (w\<lparr>wd_broker := b\<rparr>)"
  using Publish_law(1) [OF assms(1,3)] assms(2)
  by (auto simp: relay_inv_def outbox_evolves_def log_grows_def intro: in_log_mono)

lemma relay_events_keeps:
  assumes kafka: "kafka_ok lib lg pos committed" and env: "fair_env (rc_Topic config) lg env"
  shows "relay_inv (rc_Topic config) lg w \<Longrightarrow> \<forall>event \<in> set events. has_event event w \<Longrightarrow>
    relay_events lib config hook clock env now k events w = (res, w') \<Longrightarrow>
    relay_inv (rc_Topic config) lg w' \<and> outbox_evolves lg w w'"
proof (induction events arbitrary: k w w')
  case Nil
  then show ?case by (simp add: outbox_evolves_refl)
next
  case (Cons event events)
  obtain pr b where pub: "Publish lib (event_message (rc_Topic config) event) (wd_broker w) = (pr, b)" by fastforce
  let ?w = "w\<lparr>wd_broker := b\<rparr>"
  have w: "relay_inv (rc_Topic config) lg ?w" "outbox_evolves lg w ?w" using Publish_keeps [OF kafka Cons.prems(1) pub] by simp_all
  have here: "has_event event ?w" using Cons.prems(2) has_event_evolves w(2) by auto
  have on: "relay_inv (rc_Topic config) lg w2 \<and> outbox_evolves lg w w2"
    if "relay_inv (rc_Topic config) lg w1 \<and> outbox_evolves lg ?w w1"
      "relay_events lib config hook clock env now (k + 1) events w1 = (res, w2)" for w1 w2
  proof -
    have e: "outbox_evolves lg w w1" using that(1) w(2) outbox_evolves_trans by blast
    then have "\<forall>event \<in> set events. has_event event w1" using Cons.prems(2) by (auto intro: has_event_evolves)
    then show ?thesis using Cons.IH that e outbox_evolves_trans by blast
  qed
  have stop: "relay_inv (rc_Topic config) lg w1 \<and> outbox_evolves lg w w1"
    if "relay_inv (rc_Topic config) lg w1 \<and> outbox_evolves lg ?w w1" for w1
    using that w(2) outbox_evolves_trans by blast
  show ?case
  proof (cases pr)
    case (Some err)
    obtain mr w1 where mark: "MarkOutboxFailed (env k) (oe_ID event) (rc_WorkerID config)
        (now + retryDelay config (oe_Attempts event + 1)) (classifyPublishError err) ?w = (mr, w1)" by fastforce
    show ?thesis
      using Cons.prems(3) MarkOutboxFailed_keeps [OF env w(1) mark] on stop
      by (auto simp: pub Some mark split: sum.splits if_splits)
  next
    case None
    have logged: "in_log (rc_Topic config) (lg (wd_broker ?w)) (oe_AggregateKey event) (oe_Payload event)"
      using Publish_law(2) [OF kafka pub None] by (auto simp: in_log_def event_message_def)
    obtain mr w1 where mark: "MarkOutboxPublished (env k) (oe_ID event) (rc_WorkerID config) (clock k) ?w = (mr, w1)" by fastforce
    show ?thesis
      using Cons.prems(3) MarkOutboxPublished_keeps [OF env w(1) here logged mark] on stop w
      by (auto simp: pub None mark split: sum.splits if_splits option.splits)
  qed
qed

lemma ProcessBatch_keeps:
  assumes "kafka_ok lib lg pos committed" and "fair_env (rc_Topic config) lg env" and "relay_inv (rc_Topic config) lg w"
    and "ProcessBatch lib config hook clock env locked w = (res, w')"
  shows "relay_inv (rc_Topic config) lg w' \<and> outbox_evolves lg w w'"
proof -
  obtain cr w1 where claim: "ClaimOutbox (env 0) locked (rc_WorkerID config) (clock 0) (rc_Lease config) (rc_BatchSize config) w = (cr, w1)"
    by fastforce
  note c = ClaimOutbox_keeps [OF assms(2,3) claim]
  show ?thesis
  proof (cases cr)
    case (Inl e)
    with assms(4) claim c(1) show ?thesis by (simp add: ProcessBatch_def)
  next
    case (Inr events)
    obtain er w2 where run: "relay_events lib config hook clock env (clock 0) 1 events w1 = (er, w2)" by fastforce
    have "relay_inv (rc_Topic config) lg w2 \<and> outbox_evolves lg w1 w2"
      by (rule relay_events_keeps [OF assms(1,2) _ _ run]) (use c Inr in auto)
    with c(1) outbox_evolves_trans have "relay_inv (rc_Topic config) lg w2 \<and> outbox_evolves lg w w2" by blast
    with assms(4) claim Inr run show ?thesis by (auto simp: ProcessBatch_def split: sum.splits)
  qed
qed

lemma Relay_Run_keeps:
  assumes "kafka_ok lib lg pos committed" and "\<forall>r \<in> set rounds. fair_env (rc_Topic config) lg (rd_env r)"
    and "relay_inv (rc_Topic config) lg w" and "Relay_Run lib config hook rounds w = (res, w', waits)"
  shows "relay_inv (rc_Topic config) lg w' \<and> outbox_evolves lg w w'"
  using assms(2-4)
proof (induction rounds arbitrary: w res waits)
  case (Cons r rounds)
  obtain br w1 where batch: "ProcessBatch lib config hook (rd_clock r) (rd_env r) (rd_locked r) w = (br, w1)" by fastforce
  have w1: "relay_inv (rc_Topic config) lg w1 \<and> outbox_evolves lg w w1"
    by (rule ProcessBatch_keeps [OF assms(1) _ Cons.prems(2) batch]) (use Cons.prems in simp)
  have rest: "relay_inv (rc_Topic config) lg w' \<and> outbox_evolves lg w w'"
    if "Relay_Run lib config hook rounds w1 = (res, w', ws)" for ws
    using Cons.IH [OF _ _ that] Cons.prems(1) w1 outbox_evolves_trans by auto
  show ?case
    using Cons.prems(2,3) w1 rest outbox_evolves_refl [of lg w]
    by (auto simp: batch split: option.splits sum.splits prod.splits)
qed (simp add: outbox_evolves_refl)

text \<open>C23: an event counts as published only when the broker has it. Whatever fails and whatever other
  relays do meanwhile, no row of the outbox disappears or changes its identity, and every row marked as
  published has its key and payload in the broker's log.\<close>

theorem relay_at_least_once:
  assumes "kafka_ok lib lg pos committed" and "\<forall>r \<in> set rounds. fair_env (rc_Topic config) lg (rd_env r)"
    and "relay_inv (rc_Topic config) lg w" and "Relay_Run lib config hook rounds w = (res, w', waits)"
  shows "relay_inv (rc_Topic config) lg w' \<and> outbox_evolves lg w w'"
  by (rule Relay_Run_keeps [OF assms])

section \<open>Claims are exclusive\<close>

text \<open>The operations of a relay on the outbox, and a sequence of them with the failures they meet; the answer
  lists the events that the claims among them handed out.\<close>

datatype outbox_op =
    Claim (op_locked: "u64 list") (op_worker: string) (op_time: time) (op_lease: int) (op_limit: int)
  | Mark_published (op_event: u64) (op_worker: string) (op_time: time)
  | Mark_failed (op_event: u64) (op_worker: string) (op_time: time) (op_code: string)

fun run_op :: "'a order_db_scheme step_env \<Rightarrow> outbox_op \<Rightarrow> 'a order_db_scheme \<Rightarrow> OutboxEvent list \<times> 'a order_db_scheme" where
  "run_op c (Claim locked worker now lease limit) d = (case ClaimOutbox c locked worker now lease limit d of
       (Inr events, d') \<Rightarrow> (events, d') | (Inl _, d') \<Rightarrow> ([], d'))"
| "run_op c (Mark_published event worker now) d = ([], snd (MarkOutboxPublished c event worker now d))"
| "run_op c (Mark_failed event worker retryAt code) d = ([], snd (MarkOutboxFailed c event worker retryAt code d))"

fun run_ops ::
  "('a order_db_scheme step_env \<times> outbox_op) list \<Rightarrow> 'a order_db_scheme \<Rightarrow> OutboxEvent list \<times> 'a order_db_scheme" where
  "run_ops [] d = ([], d)"
| "run_ops ((c, op) # ops) d = (case run_op c op d of
     (events, d1) \<Rightarrow> (case run_ops ops d1 of (rest, d2) \<Rightarrow> (events @ rest, d2)))"

definition leased :: "string \<Rightarrow> time \<Rightarrow> u64 \<Rightarrow> 'a order_db_scheme \<Rightarrow> bool" where
  "leased workerID until eventID d \<longleftrightarrow>
     (\<forall>r \<in> set (od_outbox d). ob_id r = eventID \<longrightarrow> ob_claimed_by r = Some workerID \<and> ob_claim_until r = Some until)"

lemma leased_update:
  assumes "leased w u i d" and "\<And>r. r \<in> set (od_outbox d) \<Longrightarrow> P r \<Longrightarrow> ob_id r \<noteq> i" and "\<And>r. ob_id (f r) = ob_id r"
  shows "leased w u i (update_outbox P f d)"
  unfolding leased_def
proof (intro ballI impI)
  fix r' assume r': "r' \<in> set (od_outbox (update_outbox P f d))" "ob_id r' = i"
  then obtain r where r: "r \<in> set (od_outbox d)" "r' = (if P r then f r else r)" by (auto simp: update_outbox_def)
  with r'(2) assms(3) have "ob_id r = i" by (simp split: if_splits)
  with r assms(2) have "r' = r" by auto
  with assms(1) r r' show "ob_claimed_by r' = Some w \<and> ob_claim_until r' = Some u" by (simp add: leased_def)
qed

lemma lease_row_id [simp]:
  "ob_id (lease_row a t r) = ob_id r" "ob_id (published_row t r) = ob_id r" "ob_id (failed_row t c r) = ob_id r"
  by (simp_all add: lease_row_def published_row_def failed_row_def)

lemma scan_event_ID [simp]: "oe_ID (scan_event r) = ob_id r"
  by (simp add: scan_event_def)

lemma select_due_sound:
  "r \<in> set (select_due locked now limit rows) \<Longrightarrow> r \<in> set rows \<and> claimable now r"
  by (auto simp: select_due_def dest!: in_set_takeD)

lemma leased_not_due:
  assumes "leased w u i d" and "now < u" and "r \<in> set (select_due locked now limit (od_outbox d))"
  shows "ob_id r \<noteq> i"
  using select_due_sound [OF assms(3)] assms(1,2) by (auto simp: leased_def claimable_def)

text \<open>A transaction of another worker before the end of the lease.\<close>

lemma claim_tx_leased:
  assumes "leased w u i d" and "now < u" and "claim_tx locked a now t limit d = (res, d')"
  shows "leased w u i d'" and "res = Inr events \<Longrightarrow> i \<notin> oe_ID ` set events"
proof -
  note no = leased_not_due [OF assms(1,2)]
  show "leased w u i d'"
  proof (cases "d' = d")
    case False
    let ?P = "\<lambda>r. ob_id r \<in> set (map oe_ID (map scan_event (select_due locked now limit (od_outbox d))))"
    have "d' = update_outbox ?P (lease_row a t) d"
      using assms(3) False by (auto simp: claim_tx_def Let_def split: if_splits)
    moreover have "ob_id r \<noteq> i" if P: "?P r" for r
    proof -
      obtain x where x: "x \<in> set (select_due locked now limit (od_outbox d))" "ob_id r = ob_id x" using P by auto
      show ?thesis unfolding x(2) by (rule no [OF x(1)])
    qed
    ultimately show ?thesis by (simp only:) (rule leased_update [OF assms(1)], simp_all)
  qed (use assms(1) in simp)
  show "res = Inr events \<Longrightarrow> i \<notin> oe_ID ` set events"
  proof -
    have "i \<notin> ob_id ` set (select_due locked now limit (od_outbox d))" using no by blast
    then have "i \<notin> oe_ID ` set (map scan_event (select_due locked now limit (od_outbox d)))" by (simp add: image_image)
    then show "res = Inr events \<Longrightarrow> i \<notin> oe_ID ` set events"
      using assms(3) unfolding claim_tx_def Let_def by (auto simp del: set_map split: if_splits)
  qed
qed

lemma atomically_keeps:
  assumes "interference c = id" and "P d" and "\<And>x d'. body d = (Inr x, d') \<Longrightarrow> P d'"
  shows "P (snd (atomically c body d))"
  using assms by (auto simp: atomically_def call_def Let_def split: outcome.splits prod.splits sum.splits)

lemma atomically_done:
  assumes "interference c = id" and "atomically c body d = (Inr x, d')"
  shows "body d = (Inr x, d')"
  using assms by (auto simp: atomically_def call_def Let_def split: outcome.splits prod.splits sum.splits)

lemma run_op_leased:
  assumes "leased w u i d" and "interference c = id" and "TrimSpace (op_worker op) \<noteq> w"
    and "case op of Claim _ _ t _ _ \<Rightarrow> Truncate t millisecond < u | _ \<Rightarrow> True"
  shows "leased w u i (snd (run_op c op d)) \<and> i \<notin> oe_ID ` set (fst (run_op c op d))"
proof (cases op)
  case (Claim locked worker now lease limit)
  note tx = claim_tx_leased [OF assms(1)]
  let ?tx = "claim_tx locked (TrimSpace worker) (Truncate now millisecond)
    (Truncate (Truncate now millisecond + lease) millisecond) limit"
  have now: "Truncate now millisecond < u" using assms(4) Claim by simp
  have "leased w u i (snd (atomically c ?tx d))"
    by (rule atomically_keeps [where P = "leased w u i", OF assms(2,1)]) (rule tx(1) [OF now])
  then have "leased w u i (snd (ClaimOutbox c locked worker now lease limit d))"
    using assms(1) by (simp add: ClaimOutbox_def Let_def)
  moreover have "i \<notin> oe_ID ` set events" if "ClaimOutbox c locked worker now lease limit d = (Inr events, d')" for events d'
  proof -
    have "atomically c ?tx d = (Inr events, d')" using that by (simp add: ClaimOutbox_def Let_def split: if_splits)
    from atomically_done [OF assms(2) this] show ?thesis using tx(2) [OF now] by blast
  qed
  ultimately show ?thesis using Claim by (auto split: prod.splits sum.splits)
next
  case (Mark_published event worker now)
  have "ob_id r \<noteq> i" if "r \<in> set (od_outbox d)" "held_by event (TrimSpace worker) r" for r
    using assms(1,3) Mark_published that by (auto simp: leased_def held_by_def)
  then have "leased w u i (update_outbox (held_by event (TrimSpace worker)) (published_row t) d)" for t
    by (intro leased_update [OF assms(1)]) simp_all
  then show ?thesis
    using Mark_published assms(1)
    by (auto simp: MarkOutboxPublished_def publish_stmt_def Let_def intro!: atomically_keeps [where P = "leased w u i", OF assms(2)] split: if_splits)
next
  case (Mark_failed event worker now code)
  have "ob_id r \<noteq> i" if "r \<in> set (od_outbox d)" "held_by event (TrimSpace worker) r" for r
    using assms(1,3) Mark_failed that by (auto simp: leased_def held_by_def)
  then have "leased w u i (update_outbox (held_by event (TrimSpace worker)) (failed_row t e) d)" for t e
    by (intro leased_update [OF assms(1)]) simp_all
  then show ?thesis
    using Mark_failed assms(1)
    by (auto simp: MarkOutboxFailed_def fail_stmt_def Let_def intro!: atomically_keeps [where P = "leased w u i", OF assms(2)] split: if_splits)
qed

text \<open>C24: a claimed event belongs to its worker for the length of the lease. Until then no operation of other
  workers, with any failures, hands the event out again or takes the claim away.\<close>

theorem claims_exclusive:
  assumes "ClaimOutbox c locked w now lease limit d = (Inr events, d1)"
    and "\<forall>(c, op) \<in> set ops. interference c = id \<and> TrimSpace (op_worker op) \<noteq> TrimSpace w \<and>
      (case op of Claim _ _ t _ _ \<Rightarrow> Truncate t millisecond < Truncate (Truncate now millisecond + lease) millisecond | _ \<Rightarrow> True)"
    and "run_ops ops d1 = (others, d2)" and "event \<in> set events"
  shows "oe_ID event \<notin> oe_ID ` set others \<and>
    leased (TrimSpace w) (Truncate (Truncate now millisecond + lease) millisecond) (oe_ID event) d2"
proof -
  let ?u = "Truncate (Truncate now millisecond + lease) millisecond"
  have "claim_tx locked (TrimSpace w) (Truncate now millisecond) ?u limit (interference c d) = (Inr events, d1)"
    using assms(1) by (auto simp: ClaimOutbox_def Let_def atomically_def call_def split: if_splits outcome.splits prod.splits sum.splits)
  then have "leased (TrimSpace w) ?u (oe_ID event) d1"
    using assms(4) by (auto simp: claim_tx_def Let_def leased_def update_outbox_def lease_row_def split: if_splits)
  with assms(2,3) show ?thesis
  proof (induction ops arbitrary: d1 others)
    case (Cons cop ops)
    obtain c op where cop: "cop = (c, op)" by fastforce
    obtain evs d' where op: "run_op c op d1 = (evs, d')" by fastforce
    obtain rest where rest: "run_ops ops d' = (rest, d2)" "others = evs @ rest"
      using Cons.prems(2) by (auto simp: cop op split: prod.splits)
    have "interference c = id" "TrimSpace (op_worker op) \<noteq> TrimSpace w"
      "case op of Claim _ _ t _ _ \<Rightarrow> Truncate t millisecond < ?u | _ \<Rightarrow> True"
      using Cons.prems(1) unfolding cop by auto
    from run_op_leased [OF Cons.prems(3) this]
    have "leased (TrimSpace w) ?u (oe_ID event) d' \<and> oe_ID event \<notin> oe_ID ` set evs" by (simp add: op)
    with Cons.IH [OF _ rest(1)] Cons.prems(1) rest(2) show ?case by auto
  qed simp
qed

section \<open>Retry delays\<close>

lemma retryDelay_loop_capped:
  assumes "0 < delay" and "delay \<le> m" and "m \<le> max_i64"
  shows "(case retryDelay_loop m attempt index delay of Inl d \<Rightarrow> d | Inr d \<Rightarrow> if m < d then m else d) =
    min (delay * 2 ^ nat (attempt - index)) m"
  using assms
proof (induction m attempt index delay rule: retryDelay_loop.induct)
  case (1 m attempt index delay)
  show ?case
  proof (cases "index < attempt \<and> delay < m")
    case True
    then have n: "nat (attempt - index) = Suc (nat (attempt - (index + 1)))" by linarith
    have big: "delay * 2 \<le> delay * 2 ^ nat (attempt - index)" using 1(2) by (simp add: n)
    show ?thesis
    proof (cases "go_div m 2 < delay")
      case half: True
      then have "m < delay * 2" using 1(2,3) by (simp; linarith)
      with big have "m < delay * 2 ^ nat (attempt - index)" by linarith
      with True half show ?thesis by (subst retryDelay_loop.simps) (simp add: min_absorb2)
    next
      case False
      then have "delay * 2 \<le> m" using 1(2,3) by (simp; linarith)
      moreover from this have "wrap_i64 (delay * 2) = delay * 2" using 1(2,4) by (simp add: in_i64_def max_i64_def)
      ultimately show ?thesis using 1(1) [OF True False] 1(2,4) True False n
        by (subst retryDelay_loop.simps) (simp add: mult.assoc)
    qed
  next
    case False
    have one: "1 \<le> (2 :: int) ^ nat (attempt - index)" by simp
    have "delay * 1 \<le> delay * 2 ^ nat (attempt - index)" using 1(2) one by (intro mult_left_mono) simp_all
    with False 1(3) show ?thesis by (subst retryDelay_loop.simps) auto
  qed
qed

text \<open>The delay before the next attempt doubles with every failure, from \<open>RetryBase\<close> up to \<open>RetryMax\<close>,
  and never overflows.\<close>

theorem retryDelay_exact:
  assumes "relay_Validate c = None" and "rc_RetryMax c \<le> max_i64"
  shows "retryDelay c attempt = min (rc_RetryBase c * 2 ^ nat (attempt - 1)) (rc_RetryMax c)"
  unfolding retryDelay_def
  by (rule retryDelay_loop_capped) (use assms in \<open>auto simp: relay_Validate_def split: if_splits\<close>)

section \<open>A healthy relay drains the outbox\<close>

lemma filter_unique:
  "distinct (map f xs) \<Longrightarrow> x \<in> set xs \<Longrightarrow> P x \<Longrightarrow> (\<And>y. P y \<Longrightarrow> f y = f x) \<Longrightarrow> filter P xs = [x]"
proof (induction xs)
  case (Cons y ys)
  show ?case
  proof (cases "y = x")
    case True
    have "\<not> P z" if "z \<in> set ys" for z
    proof
      assume "P z"
      then have "f x \<in> f ` set ys" using that Cons.prems(4) by (metis imageI)
      with True Cons.prems(1) show False by simp
    qed
    then have "filter P ys = []" by (simp add: filter_empty_conv)
    with True Cons.prems(3) show ?thesis by simp
  next
    case False
    then have "x \<in> set ys" using Cons.prems(2) by simp
    then have "f x \<in> f ` set ys" by (rule imageI)
    then have "f y \<noteq> f x" using Cons.prems(1) by auto
    then have "\<not> P y" using Cons.prems(4) by blast
    moreover have "filter P ys = [x]"
    proof (rule Cons.IH)
      show "distinct (map f ys)" using Cons.prems(1) by simp
    qed (fact \<open>x \<in> set ys\<close> Cons.prems(3,4))+
    ultimately show ?thesis by simp
  qed
next
  case Nil
  from Nil.prems(2) show ?case by simp
qed

lemma pending_after:
  "(\<And>r. P r \<Longrightarrow> ob_status r = OutboxStatusPending) \<Longrightarrow> (\<And>r. ob_status (f r) = OutboxStatusPublished) \<Longrightarrow>
    length (filter (\<lambda>r. ob_status r = OutboxStatusPending) (map (\<lambda>r. if P r then f r else r) rows)) + length (filter P rows) =
    length (filter (\<lambda>r. ob_status r = OutboxStatusPending) rows)"
  by (induction rows) auto

definition can_publish :: "string \<Rightarrow> 'a order_db_scheme \<Rightarrow> OutboxEvent \<Rightarrow> bool" where
  "can_publish workerID w event \<longleftrightarrow> oe_AggregateKey event \<noteq> [] \<and> oe_Payload event \<noteq> Not_json [] \<and>
     (\<exists>r \<in> set (od_outbox w). held_by (oe_ID event) workerID r)"

lemma relay_events_drain:
  assumes topic: "TrimSpace (rc_Topic config) \<noteq> []" and acks: "\<forall>r b. fst (kl_ProduceSync lib r b) = None"
    and clock: "\<forall>k. datetime_ok (Truncate (clock k) millisecond)"
  shows "distinct (map ob_id (od_outbox w)) \<Longrightarrow> distinct (map oe_ID events) \<Longrightarrow>
    \<forall>event \<in> set events. can_publish (TrimSpace (rc_WorkerID config)) w event \<Longrightarrow>
    \<exists>w'. relay_events lib config None clock quiet now k events w = (Inr (), w') \<and>
      length (pending_rows w') + length events = length (pending_rows w)"
proof (induction events arbitrary: k w)
  case (Cons event events)
  let ?W = "TrimSpace (rc_WorkerID config)"
  have "fst (Publish lib (event_message (rc_Topic config) event) (wd_broker w)) = None"
    using Cons.prems(3) topic acks [rule_format, of "\<lparr>r_Topic = rc_Topic config, r_Key = oe_AggregateKey event,
      r_Value = oe_Payload event, r_Headers = [], r_Partition = 0, r_Offset = 0\<rparr>" "wd_broker w"]
    by (auto simp: Publish_def event_message_def can_publish_def split: prod.splits option.splits)
  then obtain b where pub: "Publish lib (event_message (rc_Topic config) event) (wd_broker w) = (None, b)"
    by (metis prod.collapse)
  obtain r where r: "r \<in> set (od_outbox w)" "held_by (oe_ID event) ?W r"
    using Cons.prems(3) by (auto simp: can_publish_def)
  have held: "filter (held_by (oe_ID event) ?W) (od_outbox w) = [r]"
    by (rule filter_unique [where f = ob_id and P = "held_by (oe_ID event) ?W", OF Cons.prems(1) r]) (use r(2) in \<open>auto simp: held_by_def\<close>)
  define w1 where "w1 = update_outbox (held_by (oe_ID event) ?W) (published_row (Truncate (clock k) millisecond)) (w\<lparr>wd_broker := b\<rparr>)"
  have mark: "MarkOutboxPublished (quiet k) (oe_ID event) (rc_WorkerID config) (clock k) (w\<lparr>wd_broker := b\<rparr>) = (Inr True, w1)"
    using held clock by (simp add: MarkOutboxPublished_def publish_stmt_def w1_def)
  have one: "length (pending_rows w1) + 1 = length (pending_rows w)"
    using pending_after [of "held_by (oe_ID event) ?W" "published_row (Truncate (clock k) millisecond)" "od_outbox w"] held
    by (simp add: pending_rows_def w1_def update_outbox_def held_by_def published_row_def)
  have "map ident (od_outbox w1) = map ident (od_outbox w)" unfolding w1_def by (subst idents_update_outbox) simp_all
  then have d: "distinct (map ob_id (od_outbox w1))" using Cons.prems(1) unfolding ids_of_idents by simp
  have rest: "can_publish ?W w1 e" if e: "e \<in> set events" for e
  proof -
    obtain r' where r': "r' \<in> set (od_outbox w)" "held_by (oe_ID e) ?W r'" "oe_AggregateKey e \<noteq> []" "oe_Payload e \<noteq> Not_json []"
      using Cons.prems(3) e by (auto simp: can_publish_def)
    moreover have "\<not> held_by (oe_ID event) ?W r'" 
    proof -
      have "oe_ID event \<notin> oe_ID ` set events" using Cons.prems(2) by simp
      then have "oe_ID e \<noteq> oe_ID event" using e by (metis imageI)
      with r'(2) show ?thesis by (simp add: held_by_def)
    qed
    ultimately show ?thesis by (auto simp: can_publish_def w1_def update_outbox_def intro!: bexI [of _ r'] image_eqI [of _ _ r'])
  qed
  obtain w' where "relay_events lib config None clock quiet now (k + 1) events w1 = (Inr (), w')"
    "length (pending_rows w') + length events = length (pending_rows w1)"
    using Cons.IH [OF d, of "k + 1"] Cons.prems(2) rest by auto
  with one show ?case by (intro exI [of _ w']) (simp add: pub mark)
qed simp

lemma select_due_ids:
  assumes "distinct (map ob_id rows)"
  shows "distinct (map ob_id (select_due locked now limit rows))"
proof -
  have "distinct (map ob_id (filter P rows))" for P using assms by (simp add: distinct_map_filter)
  then have "distinct (map ob_id (sort_key ob_id (filter P rows)))" for P
    by (metis distinct_map distinct_sort set_sort)
  then show ?thesis by (simp add: select_due_def take_map [symmetric])
qed

text \<open>A healthy relay makes progress. When the broker acknowledges and the database answers, a batch
  publishes as many of the due events as the batch size allows: it returns their number, and the backlog
  shrinks by exactly that.\<close>

theorem ProcessBatch_drains:
  assumes "relay_Validate config = None" and "\<forall>r b. fst (kl_ProduceSync lib r b) = None"
    and "\<forall>k. datetime_ok (Truncate (clock k) millisecond)" and "\<not> IsZero (clock 0)"
    and "datetime_ok (Truncate (Truncate (clock 0) millisecond + rc_Lease config) millisecond)"
    and "distinct (map ob_id (od_outbox w))" and "\<forall>r \<in> set (od_outbox w). ob_aggregate_key r \<noteq> []"
    and "n = min (nat (rc_BatchSize config)) (length (filter (claimable (Truncate (clock 0) millisecond)) (od_outbox w)))"
  shows "\<exists>w'. ProcessBatch lib config None clock quiet [] w = (Inr (int n), w') \<and>
    fst (OutboxBacklog (quiet k) w') = Inr (int (length (pending_rows w)) - int n)"
proof -
  let ?now = "Truncate (clock 0) millisecond" and ?W = "TrimSpace (rc_WorkerID config)"
  let ?due = "select_due [] ?now (rc_BatchSize config) (od_outbox w)"
  let ?u = "Truncate (?now + rc_Lease config) millisecond"
  define w1 where "w1 = (if ?due = [] then w else update_outbox (\<lambda>r. ob_id r \<in> set (map ob_id ?due)) (lease_row ?W ?u) w)"
  have v: "?W \<noteq> []" "TrimSpace (rc_Topic config) \<noteq> []" "0 < rc_BatchSize config" "rc_BatchSize config \<le> 1000" "0 < rc_Lease config"
    using assms(1) by (auto simp: relay_Validate_def split: if_splits)
  have claim: "ClaimOutbox (quiet 0) [] (rc_WorkerID config) (clock 0) (rc_Lease config) (rc_BatchSize config) w = (Inr (map scan_event ?due), w1)"
    using v assms(4,5) by (simp add: ClaimOutbox_def claim_tx_def Let_def w1_def comp_def)
  have "map ident (od_outbox w1) = map ident (od_outbox w)" unfolding w1_def by (simp add: idents_update_outbox)
  then have d: "distinct (map ob_id (od_outbox w1))" using assms(6) unfolding ids_of_idents by simp
  have ids: "distinct (map oe_ID (map scan_event ?due))" using select_due_ids [OF assms(6)] by (simp add: comp_def)
  have can: "can_publish ?W w1 (scan_event r)" if r: "r \<in> set ?due" for r
  proof -
    note s = select_due_sound [OF r]
    have "lease_row ?W ?u r \<in> set (od_outbox w1)" using r s by (auto simp: w1_def update_outbox_def)
    moreover have "held_by (ob_id r) ?W (lease_row ?W ?u r)" using s by (simp add: held_by_def lease_row_def claimable_def)
    ultimately show ?thesis using s assms(7) by (auto simp: can_publish_def scan_event_def)
  qed
  have same: "length (pending_rows w1) = length (pending_rows w)"
  proof -
    have "map ob_status (od_outbox w1) = map ob_status (od_outbox w)" by (simp add: w1_def update_outbox_def lease_row_def comp_def)
    then have "length (filter (\<lambda>s. s = OutboxStatusPending) (map ob_status (od_outbox w1))) =
      length (filter (\<lambda>s. s = OutboxStatusPending) (map ob_status (od_outbox w)))" by simp
    then show ?thesis by (simp add: pending_rows_def filter_map comp_def)
  qed
  obtain w' where w': "relay_events lib config None clock quiet (clock 0) 1 (map scan_event ?due) w1 = (Inr (), w')"
    "length (pending_rows w') + length ?due = length (pending_rows w)"
    using relay_events_drain [OF v(2) assms(2,3) d ids, of "clock 0" 1] can same by auto
  have len: "length ?due = n" using assms(8) by (simp add: select_due_def min.commute)
  have "ProcessBatch lib config None clock quiet [] w = (Inr (int n), w')"
    using claim w'(1) len by (simp add: ProcessBatch_def)
  moreover have "fst (OutboxBacklog (quiet k) w') = Inr (int (length (pending_rows w)) - int n)"
    using w'(2) len by (simp add: OutboxBacklog_def)
  ultimately show ?thesis by blast
qed

section \<open>Orders keep their events\<close>

lemma list_all2_map_right:
  "(\<And>x y. R x y \<Longrightarrow> R x (f y)) \<Longrightarrow> list_all2 R xs ys \<Longrightarrow> list_all2 R xs (map f ys)"
  by (auto simp: list_all2_conv_all_nth)

lemma orders_ok_update_outbox:
  assumes "orders_ok d" and "\<And>r. ident (f r) = ident r"
  shows "orders_ok (update_outbox P f d)"
proof -
  have "ob_order_id (f r) = ob_order_id r \<and> ob_event_id (f r) = ob_event_id r \<and>
      ob_aggregate_key (f r) = ob_aggregate_key r \<and> ob_payload (f r) = ob_payload r" for r
    using assms(2) [of r] by (simp add: ident_def)
  then have "list_all2 event_of (od_orders d) (map (\<lambda>r. if P r then f r else r) (od_outbox d))"
    using assms(1) by (intro list_all2_map_right) (auto simp: event_of_def orders_ok_def tables_ok_def)
  with assms(1) show ?thesis by (simp add: orders_ok_def tables_ok_def update_outbox_def item_ids_def)
qed

text \<open>Whatever the relays do, every order keeps exactly its event: no operation on the outbox, with any
  failures, breaks the correspondence between the orders and the events.\<close>

theorem outbox_keeps_orders:
  assumes "orders_ok d" and "\<forall>(c, op) \<in> set ops. \<forall>d. orders_ok d \<longrightarrow> orders_ok (interference c d)"
  shows "orders_ok (snd (run_ops ops d))"
  using assms
proof (induction ops arbitrary: d)
  case (Cons cop ops)
  obtain c op where cop: "cop = (c, op)" by fastforce
  have at: "orders_ok (snd (atomically c body d))"
    if "\<And>u x v. orders_ok u \<Longrightarrow> body u = (Inr x, v) \<Longrightarrow> orders_ok v" for body :: "order_db \<Rightarrow> 'x result \<times> order_db"
  proof -
    let ?R = "\<lambda>u v. orders_ok u \<longrightarrow> orders_ok v"
    have "?R d (snd (atomically c body d))"
      by (rule atomically_respects [of ?R]) (use Cons.prems(2) that in \<open>auto simp: cop\<close>)
    with Cons.prems(1) show ?thesis by simp
  qed
  have "orders_ok (snd (run_op c op d))"
  proof (cases op)
    case (Claim locked worker now lease limit)
    have "orders_ok (snd (ClaimOutbox c locked worker now lease limit d))"
      using Cons.prems(1)
      by (auto simp: ClaimOutbox_def Let_def claim_tx_def intro!: at orders_ok_update_outbox split: if_splits)
    then show ?thesis using Claim by (auto split: prod.splits sum.splits)
  next
    case (Mark_published event worker now)
    have "orders_ok (snd (MarkOutboxPublished c event worker now d))"
      by (auto simp: MarkOutboxPublished_def publish_stmt_def Let_def intro!: at orders_ok_update_outbox split: if_splits)
    then show ?thesis using Mark_published by simp
  next
    case (Mark_failed event worker retryAt code)
    have "orders_ok (snd (MarkOutboxFailed c event worker retryAt code d))"
      using Cons.prems(1)
      by (auto simp: MarkOutboxFailed_def fail_stmt_def Let_def intro!: at orders_ok_update_outbox split: if_splits)
    then show ?thesis using Mark_failed by simp
  qed
  then have "orders_ok (snd (run_ops ops (snd (run_op c op d))))" using Cons.IH Cons.prems(2) by simp
  then show ?case by (auto simp: cop split: prod.splits)
qed simp

section \<open>Witnesses\<close>

definition demo_row :: outbox_row where
  "demo_row = \<lparr>ob_id = 1, ob_event_id = ''order.created.v1:T1'', ob_order_id = 1, ob_aggregate_key = ''T1'',
     ob_event_type = ''order.created'', ob_schema_version = 1, ob_payload = JNull, ob_status = OutboxStatusPending,
     ob_attempts = 0, ob_next_attempt_at = 0, ob_claimed_by = None, ob_claim_until = None, ob_last_error_code = None,
     ob_published_at = None, ob_created_at = 0\<rparr>"

definition demo_relay :: relay_config where
  "demo_relay = \<lparr>rc_WorkerID = ''relay-1'', rc_Topic = ''order.created'', rc_BatchSize = 10, rc_Lease = 30 * second,
     rc_Poll = second, rc_RetryBase = second, rc_RetryMax = 60 * second\<rparr>"

definition demo_world :: "memory_broker world" where
  "demo_world = \<lparr>od_orders = [], od_items = [], od_outbox = [demo_row], wd_broker = \<lparr>mb_log = [], mb_pos = (\<lambda>_. 0), mb_committed = (\<lambda>_. 0)\<rparr>\<rparr>"

abbreviation demo_clock :: "nat \<Rightarrow> time" where
  "demo_clock \<equiv> \<lambda>_. 1000 * second"

lemma demo_truncate:
  "Truncate 1000000000000 millisecond = 1000000000000" "Truncate 1030000000000 millisecond = 1030000000000"
  "Truncate 1029000000000 millisecond = 1029000000000"
  by (simp_all add: Truncate_def zero_time_def)

theorem ProcessBatch_drains_witness:
  "\<exists>w'. ProcessBatch (memory_kafka []) demo_relay None demo_clock quiet [] demo_world = (Inr (int 1), w') \<and>
    fst (OutboxBacklog (quiet 0) w') = Inr (int (length (pending_rows demo_world)) - int 1)"
  by (rule ProcessBatch_drains)
    (simp_all add: demo_relay_def demo_world_def demo_row_def relay_Validate_def memory_kafka_def demo_truncate
      datetime_ok_def IsZero_def zero_time_def claimable_def byte_def)

theorem relay_at_least_once_witness:
  "\<exists>w'. Relay_Run (memory_kafka []) demo_relay None
      [\<lparr>rd_ctxErr = None, rd_clock = demo_clock, rd_env = (\<lambda>_. \<lparr>interference = id, outcome_of = Lost_after (Sentinel Context_DeadlineExceeded)\<rparr>), rd_locked = []\<rparr>] demo_world
      = (Some (Sentinel Context_DeadlineExceeded), w', []) \<and>
    relay_inv ''order.created'' (\<lambda>b. set (mb_log b)) w' \<and> outbox_evolves (\<lambda>b. set (mb_log b)) demo_world w'"
proof -
  let ?env = "\<lambda>_::nat. \<lparr>interference = id, outcome_of = Lost_after (Sentinel Context_DeadlineExceeded)\<rparr> :: memory_broker world step_env"
  let ?rounds = "[\<lparr>rd_ctxErr = None, rd_clock = demo_clock, rd_env = ?env, rd_locked = []\<rparr>]"
  obtain res w' waits where run: "Relay_Run (memory_kafka []) demo_relay None ?rounds demo_world = (res, w', waits)"
    by (metis surj_pair)
  have "res = Some (Sentinel Context_DeadlineExceeded) \<and> waits = []"
    using run by (auto simp: ProcessBatch_def ClaimOutbox_def atomically_def call_def Let_def demo_relay_def byte_def IsZero_def zero_time_def
        split: prod.splits)
  moreover have "relay_inv (rc_Topic demo_relay) (\<lambda>b. set (mb_log b)) w' \<and> outbox_evolves (\<lambda>b. set (mb_log b)) demo_world w'"
  proof (rule relay_at_least_once [OF memory_kafka_ok _ _ run])
    show "\<forall>r \<in> set ?rounds. fair_env (rc_Topic demo_relay) (\<lambda>b. set (mb_log b)) (rd_env r)"
      by (simp add: fair_env_def outbox_evolves_refl)
    show "relay_inv (rc_Topic demo_relay) (\<lambda>b. set (mb_log b)) demo_world"
      by (simp add: relay_inv_def demo_world_def demo_row_def)
  qed
  ultimately show ?thesis using run by (auto simp: demo_relay_def)
qed

definition demo_outbox :: order_db where
  "demo_outbox = \<lparr>od_orders = [], od_items = [], od_outbox = [demo_row]\<rparr>"

theorem claims_exclusive_witness:
  "\<exists>events d1 others d2. ClaimOutbox (quiet 0) [] ''relay-1'' (1000 * second) (30 * second) 10 demo_outbox = (Inr events, d1) \<and>
    run_ops [(quiet 0, Claim [] ''relay-2'' (1029 * second) (30 * second) 10)] d1 = (others, d2) \<and> map oe_ID events = [1] \<and>
    1 \<notin> oe_ID ` set others"
proof -
  let ?ops = "[(quiet 0, Claim [] ''relay-2'' (1029 * second) (30 * second) 10)] :: (order_db step_env \<times> outbox_op) list"
  obtain d1 where claim: "ClaimOutbox (quiet 0) [] ''relay-1'' (1000 * second) (30 * second) 10 demo_outbox = (Inr [scan_event demo_row], d1)"
    by (simp add: ClaimOutbox_def claim_tx_def Let_def byte_def IsZero_def zero_time_def demo_truncate
        datetime_ok_def select_due_def demo_outbox_def claimable_def demo_row_def)
  obtain others d2 where run: "run_ops ?ops d1 = (others, d2)" by fastforce
  have "oe_ID (scan_event demo_row) \<notin> oe_ID ` set others"
    by (rule claims_exclusive [OF claim _ run, THEN conjunct1])
      (simp_all add: quiet_def byte_def demo_truncate)
  with claim run show ?thesis
    by (intro exI [of _ "[scan_event demo_row]"] exI [of _ d1] exI [of _ others] exI [of _ d2]) (simp add: demo_row_def)
qed

theorem retryDelay_exact_witness:
  "retryDelay demo_relay 5 = 16 * second \<and> retryDelay demo_relay 9 = 60 * second"
  using retryDelay_exact [of demo_relay 5] retryDelay_exact [of demo_relay 9]
  by (simp add: demo_relay_def relay_Validate_def max_i64_def byte_def)

theorem outbox_keeps_orders_witness:
  "orders_ok (snd (run_ops [(quiet 0, Mark_published 1 ''relay-1'' 0)] demo_orders))"
  by (rule outbox_keeps_orders) (simp_all add: demo_orders_ok quiet_def)

end
