(* ===== verification/Projector.thy ===== *)
theory Projector
  imports Admission Mq Sql
begin

text \<open>
  The result projector (\<open>internal/seckill/resultprojector/projector.go\<close>): it consumes \<open>order.created\<close> events and
  marks the queued result of an asynchronous order as succeeded in Redis, with a ledger of the projected
  events beside the results of the item.
\<close>

section \<open>The projector\<close>

definition projectSuccessScript ::
  "redis \<Rightarrow> key \<Rightarrow> key \<Rightarrow> argv \<Rightarrow> argv \<Rightarrow> argv \<Rightarrow> argv \<Rightarrow> int result \<times> redis" where
  "projectSuccessScript r k1 k2 a1 a2 a3 a4 =
     (case HGET r k2 a1 of
        Some projected \<Rightarrow> if projected = a2 then (Inr 0, r) else (Inr (- 3), r)
      | None \<Rightarrow>
          (case HGET r k1 a2 of
             None \<Rightarrow>
               (case tonumber (Some a4) of
                  None \<Rightarrow> (Inl (Plain ''ERR value is not an integer or out of range''), HSET r k2 a1 a2)
                | Some retention \<Rightarrow> (Inr 2, PEXPIRE (HSET r k2 a1 a2) k2 retention))
           | Some current \<Rightarrow>
               if \<not> HasPrefix current (a3 @ ''|'') then (Inr (- 2), r)
               else (let r1 = HSET (HSET r k1 a2 (a3 @ ''|SUCCEEDED'')) k2 a1 a2 in
                 if 1 \<le> PTTL r1 k1 then (Inr 1, PEXPIRE r1 k2 (PTTL r1 k1))
                 else (case tonumber (Some a4) of
                     None \<Rightarrow> (Inl (Plain ''ERR value is not an integer or out of range''), r1)
                   | Some retention \<Rightarrow> (Inr 1, PEXPIRE r1 k2 retention)))))"

definition projectionLedgerKey :: "u64 \<Rightarrow> string" where
  "projectionLedgerKey itemID = ''seckill:v05:{item:'' @ FormatUint itemID @ ''}:projected-events''"

text \<open>\<open>New\<close> of the projector: the retention is positive.\<close>

definition New_projector :: "bool \<Rightarrow> int \<Rightarrow> int \<Rightarrow> int result" where
  "New_projector client timeout retention =
     (if \<not> client \<or> timeout \<le> 0 \<or> retention \<le> 0
      then Inl (Plain ''projector Redis client, timeout, and retention are required'') else Inr retention)"

definition Project :: "redis step_env \<Rightarrow> int \<Rightarrow> OrderCreatedV1 \<Rightarrow> redis \<Rightarrow> unit result \<times> redis" where
  "Project c retention event r = (case OrderCreatedV1_Validate event of
       Some e \<Rightarrow> (Inl e, r)
     | None \<Rightarrow>
         if ev_OrderSource event \<noteq> OrderSourceSeckill then (Inr (), r)
         else (case StreamOrderItemID (ev_OrderNo event) of
             None \<Rightarrow> (fail ErrProjectionConflict, r)
           | Some itemID \<Rightarrow>
               (case call c (\<lambda>r. projectSuccessScript r (StreamResultsKey itemID) (projectionLedgerKey itemID)
                   (ev_EventID event) (TrimSpace (ev_OrderNo event)) (FormatUint (ev_UserID event))
                   (FormatInt (Milliseconds retention))) r of
                  (Inl err, r') \<Rightarrow> (Inl (Wrapf ''project seckill result'' err), r')
                | (Inr n, r') \<Rightarrow> if n < 0 then (fail ErrProjectionConflict, r') else (Inr (), r'))))"

definition Projector_handler :: "redis step_env \<Rightarrow> int \<Rightarrow> Message \<Rightarrow> redis \<Rightarrow> goerr option \<times> redis" where
  "Projector_handler c retention message r = (case DecodeOrderCreatedV1 (json_value (m_Value message)) of
       Inl err \<Rightarrow> (Permanent (Some err), r)
     | Inr event \<Rightarrow>
         (case Project c retention event r of
            (Inl err, r') \<Rightarrow> (if errors_Is err ErrProjectionConflict then Permanent (Some err) else Some err, r')
          | (Inr _, r') \<Rightarrow> (None, r')))"

section \<open>Keys\<close>

lemma ledger_not_results [simp]: "StreamResultsKey i \<noteq> projectionLedgerKey j" "projectionLedgerKey j \<noteq> StreamResultsKey i"
proof -
  have "rev (StreamResultsKey i) \<noteq> rev (projectionLedgerKey j)" by (simp add: StreamResultsKey_def projectionLedgerKey_def)
  then show "StreamResultsKey i \<noteq> projectionLedgerKey j" "projectionLedgerKey j \<noteq> StreamResultsKey i" by auto
qed

lemma HasPrefix_append [simp]: "HasPrefix (p @ s) p"
  by (simp add: HasPrefix_def)

lemma prefix_owner: "HasPrefix (FormatUint u @ ''|'' @ s) (FormatUint v @ ''|'') \<longleftrightarrow> u = v"
proof
  assume p: "HasPrefix (FormatUint u @ ''|'' @ s) (FormatUint v @ ''|'')"
  then have t: "FormatUint u @ CHR ''|'' # s = FormatUint v @ CHR ''|'' # drop (length (FormatUint v @ ''|'')) (FormatUint u @ ''|'' @ s)"
    (is "_ = _ @ _ # ?t")
    using append_take_drop_id [of "length (FormatUint v @ ''|'')" "FormatUint u @ ''|'' @ s"] unfolding HasPrefix_def by simp
  have no: "CHR ''|'' \<notin> set (FormatUint w)" for w
    by (rule nondigit_not_in_FormatUint) (simp add: is_digit_def byte_def)
  have "takeWhile (\<lambda>c. c \<noteq> CHR ''|'') (FormatUint w @ CHR ''|'' # x) = FormatUint w" for w x
    using no [of w] by (subst takeWhile_append2) auto
  from this [of u s] this [of v ?t] have "FormatUint u = FormatUint v" unfolding t by (rule box_equals [rotated]) simp
  then have "ParseUint (FormatUint u) = ParseUint (FormatUint v)" by (rule arg_cong)
  then show "u = v" by simp
qed (simp add: HasPrefix_def)

section \<open>One execution of the script\<close>

definition run_project :: "int \<Rightarrow> u64 \<Rightarrow> OrderCreatedV1 \<Rightarrow> redis \<Rightarrow> int result \<times> redis" where
  "run_project retention itemID event r = projectSuccessScript r (StreamResultsKey itemID) (projectionLedgerKey itemID)
     (ev_EventID event) (TrimSpace (ev_OrderNo event)) (FormatUint (ev_UserID event)) (FormatInt (Milliseconds retention))"

text \<open>A retention of at least a millisecond that fits.\<close>

definition retention_ok :: "int \<Rightarrow> bool" where
  "retention_ok retention \<longleftrightarrow> millisecond \<le> retention \<and> retention \<le> max_i64"

lemma retention_ms:
  assumes "retention_ok retention"
  shows "0 < Milliseconds retention" and "tonumber (Some (FormatInt (Milliseconds retention))) = Some (Milliseconds retention)"
proof -
  have 1: "Milliseconds retention = retention div 1000000" using assms by (simp add: Milliseconds_def retention_ok_def)
  then show "0 < Milliseconds retention" using assms by (simp add: retention_ok_def pos_imp_zdiv_pos_iff)
  have "retention div 1000000 \<le> retention" using assms unfolding retention_ok_def by linarith
  then have "in_i64 (Milliseconds retention)" using 1 assms \<open>0 < Milliseconds retention\<close>
    by (simp add: in_i64_def retention_ok_def max_i64_def)
  then show "tonumber (Some (FormatInt (Milliseconds retention))) = Some (Milliseconds retention)" by simp
qed

text \<open>What the script did, from its answer.\<close>

lemma run_project_cases:
  assumes "retention_ok retention" and "run_project retention itemID event r = (res, r')"
  obtains (known) "HGET r (projectionLedgerKey itemID) (ev_EventID event) = Some (TrimSpace (ev_OrderNo event))" "res = Inr 0" "r' = r"
  | (foreign) p where "HGET r (projectionLedgerKey itemID) (ev_EventID event) = Some p" "p \<noteq> TrimSpace (ev_OrderNo event)" "res = Inr (- 3)" "r' = r"
  | (gone) ttl where "HGET r (projectionLedgerKey itemID) (ev_EventID event) = None"
      "HGET r (StreamResultsKey itemID) (TrimSpace (ev_OrderNo event)) = None" "res = Inr 2" "0 < ttl"
      "r' = PEXPIRE (HSET r (projectionLedgerKey itemID) (ev_EventID event) (TrimSpace (ev_OrderNo event))) (projectionLedgerKey itemID) ttl"
  | (other) current where "HGET r (projectionLedgerKey itemID) (ev_EventID event) = None"
      "HGET r (StreamResultsKey itemID) (TrimSpace (ev_OrderNo event)) = Some current"
      "\<not> HasPrefix current (FormatUint (ev_UserID event) @ ''|'')" "res = Inr (- 2)" "r' = r"
  | (projected) current ttl where "HGET r (projectionLedgerKey itemID) (ev_EventID event) = None"
      "HGET r (StreamResultsKey itemID) (TrimSpace (ev_OrderNo event)) = Some current"
      "HasPrefix current (FormatUint (ev_UserID event) @ ''|'')" "res = Inr 1" "0 < ttl"
      "r' = PEXPIRE (HSET (HSET r (StreamResultsKey itemID) (TrimSpace (ev_OrderNo event)) (FormatUint (ev_UserID event) @ ''|SUCCEEDED''))
         (projectionLedgerKey itemID) (ev_EventID event) (TrimSpace (ev_OrderNo event))) (projectionLedgerKey itemID) ttl"
proof (cases "HGET r (projectionLedgerKey itemID) (ev_EventID event)")
  case (Some p)
  show thesis
  proof (cases "p = TrimSpace (ev_OrderNo event)")
    case True
    with Some assms(2) show thesis by (intro known) (simp_all add: run_project_def projectSuccessScript_def)
  next
    case False
    with Some assms(2) show thesis by (intro foreign [OF Some False]) (simp_all add: run_project_def projectSuccessScript_def)
  qed
next
  case None
  note ms = retention_ms [OF assms(1)]
  show thesis
  proof (cases "HGET r (StreamResultsKey itemID) (TrimSpace (ev_OrderNo event))")
    case none: None
    with None assms(2) ms show thesis
      by (intro gone) (auto simp: run_project_def projectSuccessScript_def)
  next
    case (Some current)
    show thesis
    proof (cases "HasPrefix current (FormatUint (ev_UserID event) @ ''|'')")
      case True
      define r1 where "r1 = HSET (HSET r (StreamResultsKey itemID) (TrimSpace (ev_OrderNo event)) (FormatUint (ev_UserID event) @ ''|SUCCEEDED''))
        (projectionLedgerKey itemID) (ev_EventID event) (TrimSpace (ev_OrderNo event))"
      define ttl where "ttl = (if 1 \<le> PTTL r1 (StreamResultsKey itemID) then PTTL r1 (StreamResultsKey itemID) else Milliseconds retention)"
      have "0 < ttl" using ms(1) by (simp add: ttl_def)
      moreover have "(res, r') = (Inr 1, PEXPIRE r1 (projectionLedgerKey itemID) ttl)"
        using assms(2) None Some True ms(2)
        by (auto simp: run_project_def projectSuccessScript_def r1_def [symmetric] ttl_def Let_def split: if_splits)
      ultimately show thesis using projected [OF None Some True, of ttl] by (simp add: r1_def)
    next
      case False
      with None Some assms(2) show thesis by (intro other) (auto simp: run_project_def projectSuccessScript_def)
    qed
  qed
qed

text \<open>The effect on the hashes: the result of this order and the ledger entry of this event, nothing else.\<close>

lemma run_project_HGET:
  assumes "retention_ok retention" and "run_project retention itemID event r = (res, r')"
    and "(k, f) \<noteq> (projectionLedgerKey itemID, ev_EventID event)"
  shows "HGET r' k f = HGET r k f \<or>
    (k, f) = (StreamResultsKey itemID, TrimSpace (ev_OrderNo event)) \<and> HGET r' k f = Some (FormatUint (ev_UserID event) @ ''|SUCCEEDED'') \<and>
    (\<exists>current. HGET r k f = Some current \<and> HasPrefix current (FormatUint (ev_UserID event) @ ''|''))"
  using assms(1,2)
proof (cases rule: run_project_cases)
  case (projected current ttl)
  then show ?thesis using assms(3) by (auto simp: HGET_HSET)
next
  case (gone ttl)
  then show ?thesis using assms(3) by (auto simp: HGET_HSET)
qed simp_all

lemma run_project_ledger:
  assumes "retention_ok retention" and "run_project retention itemID event r = (Inr n, r')" and "0 \<le> n"
  shows "HGET r' (projectionLedgerKey itemID) (ev_EventID event) = Some (TrimSpace (ev_OrderNo event))"
  using assms(1,2)
proof (cases rule: run_project_cases)
  case (projected current ttl)
  then show ?thesis by (simp add: HGET_HSET)
next
  case (gone ttl)
  then show ?thesis by (simp add: HGET_HSET)
qed (use assms(3) in simp_all)

lemma run_project_again:
  assumes "HGET r (projectionLedgerKey itemID) (ev_EventID event) = Some (TrimSpace (ev_OrderNo event))"
  shows "run_project retention itemID event r = (Inr 0, r)"
  using assms by (simp add: run_project_def projectSuccessScript_def)

section \<open>Projecting an event\<close>

lemma Project_run:
  "Project c retention event r = (case OrderCreatedV1_Validate event of
       Some e \<Rightarrow> (Inl e, r)
     | None \<Rightarrow>
         if ev_OrderSource event \<noteq> OrderSourceSeckill then (Inr (), r)
         else (case StreamOrderItemID (ev_OrderNo event) of
             None \<Rightarrow> (fail ErrProjectionConflict, r)
           | Some itemID \<Rightarrow>
               (case call c (run_project retention itemID event) r of
                  (Inl err, r') \<Rightarrow> (Inl (Wrapf ''project seckill result'' err), r')
                | (Inr n, r') \<Rightarrow> if n < 0 then (fail ErrProjectionConflict, r') else (Inr (), r'))))"
proof -
  have eq: "(\<lambda>r. projectSuccessScript r (StreamResultsKey itemID) (projectionLedgerKey itemID) (ev_EventID event)
      (TrimSpace (ev_OrderNo event)) (FormatUint (ev_UserID event)) (FormatInt (Milliseconds retention))) =
    run_project retention itemID event" for itemID
    by (simp add: run_project_def fun_eq_iff)
  show ?thesis by (simp only: Project_def eq)
qed

lemma Project_quiet:
  assumes "retention_ok retention" and "Project (quiet 0) retention event r = (res, r')"
  obtains (rejected) e where "res = Inl e" "r' = r"
  | (normal) "res = Inr ()" "r' = r" "OrderCreatedV1_Validate event = None" "ev_OrderSource event \<noteq> OrderSourceSeckill"
  | (ran) itemID n where "res = Inr ()" "OrderCreatedV1_Validate event = None" "ev_OrderSource event = OrderSourceSeckill"
      "StreamOrderItemID (ev_OrderNo event) = Some itemID" "run_project retention itemID event r = (Inr n, r')" "0 \<le> n"
proof (cases "OrderCreatedV1_Validate event = None \<and> ev_OrderSource event = OrderSourceSeckill \<and> StreamOrderItemID (ev_OrderNo event) \<noteq> None")
  case False
  with assms(2) rejected normal show thesis by (auto simp: Project_run split: option.splits if_splits)
next
  case True
  then obtain itemID where i: "OrderCreatedV1_Validate event = None" "ev_OrderSource event = OrderSourceSeckill"
    "StreamOrderItemID (ev_OrderNo event) = Some itemID" by auto
  obtain x r1 where run: "run_project retention itemID event r = (x, r1)" by fastforce
  show thesis
    using assms(1) run
  proof (cases rule: run_project_cases)
    case known
    with i run assms(2) ran show thesis by (simp add: Project_run)
  next
    case (gone ttl)
    with i run assms(2) ran show thesis by (simp add: Project_run)
  next
    case (projected current ttl)
    with i run assms(2) ran show thesis by (simp add: Project_run)
  qed (use i run assms(2) rejected in \<open>auto simp: Project_run\<close>)
qed

definition projection_request :: "redis env \<Rightarrow> time \<Rightarrow> int \<times> OrderCreatedV1 \<Rightarrow> redis \<Rightarrow> unit result \<times> redis" where
  "projection_request env now = (\<lambda>(retention, event). Project (env 0) retention event)"

lemma Project_effect:
  assumes "undisturbed env"
  shows "snd (Project (env 0) retention event r) = r \<or>
    snd (Project (env 0) retention event r) = snd (Project (quiet 0) retention event r)"
proof (cases "OrderCreatedV1_Validate event = None \<and> ev_OrderSource event = OrderSourceSeckill \<and> StreamOrderItemID (ev_OrderNo event) \<noteq> None")
  case False
  then show ?thesis by (auto simp: Project_run split: option.split)
next
  case True
  then obtain itemID where i: "OrderCreatedV1_Validate event = None" "ev_OrderSource event = OrderSourceSeckill"
    "StreamOrderItemID (ev_OrderNo event) = Some itemID" by auto
  have "snd (Project c retention event r) = snd (call c (run_project retention itemID event) r)" for c
    using i by (auto simp: Project_run split: prod.splits sum.splits)
  moreover have "snd (call (env 0) f r) = r \<or> snd (call (env 0) f r) = snd (f r)" for f :: "redis \<Rightarrow> int result \<times> redis"
    using assms by (simp add: call_def undisturbed_def Let_def split: outcome.splits)
  ultimately show ?thesis by simp
qed

interpretation projections: recoverable "\<lambda>_. True" "\<lambda>_. True" "\<lambda>(retention, event). retention_ok retention" projection_request "\<lambda>_ _. True"
proof (unfold_locales, goal_cases)
  case (1 r i env now)
  then show ?case using Project_effect [of env] by (auto simp: projection_request_def)
next
  case (2 r i now e r')
  obtain retention event where i: "i = (retention, event)" by (cases i)
  with 2 have "retention_ok retention" "Project (quiet 0) retention event r = (Inl e, r')" by (simp_all add: projection_request_def)
  then show ?case by (cases rule: Project_quiet) simp_all
next
  case (3 r i now x r' now')
  obtain retention event where i: "i = (retention, event)" by (cases i)
  with 3 have ok: "retention_ok retention" "Project (quiet 0) retention event r = (Inr x, r')" by (simp_all add: projection_request_def)
  then show ?case
  proof (cases rule: Project_quiet)
    case (ran itemID n)
    have "run_project retention itemID event r' = (Inr 0, r')"
      by (rule run_project_again [OF run_project_ledger [OF ok(1) ran(5,6)]])
    with ran show ?thesis by (simp add: i projection_request_def Project_run)
  qed (simp_all add: i projection_request_def Project_run)
qed simp_all

text \<open>C30: an event is projected once, however often it is delivered. After any number of deliveries in which
  anything may have failed, a clean delivery leaves Redis as a single clean delivery would have, and succeeds
  if that does.\<close>

theorem projection_exactly_once:
  assumes "retention_ok retention" and "\<forall>(env, now :: time) \<in> set tries. undisturbed env"
    and "r1 = foldl (\<lambda>r (env, now). snd (Project (env 0) retention event r)) r tries"
    and "Project (quiet 0) retention event r1 = (res, r2)"
  shows "r2 = snd (Project (quiet 0) retention event r) \<and>
    (fst (Project (quiet 0) retention event r) = Inr () \<longrightarrow> res = Inr ())"
proof -
  have "r1 = foldl (\<lambda>r (env, now). snd (projection_request env now (retention, event) r)) r tries"
    using assms(3) by (simp add: projection_request_def)
  from projections.retry_exactly_once [OF TrueI _ assms(2) this, of 0 res r2] assms(1,4)
  show ?thesis by (auto simp: projection_request_def)
qed

text \<open>The projection shows to the owner and to nobody else. When the result of the order is still recorded for
  the user of the event, the projection succeeds and a query by that user answers \<open>SUCCEEDED\<close>; a query by
  another user answers that there is no such result.\<close>

theorem projection_visible:
  assumes "retention_ok retention" and "OrderCreatedV1_Validate event = None" and "ev_OrderSource event = OrderSourceSeckill"
    and "StreamOrderItemID (ev_OrderNo event) = Some itemID"
    and "HGET r (StreamResultsKey itemID) (TrimSpace (ev_OrderNo event)) = Some (FormatUint (ev_UserID event) @ ''|'' @ status)"
    and "HGET r (projectionLedgerKey itemID) (ev_EventID event) = None" and "g_client g" and "u \<noteq> 0"
    and "Project (quiet 0) retention event r = (res, r')"
  shows "res = Inr () \<and> FindStreamResult (quiet 0) g r' u (ev_OrderNo event) =
    (if u = ev_UserID event then Inr AsyncResultSucceeded else fail ErrAsyncResultNotFound)"
proof -
  obtain x r1 where run: "run_project retention itemID event r = (x, r1)" by fastforce
  have user: "ev_UserID event \<noteq> 0" using assms(2) by (auto simp: OrderCreatedV1_Validate_def split: if_splits)
  have "x = Inr 1 \<and> HGET r1 (StreamResultsKey itemID) (TrimSpace (ev_OrderNo event)) = Some (FormatUint (ev_UserID event) @ ''|SUCCEEDED'')"
    using assms(1) run
  proof (cases rule: run_project_cases)
    case (other current)
    with assms(5) prefix_owner [of "ev_UserID event" status] show ?thesis by simp
  next
    case (projected current ttl)
    then show ?thesis by (simp add: HGET_HSET)
  qed (use assms(5,6) in simp_all)
  then have h: "res = Inr ()" "HGET r' (StreamResultsKey itemID) (TrimSpace (ev_OrderNo event)) = Some (FormatUint (ev_UserID event) @ ''|SUCCEEDED'')"
    using assms(2-4,9) run by (simp_all add: Project_run)
  with FindStreamResult_value [OF assms(4,7,8), of r' "ev_UserID event" AsyncResultSucceeded] show ?thesis by simp
qed

text \<open>A projection never takes over another user's result and never touches another order's. Whatever fails, every
  result is as it was, or it is the result of the event's order, was recorded for the event's user and is
  now \<open>SUCCEEDED\<close>.\<close>

theorem projection_never_overwrites:
  assumes "retention_ok retention" and "interference c = id" and "Project c retention event r = (res, r')"
  shows "HGET r' (StreamResultsKey itemID) orderNo = HGET r (StreamResultsKey itemID) orderNo \<or>
    orderNo = TrimSpace (ev_OrderNo event) \<and> HGET r' (StreamResultsKey itemID) orderNo = Some (FormatUint (ev_UserID event) @ ''|SUCCEEDED'') \<and>
    (\<exists>current. HGET r (StreamResultsKey itemID) orderNo = Some current \<and> HasPrefix current (FormatUint (ev_UserID event) @ ''|''))"
proof (cases "OrderCreatedV1_Validate event = None \<and> ev_OrderSource event = OrderSourceSeckill \<and> StreamOrderItemID (ev_OrderNo event) \<noteq> None")
  case False
  then show ?thesis using assms(3) by (auto simp: Project_run split: option.splits if_splits)
next
  case True
  then obtain i where i: "OrderCreatedV1_Validate event = None" "ev_OrderSource event = OrderSourceSeckill"
    "StreamOrderItemID (ev_OrderNo event) = Some i" by auto
  obtain x r1 where run: "run_project retention i event r = (x, r1)" by fastforce
  have "r' = snd (call c (run_project retention i event) r)"
    using i assms(3) by (auto simp: Project_run split: prod.splits sum.splits if_splits)
  then have "r' = r \<or> r' = r1" using assms(2) run by (auto simp: call_def Let_def split: outcome.splits)
  then show ?thesis
    using run_project_HGET [OF assms(1) run, of "StreamResultsKey itemID" orderNo] by auto
qed

section \<open>The handler under the consumer\<close>

definition Projector_handled :: "Message \<Rightarrow> redis \<Rightarrow> bool" where
  "Projector_handled m r \<longleftrightarrow> (\<exists>event. DecodeOrderCreatedV1 (json_value (m_Value m)) = Inr event \<and>
     (ev_OrderSource event = OrderSourceSeckill \<longrightarrow> (\<exists>itemID. StreamOrderItemID (ev_OrderNo event) = Some itemID \<and>
        HGET r (projectionLedgerKey itemID) (ev_EventID event) = Some (TrimSpace (ev_OrderNo event)))))"

lemma ledger_kept:
  assumes "retention_ok retention" and "run_project retention itemID event r = (res, r')"
    and "HGET r (projectionLedgerKey i) f = Some v"
  shows "HGET r' (projectionLedgerKey i) f = Some v"
proof (cases "(projectionLedgerKey i, f) = (projectionLedgerKey itemID, ev_EventID event)")
  case False
  from run_project_HGET [OF assms(1,2) False] assms(3) show ?thesis by auto
next
  case True
  with assms(3) have "HGET r (projectionLedgerKey itemID) (ev_EventID event) = Some v" by simp
  with assms(1,2) show ?thesis using assms(3) by (cases rule: run_project_cases) simp_all
qed

lemma Project_ledger_kept:
  assumes "retention_ok retention" and "interference c = id" and "HGET r (projectionLedgerKey i) f = Some v"
  shows "HGET (snd (Project c retention event r)) (projectionLedgerKey i) f = Some v"
proof -
  have "HGET (snd (call c (run_project retention itemID event) r)) (projectionLedgerKey i) f = Some v" for itemID
  proof -
    obtain x r1 where run: "run_project retention itemID event r = (x, r1)" by fastforce
    show ?thesis
      using assms(2,3) ledger_kept [OF assms(1) run assms(3)] run
      by (auto simp: call_def Let_def split: outcome.splits)
  qed
  then have kept: "call c (run_project retention itemID event) r = (x, r') \<Longrightarrow> HGET r' (projectionLedgerKey i) f = Some v" for itemID x r'
    by (metis snd_conv)
  show ?thesis
    using assms(3) by (auto simp: Project_run split: option.split prod.split sum.split dest: kept)
qed

lemma Project_done:
  assumes "retention_ok retention" and "interference c = id" and "Project c retention event r = (Inr (), r')"
    and "ev_OrderSource event = OrderSourceSeckill"
  shows "\<exists>itemID. StreamOrderItemID (ev_OrderNo event) = Some itemID \<and>
    HGET r' (projectionLedgerKey itemID) (ev_EventID event) = Some (TrimSpace (ev_OrderNo event))"
proof -
  obtain itemID n where i: "StreamOrderItemID (ev_OrderNo event) = Some itemID" "0 \<le> n"
    "call c (run_project retention itemID event) r = (Inr n, r')"
    using assms(3,4) by (auto simp: Project_run not_less split: option.splits prod.splits sum.splits if_splits)
  have "run_project retention itemID event r = (Inr n, r')" using call_Inr [OF i(3)] assms(2) by simp
  with run_project_ledger [OF assms(1) this i(2)] i(1) show ?thesis by blast
qed

lemma Projector_handler_ok:
  assumes "retention_ok retention" and "\<And>m. interference (c m) = id"
  shows "handler_ok Projector_handled (\<lambda>m. Projector_handler (c m) retention m)"
  unfolding handler_ok_def
proof (intro conjI allI impI)
  fix m :: Message and r r' :: redis assume "Projector_handler (c m) retention m r = (None, r')"
  then obtain event where e: "DecodeOrderCreatedV1 (json_value (m_Value m)) = Inr event" "Project (c m) retention event r = (Inr (), r')"
    by (auto simp: Projector_handler_def Permanent_def split: prod.splits sum.splits if_splits)
  with Project_done [OF assms(1,2) e(2)] show "Projector_handled m r'" by (auto simp: Projector_handled_def)
next
  fix m m' :: Message and r :: redis assume "Projector_handled m r"
  moreover have "snd (Projector_handler (c m') retention m' r) = r \<or>
      (\<exists>event. snd (Projector_handler (c m') retention m' r) = snd (Project (c m') retention event r))"
    by (auto simp: Projector_handler_def split: prod.splits sum.splits) (metis snd_conv)+
  ultimately show "Projector_handled m (snd (Projector_handler (c m') retention m' r))"
    using Project_ledger_kept [OF assms] by (auto simp: Projector_handled_def)
qed

section \<open>Witnesses\<close>

definition demo_seckill_event :: OrderCreatedV1 where
  "demo_seckill_event = \<lparr>ev_EventID = ''order.created.v1:T1500-42-0102030405060708'', ev_EventType = ''order.created'', ev_SchemaVersion = 1,
     ev_OrderNo = ''T1500-42-0102030405060708'', ev_UserID = 5, ev_OrderSource = ''SECKILL'', ev_TotalAmountCent = 9900, ev_CreatedAtMS = 1500\<rparr>"

definition demo_queued :: redis where
  "demo_queued = HSET empty_redis (StreamResultsKey 42) ''T1500-42-0102030405060708'' (FormatUint 5 @ ''|QUEUED'')"

lemma demo_seckill_event_valid: "OrderCreatedV1_Validate demo_seckill_event = None"
  by (simp add: OrderCreatedV1_Validate_def demo_seckill_event_def StableEventID_def byte_def)

lemma demo_event_item: "StreamOrderItemID (ev_OrderNo demo_seckill_event) = Some 42"
  by (simp add: demo_seckill_event_def demo_stream_number)

lemma demo_queued_result:
  "HGET demo_queued (StreamResultsKey 42) (TrimSpace (ev_OrderNo demo_seckill_event)) = Some (FormatUint (ev_UserID demo_seckill_event) @ ''|'' @ ''QUEUED'')"
  "HGET demo_queued (projectionLedgerKey 42) (ev_EventID demo_seckill_event) = None"
  by (simp_all add: demo_queued_def demo_seckill_event_def HGET_HSET byte_def)

lemma day_ok: "retention_ok (24 * 3600 * second)"
  by (simp add: retention_ok_def max_i64_def)

theorem projection_visible_witness:
  "\<exists>r'. Project (quiet 0) (24 * 3600 * second) demo_seckill_event demo_queued = (Inr (), r') \<and>
    FindStreamResult (quiet 0) demo_gate r' 5 ''T1500-42-0102030405060708'' = Inr AsyncResultSucceeded \<and>
    FindStreamResult (quiet 0) demo_gate r' 6 ''T1500-42-0102030405060708'' = fail ErrAsyncResultNotFound"
proof -
  obtain res r' where p: "Project (quiet 0) (24 * 3600 * second) demo_seckill_event demo_queued = (res, r')" by fastforce
  have src: "ev_OrderSource demo_seckill_event = OrderSourceSeckill" and g: "g_client demo_gate"
    by (simp_all add: demo_seckill_event_def demo_gate_def)
  note v = projection_visible [OF day_ok demo_seckill_event_valid src demo_event_item demo_queued_result g _ p]
  from v [of 5] v [of 6] p show ?thesis by (simp add: demo_seckill_event_def)
qed

theorem projection_exactly_once_witness:
  "\<exists>res r2. Project (quiet 0) (24 * 3600 * second) demo_seckill_event
      (foldl (\<lambda>r (env, now :: time). snd (Project (env 0) (24 * 3600 * second) demo_seckill_event r)) demo_queued
        [(\<lambda>_ :: nat. \<lparr>interference = id, outcome_of = Lost_after (Sentinel Context_DeadlineExceeded)\<rparr>, 0)]) = (res, r2) \<and>
    r2 = snd (Project (quiet 0) (24 * 3600 * second) demo_seckill_event demo_queued)"
proof -
  let ?tries = "[(\<lambda>_ :: nat. \<lparr>interference = (id :: redis \<Rightarrow> redis), outcome_of = Lost_after (Sentinel Context_DeadlineExceeded)\<rparr>, 0 :: time)]"
  obtain res r2 where p: "Project (quiet 0) (24 * 3600 * second) demo_seckill_event
      (foldl (\<lambda>r (env, now :: time). snd (Project (env 0) (24 * 3600 * second) demo_seckill_event r)) demo_queued ?tries) = (res, r2)"
    by fastforce
  have "\<forall>(env, now :: time) \<in> set ?tries. undisturbed env" by (simp add: undisturbed_def)
  from projection_exactly_once [OF day_ok this refl p]
  have "r2 = snd (Project (quiet 0) (24 * 3600 * second) demo_seckill_event demo_queued)" by (rule conjunct1)
  then show ?thesis by (intro exI [of _ res] exI [of _ r2]) (rule conjI [OF p])
qed

theorem projection_never_overwrites_witness:
  "HGET (snd (Project (quiet 0) (24 * 3600 * second) demo_seckill_event demo_queued)) (StreamResultsKey 42) ''another'' =
    HGET demo_queued (StreamResultsKey 42) ''another''"
proof -
  obtain res r' where p: "Project (quiet 0) (24 * 3600 * second) demo_seckill_event demo_queued = (res, r')" by fastforce
  have "interference (quiet 0 :: redis step_env) = id" by (simp add: quiet_def)
  from projection_never_overwrites [OF day_ok this p, of 42 "''another''"] p show ?thesis
    by (simp add: demo_seckill_event_def byte_def)
qed

end
