(* ===== verification/Startup.thy ===== *)
theory Startup
  imports Config Outbox Projector Tokens
begin

text \<open>
  How the processes start (\<open>cmd/*\<close>, with \<open>platform/database\<close>, \<open>platform/cache\<close>, \<open>platform/mq\<close> and \<open>platform/rpc/runtime.go\<close>): they read their
  configuration, validate it, open what they need, and serve until they are stopped. A command is modelled by the error it
  ends with and the trace of what it opened, closed and served; the libraries and the network are a parameter that says what
  fails.
\<close>

section \<open>Traces\<close>

datatype resource = MySQL | RedisConn | KafkaGroup | KafkaPublisher | RPCConn string

datatype trace_event = Opened resource | Closed resource | Serving

type_synonym start_run = "goerr option \<times> trace_event list"

text \<open>
  What the outside answers: whether a resource can be opened, and answers a ping; what becomes of the connection of an RPC
  client; whether the server can be created; what ends the service; and the order in which a map of clients is visited.
\<close>

datatype discovery =
    Connected
  | Refused goerr
  | StartupEnded goerr bool

record machine =
  mc_load :: "goerr option"
  mc_open :: "resource \<Rightarrow> goerr option"
  mc_ping :: "resource \<Rightarrow> goerr option"
  mc_client :: "string \<Rightarrow> discovery"
  mc_server :: "goerr option"
  mc_serve :: "goerr option"
  mc_range :: "(string \<times> RPCClientConfig) list \<Rightarrow> (string \<times> RPCClientConfig) list"

definition range_ok :: "machine \<Rightarrow> bool" where
  "range_ok m \<longleftrightarrow> (\<forall>xs. set (mc_range m xs) = set xs)"

text \<open>The next step after one without an error, a step whose error is wrapped, and the deferred closing of a resource.\<close>

definition andThen :: "start_run \<Rightarrow> start_run \<Rightarrow> start_run" where
  "andThen r k = (case r of (Some e, tr) \<Rightarrow> (Some e, tr) | (None, tr) \<Rightarrow> (fst k, tr @ snd k))"

definition check :: "goerr option \<Rightarrow> start_run" where
  "check e = (e, [])"

definition wrapping :: "string \<Rightarrow> start_run \<Rightarrow> start_run" where
  "wrapping msg r = (map_option (Wrapf msg) (fst r), snd r)"

definition deferClose :: "resource \<Rightarrow> start_run \<Rightarrow> start_run" where
  "deferClose x r = (fst r, snd r @ [Closed x])"

definition of_result :: "'a result \<Rightarrow> goerr option" where
  "of_result r = (case r of Inl e \<Rightarrow> Some e | Inr _ \<Rightarrow> None)"

text \<open>A server that is started returns when it is stopped; the loop of a worker ends with an error or without one.\<close>

definition start_server :: start_run where
  "start_server = (None, [Serving])"

definition serve :: "machine \<Rightarrow> start_run" where
  "serve m = (mc_serve m, [Serving])"

section \<open>Opening\<close>

definition OpenMySQL :: "machine \<Rightarrow> MySQLConfig \<Rightarrow> start_run" where
  "OpenMySQL m c = (case validateMySQLConfig c of
       Some err \<Rightarrow> (Some err, [])
     | None \<Rightarrow>
         (case mc_open m MySQL of
            Some err \<Rightarrow> (Some (Wrapf ''open MySQL driver'' err), [])
          | None \<Rightarrow>
              (case mc_ping m MySQL of
                 Some err \<Rightarrow> (Some (Wrapf ''ping MySQL'' err), [Opened MySQL, Closed MySQL])
               | None \<Rightarrow> (None, [Opened MySQL]))))"

definition OpenRedis :: "machine \<Rightarrow> RedisConfig \<Rightarrow> start_run" where
  "OpenRedis m cfg = (case RedisConfig_Validate cfg of
       Some err \<Rightarrow> (Some err, [])
     | None \<Rightarrow>
         (case mc_ping m RedisConn of
            Some err \<Rightarrow> (Some (Wrapf (''connect redis at '' @ rdc_Address cfg) err), [Opened RedisConn, Closed RedisConn])
          | None \<Rightarrow> (None, [Opened RedisConn])))"

definition NewPublisher :: "machine \<Rightarrow> KafkaConfig \<Rightarrow> start_run" where
  "NewPublisher m config = (case ValidatePublisher config of
       Some err \<Rightarrow> (Some err, [])
     | None \<Rightarrow>
         (case mc_open m KafkaPublisher of
            Some err \<Rightarrow> (Some (Wrapf ''create Kafka publisher'' err), [])
          | None \<Rightarrow> (None, [Opened KafkaPublisher])))"

definition NewGroupClient :: "machine \<Rightarrow> KafkaConfig \<Rightarrow> start_run" where
  "NewGroupClient m config = (case ValidateConsumer config of
       Some err \<Rightarrow> (Some err, [])
     | None \<Rightarrow>
         (case mc_open m KafkaGroup of
            Some err \<Rightarrow> (Some (Wrapf ''create Kafka group client'' err), [])
          | None \<Rightarrow> (None, [Opened KafkaGroup])))"

text \<open>A client that is found after its startup has ended is closed when it comes, if it comes.\<close>

definition NewClient :: "machine \<Rightarrow> string \<Rightarrow> RPCClientConfig \<Rightarrow> start_run" where
  "NewClient m name c = (case RPCClientConfig_Validate c of
       Some err \<Rightarrow> (Some err, [])
     | None \<Rightarrow>
         (case mc_client m name of
            Connected \<Rightarrow> (None, [Opened (RPCConn name)])
          | Refused err \<Rightarrow> (Some err, [])
          | StartupEnded err late \<Rightarrow> (Some (Wrapf ''rpc client discovery'' err),
              if late then [Opened (RPCConn name), Closed (RPCConn name)] else [])))"

definition NewServer :: "machine \<Rightarrow> RPCServerConfig \<Rightarrow> start_run" where
  "NewServer m c = (case RPCServerConfig_Validate c of Some err \<Rightarrow> (Some err, []) | None \<Rightarrow> (mc_server m, []))"

section \<open>The commands\<close>

record rpc_app =
  ap_Server :: RPCServerConfig
  ap_MySQL :: MySQLConfig

record product_app = rpc_app +
  ap_ProductRPC :: RPCClientConfig

record seckill_app = rpc_app +
  ap_QueueRedis :: RedisConfig
  ap_RedisStream :: RedisStreamConfig
  ap_InventoryRPC :: RPCClientConfig

record gateway_app =
  ga_Auth :: AuthConfig
  ga_UserRPC :: RPCClientConfig
  ga_ProductRPC :: RPCClientConfig
  ga_InventoryRPC :: RPCClientConfig
  ga_SeckillRPC :: RPCClientConfig
  ga_OrderRPC :: RPCClientConfig
  ga_NotificationRPC :: RPCClientConfig

record budgetConfig =
  bu_TaskMilliseconds :: int
  bu_InventoryMilliseconds :: int
  bu_OrderMilliseconds :: int

record orchestrator_app =
  os_Redis :: RedisConfig
  os_RedisStream :: RedisStreamConfig
  os_SeckillRPC :: RPCClientConfig
  os_InventoryRPC :: RPCClientConfig
  os_OrderRPC :: RPCClientConfig
  os_Budget :: budgetConfig
  os_Retry :: retryConfig

record kafka_section =
  kf_Brokers :: "string list"
  kf_ClientID :: string
  kf_GroupID :: string
  kf_Topics :: "string list"
  kf_RetryTopic :: string
  kf_DLQTopic :: string
  kf_MaxAttempts :: int
  kf_OperationTimeoutMilliseconds :: int

record relayConfig =
  rl_WorkerID :: string
  rl_Topic :: string
  rl_BatchSize :: int
  rl_LeaseMilliseconds :: int
  rl_PollMilliseconds :: int
  rl_RetryBaseMilliseconds :: int
  rl_RetryMaxMilliseconds :: int

record relay_app =
  ra_MySQL :: MySQLConfig
  ra_Brokers :: "string list"
  ra_ClientID :: string
  ra_OperationTimeoutMilliseconds :: int
  ra_Relay :: relayConfig

record notification_app =
  na_MySQL :: MySQLConfig
  na_Kafka :: kafka_section

record projector_app =
  pa_Redis :: RedisConfig
  pa_Kafka :: kafka_section
  pa_RetentionSeconds :: int

text \<open>The clients of a map are validated in the order in which the map yields them.\<close>

fun validate_clients :: "string \<Rightarrow> (string \<times> RPCClientConfig) list \<Rightarrow> start_run" where
  "validate_clients suffix [] = check None"
| "validate_clients suffix ((name, client) # clients) =
     andThen (wrapping (''validate '' @ name @ suffix) (check (RPCClientConfig_Validate client))) (validate_clients suffix clients)"

text \<open>The RPC services that \<open>log.Fatalf\<close> on an error do not run their deferred calls; the others return it.\<close>

definition plain_rpc_main :: "string \<Rightarrow> machine \<Rightarrow> rpc_app \<Rightarrow> start_run" where
  "plain_rpc_main name m c =
     andThen (check (mc_load m))
     (andThen (wrapping (''validate '' @ name @ ''-rpc config'') (check (RPCServerConfig_Validate (ap_Server c))))
     (andThen (wrapping (''initialize '' @ name @ '' MySQL'') (OpenMySQL m (ap_MySQL c)))
     (andThen (wrapping (''initialize '' @ name @ ''-rpc'') (NewServer m (ap_Server c)))
     (deferClose MySQL start_server))))"

definition user_rpc_main :: "machine \<Rightarrow> rpc_app \<Rightarrow> start_run" where
  "user_rpc_main = plain_rpc_main ''user''"

definition product_rpc_main :: "machine \<Rightarrow> rpc_app \<Rightarrow> start_run" where
  "product_rpc_main = plain_rpc_main ''product''"

definition notification_rpc_main :: "machine \<Rightarrow> rpc_app \<Rightarrow> start_run" where
  "notification_rpc_main = plain_rpc_main ''notification''"

definition inventory_rpc_main :: "machine \<Rightarrow> product_app \<Rightarrow> start_run" where
  "inventory_rpc_main m c =
     andThen (check (mc_load m))
     (andThen (wrapping ''validate inventory-rpc config'' (check (RPCServerConfig_Validate (ap_Server c))))
     (andThen (wrapping ''validate product-rpc client config'' (check (RPCClientConfig_Validate (ap_ProductRPC c))))
     (andThen (wrapping ''initialize inventory MySQL'' (OpenMySQL m (ap_MySQL c)))
     (case wrapping ''initialize product-rpc client'' (NewClient m ''product'' (ap_ProductRPC c)) of
        (Some err, tr) \<Rightarrow> (Some err, tr @ [Closed MySQL])
      | (None, tr) \<Rightarrow> andThen (None, tr)
          (andThen (wrapping ''initialize inventory-rpc'' (NewServer m (ap_Server c))) (deferClose MySQL start_server))))))"

definition order_rpc_run :: "machine \<Rightarrow> product_app \<Rightarrow> start_run" where
  "order_rpc_run m c =
     andThen (wrapping ''load order-rpc config'' (check (mc_load m)))
     (andThen (wrapping ''validate order-rpc server'' (check (RPCServerConfig_Validate (ap_Server c))))
     (andThen (wrapping ''validate product-rpc client'' (check (RPCClientConfig_Validate (ap_ProductRPC c))))
     (andThen (wrapping ''initialize order MySQL'' (OpenMySQL m (ap_MySQL c)))
     (deferClose MySQL
       (andThen (wrapping ''initialize product-rpc client'' (NewClient m ''product'' (ap_ProductRPC c)))
       (andThen (wrapping ''initialize order-rpc'' (NewServer m (ap_Server c)))
       start_server))))))"

definition seckill_rpc_run :: "machine \<Rightarrow> seckill_app \<Rightarrow> start_run" where
  "seckill_rpc_run m c =
     andThen (wrapping ''load seckill-rpc config'' (check (mc_load m)))
     (andThen (wrapping ''validate seckill-rpc server'' (check (RPCServerConfig_Validate (ap_Server c))))
     (andThen (wrapping ''validate seckill-rpc Redis'' (check (RedisConfig_Validate (ap_QueueRedis c))))
     (andThen (wrapping ''validate seckill-rpc Stream'' (check (RedisStreamConfig_Validate (ap_RedisStream c))))
     (andThen (wrapping ''validate inventory-rpc client'' (check (RPCClientConfig_Validate (ap_InventoryRPC c))))
     (andThen (wrapping ''initialize seckill activity MySQL'' (OpenMySQL m (ap_MySQL c)))
     (deferClose MySQL
       (andThen (wrapping ''initialize seckill Redis'' (OpenRedis m (ap_QueueRedis c)))
       (deferClose RedisConn
         (andThen (wrapping ''initialize inventory-rpc client'' (NewClient m ''inventory'' (ap_InventoryRPC c)))
         (case newWithRunner (RedisConfig_OperationTimeout (ap_QueueRedis c)) of
            Inl err \<Rightarrow> (Some err, [])
          | Inr g \<Rightarrow>
              (case SetStreamRetention g (st_Retention (ap_RedisStream c)) of
                 Inl err \<Rightarrow> (Some err, [])
               | Inr g \<Rightarrow>
                   andThen (wrapping ''initialize seckill-rpc'' (NewServer m (ap_Server c))) start_server)))))))))))"

definition gateway_clients :: "gateway_app \<Rightarrow> (string \<times> RPCClientConfig) list" where
  "gateway_clients c = [(''user'', ga_UserRPC c), (''product'', ga_ProductRPC c), (''inventory'', ga_InventoryRPC c),
     (''seckill'', ga_SeckillRPC c), (''order'', ga_OrderRPC c), (''notification'', ga_NotificationRPC c)]"

fun open_clients :: "machine \<Rightarrow> (string \<times> RPCClientConfig) list \<Rightarrow> start_run" where
  "open_clients m [] = check None"
| "open_clients m ((name, client) # clients) =
     andThen (wrapping (''initialize '' @ name @ ''-rpc client'') (NewClient m name client)) (open_clients m clients)"

definition gateway_run :: "machine \<Rightarrow> gateway_app \<Rightarrow> start_run" where
  "gateway_run m c =
     andThen (wrapping ''load gateway config'' (check (mc_load m)))
     (andThen (validate_clients ''-rpc client'' (mc_range m (gateway_clients c)))
     (andThen (wrapping ''initialize access tokens''
        (check (of_result (newTokenManager (au_AccessSecret (ga_Auth c)) (Duration (au_AccessTTLSeconds (ga_Auth c)) second)))))
     (andThen (open_clients m (gateway_clients c))
     (andThen (wrapping ''initialize gateway HTTP server'' (check (mc_server m)))
     start_server))))"

text \<open>The orchestrator: its clients are visited in the order of a map, and each is given a policy of its own.\<close>

definition orchestrator_clients :: "orchestrator_app \<Rightarrow> (string \<times> RPCClientConfig) list" where
  "orchestrator_clients c = [(''seckill'', os_SeckillRPC c), (''inventory'', os_InventoryRPC c), (''order'', os_OrderRPC c)]"

definition processor_budget :: "budgetConfig \<Rightarrow> RPCProcessorConfig" where
  "processor_budget b = \<lparr>TaskTimeout = Duration (bu_TaskMilliseconds b) millisecond,
     InventoryTimeout = Duration (bu_InventoryMilliseconds b) millisecond,
     OrderTimeout = Duration (bu_OrderMilliseconds b) millisecond\<rparr>"

definition orchestrator_run :: "machine \<Rightarrow> orchestrator_app \<Rightarrow> start_run" where
  "orchestrator_run m c =
     andThen (wrapping ''load orchestrator config'' (check (mc_load m)))
     (andThen (check (RedisConfig_Validate (os_Redis c)))
     (andThen (check (RedisStreamConfig_Validate (os_RedisStream c)))
     (andThen (validate_clients ''-rpc'' (mc_range m (orchestrator_clients c)))
     (andThen (OpenRedis m (os_Redis c))
     (deferClose RedisConn
       (andThen (NewClient m ''seckill'' (os_SeckillRPC c))
       (andThen (NewClient m ''inventory'' (os_InventoryRPC c))
       (andThen (NewClient m ''order'' (os_OrderRPC c))
       (andThen (wrapping ''inventory RPC policy'' (check (of_result (newRPCPolicy (os_Retry c)))))
       (andThen (wrapping ''order RPC policy'' (check (of_result (newRPCPolicy (os_Retry c)))))
       (andThen (check (RPCProcessorConfig_Validate (processor_budget (os_Budget c))))
       (andThen (check (of_result (NewRuntime True True True (runtimeConfig (os_RedisStream c)))))
       (serve m)))))))))))))"

text \<open>The relay of the order outbox.\<close>

definition relay_publisher :: "relay_app \<Rightarrow> KafkaConfig" where
  "relay_publisher c = \<lparr>kc_Brokers = ra_Brokers c, kc_ClientID = ra_ClientID c, kc_GroupID = [], kc_Topics = [],
     kc_OperationTimeout = Duration (ra_OperationTimeoutMilliseconds c) millisecond\<rparr>"

definition relay_settings :: "relayConfig \<Rightarrow> relay_config" where
  "relay_settings c = \<lparr>rc_WorkerID = rl_WorkerID c, rc_Topic = rl_Topic c, rc_BatchSize = rl_BatchSize c,
     rc_Lease = Duration (rl_LeaseMilliseconds c) millisecond, rc_Poll = Duration (rl_PollMilliseconds c) millisecond,
     rc_RetryBase = Duration (rl_RetryBaseMilliseconds c) millisecond, rc_RetryMax = Duration (rl_RetryMaxMilliseconds c) millisecond\<rparr>"

definition relay_run :: "machine \<Rightarrow> relay_app \<Rightarrow> start_run" where
  "relay_run m c =
     andThen (wrapping ''load order outbox relay config'' (check (mc_load m)))
     (andThen (NewPublisher m (relay_publisher c))
     (deferClose KafkaPublisher
       (andThen (wrapping ''initialize outbox MySQL'' (OpenMySQL m (ra_MySQL c)))
       (deferClose MySQL
         (andThen (wrapping ''initialize outbox Kafka'' (check (mc_ping m KafkaPublisher)))
         (andThen (check (relay_Validate (relay_settings (ra_Relay c))))
         (serve m)))))))"

text \<open>The two consumers of the order events: each has a group of its own, and a publisher for what it cannot handle.\<close>

definition group_config :: "kafka_section \<Rightarrow> KafkaConfig" where
  "group_config k = \<lparr>kc_Brokers = kf_Brokers k, kc_ClientID = kf_ClientID k, kc_GroupID = kf_GroupID k, kc_Topics = kf_Topics k,
     kc_OperationTimeout = Duration (kf_OperationTimeoutMilliseconds k) millisecond\<rparr>"

definition retry_config :: "kafka_section \<Rightarrow> KafkaConfig" where
  "retry_config k = \<lparr>kc_Brokers = kf_Brokers k, kc_ClientID = kf_ClientID k @ ''-retry'', kc_GroupID = [], kc_Topics = [],
     kc_OperationTimeout = Duration (kf_OperationTimeoutMilliseconds k) millisecond\<rparr>"

definition consumer_config :: "kafka_section \<Rightarrow> ConsumerConfig" where
  "consumer_config k = \<lparr>cc_RetryTopic = kf_RetryTopic k, cc_DLQTopic = kf_DLQTopic k, cc_MaxAttempts = kf_MaxAttempts k\<rparr>"

definition notification_consumer_run :: "machine \<Rightarrow> notification_app \<Rightarrow> start_run" where
  "notification_consumer_run m c =
     andThen (wrapping ''load notification consumer config'' (check (mc_load m)))
     (andThen (NewGroupClient m (group_config (na_Kafka c)))
     (deferClose KafkaGroup
       (andThen (NewPublisher m (retry_config (na_Kafka c)))
       (deferClose KafkaPublisher
         (andThen (OpenMySQL m (na_MySQL c))
         (deferClose MySQL
           (andThen (wrapping ''initialize notification Kafka'' (check (mc_ping m KafkaGroup)))
           (andThen (check (ConsumerConfig_Validate (consumer_config (na_Kafka c))))
           (serve m)))))))))"

definition projector_run :: "machine \<Rightarrow> projector_app \<Rightarrow> start_run" where
  "projector_run m c =
     andThen (wrapping ''load projector config'' (check (mc_load m)))
     (andThen (check (RedisConfig_Validate (pa_Redis c)))
     (andThen (NewGroupClient m (group_config (pa_Kafka c)))
     (deferClose KafkaGroup
       (andThen (NewPublisher m (retry_config (pa_Kafka c)))
       (deferClose KafkaPublisher
         (andThen (OpenRedis m (pa_Redis c))
         (deferClose RedisConn
           (andThen (check (mc_ping m KafkaGroup))
           (andThen (check (of_result (New_projector True (RedisConfig_OperationTimeout (pa_Redis c))
              (Duration (pa_RetentionSeconds c) second))))
           (andThen (check (ConsumerConfig_Validate (consumer_config (pa_Kafka c))))
           (serve m)))))))))))"

section \<open>Nothing is left open\<close>

text \<open>What is open after a trace that started with \<open>S\<close> open.\<close>

fun final :: "resource set \<Rightarrow> trace_event list \<Rightarrow> resource set" where
  "final S [] = S"
| "final S (Opened x # tr) = final (insert x S) tr"
| "final S (Closed x # tr) = final (S - {x}) tr"
| "final S (Serving # tr) = final S tr"

lemma final_append [simp]: "final S (tr @ tr') = final (final S tr) tr'"
  by (induction S tr rule: final.induct) auto

text \<open>A step that leaves at most \<open>X\<close> open beside the connections of clients, when it ends well, and nothing when it fails.\<close>

definition leaves :: "resource set \<Rightarrow> start_run \<Rightarrow> bool" where
  "leaves X r \<longleftrightarrow> (\<forall>S. final S (snd r) \<subseteq> S \<union> range RPCConn \<union> (if fst r = None then X else {}))"

named_theorems tidy

lemma leaves_check [tidy]: "leaves {} (check e)"
  by (simp add: leaves_def check_def)

lemma leaves_serve [tidy]: "leaves {} (serve m)" "leaves {} start_server"
  by (auto simp: leaves_def serve_def start_server_def)

lemma leaves_wrapping [tidy]: "leaves X r \<Longrightarrow> leaves X (wrapping msg r)"
  by (simp add: leaves_def wrapping_def)

lemma leaves_andThen [tidy]:
  assumes "leaves {} r" "leaves X k"
  shows "leaves X (andThen r k)"
proof (cases r)
  case (Pair e tr)
  show ?thesis
  proof (cases e)
    case None
    have "final S tr \<subseteq> S \<union> range RPCConn" for S
      using assms(1) Pair None by (simp add: leaves_def)
    moreover have "final S (snd k) \<subseteq> S \<union> range RPCConn \<union> (if fst k = None then X else {})" for S
      using assms(2) by (simp only: leaves_def)
    ultimately have "final (final S tr) (snd k) \<subseteq> S \<union> range RPCConn \<union> (if fst k = None then X else {})" for S
      by fastforce
    then show ?thesis
      by (simp only: leaves_def andThen_def Pair None split_conv option.case fst_conv snd_conv final_append simp_thms)
  qed (use assms Pair in \<open>auto simp: leaves_def andThen_def\<close>)
qed

lemma leaves_deferred [tidy]:
  assumes "leaves {x} r" "leaves {} k"
  shows "leaves {} (andThen r (deferClose x k))"
proof (cases r)
  case (Pair e tr)
  show ?thesis
  proof (cases e)
    case None
    have "final S tr \<subseteq> S \<union> range RPCConn \<union> {x}" for S
      using assms(1) Pair None by (simp add: leaves_def)
    moreover have "final S (snd k) \<subseteq> S \<union> range RPCConn" for S
      using assms(2) by (simp add: leaves_def)
    ultimately have "final (final S tr) (snd k) - {x} \<subseteq> S \<union> range RPCConn" for S
      by fastforce
    then show ?thesis
      by (simp add: leaves_def andThen_def Pair None deferClose_def)
  qed (use assms Pair in \<open>auto simp: leaves_def andThen_def\<close>)
qed

lemma leaves_open [tidy]:
  "leaves {MySQL} (OpenMySQL m a)" "leaves {RedisConn} (OpenRedis m b)" "leaves {KafkaPublisher} (NewPublisher m d)"
  "leaves {KafkaGroup} (NewGroupClient m d)" "leaves {} (NewClient m n g)" "leaves {} (NewServer m h)"
  by (auto simp: leaves_def OpenMySQL_def OpenRedis_def NewPublisher_def NewGroupClient_def NewClient_def NewServer_def
      split: option.splits discovery.splits)

lemma leaves_clients [tidy]: "leaves {} (validate_clients sx cs)" "leaves {} (open_clients m cs)"
  by (induction cs) (auto intro!: tidy)

section \<open>The processes\<close>

datatype command =
    GatewayAPI gateway_app
  | UserRPC rpc_app
  | ProductRPC rpc_app
  | NotificationRPC rpc_app
  | InventoryRPC product_app
  | OrderRPC product_app
  | SeckillRPC seckill_app
  | SeckillOrchestrator orchestrator_app
  | OrderOutboxRelay relay_app
  | NotificationConsumer notification_app
  | SeckillResultProjector projector_app

fun run_command :: "machine \<Rightarrow> command \<Rightarrow> start_run" where
  "run_command m (GatewayAPI c) = gateway_run m c"
| "run_command m (UserRPC c) = user_rpc_main m c"
| "run_command m (ProductRPC c) = product_rpc_main m c"
| "run_command m (NotificationRPC c) = notification_rpc_main m c"
| "run_command m (InventoryRPC c) = inventory_rpc_main m c"
| "run_command m (OrderRPC c) = order_rpc_run m c"
| "run_command m (SeckillRPC c) = seckill_rpc_run m c"
| "run_command m (SeckillOrchestrator c) = orchestrator_run m c"
| "run_command m (OrderOutboxRelay c) = relay_run m c"
| "run_command m (NotificationConsumer c) = notification_consumer_run m c"
| "run_command m (SeckillResultProjector c) = projector_run m c"

text \<open>The commands that end by returning an error, so that their deferred calls run.\<close>

fun returns_error :: "command \<Rightarrow> bool" where
  "returns_error (UserRPC c) = False"
| "returns_error (ProductRPC c) = False"
| "returns_error (NotificationRPC c) = False"
| "returns_error (InventoryRPC c) = False"
| "returns_error _ = True"

lemma tidy_runs [tidy]:
  "leaves {} (gateway_run m ga)" "leaves {} (order_rpc_run m pr)" "leaves {} (orchestrator_run m oa)"
  "leaves {} (relay_run m ra)" "leaves {} (notification_consumer_run m na)" "leaves {} (projector_run m pa)"
  unfolding gateway_run_def order_rpc_run_def orchestrator_run_def relay_run_def notification_consumer_run_def projector_run_def
  by (intro tidy)+

lemma leaves_match [tidy]:
  "(\<And>x. leaves {} (k x)) \<Longrightarrow> leaves {} (case r of Inl err \<Rightarrow> (Some err, []) | Inr x \<Rightarrow> k x)"
  using leaves_check by (cases r) (simp_all add: check_def)

lemma tidy_seckill_rpc [tidy]: "leaves {} (seckill_rpc_run m c)"
  unfolding seckill_rpc_run_def by (intro tidy)

text \<open>C38: However a command that returns its error ends, with whatever failure at whatever step of its start or after it has
  served, it has closed every database, cache and Kafka client that it opened; only connections of RPC clients may be left to
  the end of the process.
\<close>

theorem nothing_left_open:
  assumes "returns_error c"
  shows "final {} (snd (run_command m c)) \<subseteq> range RPCConn"
proof -
  have "leaves {} (run_command m c)"
    using assms by (cases c) (auto intro: tidy)
  then have "final {} (snd (run_command m c)) \<subseteq> {} \<union> range RPCConn \<union> (if fst (run_command m c) = None then {} else {})"
    unfolding leaves_def by blast
  then show ?thesis by simp
qed

section \<open>A process serves only what it has checked\<close>

named_theorems starting

lemma starting_steps [starting]:
  "Serving \<in> set (snd (andThen r k)) \<longleftrightarrow> Serving \<in> set (snd r) \<or> fst r = None \<and> Serving \<in> set (snd k)"
  "fst (andThen r k) = None \<longleftrightarrow> fst r = None \<and> fst k = None"
  "fst (wrapping msg r) = None \<longleftrightarrow> fst r = None" "snd (wrapping msg r) = snd r"
  "fst (check e) = e" "snd (check e) = []"
  "Serving \<in> set (snd (deferClose x r)) \<longleftrightarrow> Serving \<in> set (snd r)"
  "Serving \<in> set (snd (serve m))" "Serving \<in> set (snd start_server)"
  by (cases r; cases "fst r"; auto simp: andThen_def wrapping_def check_def deferClose_def serve_def start_server_def)+

lemma starting_opens [starting]:
  "fst (OpenMySQL m a) = None \<longleftrightarrow> validateMySQLConfig a = None \<and> mc_open m MySQL = None \<and> mc_ping m MySQL = None"
  "fst (OpenRedis m b) = None \<longleftrightarrow> RedisConfig_Validate b = None \<and> mc_ping m RedisConn = None"
  "fst (NewPublisher m d) = None \<longleftrightarrow> ValidatePublisher d = None \<and> mc_open m KafkaPublisher = None"
  "fst (NewGroupClient m d) = None \<longleftrightarrow> ValidateConsumer d = None \<and> mc_open m KafkaGroup = None"
  "fst (NewClient m n g) = None \<longleftrightarrow> RPCClientConfig_Validate g = None \<and> mc_client m n = Connected"
  "fst (NewServer m h) = None \<longleftrightarrow> RPCServerConfig_Validate h = None \<and> mc_server m = None"
  "Serving \<notin> set (snd (OpenMySQL m a))" "Serving \<notin> set (snd (OpenRedis m b))" "Serving \<notin> set (snd (NewPublisher m d))"
  "Serving \<notin> set (snd (NewGroupClient m d))" "Serving \<notin> set (snd (NewClient m n g))" "Serving \<notin> set (snd (NewServer m h))"
  by (auto simp: OpenMySQL_def OpenRedis_def NewPublisher_def NewGroupClient_def NewClient_def NewServer_def
      split: option.splits discovery.splits if_splits)

lemma starting_clients [starting]:
  "fst (validate_clients sx cs) = None \<longleftrightarrow> (\<forall>(name, c) \<in> set cs. RPCClientConfig_Validate c = None)"
  "fst (open_clients m cs) = None \<longleftrightarrow> (\<forall>(name, c) \<in> set cs. RPCClientConfig_Validate c = None \<and> mc_client m name = Connected)"
  "Serving \<notin> set (snd (validate_clients sx cs))" "Serving \<notin> set (snd (open_clients m cs))"
  by (induction cs) (auto simp: starting)

text \<open>What each command checks of its configuration, what it opens, and what it has answer before it serves.\<close>

definition clients_checked :: "(string \<times> RPCClientConfig) list \<Rightarrow> bool" where
  "clients_checked cs \<longleftrightarrow> (\<forall>(name, c) \<in> set cs. RPCClientConfig_Validate c = None)"

definition server_checked :: "rpc_app \<Rightarrow> bool" where
  "server_checked a \<longleftrightarrow> RPCServerConfig_Validate (ap_Server a) = None \<and> validateMySQLConfig (ap_MySQL a) = None"

definition consumer_checked :: "kafka_section \<Rightarrow> bool" where
  "consumer_checked k \<longleftrightarrow> ValidateConsumer (group_config k) = None \<and> ValidatePublisher (retry_config k) = None \<and>
     ConsumerConfig_Validate (consumer_config k) = None"

fun checked :: "command \<Rightarrow> bool" where
  "checked (GatewayAPI c) \<longleftrightarrow> clients_checked (gateway_clients c) \<and> 32 \<le> length (au_AccessSecret (ga_Auth c)) \<and>
     0 < Duration (au_AccessTTLSeconds (ga_Auth c)) second"
| "checked (UserRPC c) \<longleftrightarrow> server_checked c"
| "checked (ProductRPC c) \<longleftrightarrow> server_checked c"
| "checked (NotificationRPC c) \<longleftrightarrow> server_checked c"
| "checked (InventoryRPC c) \<longleftrightarrow> server_checked (rpc_app.truncate c) \<and> clients_checked [(''product'', ap_ProductRPC c)]"
| "checked (OrderRPC c) \<longleftrightarrow> server_checked (rpc_app.truncate c) \<and> clients_checked [(''product'', ap_ProductRPC c)]"
| "checked (SeckillRPC c) \<longleftrightarrow> server_checked (rpc_app.truncate c) \<and> clients_checked [(''inventory'', ap_InventoryRPC c)] \<and>
     RedisConfig_Validate (ap_QueueRedis c) = None \<and> RedisStreamConfig_Validate (ap_RedisStream c) = None \<and>
     0 < RedisConfig_OperationTimeout (ap_QueueRedis c) \<and> 0 < st_Retention (ap_RedisStream c)"
| "checked (SeckillOrchestrator c) \<longleftrightarrow> clients_checked (orchestrator_clients c) \<and> RedisConfig_Validate (os_Redis c) = None \<and>
     RedisStreamConfig_Validate (os_RedisStream c) = None \<and> RuntimeConfig_Validate (runtimeConfig (os_RedisStream c)) = None \<and>
     of_result (newRPCPolicy (os_Retry c)) = None \<and> RPCProcessorConfig_Validate (processor_budget (os_Budget c)) = None"
| "checked (OrderOutboxRelay c) \<longleftrightarrow> ValidatePublisher (relay_publisher c) = None \<and> validateMySQLConfig (ra_MySQL c) = None \<and>
     relay_Validate (relay_settings (ra_Relay c)) = None"
| "checked (NotificationConsumer c) \<longleftrightarrow> consumer_checked (na_Kafka c) \<and> validateMySQLConfig (na_MySQL c) = None"
| "checked (SeckillResultProjector c) \<longleftrightarrow> consumer_checked (pa_Kafka c) \<and> RedisConfig_Validate (pa_Redis c) = None \<and>
     0 < RedisConfig_OperationTimeout (pa_Redis c) \<and> 0 < Duration (pa_RetentionSeconds c) second"

fun needs :: "command \<Rightarrow> resource set" where
  "needs (GatewayAPI c) = RPCConn ` {''user'', ''product'', ''inventory'', ''seckill'', ''order'', ''notification''}"
| "needs (UserRPC c) = {MySQL}"
| "needs (ProductRPC c) = {MySQL}"
| "needs (NotificationRPC c) = {MySQL}"
| "needs (InventoryRPC c) = {MySQL, RPCConn ''product''}"
| "needs (OrderRPC c) = {MySQL, RPCConn ''product''}"
| "needs (SeckillRPC c) = {MySQL, RedisConn, RPCConn ''inventory''}"
| "needs (SeckillOrchestrator c) = {RedisConn, RPCConn ''seckill'', RPCConn ''inventory'', RPCConn ''order''}"
| "needs (OrderOutboxRelay c) = {KafkaPublisher, MySQL}"
| "needs (NotificationConsumer c) = {KafkaGroup, KafkaPublisher, MySQL}"
| "needs (SeckillResultProjector c) = {KafkaGroup, KafkaPublisher, RedisConn}"

text \<open>Whether a resource comes up: the publisher of the two consumers is created, and is not asked to answer.\<close>

fun comes_up :: "machine \<Rightarrow> command \<Rightarrow> resource \<Rightarrow> bool" where
  "comes_up m c MySQL \<longleftrightarrow> mc_open m MySQL = None \<and> mc_ping m MySQL = None"
| "comes_up m c RedisConn \<longleftrightarrow> mc_ping m RedisConn = None"
| "comes_up m c KafkaGroup \<longleftrightarrow> mc_open m KafkaGroup = None \<and> mc_ping m KafkaGroup = None"
| "comes_up m c KafkaPublisher \<longleftrightarrow> mc_open m KafkaPublisher = None \<and> (KafkaGroup \<notin> needs c \<longrightarrow> mc_ping m KafkaPublisher = None)"
| "comes_up m c (RPCConn name) \<longleftrightarrow> mc_client m name = Connected"

fun is_server :: "command \<Rightarrow> bool" where
  "is_server (SeckillOrchestrator c) = False"
| "is_server (OrderOutboxRelay c) = False"
| "is_server (NotificationConsumer c) = False"
| "is_server (SeckillResultProjector c) = False"
| "is_server _ = True"

definition starts :: "machine \<Rightarrow> command \<Rightarrow> bool" where
  "starts m c \<longleftrightarrow> mc_load m = None \<and> checked c \<and> (\<forall>x \<in> needs c. comes_up m c x) \<and> (is_server c \<longrightarrow> mc_server m = None)"

lemmas start_defs = starts_def server_checked_def clients_checked_def consumer_checked_def rpc_app.truncate_def

lemma gates_made [starting]:
  "of_result (newTokenManager s t) = None \<longleftrightarrow> 32 \<le> length s \<and> 0 < t"
  "of_result (New_projector True t u) = None \<longleftrightarrow> 0 < t \<and> 0 < u"
  "of_result (NewRuntime True True True g) = RuntimeConfig_Validate g"
  by (auto simp: of_result_def newTokenManager_def New_projector_def NewRuntime_def split: option.splits)

lemma plain_serves:
  "Serving \<in> set (snd (plain_rpc_main name m c)) \<longleftrightarrow>
     mc_load m = None \<and> server_checked c \<and> mc_open m MySQL = None \<and> mc_ping m MySQL = None \<and> mc_server m = None"
  by (auto simp: plain_rpc_main_def server_checked_def starting)

lemma inventory_serves: "Serving \<in> set (snd (inventory_rpc_main m c)) \<longleftrightarrow> starts m (InventoryRPC c)"
proof (cases "wrapping ''initialize product-rpc client'' (NewClient m ''product'' (ap_ProductRPC c))")
  case (Pair e tr)
  from Pair have "fst (NewClient m ''product'' (ap_ProductRPC c)) = None \<longleftrightarrow> e = None" "Serving \<notin> set tr"
    using starting_steps(3,4) [of "''initialize product-rpc client''" "NewClient m ''product'' (ap_ProductRPC c)"] by (auto simp: starting)
  then show ?thesis
    unfolding inventory_rpc_main_def Pair by (cases e) (auto simp: starting start_defs)
qed

lemma gateway_serves:
  assumes "range_ok m"
  shows "Serving \<in> set (snd (gateway_run m c)) \<longleftrightarrow> starts m (GatewayAPI c)"
  using assms by (auto simp: gateway_run_def starting start_defs range_ok_def gateway_clients_def)

lemma orchestrator_serves:
  assumes "range_ok m"
  shows "Serving \<in> set (snd (orchestrator_run m c)) \<longleftrightarrow> starts m (SeckillOrchestrator c)"
  using assms by (auto simp: orchestrator_run_def starting start_defs range_ok_def orchestrator_clients_def)

lemma seckill_rpc_serves: "Serving \<in> set (snd (seckill_rpc_run m c)) \<longleftrightarrow> starts m (SeckillRPC c)"
  by (auto simp: seckill_rpc_run_def starting start_defs newWithRunner_def SetStreamRetention_def split: sum.splits if_splits)

lemma workers_serve:
  "Serving \<in> set (snd (order_rpc_run m pr)) \<longleftrightarrow> starts m (OrderRPC pr)"
  "Serving \<in> set (snd (relay_run m ra)) \<longleftrightarrow> starts m (OrderOutboxRelay ra)"
  "Serving \<in> set (snd (notification_consumer_run m na)) \<longleftrightarrow> starts m (NotificationConsumer na)"
  "Serving \<in> set (snd (projector_run m pa)) \<longleftrightarrow> starts m (SeckillResultProjector pa)"
  by (auto simp: order_rpc_run_def relay_run_def notification_consumer_run_def projector_run_def starting start_defs)

text \<open>C37: A command serves exactly when its configuration could be read and passes every check of it, and everything that it needs
  comes up, in whatever order a map of clients is visited; so no process ever serves with a configuration that a check rejects
  or without a database, a cache, a broker or a peer that it needs.
\<close>

theorem serves_only_checked:
  assumes "range_ok m"
  shows "Serving \<in> set (snd (run_command m c)) \<longleftrightarrow> starts m c"
  using assms
  by (cases c) (auto simp: user_rpc_main_def product_rpc_main_def notification_rpc_main_def plain_serves starts_def inventory_serves
      gateway_serves orchestrator_serves seckill_rpc_serves workers_serve)

section \<open>Examples\<close>

definition demo_relay_app :: relay_app where
  "demo_relay_app = \<lparr>ra_MySQL = \<lparr>my_DataSource = ''dsn'', my_MaxOpenConns = 10, my_MaxIdleConns = 5, my_ConnMaxLifetimeSeconds = 300\<rparr>,
     ra_Brokers = [''kafka''], ra_ClientID = ''relay'', ra_OperationTimeoutMilliseconds = 3000,
     ra_Relay = \<lparr>rl_WorkerID = ''w'', rl_Topic = ''orders'', rl_BatchSize = 100, rl_LeaseMilliseconds = 30000, rl_PollMilliseconds = 500,
       rl_RetryBaseMilliseconds = 100, rl_RetryMaxMilliseconds = 1000\<rparr>\<rparr>"

text \<open>A machine on which all is well, and one whose Kafka does not answer.\<close>

definition calm_machine :: machine where
  "calm_machine = \<lparr>mc_load = None, mc_open = (\<lambda>_. None), mc_ping = (\<lambda>_. None), mc_client = (\<lambda>_. Connected), mc_server = None,
     mc_serve = None, mc_range = rev\<rparr>"

definition kafka_down :: machine where
  "kafka_down = calm_machine\<lparr>mc_ping := (\<lambda>x. if x = KafkaPublisher then Some (Plain ''unable to dial'') else None)\<rparr>"

lemma demo_relay_checked:
  "ValidatePublisher (relay_publisher demo_relay_app) = None" "validateMySQLConfig (ra_MySQL demo_relay_app) = None"
  "relay_Validate (relay_settings (ra_Relay demo_relay_app)) = None"
  by (simp_all add: demo_relay_app_def ValidatePublisher_def relay_publisher_def validateMySQLConfig_def relay_Validate_def
      relay_settings_def Duration_def wrap_i64_def byte_def)

lemma demo_relay_runs:
  "snd (run_command kafka_down (OrderOutboxRelay demo_relay_app)) =
     [Opened KafkaPublisher, Opened MySQL, Closed MySQL, Closed KafkaPublisher]"
  "snd (run_command calm_machine (OrderOutboxRelay demo_relay_app)) =
     [Opened KafkaPublisher, Opened MySQL, Serving, Closed MySQL, Closed KafkaPublisher]"
  by (simp_all add: relay_run_def NewPublisher_def OpenMySQL_def demo_relay_checked calm_machine_def kafka_down_def
      andThen_def wrapping_def check_def deferClose_def serve_def)

theorem nothing_left_open_witness:
  "final {} (snd (run_command kafka_down (OrderOutboxRelay demo_relay_app))) \<subseteq> range RPCConn \<and>
   snd (run_command kafka_down (OrderOutboxRelay demo_relay_app)) =
     [Opened KafkaPublisher, Opened MySQL, Closed MySQL, Closed KafkaPublisher]"
  using nothing_left_open [of "OrderOutboxRelay demo_relay_app" kafka_down] demo_relay_runs by simp

theorem serves_only_checked_witness:
  "starts calm_machine (OrderOutboxRelay demo_relay_app) \<and> \<not> starts kafka_down (OrderOutboxRelay demo_relay_app)"
proof -
  have "range_ok calm_machine" "range_ok kafka_down"
    by (auto simp: range_ok_def calm_machine_def kafka_down_def)
  then show ?thesis
    using serves_only_checked [of calm_machine "OrderOutboxRelay demo_relay_app"]
      serves_only_checked [of kafka_down "OrderOutboxRelay demo_relay_app"] demo_relay_runs by simp
qed

end
