(* ===== verification/LoadReport.thy ===== *)
theory LoadReport
  imports LoadTest Startup
begin

text \<open>
  The report of the load test (\<open>cmd/loadtest\<close>, \<open>buildReport\<close> and what it calls): how the samples are counted and classified, the
  latencies, the state of the backend, and what of the configuration is recorded. Milliseconds and the throughput are exact
  fractions; the rounding of \<open>float64\<close> is not modelled.
\<close>

section \<open>Counts\<close>

record countReport =
  cn_HTTP200 :: int
  cn_HTTP202 :: int
  cn_Created :: int
  cn_Replayed :: int
  cn_Queued :: int
  cn_FinalSucceeded :: int
  cn_FinalFailed :: int
  cn_FinalPending :: int
  cn_ResultPollError :: int
  cn_OutOfStock :: int
  cn_Unavailable :: int
  cn_InventoryBusy :: int
  cn_CacheNotReady :: int
  cn_TemporaryUnavailable :: int
  cn_ServerTimeout :: int
  cn_ServerRejected :: int
  cn_NetworkError :: int
  cn_OtherError :: int
  cn_ByHTTPStatus :: "(string \<times> int) list"
  cn_ByCode :: "(string \<times> int) list"

definition no_counts :: countReport where
  "no_counts = \<lparr>cn_HTTP200 = 0, cn_HTTP202 = 0, cn_Created = 0, cn_Replayed = 0, cn_Queued = 0, cn_FinalSucceeded = 0,
     cn_FinalFailed = 0, cn_FinalPending = 0, cn_ResultPollError = 0, cn_OutOfStock = 0, cn_Unavailable = 0, cn_InventoryBusy = 0,
     cn_CacheNotReady = 0, cn_TemporaryUnavailable = 0, cn_ServerTimeout = 0, cn_ServerRejected = 0, cn_NetworkError = 0,
     cn_OtherError = 0, cn_ByHTTPStatus = [], cn_ByCode = []\<rparr>"

text \<open>The increment of an entry of a map.\<close>

fun bump :: "string \<Rightarrow> (string \<times> int) list \<Rightarrow> (string \<times> int) list" where
  "bump k [] = [(k, 1)]"
| "bump k ((k', n) # m) = (if k' = k then (k', n + 1) # m else (k', n) # bump k m)"

definition report_code :: "sample \<Rightarrow> string" where
  "report_code item =
     (if sm_Code item = [] \<and> sm_Error item \<noteq> [] \<and> sm_HTTPCode item = 0 then ''CLIENT_ERROR''
      else if sm_Code item = [] \<and> sm_Error item \<noteq> [] then ''INVALID_SERVER_RESPONSE''
      else sm_Code item)"

definition count_final :: "sample \<Rightarrow> countReport \<Rightarrow> countReport" where
  "count_final item c =
     (if sm_Status item = ''SUCCEEDED'' then c\<lparr>cn_FinalSucceeded := cn_FinalSucceeded c + 1\<rparr>
      else if sm_Status item = ''FAILED'' then c\<lparr>cn_FinalFailed := cn_FinalFailed c + 1\<rparr>
      else if sm_Status item = ''QUEUED'' then c\<lparr>cn_FinalPending := cn_FinalPending c + 1\<rparr>
      else c)"

definition count_class :: "sample \<Rightarrow> countReport \<Rightarrow> countReport" where
  "count_class item c =
     (if sm_Error item \<noteq> [] \<and> sm_HTTPCode item = 0 then c\<lparr>cn_NetworkError := cn_NetworkError c + 1\<rparr>
      else if sm_HTTPCode item = 200 then
        (let c = c\<lparr>cn_HTTP200 := cn_HTTP200 c + 1\<rparr> in
         if sm_Replayed item then c\<lparr>cn_Replayed := cn_Replayed c + 1\<rparr> else c\<lparr>cn_Created := cn_Created c + 1\<rparr>)
      else if sm_HTTPCode item = 202 then
        (let c = c\<lparr>cn_HTTP202 := cn_HTTP202 c + 1, cn_Queued := cn_Queued c + 1\<rparr> in
         if sm_Replayed item then c\<lparr>cn_Replayed := cn_Replayed c + 1\<rparr> else c)
      else if sm_Code item = ''OUT_OF_STOCK'' then c\<lparr>cn_OutOfStock := cn_OutOfStock c + 1\<rparr>
      else if sm_Code item = ''SECKILL_UNAVAILABLE'' then c\<lparr>cn_Unavailable := cn_Unavailable c + 1\<rparr>
      else if sm_Code item = ''INVENTORY_BUSY'' then c\<lparr>cn_InventoryBusy := cn_InventoryBusy c + 1\<rparr>
      else if sm_Code item = ''SECKILL_CACHE_NOT_READY'' then c\<lparr>cn_CacheNotReady := cn_CacheNotReady c + 1\<rparr>
      else if sm_Code item = ''SECKILL_TEMPORARILY_UNAVAILABLE'' then c\<lparr>cn_TemporaryUnavailable := cn_TemporaryUnavailable c + 1\<rparr>
      else if sm_Code item = codeServerTimeout then c\<lparr>cn_ServerTimeout := cn_ServerTimeout c + 1\<rparr>
      else if sm_Code item = codeServerRejected then c\<lparr>cn_ServerRejected := cn_ServerRejected c + 1\<rparr>
      else c\<lparr>cn_OtherError := cn_OtherError c + 1\<rparr>)"

text \<open>The body of the loop of \<open>buildReport\<close>, as far as it counts.\<close>

definition count_sample :: "countReport \<Rightarrow> sample \<Rightarrow> countReport" where
  "count_sample c0 item =
     (let c = c0\<lparr>cn_ByHTTPStatus := bump (FormatInt (sm_HTTPCode item)) (cn_ByHTTPStatus c0)\<rparr>;
          c = c\<lparr>cn_ByCode := bump (report_code item) (cn_ByCode c)\<rparr>;
          c = count_final item c;
          c = (if sm_ResultError item \<noteq> [] then c\<lparr>cn_ResultPollError := cn_ResultPollError c + 1\<rparr> else c)
      in count_class item c)"

section \<open>Latencies\<close>

text \<open>Nearest rank; the arithmetic is that of \<open>int\<close>, and the lists are far from its limits.\<close>

definition percentile :: "int list \<Rightarrow> int \<Rightarrow> int" where
  "percentile latencies percentage =
     (if latencies = [] then 0
      else
        (let index = go_div (int (length latencies) * percentage + 99) 100 - 1;
             index = (if index < 0 then 0 else index);
             index = (if int (length latencies) \<le> index then int (length latencies) - 1 else index)
         in latencies ! nat index))"

record latencyReport =
  lr_MinMS :: rat
  lr_AvgMS :: rat
  lr_P50MS :: rat
  lr_P90MS :: rat
  lr_P95MS :: rat
  lr_P99MS :: rat
  lr_MaxMS :: rat

definition latency_report :: "int list \<Rightarrow> latencyReport" where
  "latency_report durations =
     (let latencies = sort durations; latencyTotal = foldl (\<lambda>a d. wrap_i64 (a + d)) 0 durations in
      if latencies = []
      then \<lparr>lr_MinMS = 0, lr_AvgMS = 0, lr_P50MS = 0, lr_P90MS = 0, lr_P95MS = 0, lr_P99MS = 0, lr_MaxMS = 0\<rparr>
      else \<lparr>lr_MinMS = durationMS (latencies ! 0), lr_AvgMS = durationMS (go_div latencyTotal (int (length latencies))),
        lr_P50MS = durationMS (percentile latencies 50), lr_P90MS = durationMS (percentile latencies 90),
        lr_P95MS = durationMS (percentile latencies 95), lr_P99MS = durationMS (percentile latencies 99),
        lr_MaxMS = durationMS (latencies ! (length latencies - 1))\<rparr>)"

section \<open>The backend and the environment\<close>

record process_config =
  pc_MySQL :: MySQLConfig
  pc_Redis :: RedisConfig
  pc_RedisStream :: RedisStreamConfig
  pc_Auth :: AuthConfig
  pc_Seckill :: SeckillConfig

record serviceConfigSummary =
  sc_StockMode :: string
  sc_AdmissionMode :: string
  sc_MySQLMaxOpenConns :: int
  sc_MySQLMaxIdleConns :: int
  sc_RedisAddress :: string
  sc_RedisDB :: int
  sc_RedisOperationTimeoutMilli :: int
  sc_StreamConsumerConcurrency :: int
  sc_StreamClaimIdleMilli :: int

definition no_summary :: serviceConfigSummary where
  "no_summary = \<lparr>sc_StockMode = [], sc_AdmissionMode = [], sc_MySQLMaxOpenConns = 0, sc_MySQLMaxIdleConns = 0, sc_RedisAddress = [],
     sc_RedisDB = 0, sc_RedisOperationTimeoutMilli = 0, sc_StreamConsumerConcurrency = 0, sc_StreamClaimIdleMilli = 0\<rparr>"

text \<open>The summary of \<open>collectEnvironment\<close>, from the configuration file if it can be loaded.\<close>

definition config_summary :: "process_config result \<Rightarrow> serviceConfigSummary" where
  "config_summary loaded = (case loaded of
       Inl _ \<Rightarrow> no_summary
     | Inr cfg \<Rightarrow> \<lparr>sc_StockMode = sk_StockMode (pc_Seckill cfg), sc_AdmissionMode = sk_AdmissionMode (pc_Seckill cfg),
         sc_MySQLMaxOpenConns = my_MaxOpenConns (pc_MySQL cfg), sc_MySQLMaxIdleConns = my_MaxIdleConns (pc_MySQL cfg),
         sc_RedisAddress = rdc_Address (pc_Redis cfg), sc_RedisDB = rdc_DB (pc_Redis cfg),
         sc_RedisOperationTimeoutMilli = rdc_OperationTimeoutMilliseconds (pc_Redis cfg),
         sc_StreamConsumerConcurrency = st_ConsumerConcurrency (pc_RedisStream cfg),
         sc_StreamClaimIdleMilli = st_ClaimIdleMilliseconds (pc_RedisStream cfg)\<rparr>)"

record backendReport =
  br_MySQL :: "(int \<times> int \<times> int) option"
  br_Redis :: "ItemConsistencyState option"
  br_PurchaseCallsAvailable :: bool
  br_ErrorCategories :: "string list"

definition mysql_part :: "machine \<Rightarrow> shop step_env \<Rightarrow> MySQLConfig \<Rightarrow> u64 \<Rightarrow> shop \<Rightarrow> (int \<times> int \<times> int) option \<times> string list" where
  "mysql_part m c cfg itemID d = (case fst (OpenMySQL m cfg) of
       Some _ \<Rightarrow> (None, [''mysql_open_failed''])
     | None \<Rightarrow> (case fst (InspectItemState c itemID d) of
          Inl _ \<Rightarrow> (None, [''mysql_read_failed''])
        | Inr state \<Rightarrow> (Some state, [])))"

definition redis_part :: "machine \<Rightarrow> redis env \<Rightarrow> RedisConfig \<Rightarrow> u64 \<Rightarrow> redis \<Rightarrow> ItemConsistencyState option \<times> string list" where
  "redis_part m env cfg itemID r = (case fst (OpenRedis m cfg) of
       Some _ \<Rightarrow> (None, [''redis_open_failed''])
     | None \<Rightarrow> (case newWithRunner (RedisConfig_OperationTimeout cfg) of
          Inl _ \<Rightarrow> (None, [''redis_inspector_failed''])
        | Inr g \<Rightarrow> (case InspectItem env (g\<lparr>g_client := True\<rparr>) r itemID of
             Inl _ \<Rightarrow> (None, [''redis_read_failed''])
           | Inr state \<Rightarrow> (Some state, []))))"

definition collectBackendState ::
  "machine \<Rightarrow> shop step_env \<Rightarrow> redis env \<Rightarrow> process_config result \<Rightarrow> u64 \<Rightarrow> shop \<Rightarrow> redis \<Rightarrow> backendReport" where
  "collectBackendState m c env loaded itemID d r = (case loaded of
       Inl _ \<Rightarrow> \<lparr>br_MySQL = None, br_Redis = None, br_PurchaseCallsAvailable = False, br_ErrorCategories = [''config_load_failed'']\<rparr>
     | Inr cfg \<Rightarrow>
         (case mysql_part m c (pc_MySQL cfg) itemID d of
            (mysql, errs) \<Rightarrow>
              (case redis_part m env (pc_Redis cfg) itemID r of
                 (cache, errs') \<Rightarrow> \<lparr>br_MySQL = mysql, br_Redis = cache, br_PurchaseCallsAvailable = False,
                   br_ErrorCategories = errs @ errs'\<rparr>)))"

section \<open>The report\<close>

text \<open>What \<open>buildReport\<close> computes; the other fields are copies of the options and of the environment.\<close>

record load_report =
  lp_ItemID :: u64
  lp_SetupDurationMS :: rat
  lp_BenchmarkDurationMS :: rat
  lp_ThroughputQPS :: rat
  lp_Counts :: countReport
  lp_Latency :: latencyReport
  lp_Samples :: "sample list"

definition buildReport :: "u64 \<Rightarrow> sample list \<Rightarrow> int \<Rightarrow> int \<Rightarrow> load_report" where
  "buildReport itemID samples setupDuration elapsed =
     \<lparr>lp_ItemID = itemID, lp_SetupDurationMS = durationMS setupDuration, lp_BenchmarkDurationMS = durationMS elapsed,
       lp_ThroughputQPS = (if 0 < elapsed then of_nat (length samples) / (of_int elapsed / of_int second) else 0),
       lp_Counts = foldl count_sample no_counts samples,
       lp_Latency = latency_report (map sm_Duration samples), lp_Samples = samples\<rparr>"

section \<open>The counts are a partition\<close>

text \<open>The classes of the report, in the order of the cases; \<open>replayed_ok\<close> is the part of \<open>Replayed\<close> that answers with 200.\<close>

definition tally :: "('a \<Rightarrow> bool) \<Rightarrow> 'a list \<Rightarrow> int" where
  "tally P xs = int (length (filter P xs))"

lemma tally_simps [simp]:
  "tally P [] = 0" "tally P (xs @ ys) = tally P xs + tally P ys" "tally P [x] = (if P x then 1 else 0)" "tally (\<lambda>_. True) xs = int (length xs)"
  by (simp_all add: tally_def)

lemma tally_cong: "(\<And>x. x \<in> set xs \<Longrightarrow> P x \<longleftrightarrow> Q x) \<Longrightarrow> tally P xs = tally Q xs"
  by (simp add: tally_def cong: filter_cong)

definition count_of :: "string \<Rightarrow> (string \<times> int) list \<Rightarrow> int" where
  "count_of k m = (case map_of m k of None \<Rightarrow> 0 | Some n \<Rightarrow> n)"

lemma count_of_bump: "count_of k (bump k' m) = count_of k m + (if k = k' then 1 else 0)"
  by (induction m) (auto simp: count_of_def)

text \<open>The fields that one step of the loop leaves to another.\<close>

lemma count_class_keeps:
  "cn_ByHTTPStatus (count_class s c) = cn_ByHTTPStatus c"
  "cn_ByCode (count_class s c) = cn_ByCode c"
  "cn_FinalSucceeded (count_class s c) = cn_FinalSucceeded c"
  "cn_FinalFailed (count_class s c) = cn_FinalFailed c"
  "cn_FinalPending (count_class s c) = cn_FinalPending c"
  "cn_ResultPollError (count_class s c) = cn_ResultPollError c"
  by (simp_all add: count_class_def Let_def)

lemma count_final_keeps:
  "cn_ByHTTPStatus (count_final s c) = cn_ByHTTPStatus c"
  "cn_ByCode (count_final s c) = cn_ByCode c"
  "cn_ResultPollError (count_final s c) = cn_ResultPollError c"
  "cn_NetworkError (count_final s c) = cn_NetworkError c"
  "cn_HTTP200 (count_final s c) = cn_HTTP200 c"
  "cn_HTTP202 (count_final s c) = cn_HTTP202 c"
  "cn_Queued (count_final s c) = cn_Queued c"
  "cn_Created (count_final s c) = cn_Created c"
  "cn_Replayed (count_final s c) = cn_Replayed c"
  by (simp_all add: count_final_def)

definition network_failure :: "sample \<Rightarrow> bool" where
  "network_failure s \<longleftrightarrow> sm_Error s \<noteq> [] \<and> sm_HTTPCode s = 0"

lemma count_class_counts:
  "cn_NetworkError (count_class s c) = cn_NetworkError c + (if network_failure s then 1 else 0)"
  "cn_HTTP200 (count_class s c) = cn_HTTP200 c + (if sm_HTTPCode s = 200 then 1 else 0)"
  "cn_HTTP202 (count_class s c) = cn_HTTP202 c + (if sm_HTTPCode s = 202 then 1 else 0)"
  "cn_Queued (count_class s c) = cn_Queued c + (if sm_HTTPCode s = 202 then 1 else 0)"
  "cn_Created (count_class s c) = cn_Created c + (if sm_HTTPCode s = 200 \<and> \<not> sm_Replayed s then 1 else 0)"
  "cn_Replayed (count_class s c) = cn_Replayed c + (if sm_HTTPCode s \<in> {200, 202} \<and> sm_Replayed s then 1 else 0)"
  by (simp_all add: count_class_def network_failure_def Let_def)

lemma count_final_counts:
  "cn_FinalSucceeded (count_final s c) = cn_FinalSucceeded c + (if sm_Status s = ''SUCCEEDED'' then 1 else 0)"
  "cn_FinalFailed (count_final s c) = cn_FinalFailed c + (if sm_Status s = ''FAILED'' then 1 else 0)"
  "cn_FinalPending (count_final s c) = cn_FinalPending c + (if sm_Status s = ''QUEUED'' then 1 else 0)"
  by (simp_all add: count_final_def)

lemma count_sample_fields:
  "cn_ByHTTPStatus (count_sample c s) = bump (FormatInt (sm_HTTPCode s)) (cn_ByHTTPStatus c)"
  "cn_ByCode (count_sample c s) = bump (report_code s) (cn_ByCode c)"
  "cn_FinalSucceeded (count_sample c s) = cn_FinalSucceeded c + (if sm_Status s = ''SUCCEEDED'' then 1 else 0)"
  "cn_FinalFailed (count_sample c s) = cn_FinalFailed c + (if sm_Status s = ''FAILED'' then 1 else 0)"
  "cn_FinalPending (count_sample c s) = cn_FinalPending c + (if sm_Status s = ''QUEUED'' then 1 else 0)"
  "cn_ResultPollError (count_sample c s) = cn_ResultPollError c + (if sm_ResultError s \<noteq> [] then 1 else 0)"
  "cn_NetworkError (count_sample c s) = cn_NetworkError c + (if network_failure s then 1 else 0)"
  "cn_HTTP200 (count_sample c s) = cn_HTTP200 c + (if sm_HTTPCode s = 200 then 1 else 0)"
  "cn_HTTP202 (count_sample c s) = cn_HTTP202 c + (if sm_HTTPCode s = 202 then 1 else 0)"
  "cn_Queued (count_sample c s) = cn_Queued c + (if sm_HTTPCode s = 202 then 1 else 0)"
  "cn_Created (count_sample c s) = cn_Created c + (if sm_HTTPCode s = 200 \<and> \<not> sm_Replayed s then 1 else 0)"
  "cn_Replayed (count_sample c s) = cn_Replayed c + (if sm_HTTPCode s \<in> {200, 202} \<and> sm_Replayed s then 1 else 0)"
  by (simp_all add: count_sample_def Let_def count_class_keeps count_final_keeps count_class_counts count_final_counts)

definition refusals :: "countReport \<Rightarrow> int" where
  "refusals c = cn_OutOfStock c + cn_Unavailable c + cn_InventoryBusy c + cn_CacheNotReady c + cn_TemporaryUnavailable c +
     cn_ServerTimeout c + cn_ServerRejected c + cn_OtherError c"

lemma refusals_update [simp]:
  "refusals (c\<lparr>cn_OutOfStock := cn_OutOfStock c + 1\<rparr>) = refusals c + 1"
  "refusals (c\<lparr>cn_Unavailable := cn_Unavailable c + 1\<rparr>) = refusals c + 1"
  "refusals (c\<lparr>cn_InventoryBusy := cn_InventoryBusy c + 1\<rparr>) = refusals c + 1"
  "refusals (c\<lparr>cn_CacheNotReady := cn_CacheNotReady c + 1\<rparr>) = refusals c + 1"
  "refusals (c\<lparr>cn_TemporaryUnavailable := cn_TemporaryUnavailable c + 1\<rparr>) = refusals c + 1"
  "refusals (c\<lparr>cn_ServerTimeout := cn_ServerTimeout c + 1\<rparr>) = refusals c + 1"
  "refusals (c\<lparr>cn_ServerRejected := cn_ServerRejected c + 1\<rparr>) = refusals c + 1"
  "refusals (c\<lparr>cn_OtherError := cn_OtherError c + 1\<rparr>) = refusals c + 1"
  by (simp_all add: refusals_def)

lemma refusals_kept [simp]:
  "refusals (c\<lparr>cn_HTTP200 := a\<rparr>) = refusals c" "refusals (c\<lparr>cn_HTTP202 := a\<rparr>) = refusals c"
  "refusals (c\<lparr>cn_Queued := a\<rparr>) = refusals c" "refusals (c\<lparr>cn_Created := a\<rparr>) = refusals c"
  "refusals (c\<lparr>cn_Replayed := a\<rparr>) = refusals c" "refusals (c\<lparr>cn_NetworkError := a\<rparr>) = refusals c"
  "refusals (c\<lparr>cn_FinalSucceeded := a\<rparr>) = refusals c" "refusals (c\<lparr>cn_FinalFailed := a\<rparr>) = refusals c"
  "refusals (c\<lparr>cn_FinalPending := a\<rparr>) = refusals c" "refusals (c\<lparr>cn_ResultPollError := a\<rparr>) = refusals c"
  "refusals (c\<lparr>cn_ByHTTPStatus := m\<rparr>) = refusals c" "refusals (c\<lparr>cn_ByCode := m\<rparr>) = refusals c"
  by (simp_all add: refusals_def)

lemma count_class_refusals:
  "refusals (count_class s c) = refusals c + (if network_failure s \<or> sm_HTTPCode s = 200 \<or> sm_HTTPCode s = 202 then 0 else 1)"
  unfolding count_class_def network_failure_def Let_def by (simp split: if_split)

lemma count_final_refusals: "refusals (count_final s c) = refusals c"
  by (simp add: count_final_def)

lemma count_sample_refusals:
  "refusals (count_sample c s) =
     refusals c + (if network_failure s \<or> sm_HTTPCode s = 200 \<or> sm_HTTPCode s = 202 then 0 else 1)"
  by (simp add: count_sample_def count_class_refusals count_final_refusals Let_def)

lemma no_counts_zero:
  "cn_FinalSucceeded no_counts = 0" "cn_FinalFailed no_counts = 0" "cn_FinalPending no_counts = 0" "cn_HTTP200 no_counts = 0"
  "cn_HTTP202 no_counts = 0" "cn_Queued no_counts = 0" "cn_Created no_counts = 0" "cn_Replayed no_counts = 0"
  "cn_NetworkError no_counts = 0" "refusals no_counts = 0" "count_of k (cn_ByCode no_counts) = 0"
  "count_of k (cn_ByHTTPStatus no_counts) = 0"
  by (simp_all add: no_counts_def refusals_def count_of_def)

lemma counts_of_samples:
  fixes ss :: "sample list"
  defines "c \<equiv> foldl count_sample no_counts ss"
  shows "cn_FinalSucceeded c = tally (\<lambda>s. sm_Status s = ''SUCCEEDED'') ss" "cn_FinalFailed c = tally (\<lambda>s. sm_Status s = ''FAILED'') ss"
    "cn_FinalPending c = tally (\<lambda>s. sm_Status s = ''QUEUED'') ss" "cn_HTTP200 c = tally (\<lambda>s. sm_HTTPCode s = 200) ss"
    "cn_HTTP202 c = tally (\<lambda>s. sm_HTTPCode s = 202) ss" "cn_Queued c = cn_HTTP202 c"
    "cn_Created c = tally (\<lambda>s. sm_HTTPCode s = 200 \<and> \<not> sm_Replayed s) ss"
    "cn_Replayed c = tally (\<lambda>s. sm_HTTPCode s \<in> {200, 202} \<and> sm_Replayed s) ss"
    "cn_NetworkError c = tally network_failure ss"
    "refusals c = tally (\<lambda>s. \<not> (network_failure s \<or> sm_HTTPCode s = 200 \<or> sm_HTTPCode s = 202)) ss"
    "count_of code (cn_ByCode c) = tally (\<lambda>s. report_code s = code) ss"
    "count_of status (cn_ByHTTPStatus c) = tally (\<lambda>s. FormatInt (sm_HTTPCode s) = status) ss"
  unfolding c_def
  by (induction ss rule: rev_induct)
    (auto simp: count_sample_fields count_sample_refusals count_of_bump no_counts_zero)

text \<open>A bump adds one to the sum of a map.\<close>

lemma sum_bump: "sum_list (map snd (bump k m)) = sum_list (map snd m) + 1"
  by (induction m) auto

lemma sum_of_counts:
  "sum_list (map snd (cn_ByHTTPStatus (foldl count_sample no_counts ss))) = int (length ss)"
  "sum_list (map snd (cn_ByCode (foldl count_sample no_counts ss))) = int (length ss)"
  by (induction ss rule: rev_induct) (simp_all add: count_sample_fields sum_bump no_counts_def)

text \<open>
  Every request of a load test is counted once. The requests without a response, those answered with 200, those accepted with 202 and the
  refusals, each class by its code, add up to the number of samples; the answers with 200 are the created and the repeated orders; and the
  counts by status and by code add up to the same number.
\<close>

theorem report_counts_partition:
  "let c = lp_Counts (buildReport itemID ss setupDuration elapsed) in
    cn_NetworkError c + cn_HTTP200 c + cn_HTTP202 c + (cn_OutOfStock c + cn_Unavailable c + cn_InventoryBusy c + cn_CacheNotReady c +
      cn_TemporaryUnavailable c + cn_ServerTimeout c + cn_ServerRejected c + cn_OtherError c) = int (length ss) \<and>
    cn_HTTP200 c + cn_HTTP202 c = cn_Created c + cn_Replayed c + tally (\<lambda>s. sm_HTTPCode s = 202 \<and> \<not> sm_Replayed s) ss \<and>
    sum_list (map snd (cn_ByHTTPStatus c)) = int (length ss) \<and> sum_list (map snd (cn_ByCode c)) = int (length ss)"
proof -
  have c: "lp_Counts (buildReport itemID ss setupDuration elapsed) = foldl count_sample no_counts ss" by (simp add: buildReport_def)
  have "tally network_failure ss + (tally (\<lambda>s. sm_HTTPCode s = 200) ss + tally (\<lambda>s. sm_HTTPCode s = 202) ss) +
      tally (\<lambda>s. \<not> (network_failure s \<or> sm_HTTPCode s = 200 \<or> sm_HTTPCode s = 202)) ss = int (length ss)"
    by (induction ss) (auto simp: tally_def network_failure_def)
  moreover have "tally (\<lambda>s. sm_HTTPCode s = 200) ss + tally (\<lambda>s. sm_HTTPCode s = 202) ss =
      tally (\<lambda>s. sm_HTTPCode s = 200 \<and> \<not> sm_Replayed s) ss + tally (\<lambda>s. sm_HTTPCode s \<in> {200, 202} \<and> sm_Replayed s) ss +
      tally (\<lambda>s. sm_HTTPCode s = 202 \<and> \<not> sm_Replayed s) ss"
    by (induction ss) (auto simp: tally_def)
  ultimately show ?thesis
    using counts_of_samples [where ss = ss] sum_of_counts [where ss = ss] unfolding c refusals_def Let_def by simp
qed

section \<open>Percentiles\<close>

text \<open>
  The percentile of the report is the nearest rank: it is one of the latencies, at least \<open>p\<close> percent of them are not above it,
  and less than \<open>p\<close> percent are below it.
\<close>

theorem percentile_nearest_rank:
  assumes "ds \<noteq> []" and "1 \<le> p" and "p \<le> 100"
  shows "percentile (sort ds) p \<in> set ds \<and> p * int (length ds) \<le> 100 * tally (\<lambda>d. d \<le> percentile (sort ds) p) ds \<and>
    100 * tally (\<lambda>d. d < percentile (sort ds) p) ds < p * int (length ds)"
proof -
  let ?s = "sort ds" and ?n = "int (length ds)" and ?r = "(int (length ds) * p + 99) div 100"
  have n: "0 < ?n" using assms(1) by simp
  have s: "?s \<noteq> []" using assms(1) by (metis set_empty set_sort)
  have r: "1 \<le> ?r" "?r \<le> ?n" "p * ?n \<le> 100 * ?r" "100 * (?r - 1) < p * ?n"
  proof -
    have np: "1 \<le> ?n * p" using n assms(2) by (simp add: int_one_le_iff_zero_less)
    have npu: "?n * p \<le> ?n * 100" using n assms(3) by simp
    show "1 \<le> ?r" using np by linarith
    show "?r \<le> ?n" using npu by linarith
    show "p * ?n \<le> 100 * ?r" by (simp add: mult.commute [of p])
    show "100 * (?r - 1) < p * ?n" by (simp add: mult.commute [of p])
  qed
  let ?i = "nat (?r - 1)"
  have i: "?i < length ?s" using r by simp
  have "go_div (int (length ?s) * p + 99) 100 = ?r"
    using n assms(2) by (simp add: go_div_pos)
  then have v: "percentile ?s p = ?s ! ?i"
    using r i s by (auto simp: percentile_def Let_def)
  have perm: "tally P ds = tally P ?s" for P
    unfolding tally_def by (metis length_sort filter_sort)
  have "length (filter (\<lambda>d. d < ?s ! ?i) ?s) \<le> ?i"
  proof -
    have "\<not> ?s ! j < ?s ! ?i" if "?i \<le> j" "j < length ?s" for j
      using sorted_nth_mono [of ?s ?i j] that by simp
    then have "filter (\<lambda>d. d < ?s ! ?i) (drop ?i ?s) = []"
      by (auto simp: filter_empty_conv in_set_conv_nth)
    then have "filter (\<lambda>d. d < ?s ! ?i) ?s = filter (\<lambda>d. d < ?s ! ?i) (take ?i ?s)"
      by (metis append.right_neutral append_take_drop_id filter_append)
    then show ?thesis by (metis length_filter_le length_take min.bounded_iff)
  qed
  moreover have "Suc ?i \<le> length (filter (\<lambda>d. d \<le> ?s ! ?i) ?s)"
  proof -
    have "?s ! j \<le> ?s ! ?i" if "j < Suc ?i" for j
      using sorted_nth_mono [of ?s j ?i] that i by simp
    then have "filter (\<lambda>d. d \<le> ?s ! ?i) (take (Suc ?i) ?s) = take (Suc ?i) ?s"
      using i by (auto simp: filter_id_conv in_set_conv_nth)
    then have "length (take (Suc ?i) ?s) \<le> length (filter (\<lambda>d. d \<le> ?s ! ?i) ?s)"
      by (metis append_take_drop_id filter_append le_add1 length_append)
    then show ?thesis using i by simp
  qed
  ultimately have "tally (\<lambda>d. d < ?s ! ?i) ?s \<le> ?r - 1" "?r \<le> tally (\<lambda>d. d \<le> ?s ! ?i) ?s"
    using r(1) unfolding tally_def by linarith+
  moreover have "100 * a < q \<and> q \<le> 100 * b" if "a \<le> k - 1" "k \<le> b" "100 * (k - 1) < q" "q \<le> 100 * k" for a b k q :: int
    using that by auto
  ultimately have "100 * tally (\<lambda>d. d < ?s ! ?i) ds < p * ?n" "p * ?n \<le> 100 * tally (\<lambda>d. d \<le> ?s ! ?i) ds"
    using r(3,4) unfolding perm by blast+
  moreover have "?s ! ?i \<in> set ds" using nth_mem [OF i] by simp
  ultimately show ?thesis unfolding v by blast
qed

section \<open>The asynchronous run is accounted for\<close>

definition order_number :: "order_data \<Rightarrow> string" where
  "order_number d = (if oda_Order_OrderNo d = [] then oda_OrderNo d else oda_Order_OrderNo d)"

text \<open>
  What the service promises about the answer to a purchase: 202 comes with OK and the number of the order, and only then is there
  a state of an order. An answer 202 arrives whole: a body that breaks off after the status is not considered.
\<close>

definition honest_reply :: "http_reply \<Rightarrow> bool" where
  "honest_reply r \<longleftrightarrow>
     (if hb_Status r = 202
      then hb_ReadErr r = None \<and>
        (case decoded (decode_envelope decode_order_data) (hb_Whole r) of
           Inl _ \<Rightarrow> False | Inr (a, d) \<Rightarrow> ai_Code a = ''OK'' \<and> order_number d \<noteq> [])
      else (case decoded (decode_envelope decode_order_data) (hb_Whole r) of
           Inl _ \<Rightarrow> True | Inr (a, d) \<Rightarrow> oda_Status d \<notin> {''QUEUED'', ''SUCCEEDED'', ''FAILED''}))"

definition honest_server :: "'w server \<Rightarrow> u64 \<Rightarrow> bool" where
  "honest_server server itemID \<longleftrightarrow> (\<forall>call w r. hq_Method call = ''POST'' \<longrightarrow>
     hq_Path call = ''/v1/seckill/items/'' @ FormatUint itemID @ ''/orders'' \<longrightarrow> fst (server call w) = Reply r \<longrightarrow> honest_reply r)"

definition has_state :: "sample \<Rightarrow> bool" where
  "has_state s \<longleftrightarrow> sm_Status s \<in> {''QUEUED'', ''SUCCEEDED'', ''FAILED''}"

lemma honest_sample:
  assumes "honest_reply r" and "sm_Status s0 = []" and "sm_Error s0 = []"
  shows "if sm_HTTPCode (sample_of_reply s0 r) = 202 then accepted_order (sample_of_reply s0 r) else \<not> has_state (sample_of_reply s0 r)"
proof (cases "decoded (decode_envelope decode_order_data) (hb_Whole r)")
  case (Inl err)
  then show ?thesis
    using assms by (auto simp: honest_reply_def sample_of_reply_def has_state_def Let_def split: if_splits option.splits)
next
  case (Inr x)
  then obtain a d where "decoded (decode_envelope decode_order_data) (hb_Whole r) = Inr (a, d)" by (cases x) auto
  then show ?thesis
    using assms by (auto simp: honest_reply_def sample_of_reply_def has_state_def accepted_order_def order_number_def Let_def
        split: if_splits option.splits)
qed

lemma executed_sample:
  assumes "honest_server server itemID"
  shows "if sm_HTTPCode (executeRequest server dur i itemID token w) = 202
    then accepted_order (executeRequest server dur i itemID token w) else \<not> has_state (executeRequest server dur i itemID token w)"
proof (cases "fst (server \<lparr>hq_Method = ''POST'', hq_Path = ''/v1/seckill/items/'' @ FormatUint itemID @ ''/orders'', hq_Token = token,
    hq_Body = None\<rparr> w)")
  case (Reply r)
  have "honest_reply r"
    by (rule assms [unfolded honest_server_def, rule_format, OF _ _ Reply]) simp_all
  moreover have "executeRequest server dur i itemID token w = sample_of_reply (new_sample (int i) dur) r"
    unfolding executeRequest_def Reply by simp
  moreover have "sm_Status (new_sample (int i) dur) = []" "sm_Error (new_sample (int i) dur) = []"
    by (simp_all add: new_sample_def)
  ultimately show ?thesis
    using honest_sample [of r "new_sample (int i) dur"] by presburger
qed (simp_all add: executeRequest_def new_sample_def has_state_def)

lemma run_samples:
  assumes "run_requests server opts durations ws itemID tokens = Some ss" and "honest_server server itemID" and "s \<in> set ss"
  shows "if sm_HTTPCode s = 202 then accepted_order s else \<not> has_state s"
proof -
  note made = assms(1) [unfolded run_requests_def map_option_list_total]
  have "Some s \<in> set (map Some ss)" using assms(3) by simp
  then have "\<exists>i token. s = executeRequest server (durations i) i itemID token (ws i)"
    unfolding made [symmetric] by (auto split: if_splits)
  then show ?thesis using executed_sample [OF assms(2)] by auto
qed

lemma stripped_HTTPCode: "stripped s = stripped t \<Longrightarrow> sm_HTTPCode s = sm_HTTPCode t \<and> sm_OrderNo s = sm_OrderNo t"
  by (cases s; cases t) (simp add: stripped_def)

lemma drained_sample:
  assumes "sample_drained answered s s'" and "if sm_HTTPCode s = 202 then accepted_order s else \<not> has_state s"
  shows "sm_HTTPCode s' = sm_HTTPCode s \<and> (has_state s' \<longleftrightarrow> sm_HTTPCode s' = 202) \<and>
    (sm_Status s' \<in> {''SUCCEEDED'', ''FAILED''} \<longrightarrow> answered (sm_OrderNo s') (sm_Status s'))"
proof (cases "accepted_order s")
  case True
  then have "stripped s' = stripped s" "has_state s'" "sm_Status s' \<noteq> ''QUEUED'' \<longrightarrow> answered (sm_OrderNo s) (sm_Status s')"
    using assms(1) by (simp_all add: sample_drained_def has_state_def)
  then show ?thesis using True stripped_HTTPCode [of s' s] by (auto simp: accepted_order_def)
next
  case False
  then have "s' = s" "\<not> has_state s" "sm_HTTPCode s \<noteq> 202" using assms by (auto simp: sample_drained_def split: if_splits)
  then show ?thesis by (auto simp: has_state_def)
qed

lemma tally_states:
  "\<forall>s \<in> set ss. has_state s \<longleftrightarrow> sm_HTTPCode s = 202 \<Longrightarrow>
   tally (\<lambda>s. sm_Status s = ''SUCCEEDED'') ss + tally (\<lambda>s. sm_Status s = ''FAILED'') ss + tally (\<lambda>s. sm_Status s = ''QUEUED'') ss =
   tally (\<lambda>s. sm_HTTPCode s = 202) ss"
proof (induction ss)
  case (Cons s ss)
  then have "has_state s \<longleftrightarrow> sm_HTTPCode s = 202" by simp
  with Cons show ?case by (auto simp: tally_def has_state_def)
qed (simp add: tally_def)

lemma tally_map: "tally (\<lambda>x. P (f x)) xs = tally P (map f xs)"
  by (induction xs) (auto simp: tally_def)

text \<open>C40: A load test of the asynchronous path accounts for every accepted order. Let the service answer purchases with 202 only together
  with an order number, and no other answer with the state of an order; how it answers the polls is left open, and so is the time they take.
  Then the polling ends, and in the report the orders that succeeded, failed and are still pending add up to the accepted requests;
  and no order counts as succeeded or failed unless a poll for its number was answered so.
\<close>

theorem async_run_accounted:
  assumes "honest_server server itemID" and "run_requests server opts durations ws itemID tokens = Some ss"
    and "\<forall>k p. set (de_visit env k p) = set p"
    and "0 < lo_PollInterval opts" "0 \<le> lo_DrainTimeout opts"
    and "sleeps (de_clock env) now (lo_PollInterval opts) (now + lo_DrainTimeout opts)"
    and "nat (lo_DrainTimeout opts div lo_PollInterval opts) + 2 \<le> fuel"
  shows "\<exists>ss'. drainAsync fuel server pe env opts now ss tokens = Some ss' \<and>
    (let c = lp_Counts (buildReport itemID ss' setupDuration elapsed) in
       cn_FinalSucceeded c + cn_FinalFailed c + cn_FinalPending c = cn_Queued c \<and> cn_Queued c = tally (\<lambda>s. sm_HTTPCode s = 202) ss \<and>
       (\<forall>s \<in> set ss'. sm_Status s \<in> {''SUCCEEDED'', ''FAILED''} \<longrightarrow> answers server pe env tokens (sm_OrderNo s) (sm_Status s)))"
proof -
  obtain ss' where ss': "drainAsync fuel server pe env opts now ss tokens = Some ss'"
    using drain_loop_total [OF assms(4-7)] by blast
  then have d: "drained (answers server pe env tokens) opts tokens ss ss'" using drainAsync_drained assms(3) by blast
  have s: "sm_HTTPCode (ss' ! i) = sm_HTTPCode (ss ! i) \<and> (has_state (ss' ! i) \<longleftrightarrow> sm_HTTPCode (ss' ! i) = 202) \<and>
      (sm_Status (ss' ! i) \<in> {''SUCCEEDED'', ''FAILED''} \<longrightarrow> answers server pe env tokens (sm_OrderNo (ss' ! i)) (sm_Status (ss' ! i)))"
    if "i < length ss" for i
    using d that run_samples [OF assms(2,1), of "ss ! i"] by (intro drained_sample) (auto simp: drained_def)
  have len: "length ss' = length ss" using d by (simp add: drained_def)
  have "\<forall>s \<in> set ss'. (has_state s \<longleftrightarrow> sm_HTTPCode s = 202) \<and>
      (sm_Status s \<in> {''SUCCEEDED'', ''FAILED''} \<longrightarrow> answers server pe env tokens (sm_OrderNo s) (sm_Status s))"
    unfolding all_set_conv_all_nth len using s by blast
  moreover have "tally (\<lambda>s. sm_HTTPCode s = 202) ss' = tally (\<lambda>s. sm_HTTPCode s = 202) ss"
  proof -
    have "map sm_HTTPCode ss' = map sm_HTTPCode ss" using s len by (intro nth_equalityI) auto
    then show ?thesis
      using tally_map [of "\<lambda>code. code = 202" sm_HTTPCode ss'] tally_map [of "\<lambda>code. code = 202" sm_HTTPCode ss] by simp
  qed
  ultimately show ?thesis
    using ss' tally_states [of ss'] counts_of_samples [where ss = ss'] by (auto simp: buildReport_def Let_def)
qed

text \<open>
  An answer with 200 whose body cannot be decoded has no known outcome, and the report lists it under
  \<open>INVALID_SERVER_RESPONSE\<close>; it counts all the same among the created orders.
\<close>

lemma undecoded_counts_as_created:
  assumes "hb_Status r = 200" "hb_ReadErr r = None" "decoded (decode_envelope decode_order_data) (hb_Whole r) = Inl err"
  shows "report_code (sample_of_reply (new_sample i dur) r) = ''INVALID_SERVER_RESPONSE''"
    "cn_Created (count_sample c (sample_of_reply (new_sample i dur) r)) = cn_Created c + 1"
  using assms by (simp_all add: sample_of_reply_def new_sample_def report_code_def count_sample_fields Let_def)

section \<open>An example\<close>

text \<open>One unit, two buyers; the order is queued at the first poll and has succeeded at the second.\<close>

definition demo_body :: "json \<Rightarrow> int \<Rightarrow> http_reply" where
  "demo_body j status = \<lparr>hb_Status = status, hb_ReadErr = None, hb_Text = ''{}'', hb_Whole = Inr j, hb_First = Inr j\<rparr>"

definition load_demo_server :: "nat server" where
  "load_demo_server q w =
     (Reply (if hq_Method q = ''GET''
        then demo_body (JObject [(''code'', JString ''OK''),
          (''data'', JObject [(''status'', JString (if w = 0 then ''QUEUED'' else ''SUCCEEDED''))])]) 200
        else if hq_Token q = ''t''
        then demo_body (JObject [(''code'', JString ''OK''), (''data'', JObject [(''order_no'', JString ''A''), (''status'', JString ''QUEUED'')])]) 202
        else demo_body (JObject [(''code'', JString ''OUT_OF_STOCK'')]) 409), w)"

definition demo_options :: options where
  "demo_options = \<lparr>lo_BaseURL = ''http://shop'', lo_Strategy = ''atomic'', lo_Admission = ''redis'', lo_OrderMode = ''async-stream'',
     lo_ConfigFile = ''shop.yaml'', lo_RedisDeployment = ''local'', lo_Scenario = ''unique'', lo_Concurrency = 2, lo_Requests = 2,
     lo_Stock = 1, lo_RequestTimeout = second, lo_DrainTimeout = second, lo_PollInterval = 200 * millisecond, lo_SetupConcurrency = 1,
     lo_AdminEmail = ''a@shop'', lo_AdminPassword = ''p'', lo_UserPassword = ''p'', lo_UserDomain = ''shop'', lo_RunID = ''run'',
     lo_TokensFile = ''tokens'', lo_SKUID = 0, lo_ItemID = 7, lo_Output = ''out.json''\<rparr>"

definition demo_drain :: "nat drain_env" where
  "demo_drain = \<lparr>de_clock = (\<lambda>k. int k * 200 * millisecond), de_visit = (\<lambda>_. rev), de_found = (\<lambda>k _. k)\<rparr>"

definition demo_samples :: "sample list" where
  "demo_samples = map (\<lambda>i. executeRequest load_demo_server 1000 i 7 ([''t'', ''u''] ! i) 0) [0, 1]"

lemma demo_requests: "run_requests load_demo_server demo_options (\<lambda>_. 1000) (\<lambda>_. 0) 7 [''t'', ''u''] = Some demo_samples"
  by (simp add: run_requests_def demo_options_def demo_samples_def token_index_def numeral_2_eq_2)

lemma demo_replies:
  "honest_reply (demo_body (JObject [(''code'', JString ''OK''), (''data'', JObject [(''order_no'', JString ''A''), (''status'', JString ''QUEUED'')])]) 202)"
  "honest_reply (demo_body (JObject [(''code'', JString ''OUT_OF_STOCK'')]) 409)"
  by code_simp+

lemma demo_honest: "honest_server load_demo_server 7"
  using demo_replies by (auto simp: honest_server_def load_demo_server_def)

lemma sample_of_reply_HTTPCode: "sm_HTTPCode (sample_of_reply s0 r) = hb_Status r"
  by (auto simp: sample_of_reply_def Let_def split: option.splits sum.splits)

lemma demo_accepted: "tally (\<lambda>s. sm_HTTPCode s = 202) demo_samples = 1"
  by (simp add: demo_samples_def executeRequest_def load_demo_server_def sample_of_reply_HTTPCode demo_body_def tally_def)

theorem async_run_accounted_witness:
  "\<exists>ss'. drainAsync 7 load_demo_server id demo_drain demo_options 0 demo_samples [''t'', ''u''] = Some ss' \<and>
    (let c = lp_Counts (buildReport 7 ss' 0 second) in cn_FinalSucceeded c + cn_FinalFailed c + cn_FinalPending c = 1)"
proof -
  have "sleeps (de_clock demo_drain) 0 (lo_PollInterval demo_options) (0 + lo_DrainTimeout demo_options)"
    by (simp add: sleeps_def demo_drain_def demo_options_def algebra_simps)
  moreover have "\<forall>k p. set (de_visit demo_drain k p) = set p" by (simp add: demo_drain_def)
  moreover have "0 < lo_PollInterval demo_options" "0 \<le> lo_DrainTimeout demo_options"
    "nat (lo_DrainTimeout demo_options div lo_PollInterval demo_options) + 2 \<le> 7"
    by (simp_all add: demo_options_def)
  ultimately show ?thesis
    using async_run_accounted [OF demo_honest demo_requests, where env = demo_drain and now = 0 and fuel = 7 and pe = id and
        setupDuration = 0 and elapsed = second] demo_accepted by (auto simp: Let_def)
qed

end
