(* ===== verification/Gateway.thy ===== *)
theory Gateway
  imports Http
begin

text \<open>
  The handlers of the gateway (\<open>internal/handler/gateway_rpc.go\<close>, \<open>notification_rpc.go\<close>) over the clients they
  depend on, the mapping of RPC failures to HTTP answers, and the routes with their authentication and
  permission checks. A client is a record of its methods; each acts on the state \<open>'s\<close> of the services.
\<close>

section \<open>Clients\<close>

record 's user_client =
  uc_Register :: "string \<Rightarrow> string \<Rightarrow> 's \<Rightarrow> User result \<times> 's"
  uc_Authenticate :: "string \<Rightarrow> string \<Rightarrow> 's \<Rightarrow> (User \<times> string list) result \<times> 's"
  uc_GetUser :: "u64 \<Rightarrow> 's \<Rightarrow> User result \<times> 's"
  uc_GetUserRoles :: "u64 \<Rightarrow> 's \<Rightarrow> string list result \<times> 's"
  uc_HasPermission :: "u64 \<Rightarrow> string \<Rightarrow> 's \<Rightarrow> bool result \<times> 's"
  uc_ReplaceUserRoles :: "u64 \<Rightarrow> string list \<Rightarrow> 's \<Rightarrow> unit result \<times> 's"

record 's product_client =
  pc_List :: "int \<Rightarrow> int \<Rightarrow> 's \<Rightarrow> ProductPage result \<times> 's"
  pc_Get :: "u64 \<Rightarrow> 's \<Rightarrow> Product result \<times> 's"
  pc_Create :: "CreateInput \<Rightarrow> 's \<Rightarrow> Product result \<times> 's"
  pc_Update :: "u64 \<Rightarrow> string \<Rightarrow> string \<Rightarrow> 's \<Rightarrow> unit result \<times> 's"
  pc_SetStatus :: "u64 \<Rightarrow> nat \<Rightarrow> 's \<Rightarrow> unit result \<times> 's"

record 's order_client =
  oc_Create :: "u64 \<Rightarrow> (u64 \<times> int) list \<Rightarrow> 's \<Rightarrow> Order result \<times> 's"
  oc_Get :: "u64 \<Rightarrow> u64 \<Rightarrow> 's \<Rightarrow> Order result \<times> 's"
  oc_FindSeckill :: "u64 \<Rightarrow> string \<Rightarrow> 's \<Rightarrow> Order result \<times> 's"

record 's inventory_client =
  ic_CreateSeckillItem :: "u64 \<Rightarrow> u64 \<Rightarrow> int \<Rightarrow> 's \<Rightarrow> Item result \<times> 's"

record 's seckill_client =
  zc_CreateActivity :: "CreateActivityInput \<Rightarrow> 's \<Rightarrow> Activity result \<times> 's"
  zc_SetActivityStatus :: "u64 \<Rightarrow> nat \<Rightarrow> 's \<Rightarrow> unit result \<times> 's"
  zc_PreheatActivity :: "u64 \<Rightarrow> 's \<Rightarrow> PreheatResult result \<times> 's"
  zc_Enqueue :: "u64 \<Rightarrow> u64 \<Rightarrow> 's \<Rightarrow> AsyncSubmission result \<times> 's"
  zc_GetProjectedResult :: "u64 \<Rightarrow> string \<Rightarrow> 's \<Rightarrow> string result \<times> 's"

record 's notification_client =
  tc_List :: "u64 \<Rightarrow> int \<Rightarrow> int \<Rightarrow> 's \<Rightarrow> Page result \<times> 's"
  tc_MarkRead :: "u64 \<Rightarrow> u64 \<Rightarrow> 's \<Rightarrow> unit result \<times> 's"

record 's GatewayDependencies =
  gd_Users :: "'s user_client"
  gd_Products :: "'s product_client"
  gd_Orders :: "'s order_client"
  gd_Inventory :: "'s inventory_client"
  gd_Seckill :: "'s seckill_client"
  gd_Notifications :: "'s notification_client"

section \<open>Failures of a dependency\<close>

definition writeRPCError :: "(goerr \<Rightarrow> code) \<Rightarrow> goerr \<Rightarrow> string \<Rightarrow> response" where
  "writeRPCError sc err invalidMessage = (case sc err of
       InvalidArgument \<Rightarrow> invalid invalidMessage
     | NotFound \<Rightarrow> writeError 404 ''NOT_FOUND'' ''resource not found''
     | AlreadyExists \<Rightarrow> writeError 409 ''CONFLICT'' ''request conflict''
     | FailedPrecondition \<Rightarrow> writeError 409 ''CONFLICT'' ''request conflict''
     | Unauthenticated \<Rightarrow> writeError 401 ''UNAUTHENTICATED'' ''authentication failed''
     | PermissionDenied \<Rightarrow> writeError 403 ''PERMISSION_DENIED'' ''permission denied''
     | ResourceExhausted \<Rightarrow> writeError 429 ''RESOURCE_EXHAUSTED'' ''too many requests''
     | DeadlineExceeded \<Rightarrow> writeError 504 ''UPSTREAM_TIMEOUT'' ''upstream service timeout''
     | Unavailable \<Rightarrow> writeError 503 ''UPSTREAM_UNAVAILABLE'' ''upstream service unavailable''
     | _ \<Rightarrow> internal_error)"

text \<open>The end of most handlers: the error gate or the payload.\<close>

definition reply :: "(goerr \<Rightarrow> response) \<Rightarrow> ('a \<Rightarrow> response) \<Rightarrow> 'a result \<times> 's \<Rightarrow> response \<times> 's" where
  "reply bad good x = (case x of (Inl err, s) \<Rightarrow> (bad err, s) | (Inr v, s) \<Rightarrow> (good v, s))"

definition with_user :: "(u64 \<Rightarrow> 's handler) \<Rightarrow> 's handler" where
  "with_user h r s = (case gatewayUserID r of None \<Rightarrow> (unauthenticated, s) | Some userID \<Rightarrow> h userID r s)"

section \<open>Users\<close>

definition gatewayRegister :: "(goerr \<Rightarrow> code) \<Rightarrow> 's user_client \<Rightarrow> 's handler" where
  "gatewayRegister sc client r s = (case hr_Credentials r of
       None \<Rightarrow> (invalid ''invalid request body'', s)
     | Some (email, password) \<Rightarrow>
         reply (\<lambda>err. if sc err = AlreadyExists then writeError 409 ''USER_ALREADY_EXISTS'' ''user already exists''
             else writeRPCError sc err ''invalid email or password'')
           (\<lambda>created. OkJson (RegisteredUserData (u_ID created) (u_Email created) (u_CreatedAt created)))
           (uc_Register client email password s))"

definition gatewayLogin :: "(goerr \<Rightarrow> code) \<Rightarrow> jwt_lib \<Rightarrow> TokenManager \<Rightarrow> time \<Rightarrow> 's user_client \<Rightarrow> 's handler" where
  "gatewayLogin sc J tokens now client r s = (case hr_Credentials r of
       None \<Rightarrow> (invalid ''invalid request body'', s)
     | Some (email, password) \<Rightarrow>
         reply (\<lambda>err. if sc err = Unauthenticated then writeError 401 ''UNAUTHENTICATED'' ''invalid credentials''
             else writeRPCError sc err ''invalid credentials'')
           (\<lambda>(authenticated, roles). case Issue J tokens now (u_ID authenticated) of
               Inl err \<Rightarrow> internal_error
             | Inr tok \<Rightarrow> OkJson (LoginData tok (ExpiresInSeconds tokens)))
           (uc_Authenticate client email password s))"

definition gatewayCurrentUser :: "(goerr \<Rightarrow> code) \<Rightarrow> 's user_client \<Rightarrow> 's handler" where
  "gatewayCurrentUser sc client = with_user (\<lambda>userID r s. case uc_GetUser client userID s of
       (Inl err, s1) \<Rightarrow> (if sc err = NotFound then writeError 401 ''UNAUTHENTICATED'' ''user is not active''
           else writeRPCError sc err ''invalid user'', s1)
     | (Inr current, s1) \<Rightarrow>
         reply (\<lambda>err. writeRPCError sc err ''invalid user'')
           (\<lambda>roles. OkJson (CurrentUserData (u_ID current) (u_Email current) roles)) (uc_GetUserRoles client userID s1))"

definition gatewayRequirePermission :: "(goerr \<Rightarrow> code) \<Rightarrow> 's user_client \<Rightarrow> string \<Rightarrow> 's handler \<Rightarrow> 's handler" where
  "gatewayRequirePermission sc client permission handle = with_user (\<lambda>userID r s. case uc_HasPermission client userID permission s of
       (Inl err, s1) \<Rightarrow> (writeRPCError sc err ''permission check failed'', s1)
     | (Inr allowed, s1) \<Rightarrow>
         if \<not> allowed then (writeError 403 ''PERMISSION_DENIED'' ''permission denied'', s1) else handle r s1)"

definition gatewayReplaceRoles :: "(goerr \<Rightarrow> code) \<Rightarrow> 's user_client \<Rightarrow> 's handler" where
  "gatewayReplaceRoles sc client r s = (case hr_Roles r of
       None \<Rightarrow> (invalid ''invalid role assignment'', s)
     | Some (userID, roles) \<Rightarrow>
         if userID = 0 then (invalid ''invalid role assignment'', s)
         else (case uc_ReplaceUserRoles client userID roles s of
             (Inl err, s1) \<Rightarrow> (writeRPCError sc err ''invalid role assignment'', s1)
           | (Inr _, s1) \<Rightarrow>
               reply (\<lambda>err. writeRPCError sc err ''invalid role assignment'') (\<lambda>roles. OkJson (UserRolesData userID roles))
                 (uc_GetUserRoles client userID s1)))"

section \<open>Products\<close>

text \<open>The defaults of the pagination.\<close>

definition page_of :: "int \<times> int \<Rightarrow> int \<times> int" where
  "page_of p = (if fst p \<le> 0 then 1 else fst p, if snd p \<le> 0 then 20 else if 100 < snd p then 100 else snd p)"

definition gatewayListProducts :: "(goerr \<Rightarrow> code) \<Rightarrow> 's product_client \<Rightarrow> 's handler" where
  "gatewayListProducts sc client r s = (case hr_Page r of
       None \<Rightarrow> (invalid ''invalid pagination'', s)
     | Some p \<Rightarrow>
         reply (\<lambda>err. writeRPCError sc err ''invalid pagination'')
           (\<lambda>page. OkJson (ProductListData (map toProductPayload (pp_Items page)) (pp_Page page) (pp_PageSize page) (pp_Total page)))
           (pc_List client (fst (page_of p)) (snd (page_of p)) s))"

definition gatewayGetProduct :: "(goerr \<Rightarrow> code) \<Rightarrow> 's product_client \<Rightarrow> 's handler" where
  "gatewayGetProduct sc client r s = (case hr_PathID r of
       None \<Rightarrow> (invalid ''invalid product ID'', s)
     | Some productID \<Rightarrow>
         reply (\<lambda>err. writeRPCError sc err ''invalid product'') (\<lambda>found. OkJson (ProductData (toProductPayload found)))
           (pc_Get client productID s))"

definition sku_input :: "skuPayload \<Rightarrow> SKU" where
  "sku_input k = \<lparr>sk_ID = 0, sk_Code = kp_Code k, sk_Name = kp_Name k, sk_PriceCent = kp_PriceCent k, sk_Status = 0\<rparr>"

definition gatewayCreateProduct :: "(goerr \<Rightarrow> code) \<Rightarrow> 's product_client \<Rightarrow> 's handler" where
  "gatewayCreateProduct sc client r s = (case Option.bind (hr_Body r) decode_createProduct of
       None \<Rightarrow> (invalid ''invalid product'', s)
     | Some (name, description, skus) \<Rightarrow>
         reply (\<lambda>err. writeRPCError sc err ''invalid product'') (\<lambda>created. OkJson (ProductData (toProductPayload created)))
           (pc_Create client \<lparr>cp_Name = name, cp_Description = description, cp_SKUs = map sku_input skus\<rparr> s))"

definition gatewayUpdateProduct :: "(goerr \<Rightarrow> code) \<Rightarrow> 's product_client \<Rightarrow> 's handler" where
  "gatewayUpdateProduct sc client r s =
     (case Option.bind (hr_PathID r) (\<lambda>pathID. Option.bind (hr_Body r) (decode_updateProduct pathID)) of
        None \<Rightarrow> (invalid ''invalid product'', s)
      | Some (productID, name, description) \<Rightarrow>
          reply (\<lambda>err. writeRPCError sc err ''invalid product'')
            (\<lambda>_. OkJson (ProductData \<lparr>xp_ID = productID, xp_Name = name, xp_Description = description, xp_Status = 0, xp_SKUs = [],
               xp_CreatedAt = None\<rparr>))
            (pc_Update client productID name description s))"

definition gatewayUpdateProductStatus :: "(goerr \<Rightarrow> code) \<Rightarrow> 's product_client \<Rightarrow> 's handler" where
  "gatewayUpdateProductStatus sc client r s =
     (case Option.bind (hr_PathID r) (\<lambda>pathID. Option.bind (hr_Body r) (decode_updateProductStatus pathID)) of
        None \<Rightarrow> (invalid ''invalid product status'', s)
      | Some (productID, st) \<Rightarrow>
          reply (\<lambda>err. writeRPCError sc err ''invalid product status'')
            (\<lambda>_. OkJson (ProductData \<lparr>xp_ID = productID, xp_Name = [], xp_Description = [], xp_Status = st, xp_SKUs = [],
               xp_CreatedAt = None\<rparr>))
            (pc_SetStatus client productID st s))"

section \<open>Orders\<close>

definition gatewayCreateOrder :: "(goerr \<Rightarrow> code) \<Rightarrow> 's order_client \<Rightarrow> 's handler" where
  "gatewayCreateOrder sc client = with_user (\<lambda>userID r s. case Option.bind (hr_Body r) decode_createOrder of
       None \<Rightarrow> (invalid ''invalid order'', s)
     | Some items \<Rightarrow>
         reply (\<lambda>err. writeRPCError sc err ''invalid order'') (\<lambda>created. OkJson (OrderData (toOrderPayload created)))
           (oc_Create client userID items s))"

definition gatewayGetOrder :: "(goerr \<Rightarrow> code) \<Rightarrow> 's order_client \<Rightarrow> 's handler" where
  "gatewayGetOrder sc client = with_user (\<lambda>userID r s. case hr_PathID r of
       None \<Rightarrow> (invalid ''invalid order ID'', s)
     | Some orderID \<Rightarrow>
         reply (\<lambda>err. writeRPCError sc err ''invalid order'') (\<lambda>found. OkJson (OrderData (toOrderPayload found)))
           (oc_Get client userID orderID s))"

section \<open>Seckill\<close>

text \<open>\<open>parse_time\<close> is \<open>time.Parse\<close> with the layout \<open>RFC3339Nano\<close>.\<close>

definition gatewayCreateActivity :: "(goerr \<Rightarrow> code) \<Rightarrow> (string \<Rightarrow> time option) \<Rightarrow> 's seckill_client \<Rightarrow> 's handler" where
  "gatewayCreateActivity sc parse_time client r s = (case Option.bind (hr_Body r) decode_createActivity of
       None \<Rightarrow> (invalid ''invalid seckill activity'', s)
     | Some (name, startAt, endAt) \<Rightarrow>
         (case (parse_time startAt, parse_time endAt) of
            (Some st, Some en) \<Rightarrow>
              reply (\<lambda>err. writeRPCError sc err ''invalid seckill configuration'')
                (\<lambda>created. OkJson (SeckillActivityData (toSeckillActivityPayload created)))
                (zc_CreateActivity client \<lparr>ca_Name = name, ca_StartAt = st, ca_EndAt = en\<rparr> s)
          | _ \<Rightarrow> (invalid ''invalid seckill activity time'', s)))"

definition gatewayCreateSeckillItem :: "(goerr \<Rightarrow> code) \<Rightarrow> 's inventory_client \<Rightarrow> 's handler" where
  "gatewayCreateSeckillItem sc client r s =
     (case Option.bind (hr_PathID r) (\<lambda>pathID. Option.bind (hr_Body r) (decode_addSeckillItem pathID)) of
        None \<Rightarrow> (invalid ''invalid seckill item'', s)
      | Some (activityID, skuID, stock) \<Rightarrow>
          reply (\<lambda>err. writeRPCError sc err ''invalid seckill item'') (\<lambda>created. OkJson (SeckillItemData (toSeckillItemPayload created)))
            (ic_CreateSeckillItem client activityID skuID stock s))"

definition gatewayUpdateActivityStatus :: "(goerr \<Rightarrow> code) \<Rightarrow> 's seckill_client \<Rightarrow> 's handler" where
  "gatewayUpdateActivityStatus sc client r s =
     (case Option.bind (hr_PathID r) (\<lambda>pathID. Option.bind (hr_Body r) (decode_updateActivityStatus pathID)) of
        None \<Rightarrow> (invalid ''invalid seckill activity status'', s)
      | Some (activityID, st) \<Rightarrow>
          reply (\<lambda>err. writeRPCError sc err ''invalid seckill configuration'')
            (\<lambda>_. OkJson (SeckillActivityData \<lparr>sa_ID = activityID, sa_Name = [], sa_StartAt = None, sa_EndAt = None, sa_Status = st\<rparr>))
            (zc_SetActivityStatus client activityID st s))"

definition gatewayPreheatActivity :: "(goerr \<Rightarrow> code) \<Rightarrow> 's seckill_client \<Rightarrow> 's handler" where
  "gatewayPreheatActivity sc client r s = (case hr_PathID r of
       None \<Rightarrow> (invalid ''invalid seckill activity ID'', s)
     | Some activityID \<Rightarrow>
         reply (\<lambda>err. writeRPCError sc err ''invalid seckill configuration'')
           (\<lambda>x. OkJson (SeckillPreheatData (pr_ActivityID x) (pr_ItemCount x) (pr_EarliestExpireAt x) (pr_LatestExpireAt x)))
           (zc_PreheatActivity client activityID s))"

definition gatewayEnqueue :: "(goerr \<Rightarrow> code) \<Rightarrow> 's seckill_client \<Rightarrow> 's handler" where
  "gatewayEnqueue sc client = with_user (\<lambda>userID r s. case hr_PathID r of
       None \<Rightarrow> (invalid ''invalid seckill item ID'', s)
     | Some itemID \<Rightarrow>
         reply (\<lambda>err. writeRPCError sc err ''invalid seckill purchase'')
           (\<lambda>x. Accepted (QueuedSeckillOrderData (as_OrderNo x) ''QUEUED'' (as_Replayed x))) (zc_Enqueue client userID itemID s))"

definition gatewaySeckillResult :: "(goerr \<Rightarrow> code) \<Rightarrow> 's order_client \<Rightarrow> 's seckill_client \<Rightarrow> 's handler" where
  "gatewaySeckillResult sc orders queue = with_user (\<lambda>userID r s. case hr_PathText r of
       None \<Rightarrow> (invalid ''invalid seckill order number'', s)
     | Some orderNo \<Rightarrow>
         (case oc_FindSeckill orders userID orderNo s of
            (Inr created, s1) \<Rightarrow> (OkJson (SeckillOrderResultData orderNo AsyncResultSucceeded (Some (toOrderPayload created))), s1)
          | (Inl err, s1) \<Rightarrow>
              if sc err \<noteq> NotFound then (writeRPCError sc err ''seckill result unavailable'', s1)
              else reply (\<lambda>err. if sc err = NotFound then writeError 404 ''SECKILL_ORDER_NOT_FOUND'' ''seckill order request not found''
                     else writeRPCError sc err ''seckill result unavailable'')
                   (\<lambda>projection. OkJson (SeckillOrderResultData orderNo projection None))
                   (zc_GetProjectedResult queue userID orderNo s1)))"

section \<open>Notifications\<close>

definition gatewayListNotifications :: "(goerr \<Rightarrow> code) \<Rightarrow> 's notification_client \<Rightarrow> 's handler" where
  "gatewayListNotifications sc client = with_user (\<lambda>userID r s. case hr_Page r of
       None \<Rightarrow> (invalid ''invalid pagination'', s)
     | Some p \<Rightarrow>
         reply (\<lambda>err. writeRPCError sc err ''invalid notification query'')
           (\<lambda>page. OkJson (NotificationListData (map toNotificationPayload (pg_Items page)) (pg_Page page) (pg_PageSize page) (pg_Total page)))
           (tc_List client userID (fst (page_of p)) (snd (page_of p)) s))"

definition gatewayMarkNotificationRead :: "(goerr \<Rightarrow> code) \<Rightarrow> 's notification_client \<Rightarrow> 's handler" where
  "gatewayMarkNotificationRead sc client = with_user (\<lambda>userID r s. case hr_PathID r of
       None \<Rightarrow> (invalid ''invalid notification ID'', s)
     | Some notificationID \<Rightarrow>
         if notificationID = 0 then (invalid ''invalid notification ID'', s)
         else reply (\<lambda>err. writeRPCError sc err ''invalid notification ID'') (\<lambda>_. OkJson (NotificationReadData notificationID ''READ''))
           (tc_MarkRead client userID notificationID s))"

section \<open>Routes\<close>

datatype gateway_route =
    Post_register | Post_login | Get_me | Get_products | Get_product | Post_order | Get_order | Post_seckill_order
  | Get_seckill_result | Get_notifications | Put_notification_read
  | Put_user_roles | Post_product | Put_product | Put_product_status
  | Post_activity | Post_activity_item | Put_activity_status | Post_preheat

text \<open>The permission of an administrative route.\<close>

fun route_permission :: "gateway_route \<Rightarrow> string option" where
  "route_permission Put_user_roles = Some ''rbac:manage''"
| "route_permission Post_product = Some ''product:write''"
| "route_permission Put_product = Some ''product:write''"
| "route_permission Put_product_status = Some ''product:write''"
| "route_permission Post_activity = Some ''seckill:write''"
| "route_permission Post_activity_item = Some ''seckill:write''"
| "route_permission Put_activity_status = Some ''seckill:write''"
| "route_permission Post_preheat = Some ''seckill:write''"
| "route_permission _ = None"

definition RegisterGatewayRPCRoutes ::
  "(goerr \<Rightarrow> code) \<Rightarrow> (string \<Rightarrow> time option) \<Rightarrow> jwt_lib \<Rightarrow> TokenManager \<Rightarrow> time \<Rightarrow> 's GatewayDependencies \<Rightarrow> gateway_route \<Rightarrow> 's handler" where
  "RegisterGatewayRPCRoutes sc parse_time J tokens now dependencies route =
     (let permission = (\<lambda>code handle. authenticate J tokens now (gatewayRequirePermission sc (gd_Users dependencies) code handle)) in
      case route of
        Post_register \<Rightarrow> gatewayRegister sc (gd_Users dependencies)
      | Post_login \<Rightarrow> gatewayLogin sc J tokens now (gd_Users dependencies)
      | Get_me \<Rightarrow> authenticate J tokens now (gatewayCurrentUser sc (gd_Users dependencies))
      | Get_products \<Rightarrow> gatewayListProducts sc (gd_Products dependencies)
      | Get_product \<Rightarrow> gatewayGetProduct sc (gd_Products dependencies)
      | Post_order \<Rightarrow> authenticate J tokens now (gatewayCreateOrder sc (gd_Orders dependencies))
      | Get_order \<Rightarrow> authenticate J tokens now (gatewayGetOrder sc (gd_Orders dependencies))
      | Post_seckill_order \<Rightarrow> authenticate J tokens now (gatewayEnqueue sc (gd_Seckill dependencies))
      | Get_seckill_result \<Rightarrow> authenticate J tokens now (gatewaySeckillResult sc (gd_Orders dependencies) (gd_Seckill dependencies))
      | Get_notifications \<Rightarrow> authenticate J tokens now (gatewayListNotifications sc (gd_Notifications dependencies))
      | Put_notification_read \<Rightarrow> authenticate J tokens now (gatewayMarkNotificationRead sc (gd_Notifications dependencies))
      | Put_user_roles \<Rightarrow> permission ''rbac:manage'' (gatewayReplaceRoles sc (gd_Users dependencies))
      | Post_product \<Rightarrow> permission ''product:write'' (gatewayCreateProduct sc (gd_Products dependencies))
      | Put_product \<Rightarrow> permission ''product:write'' (gatewayUpdateProduct sc (gd_Products dependencies))
      | Put_product_status \<Rightarrow> permission ''product:write'' (gatewayUpdateProductStatus sc (gd_Products dependencies))
      | Post_activity \<Rightarrow> permission ''seckill:write'' (gatewayCreateActivity sc parse_time (gd_Seckill dependencies))
      | Post_activity_item \<Rightarrow> permission ''seckill:write'' (gatewayCreateSeckillItem sc (gd_Inventory dependencies))
      | Put_activity_status \<Rightarrow> permission ''seckill:write'' (gatewayUpdateActivityStatus sc (gd_Seckill dependencies))
      | Post_preheat \<Rightarrow> permission ''seckill:write'' (gatewayPreheatActivity sc (gd_Seckill dependencies)))"

section \<open>Every answer is from a fixed table\<close>

text \<open>The statuses, codes and messages of the gateway's errors; none of them depends on the text of a cause.\<close>

definition gateway_errors :: "(nat \<times> string \<times> string) list" where
  "gateway_errors = map (\<lambda>m. (400, ''INVALID_ARGUMENT'', m))
       [''invalid request body'', ''invalid email or password'', ''invalid credentials'', ''invalid user'', ''permission check failed'',
        ''invalid role assignment'', ''invalid pagination'', ''invalid product ID'', ''invalid product'', ''invalid product status'',
        ''invalid order'', ''invalid order ID'', ''invalid seckill activity'', ''invalid seckill activity time'',
        ''invalid seckill configuration'', ''invalid seckill item'', ''invalid seckill activity status'', ''invalid seckill activity ID'',
        ''invalid seckill item ID'', ''invalid seckill purchase'', ''invalid seckill order number'', ''seckill result unavailable'',
        ''invalid notification query'', ''invalid notification ID''] @
     [(401, ''UNAUTHENTICATED'', ''authentication required''), (401, ''TOKEN_EXPIRED'', ''access token expired''),
      (401, ''UNAUTHENTICATED'', ''invalid access token''), (401, ''UNAUTHENTICATED'', ''invalid credentials''),
      (401, ''UNAUTHENTICATED'', ''user is not active''), (401, ''UNAUTHENTICATED'', ''authentication failed''),
      (403, ''PERMISSION_DENIED'', ''permission denied''), (404, ''NOT_FOUND'', ''resource not found''),
      (404, ''SECKILL_ORDER_NOT_FOUND'', ''seckill order request not found''), (409, ''USER_ALREADY_EXISTS'', ''user already exists''),
      (409, ''CONFLICT'', ''request conflict''), (429, ''RESOURCE_EXHAUSTED'', ''too many requests''),
      (500, ''INTERNAL_ERROR'', ''internal server error''), (503, ''UPSTREAM_UNAVAILABLE'', ''upstream service unavailable''),
      (504, ''UPSTREAM_TIMEOUT'', ''upstream service timeout'')]"

definition tabled :: "response \<Rightarrow> bool" where
  "tabled x \<longleftrightarrow> (hs_Status x, hs_Code x, hs_Message x) \<in> set gateway_errors \<and> hs_Data x = NoData"

definition answer_ok :: "response \<Rightarrow> bool" where
  "answer_ok x \<longleftrightarrow> tabled x \<or> (hs_Status x \<in> {200, 202} \<and> hs_Code x = ''OK'' \<and> hs_Data x \<noteq> NoData)"

lemma tabled_401: "tabled x \<Longrightarrow> hs_Status x \<notin> {200, 202}"
  by (auto simp: tabled_def gateway_errors_def)

lemma answer_tabled: "tabled x \<Longrightarrow> answer_ok x"
  by (simp add: answer_ok_def)

lemma answer_good [simp]: "x \<noteq> NoData \<Longrightarrow> answer_ok (OkJson x)" "x \<noteq> NoData \<Longrightarrow> answer_ok (Accepted x)"
  by (simp_all add: answer_ok_def)

lemma tabled_writeError: "(st, code, m) \<in> set gateway_errors \<Longrightarrow> tabled (writeError st code m)"
  by (simp add: tabled_def)

lemma tabled_writeRPCError: "(400, ''INVALID_ARGUMENT'', m) \<in> set gateway_errors \<Longrightarrow> tabled (writeRPCError sc err m)"
  unfolding writeRPCError_def
  by (cases "sc err") (simp_all add: tabled_writeError del: response_defs, simp_all add: tabled_def gateway_errors_def)

lemma answer_reply:
  "(\<And>err. answer_ok (bad err)) \<Longrightarrow> (\<And>v. answer_ok (good v)) \<Longrightarrow> answer_ok (fst (reply bad good x))"
  by (auto simp: reply_def split: prod.splits sum.splits)

lemma answer_authenticate:
  assumes "\<And>r s. answer_ok (fst (handle r s))"
  shows "answer_ok (fst (authenticate J tokens now handle r s))"
proof -
  have "tabled unauthenticated" "tabled (writeError 401 ''TOKEN_EXPIRED'' ''access token expired'')"
    "tabled (writeError 401 ''UNAUTHENTICATED'' ''invalid access token'')"
    by (simp_all add: tabled_def gateway_errors_def)
  then show ?thesis
    using assms by (auto simp: authenticate_def answer_tabled simp del: response_defs split: list.splits sum.splits)
qed

lemma answer_with_user:
  assumes "\<And>u r s. answer_ok (fst (h u r s))"
  shows "answer_ok (fst (with_user h r s))"
proof -
  have "tabled unauthenticated" by (simp add: tabled_def gateway_errors_def)
  then show ?thesis using assms by (auto simp: with_user_def answer_tabled simp del: response_defs split: option.splits)
qed

lemma answer_permission:
  assumes "\<And>r s. answer_ok (fst (handle r s))"
  shows "answer_ok (fst (gatewayRequirePermission sc client permission handle r s))"
proof -
  have "tabled (writeRPCError sc err ''permission check failed'')" for err
    by (rule tabled_writeRPCError) (simp add: gateway_errors_def)
  moreover have "tabled (writeError 403 ''PERMISSION_DENIED'' ''permission denied'')" by (simp add: tabled_def gateway_errors_def)
  ultimately show ?thesis
    unfolding gatewayRequirePermission_def
    using assms by (intro answer_with_user) (auto simp: answer_tabled simp del: response_defs split: prod.splits sum.splits)
qed

lemmas answer_rules = answer_reply answer_with_user tabled_writeRPCError [THEN answer_tabled] tabled_writeError [THEN answer_tabled]
  answer_good

text \<open>Each handler.\<close>

named_theorems answers \<open>the answers of the handlers are tabled\<close>

lemma answer_gatewayRegister [answers]: "answer_ok (fst (gatewayRegister sc client r s))"
  unfolding gatewayRegister_def
  by (auto intro!: answer_rules simp: gateway_errors_def simp del: response_defs split: option.splits prod.splits sum.splits)

lemma answer_gatewayLogin [answers]: "answer_ok (fst (gatewayLogin sc J tokens now client r s))"
  unfolding gatewayLogin_def
  by (auto intro!: answer_rules simp: gateway_errors_def simp del: response_defs split: option.splits prod.splits sum.splits)

lemma answer_gatewayCurrentUser [answers]: "answer_ok (fst (gatewayCurrentUser sc client r s))"
  unfolding gatewayCurrentUser_def
  by (auto intro!: answer_rules simp: gateway_errors_def simp del: response_defs split: option.splits prod.splits sum.splits)

lemma answer_gatewayReplaceRoles [answers]: "answer_ok (fst (gatewayReplaceRoles sc client r s))"
  unfolding gatewayReplaceRoles_def
  by (auto intro!: answer_rules simp: gateway_errors_def simp del: response_defs split: option.splits prod.splits sum.splits)

lemma answer_gatewayListProducts [answers]: "answer_ok (fst (gatewayListProducts sc client r s))"
  unfolding gatewayListProducts_def
  by (auto intro!: answer_rules simp: gateway_errors_def simp del: response_defs split: option.splits prod.splits sum.splits)

lemma answer_gatewayGetProduct [answers]: "answer_ok (fst (gatewayGetProduct sc client r s))"
  unfolding gatewayGetProduct_def
  by (auto intro!: answer_rules simp: gateway_errors_def simp del: response_defs split: option.splits prod.splits sum.splits)

lemma answer_gatewayCreateProduct [answers]: "answer_ok (fst (gatewayCreateProduct sc client r s))"
  unfolding gatewayCreateProduct_def
  by (auto intro!: answer_rules simp: gateway_errors_def simp del: response_defs split: option.splits prod.splits sum.splits)

lemma answer_gatewayUpdateProduct [answers]: "answer_ok (fst (gatewayUpdateProduct sc client r s))"
  unfolding gatewayUpdateProduct_def
  by (auto intro!: answer_rules simp: gateway_errors_def simp del: response_defs split: option.splits prod.splits sum.splits)

lemma answer_gatewayUpdateProductStatus [answers]: "answer_ok (fst (gatewayUpdateProductStatus sc client r s))"
  unfolding gatewayUpdateProductStatus_def
  by (auto intro!: answer_rules simp: gateway_errors_def simp del: response_defs split: option.splits prod.splits sum.splits)

lemma answer_gatewayCreateOrder [answers]: "answer_ok (fst (gatewayCreateOrder sc client r s))"
  unfolding gatewayCreateOrder_def
  by (auto intro!: answer_rules simp: gateway_errors_def simp del: response_defs split: option.splits prod.splits sum.splits)

lemma answer_gatewayGetOrder [answers]: "answer_ok (fst (gatewayGetOrder sc client r s))"
  unfolding gatewayGetOrder_def
  by (auto intro!: answer_rules simp: gateway_errors_def simp del: response_defs split: option.splits prod.splits sum.splits)

lemma answer_gatewayCreateActivity [answers]: "answer_ok (fst (gatewayCreateActivity sc parse_time client r s))"
  unfolding gatewayCreateActivity_def
  by (auto intro!: answer_rules simp: gateway_errors_def simp del: response_defs split: option.splits prod.splits sum.splits)

lemma answer_gatewayCreateSeckillItem [answers]: "answer_ok (fst (gatewayCreateSeckillItem sc client r s))"
  unfolding gatewayCreateSeckillItem_def
  by (auto intro!: answer_rules simp: gateway_errors_def simp del: response_defs split: option.splits prod.splits sum.splits)

lemma answer_gatewayUpdateActivityStatus [answers]: "answer_ok (fst (gatewayUpdateActivityStatus sc client r s))"
  unfolding gatewayUpdateActivityStatus_def
  by (auto intro!: answer_rules simp: gateway_errors_def simp del: response_defs split: option.splits prod.splits sum.splits)

lemma answer_gatewayPreheatActivity [answers]: "answer_ok (fst (gatewayPreheatActivity sc client r s))"
  unfolding gatewayPreheatActivity_def
  by (auto intro!: answer_rules simp: gateway_errors_def simp del: response_defs split: option.splits prod.splits sum.splits)

lemma answer_gatewayEnqueue [answers]: "answer_ok (fst (gatewayEnqueue sc client r s))"
  unfolding gatewayEnqueue_def
  by (auto intro!: answer_rules simp: gateway_errors_def simp del: response_defs split: option.splits prod.splits sum.splits)

lemma answer_gatewaySeckillResult [answers]: "answer_ok (fst (gatewaySeckillResult sc orders queue r s))"
  unfolding gatewaySeckillResult_def
  by (auto intro!: answer_rules simp: gateway_errors_def simp del: response_defs split: option.splits prod.splits sum.splits)

lemma answer_gatewayListNotifications [answers]: "answer_ok (fst (gatewayListNotifications sc client r s))"
  unfolding gatewayListNotifications_def
  by (auto intro!: answer_rules simp: gateway_errors_def simp del: response_defs split: option.splits prod.splits sum.splits)

lemma answer_gatewayMarkNotificationRead [answers]: "answer_ok (fst (gatewayMarkNotificationRead sc client r s))"
  unfolding gatewayMarkNotificationRead_def
  by (auto intro!: answer_rules simp: gateway_errors_def simp del: response_defs split: option.splits prod.splits sum.splits)

text \<open>C36: what a client of the gateway learns from a failure. Whatever the route, the request and the services do,
  the answer is a success with data, or an entry of the fixed table of errors without data: no text of a cause,
  no identifier and no address of a dependency gets out.
\<close>

theorem gateway_answers_tabled:
  "answer_ok (fst (RegisterGatewayRPCRoutes sc parse_time J tokens now dependencies route r s))"
  by (cases route)
    (auto simp: RegisterGatewayRPCRoutes_def Let_def simp del: response_defs
      intro!: answers answer_authenticate answer_permission)

section \<open>Authorization\<close>

lemma authenticate_refused:
  assumes "token_user J tokens now r = None"
  shows "tabled (fst (authenticate J tokens now handle r s))"
proof -
  let ?h = "\<lambda>r s. (unauthenticated, s)"
  have "fst (authenticate J tokens now handle r s) = fst (authenticate J tokens now ?h r s)"
    using assms by (auto simp: authenticate_def token_user_def split: list.splits sum.splits if_splits)
  moreover have "answer_ok (fst (authenticate J tokens now ?h r s))"
    by (rule answer_authenticate) (simp add: answer_ok_def tabled_def gateway_errors_def)
  ultimately show ?thesis
    using authenticate_cases(2) [OF assms, of handle s] by (auto simp: answer_ok_def)
qed

text \<open>A handler for the user of the token.\<close>

lemma user_route:
  assumes "authenticate J tokens now (with_user h) r s = (x, s')" and "\<not> tabled x"
  shows "\<exists>u. token_user J tokens now r = Some u \<and> h u (r\<lparr>hr_UserID := Some u\<rparr>) s = (x, s')"
proof (cases "token_user J tokens now r")
  case None
  from authenticate_refused [OF this, of "with_user h" s] assms show ?thesis by simp
next
  case (Some u)
  with assms(1) authenticate_cases(1) [of J tokens now "with_user h" r s] token_user_nonzero [OF Some] show ?thesis
    by (simp add: with_user_def gatewayUserID_def)
qed

lemma reply_good:
  "reply bad good y = (x, s') \<Longrightarrow> (\<And>e. tabled (bad e)) \<Longrightarrow> \<not> tabled x \<Longrightarrow> \<exists>v. y = (Inr v, s') \<and> x = good v"
  by (auto simp: reply_def split: prod.splits sum.splits)

text \<open>
  What the gateway needs from the service that knows the permissions: an affirmative answer is right, and
  asking changes no \<open>data\<close>.
\<close>

locale permission_source =
  fixes client :: "'s user_client"
    and allowed :: "u64 \<Rightarrow> string \<Rightarrow> 's \<Rightarrow> bool"
    and data :: "'s \<Rightarrow> 'd"
  assumes affirmed: "uc_HasPermission client u permission s = (Inr True, s') \<Longrightarrow> u \<noteq> 0 \<Longrightarrow> allowed u permission s"
    and asking: "data (snd (uc_HasPermission client u permission s)) = data s"
begin

text \<open>Behind the permission check a handler only runs for an authenticated user who is allowed to.\<close>

lemma guarded:
  assumes "authenticate J tokens now (gatewayRequirePermission sc client permission handle) r s = (x, s')"
  shows "(tabled x \<and> data s' = data s) \<or>
    (\<exists>u s1. token_user J tokens now r = Some u \<and> allowed u permission s \<and> data s1 = data s \<and>
       (x, s') = handle (r\<lparr>hr_UserID := Some u\<rparr>) s1)"
proof (cases "token_user J tokens now r")
  case None
  have "s' = s" using assms authenticate_cases(1) [of J tokens now _ r s] None by (metis option.case(1) snd_conv)
  moreover have "tabled x" using authenticate_refused [OF None] assms by (metis fst_conv)
  ultimately show ?thesis by blast
next
  case (Some u)
  have u: "u \<noteq> 0" by (rule token_user_nonzero [OF Some])
  obtain y s1 where y: "uc_HasPermission client u permission s = (y, s1)" by fastforce
  have d: "data s1 = data s" using asking [of u permission s] y by simp
  have run: "gatewayRequirePermission sc client permission handle (r\<lparr>hr_UserID := Some u\<rparr>) s = (x, s')"
    using assms authenticate_cases(1) [of J tokens now _ r s] Some by simp
  have t: "tabled (writeRPCError sc err ''permission check failed'')" for err
    by (rule tabled_writeRPCError) (simp add: gateway_errors_def)
  have f: "tabled (writeError 403 ''PERMISSION_DENIED'' ''permission denied'')" by (simp add: tabled_def gateway_errors_def)
  show ?thesis
  proof (cases "y = Inr True")
    case True
    with run y u have "(x, s') = handle (r\<lparr>hr_UserID := Some u\<rparr>) s1"
      by (simp add: gatewayRequirePermission_def with_user_def gatewayUserID_def)
    with True y affirmed [of u permission s s1] u Some d show ?thesis by blast
  next
    case False
    with run y u t f d show ?thesis
      by (auto simp: gatewayRequirePermission_def with_user_def gatewayUserID_def simp del: response_defs split: sum.splits if_splits)
  qed
qed

text \<open>A refused request has changed nothing; so has one without the permission of its route.\<close>

lemma admin_route_guarded:
  assumes "route_permission route = Some permission" and "gd_Users dependencies = client"
    and "RegisterGatewayRPCRoutes sc parse_time J tokens now dependencies route r s = (x, s')"
    and "data s' \<noteq> data s \<or> \<not> tabled x"
  shows "\<exists>u. token_user J tokens now r = Some u \<and> allowed u permission s"
proof -
  obtain handle where "RegisterGatewayRPCRoutes sc parse_time J tokens now dependencies route =
      authenticate J tokens now (gatewayRequirePermission sc client permission handle)"
    using assms(1,2) by (cases route) (auto simp: RegisterGatewayRPCRoutes_def Let_def)
  with assms(3) guarded [of J tokens now sc permission handle r s x s'] assms(4) show ?thesis by auto
qed

end

section \<open>Path parameters and bodies\<close>

lemma json_field_append: "json_field f x (vs @ ws) = Option.bind (json_field f x vs) (\<lambda>y. json_field f y ws)"
  by (induction vs arbitrary: x) (auto split: option.splits)

lemma values_of_append: "values_of name (ms @ ns) = values_of name ms @ values_of name ns"
  by (simp add: values_of_def)

lemma values_of_none: "\<forall>(k, v) \<in> set ms. fold_name k \<noteq> name \<Longrightarrow> values_of name ms = []"
  by (auto simp: values_of_def filter_empty_conv)

lemma as_u64_uint [simp]: "as_u64 (JInt (uint j)) = Some j"
proof -
  have "uint j < 2 ^ LENGTH(64)" by (rule uint_bounded)
  then show ?thesis by (simp add: as_u64_def)
qed

declare fold_name.simps [simp del]

lemma fold_names: "fold_name ''ProductID'' = ''productid''" "fold_name ''ActivityID'' = ''activityid''"
  by code_simp+

text \<open>The body may name another object than the path. A member whose name folds to the Go name of the path
  field (\<open>ProductID\<close>, \<open>ActivityID\<close>) overwrites the parameter of the path: the product that is updated, and the
  activity that gets the item, are those of the body. Without such a member they are those of the path.
\<close>

theorem body_overrides_path:
  assumes "hr_PathID r = Some i" and "hr_Body r = Some (JObject (ms @ [(''ProductID'', JInt (uint j)), (''ActivityID'', JInt (uint j))]))"
    and "decode_updateProduct i (JObject ms) = Some (i1, name, description)"
    and "decode_addSeckillItem i (JObject ms) = Some (i2, skuID, stock)"
  shows "snd (gatewayUpdateProduct sc products r s) = snd (pc_Update products j name description s) \<and>
    snd (gatewayCreateSeckillItem sc inventory r w) = snd (ic_CreateSeckillItem inventory j skuID stock w) \<and>
    ((\<forall>(k, v) \<in> set ms. fold_name k \<noteq> ''productid'' \<and> fold_name k \<noteq> ''activityid'') \<longrightarrow>
       snd (gatewayUpdateProduct sc products (r\<lparr>hr_Body := Some (JObject ms)\<rparr>) s) = snd (pc_Update products i name description s) \<and>
       snd (gatewayCreateSeckillItem sc inventory (r\<lparr>hr_Body := Some (JObject ms)\<rparr>) w) =
         snd (ic_CreateSeckillItem inventory i skuID stock w))"
proof -
  have tail: "values_of n [(''ProductID'', JInt (uint j)), (''ActivityID'', JInt (uint j))] =
      (if n = ''productid'' \<or> n = ''activityid'' then [JInt (uint j)] else [])" for n
    by (auto simp: values_of_def fold_names)
  have d: "decode_updateProduct i (JObject (ms @ [(''ProductID'', JInt (uint j)), (''ActivityID'', JInt (uint j))])) = Some (j, name, description)"
    "decode_addSeckillItem i (JObject (ms @ [(''ProductID'', JInt (uint j)), (''ActivityID'', JInt (uint j))])) = Some (j, skuID, stock)"
    using assms(3,4) tail
    by (auto simp: decode_updateProduct_def decode_addSeckillItem_def json_members_def values_of_append json_field_append
        split: option.splits)
  have e: "i1 = i \<and> i2 = i" if "\<forall>(k, v) \<in> set ms. fold_name k \<noteq> ''productid'' \<and> fold_name k \<noteq> ''activityid''"
  proof -
    have "values_of ''productid'' ms = []" "values_of ''activityid'' ms = []" using that by (auto intro!: values_of_none)
    then show ?thesis using assms(3,4)
      by (auto simp: decode_updateProduct_def decode_addSeckillItem_def json_members_def split: option.splits)
  qed
  show ?thesis
    using assms d e by (auto simp: gatewayUpdateProduct_def gatewayCreateSeckillItem_def reply_def split: prod.splits sum.splits)
qed

text \<open>Clients that note the objects they are asked to change.\<close>

definition noting_products :: "u64 list product_client" where
  "noting_products = \<lparr>pc_List = \<lambda>p n s. (fail ErrInvalidProduct, s), pc_Get = \<lambda>i s. (fail ErrProductNotFound, s),
     pc_Create = \<lambda>input s. (fail ErrInvalidProduct, s), pc_Update = \<lambda>i n d s. (Inr (), i # s),
     pc_SetStatus = \<lambda>i st s. (Inr (), i # s)\<rparr>"

definition noting_inventory :: "u64 list inventory_client" where
  "noting_inventory = \<lparr>ic_CreateSeckillItem = \<lambda>activityID skuID stock s. (fail ErrConflict, activityID # s)\<rparr>"

definition demo_http :: "json option \<Rightarrow> http_request" where
  "demo_http body = \<lparr>hr_Authorization = [], hr_PathID = Some 5, hr_PathText = None, hr_Page = None, hr_Credentials = None,
     hr_Roles = None, hr_Body = body, hr_UserID = None\<rparr>"

theorem body_overrides_path_witness:
  "snd (gatewayUpdateProduct demo_status_code noting_products
      (demo_http (Some (JObject ([(''name'', JString ''N'')] @ [(''ProductID'', JInt (uint (7 :: u64))), (''ActivityID'', JInt (uint (7 :: u64)))])))) []) = [7] \<and>
   snd (gatewayUpdateProduct demo_status_code noting_products (demo_http (Some (JObject [(''name'', JString ''N'')]))) []) = [5]"
proof -
  have n: "fold_name ''name'' = ''name''" by code_simp
  have "decode_updateProduct 5 (JObject [(''name'', JString ''N'')]) = Some (5, ''N'', [])"
    "decode_addSeckillItem 5 (JObject [(''name'', JString ''N'')]) = Some (5, 0, 0)"
    by (simp_all add: decode_updateProduct_def decode_addSeckillItem_def json_members_def values_of_def n as_string_def)
  from body_overrides_path [OF _ _ this, of "demo_http (Some (JObject ([(''name'', JString ''N'')] @
      [(''ProductID'', JInt (uint (7 :: u64))), (''ActivityID'', JInt (uint (7 :: u64)))])))" 7 demo_status_code noting_products "[]" noting_inventory "[]"]
  show ?thesis by (simp add: demo_http_def noting_products_def n)
qed

end
