(* ===== verification/Edge.thy ===== *)
theory Edge
  imports Gateway
begin

text \<open>
  Between the gateway and the services: the adapters of \<open>cmd/gateway-api/adapters.go\<close> from the RPC messages to the
  types of the handlers, the adapters through which the order and the seckill service read products and items
  (\<open>order/rpcserver/product_adapter.go\<close>, \<open>seckill/seckillrpc/inventory_adapter.go\<close>), and the whole of the gateway
  over the RPC servers of the other theories.
\<close>

section \<open>RPC clients\<close>

text \<open>The methods of the generated clients; the hand-written ones (\<open>rpcclient\<close>) pass them on.\<close>

record 's user_rpc =
  ur_Register :: "string \<Rightarrow> string \<Rightarrow> 's \<Rightarrow> proto_user result \<times> 's"
  ur_Authenticate :: "string \<Rightarrow> string \<Rightarrow> 's \<Rightarrow> (proto_user \<times> string list) result \<times> 's"
  ur_GetUser :: "u64 \<Rightarrow> 's \<Rightarrow> proto_user result \<times> 's"
  ur_GetUserRoles :: "u64 \<Rightarrow> 's \<Rightarrow> string list result \<times> 's"
  ur_HasPermission :: "u64 \<Rightarrow> string \<Rightarrow> 's \<Rightarrow> bool result \<times> 's"
  ur_ReplaceUserRoles :: "u64 \<Rightarrow> string list \<Rightarrow> 's \<Rightarrow> unit result \<times> 's"

record 's product_rpc =
  pq_ListProducts :: "32 word \<times> 32 word \<Rightarrow> 's \<Rightarrow> (proto_product list \<times> u64 \<times> 32 word \<times> 32 word) result \<times> 's"
  pq_GetProduct :: "u64 \<Rightarrow> 's \<Rightarrow> proto_product result \<times> 's"
  pq_CreateProduct :: "string \<Rightarrow> string \<Rightarrow> (string \<times> string \<times> int) list \<Rightarrow> 's \<Rightarrow> proto_product result \<times> 's"
  pq_UpdateProduct :: "u64 \<Rightarrow> string \<Rightarrow> string \<Rightarrow> 's \<Rightarrow> proto_product result \<times> 's"
  pq_UpdateProductStatus :: "u64 \<Rightarrow> ProductStatus \<Rightarrow> 's \<Rightarrow> unit result \<times> 's"

type_synonym proto_order = "Order \<times> OrderSource \<times> int"

record 's order_rpc =
  oq_CreateOrder :: "u64 \<Rightarrow> (u64 \<times> int) list \<Rightarrow> 's \<Rightarrow> proto_order result \<times> 's"
  oq_GetOrder :: "u64 \<Rightarrow> u64 \<Rightarrow> 's \<Rightarrow> proto_order result \<times> 's"
  oq_FindSeckillOrder :: "u64 \<Rightarrow> string \<Rightarrow> 's \<Rightarrow> proto_order result \<times> 's"

record 's seckill_rpc =
  zq_CreateActivity :: "string \<Rightarrow> int \<Rightarrow> int \<Rightarrow> 's \<Rightarrow> proto_activity result \<times> 's"
  zq_UpdateActivityStatus :: "u64 \<Rightarrow> ActivityStatus \<Rightarrow> 's \<Rightarrow> unit result \<times> 's"
  zq_PreheatActivity :: "u64 \<Rightarrow> 's \<Rightarrow> (u64 \<times> 32 word \<times> int \<times> int) result \<times> 's"
  zq_Enqueue :: "u64 \<Rightarrow> u64 \<Rightarrow> 's \<Rightarrow> (string \<times> ResultStatus \<times> bool) result \<times> 's"
  zq_GetResult :: "u64 \<Rightarrow> string \<Rightarrow> 's \<Rightarrow> (string \<times> ResultStatus) result \<times> 's"

type_synonym proto_notification = "Notification \<times> int \<times> int"

record 's notification_rpc =
  tq_ListNotifications :: "u64 \<Rightarrow> (32 word \<times> 32 word) option \<Rightarrow> 's \<Rightarrow> (proto_notification list \<times> 32 word \<times> 32 word \<times> u64) result \<times> 's"
  tq_MarkRead :: "u64 \<Rightarrow> u64 \<Rightarrow> 's \<Rightarrow> unit result \<times> 's"

definition map_reply :: "('a \<Rightarrow> 'b) \<Rightarrow> 'a result \<times> 's \<Rightarrow> 'b result \<times> 's" where
  "map_reply f x = (case x of (Inl err, s) \<Rightarrow> (Inl err, s) | (Inr v, s) \<Rightarrow> (Inr (f v), s))"

lemma map_reply_simps [simp]: "map_reply f (Inl err, s) = (Inl err, s)" "map_reply f (Inr v, s) = (Inr (f v), s)"
  "snd (map_reply f x) = snd x"
  by (auto simp: map_reply_def split: prod.splits sum.splits)

section \<open>The adapters of the gateway\<close>

definition fromProtoUser :: "proto_user \<Rightarrow> User" where
  "fromProtoUser value = \<lparr>u_ID = pu_Id value, u_Email = pu_Email value, u_CreatedAt = time_UnixMilli (pu_CreatedAtMs value)\<rparr>"

definition userAdapter :: "'s user_rpc \<Rightarrow> 's user_client" where
  "userAdapter client = \<lparr>
     uc_Register = \<lambda>email password s. map_reply fromProtoUser (ur_Register client email password s),
     uc_Authenticate = \<lambda>email password s. map_reply (\<lambda>(u, roles). (fromProtoUser u, roles)) (ur_Authenticate client email password s),
     uc_GetUser = \<lambda>userID s. map_reply fromProtoUser (ur_GetUser client userID s),
     uc_GetUserRoles = ur_GetUserRoles client,
     uc_HasPermission = ur_HasPermission client,
     uc_ReplaceUserRoles = ur_ReplaceUserRoles client\<rparr>"

definition fromProtoProductStatus :: "ProductStatus \<Rightarrow> nat" where
  "fromProtoProductStatus value = (if value = PRODUCT_STATUS_ENABLED then StatusActive else StatusInactive)"

definition toProtoProductStatus :: "nat \<Rightarrow> ProductStatus" where
  "toProtoProductStatus value = (if value = StatusActive then PRODUCT_STATUS_ENABLED
     else if value = StatusInactive then PRODUCT_STATUS_DISABLED else PRODUCT_STATUS_UNSPECIFIED)"

definition fromProtoProduct :: "proto_product \<Rightarrow> Product" where
  "fromProtoProduct value = \<lparr>p_ID = py_Id value, p_Name = py_Name value, p_Description = py_Description value,
     p_Status = fromProtoProductStatus (py_Status value),
     p_SKUs = map (\<lambda>k. \<lparr>sk_ID = px_SkuId k, sk_Code = px_SkuCode k, sk_Name = px_SkuName k, sk_PriceCent = px_UnitPriceCent k,
       sk_Status = fromProtoProductStatus (px_Status k)\<rparr>) (py_Skus value),
     p_CreatedAt = time_UnixMilli (py_CreatedAtMs value)\<rparr>"

text \<open>\<open>uint32(page)\<close> wraps; \<open>int64(total)\<close> reads the 64 bits as signed.\<close>

definition productAdapter :: "'s product_rpc \<Rightarrow> 's product_client" where
  "productAdapter client = \<lparr>
     pc_List = \<lambda>page pageSize s. map_reply (\<lambda>(products, n, p, ps). \<lparr>pp_Items = map fromProtoProduct products, pp_Page = uint p,
         pp_PageSize = uint ps, pp_Total = sint n\<rparr>) (pq_ListProducts client (word_of_int page, word_of_int pageSize) s),
     pc_Get = \<lambda>productID s. map_reply fromProtoProduct (pq_GetProduct client productID s),
     pc_Create = \<lambda>input s. map_reply fromProtoProduct (pq_CreateProduct client (cp_Name input) (cp_Description input)
         (map (\<lambda>k. (sk_Code k, sk_Name k, sk_PriceCent k)) (cp_SKUs input)) s),
     pc_Update = \<lambda>productID name description s. map_reply (\<lambda>_. ()) (pq_UpdateProduct client productID name description s),
     pc_SetStatus = \<lambda>productID value s. pq_UpdateProductStatus client productID (toProtoProductStatus value) s\<rparr>"

definition fromProtoOrder :: "proto_order \<Rightarrow> Order" where
  "fromProtoOrder value = (case value of (v, source, createdAtMs) \<Rightarrow> v\<lparr>o_CreatedAt := time_UnixMilli createdAtMs\<rparr>)"

definition orderAdapter :: "'s order_rpc \<Rightarrow> 's order_client" where
  "orderAdapter client = \<lparr>
     oc_Create = \<lambda>userID items s. map_reply fromProtoOrder (oq_CreateOrder client userID items s),
     oc_Get = \<lambda>userID orderID s. map_reply fromProtoOrder (oq_GetOrder client userID orderID s),
     oc_FindSeckill = \<lambda>userID orderNo s. map_reply fromProtoOrder (oq_FindSeckillOrder client userID orderNo s)\<rparr>"

text \<open>The item of the inventory service, as the gateway and the seckill service read it.\<close>

definition fromProtoItem :: "SeckillItem \<Rightarrow> Item" where
  "fromProtoItem item = \<lparr>i_ID = si_Id item, i_ActivityID = si_ActivityId item, i_SKUID = fs_SKUID (si_Sku item),
     i_InitialStock = si_InitialStock item, i_AvailableStock = si_AvailableStock item, i_Version = si_Version item,
     i_CreatedAt = time_UnixMilli (si_CreatedAtMs item)\<rparr>"

definition inventoryAdapter :: "(u64 \<Rightarrow> u64 \<Rightarrow> int \<Rightarrow> 's \<Rightarrow> SeckillItem result \<times> 's) \<Rightarrow> 's inventory_client" where
  "inventoryAdapter client = \<lparr>
     ic_CreateSeckillItem = \<lambda>activityID skuID stock s. map_reply fromProtoItem (client activityID skuID stock s)\<rparr>"

definition gatewayActivityStatus :: "ActivityStatus \<Rightarrow> nat" where
  "gatewayActivityStatus value = (if value = ACTIVITY_STATUS_ENABLED then StatusEnabled else StatusDisabled)"

definition fromProtoActivity :: "proto_activity \<Rightarrow> Activity" where
  "fromProtoActivity value = \<lparr>a_ID = pa_Id value, a_Name = pa_Name value, a_StartAt = time_UnixMilli (pa_StartAtMs value),
     a_EndAt = time_UnixMilli (pa_EndAtMs value), a_Status = gatewayActivityStatus (pa_Status value),
     a_CreatedAt = time_UnixMilli (pa_CreatedAtMs value)\<rparr>"

definition from_result_status :: "ResultStatus \<Rightarrow> string" where
  "from_result_status value = (case value of
       RESULT_STATUS_QUEUED \<Rightarrow> AsyncResultQueued
     | RESULT_STATUS_SUCCEEDED \<Rightarrow> AsyncResultSucceeded
     | RESULT_STATUS_FAILED \<Rightarrow> AsyncResultFailed
     | RESULT_STATUS_UNSPECIFIED \<Rightarrow> [])"

definition seckillAdapter :: "'s seckill_rpc \<Rightarrow> 's seckill_client" where
  "seckillAdapter client = \<lparr>
     zc_CreateActivity = \<lambda>input s. map_reply fromProtoActivity (zq_CreateActivity client (ca_Name input)
         (UnixMilli (ca_StartAt input)) (UnixMilli (ca_EndAt input)) s),
     zc_SetActivityStatus = \<lambda>activityID value s. zq_UpdateActivityStatus client activityID (toProtoActivityStatus value) s,
     zc_PreheatActivity = \<lambda>activityID s. map_reply (\<lambda>(i, n, earliest, latest). \<lparr>pr_ActivityID = i, pr_ItemCount = unat n,
         pr_EarliestExpireAt = time_UnixMilli earliest, pr_LatestExpireAt = time_UnixMilli latest\<rparr>) (zq_PreheatActivity client activityID s),
     zc_Enqueue = \<lambda>userID itemID s. map_reply (\<lambda>(orderNo, st, replayed). \<lparr>as_OrderNo = orderNo, as_Replayed = replayed\<rparr>)
         (zq_Enqueue client userID itemID s),
     zc_GetProjectedResult = \<lambda>userID orderNo s. map_reply (\<lambda>(no, st). from_result_status st) (zq_GetResult client userID orderNo s)\<rparr>"

definition fromProtoNotification :: "proto_notification \<Rightarrow> Notification" where
  "fromProtoNotification item = (case item of (value, createdAtMs, readAtMs) \<Rightarrow>
     value\<lparr>n_CreatedAt := time_UnixMilli createdAtMs,
       n_ReadAt := (if 0 < readAtMs then Some (time_UnixMilli readAtMs) else None)\<rparr>)"

definition notificationAdapter :: "'s notification_rpc \<Rightarrow> 's notification_client" where
  "notificationAdapter client = \<lparr>
     tc_List = \<lambda>userID page pageSize s. map_reply (\<lambda>(items, p, ps, n). \<lparr>pg_Items = map fromProtoNotification items, pg_Page = uint p,
         pg_PageSize = uint ps, pg_Total = sint n\<rparr>) (tq_ListNotifications client userID (Some (word_of_int page, word_of_int pageSize)) s),
     tc_MarkRead = tq_MarkRead client\<rparr>"

section \<open>Adapters between the services\<close>

definition OrderProductAdapter :: "(u64 \<Rightarrow> SkuSnapshot result) \<Rightarrow> u64 \<Rightarrow> ItemInput result" where
  "OrderProductAdapter client skuID =
     (if skuID = 0 then fail ErrInvalidOrder
      else (case client skuID of
          Inl err \<Rightarrow> Inl err
        | Inr snapshot \<Rightarrow>
            if px_SkuId snapshot \<noteq> skuID \<or> px_Status snapshot \<noteq> PRODUCT_STATUS_ENABLED
            then Inl (Wrapf ''product-rpc returned invalid active SKU snapshot'' (Sentinel ErrInvalidOrder))
            else Inr \<lparr>in_SKUID = px_SkuId snapshot, in_ProductName = px_ProductName snapshot, in_SKUCode = px_SkuCode snapshot,
              in_SKUName = px_SkuName snapshot, in_UnitPriceCent = px_UnitPriceCent snapshot, in_Quantity = 0\<rparr>))"

definition InventoryItemAdapter :: "(u64 \<Rightarrow> SeckillItem list result) \<Rightarrow> u64 \<Rightarrow> Item list result" where
  "InventoryItemAdapter client activityID = (case client activityID of
       Inl err \<Rightarrow> Inl err | Inr items \<Rightarrow> Inr (map fromProtoItem items))"

section \<open>Messages carry the records\<close>

definition to_milli :: "time \<Rightarrow> time" where
  "to_milli t = Truncate t millisecond"

lemma time_UnixMilli_to_milli [simp]: "time_UnixMilli (UnixMilli t) = to_milli t"
  by (simp add: to_milli_def Truncate_milli)

lemma user_message: "fromProtoUser (toProtoUser u) = u\<lparr>u_CreatedAt := to_milli (u_CreatedAt u)\<rparr>"
  by (simp add: fromProtoUser_def toProtoUser_def)

lemma product_message:
  assumes "{p_Status p} \<union> sk_Status ` set (p_SKUs p) \<subseteq> {StatusActive, StatusInactive}"
  shows "fromProtoProduct (toProtoProduct p) = p\<lparr>p_CreatedAt := to_milli (p_CreatedAt p)\<rparr>"
proof -
  have "map ((\<lambda>k. \<lparr>sk_ID = px_SkuId k, sk_Code = px_SkuCode k, sk_Name = px_SkuName k, sk_PriceCent = px_UnitPriceCent k,
        sk_Status = fromProtoProductStatus (px_Status k)\<rparr>) \<circ> (\<lambda>sku. \<lparr>px_SkuId = sk_ID sku, px_ProductId = p_ID p, px_ProductName = p_Name p,
        px_SkuCode = sk_Code sku, px_SkuName = sk_Name sku, px_UnitPriceCent = sk_PriceCent sku, px_Status = toProtoStatus (sk_Status sku)\<rparr>))
      (p_SKUs p) = p_SKUs p"
    using assms by (intro map_idI) (auto simp: fromProtoProductStatus_def toProtoStatus_def)
  with assms show ?thesis
    by (cases p) (auto simp: fromProtoProduct_def toProtoProduct_def fromProtoProductStatus_def toProtoStatus_def)
qed

lemma order_message: "o_Status v = 1 \<Longrightarrow> fromProtoOrder (toProtoOrder v source) = v\<lparr>o_CreatedAt := to_milli (o_CreatedAt v)\<rparr>"
  by (cases v) (simp add: fromProtoOrder_def toProtoOrder_def)

lemma activity_message: "a_Status a \<in> {StatusEnabled, StatusDisabled} \<Longrightarrow> fromProtoActivity (toProtoActivity a) =
    a\<lparr>a_StartAt := to_milli (a_StartAt a), a_EndAt := to_milli (a_EndAt a), a_CreatedAt := to_milli (a_CreatedAt a)\<rparr>"
  by (cases a) (auto simp: fromProtoActivity_def toProtoActivity_def gatewayActivityStatus_def toProtoActivityStatus_def)

lemma item_message: "fromProtoItem (toProtoItem i) = \<lparr>i_ID = it_ID i, i_ActivityID = it_ActivityID i, i_SKUID = fs_SKUID (it_Snapshot i),
    i_InitialStock = it_InitialStock i, i_AvailableStock = it_AvailableStock i, i_Version = it_Version i,
    i_CreatedAt = to_milli (it_CreatedAt i)\<rparr>"
  by (simp add: fromProtoItem_def toProtoItem_def)

lemma notification_message:
  assumes "\<forall>t. n_ReadAt n = Some t \<longrightarrow> millisecond \<le> t"
  shows "fromProtoNotification (Notification_toProto n) =
    n\<lparr>n_CreatedAt := to_milli (n_CreatedAt n), n_ReadAt := map_option to_milli (n_ReadAt n)\<rparr>"
proof -
  have "0 < UnixMilli t" if "millisecond \<le> t" for t
    using zdiv_mono1 [OF that, of millisecond] by (simp add: UnixMilli_def)
  with assms show ?thesis
    by (cases n) (auto simp: fromProtoNotification_def Notification_toProto_def split: option.splits)
qed

text \<open>What a service sends is what the gateway reads: users, products, orders, activities and notifications
  survive the way through the messages, with their times to the millisecond, given the status created that
  every order has, a defined status of products and activities, and a time of reading after 1970.
\<close>

theorem messages_carry_records:
  assumes "{p_Status p} \<union> sk_Status ` set (p_SKUs p) \<subseteq> {StatusActive, StatusInactive}" and "o_Status v = 1"
    and "a_Status a \<in> {StatusEnabled, StatusDisabled}" and "\<forall>t. n_ReadAt n = Some t \<longrightarrow> millisecond \<le> t"
  shows "fromProtoUser (toProtoUser u) = u\<lparr>u_CreatedAt := to_milli (u_CreatedAt u)\<rparr>
    \<and> fromProtoProduct (toProtoProduct p) = p\<lparr>p_CreatedAt := to_milli (p_CreatedAt p)\<rparr>
    \<and> fromProtoOrder (toProtoOrder v source) = v\<lparr>o_CreatedAt := to_milli (o_CreatedAt v)\<rparr>
    \<and> fromProtoActivity (toProtoActivity a) =
        a\<lparr>a_StartAt := to_milli (a_StartAt a), a_EndAt := to_milli (a_EndAt a), a_CreatedAt := to_milli (a_CreatedAt a)\<rparr>
    \<and> fromProtoNotification (Notification_toProto n) =
        n\<lparr>n_CreatedAt := to_milli (n_CreatedAt n), n_ReadAt := map_option to_milli (n_ReadAt n)\<rparr>"
  by (intro conjI user_message product_message order_message activity_message notification_message assms)

theorem messages_carry_records_witness:
  "fromProtoProduct (toProtoProduct \<lparr>p_ID = 1, p_Name = ''N'', p_Description = [], p_Status = StatusInactive,
      p_SKUs = [\<lparr>sk_ID = 2, sk_Code = ''C'', sk_Name = ''S'', sk_PriceCent = 5, sk_Status = StatusActive\<rparr>], p_CreatedAt = 1000001\<rparr>) =
    \<lparr>p_ID = 1, p_Name = ''N'', p_Description = [], p_Status = StatusInactive,
      p_SKUs = [\<lparr>sk_ID = 2, sk_Code = ''C'', sk_Name = ''S'', sk_PriceCent = 5, sk_Status = StatusActive\<rparr>], p_CreatedAt = 1000000\<rparr>"
  using messages_carry_records [of "\<lparr>p_ID = 1, p_Name = ''N'', p_Description = [], p_Status = StatusInactive,
      p_SKUs = [\<lparr>sk_ID = 2, sk_Code = ''C'', sk_Name = ''S'', sk_PriceCent = 5, sk_Status = StatusActive\<rparr>], p_CreatedAt = 1000001\<rparr>"
      "\<lparr>o_ID = 1, o_OrderNo = ''T1'', o_UserID = 3, o_Status = 1, o_TotalAmountCent = 5, o_Items = [], o_CreatedAt = 0\<rparr>"
      "\<lparr>a_ID = 1, a_Name = ''A'', a_StartAt = 0, a_EndAt = 1, a_Status = 1, a_CreatedAt = 0\<rparr>"
      "\<lparr>n_ID = 1, n_UserID = 3, n_BusinessType = [], n_Title = [], n_Body = [], n_OrderNo = [], n_CreatedAt = 0, n_ReadAt = None\<rparr>"]
  by (simp add: to_milli_def Truncate_def zero_time_def)

section \<open>The whole of the services\<close>

text \<open>The state of every service, and the number of calls the gateway has made.\<close>

record deployment =
  gw_calls :: nat
  gw_accounts :: accounts
  gw_catalog :: catalog
  gw_orders :: order_db
  gw_inventory :: inventory_db
  gw_activities :: "Activity list"
  gw_gate :: gate
  gw_redis :: redis
  gw_notifications :: notification_db

text \<open>What the server of one call meets: its databases, its clocks, its salt and its random bytes.\<close>

record server_env =
  se_accounts :: "accounts env"
  se_catalog :: "catalog env"
  se_snapshots :: "u64 \<Rightarrow> catalog step_env"
  se_orders :: "order_db env"
  se_inventory :: "inventory_db env"
  se_activities :: "Activity list env"
  se_redis :: "redis env"
  se_notifications :: "notification_db env"
  se_dbnow :: time
  se_now :: time
  se_salt :: nat
  se_random :: random

text \<open>
  The libraries and the network: the call with number k meets \<open>bk_net k\<close> on its way (it may be lost before or after the
  server acts, or other clients may act before it) and \<open>bk_server k\<close> at the server.
\<close>

record backend =
  bk_status :: "goerr \<Rightarrow> code"
  bk_attach :: bool
  bk_text :: text_lib
  bk_bcrypt :: bcrypt_lib
  bk_dummyHash :: string
  bk_redis :: redis_lib
  bk_net :: "deployment env"
  bk_server :: "nat \<Rightarrow> server_env"

definition remote :: "backend \<Rightarrow> (server_env \<Rightarrow> deployment \<Rightarrow> 'a result \<times> deployment) \<Rightarrow> deployment \<Rightarrow> 'a result \<times> deployment" where
  "remote b f w = (case call (bk_net b (gw_calls w)) (f (bk_server b (gw_calls w))) w of
     (res, w') \<Rightarrow> (res, w'\<lparr>gw_calls := gw_calls w + 1\<rparr>))"

definition on_accounts where
  "on_accounts f w = (case f (gw_accounts w) of (res, d) \<Rightarrow> (res, w\<lparr>gw_accounts := d\<rparr>))"

definition on_catalog where
  "on_catalog f w = (case f (gw_catalog w) of (res, d) \<Rightarrow> (res, w\<lparr>gw_catalog := d\<rparr>))"

definition on_orders where
  "on_orders f w = (case f (gw_orders w) of (res, d) \<Rightarrow> (res, w\<lparr>gw_orders := d\<rparr>))"

definition on_inventory where
  "on_inventory f w = (case f (gw_inventory w) of (res, d) \<Rightarrow> (res, w\<lparr>gw_inventory := d\<rparr>))"

definition on_activities where
  "on_activities f w = (case f (gw_activities w) of (res, d) \<Rightarrow> (res, w\<lparr>gw_activities := d\<rparr>))"

definition on_administration where
  "on_administration f w = (case f (gw_activities w, gw_redis w) of (res, a, r) \<Rightarrow> (res, w\<lparr>gw_activities := a, gw_redis := r\<rparr>))"

definition on_queue where
  "on_queue f w = (case f (gw_gate w, gw_redis w) of (res, g, r) \<Rightarrow> (res, w\<lparr>gw_gate := g, gw_redis := r\<rparr>))"

definition on_notifications where
  "on_notifications f w = (case f (gw_notifications w) of (res, d) \<Rightarrow> (res, w\<lparr>gw_notifications := d\<rparr>))"

lemmas on_defs = on_accounts_def on_catalog_def on_orders_def on_inventory_def on_activities_def on_administration_def on_queue_def
  on_notifications_def

definition user_service :: "backend \<Rightarrow> deployment user_rpc" where
  "user_service b = \<lparr>
     ur_Register = \<lambda>email password. remote b (\<lambda>e. on_accounts (Server_Register (bk_attach b) (bk_text b) (bk_bcrypt b) (se_accounts e 0)
         (se_salt e) (se_dbnow e) (se_now e) email password)),
     ur_Authenticate = \<lambda>email password. remote b (\<lambda>e. on_accounts (Server_Authenticate (bk_attach b) (bk_text b) (bk_bcrypt b) (bk_dummyHash b)
         (se_accounts e) email password)),
     ur_GetUser = \<lambda>userID. remote b (\<lambda>e. on_accounts (Server_GetUser (bk_attach b) (se_accounts e 0) userID)),
     ur_GetUserRoles = \<lambda>userID. remote b (\<lambda>e. on_accounts (Server_GetUserRoles (bk_attach b) (bk_text b) (se_accounts e 0) userID)),
     ur_HasPermission = \<lambda>userID permission. remote b (\<lambda>e. on_accounts (Server_HasPermission (bk_attach b) (bk_text b) (se_accounts e 0) userID permission)),
     ur_ReplaceUserRoles = \<lambda>userID roles. remote b (\<lambda>e. on_accounts (Server_ReplaceUserRoles (bk_attach b) (bk_text b) (se_accounts e 0) userID roles))\<rparr>"

definition product_service :: "backend \<Rightarrow> deployment product_rpc" where
  "product_service b = \<lparr>
     pq_ListProducts = \<lambda>page. remote b (\<lambda>e. on_catalog (ListProducts (bk_attach b) (se_catalog e) page)),
     pq_GetProduct = \<lambda>productID. remote b (\<lambda>e. on_catalog (GetProduct (bk_attach b) (se_catalog e) productID)),
     pq_CreateProduct = \<lambda>name description skus. remote b (\<lambda>e. on_catalog (CreateProduct (bk_attach b) (se_catalog e 0) (se_dbnow e) (se_now e)
         name description skus)),
     pq_UpdateProduct = \<lambda>productID name description. remote b (\<lambda>e. on_catalog (UpdateProduct (bk_attach b) (se_catalog e 0) productID name description)),
     pq_UpdateProductStatus = \<lambda>productID st. remote b (\<lambda>e. on_catalog (UpdateProductStatus (bk_attach b) (se_catalog e 0) productID st))\<rparr>"

text \<open>The snapshot of a SKU that the other services ask of the product service.\<close>

definition sku_snapshots :: "backend \<Rightarrow> server_env \<Rightarrow> deployment \<Rightarrow> u64 \<Rightarrow> SkuSnapshot result" where
  "sku_snapshots b e w skuID = fst (GetSkuSnapshot (bk_attach b) (se_snapshots e skuID) skuID (gw_catalog w))"

definition order_service :: "backend \<Rightarrow> deployment order_rpc" where
  "order_service b = \<lparr>
     oq_CreateOrder = \<lambda>userID items. remote b (\<lambda>e w. on_orders (CreateOrder (bk_status b) (bk_attach b)
         (Some (OrderProductAdapter (sku_snapshots b e w))) (se_random e) (se_orders e) (se_now e) userID items) w),
     oq_GetOrder = \<lambda>userID orderID. remote b (\<lambda>e. on_orders (GetOrder (bk_status b) (bk_attach b) (se_orders e) userID orderID)),
     oq_FindSeckillOrder = \<lambda>userID orderNo. remote b (\<lambda>e. on_orders (FindSeckillOrder (bk_status b) (bk_attach b) (se_orders e) userID orderNo))\<rparr>"

definition inventory_service :: "backend \<Rightarrow> u64 \<Rightarrow> u64 \<Rightarrow> int \<Rightarrow> deployment \<Rightarrow> SeckillItem result \<times> deployment" where
  "inventory_service b activityID skuID stock = remote b (\<lambda>e w. on_inventory (Server_CreateSeckillItem (bk_status b) (bk_attach b)
     (ProductSnapshotAdapter (sku_snapshots b e w)) (se_inventory e 0) (se_now e)
     \<lparr>ci_ActivityID = activityID, ci_SKUID = skuID, ci_Stock = stock\<rparr>) w)"

definition activity_items :: "backend \<Rightarrow> server_env \<Rightarrow> deployment \<Rightarrow> item_reader" where
  "activity_items b e w = InventoryItemAdapter (\<lambda>activityID.
     fst (Server_ListActivityItems (bk_status b) (bk_attach b) (se_inventory e 0) activityID (gw_inventory w)))"

definition seckill_service :: "backend \<Rightarrow> deployment seckill_rpc" where
  "seckill_service b = \<lparr>
     zq_CreateActivity = \<lambda>name startMs endMs. remote b (\<lambda>e. on_activities (Server_CreateActivity (bk_status b) (bk_attach b) (se_activities e 0)
         (se_now e) name startMs endMs)),
     zq_UpdateActivityStatus = \<lambda>activityID st. remote b (\<lambda>e w. on_administration (UpdateActivityStatus (bk_status b) (bk_attach b)
         (activity_items b e w) (se_activities e) (se_redis e) activityID st) w),
     zq_PreheatActivity = \<lambda>activityID. remote b (\<lambda>e w. on_administration (Server_PreheatActivity (bk_status b) (bk_attach b)
         (activity_items b e w) (se_activities e) (se_redis e) (se_now e) activityID) w),
     zq_Enqueue = \<lambda>userID itemID. remote b (\<lambda>e. on_queue (Server_Enqueue (bk_status b) (bk_attach b) (bk_redis b) (se_redis e) (se_now e)
         (se_random e) userID itemID)),
     zq_GetResult = \<lambda>userID orderNo. remote b (\<lambda>e w. (GetResult (bk_status b) (bk_attach b) (se_redis e 0) (gw_gate w) (gw_redis w) userID orderNo, w))\<rparr>"

definition notification_service :: "backend \<Rightarrow> deployment notification_rpc" where
  "notification_service b = \<lparr>
     tq_ListNotifications = \<lambda>userID page. remote b (\<lambda>e. on_notifications (ListNotifications (bk_attach b) (se_notifications e) userID page)),
     tq_MarkRead = \<lambda>userID notificationID. remote b (\<lambda>e. on_notifications (MarkRead (bk_attach b) (se_notifications e) (se_now e) userID notificationID))\<rparr>"

definition dependencies_of :: "backend \<Rightarrow> deployment GatewayDependencies" where
  "dependencies_of b = \<lparr>gd_Users = userAdapter (user_service b), gd_Products = productAdapter (product_service b),
     gd_Orders = orderAdapter (order_service b), gd_Inventory = inventoryAdapter (inventory_service b),
     gd_Seckill = seckillAdapter (seckill_service b), gd_Notifications = notificationAdapter (notification_service b)\<rparr>"

definition gateway :: "backend \<Rightarrow> (string \<Rightarrow> time option) \<Rightarrow> jwt_lib \<Rightarrow> TokenManager \<Rightarrow> time \<Rightarrow> gateway_route \<Rightarrow> deployment handler" where
  "gateway b parse_time J tokens now route = RegisterGatewayRPCRoutes (bk_status b) parse_time J tokens now (dependencies_of b) route"

section \<open>Only the permitted administer\<close>

text \<open>A backend whose network and account tables are disturbed by nobody else; failures remain.\<close>

definition solo :: "'s env \<Rightarrow> 's env" where
  "solo env k = (env k)\<lparr>interference := id\<rparr>"

lemma solo_undisturbed [simp]: "undisturbed (solo env)"
  by (simp add: undisturbed_def solo_def)

lemma solo_id: "undisturbed env \<Longrightarrow> solo env = env"
  by (simp add: undisturbed_def solo_def fun_eq_iff)

definition solo_backend :: "backend \<Rightarrow> backend" where
  "solo_backend b = b\<lparr>bk_net := solo (bk_net b), bk_server := \<lambda>k. (bk_server b k)\<lparr>se_accounts := solo (se_accounts (bk_server b k))\<rparr>\<rparr>"

definition calm :: "backend \<Rightarrow> bool" where
  "calm b \<longleftrightarrow> undisturbed (bk_net b) \<and> (\<forall>k. undisturbed (se_accounts (bk_server b k)))"

lemma solo_backend_id: "calm b \<Longrightarrow> solo_backend b = b"
  by (simp add: solo_backend_def calm_def solo_id)

definition served :: "deployment \<Rightarrow> deployment" where
  "served w = w\<lparr>gw_calls := 0\<rparr>"

lemma remote_cases:
  assumes "undisturbed (bk_net b)" and "remote b f w = (res, w')"
  shows "(served w' = served w \<and> (\<exists>e. res = Inl e)) \<or>
    (\<exists>x v. f (bk_server b (gw_calls w)) w = (x, v) \<and> served w' = served v \<and> (res = x \<or> (\<exists>e. res = Inl e)))"
  using assms
  by (cases "f (bk_server b (gw_calls w)) w")
    (auto simp: remote_def call_def Let_def undisturbed_def served_def split: outcome.splits prod.splits)

lemma HasPermission_undisturbed:
  assumes "undisturbed env"
  shows "snd (Server_HasPermission attach T (env k) u permission d) = d"
    and "Server_HasPermission attach T (env k) u permission d = (Inr True, d') \<Longrightarrow> permitted T u permission d"
proof -
  have r: "snd (read_db (env k) (permitted T u permission) d) = d" by (rule read_db_undisturbed(1) [OF assms])
  with snd_HasPermission [of T "env k" u permission d] show "snd (Server_HasPermission attach T (env k) u permission d) = d"
    by (auto simp: Server_HasPermission_def)
  assume "Server_HasPermission attach T (env k) u permission d = (Inr True, d')"
  then obtain d2 where "read_db (env k) (permitted T u permission) d = (Inr True, d2)"
    by (auto simp: Server_HasPermission_def answer_user_def HasPermission_def Repository_HasPermission_def
        split: prod.splits sum.splits if_splits)
  from read_db_undisturbed(2) [OF assms this] show "permitted T u permission d" by simp
qed

interpretation edge: permission_source "userAdapter (user_service (solo_backend b))"
  "\<lambda>u permission w. permitted (bk_text b) u permission (gw_accounts w)" served for b
proof
  fix u permission and s s' :: deployment
  let ?f = "\<lambda>e. on_accounts (Server_HasPermission (bk_attach b) (bk_text b) (se_accounts e 0) u permission)"
  have is_f: "uc_HasPermission (userAdapter (user_service (solo_backend b))) u permission s = remote (solo_backend b) ?f s" for s
    by (simp add: userAdapter_def user_service_def solo_backend_def)
  have un: "undisturbed (bk_net (solo_backend b))" "undisturbed (se_accounts (bk_server (solo_backend b) k))" for k
    by (simp_all add: solo_backend_def)
  note H = HasPermission_undisturbed [OF un(2), where attach = "bk_attach b" and T = "bk_text b" and k = 0 and u = u and permission = permission]
  show "permitted (bk_text b) u permission (gw_accounts s)"
    if "uc_HasPermission (userAdapter (user_service (solo_backend b))) u permission s = (Inr True, s')"
    using remote_cases [OF un(1) that [unfolded is_f]] H(2)
    by (auto simp: on_accounts_def split: prod.splits)
  obtain y s1 where y: "remote (solo_backend b) ?f s = (y, s1)" by fastforce
  have "served v = served s" if "?f (bk_server (solo_backend b) (gw_calls s)) s = (x, v)" for x v
    using that H(1) [of "gw_calls s" "gw_accounts s"] by (auto simp: on_accounts_def split: prod.splits)
  with remote_cases [OF un(1) y] y show "served (snd (uc_HasPermission (userAdapter (user_service (solo_backend b))) u permission s)) = served s"
    unfolding is_f by auto
qed

text \<open>C10: the administrative routes. A request to one of them that changes anything in any service, or that is
  answered with anything but an error, carries a token that was issued for a user and has not expired, and that
  user has the permission of the route in the tables at that moment, whatever fails on the way.
\<close>

theorem admin_needs_permission:
  assumes "calm b" and "jwt_ok J" and "\<forall>tok \<in> set (Fields (TrimSpace (hr_Authorization r))). secret_kept J tokens tok" and "route_permission route = Some permission"
    and "gateway b parse_time J tokens now route r w = (x, w')" and "served w' \<noteq> served w \<or> \<not> tabled x"
  shows "\<exists>u t tok. tok \<in> set (Fields (TrimSpace (hr_Authorization r))) \<and> Issue J tokens t u = Inr tok \<and>
    Truncate t second \<le> now \<and> now < Truncate (t + tm_ttl tokens) second \<and> permitted (bk_text b) u permission (gw_accounts w)"
proof -
  have "gd_Users (dependencies_of b) = userAdapter (user_service (solo_backend b))"
    by (simp add: dependencies_of_def solo_backend_id [OF assms(1)])
  from edge.admin_route_guarded [OF assms(4) this assms(5) [unfolded gateway_def] assms(6)] obtain u
    where u: "token_user J tokens now r = Some u" "permitted (bk_text b) u permission (gw_accounts w)" by blast
  from u(1) obtain tok where tok: "tok \<in> set (Fields (TrimSpace (hr_Authorization r)))" "ParseUserID J tokens now tok = Inr u"
    by (auto simp: token_user_def split: list.splits if_splits sum.splits)
  from accepted_issued [OF assms(2) assms(3) [rule_format, OF tok(1)] tok(2)] tok(1) u(2) show ?thesis by blast
qed

section \<open>From registration to the current user\<close>

text \<open>Nothing fails and nobody interferes on the way to the user service and in its database.\<close>

definition quiet_users :: "backend \<Rightarrow> bool" where
  "quiet_users b \<longleftrightarrow> bk_net b = quiet \<and> (\<forall>k. se_accounts (bk_server b k) = quiet)"

lemma remote_quiet: "bk_net b = quiet \<Longrightarrow>
    remote b f w = (case f (bk_server b (gw_calls w)) w of (res, w') \<Rightarrow> (res, w'\<lparr>gw_calls := gw_calls w + 1\<rparr>))"
  by (simp add: remote_def)

lemma gatewayLogin_ok:
  assumes "quiet_users b" and "hr_Credentials r = Some (email, p)" and "Issue J tokens now (u_ID u) = Inr tok"
    and "Authenticate (bk_text b) (bk_bcrypt b) (bk_dummyHash b) (quiet 0) email p (gw_accounts w) = (Inr u, hs, gw_accounts w)"
  shows "gateway b parse_time J tokens now Post_login r w =
    (OkJson (LoginData tok (ExpiresInSeconds tokens)), w\<lparr>gw_calls := gw_calls w + 1\<rparr>)"
  using assms by (simp add: gateway_def RegisterGatewayRPCRoutes_def Let_def gatewayLogin_def dependencies_of_def userAdapter_def
      user_service_def quiet_users_def remote_quiet on_accounts_def Server_Authenticate_def UserRoles_def Repository_UserRoles_def
      answer_user_def reply_def fromProtoUser_def toProtoUser_def)

lemma gatewayCurrentUser_ok:
  assumes "quiet_users b" and "token_user J tokens now r = Some (u_ID u)"
    and "CurrentUser (quiet 0) (u_ID u) (gw_accounts w) = (Inr v, gw_accounts w)" and "u_ID v = u_ID u"
  shows "gateway b parse_time J tokens now Get_me r w =
    (OkJson (CurrentUserData (u_ID u) (u_Email v) (role_codes (bk_text b) (u_ID u) (gw_accounts w))), w\<lparr>gw_calls := gw_calls w + 2\<rparr>)"
proof -
  have "authenticate J tokens now h r w = h (r\<lparr>hr_UserID := Some (u_ID u)\<rparr>) w" for h :: "deployment handler"
    using authenticate_cases(1) [of J tokens now h r w] assms(2) by simp
  with assms token_user_nonzero [OF assms(2)] show ?thesis
    by (simp add: gateway_def RegisterGatewayRPCRoutes_def Let_def gatewayCurrentUser_def with_user_def gatewayUserID_def
        dependencies_of_def userAdapter_def user_service_def quiet_users_def remote_quiet on_accounts_def Server_GetUser_def
        Server_GetUserRoles_def UserRoles_def Repository_UserRoles_def answer_user_def reply_def fromProtoUser_def toProtoUser_def)
qed

lemma gatewayRegister_ok:
  assumes "quiet_users b" and "hr_Credentials r = Some (email, p)"
    and "gateway b parse_time J tokens now Post_register r w = (x, w')" and "hs_Status x = 200"
  shows "\<exists>u d' (e :: server_env). Register (bk_text b) (bk_bcrypt b) (quiet 0) (se_salt e) (se_dbnow e) (se_now e) email p (gw_accounts w) = (Inr u, d') \<and>
    hs_Data x = RegisteredUserData (u_ID u) (u_Email u) (to_milli (u_CreatedAt u)) \<and>
    w' = w\<lparr>gw_accounts := d', gw_calls := gw_calls w + 1\<rparr>"
proof -
  have t: "tabled (writeRPCError (bk_status b) err ''invalid email or password'')" for err
    by (rule tabled_writeRPCError) (simp add: gateway_errors_def)
  then have t: "hs_Status (writeRPCError (bk_status b) err ''invalid email or password'') \<noteq> 200" for err
    using tabled_401 [OF t] by simp
  let ?e = "bk_server b (gw_calls w)"
  obtain res d' where R: "Register (bk_text b) (bk_bcrypt b) (quiet 0) (se_salt ?e) (se_dbnow ?e) (se_now ?e) email p (gw_accounts w) = (res, d')"
    by fastforce
  have "gateway b parse_time J tokens now Post_register r w =
      reply (\<lambda>err. if bk_status b err = AlreadyExists then writeError 409 ''USER_ALREADY_EXISTS'' ''user already exists''
             else writeRPCError (bk_status b) err ''invalid email or password'')
        (\<lambda>u. OkJson (RegisteredUserData (u_ID u) (u_Email u) (to_milli (u_CreatedAt u))))
        (case res of Inl err \<Rightarrow> Inl (mapUserError (bk_attach b) err) | Inr u \<Rightarrow> Inr u,
         w\<lparr>gw_accounts := d', gw_calls := gw_calls w + 1\<rparr>)"
    using assms(1,2) R by (cases res) (simp_all add: gateway_def RegisterGatewayRPCRoutes_def Let_def gatewayRegister_def
        dependencies_of_def userAdapter_def user_service_def quiet_users_def remote_quiet on_accounts_def Server_Register_def
        answer_user_def reply_def fromProtoUser_def toProtoUser_def)
  note run = this [unfolded assms(3)]
  show ?thesis
  proof (cases res)
    case (Inl err)
    with run assms(4) t show ?thesis by (auto simp: reply_def split: if_splits)
  next
    case (Inr u)
    with run have "hs_Data x = RegisteredUserData (u_ID u) (u_Email u) (to_milli (u_CreatedAt u))"
      "w' = w\<lparr>gw_accounts := d', gw_calls := gw_calls w + 1\<rparr>" by (simp_all add: reply_def)
    with R [unfolded Inr] show ?thesis by blast
  qed
qed

text \<open>C11: registration, login and the first authenticated request fit together, through the handlers, the messages,
  the services and the tables. After a registration that was accepted, a login with any spelling of the address
  and the same password yields a token; with it, within its lifetime, the current user is the registered one,
  without any role.
\<close>

theorem register_login_me:
  assumes "quiet_users b" and "bcrypt_ok (bk_bcrypt b)" and "jwt_ok J" and "accounts_ok (bk_text b) (gw_accounts w)"
    and "hr_Credentials r = Some (email, p)" and "gateway b parse_time J tokens now Post_register r w = (x, w1)" and "hs_Status x = 200"
    and "hr_Credentials r2 = Some (email2, p)"
    and "fst (normalizeEmail (bk_text b) email2) = fst (normalizeEmail (bk_text b) email)"
  shows "\<exists>i created tok. hs_Data x = RegisteredUserData i (fst (normalizeEmail (bk_text b) email)) created \<and>
    gateway b parse_time J tokens now2 Post_login r2 w1 =
      (OkJson (LoginData tok (ExpiresInSeconds tokens)), w1\<lparr>gw_calls := gw_calls w1 + 1\<rparr>) \<and>
    (\<forall>now3 r3 w2. hr_Authorization r3 = ''Bearer '' @ tok \<and> Truncate now2 second \<le> now3 \<and>
        now3 < Truncate (now2 + tm_ttl tokens) second \<and> gw_accounts w2 = gw_accounts w1 \<longrightarrow>
      gateway b parse_time J tokens now3 Get_me r3 w2 =
        (OkJson (CurrentUserData i (fst (normalizeEmail (bk_text b) email)) []), w2\<lparr>gw_calls := gw_calls w2 + 2\<rparr>))"
proof -
  from gatewayRegister_ok [OF assms(1,5-7)] obtain u d' and e :: server_env where
    reg: "Register (bk_text b) (bk_bcrypt b) (quiet 0) (se_salt e) (se_dbnow e) (se_now e) email p (gw_accounts w) = (Inr u, d')"
    and data: "hs_Data x = RegisteredUserData (u_ID u) (u_Email u) (to_milli (u_CreatedAt u))"
    and w1: "w1 = w\<lparr>gw_accounts := d', gw_calls := gw_calls w + 1\<rparr>" by blast
  note U = registered_user [OF assms(4) reg]
  have d': "gw_accounts w1 = d'" by (simp add: w1)
  obtain tok where tok: "Issue J tokens now2 (u_ID u) = Inr tok" using Issue_total [OF assms(3) U(1)] by blast
  from registration_usable [OF assms(2,4) reg assms(9), of "[]" d' "bk_dummyHash b" "bk_attach b" 0 p] obtain h where
    "Authenticate (bk_text b) (bk_bcrypt b) (bk_dummyHash b) (quiet 0) email2 p d' = (Inr (u\<lparr>u_CreatedAt := Truncate (se_dbnow e) microsecond\<rparr>), [h], d')"
    by auto
  then have login: "gateway b parse_time J tokens now2 Post_login r2 w1 =
      (OkJson (LoginData tok (ExpiresInSeconds tokens)), w1\<lparr>gw_calls := gw_calls w1 + 1\<rparr>)"
    using tok d' by (intro gatewayLogin_ok [OF assms(1,8)]) simp_all
  have "gateway b parse_time J tokens now3 Get_me r3 w2 = (OkJson (CurrentUserData (u_ID u) (u_Email u) []), w2\<lparr>gw_calls := gw_calls w2 + 2\<rparr>)"
    if r3: "hr_Authorization r3 = ''Bearer '' @ tok" and now3: "Truncate now2 second \<le> now3" "now3 < Truncate (now2 + tm_ttl tokens) second"
      and w2: "gw_accounts w2 = gw_accounts w1" for now3 r3 w2
  proof -
    have "token_user J tokens now3 r3 = Some (u_ID u)"
      using token_user_bearer [OF _ _ r3] issued_printable [OF assms(3) tok] parse_issued [OF assms(3) tok] now3 by simp
    from gatewayCurrentUser_ok [OF assms(1) this, of w2 "u\<lparr>u_CreatedAt := Truncate (se_dbnow e) microsecond\<rparr>"] U(3,4) w2 d' show ?thesis by simp
  qed
  with login data U(2) show ?thesis by auto
qed

section \<open>Everybody's own data\<close>

lemma map_reply_Inr: "map_reply f y = (Inr v, s) \<longleftrightarrow> (\<exists>z. y = (Inr z, s) \<and> v = f z)"
  by (auto simp: map_reply_def split: prod.splits sum.splits)

lemma remote_Inr:
  assumes "undisturbed (bk_net b)" and "remote b f w = (Inr z, w')"
  shows "\<exists>v. f (bk_server b (gw_calls w)) w = (Inr z, v)"
  using remote_cases [OF assms] by auto

lemma find_order_owned:
  assumes "undisturbed env" and "find_order t env k cond d = (Inr v, d')"
  shows "\<exists>row \<in> set (od_orders d). cond row \<and> o_ID v = or_id row \<and> o_OrderNo v = or_order_no row \<and> o_UserID v = or_user_id row"
proof -
  obtain row d1 where r: "read_db (env k) (\<lambda>d. find cond (od_orders d)) d = (Inr (Some row), d1)" "\<exists>items. v = load_order row items"
    using assms(2) by (auto simp: find_order_def split: prod.splits sum.splits option.splits)
  from read_db_undisturbed(2) [OF assms(1) r(1)] have "find cond (od_orders d) = Some row" by simp
  from find_Some_iff [THEN iffD1, OF this] have "row \<in> set (od_orders d)" "cond row" by auto
  with r(2) show ?thesis by (auto simp: load_order_def)
qed

lemma ListOwned_owned:
  assumes "undisturbed env" and "ListOwned env u page pageSize d = (Inr found, d')" and "n \<in> set (pg_Items found)"
  shows "\<exists>row \<in> set (nd_notifications d). nt_user_id row = u \<and> nt_id row = n_ID n"
proof -
  obtain n0 rows d1 d2 where r0: "read_db (env 0) (\<lambda>d. int (length (owned u d))) d = (Inr n0, d1)" and r: "read_db (env 1) (\<lambda>d. take (nat pageSize) (drop (nat (wrap_i64 (wrap_i64 (page - 1) * pageSize))) (owned u d))) d1 = (Inr rows, d2)"
    "pg_Items found = map scan_notification rows"
    using assms(2) by (auto simp: ListOwned_def Let_def split: prod.splits sum.splits if_splits)
  from read_db_undisturbed(2) [OF assms(1) r(1)] read_db_undisturbed(2) [OF assms(1) r0] have "set rows \<subseteq> set (owned u d)"
    by (auto dest!: in_set_takeD in_set_dropD)
  then have "\<forall>row \<in> set rows. row \<in> set (nd_notifications d) \<and> nt_user_id row = u" by (auto simp: owned_def)
  with assms(3) r(2) show ?thesis by (auto simp: scan_notification_def)
qed

definition order_of :: "u64 \<Rightarrow> proto_order \<Rightarrow> order_db \<Rightarrow> bool" where
  "order_of u z d \<longleftrightarrow> (\<exists>row \<in> set (od_orders d). or_user_id row = u \<and> o_ID (fst z) = or_id row \<and> o_OrderNo (fst z) = or_order_no row)"

lemma GetOrder_owned:
  assumes "undisturbed env" and "GetOrder sc attach env u i d = (Inr z, d')"
  shows "order_of u z d"
proof -
  obtain x where "find_order ''find owned order'' env 0 (\<lambda>r. or_id r = i \<and> or_user_id r = u) d = (Inr x, d')"
    "z = toProtoOrder x (sourceFromOrderNo (o_OrderNo x))"
    using assms(2) by (auto simp: GetOrder_def Get_def FindOwned_def split: prod.splits sum.splits if_splits)
  with find_order_owned [OF assms(1) this(1)] show ?thesis by (auto simp: order_of_def toProtoOrder_def)
qed

lemma FindSeckillOrder_owned:
  assumes "undisturbed env" and "FindSeckillOrder sc attach env u no d = (Inr z, d')"
  shows "order_of u z d"
proof -
  obtain x where "find_order ''find owned order by number'' env 0
      (\<lambda>r. or_order_no r = TrimSpace (TrimSpace no) \<and> or_user_id r = u) d = (Inr x, d')" "z = toProtoOrder x ORDER_SOURCE_SECKILL"
    using assms(2)
    by (auto simp: FindSeckillOrder_def FindSeckill_def FindOwnedByOrderNo_def Let_def split: prod.splits sum.splits if_splits)
  with find_order_owned [OF assms(1) this(1)] show ?thesis by (auto simp: order_of_def toProtoOrder_def)
qed

text \<open>A backend in which nobody else acts on orders, notifications and Redis; failures remain.\<close>

definition quiet_readers :: "backend \<Rightarrow> bool" where
  "quiet_readers b \<longleftrightarrow> undisturbed (bk_net b) \<and>
     (\<forall>k. undisturbed (se_orders (bk_server b k)) \<and> undisturbed (se_notifications (bk_server b k)) \<and>
       undisturbed (se_redis (bk_server b k)))"

definition order_row_of :: "deployment \<Rightarrow> u64 \<Rightarrow> orderPayload \<Rightarrow> bool" where
  "order_row_of w u p \<longleftrightarrow> (\<exists>row \<in> set (od_orders (gw_orders w)). or_user_id row = u \<and> op_ID p = or_id row \<and> op_OrderNo p = or_order_no row)"

lemma found_order:
  assumes "quiet_readers b" and "oc_Get (gd_Orders (dependencies_of b)) u i w = (Inr v, w') \<or>
    oc_FindSeckill (gd_Orders (dependencies_of b)) u no w = (Inr v, w')"
  shows "order_row_of w u (toOrderPayload v)"
proof -
  let ?e = "bk_server b (gw_calls w)"
  have un: "undisturbed (bk_net b)" "undisturbed (se_orders ?e)" using assms(1) by (auto simp: quiet_readers_def)
  obtain z where "order_of u z (gw_orders w)" "v = fromProtoOrder z"
    using assms(2) GetOrder_owned [OF un(2)] FindSeckillOrder_owned [OF un(2)]
    by (fastforce simp: dependencies_of_def orderAdapter_def order_service_def map_reply_Inr on_orders_def dest!: remote_Inr [OF un(1)]
        split: prod.splits)
  then show ?thesis by (auto simp: order_row_of_def order_of_def toOrderPayload_def fromProtoOrder_def split: prod.splits)
qed

text \<open>What the stream of an item has recorded for a user under an order number.\<close>

definition stream_result_of :: "deployment \<Rightarrow> u64 \<Rightarrow> string \<Rightarrow> string \<Rightarrow> bool" where
  "stream_result_of w u no st \<longleftrightarrow> (\<exists>item. StreamOrderItemID (TrimSpace no) = Some item \<and>
     HGET (gw_redis w) (StreamResultsKey item) (TrimSpace no) = Some (FormatUint u @ ''|'' @ st))"

lemma Split_nonempty: "Split s c \<noteq> []"
  by (induction s) (auto split: list.splits)

lemma Split_one: "Split s c = [p] \<Longrightarrow> s = p"
  by (induction s arbitrary: p) (auto simp: Split_nonempty split: if_splits list.splits)

lemma Split_two: "Split s c = [p, q] \<Longrightarrow> s = p @ c # q"
  by (induction s arbitrary: p) (auto simp: Split_nonempty split: if_splits list.splits dest: Split_one)

lemma FindStreamResult_recorded:
  assumes "interference c = id" and "FindStreamResult c g r u no = Inr st"
  shows "\<exists>item. StreamOrderItemID no = Some item \<and> HGET r (StreamResultsKey item) (TrimSpace no) = Some (FormatUint u @ ''|'' @ st)"
    and "st \<in> {AsyncResultQueued, AsyncResultSucceeded, AsyncResultFailed}"
proof -
  obtain item v where i: "StreamOrderItemID no = Some item" "fst (call c (HGet (StreamResultsKey item) (TrimSpace no)) r) = Inr v"
    "Split v (CHR ''|'') = [FormatUint u, st]" "st \<in> {AsyncResultQueued, AsyncResultSucceeded, AsyncResultFailed}"
    using assms(2) by (auto simp: FindStreamResult_def split: option.splits if_splits sum.splits list.splits)
  have "HGET r (StreamResultsKey item) (TrimSpace no) = Some v"
    using i(2) assms(1) by (auto simp: call_def HGet_def Let_def split: outcome.splits option.splits)
  with i(1) Split_two [OF i(3)]
  show "\<exists>item. StreamOrderItemID no = Some item \<and> HGET r (StreamResultsKey item) (TrimSpace no) = Some (FormatUint u @ ''|'' @ st)"
    by simp
  show "st \<in> {AsyncResultQueued, AsyncResultSucceeded, AsyncResultFailed}" by (rule i(4))
qed

lemma found_result:
  assumes "quiet_readers b" and "zc_GetProjectedResult (gd_Seckill (dependencies_of b)) u no w = (Inr st, w')"
  shows "stream_result_of w u no st"
proof -
  let ?e = "bk_server b (gw_calls w)"
  have un: "undisturbed (bk_net b)" "interference (se_redis ?e 0) = id" using assms(1) by (auto simp: quiet_readers_def undisturbed_def)
  obtain n s where s: "GetResult (bk_status b) (bk_attach b) (se_redis ?e 0) (gw_gate w) (gw_redis w) u no = Inr (n, s)"
    "st = from_result_status s"
    using assms(2) by (auto simp: dependencies_of_def seckillAdapter_def seckill_service_def map_reply_Inr dest!: remote_Inr [OF un(1)])
  then obtain st' where "FindStreamResult (se_redis ?e 0) (gw_gate w) (gw_redis w) u (TrimSpace no) = Inr st'"
    "s = toProtoResultStatus st'"
    by (auto simp: GetResult_def or_map_def GetProjectedResult_def Let_def split: sum.splits if_splits)
  with FindStreamResult_recorded [OF un(2) this(1)] s(2) show ?thesis
    by (auto simp: stream_result_of_def toProtoResultStatus_def from_result_status_def)
qed

text \<open>Looking for the order leaves the results alone.\<close>

lemma served_redis: "served v = served w \<Longrightarrow> gw_redis v = gw_redis w"
  by (drule arg_cong [where f = gw_redis]) (simp add: served_def)

lemma find_keeps_redis:
  assumes "quiet_readers b" and "oc_FindSeckill (gd_Orders (dependencies_of b)) u no w = (res, w1)"
  shows "gw_redis w1 = gw_redis w"
proof -
  have un: "undisturbed (bk_net b)" using assms(1) by (simp add: quiet_readers_def)
  show ?thesis
    using assms(2)
    by (auto simp: dependencies_of_def orderAdapter_def order_service_def map_reply_def on_orders_def
        dest!: remote_cases [OF un] served_redis split: prod.splits sum.splits)
qed

lemma found_notifications:
  assumes "quiet_readers b" and "tc_List (gd_Notifications (dependencies_of b)) u page pageSize w = (Inr found, w')" and "n \<in> set (pg_Items found)"
  shows "\<exists>row \<in> set (nd_notifications (gw_notifications w)). nt_user_id row = u \<and> nt_id row = n_ID n"
proof -
  let ?e = "bk_server b (gw_calls w)"
  have un: "undisturbed (bk_net b)" "undisturbed (se_notifications ?e)" using assms(1) by (auto simp: quiet_readers_def)
  obtain pg d1 d' items p ps m where l: "ListNotifications (bk_attach b) (se_notifications ?e) u pg d1 = (Inr (items, p, ps, m), d')"
    "d1 = gw_notifications w" "pg_Items found = map fromProtoNotification items"
    using assms(2) by (fastforce simp: dependencies_of_def notificationAdapter_def notification_service_def map_reply_Inr on_notifications_def
        dest!: remote_Inr [OF un(1)] split: prod.splits)
  then obtain q qs found2 where "ListOwned (se_notifications ?e) u q qs (gw_notifications w) = (Inr found2, d')"
    "items = map Notification_toProto (pg_Items found2)"
    by (auto simp: ListNotifications_def Notification_List_def Let_def split: prod.splits sum.splits option.splits if_splits)
  from ListOwned_owned [OF un(2) this(1)] this(2) l(3) assms(3) show ?thesis
    by (auto simp: fromProtoNotification_def Notification_toProto_def)
qed

lemma no_data: "hs_Data (writeRPCError sc err m) = NoData"
  by (cases "sc err") (simp_all add: writeRPCError_def)

text \<open>What the handler of the seckill result does for a user and an order number.\<close>

definition seckill_answer where
  "seckill_answer sc orders queue userID orderNo s = (case oc_FindSeckill orders userID orderNo s of
     (Inr created, s1) \<Rightarrow> (OkJson (SeckillOrderResultData orderNo AsyncResultSucceeded (Some (toOrderPayload created))), s1)
   | (Inl err, s1) \<Rightarrow>
       if sc err \<noteq> NotFound then (writeRPCError sc err ''seckill result unavailable'', s1)
       else reply (\<lambda>err. if sc err = NotFound then writeError 404 ''SECKILL_ORDER_NOT_FOUND'' ''seckill order request not found''
              else writeRPCError sc err ''seckill result unavailable'')
            (\<lambda>projection. OkJson (SeckillOrderResultData orderNo projection None))
            (zc_GetProjectedResult queue userID orderNo s1))"

lemma seckill_result_answers: "gatewaySeckillResult sc orders queue = with_user (\<lambda>userID r s. case hr_PathText r of
    None \<Rightarrow> (invalid ''invalid seckill order number'', s)
  | Some orderNo \<Rightarrow> seckill_answer sc orders queue userID orderNo s)"
  unfolding gatewaySeckillResult_def seckill_answer_def by (rule refl)

lemma seckill_answer_data:
  assumes "seckill_answer sc orders queue u i w = (x, w')" and "hs_Data x = SeckillOrderResultData no st p"
  obtains (order) v where "oc_FindSeckill orders u i w = (Inr v, w')" and "no = i" and "p = Some (toOrderPayload v)"
  | (result) err w1 where "oc_FindSeckill orders u i w = (Inl err, w1)" and "zc_GetProjectedResult queue u i w1 = (Inr st, w')"
      and "no = i" and "p = None"
proof (cases "oc_FindSeckill orders u i w")
  case (Pair res w1)
  show ?thesis
  proof (cases res)
    case (Inr v)
    with Pair assms show ?thesis by (intro order [of v]) (auto simp: seckill_answer_def OkJson_def)
  next
    case (Inl err)
    obtain r2 w2 where z: "zc_GetProjectedResult queue u i w1 = (r2, w2)" by fastforce
    with Inl Pair assms no_data show ?thesis
      by (cases r2) (auto simp: seckill_answer_def reply_def no_data OkJson_def split: if_splits intro: result)
  qed
qed

lemma tabled_failures: "tabled (writeRPCError sc err ''invalid order'')" "tabled (writeRPCError sc err ''invalid notification query'')"
  "tabled (writeRPCError sc err ''seckill result unavailable'')" "tabled (writeError 404 ''SECKILL_ORDER_NOT_FOUND'' ''seckill order request not found'')"
  "tabled (invalid ''invalid order ID'')" "tabled (invalid ''invalid pagination'')" "tabled (invalid ''invalid seckill order number'')"
  by (rule tabled_writeRPCError; simp add: gateway_errors_def)+ (simp_all add: tabled_def gateway_errors_def)

text \<open>C12: a user reads nobody else's data. An order that is answered by its identifier belongs to the user of the
  token. The answer for a seckill request is for the number in the path and comes from what is recorded for the user of the token: with
  an order, that order is theirs; without one, the state is the one that the results of the item's stream hold for
  them under that number. Every notification of a list is theirs. The body and the path cannot name another user.
\<close>

theorem own_data_only:
  assumes "quiet_readers b" and "gateway b parse_time J tokens now route r w = (x, w')" and "\<not> tabled x"
  shows "(route = Get_order \<longrightarrow> (\<exists>u p. token_user J tokens now r = Some u \<and> hs_Data x = OrderData p \<and> order_row_of w u p)) \<and>
    (route = Get_seckill_result \<longrightarrow> (\<forall>no st p. hs_Data x = SeckillOrderResultData no st p \<longrightarrow>
       (\<exists>u. token_user J tokens now r = Some u \<and> hr_PathText r = Some no \<and>
          (case p of Some p \<Rightarrow> order_row_of w u p | None \<Rightarrow> stream_result_of w u no st)))) \<and>
    (route = Get_notifications \<longrightarrow> (\<forall>ps page size n. hs_Data x = NotificationListData ps page size n \<longrightarrow>
       (\<exists>u. token_user J tokens now r = Some u \<and> (\<forall>p \<in> set ps. \<exists>row \<in> set (nd_notifications (gw_notifications w)).
          nt_user_id row = u \<and> nt_id row = np_ID p))))"
proof (intro conjI impI allI)
  let ?orders = "gd_Orders (dependencies_of b)"
  assume "route = Get_order"
  with assms(2) have "authenticate J tokens now (gatewayGetOrder (bk_status b) ?orders) r w = (x, w')"
    by (simp add: gateway_def RegisterGatewayRPCRoutes_def)
  from user_route [OF this [unfolded gatewayGetOrder_def] assms(3)] tabled_failures assms(3) obtain u i v where F:
    "token_user J tokens now r = Some u" "oc_Get ?orders u i w = (Inr v, w')" "x = OkJson (OrderData (toOrderPayload v))"
    by (auto simp del: response_defs split: option.splits dest!: reply_good)
  with found_order [OF assms(1) disjI1 [OF F(2)]] show "\<exists>u p. token_user J tokens now r = Some u \<and> hs_Data x = OrderData p \<and> order_row_of w u p" by auto
next
  let ?orders = "gd_Orders (dependencies_of b)"
  fix no st p
  assume "route = Get_seckill_result" and p: "hs_Data x = SeckillOrderResultData no st p"
  with assms(2) have "authenticate J tokens now (gatewaySeckillResult (bk_status b) ?orders (gd_Seckill (dependencies_of b))) r w = (x, w')"
    by (simp add: gateway_def RegisterGatewayRPCRoutes_def)
  from user_route [OF this [unfolded seckill_result_answers] assms(3)] p obtain u i where u: "token_user J tokens now r = Some u"
    and path: "hr_PathText r = Some i"
    and i: "seckill_answer (bk_status b) ?orders (gd_Seckill (dependencies_of b)) u i w = (x, w')"
    by (auto split: option.splits)
  from i p show "\<exists>u. token_user J tokens now r = Some u \<and> hr_PathText r = Some no \<and>
      (case p of Some p \<Rightarrow> order_row_of w u p | None \<Rightarrow> stream_result_of w u no st)"
  proof (cases rule: seckill_answer_data)
    case (order v)
    with found_order [OF assms(1) disjI2 [OF order(1)]] u path show ?thesis by auto
  next
    case (result err w1)
    with found_result [OF assms(1) result(2)] find_keeps_redis [OF assms(1) result(1)] u path show ?thesis
      by (auto simp: stream_result_of_def)
  qed
next
  fix ps page size n
  assume "route = Get_notifications" and p: "hs_Data x = NotificationListData ps page size n"
  with assms(2) have "authenticate J tokens now (gatewayListNotifications (bk_status b) (gd_Notifications (dependencies_of b))) r w = (x, w')"
    by (simp add: gateway_def RegisterGatewayRPCRoutes_def)
  from user_route [OF this [unfolded gatewayListNotifications_def] assms(3)] tabled_failures assms(3) p obtain u i j found where
    "token_user J tokens now r = Some u" "tc_List (gd_Notifications (dependencies_of b)) u i j w = (Inr found, w')"
    "ps = map toNotificationPayload (pg_Items found)"
    by (auto simp del: response_defs split: option.splits dest!: reply_good) (auto simp: OkJson_def)
  with found_notifications [OF assms(1)] show "\<exists>u. token_user J tokens now r = Some u \<and>
      (\<forall>p \<in> set ps. \<exists>row \<in> set (nd_notifications (gw_notifications w)). nt_user_id row = u \<and> nt_id row = np_ID p)"
    by (fastforce simp: toNotificationPayload_def)
qed

section \<open>A small deployment\<close>

text \<open>A deployment with one registered administrator, one order and one notification; nothing fails.\<close>

definition demo_server :: server_env where
  "demo_server = \<lparr>se_accounts = quiet, se_catalog = quiet, se_snapshots = \<lambda>_. quiet 0, se_orders = quiet, se_inventory = quiet,
     se_activities = quiet, se_redis = quiet, se_notifications = quiet, se_dbnow = 5000, se_now = 7000, se_salt = 0,
     se_random = Inr (replicate 8 0)\<rparr>"

definition demo_backend :: backend where
  "demo_backend = \<lparr>bk_status = demo_status_code, bk_attach = True, bk_text = demo_text, bk_bcrypt = demo_bcrypt, bk_dummyHash = ''x'',
     bk_redis = demo_lib, bk_net = quiet, bk_server = \<lambda>_. demo_server\<rparr>"

definition demo_deployment :: deployment where
  "demo_deployment = \<lparr>gw_calls = 0, gw_accounts = demo_registered\<lparr>ac_user_roles := [(1, 1)]\<rparr>, gw_catalog = empty_catalog,
     gw_orders = demo_orders\<lparr>od_orders := [\<lparr>or_id = 9, or_order_no = ''T1'', or_user_id = 1, or_status = 1, or_total_amount_cent = 5,
       or_created_at = 0\<rparr>]\<rparr>, gw_inventory = \<lparr>inv_items = [], inv_reservations = []\<rparr>, gw_activities = [], gw_gate = demo_gate,
     gw_redis = empty_redis, gw_notifications = no_notifications\<rparr>"

definition bearing :: "string \<Rightarrow> u64 \<Rightarrow> http_request" where
  "bearing tok i = (demo_http None)\<lparr>hr_Authorization := ''Bearer '' @ tok, hr_PathID := Some i, hr_Roles := Some (i, [])\<rparr>"

lemma demo_backend_quiet: "calm demo_backend" "quiet_users demo_backend" "quiet_readers demo_backend"
  by (simp_all add: calm_def quiet_users_def quiet_readers_def demo_backend_def demo_server_def)

lemma demo_token:
  obtains tok where "Issue demo_jwt demo_manager 0 1 = Inr tok" "secret_kept demo_jwt demo_manager tok"
    "Fields (TrimSpace (''Bearer '' @ tok)) = [''Bearer'', tok]"
    "\<And>r. hr_Authorization r = ''Bearer '' @ tok \<Longrightarrow> token_user demo_jwt demo_manager 0 r = Some 1"
proof -
  obtain tok where t: "Issue demo_jwt demo_manager 0 1 = Inr tok" using Issue_total [OF demo_jwt_ok, of 1] by auto
  have p: "printable tok" "tok \<noteq> []" using issued_printable [OF demo_jwt_ok t] by auto
  have now: "Truncate (0 :: time) second = 0" "Truncate (900 * second) second = 900 * second" by (simp_all add: Truncate_def zero_time_def)
  have "ParseUserID demo_jwt demo_manager 0 tok = Inr 1"
    using parse_issued [OF demo_jwt_ok t, of 0] now by (simp add: demo_manager_def)
  with that [OF t] token_user_bearer [OF p] bearer_fields [OF p] t show ?thesis by (auto simp: secret_kept_def issued_by_def)
qed


text \<open>The administrator takes away their own roles.\<close>

lemma demo_replace:
  assumes "token_user demo_jwt demo_manager 0 (bearing tok 1) = Some 1"
  shows "gateway demo_backend (\<lambda>_. None) demo_jwt demo_manager 0 Put_user_roles (bearing tok 1) demo_deployment =
    (OkJson (UserRolesData 1 []), demo_deployment\<lparr>gw_calls := 3, gw_accounts := demo_registered\<rparr>)"
proof -
  have "authenticate demo_jwt demo_manager 0 h (bearing tok 1) w = h (bearing tok 1\<lparr>hr_UserID := Some 1\<rparr>) w" for h :: "deployment handler" and w
    using authenticate_cases(1) [of demo_jwt demo_manager 0 h "bearing tok 1" w] assms by simp
  then show ?thesis
    by (simp add: gateway_def RegisterGatewayRPCRoutes_def Let_def gatewayRequirePermission_def gatewayReplaceRoles_def with_user_def
      gatewayUserID_def dependencies_of_def userAdapter_def user_service_def demo_backend_def demo_server_def remote_quiet on_accounts_def
      Server_HasPermission_def HasPermission_def Repository_HasPermission_def answer_user_def permitted_def
      Server_GetUserRoles_def UserRoles_def Repository_UserRoles_def role_codes_def
      Server_ReplaceUserRoles_def ReplaceUserRoles_def Repository_ReplaceUserRoles_def replace_roles_tx_def
      reply_def bearing_def demo_http_def demo_deployment_def demo_registered_def migrated_accounts_def byte_def)
qed

theorem admin_needs_permission_witness:
  "\<exists>tok x w'. gateway demo_backend (\<lambda>_. None) demo_jwt demo_manager 0 Put_user_roles (bearing tok 1) demo_deployment = (x, w') \<and>
     hs_Status x = 200 \<and> (\<exists>u. permitted demo_text u ''rbac:manage'' (gw_accounts demo_deployment))"
proof -
  obtain tok where t: "secret_kept demo_jwt demo_manager tok" "Fields (TrimSpace (''Bearer '' @ tok)) = [''Bearer'', tok]"
    "\<And>r. hr_Authorization r = ''Bearer '' @ tok \<Longrightarrow> token_user demo_jwt demo_manager 0 r = Some 1" using demo_token by metis
  have "secret_kept demo_jwt demo_manager ''Bearer''"
  proof -
    have "hd (enc_text s @ x) \<noteq> CHR ''B''" for s x by (cases s) (simp_all add: enc_text_def)
    then have "demo_sign key c \<noteq> ''Bearer''" for key c unfolding demo_sign_def by (metis list.sel(1))
    then show ?thesis by (simp add: secret_kept_def demo_jwt_def)
  qed
  with t(1,2) have s: "\<forall>x \<in> set (Fields (TrimSpace (hr_Authorization (bearing tok 1)))). secret_kept demo_jwt demo_manager x"
    by (simp add: bearing_def)
  have "token_user demo_jwt demo_manager 0 (bearing tok 1) = Some 1" by (rule t(3)) (simp add: bearing_def)
  note run = demo_replace [OF this]
  from admin_needs_permission [OF demo_backend_quiet(1) demo_jwt_ok s _ run] run show ?thesis
    by (intro exI [of _ tok]) (auto simp: tabled_def demo_backend_def)
qed

theorem register_login_me_witness:
  "\<exists>x w1 tok created. gateway demo_backend (\<lambda>_. None) demo_jwt demo_manager 0 Post_register
      ((demo_http None)\<lparr>hr_Credentials := Some (''A@b'', ''password'')\<rparr>) (demo_deployment\<lparr>gw_accounts := migrated_accounts\<rparr>) = (x, w1) \<and>
    hs_Data x = RegisteredUserData 1 ''a@b'' created \<and>
    gateway demo_backend (\<lambda>_. None) demo_jwt demo_manager 0 Post_login
      ((demo_http None)\<lparr>hr_Credentials := Some (''a@B'', ''password'')\<rparr>) w1 =
      (OkJson (LoginData tok 900), w1\<lparr>gw_calls := gw_calls w1 + 1\<rparr>)"
proof -
  let ?r = "\<lambda>email. (demo_http None)\<lparr>hr_Credentials := Some (email, ''password'')\<rparr>"
  let ?w = "demo_deployment\<lparr>gw_accounts := migrated_accounts\<rparr>"
  let ?x = "OkJson (RegisteredUserData 1 ''a@b'' (to_milli (to_milli 7000)))"
  have run: "gateway demo_backend (\<lambda>_. None) demo_jwt demo_manager 0 Post_register (?r ''A@b'') ?w =
      (?x, ?w\<lparr>gw_calls := 1, gw_accounts := demo_registered\<rparr>)"
    using demo_registration by (simp add: to_milli_def gateway_def RegisterGatewayRPCRoutes_def Let_def gatewayRegister_def dependencies_of_def
        userAdapter_def user_service_def demo_backend_def demo_server_def remote_quiet on_accounts_def Server_Register_def
        answer_user_def reply_def fromProtoUser_def toProtoUser_def demo_http_def demo_deployment_def)
  from register_login_me [OF demo_backend_quiet(2) _ demo_jwt_ok _ _ run, of "''A@b''" "''password''" "?r ''a@B''" "''a@B''" 0] obtain tok where
    "gateway demo_backend (\<lambda>_. None) demo_jwt demo_manager 0 Post_login (?r ''a@B'') (?w\<lparr>gw_calls := 1, gw_accounts := demo_registered\<rparr>) =
      (OkJson (LoginData tok (ExpiresInSeconds demo_manager)), ?w\<lparr>gw_calls := 2, gw_accounts := demo_registered\<rparr>)"
    using demo_bcrypt_ok migrated_ok demo_address by (auto simp: demo_backend_def)
  with run show ?thesis by (intro exI [of _ ?x] exI) (auto simp: ExpiresInSeconds_def demo_manager_def)
qed

theorem own_data_only_witness:
  "\<exists>tok p. gateway demo_backend (\<lambda>_. None) demo_jwt demo_manager 0 Get_order (bearing tok 9) demo_deployment =
      (OkJson (OrderData p), demo_deployment\<lparr>gw_calls := 1\<rparr>) \<and> order_row_of demo_deployment 1 p"
proof -
  obtain tok where t: "\<And>r. hr_Authorization r = ''Bearer '' @ tok \<Longrightarrow> token_user demo_jwt demo_manager 0 r = Some 1" using demo_token by metis
  have u: "token_user demo_jwt demo_manager 0 (bearing tok 9) = Some 1" by (rule t) (simp add: bearing_def)
  have "authenticate demo_jwt demo_manager 0 h (bearing tok 9) w = h (bearing tok 9\<lparr>hr_UserID := Some 1\<rparr>) w" for h :: "deployment handler" and w
    using authenticate_cases(1) [of demo_jwt demo_manager 0 h "bearing tok 9" w] u by simp
  then have run: "gateway demo_backend (\<lambda>_. None) demo_jwt demo_manager 0 Get_order (bearing tok 9) demo_deployment =
      (OkJson (OrderData (toOrderPayload \<lparr>o_ID = 9, o_OrderNo = ''T1'', o_UserID = 1, o_Status = 1, o_TotalAmountCent = 5, o_Items = [], o_CreatedAt = to_milli 0\<rparr>)),
       demo_deployment\<lparr>gw_calls := 1\<rparr>)"
    by (simp add: gateway_def RegisterGatewayRPCRoutes_def Let_def gatewayGetOrder_def with_user_def gatewayUserID_def
      dependencies_of_def orderAdapter_def order_service_def demo_backend_def demo_server_def remote_quiet on_orders_def map_reply_def
      GetOrder_def Get_def FindOwned_def find_order_def load_order_def reply_def bearing_def demo_http_def demo_deployment_def demo_orders_def
      toProtoOrder_def fromProtoOrder_def sourceFromOrderNo_def
      findItems_def)
  have "\<not> tabled (OkJson (OrderData p))" for p by (simp add: tabled_def)
  with own_data_only [OF demo_backend_quiet(3) run] u run show ?thesis by (intro exI [of _ tok]) auto
qed

end
