(* ===== verification/Service.thy ===== *)
theory Service
  imports Purchase
begin

text \<open>
  The seckill service of a single process (\<open>internal/seckill/seckill.go\<close>): the purchase through the Redis gate and
  the database of \<open>Purchase\<close>, its asynchronous variant, and the administration of activities. A \<open>Service\<close> says
  which of its optional parts it was built with.
\<close>

section \<open>Construction\<close>

record Service =
  sv_repository :: bool
  sv_snapshotReader :: bool
  sv_activityCache :: bool
  sv_admissionGate :: bool
  sv_streamGate :: bool
  sv_streamResults :: bool
  sv_orderReader :: bool

definition NewService :: "bool \<Rightarrow> Service" where
  "NewService repository = \<lparr>sv_repository = repository, sv_snapshotReader = False, sv_activityCache = False,
     sv_admissionGate = False, sv_streamGate = False, sv_streamResults = False, sv_orderReader = False\<rparr>"

definition NewServiceWithCache :: "bool \<Rightarrow> bool \<Rightarrow> bool \<Rightarrow> Service result" where
  "NewServiceWithCache repository reader cache =
     (if \<not> repository \<or> \<not> reader \<or> \<not> cache
      then Inl (Plain ''seckill repository, snapshot reader, and activity cache are required'')
      else Inr ((NewService repository)\<lparr>sv_snapshotReader := reader, sv_activityCache := cache\<rparr>))"

definition NewServiceWithAdmission :: "bool \<Rightarrow> bool \<Rightarrow> bool \<Rightarrow> bool \<Rightarrow> Service result" where
  "NewServiceWithAdmission repository reader cache hasGate = (case NewServiceWithCache repository reader cache of
       Inl err \<Rightarrow> Inl err
     | Inr s \<Rightarrow> if \<not> hasGate then Inl (Plain ''seckill admission gate is required'') else Inr (s\<lparr>sv_admissionGate := hasGate\<rparr>))"

definition NewServiceWithStreamAdmission :: "bool \<Rightarrow> bool \<Rightarrow> bool \<Rightarrow> bool \<Rightarrow> bool \<Rightarrow> bool \<Rightarrow> bool \<Rightarrow> Service result" where
  "NewServiceWithStreamAdmission repository reader cache hasGate streamGate results orders =
     (case NewServiceWithAdmission repository reader cache hasGate of
        Inl err \<Rightarrow> Inl err
      | Inr s \<Rightarrow>
          if \<not> streamGate \<or> \<not> results \<or> \<not> orders
          then Inl (Plain ''seckill stream gate, result reader, and order reader are required'')
          else Inr (s\<lparr>sv_streamGate := streamGate, sv_streamResults := results, sv_orderReader := orders\<rparr>))"

definition StreamAsyncEnabled :: "Service \<Rightarrow> bool" where
  "StreamAsyncEnabled s \<longleftrightarrow> sv_streamGate s \<and> sv_streamResults s \<and> sv_orderReader s"

section \<open>Administration\<close>

definition Service_CreateActivity ::
  "shop step_env \<Rightarrow> time \<Rightarrow> CreateActivityInput \<Rightarrow> shop \<Rightarrow> Activity result \<times> shop" where
  "Service_CreateActivity c dbnow input0 d =
     (let input = input0\<lparr>ca_Name := TrimSpace (ca_Name input0)\<rparr> in
      if ca_Name input = [] \<or> IsZero (ca_StartAt input) \<or> IsZero (ca_EndAt input) \<or> \<not> ca_StartAt input < ca_EndAt input
      then (fail ErrInvalidArgument, d)
      else Legacy_CreateActivity c dbnow input d)"

definition Service_AddItem :: "shop env \<Rightarrow> time \<Rightarrow> AddItemInput \<Rightarrow> shop \<Rightarrow> Item result \<times> shop" where
  "Service_AddItem env dbnow input d =
     (if ai_ActivityID input = 0 \<or> ai_SKUID input = 0 \<or> ai_Stock input \<le> 0 then (fail ErrInvalidArgument, d)
      else Legacy_AddItem env dbnow input d)"

text \<open>Call 0 of the environment is the snapshot, the calls from 1 are the repository's.\<close>

definition Service_SetActivityStatus ::
  "Service \<Rightarrow> shop env \<Rightarrow> redis env \<Rightarrow> u64 \<Rightarrow> nat \<Rightarrow> shop \<times> redis \<Rightarrow> unit result \<times> shop \<times> redis" where
  "Service_SetActivityStatus s env renv activityID status = (\<lambda>(d, r).
     if activityID = 0 \<or> (status \<noteq> StatusEnabled \<and> status \<noteq> StatusDisabled) then (fail ErrInvalidArgument, d, r)
     else if \<not> sv_activityCache s then
       (case Legacy_SetActivityStatus (\<lambda>k. env (k + 1)) activityID status d of (res, d') \<Rightarrow> (res, d', r))
     else (case LoadPreheatSnapshot (env 0) activityID d of
         (Inl err, d1) \<Rightarrow> (Inl err, d1, r)
       | (Inr snapshot, d1) \<Rightarrow>
           (let ids = itemIDs (ps_Items snapshot) in
            if status = StatusEnabled then
              (case InvalidateItems renv 0 r ids of
                 (Some err, r1) \<Rightarrow> (Inl err, d1, r1)
               | (None, r1) \<Rightarrow> (case Legacy_SetActivityStatus (\<lambda>k. env (k + 1)) activityID status d1 of (res, d2) \<Rightarrow> (res, d2, r1)))
            else
              (case Legacy_SetActivityStatus (\<lambda>k. env (k + 1)) activityID status d1 of
                 (Inl err, d2) \<Rightarrow> (Inl err, d2, r)
               | (Inr _, d2) \<Rightarrow> (case InvalidateItems renv 0 r ids of (e, r1) \<Rightarrow> (of_error e, d2, r1))))))"

definition Service_PreheatActivity ::
  "Service \<Rightarrow> shop step_env \<Rightarrow> redis env \<Rightarrow> time \<Rightarrow> u64 \<Rightarrow> shop \<times> redis \<Rightarrow> PreheatResult result \<times> shop \<times> redis" where
  "Service_PreheatActivity s c renv now activityID = (\<lambda>(d, r).
     if activityID = 0 then (fail ErrInvalidArgument, d, r)
     else if \<not> sv_snapshotReader s \<or> \<not> sv_activityCache s then (fail ErrAdmissionFailure, d, r)
     else (case LoadPreheatSnapshot c activityID d of
         (Inl err, d1) \<Rightarrow> (Inl err, d1, r)
       | (Inr snapshot, d1) \<Rightarrow>
           if a_Status (ps_Activity snapshot) \<noteq> StatusEnabled \<or> \<not> now < a_StartAt (ps_Activity snapshot)
           then (fail ErrUnavailable, d1, r)
           else (case PublishActivity renv r snapshot now of
               ((Some err, _), r1) \<Rightarrow> (Inl err, d1, r1)
             | ((None, res), r1) \<Rightarrow> (Inr res, d1, r1))))"

section \<open>Purchases\<close>

text \<open>\<open>reserve\<close>: the order number, whether the gate replayed it, and the time of the reservation.\<close>

definition service_reserve ::
  "Service \<Rightarrow> redis_lib \<Rightarrow> redis env \<Rightarrow> time \<Rightarrow> random \<Rightarrow> u64 \<Rightarrow> u64 \<Rightarrow> gate \<times> redis \<Rightarrow>
     (string \<times> bool \<times> time) result \<times> gate \<times> redis" where
  "service_reserve s L renv now0 rnd userID itemID = (\<lambda>(g, r).
     if userID = 0 \<or> itemID = 0 then (fail ErrInvalidArgument, g, r)
     else (let now = Truncate now0 millisecond in
       case newOrderNo now rnd of
         Inl err \<Rightarrow> (Inl (Wrapf ''generate seckill order number'' err), g, r)
       | Inr candidate \<Rightarrow>
           if \<not> sv_admissionGate s then (Inr (candidate, False, now), g, r)
           else (case Reserve L renv g r \<lparr>ri_UserID = userID, ri_ItemID = itemID, ri_OrderNo = candidate, ri_Now = now\<rparr> of
               (Inl err, g1, r1) \<Rightarrow> (Inl err, g1, r1)
             | (Inr reservation, g1, r1) \<Rightarrow>
                 (let now1 = (if rv_Replayed reservation
                        then (case reservedAtFromOrderNo (rv_OrderNo reservation) of Some t \<Rightarrow> t | None \<Rightarrow> now) else now)
                  in (Inr (rv_OrderNo reservation, rv_Replayed reservation, now1), g1, r1)))))"

definition Service_Purchase ::
  "Service \<Rightarrow> StockMode \<Rightarrow> (nat \<Rightarrow> int \<Rightarrow> goerr option) \<Rightarrow> redis_lib \<Rightarrow> shop env \<Rightarrow> redis env \<Rightarrow> time \<Rightarrow> random \<Rightarrow>
     u64 \<Rightarrow> u64 \<Rightarrow> shop \<times> gate \<times> redis \<Rightarrow> PurchaseResult result \<times> shop \<times> gate \<times> redis" where
  "Service_Purchase s mode ctx L env renv now0 rnd userID itemID = (\<lambda>(d, g, r).
     case service_reserve s L renv now0 rnd userID itemID (g, r) of
       (Inl err, g1, r1) \<Rightarrow> (Inl err, d, g1, r1)
     | (Inr (orderNo, gateReplayed, now), g1, r1) \<Rightarrow>
         (case Repository_Purchase mode ctx env userID itemID orderNo now d of
            (Inl err, d1) \<Rightarrow> (Inl err, d1, g1, r1)
          | (Inr result, d1) \<Rightarrow> (Inr (result\<lparr>pu_Replayed := pu_Replayed result \<or> gateReplayed\<rparr>), d1, g1, r1)))"

text \<open>\<open>enqueueStream\<close> is the body of the queue service's \<open>Enqueue\<close>.\<close>

definition Service_Enqueue ::
  "Service \<Rightarrow> redis_lib \<Rightarrow> redis env \<Rightarrow> time \<Rightarrow> random \<Rightarrow> u64 \<Rightarrow> u64 \<Rightarrow> gate \<times> redis \<Rightarrow> AsyncSubmission result \<times> gate \<times> redis" where
  "Service_Enqueue s L renv now0 rnd userID itemID = (\<lambda>(g, r).
     if \<not> StreamAsyncEnabled s then (fail ErrQueueUnavailable, g, r) else Enqueue L renv now0 rnd userID itemID (g, r))"

definition Service_ProcessStreamTask ::
  "Service \<Rightarrow> StockMode \<Rightarrow> (nat \<Rightarrow> int \<Rightarrow> goerr option) \<Rightarrow> shop env \<Rightarrow> u64 \<Rightarrow> u64 \<Rightarrow> u64 \<Rightarrow> string \<Rightarrow> time \<Rightarrow> shop \<Rightarrow>
     PurchaseResult result \<times> shop" where
  "Service_ProcessStreamTask s mode ctx env userID activityID itemID orderNo reservedAt d =
     (if \<not> sv_repository s \<or> userID = 0 \<or> activityID = 0 \<or> itemID = 0 \<or> TrimSpace orderNo = [] \<or> IsZero reservedAt
      then (fail ErrInvalidArgument, d)
      else Repository_Purchase mode ctx env userID itemID (TrimSpace orderNo) reservedAt d)"

definition GetAsyncResult ::
  "Service \<Rightarrow> shop env \<Rightarrow> redis step_env \<Rightarrow> gate \<Rightarrow> redis \<Rightarrow> u64 \<Rightarrow> string \<Rightarrow> shop \<Rightarrow> AsyncResult result \<times> shop" where
  "GetAsyncResult s env c g r userID orderNo0 d =
     (let orderNo = TrimSpace orderNo0 in
      if userID = 0 \<or> orderNo = [] then (fail ErrAsyncResultNotFound, d)
      else if \<not> sv_orderReader s \<or> \<not> sv_streamResults s then (fail ErrAsyncResultNotFound, d)
      else (case FindOrderOwned env userID orderNo d of
          (Inr created, d1) \<Rightarrow> (Inr \<lparr>ar_OrderNo = orderNo, ar_Status = AsyncResultSucceeded, ar_Order = Some created\<rparr>, d1)
        | (Inl err, d1) \<Rightarrow>
            if \<not> errors_Is err ErrAsyncResultNotFound then (Inl err, d1)
            else (case FindStreamResult c g r userID orderNo of
                Inl resultErr \<Rightarrow> (Inl resultErr, d1)
              | Inr status \<Rightarrow> (Inr \<lparr>ar_OrderNo = orderNo, ar_Status = status, ar_Order = None\<rparr>, d1))))"

section \<open>The synchronous gate without failures\<close>

definition sync_sha_ok :: "redis_lib \<Rightarrow> gate \<Rightarrow> bool" where
  "sync_sha_ok L g \<longleftrightarrow> lib_sha1 L ReserveScript \<noteq> [] \<and> g_sha g \<in> {[], lib_sha1 L ReserveScript}"

lemma core_reserveScript: "reserveScript (core r) k1 k2 a1 a2 a3 = apsnd core (reserveScript r k1 k2 a1 a2 a3)"
  unfolding reserveScript_def core_ops core_HINCRBY Let_def
  by (auto simp: core_ops split: option.splits sum.splits bool.splits prod.splits)

lemma reserveScript_cong:
  assumes "core r = core r'"
  shows "fst (reserveScript r k1 k2 a1 a2 a3) = fst (reserveScript r' k1 k2 a1 a2 a3)"
    and "core (snd (reserveScript r k1 k2 a1 a2 a3)) = core (snd (reserveScript r' k1 k2 a1 a2 a3))"
  using core_reserveScript [of r k1 k2 a1 a2 a3] core_reserveScript [of r' k1 k2 a1 a2 a3] assms
  by (metis fst_apsnd snd_apsnd)+

lemma reserveScript_error: "reserveScript r k1 k2 a1 a2 a3 = (Inl e, r') \<Longrightarrow> r' = r"
  by (auto simp: reserveScript_def lua_reply_def split: if_splits sum.splits option.splits bool.splits)

lemma scriptSHA_quiet:
  assumes "sync_sha_ok L g" and "scriptSHA L (quiet k) g r = (res, g1, r1)"
  shows "res = Inr (lib_sha1 L ReserveScript) \<and> sync_sha_ok L g1 \<and> core r1 = core r"
  using assms by (auto simp: scriptSHA_def sync_sha_ok_def SCRIPT_LOAD_def split: if_splits)

text \<open>A script that is not in the cache is loaded and then executed once.\<close>

lemma evalWithReload_quiet:
  assumes sha: "sync_sha_ok L g" and X: "X = (\<lambda>r. reserveScript r k1 k2 a1 a2 a3)"
    and run: "evalWithReload L quiet (reloadScript L) (lib_sha1 L ReserveScript) [k1, k2] [a1, a2, a3] g r = (res, g2, r2)"
  shows "core r2 = core (snd (X r)) \<and> (\<forall>y. res = Inr y \<longleftrightarrow> fst (X r) = Inr y) \<and> sync_sha_ok L g2"
proof -
  let ?sha = "lib_sha1 L ReserveScript"
  have E: "EVALSHA L ?sha [k1, k2] [a1, a2, a3] r =
      (if ?sha \<in> set (scripts r) then X r else (Inl (Plain ''NOSCRIPT No matching script. Please use EVAL.''), r))" for r
    by (simp add: EVALSHA_def X)
  let ?r = "r\<lparr>scripts := ?sha # scripts r\<rparr>"
  have same: "fst (X ?r) = fst (X r)" "core (snd (X ?r)) = core (snd (X r))"
    unfolding X by (rule reserveScript_cong; simp)+
  show ?thesis
  proof (cases "?sha \<in> set (scripts r)")
    case True
    obtain a r1 where x: "X r = (a, r1)" by fastforce
    show ?thesis
    proof (cases a)
      case (Inl e)
      then have "r1 = r" using x reserveScript_error unfolding X by blast
      with run True x Inl same sha show ?thesis
        by (auto simp: evalWithReload_def E reloadScript_def SCRIPT_LOAD_def sync_sha_ok_def split: if_splits prod.splits)
    qed (use run True x sha in \<open>simp add: evalWithReload_def E\<close>)
  next
    case False
    have "HasPrefix ''NOSCRIPT No matching script. Please use EVAL.'' ''NOSCRIPT''" by (simp add: HasPrefix_def)
    with run False sha same show ?thesis
      by (auto simp: evalWithReload_def E reloadScript_def SCRIPT_LOAD_def sync_sha_ok_def isNoScript_def split: prod.splits)
  qed
qed

lemma Reserve_quiet:
  assumes sha: "sync_sha_ok L g" and run: "Reserve L quiet g r input = (res, g', r')"
    and x: "reserve_sync (ri_ItemID input) r (ri_UserID input) (UnixMilli (ri_Now input)) (ri_OrderNo input) = (rep, rs)"
  shows "sync_sha_ok L g' \<and> ((ri_UserID input = 0 \<or> ri_ItemID input = 0 \<or> TrimSpace (ri_OrderNo input) = [] \<or> IsZero (ri_Now input)) \<and>
      (\<exists>e. res = Inl e) \<and> core r' = core r \<or>
    core r' = core rs \<and> res = rep \<and> ri_OrderNo input \<noteq> [] \<and>
      \<not> (ri_UserID input = 0 \<or> ri_ItemID input = 0 \<or> TrimSpace (ri_OrderNo input) = [] \<or> IsZero (ri_Now input)))"
proof (cases "ri_UserID input = 0 \<or> ri_ItemID input = 0 \<or> TrimSpace (ri_OrderNo input) = [] \<or> IsZero (ri_Now input)")
  case True
  with run sha show ?thesis by (auto simp: Reserve_def)
next
  case False
  then have ono: "ri_OrderNo input \<noteq> []" by auto
  let ?X = "\<lambda>r. reserveScript r (StateKey (ri_ItemID input)) (BuyersKey (ri_ItemID input)) (FormatUint (ri_UserID input))
     (FormatInt (UnixMilli (ri_Now input))) (ri_OrderNo input)"
  obtain a g1 r1 where s: "scriptSHA L (quiet 0) g r = (a, g1, r1)" by (metis prod.exhaust)
  note s' = scriptSHA_quiet [OF sha s]
  obtain b g2 r2 where e: "evalWithReload L quiet (reloadScript L) (lib_sha1 L ReserveScript)
      [StateKey (ri_ItemID input), BuyersKey (ri_ItemID input)]
      [FormatUint (ri_UserID input), FormatInt (UnixMilli (ri_Now input)), ri_OrderNo input] g1 r1 = (b, g2, r2)"
    by (metis prod.exhaust)
  have e': "core r2 = core (snd (?X r1)) \<and> (\<forall>y. b = Inr y \<longleftrightarrow> fst (?X r1) = Inr y) \<and> sync_sha_ok L g2"
    by (rule evalWithReload_quiet [OF _ refl e]) (use s' in simp)
  have same: "fst (?X r1) = fst (?X r)" "core (snd (?X r1)) = core (snd (?X r))"
    by (rule reserveScript_cong; use s' in simp)+
  have eq: "res = (case b of Inl e \<Rightarrow> Inl (admissionFailure ''execute reserve script'') | Inr reply \<Rightarrow> parseReservation reply)"
    "g' = g2" "r' = r2"
    using run False s s' e by (auto simp: Reserve_def Let_def split: sum.splits)
  have rep: "rep = (case fst (?X r) of Inl e \<Rightarrow> Inl (admissionFailure ''execute reserve script'') | Inr reply \<Rightarrow> parseReservation reply)"
    "rs = snd (?X r)"
    using x by (auto simp: reserve_sync_def split: sum.splits prod.splits)
  have b: "b = Inr y \<longleftrightarrow> fst (?X r) = Inr y" for y using e' same(1) by metis
  have "res = rep"
  proof (cases b)
    case (Inl err)
    with b obtain err' where "fst (?X r) = Inl err'" by (metis sum.exhaust sum.distinct(1))
    then show ?thesis unfolding eq(1) rep(1) Inl by simp
  next
    case (Inr y)
    then have "fst (?X r) = Inr y" by (simp only: b [symmetric])
    then show ?thesis unfolding eq(1) rep(1) Inr by simp
  qed
  moreover have "core r' = core rs" unfolding eq(3) rep(2) using e' same(2) by argo
  moreover have "sync_sha_ok L g'" unfolding eq(2) using e' by blast
  ultimately show ?thesis using ono False by blast
qed

section \<open>A repeated purchase\<close>

text \<open>What one call of \<open>reserve\<close> does to the keyspace, and who is recorded after a success.\<close>

lemma service_reserve_quiet:
  assumes ok: "item_ok itemID r" and sha: "sync_sha_ok L g"
    and run: "service_reserve s L quiet now rnd userID itemID (g, r) = (res, g', r')"
  shows "sync_sha_ok L g' \<and> item_ok itemID r' \<and>
    (sv_admissionGate s \<longrightarrow> (\<forall>x. res = Inr x \<longrightarrow> buyer_of itemID r' userID \<noteq> None)) \<and>
    (\<not> sv_admissionGate s \<or> buyer_of itemID r userID \<noteq> None \<longrightarrow> core r' = core r)"
proof (cases "userID = 0 \<or> itemID = 0 \<or> \<not> sv_admissionGate s \<or> (\<exists>e. newOrderNo (Truncate now millisecond) rnd = Inl e)")
  case True
  with run ok sha show ?thesis by (auto simp: service_reserve_def Let_def split: if_splits sum.splits)
next
  case False
  then obtain ono where ono: "newOrderNo (Truncate now millisecond) rnd = Inr ono" by (meson sum.exhaust)
  let ?in = "\<lparr>ri_UserID = userID, ri_ItemID = itemID, ri_OrderNo = ono, ri_Now = Truncate now millisecond\<rparr>"
  obtain a g1 r1 where a: "Reserve L quiet g r ?in = (a, g1, r1)" by (metis prod.exhaust)
  from run False ono a have eq: "g' = g1" "r' = r1" "\<And>x. res = Inr x \<Longrightarrow> \<exists>rv. a = Inr rv"
    by (auto simp: service_reserve_def Let_def split: sum.splits)
  obtain rep rs where x: "reserve_sync itemID r userID (UnixMilli (Truncate now millisecond)) ono = (rep, rs)" by fastforce
  have q: "sync_sha_ok L g1 \<and> ((\<exists>e. a = Inl e) \<and> core r1 = core r \<or>
      core r1 = core rs \<and> a = rep \<and> ono \<noteq> [])"
    using Reserve_quiet [OF sha a, of rep rs] x by auto
  have "ono \<noteq> []" using newOrderNo_printable [OF ono] by simp
  with ok have "item_ok itemID rs \<and> (\<forall>rv. rep = Inr rv \<longrightarrow> buyer_of itemID rs userID \<noteq> None) \<and>
      (buyer_of itemID r userID \<noteq> None \<longrightarrow> rs = r)"
    by (rule reserve_sync_cases [of itemID r ono userID "UnixMilli (Truncate now millisecond)"]) (use x ok in auto)
  moreover have "buyer_of itemID r1 = buyer_of itemID rs" if "core r1 = core rs" using that by (metis item_ok_core(2))
  ultimately show ?thesis using q eq ok False by (auto dest: item_ok_cong)
qed

lemma Repository_Purchase_repeat:
  assumes ok: "shop_ok d" and run: "Repository_Purchase mode ctx quiet userID itemID orderNo now d = (Inr x, d1)"
  shows "shop_ok d1" and "existing userID itemID d1 = Some (pu_Order x)"
    and "Repository_Purchase mode' ctx' quiet userID itemID orderNo' now' d1 = (Inr \<lparr>pu_Order = pu_Order x, pu_Replayed = True\<rparr>, d1)"
proof -
  have *: "shop_ok d1 \<and> existing userID itemID d1 = Some (pu_Order x)"
    by (rule try_purchase_quiet [OF ok, of userID itemID mode ctx orderNo now])
      (use run ok purchase_tx_ok(1) [OF ok] purchase_tx_found [OF ok] in auto)
  then show "shop_ok d1" "existing userID itemID d1 = Some (pu_Order x)" by simp_all
  with Repository_Purchase_quiet [of d1]
  show "Repository_Purchase mode' ctx' quiet userID itemID orderNo' now' d1 = (Inr \<lparr>pu_Order = pu_Order x, pu_Replayed = True\<rparr>, d1)"
    by simp
qed

text \<open>What the gate says of the time of a call: an error of the script, or whether the published activity is closed.\<close>

definition gate_window :: "u64 \<Rightarrow> redis \<Rightarrow> time \<Rightarrow> bool result" where
  "gate_window itemID r now = activity_closed (HGET r (StateKey itemID) ''status'')
     (tonumber (HGET r (StateKey itemID) ''start_at_ms'')) (tonumber (HGET r (StateKey itemID) ''end_at_ms''))
     (tonumber (Some (FormatInt (UnixMilli (Truncate now millisecond)))))"

lemma reserve_sync_again:
  assumes "item_ok itemID r" and "buyer_of itemID r u \<noteq> None"
  shows "reserve_sync itemID r u (UnixMilli (Truncate now millisecond)) ono = (case gate_window itemID r now of
      Inl _ \<Rightarrow> (Inl (admissionFailure ''execute reserve script''), r)
    | Inr late \<Rightarrow> if late then (fail ErrUnavailable, r)
        else (Inr \<lparr>rv_OrderNo = the (buyer_of itemID r u), rv_Replayed = True\<rparr>, r))"
proof -
  from assms(2) have ready: "is_ready itemID r" by (auto simp: buyer_of_def split: if_splits)
  with assms obtain x where x: "HGET r (BuyersKey itemID) (FormatUint u) = Some x" "x \<noteq> []" "buyer_of itemID r u = Some x"
    by (auto simp: buyer_of_def item_ok_def live_def)
  with ready show ?thesis
    by (auto simp: reserve_sync_def reserveScript_def gate_window_def is_ready_def lua_reply_def split: sum.splits)
qed

text \<open>What \<open>reserve\<close> answers a buyer who is recorded, or anybody where there is no gate.\<close>

definition reserve_again :: "Service \<Rightarrow> time \<Rightarrow> random \<Rightarrow> u64 \<Rightarrow> redis \<Rightarrow> goerr option" where
  "reserve_again s now rnd itemID r = (case newOrderNo (Truncate now millisecond) rnd of
       Inl err \<Rightarrow> Some (Wrapf ''generate seckill order number'' err)
     | Inr _ \<Rightarrow>
         if \<not> sv_admissionGate s then None
         else (case gate_window itemID r now of
             Inl _ \<Rightarrow> Some (admissionFailure ''execute reserve script'')
           | Inr late \<Rightarrow> if late then Some (Sentinel ErrUnavailable) else None))"

lemma service_reserve_again:
  assumes ok: "item_ok itemID r" and sha: "sync_sha_ok L g" and ids: "userID \<noteq> 0" "itemID \<noteq> 0"
    and known: "sv_admissionGate s \<Longrightarrow> buyer_of itemID r userID \<noteq> None"
    and run: "service_reserve s L quiet now rnd userID itemID (g, r) = (res, g', r')"
  shows "case reserve_again s now rnd itemID r of Some e \<Rightarrow> res = Inl e | None \<Rightarrow> \<exists>y. res = Inr y"
proof (cases "newOrderNo (Truncate now millisecond) rnd")
  case (Inl e)
  with run ids show ?thesis by (simp add: service_reserve_def Let_def reserve_again_def)
next
  case (Inr ono)
  show ?thesis
  proof (cases "sv_admissionGate s")
    case False
    with Inr run ids show ?thesis by (auto simp: service_reserve_def Let_def reserve_again_def)
  next
    case True
    let ?in = "\<lparr>ri_UserID = userID, ri_ItemID = itemID, ri_OrderNo = ono, ri_Now = Truncate now millisecond\<rparr>"
    obtain a g1 r1 where a: "Reserve L quiet g r ?in = (a, g1, r1)" by (metis prod.exhaust)
    obtain rep rs where x: "reserve_sync itemID r userID (UnixMilli (Truncate now millisecond)) ono = (rep, rs)" by fastforce
    have "\<not> IsZero (Truncate now millisecond)" using Inr by (auto simp: newOrderNo_def split: if_splits)
    moreover have "TrimSpace ono \<noteq> []" using newOrderNo_printable [OF Inr] by simp
    ultimately have "a = rep" using Reserve_quiet [OF sha a, of rep rs] x ids by simp
    then have "a = fst (case gate_window itemID r now of
        Inl _ \<Rightarrow> (Inl (admissionFailure ''execute reserve script''), r)
      | Inr late \<Rightarrow> if late then (fail ErrUnavailable, r)
          else (Inr \<lparr>rv_OrderNo = the (buyer_of itemID r userID), rv_Replayed = True\<rparr>, r))"
      unfolding reserve_sync_again [OF ok known [OF True], of now ono, symmetric] x by simp
    with Inr True run ids a show ?thesis
      by (auto simp: service_reserve_def Let_def reserve_again_def split: sum.splits)
  qed
qed


section \<open>The result of a queued order\<close>

lemma existing_read:
  assumes ok: "shop_ok d" and ex: "existing userID itemID d = Some x" and u: "userID \<noteq> 0"
    and trim: "TrimSpace (o_OrderNo x) = o_OrderNo x" "o_OrderNo x \<noteq> []"
  shows "FindOrderOwned quiet userID (o_OrderNo x) d = (Inr x, d)"
proof -
  let ?os = "od_orders (sh_orders d)"
  from ex obtain c where c: "find (\<lambda>c. cl_user_id c = userID \<and> cl_seckill_item_id c = itemID) (sh_claims d) = Some c"
    "x = (let r = the (find (\<lambda>r. or_id r = cl_order_id c \<and> or_user_id r = userID) ?os) in load_order r (findItems (sh_orders d) (or_id r)))"
    by (auto simp: existing_def)
  have "c \<in> set (sh_claims d)" "cl_user_id c = userID" using c(1) by (auto simp: find_Some_iff)
  then have "find (\<lambda>r. or_id r = cl_order_id c \<and> or_user_id r = userID) ?os \<noteq> None"
    using ok by (auto simp: shop_ok_def find_None_iff)
  then obtain r where r: "find (\<lambda>r. or_id r = cl_order_id c \<and> or_user_id r = userID) ?os = Some r" by blast
  then have x: "x = load_order r (findItems (sh_orders d) (or_id r))" using c(2) by simp
  have r': "r \<in> set ?os" "or_user_id r = userID" "or_id r = cl_order_id c"
    using find_Some_iff [THEN iffD1, OF r] by auto
  have t: "tables_ok (sh_orders d)" using ok by (simp add: shop_ok_def)
  have unique: "find P ?os = Some r" if "P r" and "\<And>y. y \<in> set ?os \<Longrightarrow> P y \<Longrightarrow> y = r" for P
  proof (cases "find P ?os")
    case None
    with that(1) r'(1) show ?thesis by (auto simp: find_None_iff)
  next
    case (Some y)
    from find_Some_iff [THEN iffD1, OF this] have "y \<in> set ?os" "P y" by auto
    with that(2) Some show ?thesis by simp
  qed
  have "find (\<lambda>y. or_user_id y = userID \<and> or_order_no y = or_order_no r) ?os = Some r"
    by (rule unique) (use r' t in \<open>auto simp: tables_ok_def distinct_map inj_on_def\<close>)
  moreover have "find (\<lambda>y. or_id y = or_id r \<and> or_user_id y = userID) ?os = Some r" using r r'(3) by simp
  ultimately show ?thesis using u trim x by (simp add: FindOrderOwned_def Shop_FindOwned_def load_order_def)
qed

text \<open>An order that \<open>ProcessStreamTask\<close> has written is what its owner reads, whatever Redis says about it or
  whether it answers at all: the database is asked first.\<close>

theorem processed_order_is_read:
  assumes "shop_ok d" and "sv_orderReader s" and "sv_streamResults s"
    and "Service_ProcessStreamTask s mode ctx quiet userID activityID itemID orderNo reservedAt d = (Inr x, d1)"
    and "TrimSpace (o_OrderNo (pu_Order x)) = o_OrderNo (pu_Order x)" and "o_OrderNo (pu_Order x) \<noteq> []"
  shows "GetAsyncResult s quiet c g r userID (o_OrderNo (pu_Order x)) d1 =
    (Inr \<lparr>ar_OrderNo = o_OrderNo (pu_Order x), ar_Status = AsyncResultSucceeded, ar_Order = Some (pu_Order x)\<rparr>, d1)"
proof -
  have u: "userID \<noteq> 0" and run: "Repository_Purchase mode ctx quiet userID itemID (TrimSpace orderNo) reservedAt d = (Inr x, d1)"
    using assms(4) by (auto simp: Service_ProcessStreamTask_def split: if_splits)
  note again = Repository_Purchase_repeat [OF assms(1) run]
  from existing_read [OF again(1,2) u assms(5,6)] show ?thesis
    using u assms(2,3,5,6) by (simp add: GetAsyncResult_def Let_def)
qed

section \<open>Witnesses\<close>

definition demo_service :: Service where
  "demo_service = (NewService True)\<lparr>sv_admissionGate := True, sv_orderReader := True, sv_streamResults := True\<rparr>"

text \<open>The item of \<open>demo_shop\<close>, published.\<close>

definition demo_published :: redis where
  "demo_published = snd (publish_item demo_activity (demo_item\<lparr>i_ID := 1\<rparr>) empty_redis)"

lemma demo_published_expiry: "UnixMilli (itemExpiry (a_EndAt demo_activity) (i_ID (demo_item\<lparr>i_ID := 1\<rparr>))) = 303000"
  by (simp add: demo_item_def demo_activity_def itemExpiry_def preheatGrace_def preheatJitterRange_def
      Let_def UnixMilli_def time_UnixMilli_def)

lemma demo_published_live:
  "live 1 demo_published 1 303000" "item_ok 1 demo_published" "is_ready 1 demo_published" "HGET demo_published (BuyersKey 1) f = None"
  "activity_closed (HGET demo_published (StateKey 1) ''status'') (tonumber (HGET demo_published (StateKey 1) ''start_at_ms''))
     (tonumber (HGET demo_published (StateKey 1) ''end_at_ms'')) (tonumber (Some (FormatInt 1500))) = Inr False"
proof -
  show "live 1 demo_published 1 303000" "item_ok 1 demo_published" "is_ready 1 demo_published"
    using publish_item_live [of "demo_item\<lparr>i_ID := 1\<rparr>" empty_redis demo_activity]
    unfolding demo_published_expiry demo_published_def [symmetric] by (simp_all add: demo_item_def in_i64_def max_i64_def empty_redis_def)
  have h: "HGET demo_published (StateKey 1) ''status'' = Some (show_nat 1)"
    "HGET demo_published (StateKey 1) ''start_at_ms'' = Some (FormatInt 1000)"
    "HGET demo_published (StateKey 1) ''end_at_ms'' = Some (FormatInt 2000)"
    "HGET demo_published (BuyersKey 1) f = None"
    unfolding demo_published_def publish_item_def demo_published_expiry
    by (simp_all add: publishScript_def Let_def hash_simps HGET_DEL demo_item_def demo_activity_def)
  then show "HGET demo_published (BuyersKey 1) f = None"
    "activity_closed (HGET demo_published (StateKey 1) ''status'') (tonumber (HGET demo_published (StateKey 1) ''start_at_ms''))
       (tonumber (HGET demo_published (StateKey 1) ''end_at_ms'')) (tonumber (Some (FormatInt 1500))) = Inr False"
    by (simp_all add: activity_closed_def in_i64_def max_i64_def show_nat.simps digit_def char_of_eq_iff)
qed

lemma demo_published_fields:
  "HGET demo_published (StateKey 1) ''status'' = Some (show_nat 1)"
  "HGET demo_published (StateKey 1) ''start_at_ms'' = Some (FormatInt 1000)"
  "HGET demo_published (StateKey 1) ''end_at_ms'' = Some (FormatInt 2000)"
  unfolding demo_published_def publish_item_def demo_published_expiry
  by (simp_all add: publishScript_def Let_def hash_simps HGET_DEL demo_item_def demo_activity_def)

text \<open>The first reservation leaves the window as it was published.\<close>

lemma demo_reserved:
  assumes "reserve_sync 1 demo_published 10 1500 ono = (Inr rv, rs)" and "core r = core rs"
  shows "gate_window 1 r 1600000000 = Inr False"
proof -
  have l: "HGET demo_published (StateKey 1) ''stock'' = Some (FormatInt 1)"
    using demo_published_live(1) by (simp add: live_def)
  have inc: "HINCRBY demo_published (StateKey 1) ''stock'' (- 1) =
      Some (0, HSET demo_published (StateKey 1) ''stock'' (FormatInt 0))"
    using redis_hashes.hincrby_int [OF l, of "- 1"] by (simp add: in_i64_def max_i64_def)
  have same: "HGET r = HGET rs" using assms(2) core_ops(1) by metis
  have "HGET rs (StateKey 1) f = HGET demo_published (StateKey 1) f" if "f \<noteq> ''stock''" for f
    using assms(1) that inc
    by (auto simp: reserve_sync_def reserveScript_def hash_simps lua_reply_def parseReservation_def split: if_splits option.splits sum.splits bool.splits)
  then show ?thesis
    using demo_published_fields by (simp add: gate_window_def same activity_closed_def in_i64_def max_i64_def show_nat.simps digit_def
        char_of_eq_iff Truncate_def zero_time_def UnixMilli_def)
qed

lemma demo_sync_sha: "sync_sha_ok demo_lib demo_gate"
  by (simp add: sync_sha_ok_def demo_lib_def demo_gate_def)

lemma demo_service_reserve:
  "\<exists>ono g r. service_reserve demo_service demo_lib quiet 1500000000 (Inr [1,2,3,4,5,6,7,8]) 10 1 (demo_gate, demo_published) =
     (Inr (ono, False, 1500000000), g, r) \<and> valid_utf8 ono \<and> gate_window 1 r 1600000000 = Inr False"
proof -
  have trunc: "Truncate 1500000000 millisecond = (1500000000 :: time)" by (simp add: Truncate_def zero_time_def)
  obtain ono where ono: "newOrderNo 1500000000 (Inr [1,2,3,4,5,6,7,8]) = Inr ono"
    by (simp add: newOrderNo_def IsZero_def zero_time_def)
  note p = newOrderNo_printable [OF ono]
  let ?in = "\<lparr>ri_UserID = 10, ri_ItemID = 1, ri_OrderNo = ono, ri_Now = 1500000000\<rparr>"
  obtain rs where x: "reserve_sync 1 demo_published 10 1500 ono = (Inr \<lparr>rv_OrderNo = ono, rv_Replayed = False\<rparr>, rs)"
    by (rule reserve_sync_first [OF demo_published_live(1,3) _ _ demo_published_live(4,5), of ono 10]) (use p in simp_all)
  obtain a g r where a: "Reserve demo_lib quiet demo_gate demo_published ?in = (a, g, r)" by (metis prod.exhaust)
  have "a = Inr \<lparr>rv_OrderNo = ono, rv_Replayed = False\<rparr> \<and> core r = core rs"
    using Reserve_quiet [OF demo_sync_sha a, of _ rs] x p by (simp add: UnixMilli_def IsZero_def zero_time_def TrimSpace_printable)
  with a ono valid_utf8_printable p demo_reserved [OF x] show ?thesis
    by (auto simp: service_reserve_def trunc demo_service_def NewService_def)
qed


theorem processed_order_is_read_witness:
  "\<exists>x d1. Service_ProcessStreamTask demo_service StockModeAtomic no_deadline quiet 10 7 1 ''A'' 1500000000 demo_shop = (Inr x, d1) \<and>
     GetAsyncResult demo_service quiet (quiet 0) demo_gate empty_redis 10 ''A'' d1 =
       (Inr \<lparr>ar_OrderNo = ''A'', ar_Status = AsyncResultSucceeded, ar_Order = Some (pu_Order x)\<rparr>, d1)"
proof -
  obtain x d1 where b: "Repository_Purchase StockModeAtomic no_deadline quiet 10 1 ''A'' 1500000000 demo_shop = (Inr x, d1)"
    "o_OrderNo (pu_Order x) = ''A''"
    using demo_purchase [of 1500000000 "''A''" no_deadline 10] by (auto simp: time_UnixMilli_def byte_def)
  have p: "TrimSpace ''A'' = ''A''" by (rule TrimSpace_printable) (simp add: byte_def)
  have run: "Service_ProcessStreamTask demo_service StockModeAtomic no_deadline quiet 10 7 1 ''A'' 1500000000 demo_shop = (Inr x, d1)"
    using b p by (simp add: Service_ProcessStreamTask_def demo_service_def NewService_def IsZero_def zero_time_def)
  have g: "GetAsyncResult demo_service quiet (quiet 0) demo_gate empty_redis 10 ''A'' d1 =
       (Inr \<lparr>ar_OrderNo = ''A'', ar_Status = AsyncResultSucceeded, ar_Order = Some (pu_Order x)\<rparr>, d1)"
    using processed_order_is_read [OF demo_shop_ok _ _ run] b(2) p by (simp add: demo_service_def)
  from run g show ?thesis by blast
qed

end
