(* ===== verification/SingleProcess.thy ===== *)
theory SingleProcess
  imports Edge Service
begin

text \<open>
  The HTTP interface of the single process (\<open>internal/handler\<close>: \<open>register.go\<close>, \<open>login.go\<close>, \<open>rbac.go\<close>, \<open>product.go\<close>, \<open>order.go\<close>,
  \<open>seckill_admin.go\<close>, \<open>seckill_order.go\<close>, \<open>health.go\<close>), whose handlers call the services directly, and the comparison with
  the gateway, whose handlers reach the same services by RPC.
\<close>

section \<open>The services behind the handlers\<close>

text \<open>The methods of the services that the handlers call, on the state \<open>'s\<close> behind them.\<close>

record 's in_process =
  ip_Register :: "string \<Rightarrow> string \<Rightarrow> 's \<Rightarrow> User result \<times> 's"
  ip_Authenticate :: "string \<Rightarrow> string \<Rightarrow> 's \<Rightarrow> User result \<times> 's"
  ip_CurrentUser :: "u64 \<Rightarrow> 's \<Rightarrow> User result \<times> 's"
  ip_UserRoles :: "u64 \<Rightarrow> 's \<Rightarrow> string list result \<times> 's"
  ip_HasPermission :: "u64 \<Rightarrow> string \<Rightarrow> 's \<Rightarrow> bool result \<times> 's"
  ip_ReplaceUserRoles :: "u64 \<Rightarrow> string list \<Rightarrow> 's \<Rightarrow> unit result \<times> 's"
  ip_ListPublic :: "int \<Rightarrow> int \<Rightarrow> 's \<Rightarrow> ProductPage result \<times> 's"
  ip_GetPublic :: "u64 \<Rightarrow> 's \<Rightarrow> Product result \<times> 's"
  ip_CreateProduct :: "CreateInput \<Rightarrow> 's \<Rightarrow> Product result \<times> 's"
  ip_UpdateProduct :: "u64 \<Rightarrow> string \<Rightarrow> string \<Rightarrow> 's \<Rightarrow> unit result \<times> 's"
  ip_SetStatus :: "u64 \<Rightarrow> nat \<Rightarrow> 's \<Rightarrow> unit result \<times> 's"
  ip_CreateOrder :: "u64 \<Rightarrow> ItemInput list \<Rightarrow> 's \<Rightarrow> Order result \<times> 's"
  ip_GetOrder :: "u64 \<Rightarrow> u64 \<Rightarrow> 's \<Rightarrow> Order result \<times> 's"
  ip_CreateActivity :: "CreateActivityInput \<Rightarrow> 's \<Rightarrow> Activity result \<times> 's"
  ip_AddItem :: "AddItemInput \<Rightarrow> 's \<Rightarrow> Item result \<times> 's"
  ip_SetActivityStatus :: "u64 \<Rightarrow> nat \<Rightarrow> 's \<Rightarrow> unit result \<times> 's"
  ip_PreheatActivity :: "u64 \<Rightarrow> 's \<Rightarrow> PreheatResult result \<times> 's"
  ip_AsyncEnabled :: bool
  ip_Enqueue :: "u64 \<Rightarrow> u64 \<Rightarrow> 's \<Rightarrow> AsyncSubmission result \<times> 's"
  ip_Purchase :: "u64 \<Rightarrow> u64 \<Rightarrow> 's \<Rightarrow> PurchaseResult result \<times> 's"
  ip_GetAsyncResult :: "u64 \<Rightarrow> string \<Rightarrow> 's \<Rightarrow> AsyncResult result \<times> 's"

section \<open>Users and roles\<close>

definition registerUserHandler :: "'s in_process \<Rightarrow> 's handler" where
  "registerUserHandler service r s = (case hr_Credentials r of
       None \<Rightarrow> (invalid ''invalid request body'', s)
     | Some (email, password) \<Rightarrow>
         reply (\<lambda>err. if errors_Is err ErrInvalidEmail \<or> errors_Is err ErrInvalidPassword then invalid ''invalid email or password''
             else if errors_Is err ErrUserAlreadyExists then writeError 409 ''USER_ALREADY_EXISTS'' ''user already exists''
             else internal_error)
           (\<lambda>created. OkJson (RegisteredUserData (u_ID created) (u_Email created) (u_CreatedAt created)))
           (ip_Register service email password s))"

definition loginHandler :: "jwt_lib \<Rightarrow> TokenManager \<Rightarrow> time \<Rightarrow> 's in_process \<Rightarrow> 's handler" where
  "loginHandler J tokens now service r s = (case hr_Credentials r of
       None \<Rightarrow> (invalid ''invalid request body'', s)
     | Some (email, password) \<Rightarrow>
         reply (\<lambda>err. if errors_Is err ErrInvalidCredentials then writeError 401 ''UNAUTHENTICATED'' ''invalid credentials''
             else internal_error)
           (\<lambda>authenticated. case Issue J tokens now (u_ID authenticated) of
               Inl err \<Rightarrow> internal_error
             | Inr tok \<Rightarrow> OkJson (LoginData tok (ExpiresInSeconds tokens)))
           (ip_Authenticate service email password s))"

definition currentUserHandler :: "'s in_process \<Rightarrow> 's handler" where
  "currentUserHandler service = with_user (\<lambda>userID r s. case ip_CurrentUser service userID s of
       (Inl err, s1) \<Rightarrow> (if errors_Is err ErrUserNotFound then writeError 401 ''UNAUTHENTICATED'' ''user is not active''
           else internal_error, s1)
     | (Inr current, s1) \<Rightarrow>
         reply (\<lambda>err. internal_error) (\<lambda>roles. OkJson (CurrentUserData (u_ID current) (u_Email current) roles))
           (ip_UserRoles service userID s1))"

definition requirePermission :: "'s in_process \<Rightarrow> string \<Rightarrow> 's handler \<Rightarrow> 's handler" where
  "requirePermission service permissionCode handle = with_user (\<lambda>userID r s. case ip_HasPermission service userID permissionCode s of
       (Inl err, s1) \<Rightarrow> (internal_error, s1)
     | (Inr allowed, s1) \<Rightarrow>
         if \<not> allowed then (writeError 403 ''PERMISSION_DENIED'' ''permission denied'', s1) else handle r s1)"

definition replaceUserRolesHandler :: "'s in_process \<Rightarrow> 's handler" where
  "replaceUserRolesHandler service r s = (case hr_Roles r of
       None \<Rightarrow> (invalid ''invalid role assignment'', s)
     | Some (userID, roles) \<Rightarrow>
         if userID = 0 then (invalid ''invalid role assignment'', s)
         else (case ip_ReplaceUserRoles service userID roles s of
             (Inl err, s1) \<Rightarrow> (if errors_Is err RBAC_ErrUserNotFound then writeError 404 ''USER_NOT_FOUND'' ''user not found''
                 else if errors_Is err ErrRoleAssignmentConflict
                 then writeError 409 ''ROLE_ASSIGNMENT_CONFLICT'' ''invalid role assignment''
                 else internal_error, s1)
           | (Inr _, s1) \<Rightarrow> reply (\<lambda>err. internal_error) (\<lambda>roles. OkJson (UserRolesData userID roles)) (ip_UserRoles service userID s1)))"

section \<open>Products\<close>

definition writeProductError :: "goerr \<Rightarrow> response" where
  "writeProductError err =
     (if errors_Is err ErrInvalidProduct then invalid ''invalid product''
      else if errors_Is err ErrProductNotFound then writeError 404 ''PRODUCT_NOT_FOUND'' ''product not found''
      else if errors_Is err ErrProductConflict then writeError 409 ''PRODUCT_CONFLICT'' ''product conflict''
      else internal_error)"

definition listProductsHandler :: "'s in_process \<Rightarrow> 's handler" where
  "listProductsHandler service r s = (case hr_Page r of
       None \<Rightarrow> (invalid ''invalid pagination'', s)
     | Some p \<Rightarrow>
         reply (\<lambda>err. internal_error)
           (\<lambda>page. OkJson (ProductListData (map toProductPayload (pp_Items page)) (pp_Page page) (pp_PageSize page) (pp_Total page)))
           (ip_ListPublic service (fst p) (snd p) s))"

definition getProductHandler :: "'s in_process \<Rightarrow> 's handler" where
  "getProductHandler service r s = (case hr_PathID r of
       None \<Rightarrow> (invalid ''invalid product ID'', s)
     | Some productID \<Rightarrow>
         reply writeProductError (\<lambda>item. OkJson (ProductData (toProductPayload item))) (ip_GetPublic service productID s))"

definition createProductHandler :: "'s in_process \<Rightarrow> 's handler" where
  "createProductHandler service r s = (case Option.bind (hr_Body r) decode_createProduct of
       None \<Rightarrow> (invalid ''invalid product'', s)
     | Some (name, description, skus) \<Rightarrow>
         reply writeProductError (\<lambda>created. OkJson (ProductData (toProductPayload created)))
           (ip_CreateProduct service \<lparr>cp_Name = name, cp_Description = description, cp_SKUs = map sku_input skus\<rparr> s))"

definition updateProductHandler :: "'s in_process \<Rightarrow> 's handler" where
  "updateProductHandler service r s =
     (case Option.bind (hr_PathID r) (\<lambda>pathID. Option.bind (hr_Body r) (decode_updateProduct pathID)) of
        None \<Rightarrow> (invalid ''invalid product'', s)
      | Some (productID, name, description) \<Rightarrow>
          reply writeProductError
            (\<lambda>_. OkJson (ProductData \<lparr>xp_ID = productID, xp_Name = name, xp_Description = description, xp_Status = 0, xp_SKUs = [],
               xp_CreatedAt = None\<rparr>))
            (ip_UpdateProduct service productID name description s))"

definition updateProductStatusHandler :: "'s in_process \<Rightarrow> 's handler" where
  "updateProductStatusHandler service r s =
     (case Option.bind (hr_PathID r) (\<lambda>pathID. Option.bind (hr_Body r) (decode_updateProductStatus pathID)) of
        None \<Rightarrow> (invalid ''invalid product status'', s)
      | Some (productID, st) \<Rightarrow>
          reply writeProductError
            (\<lambda>_. OkJson (ProductData \<lparr>xp_ID = productID, xp_Name = [], xp_Description = [], xp_Status = st, xp_SKUs = [],
               xp_CreatedAt = None\<rparr>))
            (ip_SetStatus service productID st s))"

section \<open>Orders\<close>

definition writeOrderError :: "goerr \<Rightarrow> response" where
  "writeOrderError err =
     (if errors_Is err ErrInvalidOrder then invalid ''invalid order''
      else if errors_Is err ErrOrderNotFound then writeError 404 ''ORDER_NOT_FOUND'' ''order not found''
      else internal_error)"

definition item_input :: "u64 \<times> int \<Rightarrow> ItemInput" where
  "item_input item = \<lparr>in_SKUID = fst item, in_ProductName = [], in_SKUCode = [], in_SKUName = [], in_UnitPriceCent = 0,
     in_Quantity = snd item\<rparr>"

definition createOrderHandler :: "'s in_process \<Rightarrow> 's handler" where
  "createOrderHandler service = with_user (\<lambda>userID r s. case Option.bind (hr_Body r) decode_createOrder of
       None \<Rightarrow> (invalid ''invalid order'', s)
     | Some items \<Rightarrow>
         reply writeOrderError (\<lambda>created. OkJson (OrderData (toOrderPayload created)))
           (ip_CreateOrder service userID (map item_input items) s))"

definition getOrderHandler :: "'s in_process \<Rightarrow> 's handler" where
  "getOrderHandler service = with_user (\<lambda>userID r s. case hr_PathID r of
       None \<Rightarrow> (invalid ''invalid order ID'', s)
     | Some orderID \<Rightarrow>
         reply writeOrderError (\<lambda>found. OkJson (OrderData (toOrderPayload found))) (ip_GetOrder service userID orderID s))"

section \<open>Administration of activities\<close>

definition writeSeckillAdminError :: "goerr \<Rightarrow> response" where
  "writeSeckillAdminError err =
     (if errors_Is err ErrInvalidArgument then invalid ''invalid seckill configuration''
      else if errors_Is err ErrActivityNotFound then writeError 404 ''SECKILL_ACTIVITY_NOT_FOUND'' ''seckill activity not found''
      else if errors_Is err ErrConflict then writeError 409 ''SECKILL_CONFLICT'' ''seckill configuration conflict''
      else if errors_Is err ErrNoItems then writeError 409 ''SECKILL_ACTIVITY_EMPTY'' ''seckill activity has no items''
      else if errors_Is err ErrUnavailable then writeError 409 ''SECKILL_UNAVAILABLE'' ''seckill activity cannot be preheated''
      else if errors_Is err ErrAdmissionFailure
      then writeError 503 ''SECKILL_TEMPORARILY_UNAVAILABLE'' ''seckill service is temporarily unavailable''
      else internal_error)"

definition createSeckillActivityHandler :: "(string \<Rightarrow> time option) \<Rightarrow> 's in_process \<Rightarrow> 's handler" where
  "createSeckillActivityHandler parse_time service r s = (case Option.bind (hr_Body r) decode_createActivity of
       None \<Rightarrow> (invalid ''invalid seckill activity'', s)
     | Some (name, startAt, endAt) \<Rightarrow>
         (case (parse_time startAt, parse_time endAt) of
            (Some st, Some en) \<Rightarrow>
              reply writeSeckillAdminError (\<lambda>created. OkJson (SeckillActivityData (toSeckillActivityPayload created)))
                (ip_CreateActivity service \<lparr>ca_Name = name, ca_StartAt = st, ca_EndAt = en\<rparr> s)
          | _ \<Rightarrow> (invalid ''invalid seckill activity time'', s)))"

definition addSeckillItemHandler :: "'s in_process \<Rightarrow> 's handler" where
  "addSeckillItemHandler service r s = (case hr_PathID r of
       None \<Rightarrow> (invalid ''invalid seckill activity ID'', s)
     | Some pathID \<Rightarrow>
         (case Option.bind (hr_Body r) (decode_addSeckillItem pathID) of
            None \<Rightarrow> (invalid ''invalid seckill item'', s)
          | Some (activityID, skuID, stock) \<Rightarrow>
              reply writeSeckillAdminError (\<lambda>created. OkJson (SeckillItemData (toSeckillItemPayload created)))
                (ip_AddItem service \<lparr>ai_ActivityID = activityID, ai_SKUID = skuID, ai_Stock = stock\<rparr> s)))"

definition updateSeckillActivityStatusHandler :: "'s in_process \<Rightarrow> 's handler" where
  "updateSeckillActivityStatusHandler service r s = (case hr_PathID r of
       None \<Rightarrow> (invalid ''invalid seckill activity ID'', s)
     | Some pathID \<Rightarrow>
         (case Option.bind (hr_Body r) (decode_updateActivityStatus pathID) of
            None \<Rightarrow> (invalid ''invalid seckill activity status'', s)
          | Some (activityID, st) \<Rightarrow>
              reply writeSeckillAdminError
                (\<lambda>_. OkJson (SeckillActivityData \<lparr>sa_ID = activityID, sa_Name = [], sa_StartAt = None, sa_EndAt = None, sa_Status = st\<rparr>))
                (ip_SetActivityStatus service activityID st s)))"

definition preheatSeckillActivityHandler :: "'s in_process \<Rightarrow> 's handler" where
  "preheatSeckillActivityHandler service r s = (case hr_PathID r of
       None \<Rightarrow> (invalid ''invalid seckill activity ID'', s)
     | Some activityID \<Rightarrow>
         reply writeSeckillAdminError
           (\<lambda>x. OkJson (SeckillPreheatData (pr_ActivityID x) (pr_ItemCount x) (pr_EarliestExpireAt x) (pr_LatestExpireAt x)))
           (ip_PreheatActivity service activityID s))"

section \<open>Seckill orders\<close>

definition writeSeckillPurchaseError :: "goerr \<Rightarrow> response" where
  "writeSeckillPurchaseError err =
     (if errors_Is err ErrInvalidArgument then invalid ''invalid seckill purchase''
      else if errors_Is err ErrItemNotFound then writeError 404 ''SECKILL_ITEM_NOT_FOUND'' ''seckill item not found''
      else if errors_Is err ErrUnavailable then writeError 409 ''SECKILL_UNAVAILABLE'' ''seckill is unavailable''
      else if errors_Is err ErrOutOfStock then writeError 409 ''OUT_OF_STOCK'' ''seckill item is out of stock''
      else if errors_Is err ErrInventoryBusy then writeError 503 ''INVENTORY_BUSY'' ''inventory is busy, retry later''
      else if errors_Is err ErrCacheNotReady then writeError 503 ''SECKILL_CACHE_NOT_READY'' ''seckill cache is not ready''
      else if errors_Is err ErrAdmissionFailure
      then writeError 503 ''SECKILL_TEMPORARILY_UNAVAILABLE'' ''seckill service is temporarily unavailable''
      else if errors_Is err ErrQueueUnavailable
      then writeError 503 ''SECKILL_QUEUE_UNAVAILABLE'' ''seckill request could not be queued, retry later''
      else internal_error)"

definition createSeckillOrderHandler :: "'s in_process \<Rightarrow> 's handler" where
  "createSeckillOrderHandler service = with_user (\<lambda>userID r s. case hr_PathID r of
       None \<Rightarrow> (invalid ''invalid seckill item ID'', s)
     | Some itemID \<Rightarrow>
         if ip_AsyncEnabled service then
           reply writeSeckillPurchaseError (\<lambda>x. Accepted (QueuedSeckillOrderData (as_OrderNo x) ''QUEUED'' (as_Replayed x)))
             (ip_Enqueue service userID itemID s)
         else
           reply writeSeckillPurchaseError (\<lambda>x. OkJson (SeckillOrderData (toOrderPayload (pu_Order x)) (pu_Replayed x)))
             (ip_Purchase service userID itemID s))"

text \<open>The order of a result that has none is Go's zero value.\<close>

definition zero_order :: Order where
  "zero_order = \<lparr>o_ID = 0, o_OrderNo = [], o_UserID = 0, o_Status = 0, o_TotalAmountCent = 0, o_Items = [], o_CreatedAt = zero_time\<rparr>"

definition getSeckillOrderResultHandler :: "'s in_process \<Rightarrow> 's handler" where
  "getSeckillOrderResultHandler service = with_user (\<lambda>userID r s. case hr_PathText r of
       None \<Rightarrow> (invalid ''invalid seckill order number'', s)
     | Some orderNo \<Rightarrow>
         reply (\<lambda>err. if errors_Is err ErrAsyncResultNotFound
             then writeError 404 ''SECKILL_ORDER_NOT_FOUND'' ''seckill order request not found'' else internal_error)
           (\<lambda>x. OkJson (SeckillOrderResultData (ar_OrderNo x) (ar_Status x)
              (if ar_Status x = AsyncResultSucceeded
               then Some (toOrderPayload (case ar_Order x of Some v \<Rightarrow> v | None \<Rightarrow> zero_order)) else None)))
           (ip_GetAsyncResult service userID orderNo s))"

section \<open>Routes\<close>

text \<open>The handler of a route, for each of the registrations that has one.\<close>

definition RegisterUserRoutes :: "'s in_process \<Rightarrow> gateway_route \<Rightarrow> 's handler option" where
  "RegisterUserRoutes service route = (case route of Post_register \<Rightarrow> Some (registerUserHandler service) | _ \<Rightarrow> None)"

definition RegisterAuthRoutes :: "jwt_lib \<Rightarrow> TokenManager \<Rightarrow> time \<Rightarrow> 's in_process \<Rightarrow> gateway_route \<Rightarrow> 's handler option" where
  "RegisterAuthRoutes J tokens now service route = (case route of
       Post_login \<Rightarrow> Some (loginHandler J tokens now service)
     | Get_me \<Rightarrow> Some (authenticate J tokens now (currentUserHandler service))
     | _ \<Rightarrow> None)"

definition RegisterRBACRoutes :: "jwt_lib \<Rightarrow> TokenManager \<Rightarrow> time \<Rightarrow> 's in_process \<Rightarrow> gateway_route \<Rightarrow> 's handler option" where
  "RegisterRBACRoutes J tokens now service route = (case route of
       Put_user_roles \<Rightarrow> Some (authenticate J tokens now (requirePermission service ''rbac:manage'' (replaceUserRolesHandler service)))
     | _ \<Rightarrow> None)"

definition RegisterProductRoutes :: "jwt_lib \<Rightarrow> TokenManager \<Rightarrow> time \<Rightarrow> 's in_process \<Rightarrow> gateway_route \<Rightarrow> 's handler option" where
  "RegisterProductRoutes J tokens now service route =
     (let protectWrite = (\<lambda>handle. authenticate J tokens now (requirePermission service ''product:write'' handle)) in
      case route of
        Get_products \<Rightarrow> Some (listProductsHandler service)
      | Get_product \<Rightarrow> Some (getProductHandler service)
      | Post_product \<Rightarrow> Some (protectWrite (createProductHandler service))
      | Put_product \<Rightarrow> Some (protectWrite (updateProductHandler service))
      | Put_product_status \<Rightarrow> Some (protectWrite (updateProductStatusHandler service))
      | _ \<Rightarrow> None)"

definition RegisterOrderRoutes :: "jwt_lib \<Rightarrow> TokenManager \<Rightarrow> time \<Rightarrow> 's in_process \<Rightarrow> gateway_route \<Rightarrow> 's handler option" where
  "RegisterOrderRoutes J tokens now service route = (case route of
       Post_order \<Rightarrow> Some (authenticate J tokens now (createOrderHandler service))
     | Get_order \<Rightarrow> Some (authenticate J tokens now (getOrderHandler service))
     | _ \<Rightarrow> None)"

definition RegisterSeckillAdminRoutes ::
  "(string \<Rightarrow> time option) \<Rightarrow> jwt_lib \<Rightarrow> TokenManager \<Rightarrow> time \<Rightarrow> 's in_process \<Rightarrow> gateway_route \<Rightarrow> 's handler option" where
  "RegisterSeckillAdminRoutes parse_time J tokens now service route =
     (let protectWrite = (\<lambda>handle. authenticate J tokens now (requirePermission service ''seckill:write'' handle)) in
      case route of
        Post_activity \<Rightarrow> Some (protectWrite (createSeckillActivityHandler parse_time service))
      | Post_activity_item \<Rightarrow> Some (protectWrite (addSeckillItemHandler service))
      | Put_activity_status \<Rightarrow> Some (protectWrite (updateSeckillActivityStatusHandler service))
      | Post_preheat \<Rightarrow> Some (protectWrite (preheatSeckillActivityHandler service))
      | _ \<Rightarrow> None)"

definition RegisterSeckillOrderRoutes :: "jwt_lib \<Rightarrow> TokenManager \<Rightarrow> time \<Rightarrow> 's in_process \<Rightarrow> gateway_route \<Rightarrow> 's handler option" where
  "RegisterSeckillOrderRoutes J tokens now service route = (case route of
       Post_seckill_order \<Rightarrow> Some (authenticate J tokens now (createSeckillOrderHandler service))
     | Get_seckill_result \<Rightarrow> Some (authenticate J tokens now (getSeckillOrderResultHandler service))
     | _ \<Rightarrow> None)"

text \<open>All registrations together. (The root command no longer starts this process; its handlers remain the interface that the gateway keeps.)\<close>

definition single_process ::
  "(string \<Rightarrow> time option) \<Rightarrow> jwt_lib \<Rightarrow> TokenManager \<Rightarrow> time \<Rightarrow> 's in_process \<Rightarrow> gateway_route \<Rightarrow> 's handler option" where
  "single_process parse_time J tokens now service route =
     List.fold (\<lambda>routes found. case found of Some h \<Rightarrow> Some h | None \<Rightarrow> routes)
       [RegisterUserRoutes service route, RegisterAuthRoutes J tokens now service route, RegisterRBACRoutes J tokens now service route,
        RegisterProductRoutes J tokens now service route, RegisterOrderRoutes J tokens now service route,
        RegisterSeckillAdminRoutes parse_time J tokens now service route, RegisterSeckillOrderRoutes J tokens now service route] None"

lemmas route_defs = single_process_def RegisterUserRoutes_def RegisterAuthRoutes_def RegisterRBACRoutes_def RegisterProductRoutes_def
  RegisterOrderRoutes_def RegisterSeckillAdminRoutes_def RegisterSeckillOrderRoutes_def

section \<open>The same services in one process and behind the gateway\<close>

text \<open>The services of a deployment, called directly; those of the seckill are left open.\<close>

definition process :: "backend \<Rightarrow> server_env \<Rightarrow> deployment in_process \<Rightarrow> deployment in_process" where
  "process b e S = S\<lparr>
     ip_Register := \<lambda>email password. on_accounts (Register (bk_text b) (bk_bcrypt b) (se_accounts e 0) (se_salt e) (se_dbnow e) (se_now e) email password),
     ip_Authenticate := \<lambda>email password. on_accounts (\<lambda>d.
       case Authenticate (bk_text b) (bk_bcrypt b) (bk_dummyHash b) (se_accounts e 0) email password d of (res, _, d') \<Rightarrow> (res, d')),
     ip_CurrentUser := \<lambda>userID. on_accounts (CurrentUser (se_accounts e 0) userID),
     ip_UserRoles := \<lambda>userID. on_accounts (UserRoles (bk_text b) (se_accounts e 0) userID),
     ip_HasPermission := \<lambda>userID permission. on_accounts (HasPermission (bk_text b) (se_accounts e 0) userID permission),
     ip_ReplaceUserRoles := \<lambda>userID roles. on_accounts (ReplaceUserRoles (bk_text b) (se_accounts e 0) userID roles),
     ip_ListPublic := \<lambda>page pageSize. on_catalog (ListPublic (se_catalog e) page pageSize),
     ip_GetPublic := \<lambda>productID. on_catalog (GetPublic (se_catalog e) productID),
     ip_CreateProduct := \<lambda>input. on_catalog (Product_Create (se_catalog e 0) (se_dbnow e) (se_now e) input),
     ip_UpdateProduct := \<lambda>productID name description. on_catalog (Product_Update (se_catalog e 0) productID name description),
     ip_SetStatus := \<lambda>productID status. on_catalog (Product_SetStatus (se_catalog e 0) productID status),
     ip_CreateOrder := \<lambda>userID items w. on_orders (Create (Some (OrderProductAdapter (sku_snapshots b e w))) (se_random e) (se_orders e)
         (se_now e) userID items) w,
     ip_GetOrder := \<lambda>userID orderID. on_orders (Get (se_orders e) userID orderID)\<rparr>"

text \<open>What a time of an answer becomes on its way through a message.\<close>

definition rounded :: "time option \<Rightarrow> time option" where
  "rounded t = Option.bind t (created_at \<circ> to_milli)"

fun in_ms :: "payload \<Rightarrow> payload" where
  "in_ms (RegisteredUserData i email t) = RegisteredUserData i email (to_milli t)"
| "in_ms (ProductData p) = ProductData (p\<lparr>xp_CreatedAt := rounded (xp_CreatedAt p)\<rparr>)"
| "in_ms (ProductListData ps page ps_size n) = ProductListData (map (\<lambda>p. p\<lparr>xp_CreatedAt := rounded (xp_CreatedAt p)\<rparr>) ps) page ps_size n"
| "in_ms (OrderData p) = OrderData (p\<lparr>op_CreatedAt := rounded (op_CreatedAt p)\<rparr>)"
| "in_ms x = x"

text \<open>
  The answers agree: the same status and, with times in milliseconds, the same data. An internal error of the single
  process may show in the gateway with a status of \<open>late\<close>.
\<close>

definition answers_agree :: "nat set \<Rightarrow> response \<Rightarrow> response \<Rightarrow> bool" where
  "answers_agree late x y \<longleftrightarrow> (if hs_Status x = 500 then hs_Status y \<in> late \<and> hs_Data y = NoData
     else hs_Status y = hs_Status x \<and> hs_Data y = in_ms (hs_Data x))"

definition same_end :: "nat set \<Rightarrow> response \<times> deployment \<Rightarrow> response \<times> deployment \<Rightarrow> bool" where
  "same_end late p q \<longleftrightarrow> answers_agree late (fst p) (fst q) \<and> served (snd p) = served (snd q)"

text \<open>The error of a service has one sentinel at most, and a status only without a sentinel.\<close>

lemma errors_Is_unique: "errors_Is err s \<Longrightarrow> errors_Is err t \<longleftrightarrow> t = s"
  by (induction err) auto

lemma errors_Is_code: "status_code_ok sc \<Longrightarrow> errors_Is err s \<Longrightarrow> sc err = Unknown"
  by (induction err) (auto simp: status_code_ok_def)

lemma StatusError_code: "status_code_ok sc \<Longrightarrow> sc (StatusError attach (NewPublicError c d m r err)) = c"
  by (simp add: StatusError_def NewPublicError_def status_code_ok_def)

section \<open>The errors of the services\<close>

text \<open>
  A failure: an error that is none of the services' errors but those in \<open>S\<close>, carries no public error and says nothing
  about the availability of a service. The errors of the MySQL driver, of bcrypt and of the random source are failures
  with no sentinel at all but those of a context that has ended.
\<close>

definition failure :: "(goerr \<Rightarrow> code) \<Rightarrow> sentinel set \<Rightarrow> goerr \<Rightarrow> bool" where
  "failure sc S e \<longleftrightarrow> (\<forall>s. errors_Is e s \<longrightarrow> s \<in> S \<or> s \<in> {Context_Canceled, Context_DeadlineExceeded}) \<and>
     errors_As_Public e = None \<and> sc e \<noteq> Unavailable"

definition plain_env :: "(goerr \<Rightarrow> code) \<Rightarrow> 'd step_env \<Rightarrow> bool" where
  "plain_env sc c \<longleftrightarrow> (\<forall>e. outcome_of c \<in> {Lost_before e, Lost_after e} \<longrightarrow> failure sc {} e)"

definition plain_failures :: "backend \<Rightarrow> server_env \<Rightarrow> bool" where
  "plain_failures b e \<longleftrightarrow> (\<forall>k. plain_env (bk_status b) (se_accounts e k) \<and> plain_env (bk_status b) (se_catalog e k) \<and>
     plain_env (bk_status b) (se_orders e k)) \<and> (\<forall>sku. plain_env (bk_status b) (se_snapshots e sku)) \<and>
     (\<forall>salt p err. bl_generate (bk_bcrypt b) salt p = Inl err \<longrightarrow> failure (bk_status b) {} err) \<and>
     (\<forall>err. se_random e = Inl err \<longrightarrow> failure (bk_status b) {} err)"

lemma failure_mono: "failure sc S e \<Longrightarrow> S \<subseteq> U \<Longrightarrow> failure sc U e"
  by (auto simp: failure_def)

lemma failure_simps:
  assumes "status_code_ok sc"
  shows "failure sc S (Wrapf m e) \<longleftrightarrow> failure sc S e" "failure sc S (Plain m)" "failure sc S (MySQLError n)"
    "failure sc S (Sentinel t) \<longleftrightarrow> t \<in> S \<union> {Context_Canceled, Context_DeadlineExceeded}"
    "failure sc S (Status c m d) \<longleftrightarrow> c \<noteq> Unavailable"
  using assms by (auto simp: failure_def status_code_ok_def)

lemma call_failure:
  assumes "plain_env sc c" and "call c f d = (Inl e, d')" and "\<And>d e. fst (f d) = Inl e \<Longrightarrow> failure sc S e"
  shows "failure sc S e"
  using assms failure_mono [of sc "{}" e S] by (auto simp: call_def plain_env_def Let_def split: outcome.splits) (metis fst_conv)

lemma read_db_failure: "plain_env sc c \<Longrightarrow> read_db c f d = (Inl e, d') \<Longrightarrow> failure sc S e"
  unfolding read_db_def by (erule call_failure) auto

lemma atomically_failure:
  assumes "plain_env sc c" and "atomically c body d = (Inl e, d')" and "\<And>d e. fst (body d) = Inl e \<Longrightarrow> failure sc S e"
  shows "failure sc S e"
  using assms(2) unfolding atomically_def
  by (rule call_failure [OF assms(1)]) (use assms(3) in \<open>auto split: prod.splits sum.splits\<close>, metis fst_conv)

text \<open>The user service.\<close>

lemma Register_failure:
  assumes sc: "status_code_ok sc" and c: "plain_env sc c" and B: "\<And>salt p err. bl_generate B salt p = Inl err \<Longrightarrow> failure sc {} err"
    and run: "Register T B c salt dbnow now email password d = (Inl e, d')"
  shows "failure sc {ErrInvalidEmail, ErrInvalidPassword, ErrUserAlreadyExists} e"
proof -
  have body: "fst (insert_user T dbnow a h d0) = Inl x \<Longrightarrow> failure sc {} x" for a h d0 x
    by (auto simp: insert_user_def Let_def failure_simps [OF sc] split: if_splits)
  have tx: "atomically c (insert_user T dbnow a h) d = (Inl x, d1) \<Longrightarrow> failure sc S x" for a h x d1 S
    by (rule atomically_failure [OF c]) (auto dest: body failure_mono)
  show ?thesis
    using run B
    by (auto simp: Register_def User_Repository_Create_def failure_simps [OF sc] split: prod.splits if_splits sum.splits
        dest: tx intro: failure_mono)
qed

lemma Authenticate_failure:
  assumes sc: "status_code_ok sc" and c: "plain_env sc c" and run: "Authenticate T B dummy c email password d = (Inl e, hs, d')"
  shows "failure sc {ErrInvalidCredentials} e"
  using run
  by (auto simp: Authenticate_def FindCredentialByEmail_def Let_def failure_simps [OF sc] split: prod.splits if_splits sum.splits option.splits
      dest: read_db_failure [OF c])

lemma user_query_failure:
  assumes sc: "status_code_ok sc" and c: "plain_env sc c"
  shows "CurrentUser c i d = (Inl e, d') \<Longrightarrow> failure sc {ErrUserNotFound} e"
    and "UserRoles T c i d = (Inl e, d') \<Longrightarrow> failure sc {} e"
    and "HasPermission T c i code d = (Inl e, d') \<Longrightarrow> failure sc {} e"
  by (auto simp: CurrentUser_def FindByID_def UserRoles_def Repository_UserRoles_def HasPermission_def Repository_HasPermission_def
      failure_simps [OF sc] split: prod.splits if_splits sum.splits option.splits dest: read_db_failure [OF c])

lemma assign_roles_failure: "status_code_ok sc \<Longrightarrow> fst (assign_roles u ids codes d) = Inl e \<Longrightarrow> failure sc S e"
  by (induction codes arbitrary: d)
    (auto simp: insert_user_role_def failure_simps split: prod.splits sum.splits if_splits)

lemma ReplaceUserRoles_failure:
  assumes sc: "status_code_ok sc" and c: "plain_env sc c" and run: "ReplaceUserRoles T c u codes d = (Inl e, d')"
  shows "failure sc {RBAC_ErrUserNotFound, ErrRoleAssignmentConflict} e"
proof -
  have body: "fst (replace_roles_tx T u cs d0) = Inl x \<Longrightarrow> failure sc {RBAC_ErrUserNotFound, ErrRoleAssignmentConflict} x" for cs d0 x
    by (auto simp: replace_roles_tx_def Let_def failure_simps [OF sc] split: if_splits dest: assign_roles_failure [OF sc])
  show ?thesis
    using run
    by (auto simp: ReplaceUserRoles_def Repository_ReplaceUserRoles_def failure_simps [OF sc] split: if_splits
        dest: atomically_failure [OF c _ body])
qed

text \<open>The product service.\<close>

lemma product_query_failure:
  assumes sc: "status_code_ok sc" and c: "\<And>k. plain_env sc (env k)"
  shows "ListPublic env page n d = (Inl e, d') \<Longrightarrow> failure sc {} e"
    and "GetPublic env i d = (Inl e, d') \<Longrightarrow> failure sc {ErrProductNotFound} e"
  by (auto simp: ListPublic_def ListActive_def GetPublic_def FindActive_def Let_def failure_simps [OF sc]
      split: prod.splits if_splits sum.splits option.splits dest: read_db_failure [OF c])

lemma update_failure:
  assumes sc: "status_code_ok sc" and c: "plain_env sc c" and run: "updated t (atomically c (update_stmt i f) d) = (Inl e, d')"
  shows "failure sc {ErrInvalidProduct, ErrProductNotFound} e"
  using run by (auto simp: updated_def failure_simps [OF sc] split: prod.splits sum.splits if_splits
      dest!: atomically_failure [OF c, where S = "{ErrInvalidProduct, ErrProductNotFound}"]) (simp_all add: update_stmt_def)

lemma product_change_failure:
  assumes sc: "status_code_ok sc" and c: "plain_env sc c"
  shows "Product_Update c i name description d = (Inl e, d') \<Longrightarrow> failure sc {ErrInvalidProduct, ErrProductNotFound} e"
    and "Product_SetStatus c i st d = (Inl e, d') \<Longrightarrow> failure sc {ErrInvalidProduct, ErrProductNotFound} e"
  by (auto simp: Product_Update_def Product_Repository_Update_def Product_SetStatus_def Product_Repository_SetStatus_def
      failure_simps [OF sc] split: if_splits dest: update_failure [OF sc c])

lemma insert_skus_failure: "status_code_ok sc \<Longrightarrow> insert_skus i skus d = (Inl e, d') \<Longrightarrow> ErrProductConflict \<in> S \<Longrightarrow> failure sc S e"
  by (induction skus arbitrary: d)
    (auto simp: insert_sku_def mapProductConflict_def Let_def failure_simps split: prod.splits sum.splits if_splits)

lemma normalize_skus_failure: "status_code_ok sc \<Longrightarrow> normalize_skus skus seen = Inl e \<Longrightarrow> failure sc {ErrInvalidProduct, ErrProductConflict} e"
  by (induction skus seen rule: normalize_skus.induct) (auto simp: Let_def failure_simps split: sum.splits if_splits)

lemma Product_Create_failure:
  assumes sc: "status_code_ok sc" and c: "plain_env sc c" and run: "Product_Create c dbnow now input d = (Inl e, d')"
  shows "failure sc {ErrInvalidProduct, ErrProductConflict} e"
proof -
  have body: "fst (product_tx dbnow i d0) = Inl x \<Longrightarrow> failure sc {ErrInvalidProduct, ErrProductConflict} x" for i d0 x
    by (auto simp: product_tx_def insert_product_def mapProductConflict_def isDuplicateKey_def Let_def failure_simps [OF sc]
        split: if_splits sum.splits prod.splits dest: insert_skus_failure [OF sc])
  show ?thesis
    using run
    by (auto simp: Product_Create_def Product_Repository_Create_def failure_simps [OF sc] split: if_splits sum.splits prod.splits
        dest: atomically_failure [OF c _ body] normalize_skus_failure [OF sc])
qed

text \<open>The order service.\<close>

lemma snapshot_failure:
  assumes sc: "status_code_ok sc" and c: "plain_env sc c" and run: "GetSkuSnapshot attach c i d = (Inl e, d')"
  shows "failure sc {} e"
  using run
  by (auto simp: GetSkuSnapshot_def mapProductError_def StatusError_def NewPublicError_def GetActiveSKUSnapshot_def FindActiveSKU_def
      failure_simps [OF sc] split: if_splits prod.splits sum.splits option.splits dest!: read_db_failure [OF c, where S = "{}"])
    (simp_all add: failure_def)

definition order_errors :: "sentinel set" where
  "order_errors = {ErrInvalidOrder, ErrOrderNotFound, ErrOrderConflict, ErrInvalidEvent, ErrUnsupportedVersion}"

lemma find_order_failure:
  assumes sc: "status_code_ok sc" and c: "\<And>k. plain_env sc (env k)" and run: "find_order t env k cond d = (Inl e, d')"
  shows "failure sc {ErrOrderNotFound} e"
  using run by (auto simp: find_order_def failure_simps [OF sc] split: prod.splits sum.splits option.splits dest: read_db_failure [OF c])

lemma Get_failure:
  assumes "status_code_ok sc" and "\<And>k. plain_env sc (env k)" and "Get env u i d = (Inl e, d')"
  shows "failure sc {ErrOrderNotFound} e"
  using assms(3) find_order_failure [OF assms(1,2)] failure_simps(4) [OF assms(1)]
  by (auto simp: Get_def FindOwned_def split: if_splits)

lemma insert_items_failure: "status_code_ok sc \<Longrightarrow> insert_items i items d = (Inl e, d') \<Longrightarrow> failure sc S e"
  by (induction items arbitrary: d) (auto simp: Let_def failure_simps split: prod.splits sum.splits if_splits)

lemma create_tx_failure:
  assumes sc: "status_code_ok sc" and run: "create_tx now u no items amount d = (Inl e, d')"
  shows "failure sc order_errors e"
proof -
  have o: "insert_order row d0 = (Inl x, d1) \<Longrightarrow> failure sc S x" for row d0 x d1 S
    by (auto simp: insert_order_def failure_simps [OF sc] split: if_splits)
  have b: "insert_outbox row d0 = (Inl x, d1) \<Longrightarrow> failure sc S x" for row d0 x d1 S
    by (auto simp: insert_outbox_def failure_simps [OF sc] split: if_splits)
  have v: "OrderCreatedV1_Validate ev = Some x \<Longrightarrow> failure sc order_errors x" for ev x
    by (auto simp: OrderCreatedV1_Validate_def failure_simps [OF sc] order_errors_def split: if_splits)
  have n: "NewOrderCreatedV1 ord src = Inl x \<Longrightarrow> failure sc order_errors x" for ord src x
    by (auto simp: NewOrderCreatedV1_def Let_def split: option.splits dest: v)
  have f: "findByOrderNoTx no d0 = Inl x \<Longrightarrow> failure sc order_errors x" for d0 x
    by (auto simp: findByOrderNoTx_def order_errors_def failure_simps [OF sc] split: option.splits)
  have c: "failure sc order_errors (Sentinel ErrOrderConflict)" by (simp add: failure_simps [OF sc] order_errors_def)
  show ?thesis
    using run c
    by (auto simp: create_tx_def EncodeOrderCreatedV1_def Let_def failure_simps(1) [OF sc] split: prod.splits sum.splits if_splits option.splits
        dest: o b n v f insert_items_failure [OF sc])
qed

lemma normalize_failure:
  assumes sc: "status_code_ok sc" and "normalizeItems u no inputs = Inl e"
  shows "failure sc order_errors e"
  using assms(2) normalize_loop_spec [of 0 inputs "[]" "[]"]
  by (auto simp: normalizeItems_def max_i64_def failure_simps [OF sc] order_errors_def split: if_splits)

lemma resolve_failure:
  assumes sc: "status_code_ok sc" and snap: "\<And>i e. snapshots i = Inl e \<Longrightarrow> failure sc order_errors e"
  shows "resolve snapshots items = Inl e \<Longrightarrow> failure sc order_errors e"
  by (induction items) (auto simp: failure_simps [OF sc] order_errors_def split: sum.splits if_splits dest: snap [unfolded order_errors_def])

lemma Create_failure:
  assumes sc: "status_code_ok sc" and c: "\<And>k. plain_env sc (env k)" and rnd: "\<And>x. rnd = Inl x \<Longrightarrow> failure sc {} x"
    and snap: "\<And>i x. snapshots i = Inl x \<Longrightarrow> failure sc order_errors x"
    and run: "Create (Some snapshots) rnd env now u items d = (Inl e, d')"
  shows "failure sc order_errors e"
proof -
  have inv: "failure sc order_errors (Sentinel ErrInvalidOrder)" by (simp add: failure_simps [OF sc] order_errors_def)
  have tx: "atomically (env 0) (create_tx now u no rows amount) d = (Inl x, d1) \<Longrightarrow> failure sc order_errors x" for no rows amount x d1
    by (erule atomically_failure [OF c]) (metis create_tx_failure [OF sc] prod.collapse)
  have found: "FindOwned env k u i d0 = (Inl x, d1) \<Longrightarrow> failure sc order_errors x" for k i d0 x d1
    using failure_mono [OF find_order_failure [OF sc c], of _ _ _ _ _ _ _ order_errors] by (simp add: FindOwned_def order_errors_def)
  have one: "CreateIdempotent env now u no rows d = (Inl x, d1) \<Longrightarrow> failure sc order_errors x" for no rows x d1
    by (auto simp: CreateIdempotent_def Let_def split: sum.splits prod.splits created.splits dest: tx found normalize_failure [OF sc])
  have num: "newNormalOrderNo now rnd = Inl x \<Longrightarrow> failure sc order_errors x" for x
    using failure_mono [OF rnd] by (auto simp: newNormalOrderNo_def split: sum.splits)
  have lookup: "resolve snapshots rows = Inl x \<Longrightarrow> failure sc order_errors x" for rows x
    using resolve_failure [OF sc, of snapshots rows x] snap by blast
  show ?thesis
    using run inv
    by (auto simp: Create_def Repository_Create_def failure_simps(1) [OF sc] split: if_splits sum.splits prod.splits
        dest: one num lookup)
qed

lemma adapter_failure:
  assumes sc: "status_code_ok (bk_status b)" and f: "plain_failures b e" and run: "OrderProductAdapter (sku_snapshots b e w) i = Inl x"
  shows "failure (bk_status b) order_errors x"
proof -
  have "failure (bk_status b) order_errors y" if "sku_snapshots b e w i = Inl y" for y
    using snapshot_failure [OF sc, of "se_snapshots e i" "bk_attach b" i "gw_catalog w" y] f that failure_mono
    by (auto simp: sku_snapshots_def plain_failures_def) (metis empty_subsetI prod.collapse)
  with run show ?thesis
    by (auto simp: OrderProductAdapter_def failure_simps [OF sc] order_errors_def split: if_splits sum.splits)
qed

section \<open>Errors in the two interfaces\<close>

lemma writeRPCError_error: "400 \<le> hs_Status (writeRPCError sc err m)" "hs_Data (writeRPCError sc err m) = NoData"
  by (cases "sc err"; simp add: writeRPCError_def)+

text \<open>An error with no sentinel of the service is internal; the gateway knows only a timeout as something else.\<close>

lemma internal_agrees:
  assumes "status_code_ok sc" and "{500, 504} \<subseteq> late"
  shows "answers_agree late internal_error (writeRPCError sc (StatusError attach (NewPublicError Canceled x m r err)) n)"
    and "answers_agree late internal_error (writeRPCError sc (StatusError attach (NewPublicError DeadlineExceeded x m r err)) n)"
    and "errors_As_Public err = None \<Longrightarrow> answers_agree late internal_error (writeRPCError sc (StatusError attach err) n)"
  using assms(2) StatusError_code [OF assms(1)] status_code_ok_def [of sc] assms(1)
  by (simp_all add: answers_agree_def writeRPCError_def StatusError_def NewPublicError_def)

lemma failure_cases:
  assumes "failure sc S err"
  obtains (known) s where "s \<in> S" "errors_Is err s" "\<And>t. errors_Is err t \<longleftrightarrow> t = s"
  | (over) s where "s \<in> {Context_Canceled, Context_DeadlineExceeded}" "errors_Is err s" "\<And>t. errors_Is err t \<longleftrightarrow> t = s"
  | (other) "\<And>t. \<not> errors_Is err t"
  using assms errors_Is_unique [of err] unfolding failure_def by metis

lemma product_errors_agree:
  assumes sc: "status_code_ok sc" and "failure sc S err" and "S \<subseteq> {ErrInvalidProduct, ErrProductNotFound, ErrProductConflict}"
  shows "answers_agree {500, 504} (writeProductError err) (writeRPCError sc (mapProductError attach err) m)"
    and "S = {} \<Longrightarrow> answers_agree {500, 504} internal_error (writeRPCError sc (mapProductError attach err) m)"
proof -
  have p: "errors_As_Public err = None" using assms(2) by (simp add: failure_def)
  from assms(2) show "answers_agree {500, 504} (writeProductError err) (writeRPCError sc (mapProductError attach err) m)"
  proof (cases rule: failure_cases)
    case (known s)
    then have "s \<in> {ErrInvalidProduct, ErrProductNotFound, ErrProductConflict}" using assms(3) by blast
    then show ?thesis
      by (auto simp: answers_agree_def writeProductError_def mapProductError_def writeRPCError_def StatusError_code [OF sc] known(3))
  next
    case (over s)
    then show ?thesis using internal_agrees [OF sc] by (auto simp: writeProductError_def mapProductError_def)
  qed (use internal_agrees(3) [OF sc _ p] in \<open>simp add: writeProductError_def mapProductError_def\<close>)
  from assms(2) show "answers_agree {500, 504} internal_error (writeRPCError sc (mapProductError attach err) m)" if "S = {}"
  proof (cases rule: failure_cases)
    case (over s)
    then show ?thesis using internal_agrees [OF sc] by (auto simp: mapProductError_def)
  qed (use that internal_agrees(3) [OF sc _ p] in \<open>simp_all add: mapProductError_def\<close>)
qed

lemma order_errors_agree:
  assumes sc: "status_code_ok sc" and "failure sc S err" and "S \<subseteq> order_errors"
    and "{500, 504} \<subseteq> late" and "ErrOrderConflict \<in> S \<Longrightarrow> 409 \<in> late"
  shows "answers_agree late (writeOrderError err) (writeRPCError sc (OrderRepo.mapError sc attach err) m)"
proof -
  have p: "errors_As_Public err = None" "sc err \<noteq> Unavailable" using assms(2) by (simp_all add: failure_def)
  from assms(2) show ?thesis
  proof (cases rule: failure_cases)
    case (known s)
    then have u: "sc err = Unknown" "s \<in> order_errors" using errors_Is_code [OF sc] assms(3) by auto
    then consider "s \<in> {ErrInvalidOrder, ErrOrderNotFound}" | "s = ErrOrderConflict" | "s \<in> {ErrInvalidEvent, ErrUnsupportedVersion}"
      unfolding order_errors_def by blast
    then show ?thesis
    proof cases
      case 3
      then show ?thesis
        using internal_agrees(3) [OF sc assms(4) p(1)] u by (auto simp: writeOrderError_def OrderRepo.mapError_def known(3))
    qed (use known(1) u assms(5) in \<open>auto simp: answers_agree_def writeOrderError_def OrderRepo.mapError_def writeRPCError_def
        StatusError_code [OF sc] known(3)\<close>)
  next
    case (over s)
    then show ?thesis
      using internal_agrees [OF sc assms(4)] errors_Is_code [OF sc over(2)] by (auto simp: writeOrderError_def OrderRepo.mapError_def)
  next
    case other
    then show ?thesis
      using internal_agrees [OF sc assms(4)] p by (auto simp: writeOrderError_def OrderRepo.mapError_def)
  qed
qed

text \<open>The failures of the user service.\<close>

lemma user_internal:
  assumes sc: "status_code_ok sc" and "failure sc {} err"
  shows "answers_agree {500, 504} internal_error (writeRPCError sc (mapUserError attach err) m)"
    and "sc (mapUserError attach err) \<notin> {AlreadyExists, Unauthenticated, NotFound}"
proof -
  have p: "errors_As_Public err = None" using assms(2) by (simp add: failure_def)
  from assms(2) have "answers_agree {500, 504} internal_error (writeRPCError sc (mapUserError attach err) m) \<and>
      sc (mapUserError attach err) \<notin> {AlreadyExists, Unauthenticated, NotFound}"
  proof (cases rule: failure_cases)
    case (over s)
    then show ?thesis using internal_agrees [OF sc] by (auto simp: mapUserError_def StatusError_code [OF sc])
  next
    case other
    then have "mapUserError attach err = StatusError attach err" by (simp add: mapUserError_def)
    with p internal_agrees(3) [OF sc _ p] sc show ?thesis by (simp add: StatusError_def status_code_ok_def)
  qed simp
  then show "answers_agree {500, 504} internal_error (writeRPCError sc (mapUserError attach err) m)"
    "sc (mapUserError attach err) \<notin> {AlreadyExists, Unauthenticated, NotFound}" by simp_all
qed

text \<open>To compare the answers to a failure it is enough to look at its sentinels and at internal errors.\<close>

lemma agree_split:
  assumes "failure sc S err" and "\<And>s. s \<in> S \<Longrightarrow> (\<And>t. errors_Is err t \<longleftrightarrow> t = s) \<Longrightarrow> answers_agree late x y"
    and "failure sc {} err \<Longrightarrow> (\<And>t. t \<in> S - {Context_Canceled, Context_DeadlineExceeded} \<Longrightarrow> \<not> errors_Is err t) \<Longrightarrow> answers_agree late x y"
  shows "answers_agree late x y"
  using assms(1)
proof (cases rule: failure_cases)
  case (over s)
  with assms(1) show ?thesis by (intro assms(3)) (auto simp: failure_def)
next
  case other
  with assms(1) show ?thesis by (intro assms(3)) (auto simp: failure_def)
qed (rule assms(2))

lemma user_errors_agree:
  assumes sc: "status_code_ok sc"
  shows "failure sc {ErrInvalidEmail, ErrInvalidPassword, ErrUserAlreadyExists} err \<Longrightarrow>
      answers_agree {500, 504} (if errors_Is err ErrInvalidEmail \<or> errors_Is err ErrInvalidPassword then invalid ''invalid email or password''
        else if errors_Is err ErrUserAlreadyExists then writeError 409 ''USER_ALREADY_EXISTS'' ''user already exists'' else internal_error)
      (if sc (mapUserError attach err) = AlreadyExists then writeError 409 ''USER_ALREADY_EXISTS'' ''user already exists''
        else writeRPCError sc (mapUserError attach err) ''invalid email or password'')"
    and "failure sc {ErrInvalidCredentials} err \<Longrightarrow>
      answers_agree {500, 504} (if errors_Is err ErrInvalidCredentials then writeError 401 ''UNAUTHENTICATED'' ''invalid credentials'' else internal_error)
      (if sc (mapUserError attach err) = Unauthenticated then writeError 401 ''UNAUTHENTICATED'' ''invalid credentials''
        else writeRPCError sc (mapUserError attach err) ''invalid credentials'')"
    and "failure sc {ErrUserNotFound} err \<Longrightarrow>
      answers_agree {500, 504} (if errors_Is err ErrUserNotFound then writeError 401 ''UNAUTHENTICATED'' ''user is not active'' else internal_error)
      (if sc (mapUserError attach err) = NotFound then writeError 401 ''UNAUTHENTICATED'' ''user is not active''
        else writeRPCError sc (mapUserError attach err) ''invalid user'')"
    and "failure sc {RBAC_ErrUserNotFound, ErrRoleAssignmentConflict} err \<Longrightarrow>
      answers_agree {500, 504} (if errors_Is err RBAC_ErrUserNotFound then writeError 404 ''USER_NOT_FOUND'' ''user not found''
        else if errors_Is err ErrRoleAssignmentConflict then writeError 409 ''ROLE_ASSIGNMENT_CONFLICT'' ''invalid role assignment''
        else internal_error)
      (writeRPCError sc (mapUserError attach err) ''invalid role assignment'')"
  by (erule agree_split; use user_internal [OF sc, of err] in
      \<open>auto simp: answers_agree_def mapUserError_def StatusError_code [OF sc] writeRPCError_def\<close>)+

section \<open>Handlers that act alike\<close>

text \<open>
  What the comparison asks of a request and of the tables: a page number of 32 bits, a catalogue that can be counted in
  63 bits, and orders with the one status there is.
\<close>

definition fits :: "http_request \<Rightarrow> deployment \<Rightarrow> bool" where
  "fits r w \<longleftrightarrow> (\<forall>page n. hr_Page r = Some (page, n) \<longrightarrow> page < 2 ^ 32) \<and> length (ct_products (gw_catalog w)) < 2 ^ 63 \<and>
     (\<forall>row \<in> set (od_orders (gw_orders w)). or_status row = 1)"

definition alike :: "nat set \<Rightarrow> deployment handler \<Rightarrow> deployment handler \<Rightarrow> bool" where
  "alike late h g \<longleftrightarrow> (\<forall>r v w. fits r v \<longrightarrow> served v = served w \<longrightarrow> same_end late (h r v) (g r w))"

lemma served_iff: "served v = served w \<longleftrightarrow> gw_accounts v = gw_accounts w \<and> gw_catalog v = gw_catalog w \<and> gw_orders v = gw_orders w \<and>
    gw_inventory v = gw_inventory w \<and> gw_activities v = gw_activities w \<and> gw_gate v = gw_gate w \<and> gw_redis v = gw_redis w \<and>
    gw_notifications v = gw_notifications w"
  by (cases v; cases w) (auto simp: served_def)

lemma alikeI: "(\<And>r v w. fits r v \<Longrightarrow> served v = served w \<Longrightarrow> same_end late (h r v) (g r w)) \<Longrightarrow> alike late h g"
  by (simp add: alike_def)

lemma answers_agree_mono: "answers_agree early x y \<Longrightarrow> early \<subseteq> late \<Longrightarrow> answers_agree late x y"
  by (auto simp: answers_agree_def split: if_splits)

lemma plain_failures_env:
  assumes "plain_failures b e"
  shows "plain_env (bk_status b) (se_accounts e k)" and "plain_env (bk_status b) (se_catalog e k)"
    and "plain_env (bk_status b) (se_orders e k)"
    and "bl_generate (bk_bcrypt b) salt p = Inl err \<Longrightarrow> failure (bk_status b) {} err"
    and "se_random e = Inl err \<Longrightarrow> failure (bk_status b) {} err"
  using assms by (auto simp: plain_failures_def)

lemma alike_authenticate:
  assumes "alike late h g"
  shows "alike late (authenticate J tokens now h) (authenticate J tokens now g)"
proof (rule alikeI)
  fix r :: http_request and v w :: deployment
  assume F: "fits r v" and S: "served v = served w"
  show "same_end late (authenticate J tokens now h r v) (authenticate J tokens now g r w)"
  proof (cases "token_user J tokens now r")
    case (Some u)
    have "fits (r\<lparr>hr_UserID := Some u\<rparr>) v" using F by (simp add: fits_def)
    with assms S have "same_end late (h (r\<lparr>hr_UserID := Some u\<rparr>) v) (g (r\<lparr>hr_UserID := Some u\<rparr>) w)" by (simp add: alike_def)
    with Some authenticate_cases(1) [of J tokens now h r v] authenticate_cases(1) [of J tokens now g r w] show ?thesis by simp
  next
    case None
    with S show ?thesis by (auto simp: authenticate_def same_end_def answers_agree_def token_user_def split: list.splits sum.splits)
  qed
qed

lemma alike_permission:
  assumes "bk_net b = quiet" and "bk_server b = (\<lambda>_. e)" and "status_code_ok (bk_status b)" and "plain_failures b e"
    and "alike late h g" and "{500, 504} \<subseteq> late"
  shows "alike late (requirePermission (process b e S) permission h) (gatewayRequirePermission (bk_status b) (gd_Users (dependencies_of b)) permission g)"
proof (rule alikeI)
  fix r :: http_request and v w :: deployment
  assume F: "fits r v" and S: "served v = served w"
  let ?x = "HasPermission (bk_text b) (se_accounts e 0) (the (gatewayUserID r)) permission (gw_accounts v)"
  obtain res d where x: "?x = (res, d)" by fastforce
  have fits: "fits r (v\<lparr>gw_accounts := d\<rparr>)" and S': "served (v\<lparr>gw_accounts := d\<rparr>) = served (w\<lparr>gw_accounts := d, gw_calls := gw_calls w + 1\<rparr>)"
    using F S by (auto simp: fits_def served_iff)
  have err: "failure (bk_status b) {} x" if "res = Inl x" for x
    using user_query_failure(3) [OF assms(3) plain_failures_env(1) [OF assms(4)]] x that by blast
  from S' fits assms(5) have "same_end late (h r (v\<lparr>gw_accounts := d\<rparr>)) (g r (w\<lparr>gw_accounts := d, gw_calls := gw_calls w + 1\<rparr>))" by (simp add: alike_def)
  then show "same_end late (requirePermission (process b e S) permission h r v)
      (gatewayRequirePermission (bk_status b) (gd_Users (dependencies_of b)) permission g r w)"
    using x S assms(1,2) answers_agree_mono [OF user_internal(1) [OF assms(3) err] assms(6)]
    by (cases "gatewayUserID r"; cases res)
      (auto simp: requirePermission_def gatewayRequirePermission_def with_user_def process_def dependencies_of_def userAdapter_def
        user_service_def remote_quiet on_accounts_def Server_HasPermission_def answer_user_def same_end_def answers_agree_def served_iff)
qed

lemmas over_rpc = dependencies_of_def userAdapter_def user_service_def productAdapter_def product_service_def orderAdapter_def
  order_service_def on_accounts_def on_catalog_def on_orders_def map_reply_def reply_def

lemma alike_register:
  assumes "bk_net b = quiet" and "bk_server b = (\<lambda>_. e)" and "status_code_ok (bk_status b)" and "plain_failures b e"
  shows "alike {500, 504} (registerUserHandler (process b e S)) (gatewayRegister (bk_status b) (gd_Users (dependencies_of b)))"
proof (rule alikeI)
  fix r :: http_request and v w :: deployment
  assume S: "served v = served w"
  show "same_end {500, 504} (registerUserHandler (process b e S) r v) (gatewayRegister (bk_status b) (gd_Users (dependencies_of b)) r w)"
  proof (cases "hr_Credentials r")
    case None
    with S show ?thesis by (simp add: registerUserHandler_def gatewayRegister_def same_end_def answers_agree_def)
  next
    case (Some c)
    obtain email p where c: "c = (email, p)" by fastforce
    obtain res d where x: "Register (bk_text b) (bk_bcrypt b) (se_accounts e 0) (se_salt e) (se_dbnow e) (se_now e) email p (gw_accounts v) = (res, d)"
      by fastforce
    have "failure (bk_status b) {ErrInvalidEmail, ErrInvalidPassword, ErrUserAlreadyExists} err" if "res = Inl err" for err
      by (rule Register_failure [OF assms(3) plain_failures_env(1) [OF assms(4)] plain_failures_env(4) [OF assms(4)] x [unfolded that]])
    then show ?thesis
      using x Some c S assms(1,2) user_errors_agree(1) [OF assms(3)]
      by (cases res) (simp_all add: registerUserHandler_def gatewayRegister_def process_def over_rpc remote_quiet Server_Register_def
          answer_user_def same_end_def served_iff user_message answers_agree_def [of _ "OkJson _"] del: response_defs, simp)
  qed
qed

lemma alike_login:
  assumes "bk_net b = quiet" and "bk_server b = (\<lambda>_. e)" and "status_code_ok (bk_status b)" and "se_accounts e 1 = quiet 1" and "plain_failures b e"
  shows "alike {500, 504} (loginHandler J tokens now (process b e S)) (gatewayLogin (bk_status b) J tokens now (gd_Users (dependencies_of b)))"
proof (rule alikeI)
  fix r :: http_request and v w :: deployment
  assume S: "served v = served w"
  show "same_end {500, 504} (loginHandler J tokens now (process b e S) r v) (gatewayLogin (bk_status b) J tokens now (gd_Users (dependencies_of b)) r w)"
  proof (cases "hr_Credentials r")
    case None
    with S show ?thesis by (simp add: loginHandler_def gatewayLogin_def same_end_def answers_agree_def)
  next
    case (Some c)
    obtain email p where c: "c = (email, p)" by fastforce
    obtain res hs d where x: "Authenticate (bk_text b) (bk_bcrypt b) (bk_dummyHash b) (se_accounts e 0) email p (gw_accounts v) = (res, hs, d)"
      by (metis prod_cases3)
    show ?thesis
    proof (cases res)
      case (Inl err)
      have "failure (bk_status b) {ErrInvalidCredentials} err"
        by (rule Authenticate_failure [OF assms(3) plain_failures_env(1) [OF assms(5)] x [unfolded Inl]])
      from user_errors_agree(2) [OF assms(3) this] show ?thesis
        using x Some c S assms(1,2) Inl
        by (simp add: loginHandler_def gatewayLogin_def process_def over_rpc remote_quiet Server_Authenticate_def
            answer_user_def same_end_def served_iff del: response_defs)
    next
      case (Inr u)
      then show ?thesis
        using x Some c S assms(1,2,4)
        by (auto simp: loginHandler_def gatewayLogin_def process_def over_rpc remote_quiet Server_Authenticate_def UserRoles_def
          Repository_UserRoles_def answer_user_def same_end_def served_iff user_message answers_agree_def split: sum.splits)
    qed
  qed
qed

lemma alike_me:
  assumes "bk_net b = quiet" and "bk_server b = (\<lambda>_. e)" and "status_code_ok (bk_status b)" and "plain_failures b e"
  shows "alike {500, 504} (currentUserHandler (process b e S)) (gatewayCurrentUser (bk_status b) (gd_Users (dependencies_of b)))"
proof (rule alikeI)
  fix r :: http_request and v w :: deployment
  assume S: "served v = served w"
  let ?u = "the (gatewayUserID r)"
  obtain res d where x: "CurrentUser (se_accounts e 0) ?u (gw_accounts v) = (res, d)" by fastforce
  obtain roles d2 where y: "UserRoles (bk_text b) (se_accounts e 0) ?u d = (roles, d2)" by fastforce
  note q = user_query_failure [OF assms(3) plain_failures_env(1) [OF assms(4)]]
  have "failure (bk_status b) {ErrUserNotFound} err" if "res = Inl err" for err using q(1) x that by blast
  moreover have "failure (bk_status b) {} err" if "roles = Inl err" for err using q(2) y that by blast
  ultimately show "same_end {500, 504} (currentUserHandler (process b e S) r v) (gatewayCurrentUser (bk_status b) (gd_Users (dependencies_of b)) r w)"
    using x y S assms(1,2) user_errors_agree(3) [OF assms(3)] user_internal(1) [OF assms(3)]
    by (cases "gatewayUserID r"; cases res; cases roles)
      (simp_all add: currentUserHandler_def gatewayCurrentUser_def with_user_def process_def over_rpc remote_quiet Server_GetUser_def
        Server_GetUserRoles_def answer_user_def same_end_def served_iff user_message answers_agree_def [of _ "OkJson _"]
        answers_agree_def [of _ unauthenticated] del: response_defs, simp_all)
qed

lemma alike_roles:
  assumes "bk_net b = quiet" and "bk_server b = (\<lambda>_. e)" and "status_code_ok (bk_status b)" and "plain_failures b e"
  shows "alike {500, 504} (replaceUserRolesHandler (process b e S)) (gatewayReplaceRoles (bk_status b) (gd_Users (dependencies_of b)))"
proof (rule alikeI)
  fix r :: http_request and v w :: deployment
  assume S: "served v = served w"
  show "same_end {500, 504} (replaceUserRolesHandler (process b e S) r v) (gatewayReplaceRoles (bk_status b) (gd_Users (dependencies_of b)) r w)"
  proof (cases "hr_Roles r")
    case None
    with S show ?thesis by (simp add: replaceUserRolesHandler_def gatewayReplaceRoles_def same_end_def answers_agree_def)
  next
    case (Some c)
    obtain u codes where c: "c = (u, codes)" by fastforce
    obtain res d where x: "ReplaceUserRoles (bk_text b) (se_accounts e 0) u codes (gw_accounts v) = (res, d)" by fastforce
    obtain roles d2 where y: "UserRoles (bk_text b) (se_accounts e 0) u d = (roles, d2)" by fastforce
    have "failure (bk_status b) {RBAC_ErrUserNotFound, ErrRoleAssignmentConflict} err" if "res = Inl err" for err
      by (rule ReplaceUserRoles_failure [OF assms(3) plain_failures_env(1) [OF assms(4)] x [unfolded that]])
    moreover have "failure (bk_status b) {} err" if "roles = Inl err" for err
      using user_query_failure(2) [OF assms(3) plain_failures_env(1) [OF assms(4)]] y that by blast
    ultimately show ?thesis
      using Some c x y S assms(1,2) user_errors_agree(4) [OF assms(3)] user_internal(1) [OF assms(3)]
      by (cases "u = 0"; cases res; cases roles)
        (simp_all add: replaceUserRolesHandler_def gatewayReplaceRoles_def process_def over_rpc remote_quiet Server_ReplaceUserRoles_def
          Server_GetUserRoles_def answer_user_def same_end_def served_iff answers_agree_def [of _ "OkJson _"]
          answers_agree_def [of _ "invalid _"] del: response_defs, simp_all)
  qed
qed

section \<open>Products\<close>

lemma rounded_None [simp]: "rounded None = None"
  by (simp add: rounded_def)

lemma rounded_created: "rounded (created_at t) = created_at (to_milli t)"
  by (simp add: rounded_def created_at_def to_milli_def Truncate_def IsZero_def zero_time_def)

lemma product_payload:
  assumes "p_Status p \<in> {StatusActive, StatusInactive}"
  shows "toProductPayload (fromProtoProduct (toProtoProduct p)) = (toProductPayload p)\<lparr>xp_CreatedAt := rounded (xp_CreatedAt (toProductPayload p))\<rparr>"
  using assms by (auto simp: toProductPayload_def fromProtoProduct_def toProtoProduct_def fromProtoProductStatus_def toProtoStatus_def
      rounded_created)

lemma find_holds: "Some x = find P xs \<Longrightarrow> P x \<and> x \<in> set xs"
  by (induction xs) (auto split: if_splits)

lemma GetPublic_status: "undisturbed env \<Longrightarrow> GetPublic env i d = (Inr p, d') \<Longrightarrow> p_Status p = StatusActive"
  by (auto simp: GetPublic_def FindActive_def split: if_splits prod.splits sum.splits option.splits
      dest!: read_db_undisturbed(2) find_holds)

lemma Create_status: "Product_Create c dbnow now input d = (Inr p, d') \<Longrightarrow> p_Status p = StatusInactive"
  by (auto simp: Product_Create_def Product_Repository_Create_def split: if_splits prod.splits sum.splits)

lemma ListPublic_found:
  assumes "undisturbed env" and "ListPublic env page n d = (Inr x, d')"
  shows "\<forall>p \<in> set (pp_Items x). p_Status p = StatusActive" and "pp_Total x = int (length (active_products d))"
    and "pp_Page x = fst (page_of (page, n))" and "pp_PageSize x = snd (page_of (page, n))"
  using assms by (auto simp: ListPublic_def ListActive_def page_of_def Let_def active_products_def split: if_splits prod.splits sum.splits
      dest!: read_db_undisturbed(2) [OF assms(1)] in_set_takeD in_set_dropD)

lemma ListPublic_normal: "ListPublic env (fst (page_of (page, n))) (snd (page_of (page, n))) d = ListPublic env page n d"
  unfolding ListPublic_def page_of_def Let_def fst_conv snd_conv by simp

lemma page_of_words:
  assumes "page < 2 ^ 32"
  shows "uint (word_of_int (fst (page_of (page, n))) :: 32 word) = fst (page_of (page, n))"
    and "uint (word_of_int (snd (page_of (page, n))) :: 32 word) = snd (page_of (page, n))"
  using assms by (auto simp: page_of_def unsigned_of_int take_bit_int_eq_self)

lemma count_word: "n < 2 ^ 63 \<Longrightarrow> sint (of_int (int n) :: u64) = int n"
  by (simp add: signed_of_nat signed_take_bit_int_eq_self)

lemma alike_list:
  assumes "bk_net b = quiet" and "bk_server b = (\<lambda>_. e)" and "undisturbed (se_catalog e)" and "status_code_ok (bk_status b)" and "plain_failures b e"
  shows "alike {500, 504} (listProductsHandler (process b e S)) (gatewayListProducts (bk_status b) (gd_Products (dependencies_of b)))"
proof (rule alikeI)
  fix r :: http_request and v w :: deployment
  assume F: "fits r v" and S: "served v = served w"
  show "same_end {500, 504} (listProductsHandler (process b e S) r v) (gatewayListProducts (bk_status b) (gd_Products (dependencies_of b)) r w)"
  proof (cases "hr_Page r")
    case None
    with S show ?thesis by (simp add: listProductsHandler_def gatewayListProducts_def same_end_def answers_agree_def)
  next
    case (Some q)
    obtain page n where q: "q = (page, n)" by fastforce
    have p: "page < 2 ^ 32" using F Some q by (auto simp: fits_def)
    obtain res d where x: "ListPublic (se_catalog e) page n (gw_catalog v) = (res, d)" by fastforce
    have l: "listProductsHandler (process b e S) r v = reply (\<lambda>err. internal_error)
        (\<lambda>page. OkJson (ProductListData (map toProductPayload (pp_Items page)) (pp_Page page) (pp_PageSize page) (pp_Total page)))
        (res, v\<lparr>gw_catalog := d\<rparr>)"
      using Some q x by (simp add: listProductsHandler_def process_def on_catalog_def)
    have g: "gatewayListProducts (bk_status b) (gd_Products (dependencies_of b)) r w = reply
        (\<lambda>err. writeRPCError (bk_status b) err ''invalid pagination'')
        (\<lambda>page. OkJson (ProductListData (map toProductPayload (pp_Items page)) (pp_Page page) (pp_PageSize page) (pp_Total page)))
        (case res of Inl err \<Rightarrow> Inl (mapProductError (bk_attach b) err)
         | Inr x \<Rightarrow> Inr \<lparr>pp_Items = map fromProtoProduct (map toProtoProduct (pp_Items x)), pp_Page = uint (word_of_int (pp_Page x) :: 32 word),
             pp_PageSize = uint (word_of_int (pp_PageSize x) :: 32 word), pp_Total = sint (of_int (pp_Total x) :: u64)\<rparr>,
         w\<lparr>gw_catalog := d, gw_calls := gw_calls w + 1\<rparr>)"
      using Some q x assms(1,2) S page_of_words [OF p, of n] ListPublic_normal [of "se_catalog e" page n]
      by (cases res) (simp_all add: gatewayListProducts_def dependencies_of_def productAdapter_def product_service_def on_catalog_def
          remote_quiet ListProducts_def served_iff map_reply_def)
    show ?thesis
    proof (cases res)
      case (Inl err)
      have "failure (bk_status b) {} err"
        by (rule product_query_failure(1) [OF assms(4) plain_failures_env(2) [OF assms(5)] x [unfolded Inl]])
      from product_errors_agree(2) [OF assms(4) this] l g S Inl show ?thesis by (simp add: reply_def same_end_def served_iff)
    next
      case (Inr found)
      note found = ListPublic_found [OF assms(3) x [unfolded Inr]]
      have "length (active_products (gw_catalog v)) < 2 ^ 63"
        using F by (simp add: fits_def active_products_def le_less_trans [OF length_filter_le])
      then have "sint (of_int (pp_Total found) :: u64) = pp_Total found" by (simp only: found(2) count_word)
      moreover have "map (toProductPayload \<circ> (fromProtoProduct \<circ> toProtoProduct)) (pp_Items found) =
          map (\<lambda>p. p\<lparr>xp_CreatedAt := rounded (xp_CreatedAt p)\<rparr>) (map toProductPayload (pp_Items found))"
        using found(1) by (simp add: product_payload)
      ultimately show ?thesis
        using l g S Inr found(3,4) page_of_words [OF p, of n] by (simp add: reply_def same_end_def answers_agree_def served_iff)
    qed
  qed
qed

lemmas catalogue_route = process_def over_rpc remote_quiet same_end_def served_iff

lemma alike_get_product:
  assumes "bk_net b = quiet" and "bk_server b = (\<lambda>_. e)" and "undisturbed (se_catalog e)" and "status_code_ok (bk_status b)" and "plain_failures b e"
  shows "alike {500, 504} (getProductHandler (process b e S)) (gatewayGetProduct (bk_status b) (gd_Products (dependencies_of b)))"
proof (rule alikeI)
  fix r :: http_request and v w :: deployment
  assume S: "served v = served w"
  obtain res d where x: "GetPublic (se_catalog e) (the (hr_PathID r)) (gw_catalog v) = (res, d)" by fastforce
  have "p_Status p = StatusActive" if "res = Inr p" for p using GetPublic_status [OF assms(3)] x that by blast
  moreover have "failure (bk_status b) {ErrProductNotFound} err" if "res = Inl err" for err
    by (rule product_query_failure(2) [OF assms(4) plain_failures_env(2) [OF assms(5)] x [unfolded that]])
  ultimately show "same_end {500, 504} (getProductHandler (process b e S) r v) (gatewayGetProduct (bk_status b) (gd_Products (dependencies_of b)) r w)"
    using x S assms(1,2) product_errors_agree(1) [OF assms(4)]
    by (cases "hr_PathID r"; cases res)
      (simp_all add: getProductHandler_def gatewayGetProduct_def catalogue_route GetProduct_def product_payload answers_agree_def [of _ "OkJson _"]
        answers_agree_def [of _ "invalid _"] del: response_defs, simp_all)
qed

lemma alike_create_product:
  assumes "bk_net b = quiet" and "bk_server b = (\<lambda>_. e)" and "status_code_ok (bk_status b)" and "plain_failures b e"
  shows "alike {500, 504} (createProductHandler (process b e S)) (gatewayCreateProduct (bk_status b) (gd_Products (dependencies_of b)))"
proof (rule alikeI)
  fix r :: http_request and v w :: deployment
  assume S: "served v = served w"
  show "same_end {500, 504} (createProductHandler (process b e S) r v) (gatewayCreateProduct (bk_status b) (gd_Products (dependencies_of b)) r w)"
  proof (cases "Option.bind (hr_Body r) decode_createProduct")
    case None
    with S show ?thesis by (simp add: createProductHandler_def gatewayCreateProduct_def same_end_def answers_agree_def)
  next
    case (Some q)
    obtain name description skus where q: "q = (name, description, skus)" by (metis prod_cases3)
    let ?input = "\<lparr>cp_Name = name, cp_Description = description, cp_SKUs = map sku_input skus\<rparr>"
    obtain res d where x: "Product_Create (se_catalog e 0) (se_dbnow e) (se_now e) ?input (gw_catalog v) = (res, d)" by fastforce
    have "p_Status p = StatusInactive" if "res = Inr p" for p using Create_status x that by blast
    moreover have "(\<lambda>(code, name, price). \<lparr>sk_ID = 0, sk_Code = code, sk_Name = name, sk_PriceCent = price, sk_Status = 0\<rparr>) \<circ>
        (\<lambda>k. (sk_Code k, sk_Name k, sk_PriceCent k)) \<circ> sku_input = sku_input"
      by (simp add: fun_eq_iff sku_input_def)
    moreover have "failure (bk_status b) {ErrInvalidProduct, ErrProductConflict} err" if "res = Inl err" for err
      by (rule Product_Create_failure [OF assms(3) plain_failures_env(2) [OF assms(4)] x [unfolded that]])
    ultimately show ?thesis
      using x S assms(1,2) product_errors_agree(1) [OF assms(3)] Some q
      by (cases res)
        (simp_all add: createProductHandler_def gatewayCreateProduct_def catalogue_route CreateProduct_def product_payload answers_agree_def [of _ "OkJson _"]
          answers_agree_def [of _ "invalid _"] del: response_defs, simp_all)
  qed
qed

lemma alike_update_product:
  assumes "bk_net b = quiet" and "bk_server b = (\<lambda>_. e)" and "status_code_ok (bk_status b)" and "plain_failures b e"
  shows "alike {500, 504} (updateProductHandler (process b e S)) (gatewayUpdateProduct (bk_status b) (gd_Products (dependencies_of b)))"
proof (rule alikeI)
  fix r :: http_request and v w :: deployment
  assume S: "served v = served w"
  show "same_end {500, 504} (updateProductHandler (process b e S) r v) (gatewayUpdateProduct (bk_status b) (gd_Products (dependencies_of b)) r w)"
  proof (cases "Option.bind (hr_PathID r) (\<lambda>pathID. Option.bind (hr_Body r) (decode_updateProduct pathID))")
    case None
    with S show ?thesis by (simp add: updateProductHandler_def gatewayUpdateProduct_def same_end_def answers_agree_def)
  next
    case (Some q)
    obtain i name description where q: "q = (i, name, description)" by (metis prod_cases3)
    obtain res d where x: "Product_Update (se_catalog e 0) i name description (gw_catalog v) = (res, d)" by fastforce
    have "failure (bk_status b) {ErrInvalidProduct, ErrProductNotFound} err" if "res = Inl err" for err
      by (rule product_change_failure(1) [OF assms(3) plain_failures_env(2) [OF assms(4)] x [unfolded that]])
    then show ?thesis
      using x S assms(1,2) product_errors_agree(1) [OF assms(3)] Some q
      by (cases res)
        (simp_all add: updateProductHandler_def gatewayUpdateProduct_def catalogue_route UpdateProduct_def answers_agree_def [of _ "OkJson _"]
          del: response_defs, simp_all)
  qed
qed

lemma alike_product_status:
  assumes "bk_net b = quiet" and "bk_server b = (\<lambda>_. e)" and "status_code_ok (bk_status b)" and "plain_failures b e"
  shows "alike {500, 504} (updateProductStatusHandler (process b e S)) (gatewayUpdateProductStatus (bk_status b) (gd_Products (dependencies_of b)))"
proof (rule alikeI)
  fix r :: http_request and v w :: deployment
  assume S: "served v = served w"
  show "same_end {500, 504} (updateProductStatusHandler (process b e S) r v) (gatewayUpdateProductStatus (bk_status b) (gd_Products (dependencies_of b)) r w)"
  proof (cases "Option.bind (hr_PathID r) (\<lambda>pathID. Option.bind (hr_Body r) (decode_updateProductStatus pathID))")
    case None
    with S show ?thesis by (simp add: updateProductStatusHandler_def gatewayUpdateProductStatus_def same_end_def answers_agree_def)
  next
    case (Some q)
    obtain i st where q: "q = (i, st)" by fastforce
    have st: "Product_SetStatus c i (fromProtoStatus (toProtoProductStatus st)) d = Product_SetStatus c i st d" for c d
      by (simp add: Product_SetStatus_def fromProtoStatus_def toProtoProductStatus_def)
    obtain res d where x: "Product_SetStatus (se_catalog e 0) i st (gw_catalog v) = (res, d)" by fastforce
    have "failure (bk_status b) {ErrInvalidProduct, ErrProductNotFound} err" if "res = Inl err" for err
      by (rule product_change_failure(2) [OF assms(3) plain_failures_env(2) [OF assms(4)] x [unfolded that]])
    then show ?thesis
      using x S assms(1,2) product_errors_agree(1) [OF assms(3)] Some q
      by (cases res)
        (simp_all add: updateProductStatusHandler_def gatewayUpdateProductStatus_def catalogue_route UpdateProductStatus_def st
          answers_agree_def [of _ "OkJson _"] del: response_defs, simp_all)
  qed
qed

section \<open>Orders\<close>

definition all_created :: "order_db \<Rightarrow> bool" where
  "all_created d \<longleftrightarrow> (\<forall>row \<in> set (od_orders d). or_status row = 1)"

lemma find_order_created:
  assumes "undisturbed env" and "all_created d" and "find_order t env k cond d = (Inr v, d')"
  shows "o_Status v = 1"
  using assms by (auto simp: find_order_def load_order_def all_created_def split: prod.splits sum.splits option.splits
      dest!: read_db_undisturbed(2) find_holds)

lemma found_created: "all_created d \<Longrightarrow> findByOrderNoTx no d = Inr found \<Longrightarrow> o_Status found = 1"
  by (auto simp: findByOrderNoTx_def load_order_def all_created_def split: option.splits dest!: find_holds [OF sym])

lemma create_tx_created:
  assumes "all_created d" and "create_tx now u no items amount d = (Inr x, d')"
  shows "all_created d' \<and> (\<forall>found. x = Existing found \<longrightarrow> o_Status found = 1)"
proof -
  obtain res d1 where i: "insert_order \<lparr>or_id = 0, or_order_no = no, or_user_id = u, or_status = 1, or_total_amount_cent = amount,
      or_created_at = Truncate now microsecond\<rparr> d = (res, d1)" by fastforce
  have "d1 = d" if "res = Inl e" for e using i that by (auto simp: insert_order_def split: if_splits)
  moreover have "all_created d1" if "res = Inr j" for j
    using i that assms(1) by (auto simp: insert_order_def all_created_def split: if_splits)
  moreover have "od_orders d3 = od_orders d2" if "insert_items j rows d2 = (Inr y, d3)" for j rows d2 y d3
    using insert_items_success [OF that] by simp
  moreover have "od_orders d3 = od_orders d2" if "insert_outbox row d2 = (y, d3)" for row d2 y d3
    using that by (auto simp: insert_outbox_def split: if_splits)
  ultimately show ?thesis
    using i assms found_created [OF assms(1)]
    by (cases res) (auto simp: create_tx_def Let_def all_created_def split: prod.splits sum.splits if_splits)
qed

lemma Create_created:
  assumes "undisturbed env" and "all_created d" and "Create snapshots rnd env now u items d = (Inr v, d')"
  shows "o_Status v = 1"
proof -
  obtain no inputs x where c: "CreateIdempotent env now u no inputs d = (Inr x, d')" "v = cr_Order x"
    using assms(3) by (auto simp: Create_def Repository_Create_def split: if_splits sum.splits prod.splits option.splits)
  then consider (found) rows amount where "atomically (env 0) (create_tx now u (TrimSpace no) rows amount) d = (Inr (Existing v), d')"
    | (written) rows amount i d1 where "atomically (env 0) (create_tx now u (TrimSpace no) rows amount) d = (Inr (Written i), d1)"
        "FindOwned env 1 u i d1 = (Inr v, d')"
    by (auto simp: CreateIdempotent_def Let_def split: sum.splits prod.splits created.splits)
  then show ?thesis
  proof cases
    case found
    from create_tx_created [OF assms(2) atomically_undisturbed(2) [OF assms(1) found refl]] show ?thesis by simp
  next
    case written
    from create_tx_created [OF assms(2) atomically_undisturbed(2) [OF assms(1) written(1) refl]] have "all_created d1" by simp
    from find_order_created [OF assms(1) this written(2) [unfolded FindOwned_def]] show ?thesis .
  qed
qed

lemma order_payload: "o_Status v = 1 \<Longrightarrow> toOrderPayload (fromProtoOrder (toProtoOrder v source)) =
    (toOrderPayload v)\<lparr>op_CreatedAt := rounded (op_CreatedAt (toOrderPayload v))\<rparr>"
  by (simp add: order_message toOrderPayload_def rounded_created)

lemmas order_route = process_def over_rpc remote_quiet same_end_def served_iff with_user_def

lemma alike_create_order:
  assumes "bk_net b = quiet" and "bk_server b = (\<lambda>_. e)" and "undisturbed (se_orders e)" and "status_code_ok (bk_status b)" and "plain_failures b e"
  shows "alike {409, 500, 504} (createOrderHandler (process b e S)) (gatewayCreateOrder (bk_status b) (gd_Orders (dependencies_of b)))"
proof (rule alikeI)
  fix r :: http_request and v w :: deployment
  assume F: "fits r v" and S: "served v = served w"
  let ?items = "map item_input (the (Option.bind (hr_Body r) decode_createOrder))"
  have snap: "sku_snapshots b e v = sku_snapshots b e w" using S by (simp add: sku_snapshots_def served_iff fun_eq_iff)
  have inp: "(\<lambda>(sku, q). \<lparr>in_SKUID = sku, in_ProductName = [], in_SKUCode = [], in_SKUName = [], in_UnitPriceCent = 0, in_Quantity = q\<rparr>) = item_input"
    by (simp add: fun_eq_iff item_input_def)
  obtain res d where x: "Create (Some (OrderProductAdapter (sku_snapshots b e w))) (se_random e) (se_orders e) (se_now e)
      (the (gatewayUserID r)) ?items (gw_orders v) = (res, d)" by fastforce
  have "o_Status y = 1" if "res = Inr y" for y
    using Create_created [OF assms(3)] x that F by (auto simp: fits_def all_created_def)
  moreover have "failure (bk_status b) order_errors err" if "res = Inl err" for err
    by (rule Create_failure [OF assms(4) plain_failures_env(3) [OF assms(5)] plain_failures_env(5) [OF assms(5)]
          adapter_failure [OF assms(4,5)] x [unfolded that]])
  ultimately show "same_end {409, 500, 504} (createOrderHandler (process b e S) r v) (gatewayCreateOrder (bk_status b) (gd_Orders (dependencies_of b)) r w)"
    using x S snap assms(1,2) order_errors_agree [OF assms(4), of order_errors _ "{409, 500, 504}"]
    by (cases "gatewayUserID r"; cases "Option.bind (hr_Body r) decode_createOrder"; cases res)
      (simp_all add: createOrderHandler_def gatewayCreateOrder_def order_route CreateOrder_def inp order_payload answers_agree_def [of _ "OkJson _"]
        answers_agree_def [of _ "invalid _"] answers_agree_def [of _ unauthenticated] del: response_defs, simp_all)
qed

lemma alike_get_order:
  assumes "bk_net b = quiet" and "bk_server b = (\<lambda>_. e)" and "undisturbed (se_orders e)" and "status_code_ok (bk_status b)" and "plain_failures b e"
  shows "alike {500, 504} (getOrderHandler (process b e S)) (gatewayGetOrder (bk_status b) (gd_Orders (dependencies_of b)))"
proof (rule alikeI)
  fix r :: http_request and v w :: deployment
  assume F: "fits r v" and S: "served v = served w"
  obtain res d where x: "Get (se_orders e) (the (gatewayUserID r)) (the (hr_PathID r)) (gw_orders v) = (res, d)" by fastforce
  have "o_Status y = 1" if "res = Inr y" for y
    using find_order_created [OF assms(3)] x that F
    by (auto simp: Get_def FindOwned_def fits_def all_created_def split: if_splits)
  moreover have "failure (bk_status b) {ErrOrderNotFound} err" if "res = Inl err" for err
    by (rule Get_failure [OF assms(4) plain_failures_env(3) [OF assms(5)] x [unfolded that]])
  ultimately show "same_end {500, 504} (getOrderHandler (process b e S) r v) (gatewayGetOrder (bk_status b) (gd_Orders (dependencies_of b)) r w)"
    using x S assms(1,2) order_errors_agree [OF assms(4), of "{ErrOrderNotFound}" _ "{500, 504}", unfolded order_errors_def]
    by (cases "gatewayUserID r"; cases "hr_PathID r"; cases res)
      (simp_all add: getOrderHandler_def gatewayGetOrder_def order_route GetOrder_def order_payload answers_agree_def [of _ "OkJson _"]
        answers_agree_def [of _ "invalid _"] answers_agree_def [of _ unauthenticated] del: response_defs, simp_all)
qed

section \<open>The two interfaces\<close>

definition seckill_routes :: "gateway_route set" where
  "seckill_routes = {Post_seckill_order, Get_seckill_result, Post_activity, Post_activity_item, Put_activity_status, Post_preheat}"

text \<open>The statuses with which the gateway may show an internal error of the single process.\<close>

definition late_statuses :: "gateway_route \<Rightarrow> nat set" where
  "late_statuses route = (if route = Post_order then {409, 500, 504} else {500, 504})"


text \<open>A process without a seckill, and a product that is not there.\<close>

definition no_seckill :: "deployment in_process" where
  "no_seckill = \<lparr>ip_Register = \<lambda>_ _ s. (fail ErrInvalidEmail, s), ip_Authenticate = \<lambda>_ _ s. (fail ErrInvalidCredentials, s),
     ip_CurrentUser = \<lambda>_ s. (fail ErrUserNotFound, s), ip_UserRoles = \<lambda>_ s. (Inr [], s), ip_HasPermission = \<lambda>_ _ s. (Inr False, s),
     ip_ReplaceUserRoles = \<lambda>_ _ s. (fail RBAC_ErrUserNotFound, s), ip_ListPublic = \<lambda>_ _ s. (fail ErrInvalidProduct, s),
     ip_GetPublic = \<lambda>_ s. (fail ErrProductNotFound, s), ip_CreateProduct = \<lambda>_ s. (fail ErrInvalidProduct, s),
     ip_UpdateProduct = \<lambda>_ _ _ s. (fail ErrInvalidProduct, s), ip_SetStatus = \<lambda>_ _ s. (fail ErrInvalidProduct, s),
     ip_CreateOrder = \<lambda>_ _ s. (fail ErrInvalidOrder, s), ip_GetOrder = \<lambda>_ _ s. (fail ErrOrderNotFound, s),
     ip_CreateActivity = \<lambda>_ s. (fail ErrInvalidArgument, s), ip_AddItem = \<lambda>_ s. (fail ErrInvalidArgument, s),
     ip_SetActivityStatus = \<lambda>_ _ s. (fail ErrActivityNotFound, s), ip_PreheatActivity = \<lambda>_ s. (fail ErrActivityNotFound, s),
     ip_AsyncEnabled = False, ip_Enqueue = \<lambda>_ _ s. (fail ErrQueueUnavailable, s), ip_Purchase = \<lambda>_ _ s. (fail ErrItemNotFound, s),
     ip_GetAsyncResult = \<lambda>_ _ s. (fail ErrAsyncResultNotFound, s)\<rparr>"


end
