(* ===== verification/Spec2Isabelle.thy ===== *)
theory Spec2Isabelle
  imports LoadReport Startup Pipeline SingleProcess Edge StreamQueue RpcPolicy Inventory OrderRepo Mq Outbox Notification Projector Activities Catalog Purchase Service
begin

text \<open>
  A seckill (flash sale) service in Go: buyers compete for few units of an item, an admission gate in Redis decides at
  once who may buy, and the order follows through services with databases of their own.

  \<^bold>\<open>The program's parts and the theories that model them.\<close> Names under \<open>src/internal\<close>.

  \<^item> \<open>Prelude\<close>: Go's strings, integers, times, errors (\<open>errors.Is\<close>, wrapping), \<open>result = error + value\<close>, and the environment of a call:
    what other processes did before it, and whether it was executed, lost before, or lost after its effect.
  \<^item> \<open>Redis\<close>, \<open>Sql\<close>: the commands of the two stores that the code uses. A keyspace has hashes, streams with consumer groups, expiry and a
    clock; a table is the list of its rows, a transaction is atomic, constraints and \<open>AUTO_INCREMENT\<close> are written out. \<open>Sql\<close>
    also holds the locale \<open>recoverable\<close> of writes that may be repeated.
  \<^item> \<open>Domain\<close>: the types, errors and order numbers of \<open>seckill/seckill.go\<close> and \<open>order/order.go\<close>.
  \<^item> \<open>RedisGate\<close>, \<open>Admission\<close>: \<open>seckill/redisgate/gate.go\<close>, its Lua scripts as functions on the keyspace, and the contract of a gate as the
    locales \<open>admission\<close> and \<open>idempotent_admission\<close>, interpreted on both scripts.
  \<^item> \<open>Activities\<close>: \<open>seckill/activity_service.go\<close>, \<open>queue_service.go\<close>, \<open>mysqlrepo/activity.go\<close>, \<open>seckillrpc/server.go\<close>.
  \<^item> \<open>StreamQueue\<close>: \<open>seckill/streamqueue\<close>, the consumer of the order stream with its retries and dead letters, and the processor
    that reserves stock and then creates the order by RPC.
  \<^item> \<open>Inventory\<close>: \<open>seckill/inventory.go\<close>, \<open>inventory_item.go\<close>, \<open>mysqlrepo/reservation.go\<close>, \<open>mysqlrepo/item.go\<close>, \<open>inventoryrpc/server.go\<close>.
  \<^item> \<open>Catalog\<close>: \<open>product\<close> with repository and server, and \<open>seckill/inventoryrpc/product.go\<close> that freezes a SKU for an item.
  \<^item> \<open>Utf8\<close>: validity of texts and the replacement of invalid bytes by \<open>encoding/json\<close>.
  \<^item> \<open>OrderEvents\<close>, \<open>OrderRepo\<close>, \<open>Outbox\<close>: \<open>order\<close>: events and their JSON, orders written with their event in one transaction, the outbox with
    its leases, and \<open>outboxrelay/relay.go\<close>.
  \<^item> \<open>Mq\<close>: \<open>platform/mq\<close>, the Kafka client's guards and the consumer with retry and dead-letter topics.
  \<^item> \<open>Notification\<close>, \<open>Projector\<close>: the two consumers of order events, \<open>notification\<close> and \<open>seckill/resultprojector\<close>.
  \<^item> \<open>Pipeline\<close>: \<open>cmd/seckill-orchestrator\<close>: the adapters that reserve and order by RPC with retries, and the whole path from a message of
    the stream to the rows of both databases.
  \<^item> \<open>RpcPolicy\<close>: \<open>platform/rpc\<close>, public errors, retries with backoff, the circuit breaker, alone (\<open>Do\<close>) and shared by calls in flight
    (\<open>policy_step\<close>).
  \<^item> \<open>Purchase\<close>, \<open>Service\<close>: the single-process variant, \<open>seckill/mysqlrepo/repository.go\<close> with the three stock strategies and
    \<open>seckill/seckill.go\<close>, the services over the gate and that database.
  \<^item> \<open>Accounts\<close>, \<open>Tokens\<close>: \<open>user\<close> and \<open>rbac\<close> with repositories and server, \<open>auth/token.go\<close>.
  \<^item> \<open>Http\<close>, \<open>Gateway\<close>: \<open>handler\<close>: requests with Go's decoding of JSON, responses, the bearer token, and \<open>gateway_rpc.go\<close> and
    \<open>notification_rpc.go\<close>, every handler and route over the clients it names (\<open>GatewayDependencies\<close>).
  \<^item> \<open>Edge\<close>: \<open>cmd/gateway-api/adapters.go\<close> and the \<open>rpcclient\<close> packages, and the deployment: the gateway over all servers, each with
    the environment of its database, each call over a network with failures.
  \<^item> \<open>SingleProcess\<close>: the other files of \<open>handler\<close>, the same interface over the services in one process.

  \<^item> \<open>Config\<close>: \<open>config/config.go\<close>, \<open>config/rpc.go\<close>: the configuration with its validation, among it the listen address of a server.
  \<^item> \<open>Startup\<close>: \<open>platform/database\<close>, \<open>platform/cache\<close>, \<open>platform/rpc/runtime.go\<close> and the commands under \<open>cmd\<close>: what a process checks,
    opens, closes and serves, as a trace.
  \<^item> \<open>LoadTest\<close>, \<open>LoadReport\<close>: \<open>cmd/loadtest\<close>: its options, preparation, requests and samples, the polling for the results of
    asynchronous orders, and the report with its counts and latencies, over a server that is a parameter.

  \<^bold>\<open>How they interact.\<close> A preheat publishes the items of an activity in Redis. A request takes a unit by one Lua script, which on the
  asynchronous path also appends a task to the item's stream. The stream consumer processes a task by a reservation in the inventory
  service and an order in the order service. The order's transaction writes an event to the outbox, the relay publishes it, and the
  notification consumer and the result projector handle it. Requests come over HTTP: a handler of the gateway checks the token, asks the
  user service for permissions, calls a service through its client and translates the answer.

  \<^bold>\<open>What the lemmas show.\<close> The gate and the databases never sell more than the stock and never twice to one user; each write that is
  repeated after a failure has the effect and the answer of one clean write (interpretations of \<open>recoverable\<close>); the orders of an item stay within
  its stock although they live in another database than the reservations (\<open>orders_within_stock\<close>), and an admitted request becomes an order
  or stays visible (\<open>admitted_becomes_order\<close>, over the locale \<open>stream_work\<close>); nothing that was
  accepted is lost between the stages (\<open>consumeItem_no_loss\<close>, \<open>relay_at_least_once\<close>, \<open>consumer_no_loss\<close>, and below their composition);
  retries are bounded; encodings round-trip; the asynchronous gate refines an abstract counter; the stock strategies are
  equivalent; activities open and close in a safe order over the two stores. At the edge: who may do and see what
  (\<open>admin_needs_permission\<close>, \<open>own_data_only\<close>, \<open>token_identifies\<close>), that registrations, roles and tables stay consistent, that errors come from
  a fixed table, and how the answers of the gateway compare with those of the single process (\<open>gateway_keeps_interface\<close>). Of the processes: they serve only with what they have checked
  (\<open>serves_only_checked\<close>) and close what they opened (\<open>nothing_left_open\<close>). Of the load test: every accepted order is accounted for
  (\<open>async_run_accounted\<close>), every request is counted once and percentiles are nearest ranks.

  \<^bold>\<open>Bounds and fuel.\<close> Loops over data are structural. \<open>Consumer_Run\<close>, \<open>Relay_Run\<close> and the stream consumer run as long as the program does:
  their models follow a given number of rounds, and every property holds for any number. \<open>retryDelay\<close> has a termination proof. The polling of the load test has fuel, of which as many
  units as intervals fit into its time, and two, are enough. Integers
  keep their width: identifiers are 64-bit words, \<open>int64\<close> is \<open>int\<close> with the wrap-around written out where it can occur.

  \<^bold>\<open>What is assumed of code outside the repository.\<close> The Kafka client and broker (\<open>kafka_ok\<close>: records are kept, successful sends are in the
  log, polls go through a partition in order), the digests of the scripts (\<open>sha_ok\<close>), failures of the infrastructure that are not
  duplicate keys (\<open>faults_ok\<close>), and the drawing of random bytes. For users: a password matches its own hash (\<open>bcrypt_ok\<close>), a signed token parses
  to its claims (\<open>jwt_ok\<close>), addresses and the collation of the database (\<open>text_lib\<close>), and \<open>status.Code\<close> of gRPC (\<open>status_code_ok\<close>). For the
  comparison of the two interfaces: the errors of drivers are none of the services' own (\<open>plain_failures\<close>). Three of these are idealised.
  \<open>jwt_ok\<close> takes an accepted text to be a signed one, while the parser ignores the unused bits of the last digit of a signature.
  \<open>honest_server\<close> of the load test takes every answer 202 to arrive whole. \<open>orders_ok\<close> asks for an event for every order, so the demo order
  of migration \<open>000007\<close>, which has none, is not among the databases it describes.

  \<^bold>\<open>Not modelled.\<close> Reading of configuration files, dialling, etcd and signals, which libraries do: the commands take their outcome as a
  parameter; parsing of paths and forms by go-zero, whose result is part of the request; the health check; the migration command, which only
  drives a library; the loss of precision of Lua's numbers above \<open>2^53\<close>, which only stocks beyond that number would show; the
  lengths of text columns. The checking tools and the labs are not part of the service. Logging and metrics.
\<close>

section \<open>From an order to its notification\<close>

lemma one_notice:
  assumes "notifications_ok d" and "consumed (StableEventID ono) d"
  shows "length (filter (\<lambda>n. StableEventID (nt_order_no n) = StableEventID ono) (nd_notifications d)) = 1"
proof -
  let ?ids = "map (\<lambda>n. StableEventID (nt_order_no n)) (nd_notifications d)"
  have ids: "?ids = map nc_event_id (nd_consumptions d)"
    using assms(1) by (auto simp: notifications_ok_def noted_def list_all2_conv_all_nth intro!: nth_equalityI)
  have "distinct ?ids" "StableEventID ono \<in> set ?ids"
    unfolding ids using assms by (auto simp: notifications_ok_def consumed_def image_iff intro: sym)
  moreover have "length (filter (\<lambda>n. f n = x) ns) = 1" if "distinct (map f ns)" "x \<in> set (map f ns)" for f :: "notification_row \<Rightarrow> string" and x ns
    using that by (induction ns) (auto simp: filter_empty_conv image_iff)
  ultimately show ?thesis by blast
qed

lemma event_notified:
  assumes "event_of ord r" and "m_Value m = Json (ob_payload r)" and "Notification_handled m d"
  shows "consumed (StableEventID (or_order_no ord)) d"
  using assms Validate_event_id [OF Decode_Inr(1)] by (fastforce simp: Notification_handled_def event_of_def)

text \<open>C8: an order that counts as published reaches its buyer. Take orders with their events, any run of the relays with any
  failures, and then any session of the notification consumer, with any failures of its database and of the
  broker. If the event of an order is marked as published and the records of the topic lie below the committed
  offsets, then there is exactly one notification for the order, or its event waits on the retry or the
  dead-letter topic.\<close>

theorem published_order_is_notified:
  assumes kafka: "kafka_ok lib lg pos committed"
    and relays: "\<forall>r \<in> set rounds. fair_env (rc_Topic relay) lg (rd_env r)" "relay_inv (rc_Topic relay) lg w0"
      "Relay_Run lib relay hook rounds w0 = (stopped, w, waits)"
    and orders: "orders_ok (order_db.truncate w)"
    and start: "\<forall>p. pos (wd_broker w) p = committed (wd_broker w) p" "notifications_ok d"
      "committed_safe Notification_handled config lg committed (d, wd_broker w)"
    and session: "\<And>m. undisturbed (envs m)"
      "Consumer_Run n lib config (\<lambda>m. Notification_handler (envs m) (nows m) m) ctxErr (d, wd_broker w) = (res, d', b')"
    and caught_up: "\<forall>k \<in> lg b'. r_Topic k = rc_Topic relay \<longrightarrow> r_Offset k < committed b' (place_of k)"
    and order: "ord \<in> set (od_orders w)" "\<forall>r \<in> set (od_outbox w). ob_order_id r = or_id ord \<longrightarrow> ob_status r = OutboxStatusPublished"
  shows "length (filter (\<lambda>n. StableEventID (nt_order_no n) = StableEventID (or_order_no ord)) (nd_notifications d')) = 1 \<or>
    (\<exists>k \<in> lg b'. r_Topic k \<in> {cc_RetryTopic config, cc_DLQTopic config} \<and> r_Key k = or_order_no ord)"
proof -
  have "list_all2 event_of (od_orders w) (od_outbox w)" using orders by (simp add: orders_ok_def order_db.defs)
  with order(1) obtain r where r: "r \<in> set (od_outbox w)" "event_of ord r"
    by (metis in_set_conv_nth list_all2_conv_all_nth)
  have "relay_inv (rc_Topic relay) lg w" using Relay_Run_keeps [OF kafka relays] by blast
  moreover have "ob_status r = OutboxStatusPublished" using order(2) r by (simp add: event_of_def)
  ultimately obtain k where k: "k \<in> lg (wd_broker w)" "r_Topic k = rc_Topic relay" "r_Key k = ob_aggregate_key r"
    "r_Value k = Json (ob_payload r)"
    using r(1) by (auto simp: relay_inv_def in_log_def)
  have k': "k \<in> lg b'" using Consumer_Run_grows [OF kafka session(2)] k(1) by blast
  have h: "handler_ok Notification_handled (\<lambda>m. Notification_handler (envs m) (nows m) m)"
    by (rule Notification_handler_ok [OF session(1)])
  have "safe Notification_handled config d' (lg b') k"
    using consumer_safe [OF kafka h start(1,3) session(2)] caught_up k' k(2) by (auto simp: committed_safe_def all_safe_def)
  moreover have "notifications_ok d'"
  proof (rule Consumer_Run_keeps [where P = notifications_ok, OF _ start(2) session(2)])
    fix m s assume "notifications_ok s"
    then have "notifications_ok (snd (ConsumeOrderCreated (envs m) (nows m) event s))" for event
      using run_notification_ok [OF _ session(1), of s "Consume_event event"] by simp
    then show "notifications_ok (snd (Notification_handler (envs m) (nows m) m s))"
      using \<open>notifications_ok s\<close>
      by (auto simp: Notification_handler_def split: prod.splits sum.splits) (metis snd_conv)+
  qed
  moreover have "r_Key k = or_order_no ord" using k(3) r(2) by (simp add: event_of_def)
  ultimately consider "Notification_handled (message_of k) d'" "notifications_ok d'"
    | k2 where "k2 \<in> lg b'" "r_Topic k2 \<in> {cc_RetryTopic config, cc_DLQTopic config}" "r_Key k2 = or_order_no ord"
    by (auto simp: safe_def)
  then show ?thesis
  proof cases
    case 1
    have "consumed (StableEventID (or_order_no ord)) d'"
      by (rule event_notified [OF r(2) _ 1(1)]) (simp add: message_of_def k(4))
    with one_notice 1(2) show ?thesis by blast
  qed blast
qed

text \<open>An order whose event is pending, the round of the relay that publishes it, and the session that consumes it.\<close>

definition demo_placed :: "memory_broker world" where
  "demo_placed = \<lparr>od_orders = [\<lparr>or_id = 1, or_order_no = ''T1'', or_user_id = 5, or_status = 1, or_total_amount_cent = 9900,
       or_created_at = 0\<rparr>], od_items = [], od_outbox = [demo_row\<lparr>ob_payload := json_of_event demo_notice\<rparr>],
     wd_broker = \<lparr>mb_log = [], mb_pos = (\<lambda>_. 0), mb_committed = (\<lambda>_. 0)\<rparr>\<rparr>"

definition demo_relayed :: "memory_broker world" where
  "demo_relayed = demo_placed\<lparr>
     od_outbox := [(demo_row\<lparr>ob_payload := json_of_event demo_notice\<rparr>)\<lparr>ob_status := OutboxStatusPublished,
       ob_published_at := Some (1000 * second)\<rparr>],
     wd_broker := \<lparr>mb_log = [\<lparr>r_Topic = ''order.created'', r_Key = ''T1'', r_Value = Json (json_of_event demo_notice), r_Headers = [],
       r_Partition = 0, r_Offset = 0\<rparr>], mb_pos = (\<lambda>_. 0), mb_committed = (\<lambda>_. 0)\<rparr>\<rparr>"

abbreviation demo_topics :: "memory_broker kafka_lib" where
  "demo_topics \<equiv> memory_kafka [''order.created'', ''order.retry'']"

lemma demo_relay_round:
  "Relay_Run demo_topics demo_relay None [\<lparr>rd_ctxErr = None, rd_clock = demo_clock, rd_env = quiet, rd_locked = []\<rparr>] demo_placed =
     (None, demo_relayed, [0])"
  unfolding demo_placed_def demo_relayed_def demo_relay_def demo_row_def
  by (simp add: ProcessBatch_def ClaimOutbox_def claim_tx_def Let_def demo_truncate select_due_def claimable_def datetime_ok_def
      IsZero_def zero_time_def byte_def update_outbox_def lease_row_def scan_event_def Publish_def event_message_def memory_kafka_def
      MarkOutboxPublished_def publish_stmt_def held_by_def published_row_def)

abbreviation demo_handler :: "Message \<Rightarrow> notification_db \<Rightarrow> goerr option \<times> notification_db" where
  "demo_handler \<equiv> \<lambda>m. Notification_handler quiet (1700000000000 * millisecond) m"

lemma demo_handles:
  assumes "m_Value m = Json (json_of_event demo_notice)"
  shows "demo_handler m no_notifications = (None, demo_notified)"
proof -
  have "EncodeOrderCreatedV1 demo_notice = Inr (json_of_event demo_notice)"
    by (simp add: EncodeOrderCreatedV1_def demo_notice_ok)
  then have "DecodeOrderCreatedV1 (Some (json_of_event demo_notice)) = Inr demo_notice"
    by (rule Decode_Encode_eq) (simp_all add: event_in_range_def demo_notice_def in_i64_def max_i64_def byte_def)
  with assms demo_consume show ?thesis
    by (simp add: Notification_handler_def Consume_quiet [OF demo_notice_ok] demo_notified_def)
qed

lemma demo_session:
  "\<exists>b'. Consumer_Run 1 demo_topics demo_consumer demo_handler (\<lambda>_. None) (no_notifications, wd_broker demo_relayed) =
     (None, demo_notified, b') \<and> mb_log b' = mb_log (wd_broker demo_relayed) \<and>
     mb_committed b' = (\<lambda>_. 0)((''order.created'', 0) := 1)"
proof -
  note h = demo_handles [of "message_of \<lparr>r_Topic = ''order.created'', r_Key = ''T1'', r_Value = Json (json_of_event demo_notice),
     r_Headers = [], r_Partition = 0, r_Offset = 0\<rparr>"]
  show ?thesis
    using h
    by (simp add: ProcessOne_def Fetch_def memory_kafka_def demo_relayed_def demo_placed_def deliverable_def place_of_def message_of_def
        Attempt_def Commit_def)
qed

theorem published_order_is_notified_witness:
  "\<exists>b'. Consumer_Run 1 demo_topics demo_consumer demo_handler (\<lambda>_. None) (no_notifications, wd_broker demo_relayed) =
     (None, demo_notified, b') \<and>
   length (filter (\<lambda>n. StableEventID (nt_order_no n) = StableEventID ''T1'') (nd_notifications demo_notified)) = 1"
proof -
  obtain b' where run: "Consumer_Run 1 demo_topics demo_consumer demo_handler (\<lambda>_. None) (no_notifications, wd_broker demo_relayed) =
      (None, demo_notified, b')"
    and b': "mb_log b' = mb_log (wd_broker demo_relayed)" "mb_committed b' = (\<lambda>_. 0)((''order.created'', 0) := 1)"
    using demo_session by blast
  let ?lg = "\<lambda>b. set (mb_log b)" and ?round = "\<lparr>rd_ctxErr = None, rd_clock = demo_clock, rd_env = quiet, rd_locked = []\<rparr>"
  let ?ord = "\<lparr>or_id = 1, or_order_no = ''T1'', or_user_id = 5, or_status = 1, or_total_amount_cent = 9900, or_created_at = 0\<rparr>"
  have "EncodeOrderCreatedV1 demo_notice = Inr (json_of_event demo_notice)"
    by (simp add: EncodeOrderCreatedV1_def demo_notice_ok)
  then have dec: "DecodeOrderCreatedV1 (Some (json_of_event demo_notice)) = Inr demo_notice"
    by (rule Decode_Encode_eq) (simp_all add: event_in_range_def demo_notice_def in_i64_def max_i64_def byte_def)
  have "length (filter (\<lambda>n. StableEventID (nt_order_no n) = StableEventID (or_order_no ?ord)) (nd_notifications demo_notified)) = 1 \<or>
    (\<exists>k \<in> ?lg b'. r_Topic k \<in> {cc_RetryTopic demo_consumer, cc_DLQTopic demo_consumer} \<and> r_Key k = or_order_no ?ord)"
  proof (rule published_order_is_notified [OF memory_kafka_ok _ _ demo_relay_round _ _ no_notifications_ok _ _ run])
    show "\<forall>r \<in> set [?round]. fair_env (rc_Topic demo_relay) ?lg (rd_env r)"
      by (simp add: fair_env_def outbox_evolves_refl quiet_def)
    show "relay_inv (rc_Topic demo_relay) ?lg demo_placed"
      by (simp add: relay_inv_def demo_placed_def demo_row_def)
    show "orders_ok (order_db.truncate demo_relayed)"
      using dec
      by (simp add: orders_ok_def tables_ok_def event_of_def demo_relayed_def demo_placed_def demo_row_def order_db.defs numbered_def
          item_ids_def StableEventID_def byte_def) (simp add: demo_notice_def)
    show "committed_safe Notification_handled demo_consumer ?lg mb_committed (no_notifications, wd_broker demo_relayed)"
      by (simp add: committed_safe_def all_safe_def demo_relayed_def)
    show "\<forall>k \<in> ?lg b'. r_Topic k = rc_Topic demo_relay \<longrightarrow> r_Offset k < mb_committed b' (place_of k)"
      by (simp add: b' demo_relayed_def demo_relay_def place_of_def)
  qed (simp_all add: demo_relayed_def demo_placed_def demo_row_def)
  then show ?thesis using run b' by (auto simp: demo_relayed_def demo_consumer_def)
qed

end
